(* ===== verification/T1_Prelude.thy ===== *)
theory T1_Prelude
  imports Main
begin

text \<open>
  Shared vocabulary of the development: Python text as lists of code points, Python bytes
  as lists of naturals below 256, the string methods the sources call (\<open>strip\<close>,
  \<open>split\<close>, \<open>partition\<close>, \<open>startswith\<close>, \<open>str\<close> of an integer), UTF-8 encoding, the
  exceptions of the modelled modules as a datatype, and results that are either an exception
  or a value.  The generic lemmas on these are collected in \<open>py_simps\<close> and \<open>py_text\<close>.
\<close>

named_theorems py_simps \<open>unfolding rules for the Python vocabulary\<close>
named_theorems py_text \<open>facts on splitting, joining and printing text\<close>

type_synonym cp = nat
type_synonym pystr = "cp list"
type_synonym bytes = "nat list"

definition cps :: "string \<Rightarrow> pystr" where
  "cps s = map of_char s"

lemma cps_Nil [simp]: "cps [] = []"
  by (simp add: cps_def)

lemma cps_Cons [simp]: "cps (c # s) = of_char c # cps s"
  by (simp add: cps_def)

lemma length_cps [simp]: "length (cps s) = length s"
  by (simp add: cps_def)

lemma cps_append: "cps (s @ t) = cps s @ cps t"
  by (simp add: cps_def)

definition bytes_ok :: "bytes \<Rightarrow> bool" where
  "bytes_ok bs \<longleftrightarrow> (\<forall>b \<in> set bs. b < 256)"

lemma bytes_ok_simps [simp]:
  "bytes_ok []"
  "bytes_ok (b # bs) \<longleftrightarrow> b < 256 \<and> bytes_ok bs"
  "bytes_ok (xs @ ys) \<longleftrightarrow> bytes_ok xs \<and> bytes_ok ys"
  by (auto simp: bytes_ok_def)

section \<open>Exceptions and results\<close>

datatype pyerr =
    ValueError
  | TypeError
  | AttributeError
  | AuthenticationError
  | FileNotFoundError
  | FileExistsError
  | OSError
  | PermissionError
  | IsADirectoryError
  | NotADirectoryError
  | IndexError
  | KeyboardInterrupt

text \<open>What \<open>except Exception\<close> catches.  The user can interrupt a program only where the shell asks a question.\<close>

definition is_exception :: "pyerr \<Rightarrow> bool" where
  "is_exception err \<longleftrightarrow> err \<noteq> KeyboardInterrupt"

type_synonym 'a res = "pyerr + 'a"

definition rbind :: "'a res \<Rightarrow> ('a \<Rightarrow> 'b res) \<Rightarrow> 'b res" where
  "rbind m f = (case m of Inl e \<Rightarrow> Inl e | Inr x \<Rightarrow> f x)"

lemma rbind_simps [simp]:
  "rbind (Inl e) f = Inl e"
  "rbind (Inr x) f = f x"
  by (simp_all add: rbind_def)

lemma rbind_eq_Inr: "rbind m f = Inr y \<longleftrightarrow> (\<exists>x. m = Inr x \<and> f x = Inr y)"
  by (cases m) auto

lemma rbind_eq_Inl: "rbind m f = Inl e \<longleftrightarrow> m = Inl e \<or> (\<exists>x. m = Inr x \<and> f x = Inl e)"
  by (cases m) auto

lemma rbind_assoc: "rbind (rbind m f) g = rbind m (\<lambda>x. rbind (f x) g)"
  by (cases m) auto

lemma rbind_cong [fundef_cong]:
  "m = m' \<Longrightarrow> (\<And>x. m' = Inr x \<Longrightarrow> f x = f' x) \<Longrightarrow> rbind m f = rbind m' f'"
  by (cases m') auto

definition guard_res :: "bool \<Rightarrow> pyerr \<Rightarrow> unit res" where
  "guard_res b e = (if b then Inr () else Inl e)"

lemma guard_res_simps [simp]:
  "guard_res True e = Inr ()"
  "guard_res False e = Inl e"
  by (simp_all add: guard_res_def)

lemma guard_res_eq_Inr [simp]: "guard_res b e = Inr u \<longleftrightarrow> b"
  by (simp add: guard_res_def)

section \<open>Integers\<close>

definition clampi :: "int \<Rightarrow> int \<Rightarrow> int \<Rightarrow> int" where
  "clampi lo hi x = max lo (min hi x)"

lemma clampi_bounds: "lo \<le> hi \<Longrightarrow> lo \<le> clampi lo hi x \<and> clampi lo hi x \<le> hi"
  by (simp add: clampi_def)

lemma clampi_id: "lo \<le> x \<Longrightarrow> x \<le> hi \<Longrightarrow> clampi lo hi x = x"
  by (simp add: clampi_def)

section \<open>String methods\<close>

definition py_isspace :: "cp \<Rightarrow> bool" where
  "py_isspace c \<longleftrightarrow> (9 \<le> c \<and> c \<le> 13) \<or> (28 \<le> c \<and> c \<le> 32) \<or> c = 133 \<or> c = 160 \<or> c = 5760
     \<or> (8192 \<le> c \<and> c \<le> 8202) \<or> c = 8232 \<or> c = 8233 \<or> c = 8239 \<or> c = 8287 \<or> c = 12288"

definition lstrip :: "('a \<Rightarrow> bool) \<Rightarrow> 'a list \<Rightarrow> 'a list" where
  "lstrip p s = dropWhile p s"

definition rstrip :: "('a \<Rightarrow> bool) \<Rightarrow> 'a list \<Rightarrow> 'a list" where
  "rstrip p s = rev (dropWhile p (rev s))"

definition strip :: "pystr \<Rightarrow> pystr" where
  "strip s = rstrip py_isspace (lstrip py_isspace s)"

lemma dropWhile_none: "\<forall>x \<in> set xs. \<not> p x \<Longrightarrow> dropWhile p xs = xs"
  by (cases xs) auto

lemma strip_none [py_text]: "\<forall>c \<in> set s. \<not> py_isspace c \<Longrightarrow> strip s = s"
  by (simp add: strip_def lstrip_def rstrip_def dropWhile_none)

lemma set_dropWhile_subset: "set (dropWhile p xs) \<subseteq> set xs"
  by (meson set_dropWhileD subsetI)

lemma set_strip: "set (strip s) \<subseteq> set s"
  unfolding strip_def lstrip_def rstrip_def
  using set_dropWhile_subset [of py_isspace "rev (dropWhile py_isspace s)"]
    set_dropWhile_subset [of py_isspace s] by auto

fun split_on :: "cp \<Rightarrow> pystr \<Rightarrow> pystr list" where
  "split_on c [] = [[]]"
| "split_on c (x # xs) =
     (if x = c then [] # split_on c xs
      else (case split_on c xs of [] \<Rightarrow> [[x]] | y # ys \<Rightarrow> (x # y) # ys))"

fun join_with :: "cp \<Rightarrow> pystr list \<Rightarrow> pystr" where
  "join_with c [] = []"
| "join_with c [x] = x"
| "join_with c (x # y # ys) = x @ c # join_with c (y # ys)"

lemma split_on_nonempty [simp]: "split_on c s \<noteq> []"
  by (induction s) (auto split: list.splits)

lemma split_on_no_sep [py_text]: "c \<notin> set s \<Longrightarrow> split_on c s = [s]"
  by (induction s) auto

lemma split_on_append_sep [py_text]:
  "c \<notin> set x \<Longrightarrow> split_on c (x @ c # r) = x # split_on c r"
  by (induction x) auto

lemma split_on_join [py_text]:
  "xs \<noteq> [] \<Longrightarrow> \<forall>x \<in> set xs. c \<notin> set x \<Longrightarrow> split_on c (join_with c xs) = xs"
  by (induction c xs rule: join_with.induct) (auto simp: split_on_no_sep split_on_append_sep)

lemma join_split_on [py_text]: "join_with c (split_on c s) = s"
proof (induction s)
  case Nil
  then show ?case by simp
next
  case (Cons a s)
  obtain y ys where ys: "split_on c s = y # ys"
    by (cases "split_on c s") auto
  show ?case using Cons ys by (cases ys) auto
qed

lemma split_on_parts_no_sep: "x \<in> set (split_on c s) \<Longrightarrow> c \<notin> set x"
proof (induction s arbitrary: x)
  case Nil
  then show ?case by simp
next
  case (Cons a s)
  obtain y ys where ys: "split_on c s = y # ys"
    by (cases "split_on c s") auto
  show ?case using Cons ys by (auto split: if_splits)
qed

text \<open>\<open>s.partition(sep)\<close> and \<open>s.split(sep, 1)\<close> for a one-character separator.\<close>

definition partition_on :: "cp \<Rightarrow> pystr \<Rightarrow> pystr \<times> pystr" where
  "partition_on c s = (takeWhile (\<lambda>x. x \<noteq> c) s, drop 1 (dropWhile (\<lambda>x. x \<noteq> c) s))"

lemma takeWhile_neq_append: "c \<notin> set x \<Longrightarrow> takeWhile (\<lambda>y. y \<noteq> c) (x @ c # r) = x"
  by (induction x) auto

lemma dropWhile_neq_append: "c \<notin> set x \<Longrightarrow> dropWhile (\<lambda>y. y \<noteq> c) (x @ c # r) = c # r"
  by (induction x) auto

lemma partition_on_append [py_text]: "c \<notin> set x \<Longrightarrow> partition_on c (x @ c # r) = (x, r)"
  by (simp add: partition_on_def takeWhile_neq_append dropWhile_neq_append)

definition starts_with :: "'a list \<Rightarrow> 'a list \<Rightarrow> bool" where
  "starts_with p s \<longleftrightarrow> take (length p) s = p"

lemma starts_with_append [simp]: "starts_with p (p @ r)"
  by (simp add: starts_with_def)

lemma starts_with_iff: "starts_with p q \<longleftrightarrow> (\<exists>r. q = p @ r)"
  by (metis append_eq_conv_conj starts_with_def)

lemma starts_with_refl [simp]: "starts_with p p"
  by (simp add: starts_with_def)

lemma starts_with_trans: "starts_with p q \<Longrightarrow> starts_with q r \<Longrightarrow> starts_with p r"
  by (auto simp: starts_with_iff)

text \<open>\<open>str.splitlines\<close>; each line takes a character at least, so the length of the text is enough
  rounds.\<close>

definition is_linebreak :: "cp \<Rightarrow> bool" where
  "is_linebreak c \<longleftrightarrow> (10 \<le> c \<and> c \<le> 13) \<or> (28 \<le> c \<and> c \<le> 30) \<or> c = 133 \<or> c = 8232 \<or> c = 8233"

fun splitlines :: "nat \<Rightarrow> pystr \<Rightarrow> pystr list" where
  "splitlines 0 s = []"
| "splitlines (Suc n) s =
     (if s = [] then []
      else let first = takeWhile (\<lambda>c. \<not> is_linebreak c) s; rest = dropWhile (\<lambda>c. \<not> is_linebreak c) s
           in first # splitlines n (case rest of [] \<Rightarrow> [] | b # r \<Rightarrow>
                if b = 13 \<and> r \<noteq> [] \<and> hd r = 10 then tl r else r))"

lemma splitlines_line:
  assumes "\<forall>c \<in> set l. \<not> is_linebreak c"
  shows "splitlines (Suc n) (l @ 10 # r) = l # splitlines n r"
proof -
  have t: "takeWhile (\<lambda>c. \<not> is_linebreak c) (l @ 10 # r) = l" "dropWhile (\<lambda>c. \<not> is_linebreak c) (l @ 10 # r) = 10 # r"
    using assms by (induction l) (auto simp: is_linebreak_def)
  show ?thesis by (simp add: t Let_def)
qed

lemma splitlines_chars: "l \<in> set (splitlines n s) \<Longrightarrow> x \<in> set l \<Longrightarrow> x \<in> set s \<and> \<not> is_linebreak x"
proof (induction n arbitrary: s)
  case 0
  then show ?case by simp
next
  case (Suc n)
  let ?rest = "case dropWhile (\<lambda>c. \<not> is_linebreak c) s of [] \<Rightarrow> [] | b # r \<Rightarrow> if b = 13 \<and> r \<noteq> [] \<and> hd r = 10 then tl r else r"
  have sub: "set ?rest \<subseteq> set s"
  proof (cases "dropWhile (\<lambda>c. \<not> is_linebreak c) s")
    case Nil
    show ?thesis unfolding Nil by simp
  next
    case (Cons b r)
    then have "set (b # r) \<subseteq> set s" using set_dropWhile_subset [of "\<lambda>c. \<not> is_linebreak c" s] by metis
    moreover have "set (tl r) \<subseteq> set r" by (cases r) auto
    ultimately have "set r \<subseteq> set s" "set (tl r) \<subseteq> set s" by auto
    then show ?thesis unfolding Cons by simp
  qed
  from Suc.prems(1) have "l = takeWhile (\<lambda>c. \<not> is_linebreak c) s \<or> l \<in> set (splitlines n ?rest)"
    by (auto simp: Let_def split: if_splits)
  then show ?case
  proof
    assume "l = takeWhile (\<lambda>c. \<not> is_linebreak c) s"
    then show ?thesis using Suc.prems(2) by (auto dest: set_takeWhileD)
  next
    assume "l \<in> set (splitlines n ?rest)"
    then show ?thesis using Suc.IH Suc.prems(2) sub by blast
  qed
qed

section \<open>Decimal numbers\<close>

definition is_digit :: "cp \<Rightarrow> bool" where
  "is_digit c \<longleftrightarrow> 48 \<le> c \<and> c \<le> 57"

fun dec_nat :: "nat \<Rightarrow> pystr" where
  "dec_nat n = (if n < 10 then [48 + n] else dec_nat (n div 10) @ [48 + n mod 10])"

declare dec_nat.simps [simp del]

definition dec_val :: "pystr \<Rightarrow> nat" where
  "dec_val s = foldl (\<lambda>a d. 10 * a + (d - 48)) 0 s"

lemma dec_nat_nonempty [simp]: "dec_nat n \<noteq> []"
  by (subst dec_nat.simps) simp

lemma dec_nat_digits: "\<forall>c \<in> set (dec_nat n). is_digit c"
proof (induction n rule: dec_nat.induct)
  case (1 n)
  show ?case
  proof (cases "n < 10")
    case True
    then show ?thesis by (subst dec_nat.simps) (simp add: is_digit_def)
  next
    case False
    with "1.IH" have ih: "\<forall>c \<in> set (dec_nat (n div 10)). is_digit c" by simp
    have "n mod 10 < 10" by simp
    then have "is_digit (48 + n mod 10)" unfolding is_digit_def by linarith
    with False ih show ?thesis by (subst dec_nat.simps) auto
  qed
qed

lemma dec_val_snoc: "dec_val (s @ [c]) = 10 * dec_val s + (c - 48)"
  by (simp add: dec_val_def)

lemma dec_val_dec_nat [simp]: "dec_val (dec_nat n) = n"
proof (induction n rule: dec_nat.induct)
  case (1 n)
  show ?case
  proof (cases "n < 10")
    case True
    then show ?thesis by (subst dec_nat.simps) (simp add: dec_val_def)
  next
    case False
    with "1.IH" have "dec_val (dec_nat (n div 10)) = n div 10" by simp
    with False show ?thesis by (subst dec_nat.simps) (simp add: dec_val_snoc)
  qed
qed

lemma dec_nat_length_mono: "m \<le> n \<Longrightarrow> length (dec_nat m) \<le> length (dec_nat n)"
proof (induction n arbitrary: m rule: dec_nat.induct)
  case (1 n)
  show ?case
  proof (cases "n < 10")
    case True
    with "1.prems" show ?thesis
      by (simp add: dec_nat.simps [of n] dec_nat.simps [of m])
  next
    case False
    show ?thesis
    proof (cases "m < 10")
      case True
      with False show ?thesis
        by (simp add: dec_nat.simps [of m] dec_nat.simps [of n])
    next
      case m: False
      from "1.prems" have "m div 10 \<le> n div 10" by (rule div_le_mono)
      with "1.IH" False have "length (dec_nat (m div 10)) \<le> length (dec_nat (n div 10))"
        by simp
      with False m show ?thesis
        by (simp add: dec_nat.simps [of m] dec_nat.simps [of n])
    qed
  qed
qed

definition dec_int :: "int \<Rightarrow> pystr" where
  "dec_int i = (if i < 0 then 45 # dec_nat (nat (- i)) else dec_nat (nat i))"

text \<open>\<open>bytes.hex\<close>.\<close>

definition hex_char :: "nat \<Rightarrow> cp" where
  "hex_char d = (if d < 10 then 48 + d else 87 + d)"

definition hex_of :: "bytes \<Rightarrow> pystr" where
  "hex_of bs = concat (map (\<lambda>b. [hex_char (b div 16), hex_char (b mod 16)]) bs)"

section \<open>UTF-8 encoding\<close>

definition is_surrogate :: "cp \<Rightarrow> bool" where
  "is_surrogate c \<longleftrightarrow> 55296 \<le> c \<and> c \<le> 57343"

definition cp_ok :: "cp \<Rightarrow> bool" where
  "cp_ok c \<longleftrightarrow> c < 1114112"

definition utf8_cp :: "cp \<Rightarrow> bytes" where
  "utf8_cp c =
     (if c < 128 then [c]
      else if c < 2048 then [192 + c div 64, 128 + c mod 64]
      else if c < 65536 then [224 + c div 4096, 128 + (c div 64) mod 64, 128 + c mod 64]
      else [240 + c div 262144, 128 + (c div 4096) mod 64, 128 + (c div 64) mod 64,
            128 + c mod 64])"

text \<open>\<open>s.encode('utf-8')\<close> raises \<open>UnicodeEncodeError\<close>, a \<open>ValueError\<close>, on a surrogate;
  with \<open>errors='replace'\<close> each surrogate becomes one question mark.\<close>

definition utf8_strict :: "pystr \<Rightarrow> bytes res" where
  "utf8_strict s = (if list_ex is_surrogate s then Inl ValueError else Inr (concat (map utf8_cp s)))"

definition utf8_replace :: "pystr \<Rightarrow> bytes" where
  "utf8_replace s = concat (map (\<lambda>c. if is_surrogate c then [63] else utf8_cp c) s)"

lemma length_utf8_cp: "1 \<le> length (utf8_cp c) \<and> length (utf8_cp c) \<le> 4"
  by (simp add: utf8_cp_def)

lemma length_concat_utf8: "length (concat (map utf8_cp s)) \<le> 4 * length s"
proof (induction s)
  case Nil
  then show ?case by simp
next
  case (Cons c s)
  then show ?case using length_utf8_cp [of c] by simp
qed

lemma utf8_strict_length: "utf8_strict s = Inr bs \<Longrightarrow> length bs \<le> 4 * length s"
  by (auto simp: utf8_strict_def length_concat_utf8 split: if_splits)

lemma utf8_cp_ascii [simp]: "c < 128 \<Longrightarrow> utf8_cp c = [c]"
  by (simp add: utf8_cp_def)

lemma ascii_not_surrogate: "c < 128 \<Longrightarrow> \<not> is_surrogate c"
  by (simp add: is_surrogate_def)

lemma concat_utf8_ascii: "\<forall>c \<in> set s. c < 128 \<Longrightarrow> concat (map utf8_cp s) = s"
  by (induction s) auto

lemma utf8_strict_ascii [py_text]: "\<forall>c \<in> set s. c < 128 \<Longrightarrow> utf8_strict s = Inr s"
  by (auto simp: utf8_strict_def concat_utf8_ascii list_ex_iff dest: ascii_not_surrogate)

lemma utf8_replace_ascii [py_text]: "\<forall>c \<in> set s. c < 128 \<Longrightarrow> utf8_replace s = s"
  by (induction s) (auto simp: utf8_replace_def dest: ascii_not_surrogate)

lemma utf8_cp_bytes: "cp_ok c \<Longrightarrow> bytes_ok (utf8_cp c)"
  by (auto simp: cp_ok_def utf8_cp_def)

end
