(* ===== verification/Utf8_Decoder.thy ===== *)
theory Utf8_Decoder
  imports T1_Prelude
begin

text \<open>
  The incremental UTF-8 decoder with replacement (\<open>codecs.getincrementaldecoder\<close>) as the
  console uses it, one byte at a time: bytes of an incomplete sequence are pending; a byte
  that cannot continue the sequence yields one U+FFFD for the pending bytes and starts anew.
\<close>

definition REPLACEMENT :: cp where
  "REPLACEMENT = 65533"

definition utf8_start :: "nat \<Rightarrow> pystr \<times> bytes" where
  "utf8_start b =
     (if b < 128 then ([b], []) else if 194 \<le> b \<and> b \<le> 244 then ([], [b]) else ([REPLACEMENT], []))"

definition utf8_length :: "nat \<Rightarrow> nat" where
  "utf8_length lead = (if lead < 224 then 2 else if lead < 240 then 3 else 4)"

text \<open>The range of the next byte: the second byte of a sequence is restricted after the
  leads E0, ED, F0 and F4.\<close>

definition utf8_continues :: "bytes \<Rightarrow> nat \<Rightarrow> bool" where
  "utf8_continues p b \<longleftrightarrow>
     (let lead = hd p; second = (length p = 1);
          lo = (if second \<and> lead = 224 then 160 else if second \<and> lead = 240 then 144 else 128);
          hi = (if second \<and> lead = 237 then 159 else if second \<and> lead = 244 then 143 else 191)
      in lo \<le> b \<and> b \<le> hi)"

fun utf8_value :: "bytes \<Rightarrow> cp" where
  "utf8_value [a, b] = (a - 192) * 64 + (b - 128)"
| "utf8_value [a, b, c] = (a - 224) * 4096 + (b - 128) * 64 + (c - 128)"
| "utf8_value [a, b, c, d] = (a - 240) * 262144 + (b - 128) * 4096 + (c - 128) * 64 + (d - 128)"
| "utf8_value _ = REPLACEMENT"

definition utf8_step :: "bytes \<Rightarrow> nat \<Rightarrow> pystr \<times> bytes" where
  "utf8_step p b =
     (if p = [] then utf8_start b
      else if utf8_continues p b then
        (if length p + 1 = utf8_length (hd p) then ([utf8_value (p @ [b])], []) else ([], p @ [b]))
      else (REPLACEMENT # fst (utf8_start b), snd (utf8_start b)))"

fun utf8_run :: "bytes \<Rightarrow> bytes \<Rightarrow> pystr \<times> bytes" where
  "utf8_run p [] = ([], p)"
| "utf8_run p (b # bs) =
     (let (out, p1) = utf8_step p b; (rest, p2) = utf8_run p1 bs in (out @ rest, p2))"

definition utf8_final :: "bytes \<Rightarrow> pystr" where
  "utf8_final p = (if p = [] then [] else [REPLACEMENT])"

definition utf8_decode :: "bytes \<Rightarrow> pystr" where
  "utf8_decode bs = (let (out, p) = utf8_run [] bs in out @ utf8_final p)"

text \<open>\<open>data.decode("utf-8", errors="strict")\<close>: well-formed input is what encoding its decoding
  gives back.\<close>

definition utf8_decode_strict :: "bytes \<Rightarrow> pystr res" where
  "utf8_decode_strict bs =
     (if concat (map utf8_cp (utf8_decode bs)) = bs then Inr (utf8_decode bs) else Inl ValueError)"

text \<open>Reading in text mode: strict decoding, then every \<open>CR LF\<close> and \<open>CR\<close> becomes \<open>LF\<close>.\<close>

fun newlines :: "pystr \<Rightarrow> pystr" where
  "newlines [] = []"
| "newlines (c # s) =
     (if c = 13 then 10 # (case s of [] \<Rightarrow> [] | c2 # r \<Rightarrow> if c2 = 10 then newlines r else newlines s)
      else c # newlines s)"

definition decode_text :: "bytes \<Rightarrow> pystr res" where
  "decode_text bs = rbind (utf8_decode_strict bs) (\<lambda>s. Inr (newlines s))"

lemma utf8_run_append:
  "utf8_run p (xs @ ys) =
     (let (out, q) = utf8_run p xs; (rest, q') = utf8_run q ys in (out @ rest, q'))"
  by (induction xs arbitrary: p) (auto simp: Let_def split: prod.splits)

definition pending_ok :: "bytes \<Rightarrow> bool" where
  "pending_ok p \<longleftrightarrow> p = [] \<or> length p < utf8_length (hd p)"

lemma pending_ok_Nil [simp]: "pending_ok []"
  by (simp add: pending_ok_def)

lemma utf8_step_pending: "pending_ok p \<Longrightarrow> pending_ok (snd (utf8_step p b))"
proof -
  assume p: "pending_ok p"
  have "1 < utf8_length b" for b by (simp add: utf8_length_def)
  then have "pending_ok (snd (utf8_start b))" by (simp add: pending_ok_def utf8_start_def)
  with p show ?thesis by (auto simp: utf8_step_def pending_ok_def)
qed

lemma pending_ok_length: "pending_ok p \<Longrightarrow> length p \<le> 3"
  by (auto simp: pending_ok_def utf8_length_def split: if_splits)

text \<open>Decoding the encoding of a code point.  The four lengths are treated in turn.\<close>

lemma utf8_run_cp2:
  assumes "128 \<le> c" "c < 2048"
  shows "utf8_run [] (utf8_cp c) = ([c], [])"
proof -
  define q r where "q = c div 64" and "r = c mod 64"
  have c: "c = 64 * q + r" and r: "r < 64" by (simp_all add: q_def r_def)
  with assms have q: "2 \<le> q" "q < 32" by linarith+
  have e: "utf8_cp c = [192 + q, 128 + r]"
    using assms by (simp add: utf8_cp_def q_def r_def)
  show ?thesis
    unfolding e using q r by (simp add: utf8_step_def utf8_start_def utf8_continues_def
        utf8_length_def Let_def c)
qed

lemma utf8_run_cp3:
  assumes "2048 \<le> c" "c < 65536" "\<not> is_surrogate c"
  shows "utf8_run [] (utf8_cp c) = ([c], [])"
proof -
  define x y z where "x = c div 4096" and "y = c div 64 mod 64" and "z = c mod 64"
  have "c div 64 = 64 * x + y"
    using mult_div_mod_eq [of 64 "c div 64"] by (simp add: x_def y_def flip: div_mult2_eq)
  moreover have "c = 64 * (c div 64) + z" by (simp add: z_def)
  ultimately have c: "c = 4096 * x + 64 * y + z" by simp
  have yz: "y < 64" "z < 64" by (simp_all add: y_def z_def)
  have x: "x < 16" using assms c by linarith
  have lo: "x = 0 \<Longrightarrow> 32 \<le> y" using assms(1) c yz by linarith
  have hi: "x = 13 \<Longrightarrow> y < 32"
    using assms(3) c yz by (auto simp: is_surrogate_def)
  have e: "utf8_cp c = [224 + x, 128 + y, 128 + z]"
    using assms by (simp add: utf8_cp_def x_def y_def z_def)
  show ?thesis
    unfolding e using x yz lo hi
    by (auto simp: utf8_step_def utf8_start_def utf8_continues_def utf8_length_def Let_def c)
qed

lemma utf8_run_cp4:
  assumes "65536 \<le> c" "cp_ok c"
  shows "utf8_run [] (utf8_cp c) = ([c], [])"
proof -
  define w x y z where "w = c div 262144" and "x = c div 4096 mod 64" and "y = c div 64 mod 64"
    and "z = c mod 64"
  have "c div 64 = 64 * (c div 4096) + y"
    using mult_div_mod_eq [of 64 "c div 64"] by (simp add: y_def flip: div_mult2_eq)
  moreover have "c div 4096 = 64 * w + x"
    using mult_div_mod_eq [of 64 "c div 4096"] by (simp add: w_def x_def flip: div_mult2_eq)
  moreover have "c = 64 * (c div 64) + z" by (simp add: z_def)
  ultimately have c: "c = 262144 * w + 4096 * x + 64 * y + z" by simp
  have xyz: "x < 64" "y < 64" "z < 64" by (simp_all add: x_def y_def z_def)
  have w: "w \<le> 4" using assms c by (simp add: cp_ok_def)
  have lo: "w = 0 \<Longrightarrow> 16 \<le> x" using assms(1) c xyz by linarith
  have hi: "w = 4 \<Longrightarrow> x < 16" using assms(2) c xyz by (simp add: cp_ok_def)
  have e: "utf8_cp c = [240 + w, 128 + x, 128 + y, 128 + z]"
    using assms by (simp add: utf8_cp_def w_def x_def y_def z_def)
  show ?thesis
    unfolding e using w xyz lo hi
    by (auto simp: utf8_step_def utf8_start_def utf8_continues_def utf8_length_def Let_def c)
qed

lemma utf8_run_cp: "cp_ok c \<Longrightarrow> \<not> is_surrogate c \<Longrightarrow> utf8_run [] (utf8_cp c) = ([c], [])"
  by (cases "c < 128"; cases "c < 2048"; cases "c < 65536")
     (simp_all add: utf8_run_cp2 utf8_run_cp3 utf8_run_cp4 utf8_step_def utf8_start_def Let_def)

lemma utf8_run_encoded:
  "\<forall>c \<in> set s. cp_ok c \<and> \<not> is_surrogate c \<Longrightarrow> utf8_run [] (concat (map utf8_cp s)) = (s, [])"
  by (induction s) (simp_all add: utf8_run_append utf8_run_cp Let_def)

lemma utf8_decode_encode:
  assumes "\<forall>c \<in> set s. cp_ok c" and "utf8_strict s = Inr bs"
  shows "utf8_decode bs = s"
proof -
  from assms have "bs = concat (map utf8_cp s)" and "\<forall>c \<in> set s. cp_ok c \<and> \<not> is_surrogate c"
    by (auto simp: utf8_strict_def list_ex_iff split: if_splits)
  then show ?thesis by (simp add: utf8_decode_def utf8_run_encoded utf8_final_def)
qed

lemma newlines_id: "13 \<notin> set s \<Longrightarrow> newlines s = s"
  by (induction s) auto

lemma decode_text_encoded:
  assumes "utf8_strict raw = Inr bs" "\<forall>c \<in> set raw. cp_ok c" "13 \<notin> set raw"
  shows "decode_text bs = Inr raw"
proof -
  have "concat (map utf8_cp raw) = bs" using assms(1) by (auto simp: utf8_strict_def split: if_splits)
  then show ?thesis
    using utf8_decode_encode [OF assms(2,1)] newlines_id [OF assms(3)] by (simp add: decode_text_def utf8_decode_strict_def)
qed

end
