(* ===== verification/Write_State.thy ===== *)
theory Write_State
  imports Complex_Main Utf8_Decoder
begin

text \<open>
  The state of the editor (\<open>write.py\<close>): the lines of the document with their identities, the caret and the
  selection, the index of wrapped lines, the index of line widths and the history, each as the globals of the
  module.  Fonts are measured by the graphics library, whose answers are parameters (\<open>wenv\<close>), as are Python's
  \<open>isalnum\<close>, \<open>isprintable\<close>, \<open>lower\<close> and \<open>upper\<close>, the clock, the size of the window, and what the clipboard answers.
\<close>

section \<open>Environment\<close>

record wenv =
  measuretext :: "pystr \<Rightarrow> int \<Rightarrow> pystr option \<Rightarrow> int res"
  measurelineadvances :: "pystr \<Rightarrow> int \<Rightarrow> pystr \<Rightarrow> int list"
  WIN_W :: int
  MARGIN_LEFT :: int
  SCROLLBAR_WIDTH :: int
  CURSOR_WIDTH :: int
  we_isalnum :: "cp \<Rightarrow> bool"
  we_isprintable :: "cp \<Rightarrow> bool"
  we_lower :: "pystr \<Rightarrow> pystr"
  we_upper :: "pystr \<Rightarrow> pystr"
  we_time :: rat
  we_exget :: "pystr option"
  we_exset :: bool

section \<open>State\<close>

type_synonym caret = "int \<times> int"
type_synonym segment = "nat \<times> nat"
type_synonym wrapkey = "int \<times> int \<times> int \<times> int \<times> pystr"

text \<open>The wrapped layout.  The cache is a dictionary in the order of its use.  \<open>WRAP_CACHE_KEY\<close> and
  \<open>WRAP_CACHE_SEGMENTS\<close> are left out: \<open>ensurewrapindex\<close> forgets them before \<open>wrapsegments\<close>, their only reader, looks.\<close>

record wrapping =
  WRAP_LAYOUT_KEY :: "(int \<times> int \<times> pystr) option"
  WRAP_LINE_SEGMENTS :: "segment list option list"
  WRAP_LINE_COUNTS :: "int list"
  WRAP_COUNT_TREE :: "int list"
  WRAP_DIRTY_ROWS :: "nat set"
  WRAP_REFLOW_FROM :: "int option"
  WRAP_LINE_CACHE :: "(wrapkey \<times> segment list \<times> int) list"
  WRAP_LINE_CACHE_BYTES :: int
  WRAP_LINES_MEASURED :: nat

text \<open>The widths of the lines.  The heap is kept as the sorted list of what it holds: the code only looks at the
  smallest element, takes it out and adds others.\<close>

record widths =
  DOC_LINEW :: "int option list"
  DOC_MAXW :: int
  DOC_MAXW_DIRTY :: bool
  DOC_WIDTH_COUNTS :: "int \<rightharpoonup> int"
  DOC_WIDTH_HEAP :: "int list"
  DOC_WIDTH_INDEX_ROW :: nat
  DOC_WIDTH_INDEX_ACTIVE :: bool
  DOC_FONTSTAMP :: "int option"

text \<open>An entry of the history, and the place of the caret and the view before and after it.\<close>

type_synonym place = "int \<times> int \<times> int \<times> int"

record edit =
  a_start :: caret
  a_removed :: pystr
  a_inserted :: pystr
  a_before :: place
  a_after :: place
  a_beforerev :: int
  a_afterrev :: int
  a_bytes :: int
  a_time :: rat

record past =
  UNDO_STACK :: "edit list"
  REDO_STACK :: "edit list"
  UNDO_BYTES :: int
  CURRENT_REVISION :: int
  SAVED_REVISION :: int
  NEXT_REVISION :: int
  IS_DIRTY :: bool

record options =
  FONT_SIZE :: int
  FONT_PATH :: pystr
  TAB_WIDTH :: int
  WORD_WRAP :: bool
  INDENT_USE_TABS :: bool
  OVERWRITE_MODE :: bool
  FIND_MATCH_CASE :: bool
  VISIBLE_LINES :: int

record editor =
  DOC_LINES :: "pystr list"
  DOC_LINE_IDS :: "int list"
  DOC_LINE_VERSIONS :: "int list"
  NEXT_LINE_ID :: int
  DOCUMENT_REFLOW_ROW :: "int option"
  CUR_ROW :: int
  CUR_COL :: int
  FIRST_VISIBLE_ROW :: int
  FIRST_VISIBLE_X :: int
  SEL_ACTIVE :: bool
  SEL_ANCHOR_ROW :: int
  SEL_ANCHOR_COL :: int
  SEL_ROW :: int
  SEL_COL :: int
  FIND_QUERY :: pystr
  REPLACE_QUERY :: pystr
  ws :: wrapping
  dw :: widths
  hs :: past
  opts :: options

abbreviation line_at :: "editor \<Rightarrow> int \<Rightarrow> pystr" where
  "line_at s row \<equiv> DOC_LINES s ! nat row"

section \<open>The caret and the selection\<close>

text \<open>Without lines the code asks for the last line, and answers the error with the origin.\<close>

definition normalise_in :: "pystr list \<Rightarrow> int \<Rightarrow> int \<Rightarrow> caret" where
  "normalise_in ls row col =
     (if ls = [] then (0, 0)
      else (let r0 = (if row < 0 then 0 else row);
                r = (if r0 \<ge> int (length ls) then int (length ls) - 1 else r0);
                linelen = int (length (ls ! nat r));
                c0 = (if col < 0 then 0 else col);
                c = (if c0 > linelen then linelen else c0)
            in (r, c)))"

definition normalisecaret :: "editor \<Rightarrow> int \<Rightarrow> int \<Rightarrow> caret" where
  "normalisecaret s row col = normalise_in (DOC_LINES s) row col"

definition clearselection :: "editor \<Rightarrow> editor" where
  "clearselection s = s\<lparr>SEL_ACTIVE := False, SEL_ANCHOR_ROW := CUR_ROW s, SEL_ANCHOR_COL := CUR_COL s,
     SEL_ROW := CUR_ROW s, SEL_COL := CUR_COL s\<rparr>"

definition setselectionanchor :: "int \<Rightarrow> int \<Rightarrow> editor \<Rightarrow> editor" where
  "setselectionanchor row col s =
     (let (r, c) = normalisecaret s row col
      in s\<lparr>SEL_ANCHOR_ROW := r, SEL_ANCHOR_COL := c, SEL_ROW := r, SEL_COL := c, SEL_ACTIVE := False\<rparr>)"

definition updateselectionend :: "int \<Rightarrow> int \<Rightarrow> editor \<Rightarrow> editor" where
  "updateselectionend row col s =
     (let (r, c) = normalisecaret s row col
      in s\<lparr>SEL_ROW := r, SEL_COL := c, SEL_ACTIVE := \<not> (SEL_ANCHOR_ROW s = r \<and> SEL_ANCHOR_COL s = c)\<rparr>)"

definition selectionbounds :: "editor \<Rightarrow> int \<times> int \<times> int \<times> int" where
  "selectionbounds s =
     (let ar = SEL_ANCHOR_ROW s; ac = SEL_ANCHOR_COL s; br = SEL_ROW s; bc = SEL_COL s
      in if ar < br \<or> ar = br \<and> ac \<le> bc then (ar, ac, br, bc) else (br, bc, ar, ac))"

definition hasselection :: "editor \<Rightarrow> bool" where
  "hasselection s = (if \<not> SEL_ACTIVE s then False
     else (let (sr, sc, er, ec) = selectionbounds s in \<not> (sr = er \<and> sc = ec)))"

definition positioninselection :: "editor \<Rightarrow> int \<Rightarrow> int \<Rightarrow> bool" where
  "positioninselection s row col =
     (if \<not> hasselection s then False
      else (let (sr, sc, er, ec) = selectionbounds s in
        if row < sr \<or> row > er then False
        else if sr = er then row = sr \<and> sc \<le> col \<and> col < ec
        else if row = sr then col \<ge> sc
        else if row = er then col < ec
        else True))"

section \<open>Columns and tabs\<close>

fun column_from :: "int \<Rightarrow> int \<Rightarrow> pystr \<Rightarrow> int" where
  "column_from tab col [] = col"
| "column_from tab col (c # cs) = column_from tab (if c = 9 then col + (tab - col mod tab) else col + 1) cs"

definition displaycolumn :: "int \<Rightarrow> pystr \<Rightarrow> int \<Rightarrow> int" where
  "displaycolumn tab t initial = column_from tab (max 0 initial) t"

fun expand_from :: "int \<Rightarrow> int \<Rightarrow> pystr \<Rightarrow> pystr" where
  "expand_from tab col [] = []"
| "expand_from tab col (c # cs) =
     (if c = 9 then replicate (nat (tab - col mod tab)) 32 @ expand_from tab (col + (tab - col mod tab)) cs
      else c # expand_from tab (col + 1) cs)"

definition expanddisplaytabs :: "int \<Rightarrow> pystr \<Rightarrow> int \<Rightarrow> pystr" where
  "expanddisplaytabs tab t initial = expand_from tab (max 0 initial) t"

section \<open>Identities of lines\<close>

definition wrap_empty :: "wrapping \<Rightarrow> bool \<Rightarrow> wrapping" where
  "wrap_empty w drop_lines =
     (let w' = w\<lparr>WRAP_LAYOUT_KEY := None, WRAP_REFLOW_FROM := None, WRAP_DIRTY_ROWS := {}\<rparr>
      in if drop_lines then w'\<lparr>WRAP_LINE_SEGMENTS := [], WRAP_LINE_COUNTS := [], WRAP_COUNT_TREE := []\<rparr> else w')"

definition invalidatewrapcache :: "bool \<Rightarrow> editor \<Rightarrow> editor" where
  "invalidatewrapcache drop_lines s = s\<lparr>ws := wrap_empty (ws s) drop_lines\<rparr>"

definition documentmetadatareset :: "editor \<Rightarrow> editor" where
  "documentmetadatareset s =
     (let n = length (DOC_LINES s)
      in invalidatewrapcache True (s\<lparr>DOC_LINE_IDS := [1..int n], DOC_LINE_VERSIONS := replicate n 0,
           NEXT_LINE_ID := int n + 1, DOCUMENT_REFLOW_ROW := None\<rparr>))"

definition documentmetadataensure :: "editor \<Rightarrow> editor" where
  "documentmetadataensure s =
     (if length (DOC_LINE_IDS s) = length (DOC_LINES s) \<and> length (DOC_LINE_VERSIONS s) = length (DOC_LINES s) then s
      else documentmetadatareset s)"

definition nextlineid :: "editor \<Rightarrow> int \<times> editor" where
  "nextlineid s = (NEXT_LINE_ID s, s\<lparr>NEXT_LINE_ID := NEXT_LINE_ID s + 1\<rparr>)"

end
