(* ===== verification/Write_Wrap.thy ===== *)
theory Write_Wrap
  imports Write_State
begin

unbundle bit_operations_syntax

text \<open>
  Word wrapping: the binary indexed tree over the number of displayed rows of each line, the segments of a line,
  their cache, and the index that is brought up to date lazily.
\<close>

section \<open>The binary indexed tree\<close>

text \<open>\<open>cursor & -cursor\<close>, the lowest bit that is set.\<close>

definition lowbit :: "nat \<Rightarrow> nat" where
  "lowbit n = nat (int n AND - int n)"

lemma and_neg_even: "(2 * k) AND - (2 * k) = 2 * (k AND - k)" for k :: int
proof -
  have "- (2 * k) div 2 = - k" by (metis mult_minus_right nonzero_mult_div_cancel_left zero_neq_numeral)
  then show ?thesis by (subst and_int_rec) simp
qed

lemma and_neg_odd: "odd k \<Longrightarrow> k AND - k = 1" for k :: int
proof -
  assume "odd k"
  then obtain m where k: "k = 2 * m + 1" by (rule oddE)
  have h: "k div 2 = m" "- k div 2 = - m - 1" using k by simp_all
  have "m AND (- m - 1) = 0" using bit.conj_cancel_right [of m] by (simp add: not_int_def)
  then have "k div 2 AND - k div 2 = 0" by (simp only: h)
  then show ?thesis using \<open>odd k\<close> by (subst and_int_rec) simp
qed

lemma lowbit_0 [simp]: "lowbit 0 = 0"
  by (simp add: lowbit_def)

lemma lowbit_double: "lowbit (2 * n) = 2 * lowbit n"
  using and_neg_even [of "int n"] by (simp add: lowbit_def nat_mult_distrib)

lemma lowbit_odd: "odd n \<Longrightarrow> lowbit n = 1"
  using and_neg_odd [of "int n"] by (simp add: lowbit_def)

lemma lowbit_pos: "0 < n \<Longrightarrow> 0 < lowbit n"
proof (induction n rule: less_induct)
  case (less n)
  show ?case
  proof (cases "even n")
    case True
    then obtain m where "n = 2 * m" by blast
    then show ?thesis using less.IH [of m] less.prems by (simp add: lowbit_double)
  qed (simp add: lowbit_odd)
qed

text \<open>A cursor of \<open>0\<close> never occurs: the loops start at a row plus one, or stop there.\<close>

function tree_add :: "nat \<Rightarrow> int \<Rightarrow> int list \<Rightarrow> int list" where
  "tree_add cursor delta t =
     (if 0 < cursor \<and> cursor < length t then tree_add (cursor + lowbit cursor) delta (t[cursor := t ! cursor + delta]) else t)"
  by pat_completeness auto
termination
  by (relation "measure (\<lambda>(cursor, _, t). length t - cursor)") (auto simp: lowbit_pos diff_less_mono2)

declare tree_add.simps [simp del]

definition wraptreebuild :: "int list \<Rightarrow> int list" where
  "wraptreebuild counts =
     fold (\<lambda>(index, v). tree_add index (max 1 v)) (enumerate 1 counts) (replicate (length counts + 1) 0)"

definition wraptreeupdate :: "nat \<Rightarrow> int \<Rightarrow> wrapping \<Rightarrow> wrapping" where
  "wraptreeupdate row delta w = w\<lparr>WRAP_COUNT_TREE := tree_add (row + 1) delta (WRAP_COUNT_TREE w)\<rparr>"

lemma lowbit_le: "lowbit n \<le> n"
proof (induction n rule: less_induct)
  case (less n)
  show ?case
  proof (cases "even n")
    case True
    then obtain m where "n = 2 * m" by blast
    then show ?thesis using less.IH [of m] by (cases "m = 0") (simp_all add: lowbit_double)
  next
    case False
    then show ?thesis using odd_pos [of n] by (simp add: lowbit_odd)
  qed
qed

function tree_sum :: "int list \<Rightarrow> nat \<Rightarrow> int" where
  "tree_sum t cursor = (if 0 < cursor then t ! cursor + tree_sum t (cursor - lowbit cursor) else 0)"
  by pat_completeness auto
termination by (relation "measure snd") (auto simp: lowbit_pos)

declare tree_sum.simps [simp del]

definition wraptreeprefix :: "wrapping \<Rightarrow> int \<Rightarrow> int" where
  "wraptreeprefix w row = tree_sum (WRAP_COUNT_TREE w) (nat (max 0 (min (int (length (WRAP_LINE_COUNTS w))) row)))"

definition wraptreetotal :: "wrapping \<Rightarrow> int" where
  "wraptreetotal w = wraptreeprefix w (int (length (WRAP_LINE_COUNTS w)))"

fun bit_length :: "nat \<Rightarrow> nat" where
  "bit_length n = (if n = 0 then 0 else Suc (bit_length (n div 2)))"

declare bit_length.simps [simp del]

text \<open>The loop over the bits, from \<open>2 ^ (k - 1)\<close> down to \<open>1\<close>.\<close>

fun tree_descend :: "int list \<Rightarrow> int \<Rightarrow> nat \<Rightarrow> nat \<Rightarrow> int \<Rightarrow> nat" where
  "tree_descend t target 0 position accumulated = position"
| "tree_descend t target (Suc k) position accumulated =
     (let candidate = position + 2 ^ k in
      if candidate < length t \<and> accumulated + t ! candidate \<le> target
      then tree_descend t target k candidate (accumulated + t ! candidate)
      else tree_descend t target k position accumulated)"

definition wraptreefind :: "wrapping \<Rightarrow> int \<Rightarrow> nat" where
  "wraptreefind w index =
     (if WRAP_LINE_COUNTS w = [] then 0
      else (let target = max 0 (min (max 0 (wraptreetotal w - 1)) index);
                n = length (WRAP_COUNT_TREE w) - 1
            in min (length (WRAP_LINE_COUNTS w) - 1)
                 (tree_descend (WRAP_COUNT_TREE w) target ((bit_length n - 1) + 1) 0 0)))"

section \<open>The segments of a line\<close>

text \<open>\<open>bisect.bisect_right\<close>.\<close>

function bisect_right :: "int list \<Rightarrow> int \<Rightarrow> nat \<Rightarrow> nat \<Rightarrow> nat" where
  "bisect_right a x lo hi =
     (if lo < hi then
        (let mid = (lo + hi) div 2 in if x < a ! mid then bisect_right a x lo mid else bisect_right a x (mid + 1) hi)
      else lo)"
  by pat_completeness auto
termination by (relation "measure (\<lambda>(_, _, lo, hi). hi - lo)") auto

declare bisect_right.simps [simp del]

text \<open>The place after the last white space before \<open>k\<close>, or \<open>start\<close>.\<close>

fun word_end :: "pystr \<Rightarrow> nat \<Rightarrow> nat \<Rightarrow> nat" where
  "word_end line start 0 = 0"
| "word_end line start (Suc k) = (if start < Suc k \<and> \<not> py_isspace (line ! k) then word_end line start k else Suc k)"

definition segment_end :: "pystr \<Rightarrow> int list \<Rightarrow> int \<Rightarrow> nat \<Rightarrow> nat" where
  "segment_end line advances width start =
     (let startx = (if 0 < start then advances ! (start - 1) else 0);
          e0 = bisect_right advances (startx + width) start (length advances);
          e1 = (if e0 \<le> start then start + 1 else e0)
      in if e1 < length line then (let wordend = word_end line start e1 in if start < wordend then wordend else e1) else e1)"

lemma word_end_le: "word_end line start k \<le> k"
  by (induction k) auto

lemma segment_end_gt: "start < segment_end line advances width start"
  by (simp add: segment_end_def Let_def)

function segments_from :: "pystr \<Rightarrow> int list \<Rightarrow> int \<Rightarrow> nat \<Rightarrow> segment list" where
  "segments_from line advances width start =
     (if start < length line then
        (let stop = segment_end line advances width start in (start, stop) # segments_from line advances width stop)
      else [])"
  by pat_completeness auto
termination
  by (relation "measure (\<lambda>(line, _, _, start). length line - start)") (auto simp: segment_end_gt diff_less_mono2)

declare segments_from.simps [simp del]

definition line_segments :: "wenv \<Rightarrow> options \<Rightarrow> pystr \<Rightarrow> int \<Rightarrow> segment list" where
  "line_segments e ops line width =
     (if line = [] then [(0, 0)]
      else (let advances = measurelineadvances e line (FONT_SIZE ops) (FONT_PATH ops) in
        if length advances \<noteq> length line then [(0, length line)]
        else (let segments = segments_from line advances width 0 in if segments = [] then [(0, 0)] else segments)))"

definition WRAP_LINE_CACHE_LIMIT :: int where "WRAP_LINE_CACHE_LIMIT = 16 * 1024 * 1024"

fun cache_evict :: "(wrapkey \<times> segment list \<times> int) list \<Rightarrow> int \<Rightarrow> (wrapkey \<times> segment list \<times> int) list \<times> int" where
  "cache_evict [] bytes = ([], bytes)"
| "cache_evict ((k, v, sz) # rest) bytes =
     (if bytes > WRAP_LINE_CACHE_LIMIT then cache_evict rest (bytes - sz) else ((k, v, sz) # rest, bytes))"

definition wrapcacheput :: "wrapkey \<Rightarrow> segment list \<Rightarrow> pystr \<Rightarrow> wrapping \<Rightarrow> segment list \<times> wrapping" where
  "wrapcacheput key segments line w =
     (let sz = max 64 (int (length line) + int (length segments) * 24);
          cache = WRAP_LINE_CACHE w;
          bytes = (case map_of cache key of None \<Rightarrow> WRAP_LINE_CACHE_BYTES w | Some (_, old) \<Rightarrow> WRAP_LINE_CACHE_BYTES w - old);
          (cache', bytes') = cache_evict (filter (\<lambda>kv. fst kv \<noteq> key) cache @ [(key, segments, sz)]) (bytes + sz)
      in (segments, w\<lparr>WRAP_LINE_CACHE := cache', WRAP_LINE_CACHE_BYTES := bytes'\<rparr>))"

text \<open>\<open>wrapline\<close> on a row of the document whose identities are in order.\<close>

definition wrap_key :: "editor \<Rightarrow> nat \<Rightarrow> int \<Rightarrow> wrapkey" where
  "wrap_key s row width = (DOC_LINE_IDS s ! row, DOC_LINE_VERSIONS s ! row, FONT_SIZE (opts s), width, FONT_PATH (opts s))"

definition wrapline :: "wenv \<Rightarrow> int \<Rightarrow> int \<Rightarrow> editor \<Rightarrow> segment list \<times> editor" where
  "wrapline e row0 width s0 =
     (let s = documentmetadataensure s0;
          row = nat (max 0 (min (int (length (DOC_LINES s)) - 1) row0));
          line = DOC_LINES s ! row;
          key = wrap_key s row width
      in case map_of (WRAP_LINE_CACHE (ws s)) key of
           Some (v, sz) \<Rightarrow>
             (v, s\<lparr>ws := (ws s)\<lparr>WRAP_LINE_CACHE := filter (\<lambda>kv. fst kv \<noteq> key) (WRAP_LINE_CACHE (ws s)) @ [(key, v, sz)]\<rparr>\<rparr>)
         | None \<Rightarrow>
             (let w = (ws s)\<lparr>WRAP_LINES_MEASURED := WRAP_LINES_MEASURED (ws s) + 1\<rparr>;
                  (v, w') = wrapcacheput key (line_segments e (opts s) line width) line w
              in (v, s\<lparr>ws := w'\<rparr>)))"

section \<open>The index\<close>

text \<open>The width of \<open>viewportgeometry_noscrollbars\<close>.\<close>

definition view_width :: "wenv \<Rightarrow> int" where
  "view_width e = max 0 (WIN_W e - MARGIN_LEFT e)"

definition wraplayoutwidth :: "wenv \<Rightarrow> int" where
  "wraplayoutwidth e = max 1 (view_width e - SCROLLBAR_WIDTH e)"

definition reflow_at :: "int \<Rightarrow> int option \<Rightarrow> int option" where
  "reflow_at start r = (case r of None \<Rightarrow> Some start | Some old \<Rightarrow> Some (min old start))"

definition index_row :: "wenv \<Rightarrow> int \<Rightarrow> bool \<Rightarrow> nat \<Rightarrow> editor \<Rightarrow> editor" where
  "index_row e width fullbuild row s =
     (if row \<ge> length (DOC_LINES s) \<or> WRAP_LINE_SEGMENTS (ws s) ! row \<noteq> None then s
      else
        (let oldcount = max 1 (WRAP_LINE_COUNTS (ws s) ! row);
             (segments, s1) = wrapline e (int row) width s;
             newcount = max 1 (int (length segments));
             w = (ws s1)\<lparr>WRAP_LINE_SEGMENTS := (WRAP_LINE_SEGMENTS (ws s1))[row := Some segments],
                   WRAP_LINE_COUNTS := (WRAP_LINE_COUNTS (ws s1))[row := newcount]\<rparr>
         in if newcount \<noteq> oldcount then
              (let visualstart = wraptreeprefix w (int row);
                   w' = wraptreeupdate row (newcount - oldcount) w
               in s1\<lparr>ws := (if fullbuild then w' else w'\<lparr>WRAP_REFLOW_FROM := reflow_at visualstart (WRAP_REFLOW_FROM w')\<rparr>)\<rparr>)
            else s1\<lparr>ws := w\<rparr>))"

definition layout_key :: "wenv \<Rightarrow> editor \<Rightarrow> int \<times> int \<times> pystr" where
  "layout_key e s = (FONT_SIZE (opts s), wraplayoutwidth e, FONT_PATH (opts s))"

definition must_build :: "wenv \<Rightarrow> editor \<Rightarrow> bool" where
  "must_build e s \<longleftrightarrow> WRAP_LAYOUT_KEY (ws s) \<noteq> Some (layout_key e s)
     \<or> length (WRAP_LINE_SEGMENTS (ws s)) \<noteq> length (DOC_LINES s) \<or> length (WRAP_LINE_COUNTS (ws s)) \<noteq> length (DOC_LINES s)"

definition fresh_index :: "wenv \<Rightarrow> editor \<Rightarrow> editor" where
  "fresh_index e s =
     (let n = length (DOC_LINES s); counts = replicate n 1
      in s\<lparr>ws := (ws s)\<lparr>WRAP_LAYOUT_KEY := Some (layout_key e s), WRAP_LINE_SEGMENTS := replicate n None,
           WRAP_LINE_COUNTS := counts, WRAP_COUNT_TREE := wraptreebuild counts, WRAP_REFLOW_FROM := None,
           WRAP_DIRTY_ROWS := {..<n}\<rparr>\<rparr>)"

definition ensurewrapindex :: "wenv \<Rightarrow> editor \<Rightarrow> editor" where
  "ensurewrapindex e s0 =
     (if \<not> WORD_WRAP (opts s0) then s0
      else
        (let s = documentmetadataensure s0;
             fullbuild = must_build e s;
             s1 = (if fullbuild then fresh_index e s else s);
             dirtyrows = sorted_list_of_set (WRAP_DIRTY_ROWS (ws s1));
             s2 = s1\<lparr>ws := (ws s1)\<lparr>WRAP_DIRTY_ROWS := {}\<rparr>\<rparr>
         in fold (index_row e (wraplayoutwidth e) fullbuild) dirtyrows s2))"

text \<open>\<open>xs[i:j] = ys\<close>.\<close>

definition splice :: "'a list \<Rightarrow> nat \<Rightarrow> nat \<Rightarrow> 'a list \<Rightarrow> 'a list" where
  "splice xs i j ys = take i xs @ ys @ drop j xs"

definition wrapmetadatareplace :: "nat \<Rightarrow> nat \<Rightarrow> nat \<Rightarrow> editor \<Rightarrow> editor" where
  "wrapmetadatareplace start removed replacement0 s =
     (let replacement = max 1 replacement0; w = ws s in
      if int (length (WRAP_LINE_SEGMENTS w)) \<noteq> int (length (DOC_LINES s)) - int replacement + int removed
      then invalidatewrapcache True s
      else
        (let visualstart = wraptreeprefix w (min (int start) (int (length (WRAP_LINE_COUNTS w))));
             oldcounts = take removed (drop start (WRAP_LINE_COUNTS w));
             counts = (if removed = replacement then oldcounts
               else (if oldcounts = [] then 1 else hd oldcounts) # replicate (replacement - 1) 1);
             allcounts = splice (WRAP_LINE_COUNTS w) start (start + removed) counts;
             shifted = {row \<in> WRAP_DIRTY_ROWS w. row < start}
               \<union> (\<lambda>row. row - removed + replacement) ` {row \<in> WRAP_DIRTY_ROWS w. start + removed \<le> row}
               \<union> {start..<start + replacement}
         in s\<lparr>ws := w\<lparr>WRAP_LINE_SEGMENTS := splice (WRAP_LINE_SEGMENTS w) start (start + removed) (replicate replacement None),
              WRAP_LINE_COUNTS := allcounts,
              WRAP_COUNT_TREE := (if removed \<noteq> replacement then wraptreebuild allcounts else WRAP_COUNT_TREE w),
              WRAP_DIRTY_ROWS := shifted,
              WRAP_REFLOW_FROM := (if removed \<noteq> replacement then reflow_at visualstart (WRAP_REFLOW_FROM w) else WRAP_REFLOW_FROM w)\<rparr>\<rparr>))"

section \<open>What is displayed\<close>

definition segments_of :: "editor \<Rightarrow> nat \<Rightarrow> segment list" where
  "segments_of s row = (case WRAP_LINE_SEGMENTS (ws s) ! row of None \<Rightarrow> [(0, 0)] | Some v \<Rightarrow> if v = [] then [(0, 0)] else v)"

definition wrapsegments :: "wenv \<Rightarrow> editor \<Rightarrow> (nat \<times> segment) list \<times> editor" where
  "wrapsegments e s =
     (if \<not> WORD_WRAP (opts s) then (map (\<lambda>(row, line). (row, 0, length line)) (enumerate 0 (DOC_LINES s)), s)
      else (let s' = ensurewrapindex e s;
                all = concat (map (\<lambda>row. map (\<lambda>seg. (row, seg)) (segments_of s' row)) [0..<length (WRAP_LINE_SEGMENTS (ws s'))])
            in (if all = [] then [(0, 0, 0)] else all, s')))"

definition displaylinecount :: "wenv \<Rightarrow> editor \<Rightarrow> int \<times> editor" where
  "displaylinecount e s =
     (if \<not> WORD_WRAP (opts s) then (int (length (DOC_LINES s)), s)
      else (let s' = ensurewrapindex e s in (wraptreetotal (ws s'), s')))"

definition displaysegment :: "wenv \<Rightarrow> int \<Rightarrow> editor \<Rightarrow> (nat \<times> segment) \<times> editor" where
  "displaysegment e index0 s =
     (if \<not> WORD_WRAP (opts s) then
        (if DOC_LINES s = [] then ((0, 0, 0), s)
         else (let row = nat (max 0 (min (int (length (DOC_LINES s)) - 1) index0)) in ((row, 0, length (DOC_LINES s ! row)), s)))
      else
        (let s' = ensurewrapindex e s; w = ws s' in
         if WRAP_LINE_COUNTS w = [] then ((0, 0, 0), s')
         else
           (let index = max 0 (min (max 0 (wraptreetotal w - 1)) index0);
                row = wraptreefind w index;
                offset = index - wraptreeprefix w (int row);
                values = segments_of s' row
            in ((row, values ! nat (max 0 (min (int (length values) - 1) offset))), s'))))"

definition cursorvisualindex :: "wenv \<Rightarrow> int \<Rightarrow> int \<Rightarrow> editor \<Rightarrow> int \<times> editor" where
  "cursorvisualindex e row0 col0 s =
     (if \<not> WORD_WRAP (opts s) then (row0, s)
      else
        (let s' = ensurewrapindex e s in
         if DOC_LINES s' = [] then (0, s')
         else
           (let row = nat (max 0 (min (int (length (DOC_LINES s')) - 1) row0));
                line = DOC_LINES s' ! row;
                col = nat (max 0 (min (int (length line)) col0));
                values = segments_of s' row;
                here = find (\<lambda>(index, _, stop). col < stop \<or> col = stop \<and> stop = length line) (enumerate 0 values);
                local = (case here of None \<Rightarrow> length values - 1 | Some (index, _) \<Rightarrow> index)
            in (wraptreeprefix (ws s') (int row) + int local, s'))))"

end
