(* ===== verification/Write_Width.thy ===== *)
theory Write_Width
  imports Write_Wrap
begin

text \<open>
  The widths of the lines: measured, counted, and their maximum found through a heap from which stale entries are
  dropped when they come up.
\<close>

definition docwidthmeasure :: "wenv \<Rightarrow> options \<Rightarrow> pystr \<Rightarrow> int" where
  "docwidthmeasure e ops line =
     (case measuretext e (expanddisplaytabs (TAB_WIDTH ops) line 0) (FONT_SIZE ops) None of Inr w \<Rightarrow> w | Inl _ \<Rightarrow> 0)"

definition count_of :: "(int \<rightharpoonup> int) \<Rightarrow> int \<Rightarrow> int" where
  "count_of m w = (case m w of None \<Rightarrow> 0 | Some n \<Rightarrow> n)"

definition count_width :: "int \<Rightarrow> widths \<Rightarrow> widths" where
  "count_width w d = d\<lparr>DOC_WIDTH_COUNTS := (DOC_WIDTH_COUNTS d)(w \<mapsto> count_of (DOC_WIDTH_COUNTS d) w + 1),
     DOC_WIDTH_HEAP := insort (- w) (DOC_WIDTH_HEAP d)\<rparr>"

definition uncount_width :: "int option \<Rightarrow> widths \<Rightarrow> widths" where
  "uncount_width wo d = (case wo of
     None \<Rightarrow> d
   | Some w \<Rightarrow>
       (let remaining = count_of (DOC_WIDTH_COUNTS d) w - 1
        in d\<lparr>DOC_WIDTH_COUNTS := (DOC_WIDTH_COUNTS d)(w := if 0 < remaining then Some remaining else None)\<rparr>))"

definition docwidthbeginindex :: "editor \<Rightarrow> editor" where
  "docwidthbeginindex s = s\<lparr>dw := \<lparr>DOC_LINEW = replicate (length (DOC_LINES s)) None, DOC_MAXW = 0, DOC_MAXW_DIRTY = False,
     DOC_WIDTH_COUNTS = Map.empty, DOC_WIDTH_HEAP = [], DOC_WIDTH_INDEX_ROW = 0, DOC_WIDTH_INDEX_ACTIVE = (DOC_LINES s \<noteq> []),
     DOC_FONTSTAMP = Some (FONT_SIZE (opts s))\<rparr>\<rparr>"

definition docwidthindexline :: "wenv \<Rightarrow> nat \<Rightarrow> editor \<Rightarrow> editor" where
  "docwidthindexline e row s =
     (if row \<ge> length (DOC_LINES s) \<or> row \<ge> length (DOC_LINEW (dw s)) \<or> DOC_LINEW (dw s) ! row \<noteq> None then s
      else
        (let w = docwidthmeasure e (opts s) (DOC_LINES s ! row);
             d = (dw s)\<lparr>DOC_LINEW := (DOC_LINEW (dw s))[row := Some w]\<rparr>
         in s\<lparr>dw := (count_width w d)\<lparr>DOC_MAXW := max (DOC_MAXW d) w\<rparr>\<rparr>))"

text \<open>A stale entry at the top of the heap is one whose width no line has.\<close>

definition docwidthmaximum :: "widths \<Rightarrow> widths" where
  "docwidthmaximum d =
     (let heap = dropWhile (\<lambda>x. \<not> 0 < count_of (DOC_WIDTH_COUNTS d) (- x)) (DOC_WIDTH_HEAP d)
      in d\<lparr>DOC_WIDTH_HEAP := heap, DOC_MAXW := (if heap = [] then 0 else - hd heap), DOC_MAXW_DIRTY := False\<rparr>)"

text \<open>One round of the index while the editor is idle: at most 128 lines, fewer when the time is up.\<close>

fun index_widths :: "wenv \<Rightarrow> nat \<Rightarrow> editor \<Rightarrow> editor" where
  "index_widths e 0 s = s"
| "index_widths e (Suc k) s =
     (let row = DOC_WIDTH_INDEX_ROW (dw s) in
      if row < length (DOC_LINES s)
      then (let s' = docwidthindexline e row s in index_widths e k (s'\<lparr>dw := (dw s')\<lparr>DOC_WIDTH_INDEX_ROW := row + 1\<rparr>\<rparr>))
      else s)"

definition docwidthindexstep :: "wenv \<Rightarrow> nat \<Rightarrow> editor \<Rightarrow> bool \<times> editor" where
  "docwidthindexstep e in_time s =
     (if \<not> DOC_WIDTH_INDEX_ACTIVE (dw s) then (False, s)
      else
        (let oldmaximum = DOC_MAXW (dw s);
             s1 = index_widths e (min 128 in_time) s;
             completed = (DOC_WIDTH_INDEX_ROW (dw s1) \<ge> length (DOC_LINES s1));
             s2 = (if completed then s1\<lparr>dw := docwidthmaximum ((dw s1)\<lparr>DOC_WIDTH_INDEX_ACTIVE := False\<rparr>)\<rparr> else s1);
             available = view_width e
         in ((oldmaximum > available) \<noteq> (DOC_MAXW (dw s2) > available) \<or> completed, s2)))"

definition reset_widths :: "wenv \<Rightarrow> options \<Rightarrow> pystr list \<Rightarrow> widths" where
  "reset_widths e ops ls =
     (fold (\<lambda>line d.
         (let w = docwidthmeasure e ops line; d' = count_width w (d\<lparr>DOC_LINEW := DOC_LINEW d @ [Some w]\<rparr>)
          in if w > DOC_MAXW d' then d'\<lparr>DOC_MAXW := w\<rparr> else d')) ls
       \<lparr>DOC_LINEW = [], DOC_MAXW = 0, DOC_MAXW_DIRTY = False, DOC_WIDTH_COUNTS = Map.empty, DOC_WIDTH_HEAP = [],
        DOC_WIDTH_INDEX_ROW = 0, DOC_WIDTH_INDEX_ACTIVE = False, DOC_FONTSTAMP = Some (FONT_SIZE ops)\<rparr>)"

definition docwidthreset :: "wenv \<Rightarrow> editor \<Rightarrow> editor" where
  "docwidthreset e s = s\<lparr>dw := reset_widths e (opts s) (DOC_LINES s)\<rparr>"

definition docwidthreplace :: "wenv \<Rightarrow> nat \<Rightarrow> nat \<Rightarrow> pystr list \<Rightarrow> int list option \<Rightarrow> editor \<Rightarrow> editor" where
  "docwidthreplace e start removed replacement given s =
     (if int (length (DOC_LINEW (dw s))) + int (length replacement) - int removed \<noteq> int (length (DOC_LINES s))
      then docwidthreset e s
      else
        (let d = dw s;
             d1 = fold uncount_width (take removed (drop start (DOC_LINEW d))) d;
             measured = map (docwidthmeasure e (opts s)) replacement;
             new = (case given of
                 None \<Rightarrow> measured
               | Some vs \<Rightarrow> if length vs \<noteq> length replacement then measured else map (max 0) vs);
             d2 = d1\<lparr>DOC_LINEW := splice (DOC_LINEW d1) start (start + removed) (map Some new),
                   DOC_WIDTH_INDEX_ROW := (if DOC_WIDTH_INDEX_ACTIVE d1 then min (DOC_WIDTH_INDEX_ROW d1) start else DOC_WIDTH_INDEX_ROW d1)\<rparr>
         in s\<lparr>dw := docwidthmaximum (fold count_width new d2)\<rparr>))"

definition docwidthsetline :: "wenv \<Rightarrow> int \<Rightarrow> editor \<Rightarrow> editor" where
  "docwidthsetline e row s =
     (if row < 0 \<or> row \<ge> int (length (DOC_LINES s)) then s
      else if length (DOC_LINEW (dw s)) \<noteq> length (DOC_LINES s) then s\<lparr>dw := (dw s)\<lparr>DOC_MAXW_DIRTY := True\<rparr>\<rparr>
      else
        (let d = dw s; r = nat row; oldw = DOC_LINEW d ! r; neww = docwidthmeasure e (opts s) (DOC_LINES s ! r);
             d1 = uncount_width oldw (d\<lparr>DOC_LINEW := (DOC_LINEW d)[r := Some neww]\<rparr>)
         in s\<lparr>dw := docwidthmaximum (count_width neww d1)\<rparr>))"

definition maxlinewidth :: "wenv \<Rightarrow> editor \<Rightarrow> int \<times> editor" where
  "maxlinewidth e s =
     (let s1 = (if DOC_FONTSTAMP (dw s) \<noteq> Some (FONT_SIZE (opts s)) then
                  (if DOC_WIDTH_INDEX_ACTIVE (dw s) then docwidthbeginindex s else s\<lparr>dw := (dw s)\<lparr>DOC_MAXW_DIRTY := True\<rparr>\<rparr>)
                else s);
          s2 = (if DOC_MAXW_DIRTY (dw s1) then docwidthreset e s1 else s1);
          s3 = (if length (DOC_LINEW (dw s2)) \<noteq> length (DOC_LINES s2) then docwidthreset e s2 else s2)
      in (DOC_MAXW (dw s3), s3))"

end
