(* ===== verification/T1_Scan.thy ===== *)
theory T1_Scan
  imports T1_Prelude
begin

text \<open>
  Scanning text by index: forwards and backwards while a test holds, slices, and Python's \<open>find\<close>, \<open>rfind\<close>,
  \<open>count\<close> and \<open>replace\<close>.
\<close>

section \<open>Loops over an index\<close>

text \<open>The index of the first character from \<open>i\<close> on that does not satisfy \<open>p\<close>, or the length.\<close>

function skip_while :: "(cp \<Rightarrow> bool) \<Rightarrow> pystr \<Rightarrow> nat \<Rightarrow> nat" where
  "skip_while p s i = (if i < length s \<and> p (s ! i) then skip_while p s (i + 1) else i)"
  by pat_completeness auto
termination by (relation "measure (\<lambda>(_, s, i). length s - i)") auto

declare skip_while.simps [simp del]

lemma skip_while_ge: "i \<le> skip_while p s i"
proof (induction p s i rule: skip_while.induct)
  case (1 p s i)
  show ?case
  proof (cases "i < length s \<and> p (s ! i)")
    case True
    then show ?thesis using "1.IH" by (subst skip_while.simps) simp
  next
    case False
    then show ?thesis by (subst skip_while.simps) auto
  qed
qed

definition substring :: "pystr \<Rightarrow> nat \<Rightarrow> nat \<Rightarrow> pystr" where
  "substring s i j = take (j - i) (drop i s)"

lemma skip_while_stop: "i < length s \<Longrightarrow> \<not> p (s ! i) \<Longrightarrow> skip_while p s i = i"
  by (subst skip_while.simps) simp

lemma skip_while_go: "i < length s \<Longrightarrow> p (s ! i) \<Longrightarrow> i < skip_while p s i"
  using skip_while_ge [of "i + 1" p s] by (subst skip_while.simps) simp

lemma skip_while_at: "skip_while p s i < length s \<Longrightarrow> \<not> p (s ! skip_while p s i)"
proof (induction p s i rule: skip_while.induct)
  case (1 p s i)
  show ?case
  proof (cases "i < length s \<and> p (s ! i)")
    case True
    then have "skip_while p s i = skip_while p s (i + 1)" by (subst skip_while.simps) simp
    then show ?thesis using "1.IH" [OF True] "1.prems" by simp
  next
    case False
    then have "skip_while p s i = i" by (subst skip_while.simps) auto
    then show ?thesis using False "1.prems" by simp
  qed
qed

text \<open>The index down from \<open>k\<close> while the character before it satisfies \<open>p\<close>.\<close>

fun back_while :: "(cp \<Rightarrow> bool) \<Rightarrow> pystr \<Rightarrow> nat \<Rightarrow> nat" where
  "back_while p s 0 = 0"
| "back_while p s (Suc k) = (if p (s ! k) then back_while p s k else Suc k)"

lemma back_while_le: "back_while p s k \<le> k"
  by (induction k) auto

lemma skip_while_le: "i \<le> length s \<Longrightarrow> skip_while p s i \<le> length s"
proof (induction p s i rule: skip_while.induct)
  case (1 p s i)
  then show ?case by (subst skip_while.simps) auto
qed

section \<open>Searching and replacing\<close>

definition py_find :: "pystr \<Rightarrow> pystr \<Rightarrow> nat \<Rightarrow> int" where
  "py_find hay needle start =
     (case find (\<lambda>i. starts_with needle (drop i hay)) [start..<length hay + 1] of None \<Rightarrow> - 1 | Some i \<Rightarrow> int i)"

definition py_rfind :: "pystr \<Rightarrow> pystr \<Rightarrow> nat \<Rightarrow> int" where
  "py_rfind hay needle stop =
     (case find (\<lambda>i. i + length needle \<le> min stop (length hay) \<and> starts_with needle (drop i hay)) (rev [0..<length hay + 1]) of
        None \<Rightarrow> - 1 | Some i \<Rightarrow> int i)"

lemma py_find_range: "py_find hay needle start = i \<Longrightarrow> 0 \<le> i \<Longrightarrow> int start \<le> i \<and> i \<le> int (length hay)"
  by (auto simp: py_find_def find_Some_iff nth_append split: option.splits if_splits)

function replace_all :: "pystr \<Rightarrow> pystr \<Rightarrow> pystr \<Rightarrow> pystr" where
  "replace_all old new t =
     (if t = [] then []
      else if old \<noteq> [] \<and> starts_with old t then new @ replace_all old new (drop (length old) t)
      else hd t # replace_all old new (tl t))"
  by pat_completeness auto
termination by (relation "measure (\<lambda>(_, _, t). length t)") auto

declare replace_all.simps [simp del]

function count_sub :: "pystr \<Rightarrow> pystr \<Rightarrow> nat" where
  "count_sub old t =
     (if t = [] then 0
      else if old \<noteq> [] \<and> starts_with old t then Suc (count_sub old (drop (length old) t))
      else count_sub old (tl t))"
  by pat_completeness auto
termination by (relation "measure (\<lambda>(_, t). length t)") auto

declare count_sub.simps [simp del]

end
