(* ===== verification/Write_Edit.thy ===== *)
theory Write_Edit
  imports Write_Width T1_Scan
begin

text \<open>
  Changing the document (\<open>write.py\<close>): \<open>editapply\<close>, through which every change goes, and the history that
  records, merges, undoes and redoes changes.
\<close>

section \<open>Documents\<close>

definition historyreset :: "past \<Rightarrow> past" where
  "historyreset h = \<lparr>UNDO_STACK = [], REDO_STACK = [], UNDO_BYTES = 0, CURRENT_REVISION = 0, SAVED_REVISION = 0,
     NEXT_REVISION = 1, IS_DIRTY = False\<rparr>"

text \<open>The history is reset before \<open>IS_DIRTY\<close> is cleared once more.\<close>

definition initialisedocument :: "wenv \<Rightarrow> editor \<Rightarrow> editor" where
  "initialisedocument e s =
     (let s1 = documentmetadatareset (s\<lparr>DOC_LINES := [[]]\<rparr>);
          s2 = docwidthreset e (s1\<lparr>CUR_ROW := 0, CUR_COL := 0, FIRST_VISIBLE_ROW := 0, FIRST_VISIBLE_X := 0\<rparr>)
      in s2\<lparr>hs := historyreset (hs s2)\<rparr>)"

text \<open>\<open>loaddocumentfromlines\<close>.  The metadata of a file are the identities \<open>1 .. n\<close> and the versions \<open>0\<close>
  (\<open>readfilepayload\<close>), which are what \<open>documentmetadatareset\<close> gives as well.\<close>

definition loaddocumentfromlines :: "wenv \<Rightarrow> pystr list \<Rightarrow> bool \<Rightarrow> editor \<Rightarrow> editor" where
  "loaddocumentfromlines e ls lazy_widths s =
     (let s1 = documentmetadatareset (s\<lparr>DOC_LINES := (if ls = [] then [[]] else ls)\<rparr>);
          s2 = s1\<lparr>FIRST_VISIBLE_ROW := 0, FIRST_VISIBLE_X := 0\<rparr>;
          s3 = (if lazy_widths then docwidthbeginindex s2 else docwidthreset e s2)
      in s3\<lparr>hs := historyreset (hs s3), CUR_ROW := 0, CUR_COL := 0\<rparr>)"

definition loaddocumentfromtext :: "wenv \<Rightarrow> pystr \<Rightarrow> editor \<Rightarrow> editor" where
  "loaddocumentfromtext e t s = loaddocumentfromlines e (split_on 10 (newlines t)) False s"

definition getdocumenttext :: "editor \<Rightarrow> pystr" where
  "getdocumenttext s = join_with 10 (DOC_LINES s)"

section \<open>Changing the text\<close>

definition textpositionafter :: "caret \<Rightarrow> pystr \<Rightarrow> caret" where
  "textpositionafter p t =
     (let chunks = split_on 10 t in
      if length chunks = 1 then (fst p, snd p + int (length (hd chunks)))
      else (fst p + int (length chunks) - 1, int (length (last chunks))))"

definition caret_less :: "caret \<Rightarrow> caret \<Rightarrow> bool" where
  "caret_less p q \<longleftrightarrow> fst p < fst q \<or> fst p = fst q \<and> snd p < snd q"

definition ordered :: "caret \<Rightarrow> caret \<Rightarrow> caret \<times> caret" where
  "ordered p q = (if caret_less q p then (q, p) else (p, q))"

text \<open>The text between two carets.\<close>

definition text_between :: "pystr list \<Rightarrow> caret \<Rightarrow> caret \<Rightarrow> pystr" where
  "text_between ls p q =
     (let sr = nat (fst p); sc = nat (snd p); er = nat (fst q); ec = nat (snd q) in
      if sr = er then drop sc (take ec (ls ! sr))
      else join_with 10 (drop sc (ls ! sr) # map (\<lambda>r. ls ! r) [sr + 1..<er] @ [take ec (ls ! er)]))"

text \<open>The lines that replace those from the first to the last: what stands before, the chunks, what stands after.\<close>

definition framed_chunks :: "pystr \<Rightarrow> pystr list \<Rightarrow> pystr \<Rightarrow> pystr list" where
  "framed_chunks prefix chunks suffix =
     (if length chunks = 1 then [prefix @ hd chunks @ suffix]
      else (prefix @ hd chunks) # butlast (tl chunks) @ [last chunks @ suffix])"

text \<open>The width of a line changed in place is taken from its old width, when that is known and no tab is
  involved.\<close>

definition quick_width :: "wenv \<Rightarrow> editor \<Rightarrow> nat \<Rightarrow> nat \<Rightarrow> pystr list \<Rightarrow> pystr \<Rightarrow> int list option" where
  "quick_width e s sr er chunks removed =
     (if length chunks = 1 \<and> sr = er \<and> length (DOC_LINEW (dw s)) = length (DOC_LINES s) \<and> DOC_LINEW (dw s) ! sr \<noteq> None
         \<and> 9 \<notin> set (DOC_LINES s ! sr) \<and> 9 \<notin> set (hd chunks)
      then Some [max 0 (the (DOC_LINEW (dw s) ! sr) - docwidthmeasure e (opts s) removed + docwidthmeasure e (opts s) (hd chunks))]
      else None)"

definition with_lines :: "wenv \<Rightarrow> editor \<Rightarrow> editor" where
  "with_lines e s = documentmetadataensure
     (if DOC_LINES s = [] then docwidthreset e (documentmetadatareset (s\<lparr>DOC_LINES := [[]]\<rparr>)) else s)"

text \<open>After \<open>documentmetadataensure\<close> every line has an identity, so that the fall-backs for a missing one are not
  reached.\<close>

definition replace_lines :: "wenv \<Rightarrow> nat \<Rightarrow> nat \<Rightarrow> pystr list \<Rightarrow> int list option \<Rightarrow> editor \<Rightarrow> editor" where
  "replace_lines e sr er replacement given s =
     (let extra = length replacement - 1;
          ids = DOC_LINE_IDS s ! sr # map (\<lambda>k. NEXT_LINE_ID s + int k) [0..<extra];
          versions = (DOC_LINE_VERSIONS s ! sr + 1) # replicate extra 0;
          s1 = s\<lparr>DOC_LINES := splice (DOC_LINES s) sr (er + 1) replacement,
                 DOC_LINE_IDS := splice (DOC_LINE_IDS s) sr (er + 1) ids,
                 DOC_LINE_VERSIONS := splice (DOC_LINE_VERSIONS s) sr (er + 1) versions,
                 NEXT_LINE_ID := NEXT_LINE_ID s + int extra\<rparr>;
          removedcount = er - sr + 1;
          s2 = wrapmetadatareplace sr removedcount (length replacement) s1;
          s3 = (if removedcount \<noteq> length replacement
                then s2\<lparr>DOCUMENT_REFLOW_ROW := reflow_at (int sr) (DOCUMENT_REFLOW_ROW s2)\<rparr> else s2)
      in docwidthreplace e sr removedcount replacement given s3)"

definition editapply :: "wenv \<Rightarrow> caret \<Rightarrow> caret \<Rightarrow> pystr \<Rightarrow> editor \<Rightarrow> (pystr \<times> pystr) \<times> editor" where
  "editapply e p0 q0 t s0 =
     (let s = with_lines e s0;
          (p, q) = ordered (normalisecaret s (fst p0) (snd p0)) (normalisecaret s (fst q0) (snd q0));
          sr = nat (fst p); sc = nat (snd p); er = nat (fst q); ec = nat (snd q);
          removed = text_between (DOC_LINES s) p q;
          inserted = newlines t;
          chunks = split_on 10 inserted;
          replacement = framed_chunks (take sc (DOC_LINES s ! sr)) chunks (drop ec (DOC_LINES s ! er));
          s1 = replace_lines e sr er replacement (quick_width e s sr er chunks removed) s;
          (row, col) = textpositionafter p inserted
      in ((removed, inserted), clearselection (s1\<lparr>CUR_ROW := row, CUR_COL := col\<rparr>)))"

section \<open>History\<close>

definition UNDO_LIMIT :: nat where "UNDO_LIMIT = 200"
definition UNDO_BYTE_LIMIT :: int where "UNDO_BYTE_LIMIT = 16 * 1024 * 1024"

definition historysize :: "edit \<Rightarrow> int" where
  "historysize a = int (length (utf8_replace (a_removed a))) + int (length (utf8_replace (a_inserted a))) + 256"

text \<open>Whether an insertion continues the one before it: typing in one line, without a pause, and not across a
  revision that was saved.\<close>

definition continues :: "past \<Rightarrow> edit \<Rightarrow> edit \<Rightarrow> bool" where
  "continues h previous a \<longleftrightarrow>
     a_removed previous = [] \<and> a_removed a = [] \<and> 10 \<notin> set (a_inserted previous) \<and> 10 \<notin> set (a_inserted a)
     \<and> a_start a = textpositionafter (a_start previous) (a_inserted previous)
     \<and> a_afterrev previous = a_beforerev a \<and> a_afterrev previous \<noteq> SAVED_REVISION h \<and> a_time a - a_time previous \<le> 1"

definition merged :: "edit \<Rightarrow> edit \<Rightarrow> edit" where
  "merged previous a =
     (let m = previous\<lparr>a_inserted := a_inserted previous @ a_inserted a, a_after := a_after a, a_afterrev := a_afterrev a,
                a_time := a_time a\<rparr>
      in m\<lparr>a_bytes := historysize m\<rparr>)"

fun trim_history :: "edit list \<Rightarrow> int \<Rightarrow> edit list \<times> int" where
  "trim_history [] bytes = ([], bytes)"
| "trim_history (a # as) bytes =
     (if length (a # as) > UNDO_LIMIT \<or> bytes > UNDO_BYTE_LIMIT then trim_history as (bytes - a_bytes a) else (a # as, bytes))"

definition historypush :: "wenv \<Rightarrow> edit \<Rightarrow> past \<Rightarrow> past" where
  "historypush e a0 h =
     (let a = a0\<lparr>a_bytes := historysize a0, a_time := we_time e\<rparr>; stack = UNDO_STACK h in
      if stack \<noteq> [] \<and> continues h (last stack) a then
        (let m = merged (last stack) a
         in h\<lparr>UNDO_STACK := butlast stack @ [m], REDO_STACK := [], UNDO_BYTES := UNDO_BYTES h - a_bytes (last stack) + a_bytes m\<rparr>)
      else
        (let (stack', bytes') = trim_history (stack @ [a]) (UNDO_BYTES h + a_bytes a)
         in h\<lparr>UNDO_STACK := stack', REDO_STACK := [], UNDO_BYTES := bytes'\<rparr>))"

definition place_of :: "editor \<Rightarrow> place" where
  "place_of s = (CUR_ROW s, CUR_COL s, FIRST_VISIBLE_ROW s, FIRST_VISIBLE_X s)"

definition put_place :: "place \<Rightarrow> editor \<Rightarrow> editor" where
  "put_place p s = (case p of (row, col, first, x) \<Rightarrow>
     s\<lparr>CUR_ROW := row, CUR_COL := col, FIRST_VISIBLE_ROW := first, FIRST_VISIBLE_X := x\<rparr>)"

definition editreplace :: "wenv \<Rightarrow> caret \<Rightarrow> caret \<Rightarrow> pystr \<Rightarrow> editor \<Rightarrow> bool \<times> editor" where
  "editreplace e p0 q0 t s =
     (let (p, q) = ordered (normalisecaret s (fst p0) (snd p0)) (normalisecaret s (fst q0) (snd q0));
          ((removed, inserted), s1) = editapply e p q t s
      in if removed = inserted then (False, s1)
         else
           (let h = hs s1; afterrev = NEXT_REVISION h;
                h' = h\<lparr>NEXT_REVISION := afterrev + 1, CURRENT_REVISION := afterrev, IS_DIRTY := (afterrev \<noteq> SAVED_REVISION h)\<rparr>;
                a = \<lparr>a_start = p, a_removed = removed, a_inserted = inserted, a_before = place_of s, a_after = place_of s1,
                     a_beforerev = CURRENT_REVISION (hs s), a_afterrev = afterrev, a_bytes = 0, a_time = 0\<rparr>
            in (True, s1\<lparr>hs := historypush e a h'\<rparr>)))"

definition undo :: "wenv \<Rightarrow> editor \<Rightarrow> editor" where
  "undo e s =
     (if UNDO_STACK (hs s) = [] then s
      else
        (let a = last (UNDO_STACK (hs s));
             s1 = s\<lparr>hs := (hs s)\<lparr>UNDO_STACK := butlast (UNDO_STACK (hs s)), UNDO_BYTES := UNDO_BYTES (hs s) - a_bytes a\<rparr>\<rparr>;
             s2 = put_place (a_before a) (snd (editapply e (a_start a) (textpositionafter (a_start a) (a_inserted a)) (a_removed a) s1));
             h = hs s2
         in clearselection (s2\<lparr>hs := h\<lparr>CURRENT_REVISION := a_beforerev a, IS_DIRTY := (a_beforerev a \<noteq> SAVED_REVISION h),
              REDO_STACK := REDO_STACK h @ [a]\<rparr>\<rparr>)))"

definition redo :: "wenv \<Rightarrow> editor \<Rightarrow> editor" where
  "redo e s =
     (if REDO_STACK (hs s) = [] then s
      else
        (let a = last (REDO_STACK (hs s));
             s1 = s\<lparr>hs := (hs s)\<lparr>REDO_STACK := butlast (REDO_STACK (hs s))\<rparr>\<rparr>;
             s2 = put_place (a_after a) (snd (editapply e (a_start a) (textpositionafter (a_start a) (a_removed a)) (a_inserted a) s1));
             h = hs s2
         in clearselection (s2\<lparr>hs := h\<lparr>CURRENT_REVISION := a_afterrev a, IS_DIRTY := (a_afterrev a \<noteq> SAVED_REVISION h),
              UNDO_STACK := UNDO_STACK h @ [a], UNDO_BYTES := UNDO_BYTES h + a_bytes a\<rparr>\<rparr>)))"

end
