(* ===== verification/Write_Motion.thy ===== *)
theory Write_Motion
  imports Write_Edit
begin

text \<open>
  Moving the caret and the view, selecting, and the edits that keys and menus ask for (\<open>write.py\<close>).  An error inside
  a function is logged there and leaves what was changed until then, so that the functions are total.
\<close>

text \<open>\<open>DOC_LINES[i]\<close>, counted from the end where negative.\<close>

definition py_line :: "editor \<Rightarrow> int \<Rightarrow> pystr option" where
  "py_line s i =
     (let n = int (length (DOC_LINES s)) in
      if 0 \<le> i \<and> i < n then Some (DOC_LINES s ! nat i)
      else if - n \<le> i \<and> i < 0 then Some (DOC_LINES s ! nat (n + i)) else None)"

definition caret_at :: "int \<Rightarrow> int \<Rightarrow> editor \<Rightarrow> editor" where
  "caret_at row col s = s\<lparr>CUR_ROW := row, CUR_COL := col\<rparr>"

section \<open>The view\<close>

definition lineadvanceat :: "wenv \<Rightarrow> editor \<Rightarrow> pystr \<Rightarrow> int \<Rightarrow> int" where
  "lineadvanceat e s line col0 =
     (let col = max 0 (min (int (length line)) col0) in
      if col \<le> 0 then 0
      else (let advances = measurelineadvances e line (FONT_SIZE (opts s)) (FONT_PATH (opts s)) in
        if length advances = length line then advances ! nat (col - 1)
        else (case measuretext e (take (nat col) line) (FONT_SIZE (opts s)) (Some (FONT_PATH (opts s))) of Inr w \<Rightarrow> w | Inl _ \<Rightarrow> 0)))"

definition horizontalneeded :: "wenv \<Rightarrow> editor \<Rightarrow> bool \<times> editor" where
  "horizontalneeded e s =
     (if WORD_WRAP (opts s) \<or> view_width e \<le> 0 then (False, s)
      else (let (content, s') = maxlinewidth e s in (content > view_width e, s')))"

definition verticalneeded :: "wenv \<Rightarrow> editor \<Rightarrow> bool \<times> editor" where
  "verticalneeded e s =
     (if VISIBLE_LINES (opts s) \<le> 0 then (False, s)
      else (let (n, s') = displaylinecount e s in (n > VISIBLE_LINES (opts s), s')))"

text \<open>The width of \<open>viewportgeometry\<close>.\<close>

definition viewport_width :: "wenv \<Rightarrow> editor \<Rightarrow> int \<times> editor" where
  "viewport_width e s =
     (let s1 = snd (horizontalneeded e s);
          (vertical, s2) = verticalneeded e s1
      in (max 0 (max 0 (WIN_W e - (if vertical then SCROLLBAR_WIDTH e else 0)) - MARGIN_LEFT e), s2))"

definition clampxscroll :: "wenv \<Rightarrow> editor \<Rightarrow> editor" where
  "clampxscroll e s =
     (if WORD_WRAP (opts s) then s\<lparr>FIRST_VISIBLE_X := 0\<rparr>
      else
        (let (vw, s1) = viewport_width e s in
         if vw \<le> 0 then s1\<lparr>FIRST_VISIBLE_X := 0\<rparr>
         else (let (content, s2) = maxlinewidth e s1; max_first = max 0 (content - vw)
               in s2\<lparr>FIRST_VISIBLE_X := min max_first (max 0 (FIRST_VISIBLE_X s2))\<rparr>)))"

definition ensurecursorvisiblex :: "wenv \<Rightarrow> editor \<Rightarrow> editor" where
  "ensurecursorvisiblex e s =
     (if WORD_WRAP (opts s) then s\<lparr>FIRST_VISIBLE_X := 0\<rparr>
      else
        (let (vw, s1) = viewport_width e s in
         if vw \<le> 0 \<or> DOC_LINES s1 = [] then s1\<lparr>FIRST_VISIBLE_X := 0\<rparr>
         else
           (let (row, col) = normalisecaret s1 (CUR_ROW s1) (CUR_COL s1);
                s2 = caret_at row col s1;
                cx = lineadvanceat e s2 (DOC_LINES s2 ! nat row) col;
                room = max 0 (vw - CURSOR_WIDTH e);
                x = FIRST_VISIBLE_X s2;
                s3 = (if cx < x then s2\<lparr>FIRST_VISIBLE_X := cx\<rparr> else if cx > x + room then s2\<lparr>FIRST_VISIBLE_X := cx - room\<rparr> else s2)
            in clampxscroll e s3)))"

definition max_first :: "int \<Rightarrow> int \<Rightarrow> int" where
  "max_first rows visible = (if rows > visible then rows - visible else 0)"

definition ensurecursorvisible :: "wenv \<Rightarrow> editor \<Rightarrow> editor" where
  "ensurecursorvisible e s =
     (let visible = VISIBLE_LINES (opts s) in
      if visible \<le> 0 then ensurecursorvisiblex e s
      else if DOC_LINES s = [] then ensurecursorvisiblex e (s\<lparr>CUR_ROW := 0, FIRST_VISIBLE_ROW := 0\<rparr>)
      else
        (let row = min (int (length (DOC_LINES s)) - 1) (max 0 (CUR_ROW s));
             s1 = s\<lparr>CUR_ROW := row\<rparr>;
             (cursorrow, s2) = cursorvisualindex e row (CUR_COL s1) s1;
             f0 = FIRST_VISIBLE_ROW s2;
             f1 = (if cursorrow < f0 then cursorrow else f0);
             f2 = (if cursorrow > f1 + visible - 1 then cursorrow - visible + 1 else f1);
             (rows, s3) = displaylinecount e s2;
             f3 = min (max_first rows visible) (max 0 f2)
         in ensurecursorvisiblex e (s3\<lparr>FIRST_VISIBLE_ROW := f3\<rparr>)))"

definition scrollbylines :: "wenv \<Rightarrow> int \<Rightarrow> editor \<Rightarrow> editor" where
  "scrollbylines e delta s =
     (let visible = VISIBLE_LINES (opts s) in
      if visible \<le> 0 \<or> DOC_LINES s = [] then s\<lparr>FIRST_VISIBLE_ROW := 0\<rparr>
      else (let (rows, s1) = displaylinecount e s
            in s1\<lparr>FIRST_VISIBLE_ROW := min (max_first rows visible) (max 0 (FIRST_VISIBLE_ROW s1 + delta))\<rparr>))"

definition scrollbyx :: "wenv \<Rightarrow> int \<Rightarrow> editor \<Rightarrow> editor" where
  "scrollbyx e delta s = clampxscroll e (s\<lparr>FIRST_VISIBLE_X := FIRST_VISIBLE_X s + delta\<rparr>)"

definition page :: "wenv \<Rightarrow> int \<Rightarrow> int \<Rightarrow> editor \<Rightarrow> editor" where
  "page e row delta s =
     (let s1 = s\<lparr>CUR_ROW := row\<rparr> in
      case py_line s1 row of
        None \<Rightarrow> s1
      | Some line \<Rightarrow> scrollbylines e delta (s1\<lparr>CUR_COL := min (CUR_COL s1) (int (length line))\<rparr>))"

definition pageup :: "wenv \<Rightarrow> editor \<Rightarrow> editor" where
  "pageup e s =
     (let visible = VISIBLE_LINES (opts s) in
      if visible \<le> 0 then scrollbylines e 0 s else page e (max 0 (CUR_ROW s - visible)) (- visible) s)"

definition pagedown :: "wenv \<Rightarrow> editor \<Rightarrow> editor" where
  "pagedown e s =
     (let visible = VISIBLE_LINES (opts s) in
      if visible \<le> 0 then scrollbylines e 0 s
      else page e (min (int (length (DOC_LINES s)) - 1) (CUR_ROW s + visible)) visible s)"

section \<open>The caret\<close>

definition in_some_line :: "(editor \<Rightarrow> editor) \<Rightarrow> editor \<Rightarrow> editor" where
  "in_some_line f s = (if DOC_LINES s = [] then s\<lparr>DOC_LINES := [[]], CUR_ROW := 0, CUR_COL := 0\<rparr> else f s)"

definition movecursorleft :: "editor \<Rightarrow> editor" where
  "movecursorleft = in_some_line (\<lambda>s.
     (let (row, col) = normalisecaret s (CUR_ROW s) (CUR_COL s) in
      if col > 0 then caret_at row (col - 1) s
      else if row > 0 then caret_at (row - 1) (int (length (line_at s (row - 1)))) s
      else caret_at row col s))"

definition movecursorright :: "editor \<Rightarrow> editor" where
  "movecursorright = in_some_line (\<lambda>s.
     (let (row, col) = normalisecaret s (CUR_ROW s) (CUR_COL s) in
      if col < int (length (line_at s row)) then caret_at row (col + 1) s
      else if row + 1 < int (length (DOC_LINES s)) then caret_at (row + 1) 0 s
      else caret_at row col s))"

definition movecursorup :: "editor \<Rightarrow> editor" where
  "movecursorup = in_some_line (\<lambda>s.
     (let (row, col) = normalisecaret s (if CUR_ROW s > 0 then CUR_ROW s - 1 else CUR_ROW s) (CUR_COL s) in caret_at row col s))"

definition movecursordown :: "editor \<Rightarrow> editor" where
  "movecursordown = in_some_line (\<lambda>s.
     (let (row, col) = normalisecaret s (if CUR_ROW s + 1 < int (length (DOC_LINES s)) then CUR_ROW s + 1 else CUR_ROW s) (CUR_COL s)
      in caret_at row col s))"

definition movecursorhome :: "editor \<Rightarrow> editor" where
  "movecursorhome s = (case py_line s (max 0 (min (int (length (DOC_LINES s)) - 1) (CUR_ROW s))) of
     None \<Rightarrow> s
   | Some line \<Rightarrow>
       (let firsttext = int (length line - length (lstrip (\<lambda>c. c = 32 \<or> c = 9) line))
        in s\<lparr>CUR_COL := (if CUR_COL s = firsttext then 0 else firsttext)\<rparr>))"

definition movecursorend :: "editor \<Rightarrow> editor" where
  "movecursorend = in_some_line (\<lambda>s.
     (let row = fst (normalisecaret s (CUR_ROW s) 0) in caret_at row (int (length (line_at s row))) s))"

section \<open>Words\<close>

definition iswordcharacter :: "wenv \<Rightarrow> cp \<Rightarrow> bool" where
  "iswordcharacter e c \<longleftrightarrow> we_isalnum e c \<or> c = 95"

definition iswordchar :: "wenv \<Rightarrow> cp \<Rightarrow> bool" where
  "iswordchar e c \<longleftrightarrow> we_isalnum e c \<or> c = 95 \<or> c = 39"

text \<open>Without lines the code asks for a line that is not there; \<open>None\<close> is that error.\<close>

definition wordpositionleft :: "wenv \<Rightarrow> editor \<Rightarrow> int \<Rightarrow> int \<Rightarrow> caret option" where
  "wordpositionleft e s row0 col0 =
     (let (row1, col1) = normalisecaret s row0 col0 in
      if col1 = 0 \<and> row1 = 0 then Some (0, 0)
      else
        (let row = (if col1 = 0 then row1 - 1 else row1);
             line = line_at s row;
             col = (if col1 = 0 then length line else nat col1);
             c = back_while py_isspace line col
         in if 0 < c then
              (let word = iswordcharacter e (line ! (c - 1))
               in Some (row, int (back_while (\<lambda>x. \<not> py_isspace x \<and> iswordcharacter e x = word) line c)))
            else Some (row, int c)))"

definition wordpositionright :: "wenv \<Rightarrow> editor \<Rightarrow> int \<Rightarrow> int \<Rightarrow> caret option" where
  "wordpositionright e s row0 col0 =
     (if DOC_LINES s = [] then None
      else
        (let (row, col) = normalisecaret s row0 col0; line = line_at s row in
         if col \<ge> int (length line) then
           (if row + 1 \<ge> int (length (DOC_LINES s)) then Some (row, int (length line)) else Some (row + 1, 0))
         else
           (let word = iswordcharacter e (line ! nat col);
                c = skip_while (\<lambda>x. \<not> py_isspace x \<and> iswordcharacter e x = word) line (nat col)
            in Some (row, int (skip_while py_isspace line c)))))"

definition movecursorword :: "wenv \<Rightarrow> bool \<Rightarrow> editor \<Rightarrow> editor" where
  "movecursorword e reverse s =
     (case (if reverse then wordpositionleft e s (CUR_ROW s) (CUR_COL s) else wordpositionright e s (CUR_ROW s) (CUR_COL s)) of
        None \<Rightarrow> s | Some (row, col) \<Rightarrow> caret_at row col s)"

definition deleteword :: "wenv \<Rightarrow> bool \<Rightarrow> editor \<Rightarrow> bool \<times> editor" where
  "deleteword e reverse s =
     (let here = (CUR_ROW s, CUR_COL s) in
      if reverse then (case wordpositionleft e s (CUR_ROW s) (CUR_COL s) of None \<Rightarrow> (False, s) | Some p \<Rightarrow> editreplace e p here [] s)
      else (case wordpositionright e s (CUR_ROW s) (CUR_COL s) of None \<Rightarrow> (False, s) | Some q \<Rightarrow> editreplace e here q [] s))"

text \<open>The index from which a double click spreads: the character itself, the next word, or the one before.\<close>

definition word_index :: "wenv \<Rightarrow> pystr \<Rightarrow> nat \<Rightarrow> nat option" where
  "word_index e line col =
     (let idx = (if col \<ge> length line \<and> 0 < length line then length line - 1 else col) in
      if idx < length line \<and> \<not> iswordchar e (line ! idx) then
        (let j = skip_while (\<lambda>c. \<not> iswordchar e c) line idx in
         if j < length line then Some j
         else (let k = back_while (\<lambda>c. \<not> iswordchar e c) line idx in if 0 < k then Some (k - 1) else None))
      else Some idx)"

definition selectwordat :: "wenv \<Rightarrow> int \<Rightarrow> int \<Rightarrow> editor \<Rightarrow> editor" where
  "selectwordat e row0 col0 s =
     (if DOC_LINES s = [] then s
      else
        (let (row, col) = normalisecaret s row0 col0; line = line_at s row in
         case word_index e line (nat col) of
           None \<Rightarrow> updateselectionend row col (setselectionanchor row col s)
         | Some idx \<Rightarrow>
             (let first = back_while (iswordchar e) line idx;
                  stop = skip_while (iswordchar e) line idx;
                  stop' = (if stop < length line \<and> line ! stop = 32 then stop + 1 else stop)
              in caret_at row (int stop') (updateselectionend row (int stop') (setselectionanchor row (int first) s)))))"

definition selectline :: "int \<Rightarrow> editor \<Rightarrow> editor" where
  "selectline row0 s =
     (if DOC_LINES s = [] then s
      else
        (let row = fst (normalisecaret s row0 0); endcol = int (length (line_at s row))
         in caret_at row endcol (updateselectionend row endcol (setselectionanchor row 0 s))))"

section \<open>Edits at the caret\<close>

definition newlinevalue :: "editor \<Rightarrow> int \<Rightarrow> int \<Rightarrow> pystr" where
  "newlinevalue s row col = (case py_line s row of
     None \<Rightarrow> [10]
   | Some line \<Rightarrow> 10 # take (min (skip_while (\<lambda>c. c = 32 \<or> c = 9) line 0) (nat (max 0 (min (int (length line)) col)))) line)"

definition handlenewline :: "wenv \<Rightarrow> editor \<Rightarrow> editor" where
  "handlenewline e s =
     (let p = normalisecaret s (CUR_ROW s) (CUR_COL s) in snd (editreplace e p p (newlinevalue s (fst p) (snd p)) s))"

definition insertnewline :: "wenv \<Rightarrow> editor \<Rightarrow> editor" where
  "insertnewline e s = (let p = (CUR_ROW s, CUR_COL s) in snd (editreplace e p p [10] s))"

definition insertcharacter :: "wenv \<Rightarrow> pystr \<Rightarrow> editor \<Rightarrow> editor" where
  "insertcharacter e ch s =
     (if ch = [10] then handlenewline e s
      else
        (let (row, col) = normalisecaret s (CUR_ROW s) (CUR_COL s) in
         if OVERWRITE_MODE (opts s) \<and> DOC_LINES s = [] then s
         else
           (let endcol = (if OVERWRITE_MODE (opts s) \<and> col < int (length (line_at s row)) then col + 1 else col)
            in snd (editreplace e (row, col) (row, endcol) ch s))))"

definition handlebackspace :: "wenv \<Rightarrow> editor \<Rightarrow> editor" where
  "handlebackspace e s =
     (if DOC_LINES s = [] then s
      else
        (let (row, col) = normalisecaret s (CUR_ROW s) (CUR_COL s) in
         if row = 0 \<and> col = 0 then s
         else if col > 0 then snd (editreplace e (row, col - 1) (row, col) [] s)
         else snd (editreplace e (row - 1, int (length (line_at s (row - 1)))) (row, 0) [] s)))"

definition handledelete :: "wenv \<Rightarrow> editor \<Rightarrow> editor" where
  "handledelete e s =
     (if DOC_LINES s = [] then s
      else
        (let (row, col) = normalisecaret s (CUR_ROW s) (CUR_COL s) in
         if col < int (length (line_at s row)) then snd (editreplace e (row, col) (row, col + 1) [] s)
         else if row + 1 < int (length (DOC_LINES s)) then snd (editreplace e (row, col) (row + 1, 0) [] s)
         else s))"

end
