(* ===== verification/Write_Commands.thy ===== *)
theory Write_Commands
  imports Write_Motion
begin

text \<open>
  Commands on the selection and on lines, searching and replacing, and what a key does (\<open>write.py\<close>).
\<close>

section \<open>The selection\<close>

definition here :: "editor \<Rightarrow> caret" where
  "here s = (CUR_ROW s, CUR_COL s)"

definition selection_or_caret :: "editor \<Rightarrow> caret \<times> caret" where
  "selection_or_caret s =
     (if hasselection s then (case selectionbounds s of (sr, sc, er, ec) \<Rightarrow> ((sr, sc), (er, ec))) else (here s, here s))"

definition deleteselection :: "wenv \<Rightarrow> editor \<Rightarrow> editor" where
  "deleteselection e s =
     (if \<not> hasselection s then s else (case selectionbounds s of (sr, sc, er, ec) \<Rightarrow> snd (editreplace e (sr, sc) (er, ec) [] s)))"

definition replaceselectionwithtext :: "wenv \<Rightarrow> pystr \<Rightarrow> editor \<Rightarrow> editor" where
  "replaceselectionwithtext e t s = (case selection_or_caret s of (p, q) \<Rightarrow> snd (editreplace e p q t s))"

definition inserttextblock :: "wenv \<Rightarrow> pystr \<Rightarrow> editor \<Rightarrow> editor" where
  "inserttextblock e t s = snd (editreplace e (here s) (here s) t s)"

definition selectedtext :: "editor \<Rightarrow> pystr" where
  "selectedtext s =
     (if \<not> hasselection s then []
      else
        (let (sr0, sc, er0, ec) = selectionbounds s; sr = max 0 sr0; n = int (length (DOC_LINES s)) in
         if sr \<ge> n then []
         else
           (let er = (if max 0 er0 \<ge> n then n - 1 else max 0 er0);
                clip = (\<lambda>line c. nat (min (int (length line)) (max 0 c)))
            in if sr = er then drop (clip (line_at s sr) sc) (take (clip (line_at s sr) ec) (line_at s sr))
               else join_with 10 (drop (clip (line_at s sr) sc) (line_at s sr) # map (\<lambda>r. DOC_LINES s ! r) [nat sr + 1..<nat er]
                 @ [take (clip (line_at s er) ec) (line_at s er)]))))"

text \<open>What is handed to the clipboard.\<close>

definition editcopy :: "editor \<Rightarrow> pystr option" where
  "editcopy s = (if hasselection s \<and> selectedtext s \<noteq> [] then Some (selectedtext s) else None)"

text \<open>\<open>we_exset\<close>: the clipboard took the text; the call raises otherwise.\<close>

definition editcut :: "wenv \<Rightarrow> editor \<Rightarrow> editor" where
  "editcut e s = (if editcopy s = None \<or> \<not> we_exset e then s else deleteselection e s)"

definition editpaste :: "wenv \<Rightarrow> editor \<Rightarrow> editor" where
  "editpaste e s = (case we_exget e of
     None \<Rightarrow> s
   | Some t \<Rightarrow> if t = [] then s else ensurecursorvisible e (clearselection (replaceselectionwithtext e t s)))"

definition editselectall :: "wenv \<Rightarrow> editor \<Rightarrow> editor" where
  "editselectall e s =
     (if DOC_LINES s = [] then s
      else
        (let lastrow = int (length (DOC_LINES s)) - 1; lastcol = int (length (last (DOC_LINES s)))
         in ensurecursorvisible e (s\<lparr>SEL_ANCHOR_ROW := 0, SEL_ANCHOR_COL := 0, SEL_ROW := lastrow, SEL_COL := lastcol,
              SEL_ACTIVE := True, CUR_ROW := lastrow, CUR_COL := lastcol\<rparr>)))"

section \<open>Lines\<close>

definition indentationremoval :: "int \<Rightarrow> pystr \<Rightarrow> int" where
  "indentationremoval tab line =
     (if starts_with [9] line then 1 else int (length (takeWhile (\<lambda>c. c = 32) (take (nat tab) line))))"

definition adjusted :: "int \<Rightarrow> int \<Rightarrow> (int \<Rightarrow> int \<Rightarrow> int) \<Rightarrow> caret \<Rightarrow> caret" where
  "adjusted sr lastrow f p = (if sr \<le> fst p \<and> fst p \<le> lastrow then (fst p, f (fst p) (snd p)) else p)"

definition last_selected :: "int \<Rightarrow> int \<Rightarrow> int \<Rightarrow> int" where
  "last_selected sr er ec = max sr (if er > sr \<and> ec = 0 then er - 1 else er)"

definition indent_selection :: "wenv \<Rightarrow> bool \<Rightarrow> editor \<Rightarrow> bool \<times> editor" where
  "indent_selection e outdent s =
     (let (sr, sc, er, ec) = selectionbounds s;
          lastrow = last_selected sr er ec;
          tab = TAB_WIDTH (opts s);
          old = map (\<lambda>r. py_line s r) [sr..lastrow]
      in if None \<in> set old then (False, s)
         else
           (let ls = map the old;
                indent = (if INDENT_USE_TABS (opts s) then [9] else replicate (nat tab) 32);
                removal = (\<lambda>r. indentationremoval tab (the (py_line s r)));
                replacement = (if outdent then map (\<lambda>l. drop (nat (indentationremoval tab l)) l) ls else map (\<lambda>l. indent @ l) ls);
                move = (\<lambda>r c. if outdent then max 0 (c - removal r) else c + (if INDENT_USE_TABS (opts s) then 1 else tab))
            in if outdent \<and> (\<forall>l \<in> set ls. indentationremoval tab l = 0) then (False, s)
               else
                 (let s1 = snd (editreplace e (sr, 0) (lastrow, int (length (the (py_line s lastrow)))) (join_with 10 replacement) s);
                      (ar, ac) = adjusted sr lastrow move (SEL_ANCHOR_ROW s, SEL_ANCHOR_COL s);
                      (br, bc) = adjusted sr lastrow move (SEL_ROW s, SEL_COL s);
                      (cr, cc) = adjusted sr lastrow move (here s)
                  in (True, s1\<lparr>SEL_ANCHOR_ROW := ar, SEL_ANCHOR_COL := ac, SEL_ROW := br, SEL_COL := bc, CUR_ROW := cr, CUR_COL := cc,
                       SEL_ACTIVE := ((ar, ac) \<noteq> (br, bc)), DOCUMENT_REFLOW_ROW := Some sr\<rparr>))))"

definition handleindentation :: "wenv \<Rightarrow> bool \<Rightarrow> editor \<Rightarrow> bool \<times> editor" where
  "handleindentation e outdent s =
     (if DOC_LINES s = [] then (False, s)
      else if \<not> hasselection s then
        (let (row, col) = normalisecaret s (CUR_ROW s) (CUR_COL s); tab = TAB_WIDTH (opts s); line = line_at s row in
         if \<not> outdent then
           (if INDENT_USE_TABS (opts s) then editreplace e (row, col) (row, col) [9] s
            else editreplace e (row, col) (row, col)
              (replicate (nat (tab - displaycolumn tab (take (nat col) line) 0 mod tab)) 32) s)
         else
           (let count = indentationremoval tab line in
            if count \<le> 0 then (False, s)
            else (True, (caret_at row (max 0 (col - count)) (snd (editreplace e (row, 0) (row, count) [] s)))\<lparr>DOCUMENT_REFLOW_ROW := Some row\<rparr>)))
      else indent_selection e outdent s)"

definition selectedlinerange :: "editor \<Rightarrow> int \<times> int" where
  "selectedlinerange s =
     (if hasselection s then (case selectionbounds s of (sr, _, er, ec) \<Rightarrow> (sr, last_selected sr er ec))
      else (let row = fst (normalisecaret s (CUR_ROW s) (CUR_COL s)) in (row, row)))"

definition clip_col :: "int \<Rightarrow> editor \<Rightarrow> editor" where
  "clip_col row s = (let s1 = s\<lparr>CUR_ROW := row\<rparr> in case py_line s1 row of
     None \<Rightarrow> s1 | Some line \<Rightarrow> s1\<lparr>CUR_COL := min (CUR_COL s1) (int (length line))\<rparr>)"

definition duplicatelines :: "wenv \<Rightarrow> editor \<Rightarrow> bool \<times> editor" where
  "duplicatelines e s =
     (let (first, final) = selectedlinerange s; old = map (\<lambda>r. py_line s r) [first..final] in
      if None \<in> set old \<or> py_line s final = None then (False, s)
      else
        (let endcol = int (length (the (py_line s final)));
             s1 = snd (editreplace e (final, endcol) (final, endcol) (10 # join_with 10 (map the old)) s)
         in (True, (clip_col (final + 1) (clearselection s1))\<lparr>DOCUMENT_REFLOW_ROW := Some first\<rparr>)))"

definition deletelines :: "wenv \<Rightarrow> editor \<Rightarrow> bool \<times> editor" where
  "deletelines e s =
     (let (first, final) = selectedlinerange s; n = int (length (DOC_LINES s));
          finish = (\<lambda>s1. (True, (clip_col (min first (int (length (DOC_LINES s1)) - 1)) (clearselection s1))
            \<lparr>DOCUMENT_REFLOW_ROW := Some (max 0 (first - 1))\<rparr>))
      in if first = 0 \<and> final = n - 1 then
           (case py_line s final of
              None \<Rightarrow> (False, s)
            | Some line \<Rightarrow> finish (snd (editreplace e (0, 0) (final, int (length line)) [] s)))
         else if final + 1 < n then finish (snd (editreplace e (first, 0) (final + 1, 0) [] s))
         else (case (py_line s (first - 1), py_line s final) of
             (Some before, Some line) \<Rightarrow>
               finish (snd (editreplace e (first - 1, int (length before)) (final, int (length line)) [] s))
           | _ \<Rightarrow> (False, s)))"

definition transformselection :: "wenv \<Rightarrow> bool \<Rightarrow> editor \<Rightarrow> bool \<times> editor" where
  "transformselection e upper s =
     (if \<not> hasselection s then (False, s)
      else
        (let (sr, sc, er, ec) = selectionbounds s; v = selectedtext s; t = (if upper then we_upper e v else we_lower e v) in
         if t = v then (False, s)
         else
           (let s1 = setselectionanchor sr sc (snd (editreplace e (sr, sc) (er, ec) t s));
                (row, col) = textpositionafter (sr, sc) t
            in (True, updateselectionend row col (caret_at row col s1)))))"

section \<open>Searching and replacing\<close>

definition findlineindex :: "wenv \<Rightarrow> bool \<Rightarrow> pystr \<Rightarrow> pystr \<Rightarrow> int \<Rightarrow> bool \<Rightarrow> int" where
  "findlineindex e match_case line query start reverse =
     (let hay = (if match_case then line else we_lower e line); needle = (if match_case then query else we_lower e query)
      in if reverse then py_rfind hay needle (nat (max 0 start)) else py_find hay needle (nat (max 0 start)))"

definition selectionmatches :: "wenv \<Rightarrow> pystr \<Rightarrow> editor \<Rightarrow> bool" where
  "selectionmatches e query s =
     (let v = selectedtext s in if FIND_MATCH_CASE (opts s) then v = query else we_lower e v = we_lower e query)"

fun first_match :: "(int \<Rightarrow> int \<times> int) \<Rightarrow> int list \<Rightarrow> (int \<times> int) option" where
  "first_match f [] = None"
| "first_match f (k # ks) = (if snd (f k) \<ge> 0 then Some (f k) else first_match f ks)"

definition findnext :: "wenv \<Rightarrow> bool \<Rightarrow> pystr option \<Rightarrow> editor \<Rightarrow> bool \<times> editor" where
  "findnext e reverse query s0 =
     (let v = (case query of None \<Rightarrow> FIND_QUERY s0 | Some q \<Rightarrow> q) in
      if v = [] then (False, s0)
      else
        (let s = s0\<lparr>FIND_QUERY := v\<rparr>;
             (startrow, startcol) =
               (if hasselection s \<and> selectionmatches e v s
                then (case selectionbounds s of (sr, sc, er, ec) \<Rightarrow> if reverse then (sr, sc) else (er, ec))
                else normalisecaret s (CUR_ROW s) (CUR_COL s));
             rows = int (length (DOC_LINES s));
             look = (\<lambda>offset.
               (let row = (if reverse then (startrow - offset) mod rows else (startrow + offset) mod rows);
                    line = line_at s row;
                    boundary = (if offset = 0 then startcol else if reverse then int (length line) + 1 else 0)
                in (row, findlineindex e (FIND_MATCH_CASE (opts s)) line v boundary reverse)))
         in if rows = 0 then (False, s)
            else (case first_match look [0..rows] of
                None \<Rightarrow> (False, clearselection s)
              | Some (row, index) \<Rightarrow>
                  (let col = index + int (length v)
                   in (True, ensurecursorvisible e (updateselectionend row col (caret_at row col (setselectionanchor row index s))))))))"

definition replaceone :: "wenv \<Rightarrow> editor \<Rightarrow> bool \<times> editor" where
  "replaceone e s =
     (if FIND_QUERY s = [] then (False, s)
      else
        (let (found, s1) = (if \<not> hasselection s \<or> \<not> selectionmatches e (FIND_QUERY s) s
               then findnext e False (Some (FIND_QUERY s)) s else (True, s))
         in if \<not> found then (False, s1)
            else
              (let (sr, sc, er, ec) = selectionbounds s1;
                   s2 = snd (editreplace e (sr, sc) (er, ec) (REPLACE_QUERY s1) s1);
                   (row, col) = textpositionafter (sr, sc) (REPLACE_QUERY s1)
               in (True, snd (findnext e False (Some (FIND_QUERY s1)) (clearselection (caret_at row col s2)))))))"

text \<open>The loop that replaces whatever the case.  The query is not empty, so that it ends.\<close>

lemma py_find_next: "0 \<le> py_find hay needle position \<Longrightarrow> position \<le> nat (py_find hay needle position) \<and> position \<le> length hay"
  using py_find_range [of hay needle position] by auto

function replace_ci :: "pystr \<Rightarrow> pystr \<Rightarrow> pystr \<Rightarrow> nat \<Rightarrow> pystr \<Rightarrow> nat \<Rightarrow> pystr \<times> nat" where
  "replace_ci lowered v needle qlen repl position =
     (let found = py_find lowered needle position in
      if found < 0 \<or> qlen = 0 then (drop position v, 0)
      else (let (rest, count) = replace_ci lowered v needle qlen repl (nat found + qlen)
            in (drop position (take (nat found) v) @ repl @ rest, count + 1)))"
  by pat_completeness auto
termination
proof (relation "measure (\<lambda>(lowered, _, _, _, _, position). length lowered + 1 - position)", goal_cases)
  case (2 lowered v needle qlen repl position found)
  then show ?case using py_find_next [of lowered needle position] by auto
qed simp

declare replace_ci.simps [simp del]

definition replaced_line :: "wenv \<Rightarrow> bool \<Rightarrow> pystr \<Rightarrow> pystr \<Rightarrow> pystr \<Rightarrow> pystr \<times> nat" where
  "replaced_line e match_case query repl line =
     (if match_case then (replace_all query repl line, count_sub query line)
      else replace_ci (we_lower e line) line (we_lower e query) (length query) repl 0)"

definition replaceall :: "wenv \<Rightarrow> editor \<Rightarrow> nat \<times> editor" where
  "replaceall e s =
     (if FIND_QUERY s = [] then (0, s)
      else
        (let done = map (replaced_line e (FIND_MATCH_CASE (opts s)) (FIND_QUERY s) (REPLACE_QUERY s)) (DOC_LINES s);
             count = sum_list (map snd done);
             final = int (length (DOC_LINES s)) - 1
         in if count = 0 then (0, s)
            else (count, clearselection (snd (editreplace e (0, 0) (final, int (length (last (DOC_LINES s))))
              (join_with 10 (map fst done)) s)))))"

text \<open>\<open>parsed\<close>: what \<open>int\<close> makes of the text entered.\<close>

definition gotoline :: "wenv \<Rightarrow> int option \<Rightarrow> editor \<Rightarrow> bool \<times> editor" where
  "gotoline e parsed s = (case parsed of
     None \<Rightarrow> (False, s)
   | Some n \<Rightarrow>
       (let row = max 0 (min (int (length (DOC_LINES s)) - 1) (n - 1))
        in (True, ensurecursorvisible e (clearselection (caret_at row 0 s)))))"

end
