(* ===== verification/Write_Keys.thy ===== *)
theory Write_Keys
  imports Write_Commands
begin

text \<open>
  What a key does while text is edited (\<open>handlekey\<close> of \<open>write.py\<close>).  Keys that open a prompt, change the zoom, print, or
  create, open and save documents are passed on as requests; so is text for the clipboard.
\<close>

datatype mods = ModDict "(pystr \<times> bool) list" | ModText pystr

datatype request =
    Nothing | AskSave | AskFind | AskReplace bool | AskLine | PrintDocument | Zoom int | ZoomReset | NewDocument | OpenDocument
  | SaveDocument | CopyText pystr | ClearStatus

fun alnum_runs :: "(cp \<Rightarrow> bool) \<Rightarrow> pystr \<Rightarrow> pystr \<Rightarrow> pystr list" where
  "alnum_runs p cur [] = (if cur \<noteq> [] then [cur] else [])"
| "alnum_runs p cur (c # cs) =
     (if p c then alnum_runs p (cur @ [c]) cs else if cur \<noteq> [] then cur # alnum_runs p [] cs else alnum_runs p [] cs)"

definition modtokens :: "wenv \<Rightarrow> mods \<Rightarrow> pystr set" where
  "modtokens e m = (case m of
     ModDict kvs \<Rightarrow> set (map (\<lambda>(k, _). we_lower e k) (filter snd kvs))
   | ModText t \<Rightarrow> set (alnum_runs (we_isalnum e) [] (we_lower e t)))"

definition mod_on :: "wenv \<Rightarrow> mods \<Rightarrow> string \<Rightarrow> bool" where
  "mod_on e m name \<longleftrightarrow> cps name \<in> modtokens e m \<or> cps (CHR ''l'' # name) \<in> modtokens e m \<or> cps (CHR ''r'' # name) \<in> modtokens e m"

definition holds_text :: "pystr \<Rightarrow> pystr \<Rightarrow> bool" where
  "holds_text hay needle \<longleftrightarrow> py_find hay needle 0 \<ge> 0"

definition hascommandmods :: "wenv \<Rightarrow> mods \<Rightarrow> bool" where
  "hascommandmods e m = (case m of
     ModDict kvs \<Rightarrow> list_ex (\<lambda>name. map_of (rev kvs) (cps name) = Some True) [''ctrl'', ''alt'', ''win'']
   | ModText t \<Rightarrow> list_ex (\<lambda>name. holds_text (we_lower e t) (cps name)) [''ctrl'', ''alt'', ''win'', ''meta'', ''super''])"

definition key_text :: "pystr \<Rightarrow> pystr" where
  "key_text t =
     (if t = [27] then cps ''<ESC>'' else if t = [8] \<or> t = [127] then cps ''<BACKSPACE>''
      else if t = cps ''<DEL>'' then cps ''<DELETE>'' else t)"

definition repeatok :: "pystr list" where
  "repeatok = map cps [''<LEFT>'', ''<RIGHT>'', ''<UP>'', ''<DOWN>'', ''<BACKSPACE>'', ''<DELETE>'', ''<HOME>'', ''<END>'', ''<PGUP>'', ''<PGDN>'']"

section \<open>Moving\<close>

text \<open>A move with \<open>shift\<close> extends the selection, another drops it.\<close>

definition moving :: "wenv \<Rightarrow> bool \<Rightarrow> (editor \<Rightarrow> editor) \<Rightarrow> editor \<Rightarrow> editor" where
  "moving e shift f s =
     (let s1 = (if shift \<and> \<not> hasselection s then setselectionanchor (CUR_ROW s) (CUR_COL s) s else s);
          s2 = f s1
      in ensurecursorvisible e (if shift then updateselectionend (CUR_ROW s2) (CUR_COL s2) s2 else clearselection s2))"

definition document_end :: "editor \<Rightarrow> editor" where
  "document_end s = (let row = int (length (DOC_LINES s)) - 1 in caret_at row (int (length (last (DOC_LINES s)))) s)"

definition motion_of :: "wenv \<Rightarrow> bool \<Rightarrow> pystr \<Rightarrow> (editor \<Rightarrow> editor) option" where
  "motion_of e ctrl t = map_of
     [(cps ''<LEFT>'', if ctrl then movecursorword e True else movecursorleft),
      (cps ''<RIGHT>'', if ctrl then movecursorword e False else movecursorright),
      (cps ''<UP>'', movecursorup), (cps ''<DOWN>'', movecursordown),
      (cps ''<HOME>'', if ctrl then caret_at 0 0 else movecursorhome),
      (cps ''<END>'', if ctrl then document_end else movecursorend),
      (cps ''<PGUP>'', pageup e), (cps ''<PGDN>'', pagedown e)] t"

section \<open>Shortcuts\<close>

text \<open>A control character, or its letter with the control key.\<close>

definition short :: "wenv \<Rightarrow> bool \<Rightarrow> pystr \<Rightarrow> cp \<Rightarrow> string \<Rightarrow> bool" where
  "short e ctrl t code letter \<longleftrightarrow> t = [code] \<or> ctrl \<and> we_lower e t = cps letter"

definition letter :: "wenv \<Rightarrow> bool \<Rightarrow> pystr \<Rightarrow> string \<Rightarrow> bool" where
  "letter e ctrl t l \<longleftrightarrow> ctrl \<and> we_lower e t = cps l"

definition stepped :: "wenv \<Rightarrow> (editor \<Rightarrow> editor) \<Rightarrow> editor \<Rightarrow> editor" where
  "stepped e f s = ensurecursorvisible e (clearselection (f s))"

definition shortcut :: "wenv \<Rightarrow> bool \<Rightarrow> bool \<Rightarrow> pystr \<Rightarrow> editor \<Rightarrow> (request \<times> editor) option" where
  "shortcut e ctrl shift t s =
     (if letter e ctrl t ''s'' \<and> shift then Some (AskSave, s)
      else if letter e ctrl t ''f'' then Some (AskFind, s)
      else if letter e ctrl t ''h'' then Some (AskReplace shift, s)
      else if letter e ctrl t ''g'' then Some (AskLine, s)
      else if letter e ctrl t ''p'' then Some (PrintDocument, s)
      else if letter e ctrl t ''d'' then Some (Nothing, ensurecursorvisible e (snd (duplicatelines e s)))
      else if letter e ctrl t ''k'' \<and> shift then Some (Nothing, ensurecursorvisible e (snd (deletelines e s)))
      else if ctrl \<and> (t = cps ''+'' \<or> t = cps ''='') then Some (Zoom 1, s)
      else if ctrl \<and> t = cps ''-'' then Some (Zoom (- 1), s)
      else if ctrl \<and> t = cps ''0'' then Some (ZoomReset, s)
      else if short e ctrl t 14 ''n'' then Some (NewDocument, s)
      else if short e ctrl t 15 ''o'' then Some (OpenDocument, s)
      else if short e ctrl t 19 ''s'' then Some (SaveDocument, s)
      else if t = [26] \<or> letter e ctrl t ''z'' \<and> \<not> shift then Some (Nothing, stepped e (undo e) s)
      else if short e ctrl t 25 ''y'' then Some (Nothing, stepped e (redo e) s)
      else if short e ctrl t 1 ''a'' then Some (Nothing, editselectall e s)
      else if letter e ctrl t ''z'' \<and> shift then Some (Nothing, stepped e (redo e) s)
      else if short e ctrl t 3 ''c'' then Some (case editcopy s of None \<Rightarrow> Nothing | Some v \<Rightarrow> CopyText v, s)
      else if short e ctrl t 24 ''x'' then
        Some (case editcopy s of None \<Rightarrow> Nothing | Some v \<Rightarrow> CopyText v, ensurecursorvisible e (editcut e s))
      else if short e ctrl t 22 ''v'' then Some (Nothing, editpaste e s)
      else None)"

section \<open>Editing\<close>

definition on_selection :: "wenv \<Rightarrow> (editor \<Rightarrow> editor) \<Rightarrow> (editor \<Rightarrow> editor) \<Rightarrow> editor \<Rightarrow> editor" where
  "on_selection e f g s = (if hasselection s then ensurecursorvisible e (f s) else stepped e g s)"

definition replace_bounds :: "wenv \<Rightarrow> (int \<Rightarrow> int \<Rightarrow> pystr) \<Rightarrow> editor \<Rightarrow> editor" where
  "replace_bounds e t s = (case selectionbounds s of (sr, sc, er, ec) \<Rightarrow> snd (editreplace e (sr, sc) (er, ec) (t sr sc) s))"

definition editing_key :: "wenv \<Rightarrow> mods \<Rightarrow> pystr \<Rightarrow> editor \<Rightarrow> request \<times> editor" where
  "editing_key e m t s =
     (let ctrl = mod_on e m ''ctrl''; shift = mod_on e m ''shift'' in
      if t = [9] \<or> t = cps ''<TAB>'' then
        (if hascommandmods e m then (Nothing, s)
         else (let (changed, s1) = handleindentation e shift s in (Nothing, if changed then ensurecursorvisible e s1 else s1)))
      else if t = cps ''<ENTER>'' \<or> t = [10] then
        (Nothing, on_selection e (replace_bounds e (newlinevalue s)) (handlenewline e) s)
      else if t = cps ''<BACKSPACE>'' then
        (Nothing, on_selection e (deleteselection e) (if ctrl then snd \<circ> deleteword e True else handlebackspace e) s)
      else if t = cps ''<DELETE>'' then
        (Nothing, on_selection e (deleteselection e) (if ctrl then snd \<circ> deleteword e False else handledelete e) s)
      else if t = cps ''<INS>'' then (Nothing, s\<lparr>opts := (opts s)\<lparr>OVERWRITE_MODE := \<not> OVERWRITE_MODE (opts s)\<rparr>\<rparr>)
      else if t = cps ''<F2>'' then (OpenDocument, s)
      else if t = cps ''<F3>'' then (Nothing, snd (findnext e shift None s))
      else if t = cps ''<F4>'' then (AskSave, s)
      else if length t = 1 \<and> we_isprintable e (hd t) then
        (Nothing, on_selection e (replace_bounds e (\<lambda>_ _. t)) (insertcharacter e t) s)
      else (Nothing, s))"

definition handlekey :: "wenv \<Rightarrow> pystr \<Rightarrow> pystr \<Rightarrow> mods \<Rightarrow> editor \<Rightarrow> request \<times> editor" where
  "handlekey e raw state m s =
     (let t = key_text raw; ctrl = mod_on e m ''ctrl''; shift = mod_on e m ''shift'' in
      if state \<noteq> cps ''down'' \<and> state \<noteq> cps ''repeat'' then (Nothing, s)
      else if state = cps ''repeat'' \<and> t \<notin> set repeatok then (Nothing, s)
      else if t = cps ''<ESC>'' then (ClearStatus, s)
      else (case shortcut e ctrl shift t s of
          Some r \<Rightarrow> r
        | None \<Rightarrow> (case motion_of e ctrl t of
            Some f \<Rightarrow> (Nothing, moving e shift f s)
          | None \<Rightarrow> editing_key e m t s)))"

end
