(* ===== verification/Write_Text.thy ===== *)
theory Write_Text
  imports Write_Keys
begin

text \<open>
  The document as one text: carets are prefixes of it, and every change replaces a piece of it.
\<close>

section \<open>Splitting and joining\<close>

lemma split_on_glue: "split_on c (a @ b) = butlast (split_on c a) @ (last (split_on c a) @ hd (split_on c b)) # tl (split_on c b)"
proof (induction a)
  case Nil
  then show ?case using split_on_nonempty [of c b] by simp
next
  case (Cons x a)
  obtain y ys where y: "split_on c a = y # ys" by (cases "split_on c a") auto
  then show ?case using Cons by (cases "ys = []") auto
qed

lemma join_append: "xs \<noteq> [] \<Longrightarrow> ys \<noteq> [] \<Longrightarrow> join_with c (xs @ ys) = join_with c xs @ c # join_with c ys"
proof (induction xs)
  case (Cons x xs)
  show ?case
  proof (cases "xs = []")
    case True
    then show ?thesis using Cons.prems by (cases ys) auto
  next
    case False
    then obtain z zs where "xs = z # zs" by (cases xs) auto
    then show ?thesis using Cons False by simp
  qed
qed simp

lemma join_Cons: "ys \<noteq> [] \<Longrightarrow> join_with c (x # ys) = x @ c # join_with c ys"
  by (cases ys) auto

lemma join_snoc: "xs \<noteq> [] \<Longrightarrow> join_with c (xs @ [y]) = join_with c xs @ c # y"
  by (simp add: join_append)

lemma join_prefixed: "join_with c ((p @ x) # xs) = p @ join_with c (x # xs)"
  by (cases xs) auto

lemma join_suffixed: "join_with c (xs @ [y @ s]) = join_with c (xs @ [y]) @ s"
  by (cases "xs = []") (simp_all add: join_snoc)

lemma set_newlines: "13 \<notin> set (newlines t)"
  by (induction t rule: newlines.induct) (auto split: list.splits)

lemma set_split_on: "x \<in> set (split_on c s) \<Longrightarrow> set x \<subseteq> set s"
proof (induction s arbitrary: x)
  case (Cons y s)
  show ?case
  proof (cases "split_on c s")
    case Nil
    then show ?thesis by simp
  next
    case (Cons z zs)
    then have "set z \<subseteq> set s" "\<forall>x \<in> set zs. set x \<subseteq> set s" using Cons.IH by auto
    then show ?thesis using Cons Cons.prems by (cases "y = c") auto
  qed
qed simp

section \<open>Documents and carets\<close>

definition doc_ok :: "pystr list \<Rightarrow> bool" where
  "doc_ok ls \<longleftrightarrow> ls \<noteq> [] \<and> (\<forall>l \<in> set ls. 10 \<notin> set l \<and> 13 \<notin> set l)"

lemma split_join_doc: "doc_ok ls \<Longrightarrow> split_on 10 (join_with 10 ls) = ls"
  by (simp add: doc_ok_def split_on_join)

lemma doc_ok_split: "13 \<notin> set t \<Longrightarrow> doc_ok (split_on 10 t)"
  using set_split_on split_on_parts_no_sep by (fastforce simp: doc_ok_def)

lemma no_cr_join: "doc_ok ls \<Longrightarrow> 13 \<notin> set (join_with 10 ls)"
proof -
  have "\<forall>l \<in> set ls. 13 \<notin> set l \<Longrightarrow> 13 \<notin> set (join_with 10 ls)"
    by (induction "10 :: nat" ls rule: join_with.induct) auto
  then show "doc_ok ls \<Longrightarrow> ?thesis" by (simp add: doc_ok_def)
qed

lemma doc_eqI: "doc_ok ls \<Longrightarrow> doc_ok ls' \<Longrightarrow> join_with 10 ls = join_with 10 ls' \<Longrightarrow> ls = ls'"
  by (metis split_join_doc)

definition pos_of :: "pystr \<Rightarrow> caret" where
  "pos_of t = textpositionafter (0, 0) t"

lemma position_append: "textpositionafter (textpositionafter p a) b = textpositionafter p (a @ b)"
proof -
  obtain x xs where a: "split_on 10 a = x # xs" by (cases "split_on 10 a") auto
  obtain y ys where b: "split_on 10 b = y # ys" by (cases "split_on 10 b") auto
  show ?thesis
    by (cases xs; cases ys) (auto simp: textpositionafter_def split_on_glue a b Let_def)
qed

lemma pos_of_append: "textpositionafter (pos_of a) b = pos_of (a @ b)"
  by (simp add: pos_of_def position_append)

lemma position_later: "t \<noteq> [] \<Longrightarrow> caret_less p (textpositionafter p t)"
proof -
  assume t: "t \<noteq> []"
  obtain x xs where s: "split_on 10 t = x # xs" by (cases "split_on 10 t") auto
  have "xs = [] \<Longrightarrow> x \<noteq> []" using join_split_on [of 10 t] s t by auto
  then show ?thesis by (cases "xs = []") (auto simp: textpositionafter_def caret_less_def s)
qed

lemma pos_of_less: "t \<noteq> [] \<Longrightarrow> caret_less (pos_of p) (pos_of (p @ t))"
  using position_later [of t "pos_of p"] by (simp add: pos_of_append)

lemma caret_less_irrefl: "\<not> caret_less p p"
  by (simp add: caret_less_def)

lemma pos_of_inj: "a @ b = a' @ b' \<Longrightarrow> pos_of a = pos_of a' \<Longrightarrow> a = a'"
proof -
  assume eq: "a @ b = a' @ b'" and p: "pos_of a = pos_of a'"
  then consider u where "a' = a @ u" | u where "a = a' @ u" by (auto simp: append_eq_append_conv2)
  then show "a = a'"
    using p pos_of_less caret_less_irrefl by cases (metis append_Nil2)+
qed

definition caret_ok :: "pystr list \<Rightarrow> caret \<Rightarrow> bool" where
  "caret_ok ls p \<longleftrightarrow> 0 \<le> fst p \<and> fst p < int (length ls) \<and> 0 \<le> snd p \<and> snd p \<le> int (length (ls ! nat (fst p)))"

lemma normalise_ok: "ls \<noteq> [] \<Longrightarrow> caret_ok ls (normalise_in ls r c)"
  by (auto simp: normalise_in_def caret_ok_def Let_def)

lemma normalise_id: "caret_ok ls p \<Longrightarrow> normalise_in ls (fst p) (snd p) = p"
  by (cases p) (auto simp: normalise_in_def caret_ok_def Let_def)

text \<open>The text before and after a caret.\<close>

definition before :: "pystr list \<Rightarrow> caret \<Rightarrow> pystr" where
  "before ls p = join_with 10 (take (nat (fst p)) ls @ [take (nat (snd p)) (ls ! nat (fst p))])"

definition after :: "pystr list \<Rightarrow> caret \<Rightarrow> pystr" where
  "after ls p = join_with 10 (drop (nat (snd p)) (ls ! nat (fst p)) # drop (nat (fst p) + 1) ls)"

lemma before_after: "caret_ok ls p \<Longrightarrow> join_with 10 ls = before ls p @ after ls p"
proof -
  assume ok: "caret_ok ls p"
  let ?r = "nat (fst p)" and ?c = "nat (snd p)"
  have "ls = take ?r ls @ (take ?c (ls ! ?r) @ drop ?c (ls ! ?r)) # drop (?r + 1) ls"
    using ok id_take_nth_drop [of ?r ls] by (simp add: caret_ok_def nat_less_iff)
  then have "join_with 10 ls = join_with 10 (take ?r ls @ (take ?c (ls ! ?r) @ drop ?c (ls ! ?r)) # drop (?r + 1) ls)" by simp
  also have "\<dots> = before ls p @ after ls p"
  proof (cases "take ?r ls = []")
    case True
    then show ?thesis unfolding before_def after_def by (simp only: join_prefixed append_Nil join_with.simps)
  next
    case False
    then have "join_with 10 (take ?r ls @ (take ?c (ls ! ?r) @ drop ?c (ls ! ?r)) # drop (?r + 1) ls)
        = join_with 10 (take ?r ls) @ 10 # take ?c (ls ! ?r) @ after ls p"
      by (simp only: join_append join_prefixed after_def list.distinct not_False_eq_True)
    then show ?thesis using False by (simp add: before_def join_snoc)
  qed
  finally show ?thesis .
qed

lemma pos_of_lines: "xs \<noteq> [] \<Longrightarrow> \<forall>l \<in> set xs. 10 \<notin> set l \<Longrightarrow>
    pos_of (join_with 10 xs) = (int (length xs) - 1, int (length (last xs)))"
  by (cases xs) (auto simp: pos_of_def textpositionafter_def split_on_join Let_def)

lemma pos_of_before: "doc_ok ls \<Longrightarrow> caret_ok ls p \<Longrightarrow> pos_of (before ls p) = p"
proof -
  assume d: "doc_ok ls" and p: "caret_ok ls p"
  let ?xs = "take (nat (fst p)) ls @ [take (nat (snd p)) (ls ! nat (fst p))]"
  have "nat (fst p) < length ls" using p by (simp add: caret_ok_def nat_less_iff)
  then have "\<forall>l \<in> set ?xs. 10 \<notin> set l" using d by (auto simp: doc_ok_def dest: in_set_takeD)
  then have "pos_of (before ls p) = (int (length ?xs) - 1, int (length (last ?xs)))" unfolding before_def by (intro pos_of_lines) auto
  then show ?thesis using p \<open>nat (fst p) < length ls\<close> by (cases p) (auto simp: caret_ok_def min_def)
qed

lemma caret_of_prefix: "doc_ok ls \<Longrightarrow> join_with 10 ls = a @ b \<Longrightarrow> caret_ok ls (pos_of a) \<and> before ls (pos_of a) = a \<and> after ls (pos_of a) = b"
proof -
  assume d: "doc_ok ls" and ab: "join_with 10 ls = a @ b"
  obtain x xs where a: "split_on 10 a = x # xs" by (cases "split_on 10 a") auto
  obtain y ys where b: "split_on 10 b = y # ys" by (cases "split_on 10 b") auto
  have ls: "ls = butlast (x # xs) @ (last (x # xs) @ y) # ys"
    using split_join_doc [OF d] split_on_glue [of 10 a b] ab a b by simp
  have p: "pos_of a = (int (length xs), int (length (last (x # xs))))"
    by (cases "xs = []") (simp_all add: pos_of_def textpositionafter_def a)
  have "caret_ok ls (pos_of a)" unfolding p caret_ok_def by (simp add: ls nth_append)
  moreover have "before ls (pos_of a) = a"
    using pos_of_before [OF d] before_after [OF \<open>caret_ok ls (pos_of a)\<close>] pos_of_inj ab \<open>caret_ok ls (pos_of a)\<close> by metis
  ultimately show ?thesis using before_after [of ls "pos_of a"] ab by simp
qed

section \<open>Changes\<close>

lemma join_cut: "join_with c (xs @ (a @ b) # ys) = join_with c (xs @ [a]) @ join_with c (b # ys)"
proof (cases "xs = []")
  case True
  then show ?thesis by (simp add: join_prefixed)
next
  case False
  then show ?thesis by (simp add: join_append join_prefixed)
qed

definition caret_le :: "caret \<Rightarrow> caret \<Rightarrow> bool" where
  "caret_le p q \<longleftrightarrow> \<not> caret_less q p"

lemma take_upto: "i < j \<Longrightarrow> j \<le> length ls \<Longrightarrow> take j ls = take i ls @ ls ! i # map (\<lambda>r. ls ! r) [i + 1..<j]"
  by (rule nth_equalityI) (auto simp: nth_append nth_Cons')

lemma before_between: "caret_ok ls p \<Longrightarrow> caret_ok ls q \<Longrightarrow> caret_le p q \<Longrightarrow> before ls q = before ls p @ text_between ls p q"
proof -
  assume p: "caret_ok ls p" and q: "caret_ok ls q" and le: "caret_le p q"
  let ?sr = "nat (fst p)" and ?sc = "nat (snd p)" and ?er = "nat (fst q)" and ?ec = "nat (snd q)"
  have er: "?er < length ls" "?ec \<le> length (ls ! ?er)" using q by (auto simp: caret_ok_def)
  show ?thesis
  proof (cases "?sr = ?er")
    case True
    then have "?sc \<le> ?ec" using p q le by (auto simp: caret_ok_def caret_le_def caret_less_def)
    then have "take ?ec (ls ! ?er) = take ?sc (ls ! ?er) @ drop ?sc (take ?ec (ls ! ?er))"
      by (metis append_take_drop_id min.absorb1 take_take)
    then have "before ls q = join_with 10 (take ?er ls @ [take ?sc (ls ! ?er) @ drop ?sc (take ?ec (ls ! ?er))])" unfolding before_def by simp
    then show ?thesis using True by (simp add: join_suffixed before_def text_between_def)
  next
    case False
    then have lt: "?sr < ?er" using p q le by (auto simp: caret_ok_def caret_le_def caret_less_def)
    have "before ls q = join_with 10 (take ?sr ls @ (take ?sc (ls ! ?sr) @ drop ?sc (ls ! ?sr)) # map (\<lambda>r. ls ! r) [?sr + 1..<?er] @ [take ?ec (ls ! ?er)])"
      unfolding before_def using take_upto [OF lt, of ls] er(1) by simp
    also have "\<dots> = before ls p @ join_with 10 (drop ?sc (ls ! ?sr) # map (\<lambda>r. ls ! r) [?sr + 1..<?er] @ [take ?ec (ls ! ?er)])"
      unfolding before_def by (rule join_cut)
    finally show ?thesis using False by (simp add: text_between_def Let_def)
  qed
qed

lemma join_framed:
  assumes "cs \<noteq> []"
  shows "join_with c (xs @ framed_chunks a cs b @ ys) = join_with c (xs @ [a]) @ join_with c cs @ join_with c (b # ys)"
proof (cases cs)
  case (Cons y zs)
  show ?thesis
  proof (cases "zs = []")
    case True
    then show ?thesis using Cons join_cut [of c xs a "y @ b" ys] by (simp add: framed_chunks_def join_prefixed)
  next
    case False
    have "join_with c (xs @ (a @ y) # butlast zs @ [last zs @ b] @ ys) = join_with c (xs @ [a]) @ join_with c (y # butlast zs @ [last zs @ b] @ ys)"
      by (rule join_cut)
    also have "join_with c (y # butlast zs @ [last zs @ b] @ ys) = join_with c (cs @ []) @ join_with c (b # ys)"
      using join_cut [of c "y # butlast zs" "last zs" b ys] False Cons by simp
    finally show ?thesis using False Cons by (simp add: framed_chunks_def)
  qed
qed (simp add: assms)

lemma join_changed:
  assumes "cs \<noteq> []"
  shows "join_with 10 (splice ls (nat (fst p)) (nat (fst q) + 1) (framed_chunks (take (nat (snd p)) (ls ! nat (fst p))) cs (drop (nat (snd q)) (ls ! nat (fst q)))))
    = before ls p @ join_with 10 cs @ after ls q"
  unfolding splice_def before_def after_def using assms by (rule join_framed)

lemma framed_all:
  assumes "cs \<noteq> []" "P a" "P b" "\<forall>x \<in> set cs. P x" "\<And>x y. P x \<Longrightarrow> P y \<Longrightarrow> P (x @ y)"
  shows "\<forall>l \<in> set (framed_chunks a cs b). P l"
proof (cases cs)
  case (Cons y zs)
  show ?thesis
  proof (cases "zs = []")
    case False
    then have "P (a @ y)" "P (last zs @ b)" "\<forall>x \<in> set (butlast zs). P x"
      using assms Cons by (simp_all add: in_set_butlastD)
    then show ?thesis using False Cons by (simp add: framed_chunks_def)
  qed (use assms Cons in \<open>simp add: framed_chunks_def\<close>)
qed (simp add: assms(1))

lemma edited_ok:
  assumes "doc_ok ls" "caret_ok ls p" "caret_ok ls q" "13 \<notin> set t"
  shows "doc_ok (splice ls (nat (fst p)) (nat (fst q) + 1) (framed_chunks (take (nat (snd p)) (ls ! nat (fst p))) (split_on 10 t) (drop (nat (snd q)) (ls ! nat (fst q)))))"
    (is "doc_ok (splice ls ?i ?j (framed_chunks ?a ?cs ?b))")
proof -
  have ij: "?i < length ls" "nat (fst q) < length ls" using assms(2,3) by (auto simp: caret_ok_def)
  let ?P = "\<lambda>l. 10 \<notin> set l \<and> 13 \<notin> set l"
  have "?P (ls ! ?i)" "?P (ls ! nat (fst q))" using assms(1) nth_mem [OF ij(1)] nth_mem [OF ij(2)] by (auto simp: doc_ok_def)
  then have "?P ?a" "?P ?b" by (auto dest: in_set_takeD in_set_dropD)
  moreover have "\<forall>x \<in> set ?cs. ?P x" using doc_ok_split [OF assms(4)] by (simp add: doc_ok_def)
  ultimately have "\<forall>l \<in> set (framed_chunks ?a ?cs ?b). ?P l" by (intro framed_all) auto
  moreover have "framed_chunks ?a ?cs ?b \<noteq> []" by (simp add: framed_chunks_def)
  ultimately show ?thesis using assms(1) by (auto simp: doc_ok_def splice_def dest: in_set_takeD in_set_dropD)
qed

end
