(* ===== verification/Write_History.thy ===== *)
theory Write_History
  imports Write_Text
begin

text \<open>
  What a change does to the text, and the history: revisions name texts, and undoing and redoing walk between them.
\<close>

named_theorems kept_fields \<open>the fields an operation leaves alone\<close>

section \<open>What the indexes leave alone\<close>

text \<open>The part of the state that the indexes of wrapped lines and of widths do not touch.\<close>

definition body :: "editor \<Rightarrow> editor" where
  "body s = s\<lparr>ws := undefined, dw := undefined, DOC_LINE_IDS := [], DOC_LINE_VERSIONS := [], NEXT_LINE_ID := 0, DOCUMENT_REFLOW_ROW := None\<rparr>"

lemma body_fields:
  "body s = body s' \<Longrightarrow> DOC_LINES s = DOC_LINES s' \<and> CUR_ROW s = CUR_ROW s' \<and> CUR_COL s = CUR_COL s' \<and> FIRST_VISIBLE_ROW s = FIRST_VISIBLE_ROW s'
     \<and> FIRST_VISIBLE_X s = FIRST_VISIBLE_X s' \<and> hs s = hs s' \<and> opts s = opts s' \<and> FIND_QUERY s = FIND_QUERY s' \<and> REPLACE_QUERY s = REPLACE_QUERY s'"
  by (cases s; cases s') (simp add: body_def)

lemma body_wrap [kept_fields]: "body (s\<lparr>ws := w\<rparr>) = body s" "body (s\<lparr>dw := d\<rparr>) = body s"
  by (simp_all add: body_def)

lemma body_ids [kept_fields]: "body (s\<lparr>DOCUMENT_REFLOW_ROW := r\<rparr>) = body s"
  "body (s\<lparr>DOC_LINE_IDS := a, DOC_LINE_VERSIONS := b, NEXT_LINE_ID := c\<rparr>) = body s"
  by (simp_all add: body_def)

lemma body_invalidate [kept_fields]: "body (invalidatewrapcache b s) = body s"
  by (simp add: invalidatewrapcache_def body_wrap)

lemma body_metadata [kept_fields]: "body (documentmetadatareset s) = body s" "body (documentmetadataensure s) = body s"
  by (simp_all add: documentmetadataensure_def documentmetadatareset_def Let_def kept_fields)

lemma body_wrapreplace [kept_fields]: "body (wrapmetadatareplace a b c s) = body s"
  by (simp add: wrapmetadatareplace_def Let_def kept_fields)

lemma body_widths [kept_fields]: "body (docwidthreset e s) = body s" "body (docwidthreplace e a b c d s) = body s"
  by (simp_all add: docwidthreset_def docwidthreplace_def Let_def kept_fields)

lemma with_lines_body: "DOC_LINES s \<noteq> [] \<Longrightarrow> body (with_lines e s) = body s"
  by (simp add: with_lines_def kept_fields)

lemma replace_lines_body: "body (replace_lines e i j r g s) = body (s\<lparr>DOC_LINES := splice (DOC_LINES s) i (j + 1) r\<rparr>)"
proof -
  have "body (s\<lparr>DOC_LINES := l, DOC_LINE_IDS := a, DOC_LINE_VERSIONS := b, NEXT_LINE_ID := c\<rparr>) = body (s\<lparr>DOC_LINES := l\<rparr>)" for l a b c
    by (simp add: body_def)
  then show ?thesis by (simp add: replace_lines_def Let_def kept_fields)
qed

section \<open>A change of the text\<close>

definition same_but_text :: "editor \<Rightarrow> editor \<Rightarrow> bool" where
  "same_but_text s s' \<longleftrightarrow> hs s' = hs s \<and> opts s' = opts s \<and> FIRST_VISIBLE_ROW s' = FIRST_VISIBLE_ROW s \<and> FIRST_VISIBLE_X s' = FIRST_VISIBLE_X s
     \<and> FIND_QUERY s' = FIND_QUERY s \<and> REPLACE_QUERY s' = REPLACE_QUERY s"

lemma ordered_le: "caret_le (fst (ordered p q)) (snd (ordered p q))"
  by (auto simp: ordered_def caret_le_def caret_less_def)

lemma pos_le: "caret_le (pos_of a) (pos_of (a @ m))"
proof (cases "m = []")
  case False
  then show ?thesis using pos_of_less [of m a] by (auto simp: caret_le_def caret_less_def)
qed (simp add: caret_le_def caret_less_irrefl)

lemma ordered_id: "caret_le p q \<Longrightarrow> ordered p q = (p, q)"
  by (simp add: ordered_def caret_le_def)

lemma editapply_text:
  assumes "doc_ok (DOC_LINES s)" "getdocumenttext s = a @ m @ b"
  obtains s' where "editapply e (pos_of a) (pos_of (a @ m)) t s = ((m, newlines t), s')"
    "doc_ok (DOC_LINES s')" "getdocumenttext s' = a @ newlines t @ b" "here s' = pos_of (a @ newlines t)" "same_but_text s s'"
proof -
  let ?s = "with_lines e s" and ?ls = "DOC_LINES s" and ?p = "pos_of a" and ?q = "pos_of (a @ m)"
  let ?cs = "split_on 10 (newlines t)"
  have ne: "?ls \<noteq> []" using assms(1) by (simp add: doc_ok_def)
  note w = body_fields [OF with_lines_body [OF ne, of e]]
  have p: "caret_ok ?ls ?p" "before ?ls ?p = a" using caret_of_prefix [OF assms(1), of a "m @ b"] assms(2) by (auto simp: getdocumenttext_def)
  have q: "caret_ok ?ls ?q" "before ?ls ?q = a @ m" "after ?ls ?q = b"
    using caret_of_prefix [OF assms(1), of "a @ m" b] assms(2) by (auto simp: getdocumenttext_def)
  have m: "text_between ?ls ?p ?q = m" using before_between [OF p(1) q(1) pos_le] p(2) q(2) by simp
  have n: "normalisecaret ?s (fst ?p) (snd ?p) = ?p" "normalisecaret ?s (fst ?q) (snd ?q) = ?q"
    using p(1) q(1) w by (simp_all add: normalisecaret_def normalise_id)
  define r where "r = framed_chunks (take (nat (snd ?p)) (?ls ! nat (fst ?p))) ?cs (drop (nat (snd ?q)) (?ls ! nat (fst ?q)))"
  define s1 where "s1 = replace_lines e (nat (fst ?p)) (nat (fst ?q)) r (quick_width e ?s (nat (fst ?p)) (nat (fst ?q)) ?cs m) ?s"
  note b1 = body_fields [OF replace_lines_body [of e "nat (fst ?p)" "nat (fst ?q)" r "quick_width e ?s (nat (fst ?p)) (nat (fst ?q)) ?cs m" ?s], folded s1_def]
  have l1: "DOC_LINES s1 = splice ?ls (nat (fst ?p)) (nat (fst ?q) + 1) r" using b1 w by simp
  have j: "join_with 10 (DOC_LINES s1) = a @ newlines t @ b"
    unfolding l1 r_def using join_changed [of ?cs ?ls ?p ?q] p(2) q(3) by (simp add: join_split_on)
  have ok: "doc_ok (DOC_LINES s1)" unfolding l1 r_def by (rule edited_ok [OF assms(1) p(1) q(1) set_newlines])
  define s' where "s' = clearselection (s1\<lparr>CUR_ROW := fst (pos_of (a @ newlines t)), CUR_COL := snd (pos_of (a @ newlines t))\<rparr>)"
  have "editapply e ?p ?q t s = ((m, newlines t), s')"
    unfolding editapply_def Let_def n ordered_id [OF pos_le] prod.case s'_def s1_def r_def
    using w m by (simp add: pos_of_append split_beta)
  moreover have "DOC_LINES s' = DOC_LINES s1" "here s' = pos_of (a @ newlines t)" "same_but_text s s'"
    using b1 w by (simp_all add: s'_def clearselection_def here_def same_but_text_def)
  ultimately show ?thesis using that j ok by (simp add: getdocumenttext_def)
qed

text \<open>Whatever carets a change is given, they enclose a piece of the text.\<close>

lemma carets_enclose:
  assumes "doc_ok ls" "ordered (normalise_in ls r0 c0) (normalise_in ls r1 c1) = (p, q)"
  obtains a m b where "join_with 10 ls = a @ m @ b" "p = pos_of a" "q = pos_of (a @ m)"
proof -
  have ne: "ls \<noteq> []" using assms(1) by (simp add: doc_ok_def)
  have ok: "caret_ok ls p" "caret_ok ls q" using assms(2) normalise_ok [OF ne] by (auto simp: ordered_def split: if_splits)
  have le: "caret_le p q" using ordered_le assms(2) by (metis fst_conv snd_conv)
  have "before ls q = before ls p @ text_between ls p q" by (rule before_between [OF ok le])
  then show ?thesis
    using that [of "before ls p" "text_between ls p q" "after ls q"] before_after [OF ok(2)] pos_of_before [OF assms(1) ok(1)]
      pos_of_before [OF assms(1) ok(2)] by simp
qed

section \<open>Revisions name texts\<close>

text \<open>An entry of the history turns the text of one revision into that of another; the stacks are chains of such
  entries that meet in the current revision.\<close>

definition turns :: "(int \<Rightarrow> pystr) \<Rightarrow> edit \<Rightarrow> bool" where
  "turns V a \<longleftrightarrow> 13 \<notin> set (a_removed a) \<and> 13 \<notin> set (a_inserted a)
     \<and> (\<exists>x y. V (a_beforerev a) = x @ a_removed a @ y \<and> V (a_afterrev a) = x @ a_inserted a @ y \<and> a_start a = pos_of x)"

fun back_ok :: "(int \<Rightarrow> pystr) \<Rightarrow> int \<Rightarrow> edit list \<Rightarrow> bool" where
  "back_ok V r [] = True"
| "back_ok V r (a # as) = (a_afterrev a = r \<and> turns V a \<and> back_ok V (a_beforerev a) as)"

fun forth_ok :: "(int \<Rightarrow> pystr) \<Rightarrow> int \<Rightarrow> edit list \<Rightarrow> bool" where
  "forth_ok V r [] = True"
| "forth_ok V r (a # as) = (a_beforerev a = r \<and> turns V a \<and> forth_ok V (a_afterrev a) as)"

definition old_edit :: "int \<Rightarrow> edit \<Rightarrow> bool" where
  "old_edit n a \<longleftrightarrow> a_beforerev a < n \<and> a_afterrev a < n"

definition past_ok :: "(int \<Rightarrow> pystr) \<Rightarrow> editor \<Rightarrow> bool" where
  "past_ok V s \<longleftrightarrow> doc_ok (DOC_LINES s) \<and> V (CURRENT_REVISION (hs s)) = getdocumenttext s
     \<and> back_ok V (CURRENT_REVISION (hs s)) (rev (UNDO_STACK (hs s))) \<and> forth_ok V (CURRENT_REVISION (hs s)) (rev (REDO_STACK (hs s)))
     \<and> CURRENT_REVISION (hs s) < NEXT_REVISION (hs s) \<and> SAVED_REVISION (hs s) < NEXT_REVISION (hs s)
     \<and> list_all (old_edit (NEXT_REVISION (hs s))) (UNDO_STACK (hs s)) \<and> list_all (old_edit (NEXT_REVISION (hs s))) (REDO_STACK (hs s))
     \<and> IS_DIRTY (hs s) = (CURRENT_REVISION (hs s) \<noteq> SAVED_REVISION (hs s))"

lemma turns_cong: "old_edit n a \<Longrightarrow> \<forall>r < n. V' r = V r \<Longrightarrow> turns V' a = turns V a"
  by (simp add: turns_def old_edit_def)

lemma back_cong: "list_all (old_edit n) as \<Longrightarrow> \<forall>r < n. V' r = V r \<Longrightarrow> back_ok V' r as = back_ok V r as"
  by (induction as arbitrary: r) (simp_all, metis turns_cong)

lemma back_take: "back_ok V r as \<Longrightarrow> back_ok V r (take k as)"
  by (induction as arbitrary: r k) (auto simp: take_Cons')

lemma trim_drop: "\<exists>k. fst (trim_history as bytes) = drop k as"
proof (induction as arbitrary: bytes)
  case (Cons a as)
  show ?case
  proof (cases "length (a # as) > UNDO_LIMIT \<or> bytes > UNDO_BYTE_LIMIT")
    case True
    then show ?thesis using Cons.IH [of "bytes - a_bytes a"] by (metis drop_Suc_Cons trim_history.simps(2))
  next
    case False
    then show ?thesis by (intro exI [where x = 0]) simp
  qed
qed simp

lemma turns_merged:
  assumes "turns V p" "turns V a" "continues h p a"
  shows "turns V (merged p a)"
proof -
  obtain x y where p: "V (a_beforerev p) = x @ y" "V (a_afterrev p) = x @ a_inserted p @ y" "a_start p = pos_of x"
    using assms(1,3) by (auto simp: turns_def continues_def)
  obtain x' y' where a: "V (a_beforerev a) = x' @ y'" "V (a_afterrev a) = x' @ a_inserted a @ y'" "a_start a = pos_of x'"
    using assms(2,3) by (auto simp: turns_def continues_def)
  have "pos_of x' = pos_of (x @ a_inserted p)" using assms(3) a(3) p(3) by (simp add: continues_def pos_of_append)
  moreover have "x' @ y' = (x @ a_inserted p) @ y" using p(2) a(1) assms(3) by (simp add: continues_def)
  ultimately have "x' = x @ a_inserted p" "y' = y" using pos_of_inj by (metis, metis append_same_eq append_eq_append_conv)
  then show ?thesis using assms p(1,3) a(2) by (auto simp: turns_def merged_def Let_def continues_def)
qed

definition agree :: "int \<Rightarrow> (int \<Rightarrow> pystr) \<Rightarrow> (int \<Rightarrow> pystr) \<Rightarrow> bool" where
  "agree n V V' \<longleftrightarrow> (\<forall>r < n. V' r = V r)"

lemma push_back:
  assumes "back_ok V (a_beforerev a) (rev (UNDO_STACK h))" "turns V a"
  shows "back_ok V (a_afterrev a) (rev (UNDO_STACK (historypush e a h)))"
proof -
  let ?a = "a\<lparr>a_bytes := historysize a, a_time := we_time e\<rparr>"
  have t: "turns V ?a" using assms(2) by (simp add: turns_def)
  show ?thesis
  proof (cases "UNDO_STACK h \<noteq> [] \<and> continues h (last (UNDO_STACK h)) ?a")
    case True
    then obtain ys p where s: "UNDO_STACK h = ys @ [p]" by (metis append_butlast_last_id)
    then have "turns V (merged p ?a)" using assms(1) t True by (intro turns_merged) auto
    then show ?thesis using True s assms(1) by (simp add: historypush_def Let_def merged_def)
  next
    case False
    obtain k where k: "fst (trim_history (UNDO_STACK h @ [?a]) (UNDO_BYTES h + a_bytes ?a)) = drop k (UNDO_STACK h @ [?a])" using trim_drop by blast
    have "back_ok V (a_afterrev a) (rev (UNDO_STACK h @ [?a]))" using assms(1) t by simp
    then have "back_ok V (a_afterrev a) (rev (drop k (UNDO_STACK h @ [?a])))" by (metis back_take rev_drop)
    then show ?thesis using False k by (auto simp: historypush_def Let_def split_beta)
  qed
qed

lemma push_old: "list_all (old_edit n) (UNDO_STACK h) \<Longrightarrow> old_edit n a \<Longrightarrow> list_all (old_edit n) (UNDO_STACK (historypush e a h))"
proof -
  assume as: "list_all (old_edit n) (UNDO_STACK h)" and a: "old_edit n a"
  let ?a = "a\<lparr>a_bytes := historysize a, a_time := we_time e\<rparr>"
  obtain k where k: "fst (trim_history (UNDO_STACK h @ [?a]) (UNDO_BYTES h + a_bytes ?a)) = drop k (UNDO_STACK h @ [?a])" using trim_drop by blast
  have all: "list_all (old_edit n) (UNDO_STACK h @ [?a])" using as a by (simp add: old_edit_def)
  have "UNDO_STACK h \<noteq> [] \<Longrightarrow> old_edit n (merged (last (UNDO_STACK h)) ?a)"
    using as a by (auto simp: merged_def Let_def old_edit_def list_all_iff)
  then show ?thesis
    using k all as by (auto simp: historypush_def Let_def split_beta list_all_iff dest: in_set_butlastD in_set_dropD)
qed

lemma push_fields: "REDO_STACK (historypush e a h) = []" "CURRENT_REVISION (historypush e a h) = CURRENT_REVISION h"
    "SAVED_REVISION (historypush e a h) = SAVED_REVISION h" "NEXT_REVISION (historypush e a h) = NEXT_REVISION h" "IS_DIRTY (historypush e a h) = IS_DIRTY h"
  by (simp_all add: historypush_def Let_def split_beta)

section \<open>Changing, undoing and redoing\<close>

text \<open>Between two states of one document: every naming of texts extends, no revision is used twice, and the saved one
  stays.\<close>

definition continues_doc :: "editor \<Rightarrow> editor \<Rightarrow> bool" where
  "continues_doc s s' \<longleftrightarrow> (\<forall>V. past_ok V s \<longrightarrow>
     NEXT_REVISION (hs s) \<le> NEXT_REVISION (hs s') \<and> SAVED_REVISION (hs s') = SAVED_REVISION (hs s) \<and> (\<exists>V'. past_ok V' s' \<and> agree (NEXT_REVISION (hs s)) V V'))"

lemma continuesD:
  assumes "continues_doc s s'" "past_ok V s"
  obtains V' where "past_ok V' s'" "agree (NEXT_REVISION (hs s)) V V'" "NEXT_REVISION (hs s) \<le> NEXT_REVISION (hs s')"
    "SAVED_REVISION (hs s') = SAVED_REVISION (hs s)"
  using assms unfolding continues_doc_def by blast

lemma continues_refl: "continues_doc s s"
  unfolding continues_doc_def agree_def by blast

lemma agree_trans: "agree n V V' \<Longrightarrow> agree n' V' V'' \<Longrightarrow> n \<le> n' \<Longrightarrow> agree n V V''"
  by (simp add: agree_def)

lemma continues_trans: "continues_doc s s' \<Longrightarrow> continues_doc s' s'' \<Longrightarrow> continues_doc s s''"
  unfolding continues_doc_def
proof (intro allI impI, goal_cases)
  case (1 V)
  then obtain V' where "past_ok V' s'" "agree (NEXT_REVISION (hs s)) V V'" by blast
  moreover from 1 this obtain V'' where "past_ok V'' s''" "agree (NEXT_REVISION (hs s')) V' V''" by blast
  ultimately show ?case using 1 agree_trans [of "NEXT_REVISION (hs s)" V V' "NEXT_REVISION (hs s')" V''] by fastforce
qed

lemma hist_same: "past_ok V s \<Longrightarrow> DOC_LINES s' = DOC_LINES s \<Longrightarrow> hs s' = hs s \<Longrightarrow> past_ok V s'"
  by (simp add: past_ok_def getdocumenttext_def)

lemma continues_same: "DOC_LINES s' = DOC_LINES s \<Longrightarrow> hs s' = hs s \<Longrightarrow> continues_doc s s'"
  unfolding continues_doc_def agree_def using hist_same by (metis order_refl)

text \<open>The specification of a change: a piece of the text between two carets is replaced.\<close>

lemma editreplace_text:
  assumes "doc_ok (DOC_LINES s)"
  obtains a m b s1 where "getdocumenttext s = a @ m @ b"
    "ordered (normalisecaret s (fst p0) (snd p0)) (normalisecaret s (fst q0) (snd q0)) = (pos_of a, pos_of (a @ m))"
    "editapply e (pos_of a) (pos_of (a @ m)) t s = ((m, newlines t), s1)"
    "doc_ok (DOC_LINES s1)" "getdocumenttext s1 = a @ newlines t @ b" "here s1 = pos_of (a @ newlines t)" "same_but_text s s1"
proof -
  obtain p q where pq: "ordered (normalisecaret s (fst p0) (snd p0)) (normalisecaret s (fst q0) (snd q0)) = (p, q)" by (meson surj_pair)
  then obtain a m b where "getdocumenttext s = a @ m @ b" "p = pos_of a" "q = pos_of (a @ m)"
    using carets_enclose [OF assms] unfolding normalisecaret_def getdocumenttext_def by metis
  then show ?thesis using editapply_text [OF assms, of a m b e t] that pq by metis
qed

lemma editapply_hs: "hs (snd (editapply e p q t s)) = hs s"
proof -
  have "hs (with_lines e s) = hs s"
  proof (cases "DOC_LINES s = []")
    case True
    have "hs (with_lines e s) = hs (s\<lparr>DOC_LINES := [[]]\<rparr>)"
      using True body_fields [of "with_lines e s" "s\<lparr>DOC_LINES := [[]]\<rparr>"] by (simp add: with_lines_def kept_fields)
    then show ?thesis by simp
  qed (use body_fields [OF with_lines_body] in blast)
  then show ?thesis unfolding editapply_def Let_def using body_fields [OF replace_lines_body] by (simp add: split_beta clearselection_def)
qed

lemma put_place_hs: "hs (put_place p s) = hs s"
  by (cases p) (simp add: put_place_def)

lemma editreplace_hist: "continues_doc s (snd (editreplace e p0 q0 t s))"
proof (cases "doc_ok (DOC_LINES s)")
  case False
  then show ?thesis by (simp add: continues_doc_def past_ok_def)
next
  case True
  obtain a m b s1 where t: "getdocumenttext s = a @ m @ b"
    "ordered (normalisecaret s (fst p0) (snd p0)) (normalisecaret s (fst q0) (snd q0)) = (pos_of a, pos_of (a @ m))"
    "editapply e (pos_of a) (pos_of (a @ m)) t s = ((m, newlines t), s1)"
    "doc_ok (DOC_LINES s1)" "getdocumenttext s1 = a @ newlines t @ b" "same_but_text s s1"
    using editreplace_text [OF True] by metis
  show ?thesis
  proof (cases "m = newlines t")
    case eq: True
    then have "DOC_LINES s1 = DOC_LINES s" using t(1,4,5) True doc_eqI by (simp add: getdocumenttext_def)
    then show ?thesis using eq t(2,3,6) by (simp add: editreplace_def same_but_text_def continues_same)
  next
    case False
    let ?n = "NEXT_REVISION (hs s)"
    let ?h = "(hs s)\<lparr>NEXT_REVISION := ?n + 1, CURRENT_REVISION := ?n, IS_DIRTY := (?n \<noteq> SAVED_REVISION (hs s))\<rparr>"
    define d where "d = \<lparr>a_start = pos_of a, a_removed = m, a_inserted = newlines t, a_before = place_of s, a_after = place_of s1,
        a_beforerev = CURRENT_REVISION (hs s), a_afterrev = ?n, a_bytes = 0, a_time = 0\<rparr>"
    have r: "snd (editreplace e p0 q0 t s) = s1\<lparr>hs := historypush e d ?h\<rparr>"
      using False t(2,3,6) by (simp add: editreplace_def Let_def d_def same_but_text_def)
    have "\<exists>V'. past_ok V' (s1\<lparr>hs := historypush e d ?h\<rparr>) \<and> agree ?n V V'" if h: "past_ok V s" for V
    proof -
      let ?V = "V(?n := a @ newlines t @ b)"
      have ag: "\<forall>r < ?n. ?V r = V r" by simp
      have c: "CURRENT_REVISION (hs s) < ?n" using h by (simp add: past_ok_def)
      have "13 \<notin> set m" using no_cr_join [OF True] t(1) by (simp add: getdocumenttext_def)
      then have "turns ?V d" using h c t(1) set_newlines by (auto simp: turns_def d_def past_ok_def)
      moreover have "back_ok ?V (a_beforerev d) (rev (UNDO_STACK ?h))"
        using h back_cong [of ?n "rev (UNDO_STACK (hs s))" ?V V] ag by (simp add: past_ok_def d_def)
      ultimately have "back_ok ?V ?n (rev (UNDO_STACK (historypush e d ?h)))" using push_back [of ?V d ?h e] by (simp add: d_def)
      moreover have "list_all (old_edit (?n + 1)) (UNDO_STACK (historypush e d ?h))"
        using h by (intro push_old) (auto simp: past_ok_def list_all_iff old_edit_def d_def)
      ultimately have "past_ok ?V (s1\<lparr>hs := historypush e d ?h\<rparr>)"
        using h t(4,5) by (simp add: past_ok_def push_fields getdocumenttext_def)
      then show ?thesis using ag unfolding agree_def by blast
    qed
    then show ?thesis using r by (simp add: continues_doc_def push_fields)
  qed
qed

text \<open>An entry of the history, applied in one direction or the other.\<close>

lemma undo_hist:
  assumes "past_ok V s" "UNDO_STACK (hs s) = as @ [a]"
  shows "past_ok V (undo e s) \<and> UNDO_STACK (hs (undo e s)) = as \<and> REDO_STACK (hs (undo e s)) = REDO_STACK (hs s) @ [a]
    \<and> CURRENT_REVISION (hs (undo e s)) = a_beforerev a \<and> place_of (undo e s) = a_before a \<and> NEXT_REVISION (hs (undo e s)) = NEXT_REVISION (hs s)
    \<and> SAVED_REVISION (hs (undo e s)) = SAVED_REVISION (hs s) \<and> UNDO_BYTES (hs (undo e s)) = UNDO_BYTES (hs s) - a_bytes a"
proof -
  let ?s = "s\<lparr>hs := (hs s)\<lparr>UNDO_STACK := as, UNDO_BYTES := UNDO_BYTES (hs s) - a_bytes a\<rparr>\<rparr>"
  have tr: "turns V a" "a_afterrev a = CURRENT_REVISION (hs s)" and bk: "back_ok V (a_beforerev a) (rev as)"
    using assms by (auto simp: past_ok_def)
  obtain x y where xy: "V (a_beforerev a) = x @ a_removed a @ y" "V (a_afterrev a) = x @ a_inserted a @ y" "a_start a = pos_of x"
    using tr(1) by (auto simp: turns_def)
  have "doc_ok (DOC_LINES ?s)" "getdocumenttext ?s = x @ a_inserted a @ y" using assms(1) xy(2) tr(2) by (auto simp: past_ok_def getdocumenttext_def)
  then obtain s1 where s1: "editapply e (pos_of x) (pos_of (x @ a_inserted a)) (a_removed a) ?s = ((a_inserted a, newlines (a_removed a)), s1)"
      "doc_ok (DOC_LINES s1)" "getdocumenttext s1 = x @ newlines (a_removed a) @ y" "same_but_text ?s s1"
    using editapply_text [of ?s x "a_inserted a" y e "a_removed a"] by metis
  have nl: "newlines (a_removed a) = a_removed a" using tr(1) by (simp add: turns_def newlines_id)
  have u: "undo e s = (let s2 = put_place (a_before a) s1; h = hs s2 in clearselection (s2\<lparr>hs := h\<lparr>CURRENT_REVISION := a_beforerev a,
      IS_DIRTY := (a_beforerev a \<noteq> SAVED_REVISION h), REDO_STACK := REDO_STACK h @ [a]\<rparr>\<rparr>))"
    using assms(2) s1(1) xy(3) by (simp add: undo_def Let_def pos_of_append)
  have p: "hs (put_place pl z) = hs z" "DOC_LINES (put_place pl z) = DOC_LINES z" "place_of (put_place pl z) = pl" for pl z
    by (cases pl; simp add: put_place_def place_of_def)+
  have ro: "forth_ok V (a_beforerev a) (rev (REDO_STACK (hs s) @ [a]))" using assms(1) tr by (simp add: past_ok_def)
  have q: "place_of (clearselection z) = place_of z" "place_of (z\<lparr>hs := h\<rparr>) = place_of z" for z h by (simp_all add: clearselection_def place_of_def)
  have "place_of (undo e s) = a_before a" unfolding u Let_def by (simp only: q p)
  moreover have "DOC_LINES (undo e s) = DOC_LINES s1" "hs (undo e s) = (hs s1)\<lparr>CURRENT_REVISION := a_beforerev a,
      IS_DIRTY := (a_beforerev a \<noteq> SAVED_REVISION (hs s1)), REDO_STACK := REDO_STACK (hs s1) @ [a]\<rparr>"
    by (simp_all add: u Let_def p clearselection_def)
  ultimately show ?thesis
    using assms s1 nl ro bk tr xy(1) by (auto simp: past_ok_def same_but_text_def getdocumenttext_def old_edit_def)
qed

lemma redo_hist:
  assumes "past_ok V s" "REDO_STACK (hs s) = as @ [a]"
  shows "past_ok V (redo e s) \<and> REDO_STACK (hs (redo e s)) = as \<and> UNDO_STACK (hs (redo e s)) = UNDO_STACK (hs s) @ [a]
    \<and> CURRENT_REVISION (hs (redo e s)) = a_afterrev a \<and> place_of (redo e s) = a_after a \<and> NEXT_REVISION (hs (redo e s)) = NEXT_REVISION (hs s)
    \<and> SAVED_REVISION (hs (redo e s)) = SAVED_REVISION (hs s) \<and> UNDO_BYTES (hs (redo e s)) = UNDO_BYTES (hs s) + a_bytes a"
proof -
  let ?s = "s\<lparr>hs := (hs s)\<lparr>REDO_STACK := as\<rparr>\<rparr>"
  have tr: "turns V a" "a_beforerev a = CURRENT_REVISION (hs s)" and fw: "forth_ok V (a_afterrev a) (rev as)"
    using assms by (auto simp: past_ok_def)
  obtain x y where xy: "V (a_beforerev a) = x @ a_removed a @ y" "V (a_afterrev a) = x @ a_inserted a @ y" "a_start a = pos_of x"
    using tr(1) by (auto simp: turns_def)
  have "doc_ok (DOC_LINES ?s)" "getdocumenttext ?s = x @ a_removed a @ y" using assms(1) xy(1) tr(2) by (auto simp: past_ok_def getdocumenttext_def)
  then obtain s1 where s1: "editapply e (pos_of x) (pos_of (x @ a_removed a)) (a_inserted a) ?s = ((a_removed a, newlines (a_inserted a)), s1)"
      "doc_ok (DOC_LINES s1)" "getdocumenttext s1 = x @ newlines (a_inserted a) @ y" "same_but_text ?s s1"
    using editapply_text [of ?s x "a_removed a" y e "a_inserted a"] by metis
  have nl: "newlines (a_inserted a) = a_inserted a" using tr(1) by (simp add: turns_def newlines_id)
  have u: "redo e s = (let s2 = put_place (a_after a) s1; h = hs s2 in clearselection (s2\<lparr>hs := h\<lparr>CURRENT_REVISION := a_afterrev a,
      IS_DIRTY := (a_afterrev a \<noteq> SAVED_REVISION h), UNDO_STACK := UNDO_STACK h @ [a], UNDO_BYTES := UNDO_BYTES h + a_bytes a\<rparr>\<rparr>))"
    using assms(2) s1(1) xy(3) by (simp add: redo_def Let_def pos_of_append)
  have p: "hs (put_place pl z) = hs z" "DOC_LINES (put_place pl z) = DOC_LINES z" "place_of (put_place pl z) = pl" for pl z
    by (cases pl; simp add: put_place_def place_of_def)+
  have bo: "back_ok V (a_afterrev a) (rev (UNDO_STACK (hs s) @ [a]))" using assms(1) tr by (simp add: past_ok_def)
  have q: "place_of (clearselection z) = place_of z" "place_of (z\<lparr>hs := h\<rparr>) = place_of z" for z h by (simp_all add: clearselection_def place_of_def)
  have "place_of (redo e s) = a_after a" unfolding u Let_def by (simp only: q p)
  moreover have "DOC_LINES (redo e s) = DOC_LINES s1" "hs (redo e s) = (hs s1)\<lparr>CURRENT_REVISION := a_afterrev a,
      IS_DIRTY := (a_afterrev a \<noteq> SAVED_REVISION (hs s1)), UNDO_STACK := UNDO_STACK (hs s1) @ [a], UNDO_BYTES := UNDO_BYTES (hs s1) + a_bytes a\<rparr>"
    by (simp_all add: u Let_def p clearselection_def)
  ultimately show ?thesis
    using assms s1 nl bo fw tr xy(2) by (auto simp: past_ok_def same_but_text_def getdocumenttext_def old_edit_def)
qed

lemma undo_continues: "continues_doc s (undo e s)"
proof (cases "UNDO_STACK (hs s) = []")
  case False
  then obtain as a where s: "UNDO_STACK (hs s) = as @ [a]" by (metis append_butlast_last_id)
  have "NEXT_REVISION (hs (undo e s)) = NEXT_REVISION (hs s)" "SAVED_REVISION (hs (undo e s)) = SAVED_REVISION (hs s)"
    by (simp_all add: undo_def Let_def clearselection_def put_place_hs editapply_hs)
  then show ?thesis using undo_hist [OF _ s] unfolding continues_doc_def agree_def by (metis order_refl)
qed (simp add: undo_def continues_refl)

lemma redo_continues: "continues_doc s (redo e s)"
proof (cases "REDO_STACK (hs s) = []")
  case False
  then obtain as a where s: "REDO_STACK (hs s) = as @ [a]" by (metis append_butlast_last_id)
  have "NEXT_REVISION (hs (redo e s)) = NEXT_REVISION (hs s)" "SAVED_REVISION (hs (redo e s)) = SAVED_REVISION (hs s)"
    by (simp_all add: redo_def Let_def clearselection_def put_place_hs editapply_hs)
  then show ?thesis using redo_hist [OF _ s] unfolding continues_doc_def agree_def by (metis order_refl)
qed (simp add: redo_def continues_refl)

end
