(* ===== verification/Write_Ops.thy ===== *)
theory Write_Ops
  imports Write_History
begin

text \<open>
  Every operation of the editor is made of a few: changes of the text, undoing, redoing, moves of the caret, and
  bringing the caret into view.  The locale \<open>editor_rel\<close> takes a relation between states that these have and gives it
  for all operations.
\<close>

definition same_doc :: "editor \<Rightarrow> editor \<Rightarrow> bool" where
  "same_doc s s' \<longleftrightarrow> DOC_LINES s' = DOC_LINES s \<and> DOC_LINE_IDS s' = DOC_LINE_IDS s \<and> DOC_LINE_VERSIONS s' = DOC_LINE_VERSIONS s
     \<and> NEXT_LINE_ID s' = NEXT_LINE_ID s \<and> ws s' = ws s \<and> dw s' = dw s \<and> hs s' = hs s
     \<and> (opts s')\<lparr>OVERWRITE_MODE := False\<rparr> = (opts s)\<lparr>OVERWRITE_MODE := False\<rparr>"

lemma same_docI:
  "DOC_LINES s' = DOC_LINES s \<Longrightarrow> DOC_LINE_IDS s' = DOC_LINE_IDS s \<Longrightarrow> DOC_LINE_VERSIONS s' = DOC_LINE_VERSIONS s \<Longrightarrow>
    NEXT_LINE_ID s' = NEXT_LINE_ID s \<Longrightarrow> ws s' = ws s \<Longrightarrow> dw s' = dw s \<Longrightarrow> hs s' = hs s \<Longrightarrow> opts s' = opts s \<Longrightarrow> same_doc s s'"
  by (simp add: same_doc_def)

named_theorems steps \<open>what an operation adds to a run that has the relation\<close>

locale editor_rel =
  fixes R :: "editor \<Rightarrow> editor \<Rightarrow> bool" and good :: "wenv \<Rightarrow> bool"
  assumes R_refl: "R s s"
    and R_trans: "R s s' \<Longrightarrow> R s' s'' \<Longrightarrow> R s s''"
    and R_empty: "DOC_LINES s = [] \<Longrightarrow> R s s'"
    and R_same: "same_doc s s' \<Longrightarrow> R s s'"
    and R_edit: "good e \<Longrightarrow> R s (snd (editreplace e p q t s))"
    and R_undo: "good e \<Longrightarrow> R s (undo e s)"
    and R_redo: "good e \<Longrightarrow> R s (redo e s)"
    and R_count: "good e \<Longrightarrow> R s (snd (displaylinecount e s))"
    and R_look: "good e \<Longrightarrow> R s (ensurecursorvisible e s)"
    and R_clamp: "good e \<Longrightarrow> R s (clampxscroll e s)"
begin

lemma then_same: "R s s' \<Longrightarrow> same_doc s' s'' \<Longrightarrow> R s s''"
  using R_trans R_same by blast

lemma then_look [steps]: "good e \<Longrightarrow> R s s' \<Longrightarrow> R s (ensurecursorvisible e s')"
  using R_trans R_look by blast

lemma then_edit [steps]: "good e \<Longrightarrow> R s s' \<Longrightarrow> R s (snd (editreplace e p q t s'))"
  using R_trans R_edit by blast

lemma then_caret [steps]: "R s s' \<Longrightarrow> R s (caret_at r c s')"
  by (erule then_same) (simp add: caret_at_def same_doc_def)

lemma then_selection [steps]:
  "R s s' \<Longrightarrow> R s (clearselection s')" "R s s' \<Longrightarrow> R s (setselectionanchor r c s')" "R s s' \<Longrightarrow> R s (updateselectionend r c s')"
  by (erule then_same, simp add: clearselection_def setselectionanchor_def updateselectionend_def same_doc_def split_beta)+

lemma then_field [steps]:
  "R s s' \<Longrightarrow> R s (s'\<lparr>CUR_ROW := a\<rparr>)" "R s s' \<Longrightarrow> R s (s'\<lparr>CUR_COL := a\<rparr>)" "R s s' \<Longrightarrow> R s (s'\<lparr>FIRST_VISIBLE_ROW := a\<rparr>)"
  "R s s' \<Longrightarrow> R s (s'\<lparr>FIRST_VISIBLE_X := a\<rparr>)" "R s s' \<Longrightarrow> R s (s'\<lparr>FIND_QUERY := q\<rparr>)" "R s s' \<Longrightarrow> R s (s'\<lparr>DOCUMENT_REFLOW_ROW := o'\<rparr>)"
  "R s s' \<Longrightarrow> R s (s'\<lparr>SEL_ANCHOR_ROW := a, SEL_ANCHOR_COL := b, SEL_ROW := c, SEL_COL := d, CUR_ROW := f, CUR_COL := g, SEL_ACTIVE := h, DOCUMENT_REFLOW_ROW := o'\<rparr>)"
  "R s s' \<Longrightarrow> R s (s'\<lparr>SEL_ANCHOR_ROW := a, SEL_ANCHOR_COL := b, SEL_ROW := c, SEL_COL := d, SEL_ACTIVE := h, CUR_ROW := f, CUR_COL := g\<rparr>)"
  "R s s' \<Longrightarrow> R s (s'\<lparr>opts := (opts s')\<lparr>OVERWRITE_MODE := h\<rparr>\<rparr>)"
  by (erule then_same, simp add: same_doc_def)+

lemma then_scroll [steps]:
  assumes "good e" "R s s'"
  shows "R s (scrollbylines e k s')"
proof -
  have "R s (snd (displaylinecount e s'))" using assms R_trans R_count by blast
  then show ?thesis using assms(2) by (auto simp: scrollbylines_def Let_def split_beta intro!: steps)
qed

lemma then_scrollx [steps]: "good e \<Longrightarrow> R s s' \<Longrightarrow> R s (scrollbyx e k s')"
  unfolding scrollbyx_def by (rule R_trans [OF _ R_clamp]) (intro steps)

lemma then_page [steps]: "good e \<Longrightarrow> R s s' \<Longrightarrow> R s (pageup e s')" "good e \<Longrightarrow> R s s' \<Longrightarrow> R s (pagedown e s')"
  by (auto simp: pageup_def pagedown_def page_def Let_def intro!: steps split: option.splits)

lemma then_some_line: "R s s' \<Longrightarrow> R s (f s') \<Longrightarrow> R s (in_some_line f s')"
  using R_trans R_empty by (metis in_some_line_def)

lemma then_moves [steps]:
  "R s s' \<Longrightarrow> R s (movecursorleft s')" "R s s' \<Longrightarrow> R s (movecursorright s')" "R s s' \<Longrightarrow> R s (movecursorup s')" "R s s' \<Longrightarrow> R s (movecursordown s')"
  "R s s' \<Longrightarrow> R s (movecursorhome s')" "R s s' \<Longrightarrow> R s (movecursorend s')" "R s s' \<Longrightarrow> R s (movecursorword e b s')" "R s s' \<Longrightarrow> R s (document_end s')"
  by (auto simp: movecursorleft_def movecursorright_def movecursorup_def movecursordown_def movecursorhome_def movecursorend_def
      movecursorword_def document_end_def Let_def split_beta intro!: then_some_line steps split: option.splits)

lemma then_words [steps]: "R s s' \<Longrightarrow> R s (selectwordat e r c s')" "R s s' \<Longrightarrow> R s (selectline r s')"
  by (auto simp: selectwordat_def selectline_def Let_def split_beta intro!: steps split: option.splits)

lemma then_caret_edits [steps]:
  assumes "good e" "R s s'"
  shows "R s (handlenewline e s')" "R s (insertnewline e s')" "R s (insertcharacter e t s')" "R s (handlebackspace e s')" "R s (handledelete e s')"
    "R s (snd (deleteword e b s'))"
  using assms by (auto simp: handlenewline_def insertnewline_def insertcharacter_def handlebackspace_def handledelete_def deleteword_def Let_def
      split_beta intro!: steps split: option.splits)

lemma then_selection_edits [steps]:
  assumes "good e" "R s s'"
  shows "R s (deleteselection e s')" "R s (replaceselectionwithtext e t s')" "R s (inserttextblock e t s')" "R s (editcut e s')" "R s (editpaste e s')"
    "R s (editselectall e s')"
  using assms by (auto simp: deleteselection_def replaceselectionwithtext_def inserttextblock_def editcut_def editpaste_def editselectall_def Let_def
      split_beta intro!: steps split: option.splits)

lemma then_lines [steps]:
  assumes "good e" "R s s'"
  shows "R s (snd (handleindentation e b s'))" "R s (snd (duplicatelines e s'))" "R s (snd (deletelines e s'))" "R s (snd (transformselection e b s'))"
proof -
  have clip: "R s (clip_col r z)" if "R s z" for r z
    using that by (auto simp: clip_col_def Let_def intro!: steps split: option.splits)
  show "R s (snd (duplicatelines e s'))" "R s (snd (deletelines e s'))" "R s (snd (transformselection e b s'))"
    using assms by (auto simp: duplicatelines_def deletelines_def transformselection_def Let_def split_beta intro!: steps clip split: option.splits)
  have "R s (snd (indent_selection e b s'))"
    using assms by (auto simp: indent_selection_def Let_def split_beta intro!: steps)
  then show "R s (snd (handleindentation e b s'))"
    using assms by (auto simp: handleindentation_def Let_def split_beta intro!: steps)
qed

lemma then_find [steps]:
  assumes "good e" "R s s'"
  shows "R s (snd (findnext e b q s'))"
  using assms by (auto simp: findnext_def Let_def split_beta intro!: steps split: option.splits)

lemma then_replace [steps]:
  assumes "good e" "R s s'"
  shows "R s (snd (replaceone e s'))" "R s (snd (replaceall e s'))" "R s (snd (gotoline e n s'))"
  using assms by (auto simp: replaceone_def replaceall_def gotoline_def Let_def split_beta intro!: steps split: option.splits if_splits)

lemma then_history [steps]: "good e \<Longrightarrow> R s s' \<Longrightarrow> R s (undo e s')" "good e \<Longrightarrow> R s s' \<Longrightarrow> R s (redo e s')"
  using R_trans R_undo R_redo by blast+

text \<open>What every key does keeps the relation.\<close>

lemma moving_step: "good e \<Longrightarrow> (\<And>z. R s z \<Longrightarrow> R s (f z)) \<Longrightarrow> R s s' \<Longrightarrow> R s (moving e b f s')"
  by (auto simp: moving_def Let_def intro!: steps)

lemma motion_step: "good e \<Longrightarrow> motion_of e c t = Some f \<Longrightarrow> R s z \<Longrightarrow> R s (f z)"
  by (auto simp: motion_of_def split: if_splits intro: steps)

lemma shortcut_step: "good e \<Longrightarrow> shortcut e c b t s' = Some (r, z) \<Longrightarrow> R s s' \<Longrightarrow> R s z"
  unfolding shortcut_def stepped_def by (auto split: if_splits intro!: steps)

lemma editing_step: "good e \<Longrightarrow> R s s' \<Longrightarrow> R s (snd (editing_key e m t s'))"
  by (auto simp: editing_key_def on_selection_def replace_bounds_def stepped_def Let_def split_beta intro!: steps)

lemma handlekey_step [steps]: "good e \<Longrightarrow> R s s' \<Longrightarrow> R s (snd (handlekey e raw st m s'))"
  by (auto simp: handlekey_def Let_def intro: shortcut_step editing_step moving_step motion_step split: option.splits)

end


section \<open>Looking\<close>

text \<open>Laying out, measuring and scrolling keep the lines and the history.\<close>

definition core :: "editor \<Rightarrow> pystr list \<times> past \<times> options" where
  "core s = (DOC_LINES s, hs s, opts s)"

lemma core_body: "body s' = body s \<Longrightarrow> core s' = core s"
  using body_fields [of s' s] by (simp add: core_def)

lemma body_wrapline [kept_fields]: "body (snd (wrapline e row width s)) = body s"
  by (simp add: wrapline_def Let_def split_beta kept_fields split: option.splits)

lemma body_index_row [kept_fields]: "body (index_row e width b row s) = body s"
  by (simp add: index_row_def Let_def split_beta kept_fields)

lemma body_index_rows [kept_fields]: "body (fold (index_row e width b) rows s) = body s"
  by (induction rows arbitrary: s) (simp_all add: kept_fields)

lemma body_ensure [kept_fields]: "body (ensurewrapindex e s) = body s"
  by (simp add: ensurewrapindex_def fresh_index_def Let_def kept_fields)

lemma body_begin [kept_fields]: "body (docwidthbeginindex s) = body s"
  by (simp add: docwidthbeginindex_def kept_fields)

lemma body_display [kept_fields]:
  "body (snd (displaylinecount e s)) = body s" "body (snd (cursorvisualindex e r c s)) = body s" "body (snd (maxlinewidth e s)) = body s"
  unfolding displaylinecount_def cursorvisualindex_def maxlinewidth_def Let_def
  by (simp_all only: if_distrib [of body] if_distrib [of snd] snd_conv kept_fields if_cancel)

lemma body_needed [kept_fields]: "body (snd (horizontalneeded e s)) = body s" "body (snd (verticalneeded e s)) = body s"
  by (simp_all add: horizontalneeded_def verticalneeded_def split_beta kept_fields)

lemma body_viewport [kept_fields]: "body (snd (viewport_width e s)) = body s"
  by (simp add: viewport_width_def Let_def split_beta kept_fields)

lemma core_view [simp]: "core (s\<lparr>FIRST_VISIBLE_X := x\<rparr>) = core s" "core (s\<lparr>FIRST_VISIBLE_ROW := x\<rparr>) = core s" "core (s\<lparr>CUR_ROW := x\<rparr>) = core s"
    "core (caret_at r c s) = core s"
  by (simp_all add: core_def caret_at_def)

lemma core_shown [simp]: "core (snd (displaylinecount e s)) = core s" "core (snd (cursorvisualindex e r c s)) = core s"
    "core (snd (maxlinewidth e s)) = core s" "core (snd (viewport_width e s)) = core s"
  by (rule core_body, rule kept_fields)+

lemma core_clamp [simp]: "core (clampxscroll e s) = core s"
  unfolding clampxscroll_def Let_def split_beta by (simp only: if_distrib [of core] core_view core_shown if_cancel)

lemma core_looked [simp]: "core (ensurecursorvisiblex e s) = core s"
  unfolding ensurecursorvisiblex_def Let_def split_beta
  by (simp only: if_distrib [of core] core_clamp core_view core_shown if_cancel)

lemma core_look [simp]: "core (ensurecursorvisible e s) = core s"
  unfolding ensurecursorvisible_def Let_def split_beta
  by (simp only: if_distrib [of core] core_looked core_view core_shown if_cancel)

lemma continues_core: "core s' = core s \<Longrightarrow> continues_doc s s'"
  by (simp add: core_def continues_same)

interpretation doc: editor_rel continues_doc "\<lambda>_. True"
proof (unfold_locales, goal_cases)
  case (3 s s')
  then show ?case by (simp add: continues_doc_def past_ok_def doc_ok_def)
qed (auto simp: continues_refl same_doc_def intro: continues_trans continues_same editreplace_hist undo_continues redo_continues continues_core)

end
