(* ===== verification/Write_Format.thy ===== *)
theory Write_Format
  imports Utf8_Decoder
begin

text \<open>
  Documents as files (\<open>write.py\<close>): which encoding the first bytes of a file show, its lines and the line ending it
  uses most, and the bytes a document is written as.  The encodings are those of Python's codecs, which are strict
  here: what they cannot read or write is a \<open>UnicodeError\<close>, a \<open>ValueError\<close>.
\<close>

section \<open>Encodings\<close>

text \<open>The values of \<open>FILE_ENCODING\<close>; the flag is \<open>True\<close> for the big-endian form.\<close>

datatype encoding = Utf8 | Utf16 bool | Utf32 bool | Latin1

definition two_bytes :: "bool \<Rightarrow> nat \<Rightarrow> bytes" where
  "two_bytes be u = (if be then [u div 256, u mod 256] else [u mod 256, u div 256])"

definition four_bytes :: "bool \<Rightarrow> nat \<Rightarrow> bytes" where
  "four_bytes be u = (let bs = [u div 16777216, u div 65536 mod 256, u div 256 mod 256, u mod 256] in if be then bs else rev bs)"

definition encode_cp :: "encoding \<Rightarrow> cp \<Rightarrow> bytes res" where
  "encode_cp enc c = (case enc of
     Utf8 \<Rightarrow> if is_surrogate c then Inl ValueError else Inr (utf8_cp c)
   | Utf16 be \<Rightarrow>
       if is_surrogate c then Inl ValueError
       else if c < 65536 then Inr (two_bytes be c)
       else Inr (two_bytes be (55296 + (c - 65536) div 1024) @ two_bytes be (56320 + (c - 65536) mod 1024))
   | Utf32 be \<Rightarrow> if is_surrogate c then Inl ValueError else Inr (four_bytes be c)
   | Latin1 \<Rightarrow> if c < 256 then Inr [c] else Inl ValueError)"

fun encode_text :: "encoding \<Rightarrow> pystr \<Rightarrow> bytes res" where
  "encode_text enc [] = Inr []"
| "encode_text enc (c # cs) = rbind (encode_cp enc c) (\<lambda>b. rbind (encode_text enc cs) (\<lambda>bs. Inr (b @ bs)))"

definition unit_of :: "bool \<Rightarrow> nat \<Rightarrow> nat \<Rightarrow> nat" where
  "unit_of be a b = (if be then a * 256 + b else b * 256 + a)"

fun decode_utf16 :: "bool \<Rightarrow> bytes \<Rightarrow> pystr res" where
  "decode_utf16 be [] = Inr []"
| "decode_utf16 be [a] = Inl ValueError"
| "decode_utf16 be (a # b # rest) =
     (let u = unit_of be a b in
      if \<not> is_surrogate u then rbind (decode_utf16 be rest) (\<lambda>cs. Inr (u # cs))
      else if 56320 \<le> u then Inl ValueError
      else (case rest of
          c # d # rest' \<Rightarrow>
            (let v = unit_of be c d in
             if 56320 \<le> v \<and> v \<le> 57343
             then rbind (decode_utf16 be rest') (\<lambda>cs. Inr ((65536 + (u - 55296) * 1024 + (v - 56320)) # cs))
             else Inl ValueError)
        | _ \<Rightarrow> Inl ValueError))"

fun decode_utf32 :: "bool \<Rightarrow> bytes \<Rightarrow> pystr res" where
  "decode_utf32 be [] = Inr []"
| "decode_utf32 be (a # b # c # d # rest) =
     (let u = (if be then a * 16777216 + b * 65536 + c * 256 + d else d * 16777216 + c * 65536 + b * 256 + a) in
      if cp_ok u \<and> \<not> is_surrogate u then rbind (decode_utf32 be rest) (\<lambda>cs. Inr (u # cs)) else Inl ValueError)"
| "decode_utf32 be _ = Inl ValueError"

definition decode_bytes :: "encoding \<Rightarrow> bytes \<Rightarrow> pystr res" where
  "decode_bytes enc bs = (case enc of
     Utf8 \<Rightarrow> utf8_decode_strict bs | Utf16 be \<Rightarrow> decode_utf16 be bs | Utf32 be \<Rightarrow> decode_utf32 be bs | Latin1 \<Rightarrow> Inr bs)"

definition encodingbom :: "encoding \<Rightarrow> bytes" where
  "encodingbom enc = (case enc of
     Utf8 \<Rightarrow> [239, 187, 191] | Utf16 be \<Rightarrow> two_bytes be 65279 | Utf32 be \<Rightarrow> four_bytes be 65279 | Latin1 \<Rightarrow> [])"

text \<open>The incremental decoder finds no error in the sample, an unfinished sequence at its end apart.\<close>

definition utf8_so_far :: "bytes \<Rightarrow> bool" where
  "utf8_so_far bs = (let (out, pending) = utf8_run [] bs in concat (map utf8_cp out) @ pending = bs)"

text \<open>The third result of the code names the codec that reads the file: the one found, with the mark dropped.\<close>

definition detectfileformatsample :: "bytes \<Rightarrow> encoding \<times> bool" where
  "detectfileformatsample sample =
     (if starts_with (encodingbom Utf8) sample then (Utf8, True)
      else if starts_with (encodingbom (Utf32 False)) sample then (Utf32 False, True)
      else if starts_with (encodingbom (Utf32 True)) sample then (Utf32 True, True)
      else if starts_with (encodingbom (Utf16 False)) sample then (Utf16 False, True)
      else if starts_with (encodingbom (Utf16 True)) sample then (Utf16 True, True)
      else if utf8_so_far sample then (Utf8, False) else (Latin1, False))"

section \<open>Lines\<close>

text \<open>Iterating over \<open>io.StringIO(text, newline='')\<close>: a line ends after \<open>LF\<close>, \<open>CR LF\<close> or \<open>CR\<close>, which it keeps.\<close>

definition put_front :: "cp \<Rightarrow> pystr list \<Rightarrow> pystr list" where
  "put_front c ls = (case ls of [] \<Rightarrow> [[c]] | l # r \<Rightarrow> (c # l) # r)"

fun io_lines :: "pystr \<Rightarrow> pystr list" where
  "io_lines [] = []"
| "io_lines (c # cs) =
     (if c = 10 then [c] # io_lines cs
      else if c = 13 then (case cs of c2 # r \<Rightarrow> if c2 = 10 then [c, c2] # io_lines r else [c] # io_lines cs | [] \<Rightarrow> [[c]])
      else put_front c (io_lines cs))"

definition has_end :: "pystr \<Rightarrow> pystr \<Rightarrow> bool" where
  "has_end x t \<longleftrightarrow> length x \<le> length t \<and> drop (length t - length x) t = x"

definition filelineending :: "pystr \<Rightarrow> pystr \<times> pystr" where
  "filelineending t =
     (if has_end [13, 10] t then (take (length t - 2) t, [13, 10])
      else if has_end [10] t then (butlast t, [10])
      else if has_end [13] t then (butlast t, [13])
      else (t, []))"

definition line_endings :: "pystr list" where
  "line_endings = [[10], [13, 10], [13]]"

text \<open>The line ending that most lines have; on a tie the first that occurs, if it is among them.\<close>

definition most_used :: "pystr list \<Rightarrow> pystr" where
  "most_used endings =
     (let used = filter (\<lambda>x. x \<noteq> []) endings;
          counts = map (\<lambda>n. length (filter (\<lambda>x. x = n) used)) line_endings;
          maximum = Max (set counts);
          first = (if used = [] then [10] else hd used);
          candidates = filter (\<lambda>n. length (filter (\<lambda>x. x = n) used) = maximum) line_endings
      in if maximum \<noteq> 0 \<and> first \<notin> set candidates then hd candidates else first)"

definition lines_of_file :: "pystr \<Rightarrow> pystr list \<times> pystr" where
  "lines_of_file t =
     (let parts = map filelineending (io_lines t);
          ls = map fst parts;
          ls' = (if parts \<noteq> [] \<and> snd (last parts) \<noteq> [] then ls @ [[]] else ls)
      in (if ls' = [] then [[]] else ls', most_used (map snd parts)))"

section \<open>Reading and writing\<close>

record format =
  FILE_ENCODING :: encoding
  FILE_BOM :: bool
  FILE_NEWLINE :: pystr

text \<open>The sample is the first 64 KiB of the file.\<close>

definition decode_document :: "bytes \<Rightarrow> bytes \<Rightarrow> (pystr list \<times> format) res" where
  "decode_document sample payload =
     (let (enc, bom) = detectfileformatsample sample
      in rbind (decode_bytes enc (if bom then drop (length (encodingbom enc)) payload else payload)) (\<lambda>t.
           let (ls, newline) = lines_of_file t in Inr (ls, \<lparr>FILE_ENCODING = enc, FILE_BOM = bom, FILE_NEWLINE = newline\<rparr>)))"

definition read_document :: "bytes \<Rightarrow> (pystr list \<times> format) res" where
  "read_document bs = decode_document (take 65536 bs) bs"

definition separator :: "format \<Rightarrow> pystr" where
  "separator f = (if FILE_NEWLINE f \<in> set line_endings then FILE_NEWLINE f else [10])"

text \<open>The pieces in the order they are written: the mark, then each line, with the separator after all but the last.\<close>

fun line_pieces :: "pystr \<Rightarrow> pystr list \<Rightarrow> pystr list" where
  "line_pieces sep [] = []"
| "line_pieces sep [l] = [l]"
| "line_pieces sep (l # ls) = l # sep # line_pieces sep ls"

definition document_bytes :: "format \<Rightarrow> pystr list \<Rightarrow> bytes res" where
  "document_bytes f ls =
     rbind (encode_text (FILE_ENCODING f) (concat (line_pieces (separator f) ls)))
       (\<lambda>bs. Inr ((if FILE_BOM f then encodingbom (FILE_ENCODING f) else []) @ bs))"

end
