(* ===== verification/Write_Format_Facts.thy ===== *)
theory Write_Format_Facts
  imports Write_Format
begin

text \<open>
  Reading a file gives back what was written: its lines, its encoding and its line ending.
\<close>

section \<open>Lines\<close>

lemma put_front_lines: "10 \<notin> set l \<Longrightarrow> 13 \<notin> set l \<Longrightarrow> io_lines t = x # r \<Longrightarrow> io_lines (l @ t) = (l @ x) # r"
  by (induction l) (auto simp: put_front_def)

lemma stream_last: "10 \<notin> set l \<Longrightarrow> 13 \<notin> set l \<Longrightarrow> io_lines l = (if l = [] then [] else [l])"
  by (induction l) (auto simp: put_front_def)

lemma stream_line:
  assumes "10 \<notin> set l" "13 \<notin> set l" "sep \<in> set line_endings" "sep = [13] \<Longrightarrow> \<not> starts_with [10] t"
  shows "io_lines (l @ sep @ t) = (l @ sep) # io_lines t"
proof -
  have "io_lines (sep @ t) = sep # io_lines t"
    using assms(3,4) by (auto simp: line_endings_def starts_with_def split: list.splits)
  then show ?thesis using put_front_lines [OF assms(1,2)] by blast
qed

definition lines_ok :: "pystr list \<Rightarrow> bool" where
  "lines_ok ls \<longleftrightarrow> ls \<noteq> [] \<and> (\<forall>l \<in> set ls. 10 \<notin> set l \<and> 13 \<notin> set l)"

lemma pieces_Cons: "ls \<noteq> [] \<Longrightarrow> concat (line_pieces sep (l # ls)) = l @ sep @ concat (line_pieces sep ls)"
  by (cases ls) auto

lemma pieces_start: "lines_ok ls \<Longrightarrow> sep \<in> set line_endings \<Longrightarrow> sep \<noteq> [10] \<Longrightarrow> \<not> starts_with [10] (concat (line_pieces sep ls))"
proof (cases ls)
  case (Cons l r)
  assume "lines_ok ls" "sep \<in> set line_endings" "sep \<noteq> [10]"
  then show ?thesis using Cons by (cases l; cases r) (auto simp: lines_ok_def line_endings_def starts_with_def)
qed (simp add: lines_ok_def)

lemma stream_pieces:
  "lines_ok ls \<Longrightarrow> sep \<in> set line_endings \<Longrightarrow>
    io_lines (concat (line_pieces sep ls)) = map (\<lambda>l. l @ sep) (butlast ls) @ (if last ls = [] then [] else [last ls])"
proof (induction ls)
  case (Cons l ls)
  show ?case
  proof (cases "ls = []")
    case True
    then show ?thesis using Cons.prems by (auto simp: lines_ok_def stream_last)
  next
    case False
    then have ok: "lines_ok ls" using Cons.prems by (auto simp: lines_ok_def)
    have "io_lines (l @ sep @ concat (line_pieces sep ls)) = (l @ sep) # io_lines (concat (line_pieces sep ls))"
      using Cons.prems pieces_start [OF ok] by (intro stream_line) (auto simp: lines_ok_def)
    then show ?thesis using False Cons.IH [OF ok Cons.prems(2)] by (simp add: pieces_Cons)
  qed
qed (simp add: lines_ok_def)

lemma ending_of: "10 \<notin> set l \<Longrightarrow> 13 \<notin> set l \<Longrightarrow> sep \<in> set line_endings \<Longrightarrow> filelineending (l @ sep) = (l, sep)"
proof -
  assume a: "10 \<notin> set l" "13 \<notin> set l" "sep \<in> set line_endings"
  have "\<not> has_end [13, 10] (l @ [10])"
  proof (cases l rule: rev_cases)
    case (snoc r x)
    then show ?thesis using a(2) by (auto simp: has_end_def)
  qed (simp add: has_end_def)
  then show ?thesis using a(3) by (auto simp: filelineending_def line_endings_def has_end_def)
qed

lemma no_ending: "10 \<notin> set l \<Longrightarrow> 13 \<notin> set l \<Longrightarrow> filelineending l = (l, [])"
proof (cases l rule: rev_cases)
  case (snoc r x)
  assume a: "10 \<notin> set l" "13 \<notin> set l"
  have "\<not> has_end [13, 10] (r @ [x])"
  proof
    assume "has_end [13, 10] (r @ [x])"
    then have "last (drop (length (r @ [x]) - 2) (r @ [x])) = 10" by (simp add: has_end_def)
    then show False using a snoc by (simp add: last_drop)
  qed
  then show ?thesis using a snoc by (auto simp: filelineending_def has_end_def)
qed (simp add: filelineending_def has_end_def)

lemma most_same:
  assumes "sep \<in> set line_endings" "set xs \<subseteq> {sep, []}" "sep \<in> set xs"
  shows "most_used xs = sep"
proof -
  let ?u = "filter (\<lambda>x. x \<noteq> []) xs"
  have s: "sep \<noteq> []" using assms(1) by (auto simp: line_endings_def)
  have u: "set ?u = {sep}" using assms(2,3) s by auto
  have ne: "?u \<noteq> []" using u by (metis empty_iff insertI1 list.set(1))
  then have hd: "hd ?u = sep" using hd_in_set [of ?u] u by (metis singletonD)
  have self: "filter (\<lambda>x. x = sep) ?u = ?u" using u by (intro filter_True) auto
  have other: "length (filter (\<lambda>x. x = n) ?u) \<le> length ?u" for n by (rule length_filter_le)
  have "Max (set (map (\<lambda>n. length (filter (\<lambda>x. x = n) ?u)) line_endings)) = length ?u"
  proof (rule Max_eqI)
    show "length ?u \<in> set (map (\<lambda>n. length (filter (\<lambda>x. x = n) ?u)) line_endings)"
      unfolding set_map using assms(1) self by (metis (no_types, lifting) image_eqI)
  qed (use other in \<open>auto simp del: filter_filter\<close>)
  then show ?thesis
    using ne hd self assms(1) unfolding most_used_def Let_def by (auto simp del: filter_filter)
qed

lemma lines_of_file_pieces:
  assumes "lines_ok ls" "sep \<in> set line_endings"
  shows "lines_of_file (concat (line_pieces sep ls)) = (ls, if length ls = 1 then [10] else sep)"
proof -
  let ?last = "if last ls = [] then [] else [(last ls, [])]"
  have ne: "ls \<noteq> []" using assms(1) by (simp add: lines_ok_def)
  have "map filelineending (map (\<lambda>l. l @ sep) (butlast ls)) = map (\<lambda>l. (l, sep)) (butlast ls)"
    using assms by (auto simp: lines_ok_def ending_of dest: in_set_butlastD)
  moreover have "filelineending (last ls) = (last ls, [])" using assms(1) ne by (intro no_ending) (auto simp: lines_ok_def)
  ultimately have parts: "map filelineending (io_lines (concat (line_pieces sep ls))) = map (\<lambda>l. (l, sep)) (butlast ls) @ ?last"
    using stream_pieces [OF assms] by simp
  have sep: "sep \<noteq> []" using assms(2) by (auto simp: line_endings_def)
  have one: "length ls = 1 \<longleftrightarrow> butlast ls = []" using ne by (cases ls) auto
  have used: "most_used (map snd (map (\<lambda>l. (l, sep)) (butlast ls) @ ?last)) = (if length ls = 1 then [10] else sep)"
  proof (cases "butlast ls = []")
    case True
    then show ?thesis using one by (simp add: most_used_def Let_def line_endings_def)
  next
    case False
    then have "\<exists>l. l \<in> set (butlast ls)" by (meson list.set_sel(1))
    then have "sep \<in> set (map snd (map (\<lambda>l. (l, sep)) (butlast ls) @ ?last))" by force
    moreover have "set (map snd (map (\<lambda>l. (l, sep)) (butlast ls) @ ?last)) \<subseteq> {sep, []}" by auto
    ultimately show ?thesis using one False most_same [OF assms(2)] by (simp only: if_False)
  qed
  have "(if last ls = [] \<and> butlast ls \<noteq> [] then butlast ls @ [[]] else butlast ls @ (if last ls = [] then [] else [last ls])) =
      (if ls = [[]] then [] else ls)"
    using append_butlast_last_id [OF ne] by (cases "last ls = []"; cases "butlast ls = []") auto
  then show ?thesis
    unfolding lines_of_file_def parts Let_def used using sep ne by (cases "last ls = []"; cases "butlast ls = []") (auto simp: last_map comp_def split: if_splits)
qed


section \<open>Encodings\<close>

lemma rbind_Inr: "rbind r f = Inr y \<longleftrightarrow> (\<exists>x. r = Inr x \<and> f x = Inr y)"
  by (cases r) (auto simp: rbind_def)

lemma encode_append:
  "encode_text enc (s @ t) = rbind (encode_text enc s) (\<lambda>a. rbind (encode_text enc t) (\<lambda>b. Inr (a @ b)))"
  by (induction s) (auto simp: rbind_def split: sum.splits)

lemma unit_bytes: "u < 65536 \<Longrightarrow> \<exists>a b. two_bytes be u = [a, b] \<and> unit_of be a b = u"
  by (auto simp: two_bytes_def unit_of_def)

lemma utf16_cp:
  assumes "cp_ok c" "\<not> is_surrogate c" "encode_cp (Utf16 be) c = Inr bs"
  shows "decode_utf16 be (bs @ r) = rbind (decode_utf16 be r) (\<lambda>cs. Inr (c # cs))"
proof (cases "c < 65536")
  case True
  then obtain a b where "bs = [a, b]" "unit_of be a b = c" using assms unit_bytes [of c be] by (auto simp: encode_cp_def)
  then show ?thesis using assms(2) by simp
next
  case False
  let ?u = "55296 + (c - 65536) div 1024" and ?v = "56320 + (c - 65536) mod 1024"
  have q: "(c - 65536) div 1024 < 1024" using assms(1) False by (simp add: cp_ok_def div_less_iff_less_mult)
  have r: "(c - 65536) mod 1024 < 1024" by simp
  have "?u < 65536" "?v < 65536" using q r by linarith+
  then obtain a b a' b' where bs: "bs = [a, b, a', b']" "unit_of be a b = ?u" "unit_of be a' b' = ?v"
    using assms(2,3) False unit_bytes [of ?u be] unit_bytes [of ?v be] by (auto simp: encode_cp_def)
  have "is_surrogate ?u" "\<not> 56320 \<le> ?u" "?v \<le> 57343" using q r by (simp_all add: is_surrogate_def)
  moreover have "65536 + (?u - 55296) * 1024 + (?v - 56320) = c" using False by (simp add: div_mult_mod_eq)
  ultimately show ?thesis using bs by (simp add: Let_def)
qed

lemma four_digits: "c div 16777216 * 16777216 + c div 65536 mod 256 * 65536 + c div 256 mod 256 * 256 + c mod 256 = (c::nat)"
proof -
  have "c div 16777216 * 16777216 + c div 65536 mod 256 * 65536 = c div 65536 * 65536"
    using div_mult_mod_eq [of "c div 65536" 256] by (simp add: div_mult2_eq [symmetric]) 
  moreover have "c div 65536 * 65536 + c div 256 mod 256 * 256 = c div 256 * 256"
    using div_mult_mod_eq [of "c div 256" 256] by (simp add: div_mult2_eq [symmetric]) 
  ultimately show ?thesis by (simp add: div_mult_mod_eq)
qed

lemma utf32_cp:
  assumes "cp_ok c" "\<not> is_surrogate c"
  shows "decode_utf32 be (four_bytes be c @ r) = rbind (decode_utf32 be r) (\<lambda>cs. Inr (c # cs))"
  using assms four_digits [of c] by (cases be) (simp_all add: four_bytes_def Let_def)

definition text_ok :: "pystr \<Rightarrow> bool" where
  "text_ok t \<longleftrightarrow> (\<forall>c \<in> set t. cp_ok c)"

lemma encode_utf8: "encode_text Utf8 t = Inr bs \<longleftrightarrow> \<not> list_ex is_surrogate t \<and> bs = concat (map utf8_cp t)"
  by (induction t arbitrary: bs) (auto simp: rbind_Inr encode_cp_def)

lemma encode_latin1: "encode_text Latin1 t = Inr bs \<Longrightarrow> bs = t"
  by (induction t arbitrary: bs) (auto simp: rbind_Inr encode_cp_def split: if_splits)

lemma encode_plain: "encode_cp enc c = Inr b \<Longrightarrow> enc \<noteq> Latin1 \<Longrightarrow> \<not> is_surrogate c"
  by (auto simp: encode_cp_def split: encoding.splits if_splits)

lemma decode_encoded:
  assumes "text_ok t" "encode_text enc t = Inr bs"
  shows "decode_bytes enc bs = Inr t"
proof (cases enc)
  case Utf8
  have "cp_ok c \<and> \<not> is_surrogate c" if "c \<in> set t" for c
    using assms that Utf8 by (auto simp: encode_utf8 text_ok_def list_ex_iff)
  then show ?thesis using assms(2) Utf8 utf8_decode_encode [of t bs] by (simp add: decode_bytes_def utf8_decode_strict_def encode_utf8 utf8_strict_def)
next
  case (Utf16 be)
  have "text_ok t \<Longrightarrow> encode_text (Utf16 be) t = Inr bs \<Longrightarrow> decode_utf16 be bs = Inr t" for t bs
  proof (induction t arbitrary: bs)
    case (Cons c t)
    then obtain b bs' where b: "encode_cp (Utf16 be) c = Inr b" "encode_text (Utf16 be) t = Inr bs'" "bs = b @ bs'" by (auto simp: rbind_Inr)
    then show ?case using Cons utf16_cp [of c be b bs'] encode_plain [OF b(1)] by (simp add: text_ok_def rbind_def)
  qed (simp add: text_ok_def)
  then show ?thesis using assms Utf16 by (simp add: decode_bytes_def)
next
  case (Utf32 be)
  have "text_ok t \<Longrightarrow> encode_text (Utf32 be) t = Inr bs \<Longrightarrow> decode_utf32 be bs = Inr t" for t bs
  proof (induction t arbitrary: bs)
    case (Cons c t)
    then obtain b bs' where b: "encode_cp (Utf32 be) c = Inr b" "encode_text (Utf32 be) t = Inr bs'" "bs = b @ bs'" by (auto simp: rbind_Inr)
    then have "b = four_bytes be c" using encode_plain [OF b(1)] by (simp add: encode_cp_def)
    then show ?case using Cons b utf32_cp [of c be bs'] encode_plain [OF b(1)] by (simp add: text_ok_def rbind_def)
  qed (simp add: text_ok_def)
  then show ?thesis using assms Utf32 by (simp add: decode_bytes_def)
next
  case Latin1
  then show ?thesis using assms(2) encode_latin1 by (auto simp: decode_bytes_def)
qed


section \<open>Recognising a format\<close>

text \<open>A prefix of an encoded text has no error.\<close>

lemma run_silent: "utf8_run p bs = ([], q) \<Longrightarrow> q = p @ bs"
proof (induction bs arbitrary: p)
  case (Cons b bs)
  then obtain p1 where p1: "utf8_step p b = ([], p1)" "utf8_run p1 bs = ([], q)" by (auto simp: Let_def split: prod.splits)
  then have "p1 = p @ [b]" by (auto simp: utf8_step_def utf8_start_def split: if_splits)
  then show ?case using Cons.IH [OF p1(2)] by simp
qed simp

lemma run_partial:
  assumes "cp_ok c" "\<not> is_surrogate c" "utf8_cp c = x @ y" "y \<noteq> []"
  shows "utf8_run [] x = ([], x)"
proof -
  obtain out q where x: "utf8_run [] x = (out, q)" by fastforce
  obtain rest q' where y: "utf8_run q y = (rest, q')" by fastforce
  have o: "out @ rest = [c]" "q' = []" using utf8_run_cp [OF assms(1,2)] x y by (simp_all add: assms(3) utf8_run_append)
  have "out = []"
  proof (rule ccontr)
    assume "out \<noteq> []"
    then have "rest = []" using o(1) by (cases out) auto
    then show False using run_silent y o(2) assms(4) by fastforce
  qed
  then show ?thesis using x run_silent by fastforce
qed

lemma so_far_encoded: "text_ok t \<Longrightarrow> \<not> list_ex is_surrogate t \<Longrightarrow> utf8_so_far (take n (concat (map utf8_cp t)))"
proof (induction t arbitrary: n)
  case (Cons c t)
  have c: "cp_ok c" "\<not> is_surrogate c" and t: "text_ok t" "\<not> list_ex is_surrogate t" using Cons.prems by (auto simp: text_ok_def)
  show ?case
  proof (cases "n < length (utf8_cp c)")
    case True
    then have "drop n (utf8_cp c) \<noteq> []" by simp
    from run_partial [OF c _ this] have "utf8_run [] (take n (utf8_cp c)) = ([], take n (utf8_cp c))" by simp
    then show ?thesis using True by (simp add: utf8_so_far_def)
  next
    case False
    then show ?thesis using Cons.IH [OF t, of "n - length (utf8_cp c)"] utf8_run_cp [OF c]
      by (simp add: utf8_so_far_def utf8_run_append Let_def split: prod.splits)
  qed
qed (simp add: utf8_so_far_def)

lemma starts_take: "length p \<le> n \<Longrightarrow> starts_with p (take n x) = starts_with p x"
  by (simp add: starts_with_def min_absorb1)

lemma utf8_small: "cp_ok c \<Longrightarrow> b \<in> set (utf8_cp c) \<Longrightarrow> b < 254"
  by (auto simp: utf8_cp_def cp_ok_def split: if_splits)

lemma marked_utf8:
  assumes "text_ok t" "\<not> list_ex is_surrogate t" "starts_with [239, 187, 191] (concat (map utf8_cp t))"
  shows "starts_with [65279] t"
proof -
  obtain r where r: "concat (map utf8_cp t) = [239, 187, 191] @ r" using assms(3) by (auto simp: starts_with_iff)
  have "utf8_run [] (concat (map utf8_cp t)) = (t, [])" using assms(1,2) by (intro utf8_run_encoded) (auto simp: text_ok_def list_ex_iff)
  moreover have "utf8_run [] [239, 187, 191] = ([65279], [])"
    by (simp add: utf8_step_def utf8_start_def utf8_continues_def utf8_length_def Let_def)
  ultimately show ?thesis unfolding r utf8_run_append by (auto simp: starts_with_def Let_def split: prod.splits)
qed

text \<open>When the bytes of a file show the format they were written in: a mark shows it, except that a text in UTF-16
  (little-endian) that begins with \<open>NUL\<close> looks like UTF-32; without one the text must not look like a mark.\<close>

definition recognisable :: "format \<Rightarrow> pystr \<Rightarrow> bool" where
  "recognisable f t = (case FILE_ENCODING f of
     Utf8 \<Rightarrow> FILE_BOM f \<or> \<not> starts_with [65279] t
   | Utf16 be \<Rightarrow> FILE_BOM f \<and> (be \<or> \<not> starts_with [0] t)
   | Utf32 be \<Rightarrow> FILE_BOM f
   | Latin1 \<Rightarrow> \<not> FILE_BOM f \<and> detectfileformatsample (take 65536 t) = (Latin1, False))"

lemma utf16_unit:
  assumes "encode_cp (Utf16 False) c = Inr b" "c \<noteq> 0"
  shows "\<exists>x y z. b = x # y # z \<and> \<not> (x = 0 \<and> y = 0)"
proof -
  let ?u = "if c < 65536 then c else 55296 + (c - 65536) div 1024"
  have "\<exists>z. b = ?u mod 256 # ?u div 256 # z" using assms(1) by (auto simp: encode_cp_def two_bytes_def split: if_splits)
  moreover have "\<not> (?u mod 256 = 0 \<and> ?u div 256 = 0)" using assms(2) div_mult_mod_eq [of ?u 256] by auto
  ultimately show ?thesis by blast
qed

lemma recognised:
  assumes "text_ok t" "encode_text (FILE_ENCODING f) t = Inr bs" "recognisable f t"
  shows "detectfileformatsample (take 65536 ((if FILE_BOM f then encodingbom (FILE_ENCODING f) else []) @ bs)) = (FILE_ENCODING f, FILE_BOM f)"
proof (cases "FILE_ENCODING f")
  case Utf8
  show ?thesis
  proof (cases "FILE_BOM f")
    case True
    then show ?thesis using Utf8 by (simp add: detectfileformatsample_def encodingbom_def starts_with_def)
  next
    case False
    have t: "\<not> list_ex is_surrogate t" "bs = concat (map utf8_cp t)" using assms(2) Utf8 by (simp_all add: encode_utf8)
    have small: "b < 254" if "b \<in> set bs" for b using that assms(1) t(2) utf8_small by (auto simp: text_ok_def)
    have "\<not> starts_with p bs" if "254 \<in> set p \<or> 255 \<in> set p" for p
      using that small by (force simp: starts_with_iff)
    moreover have "\<not> starts_with [239, 187, 191] bs" using marked_utf8 [OF assms(1) t(1)] assms(3) Utf8 False t(2) by (auto simp: recognisable_def)
    ultimately show ?thesis
      using False Utf8 so_far_encoded [OF assms(1) t(1), of 65536] t(2)
      by (simp add: detectfileformatsample_def starts_take encodingbom_def two_bytes_def four_bytes_def Let_def)
  qed
next
  case (Utf16 be)
  have "\<not> starts_with [255, 254, 0, 0] (two_bytes False 65279 @ bs)" if "\<not> be"
  proof (cases t)
    case Nil
    then show ?thesis using assms(2) by (simp add: two_bytes_def starts_with_def)
  next
    case (Cons c r)
    then obtain b bs' where b: "encode_cp (Utf16 be) c = Inr b" "bs = b @ bs'" using assms(2) Utf16 by (auto simp: rbind_Inr)
    have "c \<noteq> 0" using assms(3) that Utf16 Cons by (auto simp: recognisable_def starts_with_def)
    then obtain x y z where "b = x # y # z" "\<not> (x = 0 \<and> y = 0)" using utf16_unit [of c b] b(1) \<open>\<not> be\<close> by auto
    then show ?thesis using b(2) by (simp add: two_bytes_def starts_with_def)
  qed
  then show ?thesis using Utf16 assms(3)
    by (cases be) (auto simp: recognisable_def detectfileformatsample_def starts_take encodingbom_def two_bytes_def four_bytes_def Let_def starts_with_def)
next
  case (Utf32 be)
  then show ?thesis using assms(3) by (cases be) (simp_all add: recognisable_def detectfileformatsample_def encodingbom_def four_bytes_def two_bytes_def Let_def starts_with_def)
next
  case Latin1
  then show ?thesis using assms(2,3) encode_latin1 by (auto simp: recognisable_def)
qed

lemma line_pieces_set: "x \<in> set (line_pieces sep ls) \<Longrightarrow> x = sep \<or> x \<in> set ls"
  by (induction sep ls rule: line_pieces.induct) auto

lemma read_written:
  assumes "lines_ok ls" "\<forall>l \<in> set ls. text_ok l" "FILE_NEWLINE f \<in> set line_endings"
    and "recognisable f (concat (line_pieces (FILE_NEWLINE f) ls))" "document_bytes f ls = Inr bs"
  shows "read_document bs = Inr (ls, f\<lparr>FILE_NEWLINE := if length ls = 1 then [10] else FILE_NEWLINE f\<rparr>)"
proof -
  let ?t = "concat (line_pieces (FILE_NEWLINE f) ls)"
  have sep: "separator f = FILE_NEWLINE f" using assms(3) by (simp add: separator_def)
  obtain es where es: "encode_text (FILE_ENCODING f) ?t = Inr es" "bs = (if FILE_BOM f then encodingbom (FILE_ENCODING f) else []) @ es"
    using assms(5) by (auto simp: document_bytes_def sep rbind_Inr)
  have "set x \<subseteq> {10, 13} \<union> \<Union> (set ` set ls)" if "x \<in> set (line_pieces (FILE_NEWLINE f) ls)" for x
    using that assms(3) line_pieces_set [of x "FILE_NEWLINE f" ls] by (auto simp: line_endings_def)
  then have "text_ok ?t" using assms(2) by (fastforce simp: text_ok_def cp_ok_def)
  then have "detectfileformatsample (take 65536 bs) = (FILE_ENCODING f, FILE_BOM f)" "decode_bytes (FILE_ENCODING f) es = Inr ?t"
    using recognised [OF _ es(1)] decode_encoded [OF _ es(1)] assms(4) es(2) by blast+
  then show ?thesis
    using es(2) lines_of_file_pieces [OF assms(1,3)] by (auto simp: read_document_def decode_document_def rbind_def)
qed


text \<open>The lines of a file that was read hold no line ending.\<close>

lemma stream_parts: "x \<in> set (io_lines t) \<Longrightarrow> \<exists>l sep. x = l @ sep \<and> 10 \<notin> set l \<and> 13 \<notin> set l \<and> (sep = [] \<or> sep \<in> set line_endings)"
proof (induction t arbitrary: x rule: io_lines.induct)
  case (2 c cs)
  consider (lf) "c = 10" | (cr) "c = 13" | (other) "c \<noteq> 10" "c \<noteq> 13" by blast
  then show ?case
  proof cases
    case lf
    then consider "x = [10]" | "x \<in> set (io_lines cs)" using "2.prems" by auto
    then show ?thesis
    proof cases
      case 1
      then show ?thesis by (intro exI [of _ "[]"] exI [of _ x]) (simp add: line_endings_def)
    qed (use "2.IH"(1) lf in blast)
  next
    case cr
    show ?thesis
    proof (cases "x = [13] \<or> x = [13, 10]")
      case True
      then show ?thesis by (intro exI [of _ "[]"] exI [of _ x]) (auto simp: line_endings_def)
    next
      case False
      then obtain c2 r where cs: "cs = c2 # r" using cr "2.prems" by (cases cs) auto
      then have "c2 = 10 \<and> x \<in> set (io_lines r) \<or> c2 \<noteq> 10 \<and> x \<in> set (io_lines cs)" using False cr "2.prems" by (auto split: if_splits)
      then show ?thesis using "2.IH"(2,3) cr cs by (elim disjE conjE) simp_all
    qed
  next
    case other
    show ?thesis
    proof (cases "io_lines cs")
      case Nil
      then show ?thesis using "2.prems" other by (intro exI [of _ "[c]"] exI [of _ "[]"]) (auto simp: put_front_def)
    next
      case (Cons y r)
      then consider "x = c # y" | "x \<in> set r" using "2.prems" other by (auto simp: put_front_def)
      then show ?thesis
      proof cases
        case 1
        then obtain l sep where "y = l @ sep" "10 \<notin> set l" "13 \<notin> set l" "sep = [] \<or> sep \<in> set line_endings" using "2.IH"(4) [of y] other Cons by auto
        then show ?thesis using 1 other by (intro exI [of _ "c # l"] exI [of _ sep]) auto
      next
        case 2
        then show ?thesis using "2.IH"(4) [of x] other Cons by simp
      qed
    qed
  qed
qed simp

lemma lines_of_file_ok: "lines_ok (fst (lines_of_file t))"
proof -
  have l: "10 \<notin> set (fst (filelineending x)) \<and> 13 \<notin> set (fst (filelineending x))" if "x \<in> set (io_lines t)" for x
    using stream_parts [OF that] ending_of no_ending by fastforce
  show ?thesis unfolding lines_of_file_def Let_def lines_ok_def using l by (auto split: if_splits)
qed

end
