(* ===== verification/T1_Programs.thy ===== *)
theory T1_Programs
  imports T1_Prelude
begin

text \<open>
  Programs that read an environment, change a state and may raise: sequencing, \<open>try\<close> with
  \<open>finally\<close> and \<open>except\<close>, and loops over a list.  A program that raises returns the state it
  left behind.
\<close>

type_synonym ('e, 'w, 'a) prog = "'e \<Rightarrow> 'w \<Rightarrow> 'a res \<times> 'w"

section \<open>Programs\<close>

definition ret :: "'a \<Rightarrow> ('e, 'w, 'a) prog" where
  "ret x e w = (Inr x, w)"

definition raise :: "pyerr \<Rightarrow> ('e, 'w, 'a) prog" where
  "raise err e w = (Inl err, w)"

definition andthen :: "('e, 'w, 'a) prog \<Rightarrow> ('a \<Rightarrow> ('e, 'w, 'b) prog) \<Rightarrow> ('e, 'w, 'b) prog" where
  "andthen m f e w = (case m e w of (Inl err, w1) \<Rightarrow> (Inl err, w1) | (Inr x, w1) \<Rightarrow> f x e w1)"

definition lift_res :: "'a res \<Rightarrow> ('e, 'w, 'a) prog" where
  "lift_res r e w = (r, w)"

text \<open>\<open>try: m finally: c\<close>: the cleanup runs in either case; its exception replaces the result.\<close>

definition finally_do :: "('e, 'w, 'a) prog \<Rightarrow> ('e, 'w, unit) prog \<Rightarrow> ('e, 'w, 'a) prog" where
  "finally_do m c e w = (case m e w of (r, w1) \<Rightarrow>
     (case c e w1 of (Inl err, w2) \<Rightarrow> (Inl err, w2) | (Inr _, w2) \<Rightarrow> (r, w2)))"

text \<open>\<open>try: m except errs: h\<close>.\<close>

definition except_do :: "('e, 'w, 'a) prog \<Rightarrow> (pyerr \<Rightarrow> bool) \<Rightarrow> (pyerr \<Rightarrow> ('e, 'w, 'a) prog) \<Rightarrow> ('e, 'w, 'a) prog" where
  "except_do m errs h e w = (case m e w of
     (Inl err, w1) \<Rightarrow> if errs err then h err e w1 else (Inl err, w1) | (Inr x, w1) \<Rightarrow> (Inr x, w1))"

fun foreach :: "'a list \<Rightarrow> ('a \<Rightarrow> ('e, 'w, unit) prog) \<Rightarrow> ('e, 'w, unit) prog" where
  "foreach [] f = ret ()"
| "foreach (x # xs) f = andthen (f x) (\<lambda>_. foreach xs f)"

section \<open>Running programs\<close>

lemma ret_run: "ret x e w = (Inr x, w)"
  by (simp add: ret_def)

lemma raise_run: "raise err e w = (Inl err, w)"
  by (simp add: raise_def)

lemma andthen_ok: "m e w = (Inr x, w1) \<Longrightarrow> andthen m f e w = f x e w1"
  by (simp add: andthen_def)

lemma andthen_err: "m e w = (Inl err, w1) \<Longrightarrow> andthen m f e w = (Inl err, w1)"
  by (simp add: andthen_def)

lemma andthen_Inr:
  "andthen m f e w = (Inr y, w') \<longleftrightarrow> (\<exists>x w1. m e w = (Inr x, w1) \<and> f x e w1 = (Inr y, w'))"
  by (cases "m e w"; cases "fst (m e w)") (auto simp: andthen_def)

lemma ret_Inr [simp]: "ret x e w = (Inr y, w') \<longleftrightarrow> y = x \<and> w' = w"
  by (auto simp: ret_def)

lemma raise_Inr [simp]: "raise err e w \<noteq> (Inr y, w')"
  by (simp add: raise_def)

lemma andthen_value [simp]:
  "andthen (lift_res (Inr x)) f = f x" "andthen (ret x) f = f x" "andthen (lift_res (Inl err)) f = raise err"
  by (simp_all add: fun_eq_iff andthen_def lift_res_def ret_def raise_def)

lemma finally_Inr:
  "finally_do m c e w = (Inr y, w') \<longleftrightarrow> (\<exists>w1 u. m e w = (Inr y, w1) \<and> c e w1 = (Inr u, w'))"
  by (auto simp: finally_do_def split: prod.splits sum.splits)

lemma andthen_assoc: "andthen (andthen m f) g = andthen m (\<lambda>x. andthen (f x) g)"
  by (intro ext) (simp add: andthen_def split: prod.splits sum.splits)

section \<open>Relations that every run keeps\<close>

text \<open>\<open>keeps_at R e m\<close>: in the environment \<open>e\<close> every run of \<open>m\<close>, successful or not, relates the
  states before and after by \<open>R\<close>.\<close>

definition keeps_at :: "('w \<Rightarrow> 'w \<Rightarrow> bool) \<Rightarrow> 'e \<Rightarrow> ('e, 'w, 'a) prog \<Rightarrow> bool" where
  "keeps_at R e m \<longleftrightarrow> (\<forall>w. R w (snd (m e w)))"

lemma keeps_atD: "keeps_at R e m \<Longrightarrow> m e w = (r, w') \<Longrightarrow> R w w'"
  unfolding keeps_at_def by (metis snd_conv)

lemma keeps_at_env: "keeps_at R e (\<lambda>_. m e) \<Longrightarrow> keeps_at R e m"
  by (simp add: keeps_at_def)

locale state_rel =
  fixes R :: "'w \<Rightarrow> 'w \<Rightarrow> bool"
  assumes refl: "R w w"
    and trans: "R a b \<Longrightarrow> R b c \<Longrightarrow> R a c"
begin

lemma at_ret: "keeps_at R e (ret x)"
  by (simp add: keeps_at_def ret_def refl)

lemma at_raise: "keeps_at R e (raise err)"
  by (simp add: keeps_at_def raise_def refl)

lemma at_lift: "keeps_at R e (lift_res r)"
  by (simp add: keeps_at_def lift_res_def refl)

lemma at_andthen:
  assumes "keeps_at R e m" "\<And>w x w1. m e w = (Inr x, w1) \<Longrightarrow> keeps_at R e (f x)"
  shows "keeps_at R e (andthen m f)"
  unfolding keeps_at_def
proof
  fix w
  obtain r w1 where m: "m e w = (r, w1)" by fastforce
  have "R w w1" using keeps_atD [OF assms(1) m] .
  moreover have "R w1 (snd (f x e w1))" if "r = Inr x" for x using assms(2) [of w x w1] m that by (simp add: keeps_at_def)
  ultimately show "R w (snd (andthen m f e w))"
    using trans by (cases r) (auto simp: andthen_def m)
qed

lemma at_finally:
  assumes "keeps_at R e m" "keeps_at R e c"
  shows "keeps_at R e (finally_do m c)"
  unfolding keeps_at_def
proof
  fix w
  obtain r w1 where m: "m e w = (r, w1)" by fastforce
  obtain r2 w2 where c: "c e w1 = (r2, w2)" by fastforce
  have "R w w2" using trans [OF keeps_atD [OF assms(1) m] keeps_atD [OF assms(2) c]] .
  then show "R w (snd (finally_do m c e w))" by (cases r2) (auto simp: finally_do_def m c)
qed

lemma at_except:
  assumes "keeps_at R e m" "\<And>err. keeps_at R e (h err)"
  shows "keeps_at R e (except_do m errs h)"
  unfolding keeps_at_def
proof
  fix w
  obtain r w1 where m: "m e w = (r, w1)" by fastforce
  have "R w w1" using keeps_atD [OF assms(1) m] .
  moreover have "R w1 (snd (h err e w1))" for err using assms(2) [of err] by (simp add: keeps_at_def)
  ultimately show "R w (snd (except_do m errs h e w))"
    using trans by (cases r) (auto simp: except_do_def m)
qed

lemma at_foreach: "(\<And>x. x \<in> set xs \<Longrightarrow> keeps_at R e (f x)) \<Longrightarrow> keeps_at R e (foreach xs f)"
  by (induction xs) (simp_all add: at_ret at_andthen)

end

end
