(* ===== verification/Broker_IO.thy ===== *)
theory Broker_IO
  imports Complex_Main T1_Programs
begin

text \<open>
  The operating-system interface of the broker: a file tree, the calls on it relative to an
  open directory, and the programs over them that may raise.  Every call may fail with
  \<open>OSError\<close> when the environment says so (\<open>e_fault\<close>, indexed by the number of calls made so
  far), a write may be partial, and random bytes and the clock come from the environment.  A
  failing program returns the state it left behind, as \<open>finally\<close> and \<open>except\<close> see it.  The
  state also counts the open descriptors and records every file tree that existed on the way,
  so that a crash at any moment leaves one of them.  No other process changes the tree.
\<close>

section \<open>The file tree\<close>

datatype kind = Regular bytes | Directory | Symlink | Special

record node =
  n_kind :: kind
  n_mode :: nat
  n_uid :: nat
  n_gid :: nat

type_synonym path = "pystr list"
type_synonym fs = "path \<Rightarrow> node option"

record env =
  e_fault :: "nat \<Rightarrow> bool"
  e_written :: "nat \<Rightarrow> nat"
  e_random :: "nat \<Rightarrow> nat \<Rightarrow> bytes"
  e_time :: "nat \<Rightarrow> rat"
  e_masked :: "nat \<Rightarrow> nat"
  e_uid :: nat
  e_gid :: nat
  e_pid :: nat

record world =
  w_fs :: fs
  w_calls :: nat
  w_open :: int
  w_past :: "fs list"

type_synonym 'a io = "(env, world, 'a) prog"

section \<open>System calls\<close>

definition tick :: "world \<Rightarrow> world" where
  "tick w = w\<lparr>w_calls := Suc (w_calls w)\<rparr>"

definition syscall :: "(env \<Rightarrow> fs \<Rightarrow> 'a res) \<Rightarrow> 'a io" where
  "syscall f e w = (if e_fault e (w_calls w) then (Inl OSError, tick w) else (f e (w_fs w), tick w))"

definition set_fs :: "fs \<Rightarrow> unit io" where
  "set_fs fs e w = (Inr (), w\<lparr>w_fs := fs, w_past := fs # w_past w\<rparr>)"

definition get_fs :: "fs io" where
  "get_fs e w = (Inr (w_fs w), w)"

definition opened :: "unit io" where
  "opened e w = (Inr (), w\<lparr>w_open := w_open w + 1\<rparr>)"

text \<open>\<open>os.close\<close> frees the descriptor.\<close>

definition sys_close :: "unit io" where
  "sys_close e w = (Inr (), w\<lparr>w_open := w_open w - 1\<rparr>)"

text \<open>Opening a directory without following a link; the result stands for the descriptor.\<close>

definition look_dir :: "path \<Rightarrow> env \<Rightarrow> fs \<Rightarrow> path res" where
  "look_dir p e fs = (case fs p of None \<Rightarrow> Inl FileNotFoundError
     | Some n \<Rightarrow> if n_kind n = Directory then Inr p else Inl OSError)"

definition sys_opendir :: "path \<Rightarrow> path io" where
  "sys_opendir p = andthen (syscall (look_dir p)) (\<lambda>d. andthen opened (\<lambda>_. ret d))"

definition change :: "(env \<Rightarrow> fs \<Rightarrow> fs res) \<Rightarrow> unit io" where
  "change f = andthen (syscall f) set_fs"

definition new_node :: "env \<Rightarrow> kind \<Rightarrow> nat \<Rightarrow> node" where
  "new_node e k mode = \<lparr>n_kind = k, n_mode = e_masked e mode, n_uid = e_uid e, n_gid = e_gid e\<rparr>"

definition sys_mkdir :: "path \<Rightarrow> pystr \<Rightarrow> nat \<Rightarrow> unit io" where
  "sys_mkdir d name mode = change (\<lambda>e fs.
     (if fs (d @ [name]) \<noteq> None then Inl FileExistsError
      else Inr (fs(d @ [name] \<mapsto> new_node e Directory mode))))"

text \<open>\<open>O_CREAT | O_EXCL\<close>.\<close>

definition sys_create :: "path \<Rightarrow> pystr \<Rightarrow> nat \<Rightarrow> path io" where
  "sys_create d name mode = andthen (change (\<lambda>e fs.
     (if fs (d @ [name]) \<noteq> None then Inl FileExistsError
      else Inr (fs(d @ [name] \<mapsto> new_node e (Regular []) mode)))))
     (\<lambda>_. andthen opened (\<lambda>_. ret (d @ [name])))"

text \<open>\<open>O_RDONLY | O_NOFOLLOW\<close>: anything but a link can be opened.\<close>

definition look_file :: "path \<Rightarrow> env \<Rightarrow> fs \<Rightarrow> path res" where
  "look_file p e fs = (case fs p of None \<Rightarrow> Inl FileNotFoundError
     | Some n \<Rightarrow> if n_kind n = Symlink then Inl OSError else Inr p)"

definition sys_openread :: "path \<Rightarrow> pystr \<Rightarrow> path io" where
  "sys_openread d name =
     andthen (syscall (look_file (d @ [name]))) (\<lambda>p. andthen opened (\<lambda>_. ret p))"

definition on_node :: "path \<Rightarrow> (node \<Rightarrow> node) \<Rightarrow> fs \<Rightarrow> fs res" where
  "on_node p f fs = (case fs p of None \<Rightarrow> Inl OSError | Some n \<Rightarrow> Inr (fs(p \<mapsto> f n)))"

definition sys_fchmod :: "path \<Rightarrow> nat \<Rightarrow> unit io" where
  "sys_fchmod p mode = change (\<lambda>e. on_node p (\<lambda>n. n\<lparr>n_mode := mode\<rparr>))"

definition sys_fchown :: "path \<Rightarrow> nat \<Rightarrow> nat \<Rightarrow> unit io" where
  "sys_fchown p uid gid = change (\<lambda>e. on_node p (\<lambda>n. n\<lparr>n_uid := uid, n_gid := gid\<rparr>))"

definition sys_fstat :: "path \<Rightarrow> node io" where
  "sys_fstat p = syscall (\<lambda>e fs. (case fs p of None \<Rightarrow> Inl OSError | Some n \<Rightarrow> Inr n))"

definition append_data :: "bytes \<Rightarrow> node \<Rightarrow> node" where
  "append_data data n = (case n_kind n of Regular old \<Rightarrow> n\<lparr>n_kind := Regular (old @ data)\<rparr> | _ \<Rightarrow> n)"

definition written_count :: "nat \<Rightarrow> nat io" where
  "written_count n e w = (Inr (min n (e_written e (w_calls w))), w)"

definition sys_write :: "path \<Rightarrow> bytes \<Rightarrow> nat io" where
  "sys_write p data = andthen (written_count (length data)) (\<lambda>k.
     andthen (change (\<lambda>e. on_node p (append_data (take k data)))) (\<lambda>_. ret k))"

definition sys_fsync :: "path \<Rightarrow> unit io" where
  "sys_fsync p = syscall (\<lambda>e fs. Inr ())"

text \<open>\<open>os.replace\<close> of a file and \<open>os.unlink\<close>, in one directory.\<close>

definition sys_replace :: "path \<Rightarrow> pystr \<Rightarrow> pystr \<Rightarrow> unit io" where
  "sys_replace d old new = change (\<lambda>e fs.
     (case fs (d @ [old]) of None \<Rightarrow> Inl FileNotFoundError
      | Some n \<Rightarrow>
          if (case fs (d @ [new]) of Some m \<Rightarrow> n_kind m = Directory | None \<Rightarrow> False) then Inl OSError
          else Inr ((fs(d @ [old] := None))(d @ [new] \<mapsto> n))))"

definition sys_unlink :: "path \<Rightarrow> pystr \<Rightarrow> unit io" where
  "sys_unlink d name = change (\<lambda>e fs.
     (case fs (d @ [name]) of None \<Rightarrow> Inl FileNotFoundError
      | Some n \<Rightarrow> if n_kind n = Directory then Inl OSError else Inr (fs(d @ [name] := None))))"

text \<open>\<open>os.rename\<close> of a directory moves the whole tree below it.  A target that exists is an
  error here (the call would replace an empty directory; the code renames to fresh names).\<close>

definition below :: "path \<Rightarrow> path \<Rightarrow> bool" where
  "below p q \<longleftrightarrow> take (length p) q = p"

definition move_tree :: "path \<Rightarrow> path \<Rightarrow> fs \<Rightarrow> fs" where
  "move_tree old new fs = (\<lambda>q.
     if below new q then fs (old @ drop (length new) q) else if below old q then None else fs q)"

definition sys_rename :: "path \<Rightarrow> pystr \<Rightarrow> pystr \<Rightarrow> unit io" where
  "sys_rename d old new = change (\<lambda>e fs.
     (if fs (d @ [old]) = None then Inl FileNotFoundError
      else if fs (d @ [new]) \<noteq> None then Inl OSError
      else Inr (move_tree (d @ [old]) (d @ [new]) fs)))"

definition sys_lexists :: "path \<Rightarrow> pystr \<Rightarrow> bool io" where
  "sys_lexists d name = syscall (\<lambda>e fs. Inr (fs (d @ [name]) \<noteq> None))"

text \<open>\<open>os.read\<close> of up to \<open>n\<close> bytes of a regular file at an offset.\<close>

definition sys_read :: "path \<Rightarrow> nat \<Rightarrow> nat \<Rightarrow> bytes io" where
  "sys_read p off n = syscall (\<lambda>e fs. (case fs p of
     Some m \<Rightarrow> (case n_kind m of Regular data \<Rightarrow> Inr (take n (drop off data)) | _ \<Rightarrow> Inl OSError)
   | None \<Rightarrow> Inl OSError))"

definition remove_tree :: "path \<Rightarrow> fs \<Rightarrow> fs" where
  "remove_tree p fs = (\<lambda>q. if below p q then None else fs q)"

definition sys_urandom :: "nat \<Rightarrow> bytes io" where
  "sys_urandom n e w = (Inr (e_random e (w_calls w) n), tick w)"

definition sys_time :: "rat io" where
  "sys_time e w = (Inr (e_time e (w_calls w)), tick w)"

definition sys_env :: "env io" where
  "sys_env e w = (Inr e, w)"

end
