(* ===== verification/Broker_Files.thy ===== *)
theory Broker_Files
  imports Broker_IO
begin

unbundle bit_operations_syntax

text \<open>
  Descriptor-relative file access of the broker (\<open>broker.py\<close>): opening a directory component
  by component without following links, atomic replacement of a file through a temporary one,
  and bounded reading.  A path is the list of its components, as \<open>os.path.abspath\<close> and the split
  at the separator give it; the branches for systems other than POSIX are not modelled.
\<close>

definition safe_component :: "pystr \<Rightarrow> bool" where
  "safe_component c \<longleftrightarrow> c \<notin> {[], [46], [46, 46]} \<and> 47 \<notin> set c \<and> 92 \<notin> set c \<and> 0 \<notin> set c"

definition is_file_exists :: "pyerr \<Rightarrow> bool" where
  "is_file_exists err \<longleftrightarrow> err = FileExistsError"

definition is_not_found :: "pyerr \<Rightarrow> bool" where
  "is_not_found err \<longleftrightarrow> err = FileNotFoundError"

definition any_error :: "pyerr \<Rightarrow> bool" where
  "any_error err \<longleftrightarrow> True"

definition guard_io :: "bool \<Rightarrow> unit io" where
  "guard_io b = (if b then ret () else raise AuthenticationError)"

section \<open>Directories\<close>

fun secure_walk :: "bool \<Rightarrow> nat option \<Rightarrow> path \<Rightarrow> pystr list \<Rightarrow> bool \<Rightarrow> (path \<times> bool) io" where
  "secure_walk create final_mode d [] final_created = ret (d, final_created)"
| "secure_walk create final_mode d (c # cs) final_created =
     andthen (guard_io (safe_component c)) (\<lambda>_.
     andthen (if create
              then except_do
                (andthen (sys_mkdir d c (if cs = [] \<and> final_mode \<noteq> None then the final_mode else 493))
                   (\<lambda>_. ret (final_created \<or> cs = [])))
                is_file_exists (\<lambda>_. ret final_created)
              else ret final_created) (\<lambda>made.
     andthen (sys_opendir (d @ [c])) (\<lambda>child.
     andthen sys_close (\<lambda>_. secure_walk create final_mode child cs made))))"

definition dir_metadata_ok :: "nat \<Rightarrow> env \<Rightarrow> node \<Rightarrow> bool" where
  "dir_metadata_ok mode e n \<longleftrightarrow>
     n_kind n = Directory \<and> n_uid n = e_uid e \<and> n_gid n = e_gid e \<and> n_mode n = mode"

definition check_final :: "bool \<Rightarrow> nat option \<Rightarrow> bool \<Rightarrow> pystr list \<Rightarrow> path \<times> bool \<Rightarrow> path io" where
  "check_final create final_mode repair components dc = (case dc of (d, final_created) \<Rightarrow>
     (case final_mode of
        Some mode \<Rightarrow>
          if create \<and> components \<noteq> [] then
            andthen (if final_created \<or> repair then sys_fchmod d mode else ret ()) (\<lambda>_.
            andthen (sys_fstat d) (\<lambda>status.
            andthen sys_env (\<lambda>e.
            andthen (guard_io (dir_metadata_ok mode e status)) (\<lambda>_. ret d))))
          else ret d
      | None \<Rightarrow> ret d))"

definition open_secure_directory :: "bool \<Rightarrow> nat option \<Rightarrow> bool \<Rightarrow> path \<Rightarrow> path io" where
  "open_secure_directory create final_mode repair components =
     andthen (sys_opendir []) (\<lambda>root.
       except_do
         (andthen (secure_walk create final_mode root components False)
            (check_final create final_mode repair components))
         any_error (\<lambda>err. andthen sys_close (\<lambda>_. raise err)))"

definition open_child_directory :: "path \<Rightarrow> pystr \<Rightarrow> bool \<Rightarrow> nat \<Rightarrow> path io" where
  "open_child_directory parent c create mode =
     andthen (guard_io (safe_component c)) (\<lambda>_.
     andthen (if create then except_do (sys_mkdir parent c mode) is_file_exists (\<lambda>_. ret ()) else ret ()) (\<lambda>_.
     andthen (sys_opendir (parent @ [c])) (\<lambda>child.
     andthen (if create then sys_fchmod child mode else ret ()) (\<lambda>_. ret child))))"

section \<open>Files\<close>

definition temporary_name :: "pystr \<Rightarrow> nat \<Rightarrow> bytes \<Rightarrow> pystr" where
  "temporary_name name pid token =
     [46] @ name @ [46] @ dec_nat pid @ [46] @ hex_of token @ cps ''.new''"

text \<open>The loop over the rest of the data; each round writes at least one byte, so the length of
  the data bounds the rounds.\<close>

fun write_loop :: "nat \<Rightarrow> path \<Rightarrow> bytes \<Rightarrow> unit io" where
  "write_loop 0 p view = ret ()"
| "write_loop (Suc k) p view =
     (if view = [] then ret ()
      else andthen (sys_write p view) (\<lambda>written.
             if written = 0 then raise AuthenticationError else write_loop k p (drop written view)))"

definition close_unlink :: "path \<Rightarrow> pystr \<Rightarrow> unit io" where
  "close_unlink d temporary = except_do (sys_unlink d temporary) is_not_found (\<lambda>_. ret ())"

definition atomic_write_at :: "path \<Rightarrow> pystr \<Rightarrow> bytes \<Rightarrow> nat \<Rightarrow> unit io" where
  "atomic_write_at d name data mode =
     andthen (guard_io (safe_component name)) (\<lambda>_.
     andthen (sys_urandom 8) (\<lambda>token.
     andthen sys_env (\<lambda>e.
     (let temporary = temporary_name name (e_pid e) token in
      finally_do
        (andthen (sys_create d temporary mode) (\<lambda>f.
         andthen (finally_do
           (andthen (sys_fchmod f mode) (\<lambda>_.
            andthen (write_loop (length data) f data) (\<lambda>_. sys_fsync f)))
           sys_close) (\<lambda>_.
         andthen (sys_replace d temporary name) (\<lambda>_. sys_fsync d))))
        (close_unlink d temporary)))))"

fun read_loop :: "nat \<Rightarrow> path \<Rightarrow> nat \<Rightarrow> nat \<Rightarrow> bytes io" where
  "read_loop 0 p off remaining = ret []"
| "read_loop (Suc k) p off remaining =
     (if remaining = 0 then ret []
      else andthen (sys_read p off (min remaining 4096)) (\<lambda>chunk.
             if chunk = [] then ret []
             else andthen (read_loop k p (off + length chunk) (remaining - length chunk))
                    (\<lambda>rest. ret (chunk @ rest))))"

definition file_size :: "node \<Rightarrow> nat" where
  "file_size n = (case n_kind n of Regular data \<Rightarrow> length data | _ \<Rightarrow> 0)"

definition is_regular :: "node \<Rightarrow> bool" where
  "is_regular n = (case n_kind n of Regular _ \<Rightarrow> True | _ \<Rightarrow> False)"

definition read_regular_at :: "path \<Rightarrow> pystr \<Rightarrow> nat \<Rightarrow> (bytes \<times> node) io" where
  "read_regular_at d name maximum =
     andthen (guard_io (safe_component name)) (\<lambda>_.
     andthen (sys_openread d name) (\<lambda>f.
       finally_do
         (andthen (sys_fstat f) (\<lambda>metadata.
          andthen (guard_io (is_regular metadata \<and> file_size metadata \<le> maximum)) (\<lambda>_.
          andthen (read_loop (maximum + 1) f 0 (maximum + 1)) (\<lambda>data.
          andthen (guard_io (length data \<le> maximum)) (\<lambda>_. ret (data, metadata))))))
         sys_close))"

definition ensure_private_file :: "path \<Rightarrow> pystr \<Rightarrow> unit io" where
  "ensure_private_file parent name =
     andthen (open_secure_directory True (Some 448) True parent) (\<lambda>d.
       finally_do
         (andthen (except_do (sys_create d name 384) is_file_exists (\<lambda>_. sys_openread d name)) (\<lambda>f.
            finally_do
              (andthen (sys_fstat f) (\<lambda>n.
               andthen (guard_io (is_regular n)) (\<lambda>_. sys_fchmod f 384)))
              sys_close))
         sys_close)"

end
