(* ===== verification/Broker_Contracts.thy ===== *)
theory Broker_Contracts
  imports Broker_Files
begin

text \<open>
  Contracts of broker programs.  \<open>keeps R m\<close>: every run of \<open>m\<close>, successful or not, relates the
  states before and after by \<open>R\<close>; the locale \<open>world_rel\<close> takes the rules of the program constructs
  from \<open>state_rel\<close> for a reflexive and transitive \<open>R\<close> and adds those of the calls.  It is interpreted for the confinement of
  changes to a set of paths (\<open>only\<close>) and for the balance of descriptors (\<open>same_open\<close>).
\<close>

named_theorems keeps_rules \<open>contracts of programs and calls\<close>

definition keeps :: "(world \<Rightarrow> world \<Rightarrow> bool) \<Rightarrow> 'a io \<Rightarrow> bool" where
  "keeps R m \<longleftrightarrow> (\<forall>e w. R w (snd (m e w)))"

lemma keeps_iff: "keeps R m \<longleftrightarrow> (\<forall>e. keeps_at R e m)"
  by (simp add: keeps_def keeps_at_def)

lemma keepsD: "keeps R m \<Longrightarrow> m e w = (r, w') \<Longrightarrow> R w w'"
  unfolding keeps_def by (metis snd_conv)

locale world_rel = state_rel R for R :: "world \<Rightarrow> world \<Rightarrow> bool"
begin

lemma keeps_ret: "keeps R (ret x)"
  by (simp add: keeps_iff at_ret)

lemma keeps_raise: "keeps R (raise err)"
  by (simp add: keeps_iff at_raise)

lemma keeps_lift: "keeps R (lift_res r)"
  by (simp add: keeps_iff at_lift)

lemma keeps_guard: "keeps R (guard_io b)"
  by (simp add: guard_io_def keeps_ret keeps_raise)

lemma keeps_env: "keeps R sys_env"
  by (simp add: keeps_def sys_env_def refl)

lemma keeps_count: "keeps R (written_count n)"
  by (simp add: keeps_def written_count_def refl)

lemma keeps_andthen: "keeps R m \<Longrightarrow> (\<And>x. keeps R (f x)) \<Longrightarrow> keeps R (andthen m f)"
  by (simp add: keeps_iff at_andthen)

lemma keeps_finally: "keeps R m \<Longrightarrow> keeps R c \<Longrightarrow> keeps R (finally_do m c)"
  by (simp add: keeps_iff at_finally)

lemma keeps_except: "keeps R m \<Longrightarrow> (\<And>err. keeps R (h err)) \<Longrightarrow> keeps R (except_do m errs h)"
  by (simp add: keeps_iff at_except)

lemma keeps_foreach: "(\<And>x. keeps R (f x)) \<Longrightarrow> keeps R (foreach xs f)"
  by (simp add: keeps_iff at_foreach)

lemma keeps_write_loop: "(\<And>v. keeps R (sys_write p v)) \<Longrightarrow> keeps R (write_loop k p view)"
  by (induction k arbitrary: view) (auto intro!: keeps_ret keeps_raise keeps_andthen)

lemma keeps_read_loop: "(\<And>off n. keeps R (sys_read p off n)) \<Longrightarrow> keeps R (read_loop k p off rem)"
  by (induction k arbitrary: off rem) (auto intro!: keeps_ret keeps_andthen)

end

text \<open>Relations that look at the file trees only.\<close>

locale tree_rel = world_rel +
  assumes quiet: "w_fs w' = w_fs w \<Longrightarrow> w_past w' = w_past w \<Longrightarrow> R w w'"
begin

lemma keeps_syscall: "keeps R (syscall f)"
  by (simp add: keeps_def syscall_def tick_def quiet)

lemma keeps_opened: "keeps R opened"
  by (simp add: keeps_def opened_def quiet)

lemma keeps_close: "keeps R sys_close"
  by (simp add: keeps_def sys_close_def quiet)

lemma keeps_urandom: "keeps R (sys_urandom n)"
  by (simp add: keeps_def sys_urandom_def tick_def quiet)

lemma keeps_time: "keeps R sys_time"
  by (simp add: keeps_def sys_time_def tick_def quiet)

lemmas keeps_basic = keeps_ret keeps_raise keeps_lift keeps_guard keeps_env keeps_count
  keeps_syscall keeps_opened keeps_close keeps_urandom keeps_time

lemma keeps_look:
  "keeps R (sys_opendir p)" "keeps R (sys_openread p n)" "keeps R (sys_fstat p)" "keeps R (sys_fsync p)"
  "keeps R (sys_lexists p n)" "keeps R (sys_read p off k)"
  unfolding sys_opendir_def sys_openread_def sys_fstat_def sys_fsync_def sys_lexists_def sys_read_def
  by (intro keeps_andthen keeps_basic)+

lemma keeps_read_regular: "keeps R (read_regular_at d name maximum)"
  unfolding read_regular_at_def
  by (intro keeps_andthen keeps_finally keeps_read_loop keeps_look keeps_basic)

lemma keeps_open_existing: "keeps R (open_secure_directory False fm rep cs)"
proof -
  have walk: "keeps R (secure_walk False fm d cs fc)" for d fc
    by (induction cs arbitrary: d fc) (auto intro!: keeps_andthen keeps_basic keeps_look)
  have check: "keeps R (check_final False fm rep cs dc)" for dc
    by (cases dc; cases fm) (simp_all add: check_final_def keeps_ret)
  show ?thesis
    unfolding open_secure_directory_def
    by (intro keeps_andthen keeps_except walk check keeps_look keeps_basic)
qed

end

section \<open>Confinement\<close>

text \<open>Only the paths in \<open>P\<close> change, in the final tree and in every tree on the way.\<close>

definition only :: "(path \<Rightarrow> bool) \<Rightarrow> world \<Rightarrow> world \<Rightarrow> bool" where
  "only P w w' \<longleftrightarrow> (\<exists>new. w_past w' = new @ w_past w
     \<and> (\<forall>fs \<in> set new. \<forall>q. \<not> P q \<longrightarrow> fs q = w_fs w q)) \<and> (\<forall>q. \<not> P q \<longrightarrow> w_fs w' q = w_fs w q)"

lemma only_trans: "only P a b \<Longrightarrow> only P b c \<Longrightarrow> only P a c"
proof -
  assume ab: "only P a b" and bc: "only P b c"
  from ab obtain n1 where n1: "w_past b = n1 @ w_past a" "\<forall>fs \<in> set n1. \<forall>q. \<not> P q \<longrightarrow> fs q = w_fs a q"
    "\<forall>q. \<not> P q \<longrightarrow> w_fs b q = w_fs a q" unfolding only_def by blast
  from bc obtain n2 where n2: "w_past c = n2 @ w_past b" "\<forall>fs \<in> set n2. \<forall>q. \<not> P q \<longrightarrow> fs q = w_fs b q"
    "\<forall>q. \<not> P q \<longrightarrow> w_fs c q = w_fs b q" unfolding only_def by blast
  have "w_past c = (n2 @ n1) @ w_past a" using n1 n2 by simp
  moreover have "\<forall>fs \<in> set (n2 @ n1). \<forall>q. \<not> P q \<longrightarrow> fs q = w_fs a q" using n1 n2 by auto
  moreover have "\<forall>q. \<not> P q \<longrightarrow> w_fs c q = w_fs a q" using n1 n2 by simp
  ultimately show ?thesis unfolding only_def by blast
qed

interpretation confined: tree_rel "only P" for P
proof
  show "only P w w" for w by (simp add: only_def)
  show "only P a b \<Longrightarrow> only P b c \<Longrightarrow> only P a c" for a b c by (rule only_trans)
  show "w_fs w' = w_fs w \<Longrightarrow> w_past w' = w_past w \<Longrightarrow> only P w w'" for w' w by (simp add: only_def)
qed

lemma only_mono: "only P w w' \<Longrightarrow> (\<And>q. P q \<Longrightarrow> Q q) \<Longrightarrow> only Q w w'"
  unfolding only_def by blast

lemma keeps_only_mono: "keeps (only P) m \<Longrightarrow> (\<And>q. P q \<Longrightarrow> Q q) \<Longrightarrow> keeps (only Q) m"
  unfolding keeps_def by (blast intro: only_mono)

lemma change_confined:
  assumes "\<And>e fs fs' q. f e fs = Inr fs' \<Longrightarrow> \<not> P q \<Longrightarrow> fs' q = fs q"
  shows "keeps (only P) (change f)"
  unfolding keeps_def
proof (intro allI)
  fix e w
  show "only P w (snd (change f e w))"
    using assms [of e "w_fs w"]
    by (cases "f e (w_fs w)") (auto simp: change_def andthen_def syscall_def set_fs_def tick_def only_def)
qed

lemma on_node_confined: "on_node p f fs = Inr fs' \<Longrightarrow> q \<noteq> p \<Longrightarrow> fs' q = fs q"
  by (auto simp: on_node_def split: option.splits)

lemma calls_confined [keeps_rules]:
  "P (d @ [name]) \<Longrightarrow> keeps (only P) (sys_mkdir d name mode)"
  "P (d @ [name]) \<Longrightarrow> keeps (only P) (sys_create d name mode)"
  "P p \<Longrightarrow> keeps (only P) (sys_fchmod p mode)"
  "P p \<Longrightarrow> keeps (only P) (sys_fchown p u g)"
  "P p \<Longrightarrow> keeps (only P) (sys_write p data)"
  "P (d @ [name]) \<Longrightarrow> keeps (only P) (sys_unlink d name)"
  "P (d @ [name]) \<Longrightarrow> P (d @ [old]) \<Longrightarrow> keeps (only P) (sys_replace d old name)"
  unfolding sys_mkdir_def sys_create_def sys_fchmod_def sys_fchown_def sys_write_def sys_unlink_def
    sys_replace_def
  by (auto intro!: confined.keeps_andthen confined.keeps_basic change_confined
      dest: on_node_confined split: if_splits option.splits)

section \<open>Descriptors\<close>

definition same_open :: "world \<Rightarrow> world \<Rightarrow> bool" where
  "same_open w w' \<longleftrightarrow> w_open w' = w_open w"

interpretation balanced: world_rel same_open
  by unfold_locales (simp_all add: same_open_def)

text \<open>\<open>gives m\<close>: a successful run leaves one more descriptor open, a failed one none.\<close>

definition gain :: "'a res \<Rightarrow> int" where
  "gain r = (case r of Inr _ \<Rightarrow> 1 | Inl _ \<Rightarrow> 0)"

lemma gain_simps [simp]: "gain (Inr x) = 1" "gain (Inl err) = 0"
  by (simp_all add: gain_def)

definition gives :: "'a io \<Rightarrow> bool" where
  "gives m \<longleftrightarrow> (\<forall>e w. w_open (snd (m e w)) = w_open w + gain (fst (m e w)))"

lemma givesD: "gives m \<Longrightarrow> m e w = (r, w') \<Longrightarrow> w_open w' = w_open w + gain r"
  unfolding gives_def by (metis fst_conv snd_conv)

definition closes :: "'a io \<Rightarrow> bool" where
  "closes m \<longleftrightarrow> (\<forall>e w. w_open (snd (m e w)) = w_open w - 1)"

lemma same_open_syscall [keeps_rules]: "keeps same_open (syscall f)"
  by (simp add: keeps_def syscall_def tick_def same_open_def)

lemma same_open_change [keeps_rules]: "keeps same_open (change f)"
  unfolding change_def
  by (rule balanced.keeps_andthen [OF same_open_syscall]) (simp add: keeps_def set_fs_def same_open_def)

lemma same_open_random: "keeps same_open (sys_urandom n)" "keeps same_open sys_time"
  by (simp_all add: keeps_def sys_urandom_def sys_time_def tick_def same_open_def)

lemma same_open_calls [keeps_rules]:
  "keeps same_open (sys_mkdir d n m)" "keeps same_open (sys_fchmod p m)" "keeps same_open (sys_fchown p u g)"
  "keeps same_open (sys_fstat p)" "keeps same_open (sys_fsync p)" "keeps same_open (sys_unlink d n)"
  "keeps same_open (sys_replace d n1 n2)" "keeps same_open (sys_rename d n1 n2)"
  "keeps same_open (sys_lexists d n)" "keeps same_open (sys_read p off k)" "keeps same_open (sys_write p data)"
  unfolding sys_mkdir_def sys_fchmod_def sys_fchown_def sys_fstat_def sys_fsync_def sys_unlink_def
    sys_replace_def sys_rename_def sys_lexists_def sys_read_def sys_write_def
  by (intro balanced.keeps_andthen balanced.keeps_count balanced.keeps_ret same_open_syscall same_open_change)+

lemmas balanced_basic = balanced.keeps_ret balanced.keeps_raise balanced.keeps_lift balanced.keeps_guard
  balanced.keeps_env balanced.keeps_count same_open_syscall same_open_change same_open_random same_open_calls

lemma gives_open:
  assumes "keeps same_open m"
  shows "gives (andthen m (\<lambda>x. andthen opened (\<lambda>_. ret (g x))))"
  unfolding gives_def
proof (intro allI)
  fix e w
  obtain r w1 where m: "m e w = (r, w1)" by fastforce
  have "w_open w1 = w_open w" using keepsD [OF assms m] by (simp add: same_open_def)
  then show "w_open (snd (andthen m (\<lambda>x. andthen opened (\<lambda>_. ret (g x))) e w))
      = w_open w + gain (fst (andthen m (\<lambda>x. andthen opened (\<lambda>_. ret (g x))) e w))"
    by (cases r) (auto simp: andthen_def m opened_def ret_def)
qed

lemma gives_calls [keeps_rules]:
  "gives (sys_opendir p)" "gives (sys_openread d n)" "gives (sys_create d n m)"
  unfolding sys_opendir_def sys_openread_def sys_create_def
  by (intro gives_open balanced_basic)+

lemma gives_then_closes:
  assumes "gives m" "\<And>x. closes (f x)"
  shows "keeps same_open (andthen m f)"
  unfolding keeps_def same_open_def
proof (intro allI)
  fix e w
  obtain r w1 where m: "m e w = (r, w1)" by fastforce
  then show "w_open (snd (andthen m f e w)) = w_open w"
    using assms(2) givesD [OF assms(1) m] by (cases r) (auto simp: andthen_def m closes_def)
qed

lemma closes_finally: "keeps same_open m \<Longrightarrow> closes (finally_do m sys_close)"
  unfolding closes_def keeps_def same_open_def
  by (auto simp: finally_do_def sys_close_def split: prod.splits) (metis snd_conv)

lemma same_then_gives:
  assumes "keeps same_open m" "\<And>x. gives (f x)"
  shows "gives (andthen m f)"
  unfolding gives_def
proof (intro allI)
  fix e w
  obtain r w1 where m: "m e w = (r, w1)" by fastforce
  have "w_open w1 = w_open w" using keepsD [OF assms(1) m] by (simp add: same_open_def)
  then show "w_open (snd (andthen m f e w)) = w_open w + gain (fst (andthen m f e w))"
    using assms(2) by (cases r) (auto simp: andthen_def m gives_def)
qed

text \<open>Closing on every exception: \<open>except: close; raise\<close> around a program that keeps a
  descriptor open.\<close>

lemma gives_except_close:
  assumes "gives m" "\<And>x. keeps same_open (body x)"
  shows "gives (andthen m (\<lambda>x. except_do (body x) any_error (\<lambda>err. andthen sys_close (\<lambda>_. raise err))))"
  unfolding gives_def
proof (intro allI)
  fix e w
  obtain r w1 where m: "m e w = (r, w1)" by fastforce
  let ?f = "\<lambda>x. except_do (body x) any_error (\<lambda>err. andthen sys_close (\<lambda>_. raise err))"
  show "w_open (snd (andthen m ?f e w)) = w_open w + gain (fst (andthen m ?f e w))"
  proof (cases r)
    case (Inl err)
    then show ?thesis using givesD [OF assms(1) m] by (simp add: andthen_def m)
  next
    case (Inr x)
    obtain r2 w2 where b: "body x e w1 = (r2, w2)" by fastforce
    have "w_open w2 = w_open w1" using keepsD [OF assms(2) b] by (simp add: same_open_def)
    then show ?thesis using givesD [OF assms(1) m] Inr
      by (cases r2) (auto simp: andthen_def m except_do_def b any_error_def sys_close_def raise_def)
  qed
qed

section \<open>The file operations\<close>

lemma secure_walk_balanced: "keeps same_open (secure_walk create fm d cs fc)"
proof (induction cs arbitrary: d fc)
  case Nil
  then show ?case by (simp add: balanced.keeps_ret)
next
  case (Cons c cs)
  have "keeps same_open (andthen (sys_opendir (d @ [c])) (\<lambda>child. andthen sys_close (\<lambda>_. secure_walk create fm child cs made)))"
    for made
    using Cons by (intro gives_then_closes gives_calls)
      (auto simp: closes_def keeps_def same_open_def andthen_def sys_close_def split: sum.splits prod.splits)
  then show ?case
    by (simp add: balanced.keeps_andthen balanced.keeps_except balanced_basic)
qed

lemma check_final_balanced: "keeps same_open (check_final create fm rep cs dc)"
  by (cases dc; cases fm) (auto simp: check_final_def intro!: balanced.keeps_andthen balanced_basic)

lemma open_secure_directory_gives [keeps_rules]: "gives (open_secure_directory create fm rep cs)"
  unfolding open_secure_directory_def
  by (intro gives_except_close gives_calls balanced.keeps_andthen secure_walk_balanced check_final_balanced)

lemma read_regular_balanced [keeps_rules]: "keeps same_open (read_regular_at d name maximum)"
  unfolding read_regular_at_def
  by (intro balanced.keeps_andthen [OF balanced.keeps_guard] gives_then_closes gives_calls closes_finally
      balanced.keeps_andthen balanced.keeps_read_loop balanced_basic)

lemma atomic_write_balanced [keeps_rules]: "keeps same_open (atomic_write_at d name data mode)"
proof -
  have inner: "keeps same_open (andthen (sys_create d t mode) (\<lambda>f. andthen (finally_do
           (andthen (sys_fchmod f mode) (\<lambda>_. andthen (write_loop (length data) f data) (\<lambda>_. sys_fsync f)))
           sys_close) (\<lambda>_. andthen (sys_replace d t name) (\<lambda>_. sys_fsync d))))" for t
  proof (rule gives_then_closes [OF gives_calls(3)])
    fix f
    have c: "closes (finally_do (andthen (sys_fchmod f mode) (\<lambda>_. andthen (write_loop (length data) f data)
        (\<lambda>_. sys_fsync f))) sys_close)"
      by (intro closes_finally balanced.keeps_andthen balanced.keeps_write_loop balanced_basic)
    have ct: "closes (andthen m (\<lambda>_. n))" if "closes m" "keeps same_open n" for m :: "unit io" and n :: "unit io"
      using that unfolding closes_def keeps_def same_open_def andthen_def
      by (auto split: prod.splits sum.splits) (metis snd_conv)+
    show "closes (andthen (finally_do
           (andthen (sys_fchmod f mode) (\<lambda>_. andthen (write_loop (length data) f data) (\<lambda>_. sys_fsync f)))
           sys_close) (\<lambda>_. andthen (sys_replace d t name) (\<lambda>_. sys_fsync d)))"
      by (rule ct [OF c]) (intro balanced.keeps_andthen balanced_basic)
  qed
  show ?thesis
    unfolding atomic_write_at_def Let_def close_unlink_def
    by (intro balanced.keeps_andthen balanced.keeps_finally balanced.keeps_except inner balanced_basic)
qed

end
