(* ===== verification/Broker_Atomic.thy ===== *)
theory Broker_Atomic
  imports Broker_Contracts
begin

text \<open>
  What the file operations of the broker do: an atomic write replaces the file by the complete
  new contents or leaves it alone, at every moment and under every fault; without faults it
  succeeds, and reading returns what was written.  A directory is opened only through real
  directories.
\<close>

section \<open>Running programs\<close>

lemma guard_run: "guard_io b e w = (if b then Inr () else Inl AuthenticationError, w)"
  by (simp add: guard_io_def ret_def raise_def)

lemma guard_Inr [simp]: "guard_io b e w = (Inr x, w') \<longleftrightarrow> b \<and> w' = w"
  by (auto simp: guard_run)

lemma sys_env_run [simp]: "sys_env e w = (Inr e, w)"
  by (simp add: sys_env_def)

lemma sys_close_run [simp]: "sys_close e w = (Inr (), w\<lparr>w_open := w_open w - 1\<rparr>)"
  by (simp add: sys_close_def)

lemma syscall_Inr: "syscall f e w = (Inr x, w') \<longleftrightarrow> \<not> e_fault e (w_calls w) \<and> f e (w_fs w) = Inr x \<and> w' = tick w"
  by (auto simp: syscall_def)

lemma tick_fields [simp]: "w_fs (tick w) = w_fs w" "w_past (tick w) = w_past w" "w_open (tick w) = w_open w"
  by (simp_all add: tick_def)

lemma change_Inr:
  "change f e w = (Inr x, w') \<longleftrightarrow> \<not> e_fault e (w_calls w) \<and>
     (\<exists>fs. f e (w_fs w) = Inr fs \<and> w' = (tick w)\<lparr>w_fs := fs, w_past := fs # w_past w\<rparr>)"
  by (auto simp: change_def andthen_Inr syscall_Inr set_fs_def)

lemma change_Inl: "change f e w = (Inl err, w') \<Longrightarrow> w_fs w' = w_fs w \<and> w_past w' = w_past w"
  by (auto simp: change_def andthen_def syscall_def set_fs_def split: if_splits sum.splits)

lemmas run_simps = andthen_Inr finally_Inr syscall_Inr change_Inr

section \<open>The temporary file\<close>

lemma temporary_name_neq: "temporary_name name pid token \<noteq> name"
proof
  assume "temporary_name name pid token = name"
  then have "length (temporary_name name pid token) = length name" by simp
  then show False by (simp add: temporary_name_def)
qed

lemma sys_write_Inr:
  assumes "sys_write p data e w = (Inr k, w')" "w_fs w p = Some n" "n_kind n = Regular old"
  shows "k \<le> length data \<and> w_fs w' p = Some (n\<lparr>n_kind := Regular (old @ take k data)\<rparr>)"
  using assms
  by (auto simp: sys_write_def run_simps written_count_def on_node_def append_data_def split: option.splits)

lemma write_loop_Inr:
  "write_loop k p view e w = (Inr u, w') \<Longrightarrow> length view \<le> k \<Longrightarrow> w_fs w p = Some n \<Longrightarrow>
   n_kind n = Regular old \<Longrightarrow> w_fs w' p = Some (n\<lparr>n_kind := Regular (old @ view)\<rparr>)"
proof (induction k arbitrary: view w n old)
  case 0
  then show ?case by (cases n) simp
next
  case (Suc k)
  show ?case
  proof (cases "view = []")
    case True
    with Suc.prems show ?thesis by (cases n) simp
  next
    case False
    with Suc.prems(1) obtain j w1 where j: "sys_write p view e w = (Inr j, w1)" "j \<noteq> 0"
      "write_loop k p (drop j view) e w1 = (Inr u, w')"
      by (auto simp: andthen_Inr split: if_splits)
    from sys_write_Inr [OF j(1) Suc.prems(3,4)] have
      "j \<le> length view" "w_fs w1 p = Some (n\<lparr>n_kind := Regular (old @ take j view)\<rparr>)" by auto
    with Suc.IH [OF j(3), of "n\<lparr>n_kind := Regular (old @ take j view)\<rparr>" "old @ take j view"] j(2) Suc.prems(2)
    show ?thesis by simp
  qed
qed

definition fill_temporary :: "path \<Rightarrow> pystr \<Rightarrow> bytes \<Rightarrow> nat \<Rightarrow> unit io" where
  "fill_temporary d t data mode =
     andthen (sys_create d t mode) (\<lambda>f. finally_do
       (andthen (sys_fchmod f mode) (\<lambda>_. andthen (write_loop (length data) f data) (\<lambda>_. sys_fsync f)))
       sys_close)"

lemma atomic_write_alt:
  "atomic_write_at d name data mode =
     andthen (guard_io (safe_component name)) (\<lambda>_. andthen (sys_urandom 8) (\<lambda>token. andthen sys_env (\<lambda>e.
       finally_do (andthen (fill_temporary d (temporary_name name (e_pid e) token) data mode) (\<lambda>_.
           andthen (sys_replace d (temporary_name name (e_pid e) token) name) (\<lambda>_. sys_fsync d)))
         (close_unlink d (temporary_name name (e_pid e) token)))))"
  by (simp add: atomic_write_at_def fill_temporary_def Let_def andthen_assoc)

lemma fill_confined: "keeps (only (\<lambda>q. q = d @ [t])) (fill_temporary d t data mode)"
proof -
  let ?P = "\<lambda>q. q = d @ [t]"
  have body: "keeps (only ?P) (finally_do (andthen (sys_fchmod (d @ [t]) mode) (\<lambda>_.
      andthen (write_loop (length data) (d @ [t]) data) (\<lambda>_. sys_fsync (d @ [t])))) sys_close)"
    by (intro confined.keeps_finally confined.keeps_andthen confined.keeps_write_loop confined.keeps_basic
        confined.keeps_look calls_confined) simp_all
  have create: "keeps (only ?P) (sys_create d t mode)" by (intro calls_confined) simp
  show ?thesis
    unfolding keeps_def
  proof (intro allI)
    fix e w
    obtain r w1 where c: "sys_create d t mode e w = (r, w1)" by fastforce
    have o: "only ?P w w1" using keepsD [OF create c] .
    show "only ?P w (snd (fill_temporary d t data mode e w))"
    proof (cases r)
      case (Inl err)
      then show ?thesis using o c by (simp add: fill_temporary_def andthen_def)
    next
      case (Inr f)
      then have "f = d @ [t]" using c by (auto simp: sys_create_def run_simps)
      then show ?thesis
        using o c Inr body by (simp add: fill_temporary_def andthen_def keeps_def) (meson only_trans)
    qed
  qed
qed

lemma sys_create_Inr:
  "sys_create d t mode e w = (Inr f, w1) \<Longrightarrow>
   f = d @ [t] \<and> w_fs w (d @ [t]) = None \<and> w_fs w1 = (w_fs w)(d @ [t] \<mapsto> new_node e (Regular []) mode)"
  by (auto simp: sys_create_def run_simps opened_def split: if_splits)

lemma sys_fchmod_Inr:
  "sys_fchmod p mode e w = (Inr u, w1) \<Longrightarrow> \<exists>n. w_fs w p = Some n \<and> w_fs w1 = (w_fs w)(p \<mapsto> n\<lparr>n_mode := mode\<rparr>)"
  by (auto simp: sys_fchmod_def run_simps on_node_def split: option.splits)

lemma fill_Inr:
  assumes "fill_temporary d t data mode e w = (Inr u, w')"
  shows "w_fs w' (d @ [t]) = Some \<lparr>n_kind = Regular data, n_mode = mode, n_uid = e_uid e, n_gid = e_gid e\<rparr>"
proof -
  from assms obtain f w1 w2 w3 w4 u1 u2 where
    c: "sys_create d t mode e w = (Inr f, w1)" and m: "sys_fchmod f mode e w1 = (Inr u1, w2)"
    and l: "write_loop (length data) f data e w2 = (Inr u2, w3)"
    and s: "sys_fsync f e w3 = (Inr u, w4)" and w': "w' = w4\<lparr>w_open := w_open w4 - 1\<rparr>"
    unfolding fill_temporary_def andthen_Inr finally_Inr by auto
  have "w_fs w2 (d @ [t]) = Some ((new_node e (Regular []) mode)\<lparr>n_mode := mode\<rparr>)" and f: "f = d @ [t]"
    using sys_create_Inr [OF c] sys_fchmod_Inr [OF m] by auto
  from write_loop_Inr [OF l [unfolded f] _ this(1), of "[]"] w' s show ?thesis
    by (auto simp: new_node_def sys_fsync_def syscall_Inr)
qed

section \<open>Crash safety\<close>

text \<open>\<open>whole P old new w w'\<close>: in the final tree and in every tree on the way the path holds
  \<open>old\<close> or \<open>new\<close>.\<close>

definition whole :: "path \<Rightarrow> node option \<Rightarrow> node option \<Rightarrow> world \<Rightarrow> world \<Rightarrow> bool" where
  "whole p old new w w' \<longleftrightarrow> (\<exists>steps. w_past w' = steps @ w_past w
     \<and> list_all (\<lambda>fs. fs p = old \<or> fs p = new) steps) \<and> (w_fs w' p = old \<or> w_fs w' p = new)"

lemma whole_only:
  assumes "only P w w'" "\<not> P p" "w_fs w p = old \<or> w_fs w p = new"
  shows "whole p old new w w'"
proof -
  from assms(1) obtain steps where s: "w_past w' = steps @ w_past w"
    "\<forall>fs \<in> set steps. \<forall>q. \<not> P q \<longrightarrow> fs q = w_fs w q" "\<forall>q. \<not> P q \<longrightarrow> w_fs w' q = w_fs w q"
    unfolding only_def by blast
  then show ?thesis unfolding whole_def using assms(2,3) by (auto simp: list_all_iff)
qed

lemma whole_trans: "whole p old new a b \<Longrightarrow> whole p old new b c \<Longrightarrow> whole p old new a c"
proof -
  assume ab: "whole p old new a b" and bc: "whole p old new b c"
  from ab obtain s1 where s1: "w_past b = s1 @ w_past a" "list_all (\<lambda>fs. fs p = old \<or> fs p = new) s1"
    unfolding whole_def by blast
  from bc obtain s2 where s2: "w_past c = s2 @ w_past b" "list_all (\<lambda>fs. fs p = old \<or> fs p = new) s2"
    "w_fs c p = old \<or> w_fs c p = new" unfolding whole_def by blast
  have "w_past c = (s2 @ s1) @ w_past a" using s1(1) s2(1) by simp
  moreover have "list_all (\<lambda>fs. fs p = old \<or> fs p = new) (s2 @ s1)" using s1(2) s2(2) by simp
  ultimately show ?thesis unfolding whole_def using s2(3) by blast
qed

lemma sys_replace_cases:
  assumes "sys_replace d t name e w = (r, w')"
  shows "(w_fs w' = w_fs w \<and> w_past w' = w_past w \<and> (\<exists>err. r = Inl err)) \<or>
    (\<exists>n. w_fs w (d @ [t]) = Some n \<and> r = Inr () \<and>
      w_fs w' = (w_fs w)(d @ [t] := None, d @ [name] \<mapsto> n) \<and> w_past w' = w_fs w' # w_past w)"
proof (cases r)
  case (Inl err)
  then show ?thesis using assms change_Inl unfolding sys_replace_def by blast
next
  case (Inr u)
  then have "sys_replace d t name e w = (Inr u, w')" using assms by simp
  then obtain fs where fs: "w_fs w' = fs" "w_past w' = fs # w_past w"
    "(case w_fs w (d @ [t]) of None \<Rightarrow> Inl FileNotFoundError | Some n \<Rightarrow>
       if (case w_fs w (d @ [name]) of Some m \<Rightarrow> n_kind m = Directory | None \<Rightarrow> False) then Inl OSError
       else Inr ((w_fs w)(d @ [t] := None, d @ [name] \<mapsto> n))) = Inr fs"
    unfolding sys_replace_def change_Inr by auto
  then obtain n where n: "w_fs w (d @ [t]) = Some n" by (cases "w_fs w (d @ [t])") auto
  with fs(3) have "fs = (w_fs w)(d @ [t] := None, d @ [name] \<mapsto> n)"
    by (simp split: if_split_asm)
  then show ?thesis using fs(1,2) n Inr by (intro disjI2 exI [of _ n]) simp
qed

lemma close_unlink_confined: "keeps (only (\<lambda>q. q = d @ [t])) (close_unlink d t)"
  unfolding close_unlink_def
  by (intro confined.keeps_except calls_confined confined.keeps_ret) simp

text \<open>The body of the write, up to the cleanup.\<close>

lemma replace_whole:
  assumes "t \<noteq> name" "p = d @ [name]"
    and "andthen (fill_temporary d t data mode) (\<lambda>_. andthen (sys_replace d t name) (\<lambda>_. sys_fsync d)) e w = (r, w')"
  defines "n \<equiv> \<lparr>n_kind = Regular data, n_mode = mode, n_uid = e_uid e, n_gid = e_gid e\<rparr>"
  shows "whole p (w_fs w p) (Some n) w w' \<and> (r = Inr () \<longrightarrow> w_fs w' = (w_fs w')(d @ [t] := None, p \<mapsto> n))
    \<and> only (\<lambda>q. q = d @ [t] \<or> q = p) w w'"
proof -
  obtain r1 w1 where f: "fill_temporary d t data mode e w = (r1, w1)" by fastforce
  have o1: "only (\<lambda>q. q = d @ [t]) w w1" using keepsD [OF fill_confined f] .
  have wh1: "whole p (w_fs w p) (Some n) w w1"
    by (rule whole_only [OF o1]) (simp_all add: assms(1) [symmetric] assms(2))
  have o1': "only (\<lambda>q. q = d @ [t] \<or> q = p) w w1" by (rule only_mono [OF o1]) simp
  show ?thesis
  proof (cases r1)
    case (Inl err)
    then have "r = Inl err" "w' = w1" using assms(3) f by (simp_all add: andthen_def)
    then show ?thesis using wh1 o1' by simp
  next
    case (Inr u)
    obtain r2 w2 where s: "sys_replace d t name e w1 = (r2, w2)" by fastforce
    have n1: "w_fs w1 (d @ [t]) = Some n" using fill_Inr f Inr unfolding n_def by blast
    have o2: "only (\<lambda>q. q = d @ [t] \<or> q = p) w1 w2"
      using keepsD [OF calls_confined(7) s, of "\<lambda>q. q = d @ [t] \<or> q = p"] assms(2) by simp
    have past: "whole p (w_fs w p) (Some n) w1 w2"
      using sys_replace_cases [OF s] n1 wh1 assms(2) by (auto simp: whole_def)
    have fin: "w_fs w' = w_fs w2 \<and> w_past w' = w_past w2 \<and> (r = Inr () \<longrightarrow> r2 = Inr ())"
      using assms(3) f Inr s by (cases r2) (auto simp: andthen_def sys_fsync_def syscall_def split: if_splits)
    have "whole p (w_fs w p) (Some n) w w'"
      using whole_trans [OF wh1 past] fin by (simp add: whole_def)
    moreover have "only (\<lambda>q. q = d @ [t] \<or> q = p) w w'"
      using only_trans [OF o1' o2] fin by (simp add: only_def)
    moreover have "r = Inr () \<longrightarrow> w_fs w' = (w_fs w')(d @ [t] := None, p \<mapsto> n)"
      using sys_replace_cases [OF s] n1 fin assms(1,2) by auto
    ultimately show ?thesis by blast
  qed
qed

lemma atomic_write_whole:
  assumes "atomic_write_at d name data mode e w = (r, w')" "p = d @ [name]"
  defines "n \<equiv> \<lparr>n_kind = Regular data, n_mode = mode, n_uid = e_uid e, n_gid = e_gid e\<rparr>"
  shows "whole p (w_fs w p) (Some n) w w' \<and> (r = Inr () \<longrightarrow> w_fs w' p = Some n)"
proof (cases "safe_component name")
  case False
  then show ?thesis using assms(1) by (auto simp: atomic_write_alt andthen_def guard_run whole_def)
next
  case True
  define t where "t = temporary_name name (e_pid e) (e_random e (w_calls w) 8)"
  have tn: "t \<noteq> name" unfolding t_def by (rule temporary_name_neq)
  obtain r1 w1 where b: "andthen (fill_temporary d t data mode) (\<lambda>_. andthen (sys_replace d t name) (\<lambda>_. sys_fsync d))
      e (tick w) = (r1, w1)" by fastforce
  have run: "finally_do (andthen (fill_temporary d t data mode) (\<lambda>_. andthen (sys_replace d t name) (\<lambda>_. sys_fsync d)))
      (close_unlink d t) e (tick w) = (r, w')"
    using assms(1) True unfolding t_def
    by (simp add: atomic_write_alt andthen_def guard_run sys_urandom_def)
  obtain r2 where c: "close_unlink d t e w1 = (r2, w')"
    using run b by (auto simp: finally_do_def split: prod.splits sum.splits)
  have o: "only (\<lambda>q. q = d @ [t]) w1 w'" using keepsD [OF close_unlink_confined c] .
  have b1: "whole p (w_fs w p) (Some n) w w1" "r1 = Inr () \<longrightarrow> w_fs w1 p = Some n"
    using replace_whole [OF tn assms(2) b] unfolding n_def
    by (simp_all add: whole_def) (metis fun_upd_same)
  have "w_fs w1 p = w_fs w p \<or> w_fs w1 p = Some n" using b1(1) by (simp add: whole_def)
  then have "whole p (w_fs w p) (Some n) w1 w'"
    using whole_only [OF o, of p] tn assms(2) by simp
  moreover have "w_fs w' p = w_fs w1 p" using o tn assms(2) by (simp add: only_def)
  moreover have "r = Inr () \<longrightarrow> r1 = Inr ()"
    using run b c by (auto simp: finally_do_def split: sum.splits)
  ultimately show ?thesis using b1 whole_trans by metis
qed

section \<open>Runs without faults\<close>

definition fair :: "env \<Rightarrow> bool" where
  "fair e \<longleftrightarrow> (\<forall>n. \<not> e_fault e n) \<and> (\<forall>n. 1 \<le> e_written e n)"

lemma fair_fault [simp]: "fair e \<Longrightarrow> \<not> e_fault e n"
  by (simp add: fair_def)

lemma fair_syscall: "fair e \<Longrightarrow> syscall f e w = (f e (w_fs w), tick w)"
  by (simp add: syscall_def)

lemma fair_change:
  "fair e \<Longrightarrow> f e (w_fs w) = Inr fs \<Longrightarrow> \<exists>w'. change f e w = (Inr (), w') \<and> w_fs w' = fs"
  by (simp add: change_def andthen_def fair_syscall set_fs_def)

lemma fair_write_loop:
  "fair e \<Longrightarrow> length view \<le> k \<Longrightarrow> w_fs w p = Some n \<Longrightarrow> n_kind n = Regular old \<Longrightarrow>
   \<exists>w'. write_loop k p view e w = (Inr (), w')"
proof (induction k arbitrary: view w n old)
  case 0
  then show ?case by (simp add: ret_def)
next
  case (Suc k)
  show ?case
  proof (cases "view = []")
    case True
    then show ?thesis by (simp add: ret_def)
  next
    case False
    define j where "j = min (length view) (e_written e (w_calls w))"
    have j: "1 \<le> j" "j \<le> length view" using False Suc.prems(1) by (auto simp: j_def fair_def Suc_le_eq)
    have ap: "on_node p (append_data (take j view)) (w_fs w)
        = Inr ((w_fs w)(p \<mapsto> n\<lparr>n_kind := Regular (old @ take j view)\<rparr>))"
      using Suc.prems(3,4) by (simp add: on_node_def append_data_def)
    obtain w1 where w1: "change (\<lambda>e. on_node p (append_data (take j view))) e w = (Inr (), w1)"
      "w_fs w1 = (w_fs w)(p \<mapsto> n\<lparr>n_kind := Regular (old @ take j view)\<rparr>)"
      using fair_change [OF Suc.prems(1), of "\<lambda>e. on_node p (append_data (take j view))"] ap by blast
    have "sys_write p view e w = (Inr j, w1)"
      by (simp add: sys_write_def andthen_def written_count_def j_def [symmetric] w1(1) ret_def)
    moreover have "length (drop j view) \<le> k" using j Suc.prems(2) by simp
    from Suc.IH [OF Suc.prems(1) this, of w1 "n\<lparr>n_kind := Regular (old @ take j view)\<rparr>" "old @ take j view"]
    obtain w' where "write_loop k p (drop j view) e w1 = (Inr (), w')" using w1(2) by auto
    ultimately show ?thesis using j False by (auto simp: andthen_def)
  qed
qed

lemma fair_fill:
  assumes "fair e" "w_fs w (d @ [t]) = None"
  shows "\<exists>w'. fill_temporary d t data mode e w = (Inr (), w')"
proof -
  have c: "sys_create d t mode e w = (Inr (d @ [t]),
      (tick w)\<lparr>w_fs := (w_fs w)(d @ [t] \<mapsto> new_node e (Regular []) mode),
        w_past := (w_fs w)(d @ [t] \<mapsto> new_node e (Regular []) mode) # w_past w, w_open := w_open w + 1\<rparr>)"
    (is "_ = (_, ?w1)")
    using assms by (simp add: sys_create_def change_def andthen_def fair_syscall set_fs_def opened_def ret_def)
  obtain w2 where m: "sys_fchmod (d @ [t]) mode e ?w1 = (Inr (), w2)"
    "w_fs w2 (d @ [t]) = Some ((new_node e (Regular []) mode)\<lparr>n_mode := mode\<rparr>)"
    using fair_change [OF assms(1), of "\<lambda>e. on_node (d @ [t]) (\<lambda>n. n\<lparr>n_mode := mode\<rparr>)" ?w1]
    by (auto simp: sys_fchmod_def on_node_def)
  obtain w3 where l: "write_loop (length data) (d @ [t]) data e w2 = (Inr (), w3)"
    using fair_write_loop [OF assms(1) order_refl m(2), of "[]" data] by (auto simp: new_node_def)
  have "sys_fsync (d @ [t]) e w3 = (Inr (), tick w3)" using assms(1) by (simp add: sys_fsync_def fair_syscall)
  with c m l show ?thesis by (simp add: fill_temporary_def andthen_def finally_do_def)
qed

lemma only_cong: "only P w w' \<Longrightarrow> w_fs w2 = w_fs w \<Longrightarrow> w_past w2 = w_past w \<Longrightarrow> only P w2 w'"
  by (simp add: only_def)

text \<open>Without faults an atomic write succeeds and changes nothing but the file.\<close>

lemma atomic_write_fair:
  assumes "fair e" "safe_component name"
    and fresh: "w_fs w (d @ [temporary_name name (e_pid e) (e_random e (w_calls w) 8)]) = None"
    and target: "\<forall>m. w_fs w (d @ [name]) = Some m \<longrightarrow> n_kind m \<noteq> Directory"
  shows "\<exists>w'. atomic_write_at d name data mode e w = (Inr (), w')
    \<and> w_fs w' = (w_fs w)(d @ [name] \<mapsto> \<lparr>n_kind = Regular data, n_mode = mode, n_uid = e_uid e, n_gid = e_gid e\<rparr>)"
proof -
  define t where "t = temporary_name name (e_pid e) (e_random e (w_calls w) 8)"
  define n where "n = \<lparr>n_kind = Regular data, n_mode = mode, n_uid = e_uid e, n_gid = e_gid e\<rparr>"
  have tn: "t \<noteq> name" unfolding t_def by (rule temporary_name_neq)
  obtain w1 where f: "fill_temporary d t data mode e (tick w) = (Inr (), w1)"
    using fair_fill [OF assms(1), of "tick w" d t] fresh by (auto simp: t_def)
  have o: "only (\<lambda>q. q = d @ [t]) (tick w) w1" using keepsD [OF fill_confined f] .
  have n1: "w_fs w1 (d @ [t]) = Some n" using fill_Inr [OF f] by (simp add: n_def)
  have fs1: "w_fs w1 = (w_fs w)(d @ [t] \<mapsto> n)" using o n1 by (auto simp: only_def)
  define fs2 where "fs2 = (w_fs w1)(d @ [t] := None, d @ [name] \<mapsto> n)"
  have nm: "w_fs w1 (d @ [name]) = w_fs w (d @ [name])" using fs1 tn by simp
  have nd: "\<not> (case w_fs w (d @ [name]) of Some m \<Rightarrow> n_kind m = Directory | None \<Rightarrow> False)"
    using target by (simp split: option.split)
  define w2 where "w2 = (tick w1)\<lparr>w_fs := fs2, w_past := fs2 # w_past w1\<rparr>"
  have r: "sys_replace d t name e w1 = (Inr (), w2)" "w_fs w2 = fs2"
    using n1 nm nd assms(1)
    by (simp_all add: sys_replace_def change_def andthen_def fair_syscall set_fs_def fs2_def w2_def)
  have u: "close_unlink d t e (tick w2) = (Inr (), tick (tick w2))"
    using assms(1) r(2) tn by (simp add: close_unlink_def except_do_def sys_unlink_def change_def andthen_def
        fair_syscall fs2_def is_not_found_def ret_def)
  have "atomic_write_at d name data mode e w = (Inr (), tick (tick w2))"
    using assms(1,2) f r u unfolding atomic_write_alt
    by (simp add: andthen_def guard_run sys_urandom_def t_def [symmetric] finally_do_def sys_fsync_def fair_syscall)
  moreover have "w_fs (tick (tick w2)) = (w_fs w)(d @ [name] \<mapsto> n)"
    using r(2) fs1 fresh tn by (auto simp: fs2_def fun_eq_iff t_def)
  ultimately show ?thesis by (simp add: n_def)
qed

section \<open>Reading\<close>

lemma sys_read_Inr:
  "sys_read p off k e w = (Inr chunk, w') \<Longrightarrow>
   \<exists>n data. w_fs w p = Some n \<and> n_kind n = Regular data \<and> chunk = take k (drop off data) \<and> w' = tick w"
  by (auto simp: sys_read_def syscall_Inr split: option.splits kind.splits)

lemma take_part: "take (min r 4096) xs @ take (r - length (take (min r 4096) xs)) (drop (length (take (min r 4096) xs)) xs)
    = take r xs"
proof -
  have "take r xs = take (length (take (min r 4096) xs)) xs @ take (r - length (take (min r 4096) xs))
      (drop (length (take (min r 4096) xs)) xs)"
    using take_add [of "length (take (min r 4096) xs)" "r - length (take (min r 4096) xs)" xs] by simp
  moreover have "take (length (take (min r 4096) xs)) xs = take (min r 4096) xs" by (simp add: min_def)
  ultimately show ?thesis by simp
qed

lemma read_loop_Inr:
  "read_loop k p off r e w = (Inr out, w') \<Longrightarrow> r \<le> k \<Longrightarrow> w_fs w p = Some n \<Longrightarrow> n_kind n = Regular data \<Longrightarrow>
   out = take r (drop off data)"
proof (induction k arbitrary: off r out w)
  case 0
  then show ?case by simp
next
  case (Suc k)
  show ?case
  proof (cases "r = 0")
    case True
    with Suc.prems show ?thesis by simp
  next
    case False
    define c where "c = take (min r 4096) (drop off data)"
    from False Suc.prems(1) obtain chunk w1 where r: "sys_read p off (min r 4096) e w = (Inr chunk, w1)"
      by (auto simp: andthen_Inr)
    from sys_read_Inr [OF r] Suc.prems(3,4) have "chunk = c" and fs: "w_fs w1 = w_fs w" by (auto simp: c_def)
    with r have rc: "sys_read p off (min r 4096) e w = (Inr c, w1)" by simp
    show ?thesis
    proof (cases "c = []")
      case True
      then have "out = []" using False Suc.prems(1) by (simp add: andthen_ok [of "sys_read p off (min r 4096)", OF rc])
      then show ?thesis using True False by (simp add: c_def min_def split: if_splits)
    next
      case ne: False
      obtain rest where rest: "out = c @ rest"
        "read_loop k p (off + length c) (r - length c) e w1 = (Inr rest, w')"
        using False ne Suc.prems(1) by (auto simp: andthen_ok [of "sys_read p off (min r 4096)", OF rc] andthen_Inr)
      have "length c > 0" using ne by blast
      then have "r - length c \<le> k" using Suc.prems(2) by linarith
      from Suc.IH [OF rest(2) this] fs Suc.prems(3,4)
      have "rest = take (r - length c) (drop (length c) (drop off data))" by (simp add: add.commute)
      then show ?thesis using rest(1) take_part [of r "drop off data"] unfolding c_def by simp
    qed
  qed
qed

lemma fair_read_loop:
  "fair e \<Longrightarrow> w_fs w p = Some n \<Longrightarrow> n_kind n = Regular data \<Longrightarrow> \<exists>out w'. read_loop k p off r e w = (Inr out, w')"
proof (induction k arbitrary: off r w)
  case 0
  then show ?case by (simp add: ret_def)
next
  case (Suc k)
  let ?c = "take (min r 4096) (drop off data)"
  have c: "sys_read p off (min r 4096) e w = (Inr ?c, tick w)"
    using Suc.prems by (simp add: sys_read_def fair_syscall)
  obtain out w' where "read_loop k p (off + length ?c) (r - length ?c) e (tick w) = (Inr out, w')"
    using Suc.IH [of "tick w" "off + length ?c" "r - length ?c"] Suc.prems by auto
  then show ?case using c by (auto simp: andthen_def ret_def)
qed

definition nothing :: "path \<Rightarrow> bool" where
  "nothing q \<longleftrightarrow> False"

lemma only_nothing: "only nothing w w' \<Longrightarrow> w_fs w' = w_fs w"
  by (auto simp: only_def nothing_def)

lemma read_loop_fs: "read_loop k p off r e w = (x, w') \<Longrightarrow> w_fs w' = w_fs w"
  using keepsD [OF confined.keeps_read_loop [OF confined.keeps_look(6)]] only_nothing by blast

lemma read_regular_Inr:
  assumes "read_regular_at d name maximum e w = (Inr (data, n), w')"
  shows "w_fs w (d @ [name]) = Some n \<and> n_kind n = Regular data \<and> length data \<le> maximum \<and> w_fs w' = w_fs w
    \<and> safe_component name"
proof -
  from assms obtain w1 w2 w3 where
    o: "sys_openread d name e w = (Inr (d @ [name]), w1)" "safe_component name"
    and s: "sys_fstat (d @ [name]) e w1 = (Inr n, w2)" and g: "is_regular n" "file_size n \<le> maximum"
    and r: "read_loop (maximum + 1) (d @ [name]) 0 (maximum + 1) e w2 = (Inr data, w3)"
    by (auto simp: read_regular_at_def run_simps sys_openread_def look_file_def split: option.splits if_splits)
  have fs: "w_fs w1 = w_fs w" "w_fs w2 = w_fs w1"
    using o s by (auto simp: sys_openread_def sys_fstat_def run_simps opened_def)
  then have n: "w_fs w (d @ [name]) = Some n" using s by (auto simp: sys_fstat_def run_simps split: option.splits)
  from g obtain content where k: "n_kind n = Regular content" "length content \<le> maximum"
    by (auto simp: is_regular_def file_size_def split: kind.splits)
  have "data = content"
    using read_loop_Inr [OF r order_refl _ k(1)] n fs k(2) by simp
  moreover have "w_fs w' = w_fs w"
    using only_nothing [OF keepsD [OF confined.keeps_read_regular assms]] .
  ultimately show ?thesis using n k o(2) by simp
qed

lemma read_regular_fair:
  assumes "fair e" "safe_component name" "w_fs w (d @ [name]) = Some n" "n_kind n = Regular data"
    "length data \<le> maximum"
  shows "\<exists>w'. read_regular_at d name maximum e w = (Inr (data, n), w') \<and> w_fs w' = w_fs w"
proof -
  let ?p = "d @ [name]" and ?w1 = "(tick w)\<lparr>w_open := w_open w + 1\<rparr>"
  have o: "sys_openread d name e w = (Inr ?p, ?w1)"
    using assms by (simp add: sys_openread_def andthen_def fair_syscall look_file_def opened_def ret_def)
  have s: "sys_fstat ?p e ?w1 = (Inr n, tick ?w1)" using assms by (simp add: sys_fstat_def fair_syscall)
  obtain out w2 where r: "read_loop (maximum + 1) ?p 0 (maximum + 1) e (tick ?w1) = (Inr out, w2)"
    using fair_read_loop [OF assms(1), of "tick ?w1" ?p n data "maximum + 1" 0 "maximum + 1"] assms(3,4)
    by (auto simp del: read_loop.simps)
  have out: "out = data" using read_loop_Inr [OF r order_refl] assms(3-5) by simp
  have "is_regular n \<and> file_size n \<le> maximum" using assms(4,5) by (simp add: is_regular_def file_size_def)
  then have "read_regular_at d name maximum e w = (Inr (data, n), w2\<lparr>w_open := w_open w2 - 1\<rparr>)"
    unfolding read_regular_at_def using assms(2,5) o s r out
    by (simp add: andthen_def guard_run finally_do_def ret_def del: read_loop.simps)
  then show ?thesis using read_loop_fs [OF r] by simp
qed

section \<open>Directories\<close>

definition is_dir :: "fs \<Rightarrow> path \<Rightarrow> bool" where
  "is_dir fs p \<longleftrightarrow> (\<exists>n. fs p = Some n \<and> n_kind n = Directory)"

definition grows :: "world \<Rightarrow> world \<Rightarrow> bool" where
  "grows w w' \<longleftrightarrow> (\<forall>q n. w_fs w q = Some n \<longrightarrow> w_fs w' q = Some n)"

interpretation growing: world_rel grows
  by unfold_locales (simp_all add: grows_def)

lemma grows_look: "keeps grows (sys_opendir p)" "keeps grows sys_close"
  by (auto simp: keeps_def grows_def sys_opendir_def andthen_def syscall_def opened_def ret_def sys_close_def
      split: sum.splits)

lemma grows_mkdir: "keeps grows (sys_mkdir d c m)"
  unfolding keeps_def
proof (intro allI)
  fix e w
  show "grows w (snd (sys_mkdir d c m e w))"
    by (auto simp: grows_def sys_mkdir_def change_def andthen_def syscall_def set_fs_def split: sum.splits)
qed

lemma secure_walk_grows: "keeps grows (secure_walk create fm d cs fc)"
  by (induction cs arbitrary: d fc)
     (auto intro!: growing.keeps_andthen growing.keeps_except growing.keeps_guard growing.keeps_ret grows_look
       grows_mkdir)

lemma sys_opendir_Inr:
  "sys_opendir p e w = (Inr d, w') \<Longrightarrow> d = p \<and> is_dir (w_fs w) p \<and> w_fs w' = w_fs w"
  by (auto simp: sys_opendir_def run_simps look_dir_def is_dir_def opened_def split: option.splits if_splits)

text \<open>A walk that succeeds went through real directories only.\<close>

lemma secure_walk_Inr:
  "secure_walk create fm d cs fc e w = (Inr (d', fc'), w') \<Longrightarrow>
   d' = d @ cs \<and> (\<forall>k. 1 \<le> k \<longrightarrow> k \<le> length cs \<longrightarrow> is_dir (w_fs w') (d @ take k cs))
   \<and> list_all safe_component cs"
proof (induction cs arbitrary: d fc w)
  case Nil
  then show ?case by simp
next
  case (Cons c cs)
  from Cons.prems obtain made w1 w2 where
    o: "sys_opendir (d @ [c]) e w1 = (Inr (d @ [c]), w2)" "safe_component c"
    and r: "secure_walk create fm (d @ [c]) cs made e (w2\<lparr>w_open := w_open w2 - 1\<rparr>) = (Inr (d', fc'), w')"
    by (auto simp: andthen_Inr dest: sys_opendir_Inr)
  from Cons.IH [OF r] have ih: "d' = (d @ [c]) @ cs" "list_all safe_component cs"
    "\<forall>k. 1 \<le> k \<longrightarrow> k \<le> length cs \<longrightarrow> is_dir (w_fs w') ((d @ [c]) @ take k cs)" by auto
  have "is_dir (w_fs w2) (d @ [c])" using sys_opendir_Inr [OF o(1)] by simp
  moreover have "grows (w2\<lparr>w_open := w_open w2 - 1\<rparr>) w'" using keepsD [OF secure_walk_grows r] .
  ultimately have first: "is_dir (w_fs w') (d @ [c])" by (auto simp: is_dir_def grows_def)
  have "is_dir (w_fs w') (d @ take k (c # cs))" if "1 \<le> k" "k \<le> length (c # cs)" for k
    using that first ih(3) [rule_format, of "k - 1"] by (cases "k = 1"; cases k) auto
  then show ?case using ih o(2) by auto
qed

lemma fair_secure_walk:
  "fair e \<Longrightarrow> list_all safe_component cs \<Longrightarrow> \<forall>k \<le> length cs. is_dir (w_fs w) (d @ take k cs) \<Longrightarrow>
   \<exists>w'. secure_walk create fm d cs fc e w = (Inr (d @ cs, fc), w') \<and> w_fs w' = w_fs w"
proof (induction cs arbitrary: d w)
  case Nil
  then show ?case by (simp add: ret_def)
next
  case (Cons c cs)
  have dc: "is_dir (w_fs w) (d @ [c])" using Cons.prems(3) [rule_format, of 1] by simp
  have "\<exists>w1. (if create then except_do (andthen (sys_mkdir d c (if cs = [] \<and> fm \<noteq> None then the fm else 493))
          (\<lambda>_. ret (fc \<or> cs = []))) is_file_exists (\<lambda>_. ret fc) else ret fc) e w = (Inr fc, w1) \<and> w_fs w1 = w_fs w"
    using dc Cons.prems(1)
    by (cases create) (auto simp: except_do_def andthen_def sys_mkdir_def change_def fair_syscall is_dir_def
        is_file_exists_def ret_def)
  then obtain w1 where m: "(if create then except_do (andthen (sys_mkdir d c (if cs = [] \<and> fm \<noteq> None then the fm else 493))
          (\<lambda>_. ret (fc \<or> cs = []))) is_file_exists (\<lambda>_. ret fc) else ret fc) e w = (Inr fc, w1)" "w_fs w1 = w_fs w"
    by blast
  have o: "sys_opendir (d @ [c]) e w1 = (Inr (d @ [c]), (tick w1)\<lparr>w_open := w_open w1 + 1\<rparr>)"
    using dc m(2) Cons.prems(1)
    by (auto simp: sys_opendir_def andthen_def fair_syscall look_dir_def is_dir_def opened_def ret_def)
  let ?w2 = "(tick w1)\<lparr>w_open := w_open w1\<rparr>"
  have sub: "\<forall>k \<le> length cs. is_dir (w_fs ?w2) ((d @ [c]) @ take k cs)"
  proof (intro allI impI)
    fix k assume "k \<le> length cs"
    then show "is_dir (w_fs ?w2) ((d @ [c]) @ take k cs)"
      using Cons.prems(3) [rule_format, of "Suc k"] m(2) by simp
  qed
  have safe: "list_all safe_component cs" "safe_component c" using Cons.prems(2) by simp_all
  from Cons.IH [OF Cons.prems(1) safe(1) sub] obtain w' where
    "secure_walk create fm (d @ [c]) cs fc e ?w2 = (Inr ((d @ [c]) @ cs, fc), w')" "w_fs w' = w_fs w"
    using m(2) by auto
  then show ?case
    using safe(2) m(1) o by (simp add: andthen_def guard_run)
qed

end
