(* ===== verification/T1_Paths.thy ===== *)
theory T1_Paths
  imports T1_Prelude
begin

text \<open>
  Paths of a file system without links: a path is the list of its components, and the functions of
  \<open>os.path\<close> the modules use go between paths and their text.
\<close>

section \<open>Paths and their text\<close>

type_synonym rpath = "pystr list"

text \<open>Paths as text: \<open>os.path.abspath\<close> resolves the working tier, empty components, \<open>.\<close> and \<open>..\<close>.\<close>

definition path_text :: "rpath \<Rightarrow> pystr" where
  "path_text p = (if p = [] then [47] else concat (map (\<lambda>c. 47 # c) p))"

fun resolve :: "rpath \<Rightarrow> pystr list \<Rightarrow> rpath" where
  "resolve p [] = p"
| "resolve p (c # cs) =
     (if c = [] \<or> c = [46] then resolve p cs
      else if c = [46, 46] then resolve (butlast p) cs else resolve (p @ [c]) cs)"

definition abspath :: "rpath \<Rightarrow> pystr \<Rightarrow> rpath" where
  "abspath cwd t = resolve (if t \<noteq> [] \<and> hd t = 47 then [] else cwd) (split_on 47 t)"

text \<open>\<open>os.path.dirname\<close>: what stands before the last slash, without the slashes it ends in unless it
  is all slashes.\<close>

definition dirname :: "pystr \<Rightarrow> pystr" where
  "dirname t =
     (let head = rev (dropWhile (\<lambda>c. c \<noteq> 47) (rev t)) in
      if list_all (\<lambda>c. c = 47) head then head else rstrip (\<lambda>c. c = 47) head)"

definition join_path :: "pystr \<Rightarrow> pystr \<Rightarrow> pystr" where
  "join_path t name =
     (if name \<noteq> [] \<and> hd name = 47 then name else if t = [] \<or> last t = 47 then t @ name else t @ 47 # name)"

text \<open>\<open>os.path.basename\<close>.\<close>

definition basename :: "pystr \<Rightarrow> pystr" where
  "basename t = last (split_on 47 t)"

section \<open>Facts\<close>

definition plain_part :: "pystr \<Rightarrow> bool" where
  "plain_part c \<longleftrightarrow> 47 \<notin> set c \<and> c \<notin> {[], [46], [46, 46]}"

lemma resolve_plain: "list_all plain_part cs \<Longrightarrow> resolve p cs = p @ cs"
  by (induction cs arbitrary: p) (auto simp: plain_part_def)

lemma resolve_parts: "list_all plain_part p \<Longrightarrow> \<forall>c \<in> set cs. 47 \<notin> set c \<Longrightarrow> list_all plain_part (resolve p cs)"
proof (induction cs arbitrary: p)
  case (Cons c cs)
  have "list_all plain_part (butlast p)" using Cons.prems(1) by (simp add: list_all_iff in_set_butlastD)
  moreover have "plain_part c" if "\<not> (c = [] \<or> c = [46])" "c \<noteq> [46, 46]" using that Cons.prems(2) by (simp add: plain_part_def)
  ultimately show ?case using Cons by simp
qed simp

lemma abspath_parts: "list_all plain_part cwd \<Longrightarrow> list_all plain_part (abspath cwd t)"
  unfolding abspath_def using split_on_parts_no_sep by (intro resolve_parts) auto

lemma slashed_join: "p \<noteq> [] \<Longrightarrow> concat (map (\<lambda>c. 47 # c) p) = 47 # join_with 47 p"
  by (induction p rule: induct_list012) auto

lemma split_slashed: "list_all plain_part p \<Longrightarrow> p \<noteq> [] \<Longrightarrow> split_on 47 (concat (map (\<lambda>c. 47 # c) p)) = [] # p"
  using split_on_join [of p 47] by (simp add: slashed_join plain_part_def list_all_iff)

lemma abspath_path_text: "list_all plain_part p \<Longrightarrow> abspath cwd (path_text p) = p"
  using split_slashed [of p] resolve_plain [of p "[]"]
  by (cases p) (auto simp: abspath_def path_text_def)

lemma dirname_path_text:
  assumes "list_all plain_part p" "p \<noteq> []"
  shows "dirname (path_text p) = path_text (butlast p)"
proof -
  let ?d = "concat (map (\<lambda>c. 47 # c) (butlast p))"
  have l: "47 \<notin> set (last p)" using assms by (cases p rule: rev_cases) (auto simp: plain_part_def)
  have "path_text p = ?d @ 47 # last p"
    using assms(2) by (cases p rule: rev_cases) (simp_all add: path_text_def)
  then have "rev (dropWhile (\<lambda>c. c \<noteq> 47) (rev (path_text p))) = ?d @ [47]"
    using l dropWhile_neq_append [of 47 "rev (last p)" "rev ?d"] by simp
  then have h: "dirname (path_text p) = (if list_all (\<lambda>c. c = 47) (?d @ [47]) then ?d @ [47] else rstrip (\<lambda>c. c = 47) (?d @ [47]))"
    by (simp add: dirname_def)
  show ?thesis
  proof (cases "butlast p" rule: rev_cases)
    case Nil
    then show ?thesis using h by (simp add: path_text_def)
  next
    case (snoc q c)
    then have c: "47 \<notin> set c" "c \<noteq> []" using assms by (cases p rule: rev_cases; auto simp: plain_part_def)+
    then obtain c' x where x: "c = c' @ [x]" "x \<noteq> 47" by (cases c rule: rev_cases) auto
    then show ?thesis using h snoc by (simp add: path_text_def rstrip_def)
  qed
qed

lemma split_on_app: "split_on c (x @ c # y) = split_on c x @ split_on c y"
  by (induction x) (auto split: list.splits)

lemma resolve_app: "resolve p (xs @ ys) = resolve (resolve p xs) ys"
  by (induction p xs rule: resolve.induct) auto

lemma abspath_join:
  assumes "t \<noteq> []" "plain_part name"
  shows "abspath cwd (join_path t name) = abspath cwd t @ [name]"
proof -
  have n: "name \<noteq> []" "hd name \<noteq> 47" "47 \<notin> set name" using assms(2) by (cases name; auto simp: plain_part_def)+
  have r: "name \<notin> {[], [46], [46, 46]}" using assms(2) by (simp add: plain_part_def)
  show ?thesis
  proof (cases "last t = 47")
    case True
    then obtain u where u: "t = u @ [47]" using assms(1) by (metis append_butlast_last_id)
    have "resolve p (split_on 47 (u @ 47 # name)) = resolve p (split_on 47 (u @ [47])) @ [name]" for p
      using split_on_app [of 47 u name] split_on_app [of 47 u "[]"] n(3) r by (simp add: resolve_app split_on_no_sep)
    then show ?thesis using u n True by (cases u) (auto simp: abspath_def join_path_def)
  next
    case False
    have "resolve p (split_on 47 (t @ 47 # name)) = resolve p (split_on 47 t) @ [name]" for p
      using split_on_app [of 47 t name] n(3) r by (simp add: resolve_app split_on_no_sep)
    then show ?thesis using assms(1) n False by (cases t) (auto simp: abspath_def join_path_def)
  qed
qed

lemma basename_join:
  assumes "t \<noteq> []" "47 \<notin> set name" "name \<noteq> []"
  shows "basename (join_path t name) = name"
proof -
  have "hd name \<noteq> 47" using assms(2,3) by (cases name) auto
  moreover have "last (split_on 47 (u @ 47 # name)) = name" for u
    using assms(2) by (simp add: split_on_app split_on_no_sep)
  moreover have "last (split_on 47 (t @ name)) = name" if l: "last t = 47"
  proof -
    obtain u where "t = u @ [47]" using l assms(1) by (metis append_butlast_last_id)
    then show ?thesis using assms(2) by (simp add: split_on_app split_on_no_sep)
  qed
  ultimately show ?thesis using assms(1) by (auto simp: basename_def join_path_def)
qed

lemma join_nonempty: "t \<noteq> [] \<Longrightarrow> join_path t name \<noteq> []"
  by (auto simp: join_path_def)

end
