(* ===== verification/Write_Save.thy ===== *)
theory Write_Save
  imports Write_Format_Facts Broker_Atomic T1_Paths
begin

unbundle bit_operations_syntax

text \<open>
  Reading and saving documents (\<open>write.py\<close>) with the operating-system calls of \<open>Broker_IO\<close>: the path must lie below
  the home of the user, every directory on the way is opened without following links and checked, and the file is
  replaced through a temporary one.  Paths are lists of components; a second slash in front is read as one.  The name of the user is
  what \<open>getusername\<close> returns.
\<close>

definition usersavepath :: "pystr res \<Rightarrow> pystr \<Rightarrow> (rpath \<times> rpath \<times> pystr list) res" where
  "usersavepath user raw =
     (if raw = [] \<or> 0 \<in> set raw then Inl PermissionError
      else if \<not> starts_with [47] raw then Inl PermissionError
      else rbind user (\<lambda>username.
        (let home = abspath [] (cps ''/master/'' @ username); p = abspath [] raw; parts = drop (length home) p in
         if \<not> starts_with home p \<or> p = home then Inl PermissionError
         else if parts = [] \<or> list_ex (\<lambda>part. part = [] \<or> part = cps ''.'' \<or> part = cps ''..'') parts \<or> 47 \<in> set (last parts)
         then Inl PermissionError
         else Inr (p, home, parts))))"

definition userreadpath :: "pystr \<Rightarrow> rpath res" where
  "userreadpath raw =
     (if raw = [] \<or> 0 \<in> set raw then Inl PermissionError
      else if \<not> starts_with [47] raw then Inl PermissionError
      else Inr (abspath [] raw))"

definition permit :: "bool \<Rightarrow> unit io" where
  "permit b = (if b then ret () else raise PermissionError)"

definition validateduserdirectory :: "path \<Rightarrow> unit io" where
  "validateduserdirectory d =
     andthen (sys_fstat d) (\<lambda>metadata.
     andthen sys_env (\<lambda>e.
     andthen (permit (e_uid e = 1000)) (\<lambda>_.
     andthen (permit (n_kind metadata = Directory \<and> n_uid metadata = 1000)) (\<lambda>_.
     permit (n_mode metadata AND 18 = 0)))))"

fun save_walk :: "path \<Rightarrow> pystr list \<Rightarrow> path io" where
  "save_walk d [] = ret d"
| "save_walk d (c # cs) =
     andthen (except_do
       (andthen (sys_opendir (d @ [c])) (\<lambda>child.
        andthen (except_do (validateduserdirectory child) any_error (\<lambda>err. andthen sys_close (\<lambda>_. raise err))) (\<lambda>_.
        andthen sys_close (\<lambda>_. ret child))))
       any_error (\<lambda>err. andthen sys_close (\<lambda>_. raise err)))
     (\<lambda>child. save_walk child cs)"

definition openusersaveparent :: "pystr res \<Rightarrow> pystr \<Rightarrow> (rpath \<times> path \<times> pystr) io" where
  "openusersaveparent user raw =
     andthen (lift_res (usersavepath user raw)) (\<lambda>(p, home, parts).
     andthen (sys_opendir home) (\<lambda>d.
     andthen (except_do (validateduserdirectory d) any_error (\<lambda>err. andthen sys_close (\<lambda>_. raise err))) (\<lambda>_.
     andthen (save_walk d (butlast parts)) (\<lambda>parent. ret (p, parent, last parts)))))"

definition sys_lstat :: "path \<Rightarrow> pystr \<Rightarrow> node io" where
  "sys_lstat d name = syscall (\<lambda>e fs. (case fs (d @ [name]) of None \<Rightarrow> Inl FileNotFoundError | Some n \<Rightarrow> Inr n))"

definition validateusersavetarget :: "path \<Rightarrow> pystr \<Rightarrow> unit io" where
  "validateusersavetarget d name =
     andthen (except_do (andthen (sys_lstat d name) (\<lambda>n. ret (Some n))) is_not_found (\<lambda>_. ret None)) (\<lambda>found.
       case found of
         None \<Rightarrow> ret ()
       | Some metadata \<Rightarrow>
           andthen (permit (is_regular metadata)) (\<lambda>_.
           andthen sys_env (\<lambda>e.
           andthen (permit (n_uid metadata = e_uid e)) (\<lambda>_.
           permit (n_mode metadata AND 18 = 0)))))"

text \<open>A buffered stream writes everything or fails.  The pieces reach the file one after the other, the last no later
  than the \<open>flush\<close>; nobody reads the temporary file before.\<close>

definition stream_write :: "path \<Rightarrow> bytes \<Rightarrow> unit io" where
  "stream_write p data = except_do (write_loop (length data) p data) any_error (\<lambda>_. raise OSError)"

definition writefilesnapshotstream :: "path \<Rightarrow> pystr list \<Rightarrow> format \<Rightarrow> unit io" where
  "writefilesnapshotstream p ls f =
     andthen (if FILE_BOM f then stream_write p (encodingbom (FILE_ENCODING f)) else ret ()) (\<lambda>_.
     andthen (foreach (line_pieces (separator f) ls)
       (\<lambda>piece. andthen (lift_res (encode_text (FILE_ENCODING f) piece)) (stream_write p))) (\<lambda>_.
     sys_fsync p))"

definition snapshot_name :: "nat \<Rightarrow> bytes \<Rightarrow> pystr" where
  "snapshot_name pid token = cps ''.write-'' @ dec_nat pid @ cps ''-'' @ hex_of token @ cps ''.tmp''"

text \<open>A file just created has one link.\<close>

definition fill_snapshot :: "path \<Rightarrow> pystr list \<Rightarrow> format \<Rightarrow> unit io" where
  "fill_snapshot p ls f = finally_do
     (andthen (sys_fstat p) (\<lambda>metadata.
      andthen sys_env (\<lambda>e.
      andthen (permit (is_regular metadata \<and> n_uid metadata = e_uid e)) (\<lambda>_.
      writefilesnapshotstream p ls f))))
     sys_close"

definition forget_file :: "path \<Rightarrow> pystr \<Rightarrow> unit io" where
  "forget_file d name = except_do (sys_unlink d name)
     (\<lambda>err. err \<in> {OSError, FileNotFoundError, FileExistsError, PermissionError}) (\<lambda>_. ret ())"

definition replace_target :: "path \<Rightarrow> pystr \<Rightarrow> pystr \<Rightarrow> pystr list \<Rightarrow> format \<Rightarrow> unit io" where
  "replace_target d temporary name ls f =
     andthen (validateusersavetarget d name) (\<lambda>_.
     andthen (sys_create d temporary 384) (\<lambda>p.
     andthen (except_do
       (andthen (fill_snapshot p ls f) (\<lambda>_.
        andthen (validateusersavetarget d name) (\<lambda>_.
        sys_replace d temporary name)))
       any_error (\<lambda>err. andthen (forget_file d temporary) (\<lambda>_. raise err))) (\<lambda>_.
     sys_fsync d)))"

definition writeuserfilesnapshot :: "pystr res \<Rightarrow> pystr \<Rightarrow> pystr list \<Rightarrow> format \<Rightarrow> rpath io" where
  "writeuserfilesnapshot user raw ls f =
     andthen (openusersaveparent user raw) (\<lambda>(canonical, parent, name).
     andthen sys_env (\<lambda>e.
     andthen (sys_urandom 16) (\<lambda>token.
     andthen (finally_do (replace_target parent (snapshot_name (e_pid e) token) name ls f) sys_close) (\<lambda>_.
     ret canonical))))"

definition MAXDOCUMENTBYTES :: nat where "MAXDOCUMENTBYTES = 64 * 1024 * 1024"

text \<open>The loop reads blocks of at most a mebibyte until the file ends or one byte more than the limit has come.\<close>

fun read_blocks :: "nat \<Rightarrow> path \<Rightarrow> nat \<Rightarrow> nat \<Rightarrow> bytes io" where
  "read_blocks 0 p off remaining = ret []"
| "read_blocks (Suc k) p off remaining =
     (if remaining = 0 then ret []
      else andthen (sys_read p off (min (1024 * 1024) remaining)) (\<lambda>block.
             if block = [] then ret []
             else andthen (read_blocks k p (off + length block) (remaining - length block)) (\<lambda>rest. ret (block @ rest))))"

text \<open>A link at the end of the path, which the code follows, is an error here: the file tree has no targets of links.\<close>

definition readfilepayload :: "pystr \<Rightarrow> (rpath \<times> pystr list \<times> format) io" where
  "readfilepayload raw =
     andthen (lift_res (userreadpath raw)) (\<lambda>p.
     andthen (if p = [] then raise PermissionError else sys_openread (butlast p) (last p)) (\<lambda>fd.
     andthen (finally_do
       (andthen (sys_fstat fd) (\<lambda>metadata.
        andthen (permit (is_regular metadata \<and> file_size metadata \<le> MAXDOCUMENTBYTES)) (\<lambda>_.
        andthen (sys_read fd 0 65536) (\<lambda>sample.
        andthen (read_blocks (MAXDOCUMENTBYTES + 1) fd 0 (MAXDOCUMENTBYTES + 1)) (\<lambda>payload.
        andthen (permit (length payload \<le> MAXDOCUMENTBYTES)) (\<lambda>_.
        lift_res (decode_document sample payload)))))))
       sys_close) (\<lambda>(ls, f). ret (p, ls, f))))"

section \<open>Saving is atomic and stays in the home\<close>

lemma permit_Inr [simp]: "permit b e w = (Inr u, w') \<longleftrightarrow> b \<and> w' = w"
  by (auto simp: permit_def ret_def raise_def)

lemma lifted_Inr [simp]: "lift_res r e w = (Inr x, w') \<longleftrightarrow> r = Inr x \<and> w' = w"
  by (auto simp: lift_res_def)

lemma keeps_permit: "keeps (only P) (permit b)"
  by (simp add: permit_def confined.keeps_basic)

lemma keeps_validate: "keeps (only P) (validateduserdirectory d)" "keeps (only P) (validateusersavetarget d name)"
  unfolding validateduserdirectory_def validateusersavetarget_def sys_lstat_def
  by (auto intro!: confined.keeps_andthen confined.keeps_except confined.keeps_look confined.keeps_basic keeps_permit split: option.splits)

lemma keeps_save_walk: "keeps (only P) (save_walk d cs)"
  by (induction cs arbitrary: d)
    (auto intro!: confined.keeps_andthen confined.keeps_except confined.keeps_look confined.keeps_basic keeps_validate)

lemma keeps_save_parent: "keeps (only P) (openusersaveparent user raw)"
  unfolding openusersaveparent_def
  by (auto intro!: confined.keeps_andthen confined.keeps_except confined.keeps_look confined.keeps_basic keeps_validate keeps_save_walk)

lemma keeps_stream: "P p \<Longrightarrow> keeps (only P) (stream_write p data)"
  unfolding stream_write_def
  by (intro confined.keeps_except confined.keeps_write_loop confined.keeps_basic calls_confined)

lemma keeps_fill: "P p \<Longrightarrow> keeps (only P) (fill_snapshot p ls f)"
  unfolding fill_snapshot_def writefilesnapshotstream_def
  by (auto intro!: confined.keeps_andthen confined.keeps_finally confined.keeps_foreach confined.keeps_look confined.keeps_basic keeps_permit keeps_stream)

lemma keeps_forget: "P (d @ [name]) \<Longrightarrow> keeps (only P) (forget_file d name)"
  unfolding forget_file_def by (intro confined.keeps_except confined.keeps_basic calls_confined)

lemma reraise_Inr: "except_do m any_error (\<lambda>err. andthen c (\<lambda>_. raise err)) e w = (Inr x, w') \<longleftrightarrow> m e w = (Inr x, w')"
  by (auto simp: except_do_def any_error_def andthen_def raise_def split: prod.splits sum.splits)

lemma opendir_Inr: "sys_opendir q e w = (Inr r, w1) \<Longrightarrow> r = q"
  by (auto simp: sys_opendir_def run_simps look_dir_def split: option.splits if_splits)

lemma walk_Inr: "save_walk d cs e w = (Inr p, w') \<Longrightarrow> p = d @ cs"
proof (induction cs arbitrary: d w)
  case (Cons c cs)
  obtain child w1 where c: "andthen (sys_opendir (d @ [c])) (\<lambda>child.
        andthen (except_do (validateduserdirectory child) any_error (\<lambda>err. andthen sys_close (\<lambda>_. raise err))) (\<lambda>_.
        andthen sys_close (\<lambda>_. ret child))) e w = (Inr child, w1)" "save_walk child cs e w1 = (Inr p, w')"
    using Cons.prems unfolding save_walk.simps andthen_Inr reraise_Inr by blast
  then have "child = d @ [c]" unfolding andthen_Inr ret_Inr using opendir_Inr by metis
  then show ?case using Cons.IH [OF c(2)] by simp
qed simp

lemma save_parent_Inr:
  assumes "openusersaveparent user raw e w = (Inr (p, d, name), w')"
  obtains home where "usersavepath user raw = Inr (p, home, drop (length home) p)" "p = d @ [name]" "starts_with home d"
proof -
  obtain p' home parts w1 d' w2 d2 where u: "usersavepath user raw = Inr (p', home, parts)" "sys_opendir home e w1 = (Inr d', w2)"
      "save_walk d' (butlast parts) e d2 = (Inr d, w')" "p = p'" "name = last parts"
    using assms unfolding openusersaveparent_def andthen_Inr by (auto simp: run_simps)
  have pr: "parts = drop (length home) p" "starts_with home p" "parts \<noteq> []"
    using u(1,4) by (auto simp: usersavepath_def rbind_Inr Let_def split: if_splits)
  have d: "d = home @ butlast parts" using walk_Inr [OF u(3)] opendir_Inr [OF u(2)] by simp
  have "p = home @ parts" using pr(1,2) by (metis append_take_drop_id starts_with_def)
  then have "p = d @ [name]" using d u(5) pr(3) by simp
  then show ?thesis using that u(1,4) pr(1) d by simp
qed

text \<open>What a completed stream has written.\<close>

lemma stream_Inr:
  assumes "stream_write p data e w = (Inr u, w')" "w_fs w p = Some n" "n_kind n = Regular old"
  shows "w_fs w' p = Some (n\<lparr>n_kind := Regular (old @ data)\<rparr>)"
proof -
  have "write_loop (length data) p data e w = (Inr u, w')"
    using assms(1) by (auto simp: stream_write_def except_do_def any_error_def raise_def split: prod.splits sum.splits)
  then show ?thesis using write_loop_Inr assms(2,3) by blast
qed

lemma pieces_Inr:
  "foreach pieces (\<lambda>piece. andthen (lift_res (encode_text enc piece)) (stream_write p)) e w = (Inr u, w') \<Longrightarrow>
    w_fs w p = Some n \<Longrightarrow> n_kind n = Regular old \<Longrightarrow>
    \<exists>data. encode_text enc (concat pieces) = Inr data \<and> w_fs w' p = Some (n\<lparr>n_kind := Regular (old @ data)\<rparr>)"
proof (induction pieces arbitrary: w n old)
  case Nil
  then show ?case by (cases n) (simp add: run_simps)
next
  case (Cons piece pieces)
  then obtain b w1 u1 where b: "encode_text enc piece = Inr b" "stream_write p b e w = (Inr u1, w1)"
      "foreach pieces (\<lambda>piece. andthen (lift_res (encode_text enc piece)) (stream_write p)) e w1 = (Inr u, w')"
    by (auto simp: andthen_Inr)
  obtain data where "encode_text enc (concat pieces) = Inr data" "w_fs w' p = Some (n\<lparr>n_kind := Regular ((old @ b) @ data)\<rparr>)"
    using Cons.IH [OF b(3) stream_Inr [OF b(2) Cons.prems(2,3)]] by auto
  then show ?case using b(1) by (simp add: encode_append rbind_def)
qed

lemma snapshot_Inr:
  assumes "fill_snapshot p ls f e w = (Inr u, w')" "w_fs w p = Some n" "n_kind n = Regular []"
  shows "\<exists>data. document_bytes f ls = Inr data \<and> w_fs w' p = Some (n\<lparr>n_kind := Regular data\<rparr>)"
proof -
  let ?mark = "if FILE_BOM f then encodingbom (FILE_ENCODING f) else []"
  obtain w1 u1 w2 u2 w3 u3 w4 where r: "(if FILE_BOM f then stream_write p (encodingbom (FILE_ENCODING f)) else ret ()) e w1 = (Inr u1, w2)"
      "foreach (line_pieces (separator f) ls) (\<lambda>piece. andthen (lift_res (encode_text (FILE_ENCODING f) piece)) (stream_write p)) e w2 = (Inr u2, w3)"
      "sys_fsync p e w3 = (Inr u3, w4)" "w_fs w1 = w_fs w" "w_fs w' = w_fs w4"
    using assms(1) by (auto simp: fill_snapshot_def writefilesnapshotstream_def run_simps sys_fstat_def)
  have "w_fs w2 p = Some (n\<lparr>n_kind := Regular ?mark\<rparr>)"
    using stream_Inr [of p "encodingbom (FILE_ENCODING f)" e w1 u1 w2] r(1,4) assms(2,3) by (cases n) (auto split: if_splits)
  from pieces_Inr [OF r(2) this] obtain data where "encode_text (FILE_ENCODING f) (concat (line_pieces (separator f) ls)) = Inr data"
      "w_fs w3 p = Some (n\<lparr>n_kind := Regular (?mark @ data)\<rparr>)" by auto
  moreover have "w_fs w4 = w_fs w3" using r(3) by (auto simp: sys_fsync_def run_simps)
  ultimately show ?thesis using r(5) by (auto simp: document_bytes_def rbind_def)
qed


text \<open>What the target holds after a complete write.\<close>

definition saved_node :: "env \<Rightarrow> format \<Rightarrow> pystr list \<Rightarrow> node option \<Rightarrow> node option" where
  "saved_node e f ls old = (case document_bytes f ls of Inr data \<Rightarrow> Some (new_node e (Regular data) 384) | Inl _ \<Rightarrow> old)"

lemma whole_quiet: "keeps (only (\<lambda>q. q = t)) m \<Longrightarrow> t \<noteq> p \<Longrightarrow> m e w = (r, w') \<Longrightarrow> w_fs w p = old \<or> w_fs w p = new \<Longrightarrow>
    whole p old new w w' \<and> w_fs w' p = w_fs w p"
proof -
  assume k: "keeps (only (\<lambda>q. q = t)) m" "t \<noteq> p" "m e w = (r, w')" "w_fs w p = old \<or> w_fs w p = new"
  have o: "only (\<lambda>q. q = t) w w'" using keepsD [OF k(1,3)] .
  then show ?thesis using whole_only [OF o, of p old new] k(2,4) by (simp add: only_def)
qed

lemma swap_whole:
  assumes "t \<noteq> name" "w_fs w (d @ [t]) = Some (new_node e (Regular []) 384)"
    and "andthen (fill_snapshot (d @ [t]) ls f) (\<lambda>_. andthen (validateusersavetarget d name) (\<lambda>_. sys_replace d t name)) e w = (r, w')"
  defines "new \<equiv> saved_node e f ls (w_fs w (d @ [name]))"
  shows "whole (d @ [name]) (w_fs w (d @ [name])) new w w'
    \<and> (r = Inr () \<longrightarrow> (\<exists>data. document_bytes f ls = Inr data) \<and> w_fs w' (d @ [name]) = new)"
proof -
  let ?p = "d @ [name]" and ?t = "d @ [t]"
  have tp: "?t \<noteq> ?p" using assms(1) by simp
  obtain r1 w1 where f: "fill_snapshot ?t ls f e w = (r1, w1)" by fastforce
  have f': "whole ?p (w_fs w ?p) new w w1" "w_fs w1 ?p = w_fs w ?p" using whole_quiet [OF keeps_fill tp f, of "w_fs w ?p" new] by simp_all
  show ?thesis
  proof (cases r1)
    case (Inl err)
    then show ?thesis using assms(3) f f' by (auto simp: andthen_def)
  next
    case (Inr u)
    obtain data where data: "document_bytes f ls = Inr data" "w_fs w1 ?t = Some (new_node e (Regular data) 384)"
      using snapshot_Inr [OF f [unfolded Inr] assms(2)] by (auto simp: new_node_def)
    have new: "new = Some (new_node e (Regular data) 384)" by (simp add: new_def saved_node_def data)
    obtain r2 w2 where v: "validateusersavetarget d name e w1 = (r2, w2)" by fastforce
    have v': "whole ?p (w_fs w ?p) new w w2" "w_fs w2 ?p = w_fs w ?p"
      using whole_quiet [OF keeps_validate(2) tp v, of "w_fs w ?p" new] f' whole_trans by auto
    have t2: "w_fs w2 ?t = w_fs w1 ?t" using keepsD [OF keeps_validate(2) v, of "\<lambda>_. False"] by (simp add: only_def)
    show ?thesis
    proof (cases r2)
      case (Inl err)
      then show ?thesis using assms(3) f v Inr v' by (auto simp: andthen_def)
    next
      case (Inr u2)
      have s: "sys_replace d t name e w2 = (r, w')" using assms(3) f v \<open>r1 = Inr u\<close> Inr by (simp add: andthen_def)
      have "whole ?p (w_fs w ?p) new w2 w' \<and> (r = Inr () \<longrightarrow> w_fs w' ?p = new)"
        using sys_replace_cases [OF s] t2 data(2) new v'(2) by (auto simp: whole_def)
      then show ?thesis using whole_trans [OF v'(1)] data(1) by blast
    qed
  qed
qed

lemma reraise_cases:
  assumes "except_do m any_error (\<lambda>err. andthen c (\<lambda>_. raise err)) e w = (r, w')"
  obtains r1 w1 where "m e w = (r1, w1)" "\<And>x. r = Inr x \<Longrightarrow> r1 = Inr x \<and> w' = w1"
    "(\<exists>rc. c e w1 = (rc, w')) \<or> w' = w1"
  using assms by (cases "m e w"; cases "fst (m e w)") (auto simp: except_do_def any_error_def andthen_def raise_def split: prod.splits sum.splits)

lemma replace_target_whole:
  assumes "t \<noteq> name" "replace_target d t name ls f e w = (r, w')"
  defines "new \<equiv> saved_node e f ls (w_fs w (d @ [name]))"
  shows "whole (d @ [name]) (w_fs w (d @ [name])) new w w'
    \<and> (r = Inr () \<longrightarrow> (\<exists>data. document_bytes f ls = Inr data) \<and> w_fs w' (d @ [name]) = new)"
proof -
  let ?p = "d @ [name]" and ?t = "d @ [t]" and ?whole = "whole (d @ [name]) (w_fs w (d @ [name])) new w"
  have tp: "?t \<noteq> ?p" using assms(1) by simp
  obtain r1 w1 where v: "validateusersavetarget d name e w = (r1, w1)" by fastforce
  have v': "?whole w1" "w_fs w1 ?p = w_fs w ?p" using whole_quiet [OF keeps_validate(2) tp v, of "w_fs w ?p" new] by simp_all
  obtain r2 w2 where c: "sys_create d t 384 e w1 = (r2, w2)" by fastforce
  have "keeps (only (\<lambda>q. q = ?t)) (sys_create d t 384)" by (intro calls_confined) simp
  from whole_quiet [OF this tp c, of "w_fs w ?p" new] have c': "?whole w2" "w_fs w2 ?p = w_fs w ?p" using v' whole_trans by auto
  show ?thesis
  proof (cases "\<exists>x y. r1 = Inr x \<and> r2 = Inr y")
    case False
    then have "\<exists>err. (r = Inl err \<and> w' = w1) \<or> (r = Inl err \<and> w' = w2)"
      using assms(2) v c by (cases r1; cases r2) (auto simp: replace_target_def andthen_def)
    then show ?thesis using v' c' by auto
  next
    case True
    have q: "w_fs w2 ?t = Some (new_node e (Regular []) 384)" "r2 = Inr ?t" using sys_create_Inr [of d t 384 e w1] c True by auto
    let ?B = "andthen (fill_snapshot ?t ls f) (\<lambda>_. andthen (validateusersavetarget d name) (\<lambda>_. sys_replace d t name))"
    obtain rx wx where x: "except_do ?B any_error (\<lambda>err. andthen (forget_file d t) (\<lambda>_. raise err)) e w2 = (rx, wx)" by fastforce
    obtain rb wb where b: "?B e w2 = (rb, wb)" "rx = Inr () \<Longrightarrow> rb = Inr () \<and> wx = wb" "(\<exists>rc. forget_file d t e wb = (rc, wx)) \<or> wx = wb"
      by (rule reraise_cases [OF x]) blast
    have b': "?whole wb" "rb = Inr () \<longrightarrow> (\<exists>data. document_bytes f ls = Inr data) \<and> w_fs wb ?p = new"
      using swap_whole [OF assms(1) q(1) b(1)] c' whole_trans unfolding new_def by auto
    have k: "keeps (only (\<lambda>q. q = ?t)) (forget_file d t)" by (intro keeps_forget) simp
    have forgotten: "?whole wx" using b(3)
    proof
      assume "\<exists>rc. forget_file d t e wb = (rc, wx)"
      then obtain rc where rc: "forget_file d t e wb = (rc, wx)" by blast
      have "w_fs wb ?p = w_fs w ?p \<or> w_fs wb ?p = new" using b'(1) by (simp add: whole_def)
      from whole_quiet [OF k tp rc this] show ?thesis using whole_trans [OF b'(1)] by blast
    qed (use b'(1) in simp)
    then have x': "?whole wx" "rx = Inr () \<longrightarrow> (\<exists>data. document_bytes f ls = Inr data) \<and> w_fs wx ?p = new"
      using b(2) b'(2) forgotten by auto
    have "w_fs w' = w_fs wx \<and> w_past w' = w_past wx \<and> (r = Inr () \<longrightarrow> rx = Inr ())"
      using assms(2) v c x True q(2)
      by (cases rx) (auto simp: replace_target_def andthen_def sys_fsync_def syscall_def split: if_splits)
    then show ?thesis using x' by (simp add: whole_def)
  qed
qed


text \<open>The whole save, whatever fails on the way.\<close>

definition in_home :: "rpath \<Rightarrow> path \<Rightarrow> bool" where
  "in_home home q \<longleftrightarrow> starts_with home q \<and> q \<noteq> home"

lemma keeps_replace_target:
  assumes "P (d @ [t])" "P (d @ [name])"
  shows "keeps (only P) (replace_target d t name ls f)"
proof -
  have create: "keeps (only P) (sys_create d t 384)" using assms(1) by (intro calls_confined)
  have rest: "keeps (only P) (except_do (andthen (fill_snapshot (d @ [t]) ls f) (\<lambda>_.
        andthen (validateusersavetarget d name) (\<lambda>_. sys_replace d t name)))
       any_error (\<lambda>err. andthen (forget_file d t) (\<lambda>_. raise err)))"
    using assms by (intro confined.keeps_andthen confined.keeps_except keeps_fill keeps_validate keeps_forget confined.keeps_basic calls_confined)
  show ?thesis
    unfolding replace_target_def keeps_iff
  proof (intro allI confined.at_andthen)
    show "keeps_at (only P) e (validateusersavetarget d name)" "keeps_at (only P) e (sys_create d t 384)" for e
      using keeps_validate(2) create by (simp_all add: keeps_iff)
    show "keeps_at (only P) e (except_do (andthen (fill_snapshot p ls f) (\<lambda>_. andthen (validateusersavetarget d name) (\<lambda>_. sys_replace d t name)))
       any_error (\<lambda>err. andthen (forget_file d t) (\<lambda>_. raise err)))" if "sys_create d t 384 e w = (Inr p, w1)" for e w p w1
      using sys_create_Inr [OF that] rest by (simp add: keeps_iff)
    show "keeps_at (only P) e (sys_fsync d)" for e using confined.keeps_look(4) by (simp add: keeps_iff)
  qed
qed

lemma save_run:
  assumes "writeuserfilesnapshot user raw ls f e w = (r, w')" "usersavepath user raw = Inr (p, home, parts)"
    and "last p \<notin> range (snapshot_name (e_pid e))"
  shows "whole p (w_fs w p) (saved_node e f ls (w_fs w p)) w w' \<and> only (in_home home) w w'
    \<and> (r = Inr q \<longrightarrow> q = p \<and> (\<exists>data. document_bytes f ls = Inr data) \<and> w_fs w' p = saved_node e f ls (w_fs w p))"
proof -
  let ?new = "saved_node e f ls (w_fs w p)"
  obtain ro w1 where o: "openusersaveparent user raw e w = (ro, w1)" by fastforce
  have o': "only P w w1" for P using keepsD [OF keeps_save_parent o] .
  have fs1: "w_fs w1 = w_fs w" using o' [of "\<lambda>_. False"] by (simp add: only_def fun_eq_iff)
  have wh1: "whole p (w_fs w p) ?new w w1" by (rule whole_only [OF o' [of "\<lambda>_. False"]]) auto
  show ?thesis
  proof (cases ro)
    case (Inl err)
    then have "r = Inl err" "w' = w1" using assms(1) o by (simp_all add: writeuserfilesnapshot_def andthen_def)
    then show ?thesis using o' wh1 by simp
  next
    case (Inr v)
    obtain p' d name where v: "v = (p', d, name)" by (cases v) auto
    obtain home' where pr: "usersavepath user raw = Inr (p', home', drop (length home') p')" "p' = d @ [name]" "starts_with home' d"
      using save_parent_Inr o Inr v by blast
    then have p: "p = d @ [name]" "p' = p" "starts_with home d" using assms(2) by auto
    let ?t = "snapshot_name (e_pid e) (e_random e (w_calls w1) 16)"
    have t: "?t \<noteq> name" using assms(3) p(1) by auto
    obtain rt w2 where m: "replace_target d ?t name ls f e (tick w1) = (rt, w2)" by fastforce
    have run: "w_fs w' = w_fs w2" "w_past w' = w_past w2" "r = Inr q \<longrightarrow> q = p \<and> rt = Inr ()"
      using assms(1) o Inr v m p(2) by (auto simp: writeuserfilesnapshot_def andthen_def finally_do_def sys_urandom_def ret_def split: sum.splits)
    have in_d: "in_home home (d @ [x])" for x using p(3) by (auto simp: in_home_def starts_with_iff)
    have "only (in_home home) (tick w1) w2" using keepsD [OF keeps_replace_target [of "in_home home"] m] in_d by simp
    moreover have "only (in_home home) w (tick w1)" using o' [of "in_home home"] by (simp add: only_def)
    ultimately have "only (in_home home) w w2" using only_trans by blast
    moreover have "whole p (w_fs w p) ?new (tick w1) w2 \<and> (rt = Inr () \<longrightarrow> (\<exists>data. document_bytes f ls = Inr data) \<and> w_fs w2 p = ?new)"
      using replace_target_whole [OF t m] p(1) fs1 by simp
    ultimately show ?thesis using whole_trans [OF wh1, of w2] run by (auto simp: whole_def only_def)
  qed
qed

end
