(* ===== verification/Write_App.thy ===== *)
theory Write_App
  imports Write_Ops Write_Save
begin

text \<open>
  The running editor (\<open>write.py\<close>): its document and the file it belongs to, one file operation at a time in the
  background, and the dialogs that guard unsaved changes.  The window server opens dialogs and pickers
  (\<open>ae_dialogs\<close>, \<open>ae_pickers\<close>) and answers later; answers to another dialog or picker are ignored by the code and
  are not events here.  The status line, drawing and the pointer are left out.
\<close>

section \<open>State\<close>

datatype destructive = DNew | DOpen | DExit | DRecent pystr

datatype dialog = ConfirmUnsaved destructive | OpenPath | SavePath | FindText | ReplaceFind bool | ReplaceWith bool | GotoLine

datatype pickkind = PickOpen | PickSave

text \<open>What a worker is started with, and the result it leaves for \<open>pollfileio\<close>.\<close>

datatype job = LoadJob pystr | SaveJob pystr "pystr list" int format

datatype outcome = LoadDone rpath "pystr list" format | LoadFailed | SaveDone rpath int | SaveFailed

record app =
  ed :: editor
  FILE_PATH :: "pystr option"
  FILE_NAME :: pystr
  fmt :: format
  RECENT_FILES :: "pystr list"
  FILE_IO_THREAD :: "job option"
  FILE_IO_RESULT :: "outcome option"
  AFTER_SAVE_ACTION :: "destructive option"
  PENDING_DESTRUCTIVE_ACTION :: "destructive option"
  DIALOG_ACTION :: "dialog option"
  PICKER_PENDING :: "pickkind option"
  APP_RUNNING :: bool

record aenv =
  ae_write :: wenv
  ae_user :: "pystr res"
  ae_cwd :: rpath
  ae_dialogs :: bool
  ae_pickers :: bool
  ae_isfile :: "pystr \<Rightarrow> bool"
  ae_int :: "pystr \<Rightarrow> int option"

section \<open>Files in the background\<close>

definition RECENT_FILE_LIMIT :: nat where "RECENT_FILE_LIMIT = 8"

definition addrecentfile :: "aenv \<Rightarrow> pystr \<Rightarrow> app \<Rightarrow> app" where
  "addrecentfile e p a =
     (let v = path_text (abspath (ae_cwd e) p)
      in a\<lparr>RECENT_FILES := take RECENT_FILE_LIMIT (v # filter (\<lambda>x. path_text (abspath (ae_cwd e) x) \<noteq> v) (RECENT_FILES a))\<rparr>)"

definition startfileio :: "job \<Rightarrow> app \<Rightarrow> bool \<times> app" where
  "startfileio j a = (if FILE_IO_THREAD a \<noteq> None then (False, a) else (True, a\<lparr>FILE_IO_RESULT := None, FILE_IO_THREAD := Some j\<rparr>))"

text \<open>The worker: it uses what it was started with and posts its result at the end.\<close>

definition worker :: "aenv \<Rightarrow> job \<Rightarrow> outcome io" where
  "worker e j = (case j of
     LoadJob p \<Rightarrow> except_do (andthen (readfilepayload p) (\<lambda>(q, ls, f). ret (LoadDone q ls f))) any_error (\<lambda>_. ret LoadFailed)
   | SaveJob p ls revision f \<Rightarrow>
       except_do (andthen (writeuserfilesnapshot (ae_user e) p ls f) (\<lambda>q. ret (SaveDone q revision))) any_error (\<lambda>_. ret SaveFailed))"

definition fileiocomplete :: "outcome \<Rightarrow> app \<Rightarrow> app" where
  "fileiocomplete r a = a\<lparr>FILE_IO_RESULT := Some r\<rparr>"

definition loaddocumentfromfile :: "pystr \<Rightarrow> app \<Rightarrow> app" where
  "loaddocumentfromfile p a = (if p = [] then a else snd (startfileio (LoadJob p) a))"

definition savedocumenttofile :: "aenv \<Rightarrow> pystr \<Rightarrow> app \<Rightarrow> bool \<times> app" where
  "savedocumenttofile e raw a = (case usersavepath (ae_user e) raw of
     Inl _ \<Rightarrow> (False, a)
   | Inr (p, _, _) \<Rightarrow> startfileio (SaveJob (path_text p) (DOC_LINES (ed a)) (CURRENT_REVISION (hs (ed a))) (fmt a)) a)"

section \<open>Dialogs and pickers\<close>

definition opendialog :: "aenv \<Rightarrow> dialog \<Rightarrow> app \<Rightarrow> app" where
  "opendialog e d a = (if DIALOG_ACTION a \<noteq> None \<or> \<not> ae_dialogs e then a else a\<lparr>DIALOG_ACTION := Some d\<rparr>)"

definition startfilepicker :: "aenv \<Rightarrow> pickkind \<Rightarrow> app \<Rightarrow> bool \<times> app" where
  "startfilepicker e kind a =
     (if PICKER_PENDING a \<noteq> None then (True, a)
      else if \<not> ae_pickers e then (False, a)
      else (True, a\<lparr>PICKER_PENDING := Some kind\<rparr>))"

definition startopenpathprompt :: "aenv \<Rightarrow> app \<Rightarrow> app" where
  "startopenpathprompt e a = (case startfilepicker e PickOpen a of (True, a1) \<Rightarrow> a1 | (False, a1) \<Rightarrow> opendialog e OpenPath a1)"

definition startsavepathprompt :: "aenv \<Rightarrow> app \<Rightarrow> app" where
  "startsavepathprompt e a = (case startfilepicker e PickSave a of (True, a1) \<Rightarrow> a1 | (False, a1) \<Rightarrow> opendialog e SavePath a1)"

definition canceldestructiveflow :: "app \<Rightarrow> app" where
  "canceldestructiveflow a = a\<lparr>AFTER_SAVE_ACTION := None, PENDING_DESTRUCTIVE_ACTION := None\<rparr>"

text \<open>The file association that \<open>initialisedocument\<close> resets with the document.\<close>

definition new_document :: "aenv \<Rightarrow> app \<Rightarrow> app" where
  "new_document e a = a\<lparr>ed := initialisedocument (ae_write e) (ed a), FILE_PATH := None, FILE_NAME := cps ''untitled.txt'',
     fmt := \<lparr>FILE_ENCODING = Utf8, FILE_BOM = False, FILE_NEWLINE = [10]\<rparr>\<rparr>"

definition performdestructiveaction :: "aenv \<Rightarrow> destructive \<Rightarrow> app \<Rightarrow> app" where
  "performdestructiveaction e d a = (case d of
     DNew \<Rightarrow> (let a1 = new_document e a in a1\<lparr>ed := clearselection (ed a1)\<rparr>)
   | DOpen \<Rightarrow> startopenpathprompt e a
   | DExit \<Rightarrow> a\<lparr>APP_RUNNING := False\<rparr>
   | DRecent p \<Rightarrow> loaddocumentfromfile p a)"

definition requestdestructiveaction :: "aenv \<Rightarrow> destructive \<Rightarrow> app \<Rightarrow> app" where
  "requestdestructiveaction e d a =
     (if \<not> IS_DIRTY (hs (ed a)) then performdestructiveaction e d a
      else opendialog e (ConfirmUnsaved d) (a\<lparr>PENDING_DESTRUCTIVE_ACTION := Some d\<rparr>))"

definition completeaftersave :: "aenv \<Rightarrow> app \<Rightarrow> app" where
  "completeaftersave e a = (case AFTER_SAVE_ACTION a of
     None \<Rightarrow> a
   | Some d \<Rightarrow> if IS_DIRTY (hs (ed a)) then a else performdestructiveaction e d (canceldestructiveflow a))"

definition save_or_ask :: "aenv \<Rightarrow> app \<Rightarrow> app" where
  "save_or_ask e a = (case FILE_PATH a of
     None \<Rightarrow> startsavepathprompt e a
   | Some p \<Rightarrow> if p = [] then startsavepathprompt e a else snd (savedocumenttofile e p a))"

section \<open>The results of file operations\<close>

text \<open>The revision that was written is the saved one, when no other has become current since.\<close>

definition finish_save :: "int \<Rightarrow> editor \<Rightarrow> editor" where
  "finish_save revision s =
     (if CURRENT_REVISION (hs s) = revision then s\<lparr>hs := (hs s)\<lparr>SAVED_REVISION := revision, IS_DIRTY := False\<rparr>\<rparr> else s)"

definition pollfileio :: "aenv \<Rightarrow> app \<Rightarrow> app" where
  "pollfileio e a0 = (case FILE_IO_RESULT a0 of
     None \<Rightarrow> a0
   | Some r \<Rightarrow>
       (let a = a0\<lparr>FILE_IO_RESULT := None, FILE_IO_THREAD := None\<rparr> in
        case r of
          LoadFailed \<Rightarrow> a
        | SaveFailed \<Rightarrow> canceldestructiveflow a
        | LoadDone p ls f \<Rightarrow>
            (let a1 = a\<lparr>ed := loaddocumentfromlines (ae_write e) ls True (ed a), fmt := f\<lparr>FILE_NEWLINE := separator f\<rparr>,
                   FILE_PATH := Some (path_text p), FILE_NAME := basename (path_text p)\<rparr>;
                 a2 = addrecentfile e (path_text p) a1
             in a2\<lparr>ed := ensurecursorvisible (ae_write e) (ed a2)\<rparr>)
        | SaveDone p revision \<Rightarrow>
            (let a1 = a\<lparr>FILE_PATH := Some (path_text p), FILE_NAME := basename (path_text p)\<rparr>;
                 a2 = (if CURRENT_REVISION (hs (ed a1)) = revision then a1\<lparr>ed := finish_save revision (ed a1)\<rparr>
                       else canceldestructiveflow a1)
             in completeaftersave e (addrecentfile e (path_text p) a2))))"

definition on_ed :: "(editor \<Rightarrow> editor) \<Rightarrow> app \<Rightarrow> app" where
  "on_ed f a = a\<lparr>ed := f (ed a)\<rparr>"

text \<open>\<open>result\<close> and \<open>v\<close>: the button and the text of the answer.\<close>

definition handledialogresult :: "aenv \<Rightarrow> pystr \<Rightarrow> pystr \<Rightarrow> app \<Rightarrow> app" where
  "handledialogresult e result v a0 = (case DIALOG_ACTION a0 of
     None \<Rightarrow> a0
   | Some d \<Rightarrow>
       (let a = a0\<lparr>DIALOG_ACTION := None\<rparr>; w = ae_write e in
        if result = cps ''cancel'' then (case d of ConfirmUnsaved _ \<Rightarrow> canceldestructiveflow a | SavePath \<Rightarrow> canceldestructiveflow a | _ \<Rightarrow> a)
        else (case d of
          ConfirmUnsaved payload \<Rightarrow>
            (if result = cps ''discard'' then performdestructiveaction e payload (a\<lparr>PENDING_DESTRUCTIVE_ACTION := None\<rparr>)
             else if result = cps ''save'' then
               (let a1 = a\<lparr>AFTER_SAVE_ACTION := Some payload\<rparr> in
                case FILE_PATH a1 of
                  None \<Rightarrow> startsavepathprompt e a1
                | Some p \<Rightarrow> if p = [] then startsavepathprompt e a1 else completeaftersave e (snd (savedocumenttofile e p a1)))
             else a)
        | _ \<Rightarrow>
            (if result \<noteq> cps ''ok'' then a
             else (case d of
               OpenPath \<Rightarrow> loaddocumentfromfile v a
             | SavePath \<Rightarrow> completeaftersave e (snd (savedocumenttofile e v a))
             | FindText \<Rightarrow> on_ed (\<lambda>s. snd (findnext w False (Some v) (s\<lparr>FIND_QUERY := v\<rparr>))) a
             | ReplaceFind b \<Rightarrow> opendialog e (ReplaceWith b) (on_ed (\<lambda>s. s\<lparr>FIND_QUERY := v\<rparr>) a)
             | ReplaceWith b \<Rightarrow>
                 on_ed (\<lambda>s. if b then snd (replaceall w (s\<lparr>REPLACE_QUERY := v\<rparr>)) else snd (replaceone w (s\<lparr>REPLACE_QUERY := v\<rparr>))) a
             | GotoLine \<Rightarrow> on_ed (\<lambda>s. snd (gotoline w (ae_int e v) s)) a
             | ConfirmUnsaved _ \<Rightarrow> a)))))"

definition handlepickerresult :: "aenv \<Rightarrow> bool \<Rightarrow> pystr list \<Rightarrow> app \<Rightarrow> app" where
  "handlepickerresult e accepted paths a0 = (case PICKER_PENDING a0 of
     None \<Rightarrow> a0
   | Some kind \<Rightarrow>
       (let a = a0\<lparr>PICKER_PENDING := None\<rparr> in
        if \<not> accepted \<or> paths = [] then
          (if kind = PickSave \<and> AFTER_SAVE_ACTION a \<noteq> None then canceldestructiveflow a else a)
        else
          (let p = path_text (abspath (ae_cwd e) (hd paths)) in
           case kind of
             PickOpen \<Rightarrow> if ae_isfile e p then loaddocumentfromfile p a else a
           | PickSave \<Rightarrow> snd (savedocumenttofile e p a))))"

section \<open>Events\<close>

text \<open>What \<open>handlekey\<close> passes on.  Printing, zooming and the clipboard leave the document and its file alone.\<close>

definition serve_request :: "aenv \<Rightarrow> request \<Rightarrow> app \<Rightarrow> app" where
  "serve_request e r a = (case r of
     AskSave \<Rightarrow> startsavepathprompt e a
   | AskFind \<Rightarrow> opendialog e FindText a
   | AskReplace b \<Rightarrow> opendialog e (ReplaceFind b) a
   | AskLine \<Rightarrow> opendialog e GotoLine a
   | NewDocument \<Rightarrow> requestdestructiveaction e DNew a
   | OpenDocument \<Rightarrow> requestdestructiveaction e DOpen a
   | SaveDocument \<Rightarrow> save_or_ask e a
   | _ \<Rightarrow> a)"

datatype event = KeyEvent pystr pystr mods | CloseEvent | RecentEvent nat | DropFile pystr | DropText pystr | DialogAnswer pystr pystr
  | PickerAnswer bool "pystr list" | WorkerDone outcome | Poll | DialogError | PickerError

text \<open>The window server answers that a dialog or a picker could not be shown.\<close>

definition dialog_error :: "app \<Rightarrow> app" where
  "dialog_error a = (case DIALOG_ACTION a of
     None \<Rightarrow> a
   | Some d \<Rightarrow> (let b = a\<lparr>DIALOG_ACTION := None\<rparr> in
       case d of ConfirmUnsaved _ \<Rightarrow> canceldestructiveflow b | SavePath \<Rightarrow> canceldestructiveflow b | _ \<Rightarrow> b))"

definition picker_error :: "app \<Rightarrow> app" where
  "picker_error a = (case PICKER_PENDING a of
     None \<Rightarrow> a
   | Some kind \<Rightarrow>
       (if kind = PickSave \<and> AFTER_SAVE_ACTION a \<noteq> None then canceldestructiveflow a else a)\<lparr>PICKER_PENDING := None\<rparr>)"

definition app_step :: "aenv \<Rightarrow> event \<Rightarrow> app \<Rightarrow> app" where
  "app_step e ev a = (case ev of
     KeyEvent raw st m \<Rightarrow> (let (r, s) = handlekey (ae_write e) raw st m (ed a) in serve_request e r (a\<lparr>ed := s\<rparr>))
   | CloseEvent \<Rightarrow> requestdestructiveaction e DExit a
   | RecentEvent i \<Rightarrow> if i < length (RECENT_FILES a) then requestdestructiveaction e (DRecent (RECENT_FILES a ! i)) a else a
   | DropFile p \<Rightarrow> requestdestructiveaction e (DRecent p) a
   | DropText t \<Rightarrow> if t = [] then a else on_ed (\<lambda>s. ensurecursorvisible (ae_write e) (replaceselectionwithtext (ae_write e) t s)) a
   | DialogAnswer result v \<Rightarrow> handledialogresult e result v a
   | PickerAnswer b ps \<Rightarrow> handlepickerresult e b ps a
   | WorkerDone r \<Rightarrow> if FILE_IO_THREAD a \<noteq> None \<and> FILE_IO_RESULT a = None then fileiocomplete r a else a
   | Poll \<Rightarrow> pollfileio e a
   | DialogError \<Rightarrow> dialog_error a
   | PickerError \<Rightarrow> picker_error a)"

end
