(* ===== verification/Write_Session.thy ===== *)
theory Write_Session
  imports Write_App
begin

text \<open>
  A document while it is edited: the steps that change it, and the saves that finish in between.
\<close>

section \<open>Steps\<close>

inductive edit_step :: "editor \<Rightarrow> editor \<Rightarrow> bool" where
  key: "edit_step s (snd (handlekey e raw st m s))"
| dropped: "edit_step s (ensurecursorvisible e (replaceselectionwithtext e t s))"
| found: "edit_step s (snd (findnext e b q s))"
| asked: "edit_step s (s\<lparr>FIND_QUERY := q\<rparr>)"
| asked_replace: "edit_step s (s\<lparr>REPLACE_QUERY := q\<rparr>)"
| replaced: "edit_step s (snd (replaceone e s))"
| replaced_all: "edit_step s (snd (replaceall e s))"
| went: "edit_step s (snd (gotoline e n s))"
| cased: "edit_step s (snd (transformselection e b s))"
| indented: "edit_step s (snd (handleindentation e b s))"
| scrolled: "edit_step s (scrollbylines e k s)"
| clicked: "edit_step s (caret_at r c s)"
| selected: "edit_step s (setselectionanchor r c s)"
| extended: "edit_step s (updateselectionend r c s)"
| word: "edit_step s (selectwordat e r c s)"
| line: "edit_step s (selectline r s)"

text \<open>The steps of a document: those that edit it, and saves of some revision that finish.\<close>

inductive session :: "editor \<Rightarrow> editor \<Rightarrow> bool" where
  start: "session s s"
| edited: "session s s' \<Longrightarrow> edit_step s' s'' \<Longrightarrow> session s s''"
| saved: "session s s' \<Longrightarrow> session s (finish_save r s')"

abbreviation unsaved_session :: "editor \<Rightarrow> editor \<Rightarrow> bool" where
  "unsaved_session \<equiv> edit_step\<^sup>*\<^sup>*"

text \<open>A document as \<open>loaddocumentfromlines\<close> and \<open>initialisedocument\<close> leave it.\<close>

definition just_opened :: "editor \<Rightarrow> bool" where
  "just_opened s \<longleftrightarrow> doc_ok (DOC_LINES s) \<and> hs s = historyreset (hs s)"

lemma step_continues: "edit_step s s' \<Longrightarrow> continues_doc s s'"
  by (induction rule: edit_step.induct)
    (auto intro: continues_same intro!: steps continues_refl)

lemma unsaved_continues: "unsaved_session s s' \<Longrightarrow> continues_doc s s'"
  by (induction rule: rtranclp_induct) (auto intro: continues_refl continues_trans step_continues)

section \<open>Revisions\<close>

definition names_on :: "editor \<Rightarrow> editor \<Rightarrow> bool" where
  "names_on s s' \<longleftrightarrow> (\<forall>V. past_ok V s \<longrightarrow>
     NEXT_REVISION (hs s) \<le> NEXT_REVISION (hs s') \<and> (\<exists>V'. past_ok V' s' \<and> agree (NEXT_REVISION (hs s)) V V'))"

lemma names_refl: "names_on s s"
  unfolding names_on_def agree_def by blast

lemma names_trans: "names_on s s' \<Longrightarrow> names_on s' s'' \<Longrightarrow> names_on s s''"
  unfolding names_on_def
proof (intro allI impI, goal_cases)
  case (1 V)
  then obtain V' where "past_ok V' s'" "agree (NEXT_REVISION (hs s)) V V'" by blast
  moreover from 1 this obtain V'' where "past_ok V'' s''" "agree (NEXT_REVISION (hs s')) V' V''" by blast
  ultimately show ?case using 1 agree_trans [of "NEXT_REVISION (hs s)" V V' "NEXT_REVISION (hs s')" V''] by fastforce
qed

lemma continues_names: "continues_doc s s' \<Longrightarrow> names_on s s'"
  unfolding continues_doc_def names_on_def by blast

lemma finish_names: "names_on s (finish_save r s)"
proof -
  have "past_ok V (finish_save r s) \<and> NEXT_REVISION (hs (finish_save r s)) = NEXT_REVISION (hs s)" if "past_ok V s" for V
    using that by (auto simp: finish_save_def past_ok_def getdocumenttext_def)
  then show ?thesis unfolding names_on_def agree_def by (metis order_refl)
qed

lemma session_names: "session s s' \<Longrightarrow> names_on s s'"
  by (induction rule: session.induct) (auto intro: names_refl names_trans continues_names step_continues finish_names)

lemma just_opened_past: "just_opened s \<Longrightarrow> past_ok (\<lambda>_. getdocumenttext s) s"
proof -
  assume o: "just_opened s"
  then have h: "hs s = historyreset (hs s)" by (simp add: just_opened_def)
  have "UNDO_STACK (hs s) = [] \<and> REDO_STACK (hs s) = [] \<and> CURRENT_REVISION (hs s) = 0 \<and> SAVED_REVISION (hs s) = 0
      \<and> NEXT_REVISION (hs s) = 1 \<and> \<not> IS_DIRTY (hs s)"
    by (subst h, subst h, subst h, subst h, subst h, subst h) (simp add: historyreset_def)
  then show ?thesis using o by (simp add: past_ok_def just_opened_def)
qed

lemma session_past:
  assumes "just_opened s0" "session s0 s"
  obtains V where "past_ok V s"
  using session_names [OF assms(2)] just_opened_past [OF assms(1)] unfolding names_on_def by blast

text \<open>A revision is the name of one text.\<close>

lemma revision_text:
  assumes "past_ok V s" "names_on s s'" "CURRENT_REVISION (hs s') = CURRENT_REVISION (hs s)"
  shows "DOC_LINES s' = DOC_LINES s"
proof -
  obtain V' where V': "past_ok V' s'" "agree (NEXT_REVISION (hs s)) V V'" using assms(1,2) unfolding names_on_def by blast
  have "CURRENT_REVISION (hs s) < NEXT_REVISION (hs s)" using assms(1) by (simp add: past_ok_def)
  then have "getdocumenttext s' = getdocumenttext s" using assms(1,3) V' by (simp add: past_ok_def agree_def)
  moreover have "doc_ok (DOC_LINES s)" "doc_ok (DOC_LINES s')" using assms(1) V'(1) by (simp_all add: past_ok_def)
  ultimately show ?thesis using doc_eqI by (metis getdocumenttext_def)
qed

end
