(* ===== verification/Write_Guard.thy ===== *)
theory Write_Guard
  imports Write_Session
begin

text \<open>
  Unsaved changes are given up only when the user says so, or when a file that was asked for has been loaded.
\<close>

named_theorems same_document \<open>operations that leave the document and the program alone\<close>

definition alive :: "app \<Rightarrow> editor \<times> bool" where
  "alive a = (ed a, APP_RUNNING a)"

lemma alive_iff: "alive b = alive a \<longleftrightarrow> ed b = ed a \<and> APP_RUNNING b = APP_RUNNING a"
  by (auto simp: alive_def)

lemma alive_files [same_document]:
  "alive (addrecentfile e p a) = alive a" "alive (snd (startfileio j a)) = alive a" "alive (loaddocumentfromfile p a) = alive a"
  "alive (fileiocomplete r a) = alive a" "alive (snd (savedocumenttofile e p a)) = alive a" "alive (canceldestructiveflow a) = alive a"
  by (auto simp: addrecentfile_def startfileio_def loaddocumentfromfile_def fileiocomplete_def savedocumenttofile_def
      canceldestructiveflow_def alive_def Let_def split: sum.splits)

lemma alive_dialogs [same_document]:
  "alive (opendialog e d a) = alive a" "alive (snd (startfilepicker e k a)) = alive a"
  by (auto simp: opendialog_def startfilepicker_def alive_def)

lemma alive_prompts [same_document]: "alive (startopenpathprompt e a) = alive a" "alive (startsavepathprompt e a) = alive a"
  by (auto simp: startopenpathprompt_def startsavepathprompt_def startfilepicker_def opendialog_def alive_def)

lemma alive_save [same_document]: "alive (save_or_ask e a) = alive a"
  by (simp add: save_or_ask_def same_document split: option.splits)

lemma alive_update [same_document]: "alive (a\<lparr>FILE_PATH := p, FILE_NAME := n\<rparr>) = alive a" "alive (a\<lparr>AFTER_SAVE_ACTION := d\<rparr>) = alive a"
  "alive (a\<lparr>PENDING_DESTRUCTIVE_ACTION := d\<rparr>) = alive a" "alive (a\<lparr>DIALOG_ACTION := g\<rparr>) = alive a" "alive (a\<lparr>PICKER_PENDING := k\<rparr>) = alive a"
  "alive (a\<lparr>FILE_IO_RESULT := r, FILE_IO_THREAD := t\<rparr>) = alive a"
  by (simp_all add: alive_def)

lemma alive_request: "IS_DIRTY (hs (ed a)) \<Longrightarrow> alive (requestdestructiveaction e d a) = alive a"
  by (simp add: requestdestructiveaction_def same_document)

lemma alive_complete: "IS_DIRTY (hs (ed a)) \<Longrightarrow> alive (completeaftersave e a) = alive a"
  by (simp add: completeaftersave_def split: option.splits)

lemma alive_cancelled: "AFTER_SAVE_ACTION a = None \<Longrightarrow> alive (completeaftersave e a) = alive a"
  by (simp add: completeaftersave_def)

lemma dirty_alive: "alive b = alive a \<Longrightarrow> IS_DIRTY (hs (ed b)) = IS_DIRTY (hs (ed a))"
  by (simp add: alive_iff)

text \<open>A key that asks for another document changes nothing.\<close>

lemma asking_key: "handlekey e raw st m s = (r, s') \<Longrightarrow> r = NewDocument \<or> r = OpenDocument \<Longrightarrow> s' = s"
  by (auto simp: handlekey_def shortcut_def editing_key_def Let_def split: if_splits option.splits prod.splits)

lemma alive_serve: "IS_DIRTY (hs (ed a)) \<or> r \<noteq> NewDocument \<and> r \<noteq> OpenDocument \<Longrightarrow> alive (serve_request e r a) = alive a"
  by (auto simp: serve_request_def same_document alive_request split: request.splits)


text \<open>The events that may end the life of a changed document: the answer that discards it, a file that was loaded, and
  the save of the very revision it is at.\<close>

definition gives_up :: "event \<Rightarrow> app \<Rightarrow> bool" where
  "gives_up ev a = (case ev of
     DialogAnswer result _ \<Rightarrow> result = cps ''discard'' \<and> (case DIALOG_ACTION a of Some (ConfirmUnsaved _) \<Rightarrow> True | _ \<Rightarrow> False)
   | Poll \<Rightarrow> (case FILE_IO_RESULT a of
       Some (LoadDone _ _ _) \<Rightarrow> True | Some (SaveDone _ revision) \<Rightarrow> revision = CURRENT_REVISION (hs (ed a)) | _ \<Rightarrow> False)
   | _ \<Rightarrow> False)"

definition goes_on :: "app \<Rightarrow> app \<Rightarrow> bool" where
  "goes_on a b \<longleftrightarrow> session (ed a) (ed b) \<and> APP_RUNNING b = APP_RUNNING a"

lemma goes_alive: "alive b = alive a \<Longrightarrow> goes_on a b"
  by (simp add: goes_on_def alive_iff session.start)

lemma goes_edit: "edit_step (ed a) (f (ed a)) \<Longrightarrow> goes_on a (on_ed f a)"
  by (simp add: goes_on_def on_ed_def session.edited [OF session.start])

lemma goes_two: "goes_on a b \<Longrightarrow> alive c = alive b \<Longrightarrow> goes_on a c"
  by (simp add: goes_on_def alive_iff)

lemma session_step2: "edit_step s s' \<Longrightarrow> edit_step s' s'' \<Longrightarrow> session s s''"
  by (blast intro: session.intros)

lemma poll_goes:
  assumes "\<not> gives_up Poll a"
  shows "goes_on a (pollfileio e a)"
proof (cases "FILE_IO_RESULT a")
  case None
  then show ?thesis by (simp add: pollfileio_def goes_alive)
next
  case (Some r)
  then show ?thesis using assms
    by (cases r) (auto simp: pollfileio_def gives_up_def Let_def same_document alive_cancelled canceldestructiveflow_def addrecentfile_def
        alive_iff intro!: goes_alive)
qed

lemma dialog_goes:
  assumes "\<not> gives_up (DialogAnswer result v) a" "IS_DIRTY (hs (ed a))"
  shows "goes_on a (handledialogresult e result v a)"
proof (cases "DIALOG_ACTION a")
  case None
  then show ?thesis by (simp add: handledialogresult_def goes_alive)
next
  case (Some d)
  let ?a = "a\<lparr>DIALOG_ACTION := None\<rparr>"
  have saved: "alive (completeaftersave e (snd (savedocumenttofile e p b))) = alive a" if "alive b = alive a" for p b
    using that assms(2) alive_complete [of "snd (savedocumenttofile e p b)" e] dirty_alive [of "snd (savedocumenttofile e p b)" a]
    by (simp add: same_document)
  have aa: "alive ?a = alive a" "alive (?a\<lparr>AFTER_SAVE_ACTION := x\<rparr>) = alive a" for x by (simp_all add: alive_def)
  have edits: "goes_on a (on_ed f ?a)" if "session (ed a) (f (ed a))" for f using that by (simp add: goes_on_def on_ed_def)
  show ?thesis
  proof (cases "result = cps ''cancel'' \<or> (\<exists>x. d = ConfirmUnsaved x) \<or> result \<noteq> cps ''ok''")
    case True
    have nd: "result \<noteq> cps ''discard''" if "d = ConfirmUnsaved x" for x using that assms(1) Some by (simp add: gives_up_def)
    show ?thesis
      by (rule goes_alive) (use True Some nd in \<open>cases d; auto simp: handledialogresult_def Let_def same_document aa saved simp del: cps_Cons split: option.splits\<close>)
  next
    case False
    then have ok: "result = cps ''ok''" "cps ''ok'' \<noteq> cps ''cancel''" by auto
    show ?thesis
    proof (cases d)
      case FindText
      have "session (ed a) (snd (findnext (ae_write e) False (Some v) ((ed a)\<lparr>FIND_QUERY := v\<rparr>)))"
        by (rule session_step2 [OF edit_step.asked edit_step.found])
      then show ?thesis using Some ok FindText edits by (simp add: handledialogresult_def Let_def del: cps_Cons)
    next
      case (ReplaceFind b)
      have "session (ed a) ((ed a)\<lparr>FIND_QUERY := v\<rparr>)" by (rule session.edited [OF session.start edit_step.asked])
      then have "goes_on a (on_ed (\<lambda>s. s\<lparr>FIND_QUERY := v\<rparr>) ?a)" by (rule edits)
      from goes_two [OF this] have "goes_on a (opendialog e (ReplaceWith b) (on_ed (\<lambda>s. s\<lparr>FIND_QUERY := v\<rparr>) ?a))" by (simp add: same_document)
      then show ?thesis using Some ok ReplaceFind by (simp add: handledialogresult_def Let_def del: cps_Cons)
    next
      case (ReplaceWith b)
      have "session (ed a) (if b then snd (replaceall (ae_write e) ((ed a)\<lparr>REPLACE_QUERY := v\<rparr>)) else snd (replaceone (ae_write e) ((ed a)\<lparr>REPLACE_QUERY := v\<rparr>)))"
        by (auto intro: session_step2 [OF edit_step.asked_replace] edit_step.intros)
      then show ?thesis
        using Some ok ReplaceWith edits [of "\<lambda>s. if b then snd (replaceall (ae_write e) (s\<lparr>REPLACE_QUERY := v\<rparr>)) else snd (replaceone (ae_write e) (s\<lparr>REPLACE_QUERY := v\<rparr>))"]
        by (simp add: handledialogresult_def Let_def del: cps_Cons)
    next
      case GotoLine
      have "session (ed a) (snd (gotoline (ae_write e) (ae_int e v) (ed a)))" by (rule session.edited [OF session.start edit_step.went])
      then show ?thesis using Some ok GotoLine edits [of "\<lambda>s. snd (gotoline (ae_write e) (ae_int e v) s)"]
        by (simp add: handledialogresult_def Let_def del: cps_Cons)
    qed (use Some ok False in \<open>auto simp: handledialogresult_def Let_def same_document aa saved simp del: cps_Cons intro!: goes_alive\<close>)
  qed
qed

lemma picker_goes: "goes_on a (handlepickerresult e b ps a)"
  by (rule goes_alive) (simp add: handlepickerresult_def Let_def same_document split: option.splits pickkind.splits)

lemma key_goes:
  assumes "IS_DIRTY (hs (ed a))"
  shows "goes_on a (app_step e (KeyEvent raw st m) a)"
proof -
  obtain r s where k: "handlekey (ae_write e) raw st m (ed a) = (r, s)" by fastforce
  have "edit_step (ed a) s" using edit_step.key [of "ed a" "ae_write e" raw st m] k by simp
  then have "goes_on a (a\<lparr>ed := s\<rparr>)" by (simp add: goes_on_def session.edited [OF session.start])
  moreover have "alive (serve_request e r (a\<lparr>ed := s\<rparr>)) = alive (a\<lparr>ed := s\<rparr>)"
    using asking_key [OF k] assms by (intro alive_serve) auto
  ultimately show ?thesis using k goes_two by (simp add: app_step_def)
qed

lemma app_step_goes:
  assumes "IS_DIRTY (hs (ed a))" "\<not> gives_up ev a"
  shows "goes_on a (app_step e ev a)"
proof (cases ev)
  case (DropText t)
  then show ?thesis using goes_edit [of a "\<lambda>s. ensurecursorvisible (ae_write e) (replaceselectionwithtext (ae_write e) t s)"]
    by (cases "t = []") (simp_all add: app_step_def edit_step.dropped goes_alive)
next
  case (KeyEvent raw st m)
  then show ?thesis using key_goes [OF assms(1)] by simp
next
  case (DialogAnswer result v)
  then show ?thesis using dialog_goes [of result v a e] assms by (simp add: app_step_def)
next
  case (PickerAnswer b ps)
  then show ?thesis using picker_goes by (simp add: app_step_def)
next
  case Poll
  then show ?thesis using poll_goes assms(2) by (simp add: app_step_def)
next
  case DialogError
  then show ?thesis
    by (intro goes_alive) (auto simp: app_step_def dialog_error_def alive_def canceldestructiveflow_def Let_def split: option.splits dialog.splits)
next
  case PickerError
  then show ?thesis
    by (intro goes_alive) (auto simp: app_step_def picker_error_def alive_def canceldestructiveflow_def split: option.splits)
qed (use assms(1) in \<open>auto simp: app_step_def same_document alive_request intro!: goes_alive\<close>)

end
