(* ===== verification/Write_Tree.thy ===== *)
theory Write_Tree
  imports Write_Wrap
begin

text \<open>
  The binary indexed tree holds partial sums: its prefix sums are those of the counts, and its search finds the row
  that an index falls in.
\<close>

section \<open>The lowest bit\<close>

lemma lowbit_power: "lowbit (2 ^ k * m) = 2 ^ k * lowbit m"
  by (induction k) (simp_all add: lowbit_double mult.assoc)

lemma lowbit_form: "0 < n \<Longrightarrow> \<exists>k q. n = 2 ^ k * (2 * q + 1) \<and> lowbit n = 2 ^ k"
proof (induction n rule: less_induct)
  case (less n)
  show ?case
  proof (cases "even n")
    case True
    then obtain m where m: "n = 2 * m" by blast
    then obtain k q where "m = 2 ^ k * (2 * q + 1)" "lowbit m = 2 ^ k" using less.IH [of m] less.prems by auto
    then have "n = 2 ^ Suc k * (2 * q + 1)" "lowbit n = 2 ^ Suc k" using m lowbit_double [of m] by simp_all
    then show ?thesis by blast
  next
    case False
    then obtain q where "n = 2 * q + 1" by (rule oddE)
    then have "n = 2 ^ 0 * (2 * q + 1)" "lowbit n = 2 ^ 0" using False by (simp_all add: lowbit_odd)
    then show ?thesis by blast
  qed
qed

lemma lowbit_add: "0 < j \<Longrightarrow> j < 2 ^ k \<Longrightarrow> lowbit (2 ^ k * m + j) = lowbit j"
proof (induction k arbitrary: j)
  case (Suc k)
  show ?case
  proof (cases "even j")
    case True
    then obtain i where i: "j = 2 * i" by blast
    then have "2 ^ Suc k * m + j = 2 * (2 ^ k * m + i)" by simp
    then have "lowbit (2 ^ Suc k * m + j) = 2 * lowbit (2 ^ k * m + i)" by (simp only: lowbit_double)
    also have "\<dots> = 2 * lowbit i" using Suc i by simp
    finally show ?thesis using i lowbit_double by simp
  next
    case False
    then show ?thesis by (simp add: lowbit_odd)
  qed
qed simp

text \<open>The rows that a place in the tree sums up.\<close>

definition covers :: "nat \<Rightarrow> nat \<Rightarrow> bool" where
  "covers i r \<longleftrightarrow> i - lowbit i \<le> r \<and> r < i"

lemma covers_first: "covers (Suc r) r"
  using lowbit_pos [of "Suc r"] by (simp add: covers_def)

lemma covers_next: "covers c r \<Longrightarrow> covers (c + lowbit c) r"
proof -
  assume c: "covers c r"
  then obtain k q where k: "c = 2 ^ k * (2 * q + 1)" "lowbit c = 2 ^ k" using lowbit_form [of c] by (auto simp: covers_def)
  have s: "c + lowbit c = 2 ^ Suc k * (q + 1)" using k by (simp add: algebra_simps)
  have "2 ^ Suc k \<le> lowbit (c + lowbit c)" using lowbit_pos [of "q + 1"] unfolding s lowbit_power by simp
  then have "c + lowbit c - lowbit (c + lowbit c) \<le> c - lowbit c" using k by simp
  then show ?thesis using c by (simp add: covers_def)
qed

lemma covers_between: "c < i \<Longrightarrow> i < c + lowbit c \<Longrightarrow> covers c r \<Longrightarrow> \<not> covers i r"
proof -
  assume a: "c < i" "i < c + lowbit c" "covers c r"
  then obtain k q where k: "c = 2 ^ k * (2 * q + 1)" "lowbit c = 2 ^ k" using lowbit_form [of c] by (auto simp: covers_def)
  define j where "j = i - c"
  have j: "i = c + j" "0 < j" "j < 2 ^ k" using a k by (auto simp: j_def)
  have "lowbit i = lowbit j" using lowbit_add [OF j(2,3), of "2 * q + 1"] j(1) k(1) by simp
  then have "c \<le> i - lowbit i" using j(1) lowbit_le [of j] by simp
  then show ?thesis using a(3) by (auto simp: covers_def)
qed

section \<open>Sums\<close>

definition tree_ok :: "(nat \<Rightarrow> int) \<Rightarrow> nat \<Rightarrow> int list \<Rightarrow> bool" where
  "tree_ok f n t \<longleftrightarrow> length t = n + 1 \<and> (\<forall>i. 0 < i \<and> i \<le> n \<longrightarrow> t ! i = sum f {i - lowbit i..<i})"

lemma tree_sum_eq: "tree_ok f n t \<Longrightarrow> k \<le> n \<Longrightarrow> tree_sum t k = sum f {..<k}"
proof (induction k rule: less_induct)
  case (less k)
  show ?case
  proof (cases "k = 0")
    case False
    then have d: "k - lowbit k < k" using lowbit_pos [of k] by simp
    have "tree_sum t k = t ! k + tree_sum t (k - lowbit k)" using False by (subst tree_sum.simps) simp
    also have "\<dots> = sum f {k - lowbit k..<k} + sum f {..<k - lowbit k}" using less d False by (simp add: tree_ok_def)
    also have "\<dots> = sum f ({..<k - lowbit k} \<union> {k - lowbit k..<k})" by (subst sum.union_disjoint) auto
    also have "{..<k - lowbit k} \<union> {k - lowbit k..<k} = {..<k}" using d by auto
    finally show ?thesis .
  qed (simp add: tree_sum.simps)
qed

lemma sum_bump: "finite A \<Longrightarrow> sum (f(r := f r + d)) A = sum f A + (if r \<in> A then d else 0)" for f :: "nat \<Rightarrow> int"
proof -
  assume A: "finite A"
  have "f(r := f r + d) = (\<lambda>x. f x + (if x = r then d else 0))" by auto
  then show ?thesis using A by (simp add: sum.distrib)
qed

text \<open>The loop has added to the places before the cursor that sum up the row.\<close>

definition partly_added :: "(nat \<Rightarrow> int) \<Rightarrow> nat \<Rightarrow> nat \<Rightarrow> int \<Rightarrow> nat \<Rightarrow> int list \<Rightarrow> bool" where
  "partly_added f n r d c t \<longleftrightarrow> length t = n + 1
     \<and> (\<forall>i. 0 < i \<and> i \<le> n \<longrightarrow> t ! i = sum f {i - lowbit i..<i} + (if i < c \<and> covers i r then d else 0))"

lemma add_loop: "partly_added f n r d c t \<Longrightarrow> covers c r \<Longrightarrow> \<exists>c'. n < c' \<and> partly_added f n r d c' (tree_add c d t)"
proof (induction c d t rule: tree_add.induct)
  case (1 c d t)
  show ?case
  proof (cases "0 < c \<and> c < length t")
    case True
    let ?t = "t[c := t ! c + d]" and ?c = "c + lowbit c"
    have "?t ! i = sum f {i - lowbit i..<i} + (if i < ?c \<and> covers i r then d else 0)" if i: "0 < i" "i \<le> n" for i
    proof -
      have lc: "0 < lowbit c" using True lowbit_pos by simp
      show ?thesis using i "1.prems" True lc covers_between [of c i r] by (cases i c rule: linorder_cases) (auto simp: partly_added_def)
    qed
    then have "partly_added f n r d ?c ?t" using "1.prems"(1) by (simp add: partly_added_def)
    then show ?thesis using "1.IH" [OF True] covers_next [OF "1.prems"(2)] True by (simp add: tree_add.simps)
  next
    case False
    then have "n < c" using "1.prems" by (auto simp: partly_added_def covers_def)
    then show ?thesis using False "1.prems"(1) by (subst tree_add.simps) auto
  qed
qed

lemma tree_add_ok:
  assumes "tree_ok f n t"
  shows "tree_ok (f(r := f r + d)) n (tree_add (Suc r) d t)"
proof -
  have "partly_added f n r d (Suc r) t" using assms by (auto simp: partly_added_def tree_ok_def covers_def)
  then obtain c where "n < c" "partly_added f n r d c (tree_add (Suc r) d t)" using add_loop covers_first by blast
  then show ?thesis unfolding partly_added_def tree_ok_def sum_bump [OF finite_atLeastLessThan] by (auto simp: covers_def)
qed

definition shown :: "int list \<Rightarrow> nat \<Rightarrow> int" where
  "shown counts j = (if j < length counts then max 1 (counts ! j) else 0)"

lemma build_fold: "length xs \<le> n \<Longrightarrow>
    tree_ok (shown xs) n (fold (\<lambda>(index, v). tree_add index (max 1 v)) (enumerate 1 xs) (replicate (n + 1) 0))"
proof (induction xs rule: rev_induct)
  case Nil
  then show ?case by (auto simp: tree_ok_def shown_def nth_replicate simp del: replicate_Suc)
next
  case (snoc x xs)
  let ?t = "fold (\<lambda>(index, v). tree_add index (max 1 v)) (enumerate 1 xs) (replicate (n + 1) 0)"
  have "tree_ok (shown xs) n ?t" using snoc by simp
  from tree_add_ok [OF this, of "length xs" "max 1 x"]
  have "tree_ok ((shown xs)(length xs := shown xs (length xs) + max 1 x)) n (tree_add (Suc (length xs)) (max 1 x) ?t)" .
  moreover have "(shown xs)(length xs := shown xs (length xs) + max 1 x) = shown (xs @ [x])"
    by (auto simp: shown_def nth_append fun_eq_iff)
  ultimately show ?case by (simp add: enumerate_append_eq)
qed

lemma build_ok: "tree_ok (shown counts) (length counts) (wraptreebuild counts)"
  unfolding wraptreebuild_def using build_fold [of counts "length counts"] by simp

section \<open>Search\<close>

lemma descend_finds:
  assumes "tree_ok f n t"
  shows "pos = 2 ^ k * m \<Longrightarrow> pos \<le> n \<Longrightarrow> sum f {..<pos} \<le> target \<Longrightarrow> n < pos + 2 ^ k \<or> target < sum f {..<pos + 2 ^ k} \<Longrightarrow>
    (let p = tree_descend t target k pos (sum f {..<pos}) in
      p \<le> n \<and> sum f {..<p} \<le> target \<and> (p = n \<or> target < sum f {..<Suc p}))"
proof (induction k arbitrary: pos m)
  case 0
  then show ?case by (auto simp: Let_def)
next
  case (Suc k)
  let ?c = "pos + 2 ^ k"
  have pos: "pos = 2 ^ k * (2 * m)" "?c = 2 ^ k * (2 * m + 1)" using Suc.prems(1) by simp_all
  show ?case
  proof (cases "?c \<le> n")
    case True
    have "lowbit ?c = 2 ^ k" by (simp only: pos(2) lowbit_power) (simp add: lowbit_odd)
    then have "t ! ?c = sum f {pos..<?c}" using assms True by (simp add: tree_ok_def)
    then have acc: "sum f {..<pos} + t ! ?c = sum f {..<?c}" using sum.atLeastLessThan_concat [of 0 pos ?c f] by (simp add: lessThan_atLeast0)
    have lt: "?c < length t" using assms True by (simp add: tree_ok_def)
    show ?thesis
    proof (cases "sum f {..<?c} \<le> target")
      case True
      have up: "pos + 2 ^ Suc k = ?c + 2 ^ k" by simp
      from Suc.IH [OF pos(2) \<open>?c \<le> n\<close> True Suc.prems(4) [unfolded up]] show ?thesis using True acc lt by (simp add: Let_def)
    next
      case False
      then show ?thesis using Suc.IH [OF pos(1)] Suc.prems(2,3) acc lt by (simp add: Let_def)
    qed
  next
    case False
    then have "\<not> ?c < length t" using assms by (simp add: tree_ok_def)
    then show ?thesis using Suc.IH [OF pos(1)] Suc.prems(2,3) False by (simp add: Let_def)
  qed
qed

lemma bit_length_gt: "n < 2 ^ bit_length n"
proof (induction n rule: bit_length.induct)
  case (1 n)
  show ?case
  proof (cases "n = 0")
    case False
    then have "n div 2 < 2 ^ bit_length (n div 2)" using 1 by simp
    then have "n < 2 * 2 ^ bit_length (n div 2)" by linarith
    then show ?thesis using False by (subst bit_length.simps) simp
  qed (simp add: bit_length.simps)
qed

text \<open>The index of a layout: the tree sums up the counts, which are positive.\<close>

definition index_ok :: "wrapping \<Rightarrow> bool" where
  "index_ok w \<longleftrightarrow> tree_ok (shown (WRAP_LINE_COUNTS w)) (length (WRAP_LINE_COUNTS w)) (WRAP_COUNT_TREE w)"

definition rows_before :: "wrapping \<Rightarrow> nat \<Rightarrow> int" where
  "rows_before w r = sum_list (map (max 1) (take r (WRAP_LINE_COUNTS w)))"

lemma shown_sum: "r \<le> length cs \<Longrightarrow> sum (shown cs) {..<r} = sum_list (map (max 1) (take r cs))"
proof (induction r)
  case (Suc r)
  then show ?case by (simp add: take_Suc_conv_app_nth shown_def)
qed simp

lemma prefix_rows: "index_ok w \<Longrightarrow> wraptreeprefix w row = rows_before w (nat (max 0 (min (int (length (WRAP_LINE_COUNTS w))) row)))"
  unfolding wraptreeprefix_def rows_before_def index_ok_def by (subst tree_sum_eq) (auto simp: shown_sum)

lemma find_row:
  assumes "index_ok w" "0 \<le> index" "index < wraptreetotal w"
  shows "wraptreefind w index < length (WRAP_LINE_COUNTS w)
    \<and> rows_before w (wraptreefind w index) \<le> index \<and> index < rows_before w (Suc (wraptreefind w index))"
proof -
  let ?cs = "WRAP_LINE_COUNTS w" and ?t = "WRAP_COUNT_TREE w"
  let ?n = "length ?cs"
  have total: "wraptreetotal w = rows_before w ?n" using prefix_rows [OF assms(1)] by (simp add: wraptreetotal_def)
  then have ne: "?cs \<noteq> []" using assms(2,3) by (auto simp: rows_before_def)
  have len: "length ?t - 1 = ?n" using assms(1) by (simp add: index_ok_def tree_ok_def)
  have bl: "bit_length ?n - 1 + 1 = bit_length ?n" using ne by (subst (1 2) bit_length.simps) simp
  define p where "p = tree_descend ?t index (bit_length ?n) 0 0"
  have "sum (shown ?cs) {..<0} \<le> index" using assms(2) by simp
  from descend_finds [of "shown ?cs" ?n ?t 0 "bit_length ?n" 0 index] this
  have p: "p \<le> ?n" "sum (shown ?cs) {..<p} \<le> index" "p = ?n \<or> index < sum (shown ?cs) {..<Suc p}"
    using assms(1) bit_length_gt [of ?n] by (simp_all add: p_def index_ok_def Let_def)
  have "p \<noteq> ?n" using p(2) assms(3) total by (auto simp: shown_sum rows_before_def)
  then have lt: "p < ?n" using p(1) by simp
  have "wraptreefind w index = p"
    unfolding wraptreefind_def Let_def len bl using ne assms(2,3) lt by (simp add: p_def)
  then show ?thesis using p lt shown_sum [of p ?cs] shown_sum [of "Suc p" ?cs] by (simp add: rows_before_def)
qed

end
