(* ===== verification/Write_Layout.thy ===== *)
theory Write_Layout
  imports Write_Tree Write_Ops
begin

text \<open>
  The index of wrapped lines stays consistent under every operation of the editor, and what is displayed at an index
  is that entry of the list of all wrapped rows.
\<close>

section \<open>The invariant\<close>

definition cache_ok :: "wrapping \<Rightarrow> bool" where
  "cache_ok w \<longleftrightarrow> (\<forall>(k, v, sz) \<in> set (WRAP_LINE_CACHE w). v \<noteq> [])"

text \<open>A row without segments is among those still to be laid out.\<close>

definition row_ok :: "nat set \<Rightarrow> wrapping \<Rightarrow> nat \<Rightarrow> bool" where
  "row_ok P w r = (case WRAP_LINE_SEGMENTS w ! r of None \<Rightarrow> r \<in> P | Some v \<Rightarrow> v \<noteq> [] \<and> WRAP_LINE_COUNTS w ! r = int (length v))"

definition rows_ok :: "nat set \<Rightarrow> nat \<Rightarrow> wrapping \<Rightarrow> bool" where
  "rows_ok P n w \<longleftrightarrow> length (WRAP_LINE_SEGMENTS w) = n \<and> length (WRAP_LINE_COUNTS w) = n \<and> index_ok w
     \<and> (\<forall>c \<in> set (WRAP_LINE_COUNTS w). 1 \<le> c) \<and> (\<forall>r < n. row_ok P w r)"

definition layout_ok :: "editor \<Rightarrow> bool" where
  "layout_ok s \<longleftrightarrow> DOC_LINES s \<noteq> [] \<and> cache_ok (ws s) \<and> finite (WRAP_DIRTY_ROWS (ws s))
     \<and> (WRAP_LAYOUT_KEY (ws s) \<noteq> None \<longrightarrow> rows_ok (WRAP_DIRTY_ROWS (ws s)) (length (DOC_LINES s)) (ws s))"

section \<open>Laying out\<close>

lemma line_segments_ne: "line_segments e ops line width \<noteq> []"
  by (simp add: line_segments_def Let_def)

lemma evict_subset: "set (fst (cache_evict c b)) \<subseteq> set c"
  by (induction c b rule: cache_evict.induct) auto

text \<open>The part of a layout that the cache does not touch.\<close>

definition laid :: "wrapping \<Rightarrow> wrapping" where
  "laid w = w\<lparr>WRAP_LINE_CACHE := [], WRAP_LINE_CACHE_BYTES := 0, WRAP_LINES_MEASURED := 0\<rparr>"

lemma laid_fields: "laid w' = laid w \<Longrightarrow> WRAP_LINE_SEGMENTS w' = WRAP_LINE_SEGMENTS w \<and> WRAP_LINE_COUNTS w' = WRAP_LINE_COUNTS w
    \<and> WRAP_COUNT_TREE w' = WRAP_COUNT_TREE w \<and> WRAP_DIRTY_ROWS w' = WRAP_DIRTY_ROWS w \<and> WRAP_LAYOUT_KEY w' = WRAP_LAYOUT_KEY w"
  by (cases w; cases w') (simp add: laid_def)

lemma cacheput_run:
  assumes "cache_ok w" "v \<noteq> []"
  shows "fst (wrapcacheput key v line w) = v \<and> laid (snd (wrapcacheput key v line w)) = laid w \<and> cache_ok (snd (wrapcacheput key v line w))"
proof -
  let ?c = "filter (\<lambda>kv. fst kv \<noteq> key) (WRAP_LINE_CACHE w) @ [(key, v, max 64 (int (length line) + int (length v) * 24))]"
  have "\<forall>(k, v, sz) \<in> set (fst (cache_evict ?c b)). v \<noteq> []" for b
    using evict_subset [of ?c b] assms by (auto simp: cache_ok_def)
  then show ?thesis by (simp add: wrapcacheput_def Let_def split_beta laid_def cache_ok_def)
qed

definition ids_ok :: "editor \<Rightarrow> bool" where
  "ids_ok s \<longleftrightarrow> length (DOC_LINE_IDS s) = length (DOC_LINES s) \<and> length (DOC_LINE_VERSIONS s) = length (DOC_LINES s)"

lemma ids_ensured: "ids_ok s \<Longrightarrow> documentmetadataensure s = s" "ids_ok (documentmetadataensure s)"
  by (auto simp: ids_ok_def documentmetadataensure_def documentmetadatareset_def invalidatewrapcache_def Let_def)

lemma wrapline_run:
  assumes "ids_ok s" "cache_ok (ws s)" "wrapline e row width s = (v, s')"
  shows "v \<noteq> [] \<and> s' = s\<lparr>ws := ws s'\<rparr> \<and> laid (ws s') = laid (ws s) \<and> cache_ok (ws s')"
proof -
  let ?r = "nat (max 0 (min (int (length (DOC_LINES s)) - 1) row))"
  let ?key = "wrap_key s ?r width" and ?v = "line_segments e (opts s) (DOC_LINES s ! nat (max 0 (min (int (length (DOC_LINES s)) - 1) row))) width"
  show ?thesis
  proof (cases "map_of (WRAP_LINE_CACHE (ws s)) ?key")
    case None
    let ?w = "(ws s)\<lparr>WRAP_LINES_MEASURED := WRAP_LINES_MEASURED (ws s) + 1\<rparr>"
    have "v = fst (wrapcacheput ?key ?v (DOC_LINES s ! ?r) ?w)" "s' = s\<lparr>ws := snd (wrapcacheput ?key ?v (DOC_LINES s ! ?r) ?w)\<rparr>"
      using ids_ensured(1) [OF assms(1)] assms(3) None by (simp_all add: wrapline_def Let_def split_beta)
    moreover have "cache_ok ?w" "laid ?w = laid (ws s)" using assms(2) by (simp_all add: cache_ok_def laid_def)
    ultimately show ?thesis using cacheput_run [of ?w ?v ?key "DOC_LINES s ! ?r"] line_segments_ne by simp
  next
    case (Some x)
    obtain v' sz where x: "x = (v', sz)" by fastforce
    have m: "(?key, v', sz) \<in> set (WRAP_LINE_CACHE (ws s))" using Some x by (auto dest: map_of_SomeD)
    have "v = v'" "s' = s\<lparr>ws := (ws s)\<lparr>WRAP_LINE_CACHE := filter (\<lambda>kv. fst kv \<noteq> ?key) (WRAP_LINE_CACHE (ws s)) @ [(?key, v', sz)]\<rparr>\<rparr>"
      using ids_ensured(1) [OF assms(1)] assms(3) Some x by (auto simp: wrapline_def Let_def)
    then show ?thesis using assms(2) m by (auto simp: cache_ok_def laid_def)
  qed
qed

lemma index_ok_cong: "WRAP_LINE_COUNTS w' = WRAP_LINE_COUNTS w \<Longrightarrow> WRAP_COUNT_TREE w' = WRAP_COUNT_TREE w \<Longrightarrow> index_ok w' = index_ok w"
  by (simp add: index_ok_def)

text \<open>A row is given its count.\<close>

lemma set_row_ok:
  assumes "rows_ok P n w" "r < n" "v \<noteq> []" "WRAP_LINE_SEGMENTS w' = (WRAP_LINE_SEGMENTS w)[r := Some v]"
    and "WRAP_LINE_COUNTS w' = (WRAP_LINE_COUNTS w)[r := int (length v)]"
    and "WRAP_COUNT_TREE w' = (if int (length v) \<noteq> WRAP_LINE_COUNTS w ! r
           then tree_add (Suc r) (int (length v) - WRAP_LINE_COUNTS w ! r) (WRAP_COUNT_TREE w) else WRAP_COUNT_TREE w)"
  shows "rows_ok (P - {r}) n w'"
proof -
  let ?cs = "WRAP_LINE_COUNTS w" and ?d = "int (length v) - WRAP_LINE_COUNTS w ! r"
  have len: "length (WRAP_LINE_SEGMENTS w) = n" "length ?cs = n" and pos: "1 \<le> ?cs ! r" "1 \<le> int (length v)"
    using assms(1,2,3) by (auto simp: rows_ok_def) (cases v, auto)
  have t: "tree_ok (shown ?cs) n (WRAP_COUNT_TREE w)" using assms(1) len by (simp add: rows_ok_def index_ok_def)
  have sh: "shown (?cs[r := int (length v)]) = (shown ?cs)(r := shown ?cs r + ?d)"
    using assms(2) len pos by (auto simp: shown_def fun_eq_iff nth_list_update)
  have "tree_ok (shown (?cs[r := int (length v)])) n (WRAP_COUNT_TREE w')"
  proof (cases "int (length v) = ?cs ! r")
    case True
    then show ?thesis using t assms(6) by (metis list_update_id)
  next
    case False
    then show ?thesis unfolding sh using tree_add_ok [OF t, of r ?d] assms(6) by simp
  qed
  moreover have "\<forall>i < n. row_ok (P - {r}) w' i"
    using assms(1,2,3) len by (auto simp: rows_ok_def row_ok_def assms(4,5) nth_list_update split: option.splits)
  moreover have "\<forall>c \<in> set (WRAP_LINE_COUNTS w'). 1 \<le> c"
    using assms(1) pos(2) set_update_subset_insert [of ?cs r "int (length v)"] unfolding assms(5) rows_ok_def by blast
  ultimately show ?thesis using len unfolding rows_ok_def index_ok_def by (simp add: assms(4,5))
qed


text \<open>One row of the index.\<close>

lemma index_row_ok:
  fixes e width b row
  assumes "ids_ok s" "cache_ok (ws s)" "rows_ok P (length (DOC_LINES s)) (ws s)"
  defines "s' \<equiv> index_row e width b row s"
  shows "s' = s\<lparr>ws := ws s'\<rparr> \<and> cache_ok (ws s') \<and> rows_ok (P - {row}) (length (DOC_LINES s)) (ws s')
    \<and> WRAP_DIRTY_ROWS (ws s') = WRAP_DIRTY_ROWS (ws s) \<and> WRAP_LAYOUT_KEY (ws s') = WRAP_LAYOUT_KEY (ws s)"
proof (cases "row \<ge> length (DOC_LINES s) \<or> WRAP_LINE_SEGMENTS (ws s) ! row \<noteq> None")
  case True
  then have "s' = s" by (auto simp: s'_def index_row_def)
  moreover have "rows_ok (P - {row}) (length (DOC_LINES s)) (ws s)"
    using assms(3) True by (auto simp: rows_ok_def row_ok_def split: option.splits)
  ultimately show ?thesis using assms(2) by simp
next
  case False
  obtain v s1 where v: "wrapline e (int row) width s = (v, s1)" by fastforce
  have r: "v \<noteq> []" "s1 = s\<lparr>ws := ws s1\<rparr>" "laid (ws s1) = laid (ws s)" "cache_ok (ws s1)" using wrapline_run [OF assms(1,2) v] by auto
  note f = laid_fields [OF r(3)]
  have pos: "1 \<le> int (length v)" using r(1) by (cases v) auto
  have old: "max 1 (WRAP_LINE_COUNTS (ws s) ! row) = WRAP_LINE_COUNTS (ws s) ! row" using assms(3) False by (auto simp: rows_ok_def)
  define w where "w = (ws s1)\<lparr>WRAP_LINE_SEGMENTS := (WRAP_LINE_SEGMENTS (ws s1))[row := Some v], WRAP_LINE_COUNTS := (WRAP_LINE_COUNTS (ws s1))[row := int (length v)]\<rparr>"
  define d where "d = int (length v) - WRAP_LINE_COUNTS (ws s) ! row"
  have s': "s' = s1\<lparr>ws := (if d \<noteq> 0 then (if b then wraptreeupdate row d w
        else (wraptreeupdate row d w)\<lparr>WRAP_REFLOW_FROM := reflow_at (wraptreeprefix w (int row)) (WRAP_REFLOW_FROM (wraptreeupdate row d w))\<rparr>) else w)\<rparr>"
    using False v pos old unfolding s'_def index_row_def w_def d_def Let_def by (auto simp: max_def)
  have w': "WRAP_LINE_SEGMENTS (ws s') = (WRAP_LINE_SEGMENTS (ws s))[row := Some v]" "WRAP_LINE_COUNTS (ws s') = (WRAP_LINE_COUNTS (ws s))[row := int (length v)]"
    "WRAP_COUNT_TREE (ws s') = (if d \<noteq> 0 then tree_add (Suc row) d (WRAP_COUNT_TREE (ws s)) else WRAP_COUNT_TREE (ws s))"
    "WRAP_DIRTY_ROWS (ws s') = WRAP_DIRTY_ROWS (ws s)" "WRAP_LAYOUT_KEY (ws s') = WRAP_LAYOUT_KEY (ws s)" "WRAP_LINE_CACHE (ws s') = WRAP_LINE_CACHE (ws s1)"
    using f by (simp_all add: s' w_def wraptreeupdate_def)
  have "rows_ok (P - {row}) (length (DOC_LINES s)) (ws s')"
    by (rule set_row_ok [OF assms(3) _ r(1) w'(1,2)]) (use False w'(3) in \<open>auto simp: d_def\<close>)
  moreover have "s' = s\<lparr>ws := ws s'\<rparr>" unfolding s' by (subst r(2)) simp
  ultimately show ?thesis using w' r(4) by (simp add: cache_ok_def)
qed

lemma index_rows_ok:
  fixes e width b rows
  assumes "ids_ok s" "cache_ok (ws s)" "rows_ok P (length (DOC_LINES s)) (ws s)"
  defines "s' \<equiv> fold (index_row e width b) rows s"
  shows "s' = s\<lparr>ws := ws s'\<rparr> \<and> cache_ok (ws s') \<and> rows_ok (P - set rows) (length (DOC_LINES s)) (ws s')
    \<and> WRAP_DIRTY_ROWS (ws s') = WRAP_DIRTY_ROWS (ws s) \<and> WRAP_LAYOUT_KEY (ws s') = WRAP_LAYOUT_KEY (ws s)"
  using assms(1-3) unfolding s'_def
proof (induction rows arbitrary: s P)
  case Nil
  then show ?case by simp
next
  case (Cons r rows)
  let ?t = "index_row e width b r s"
  have t: "?t = s\<lparr>ws := ws ?t\<rparr>" "cache_ok (ws ?t)" "rows_ok (P - {r}) (length (DOC_LINES s)) (ws ?t)"
    "WRAP_DIRTY_ROWS (ws ?t) = WRAP_DIRTY_ROWS (ws s)" "WRAP_LAYOUT_KEY (ws ?t) = WRAP_LAYOUT_KEY (ws s)"
    using index_row_ok [OF Cons.prems, of e width b r] by auto
  have d: "DOC_LINES ?t = DOC_LINES s" "DOC_LINE_IDS ?t = DOC_LINE_IDS s" "DOC_LINE_VERSIONS ?t = DOC_LINE_VERSIONS s" by (subst t(1), simp)+
  have e: "ids_ok ?t" using Cons.prems(1) d by (simp add: ids_ok_def)
  let ?u = "fold (index_row e width b) rows ?t"
  have u: "?u = ?t\<lparr>ws := ws ?u\<rparr>" "cache_ok (ws ?u)" "rows_ok (P - {r} - set rows) (length (DOC_LINES s)) (ws ?u)"
      "WRAP_DIRTY_ROWS (ws ?u) = WRAP_DIRTY_ROWS (ws s)" "WRAP_LAYOUT_KEY (ws ?u) = WRAP_LAYOUT_KEY (ws s)"
    using Cons.IH [OF e t(2), of "P - {r}"] t(3,4,5) d(1) by auto
  have "?u = s\<lparr>ws := ws ?u\<rparr>" by (subst u(1), subst t(1)) simp
  moreover have "P - {r} - set rows = P - set (r # rows)" by auto
  ultimately show ?case using u by simp
qed


lemma layout_metadata: "layout_ok s \<Longrightarrow> layout_ok (documentmetadataensure s)"
  by (simp add: layout_ok_def documentmetadataensure_def documentmetadatareset_def invalidatewrapcache_def wrap_empty_def cache_ok_def Let_def)

lemma fresh_ok:
  assumes "layout_ok s"
  shows "layout_ok (fresh_index e s) \<and> WRAP_LAYOUT_KEY (ws (fresh_index e s)) \<noteq> None"
proof -
  let ?n = "length (DOC_LINES s)"
  have "index_ok (ws (fresh_index e s))"
    using build_ok [of "replicate ?n 1"] by (simp add: index_ok_def fresh_index_def Let_def)
  then show ?thesis using assms
    by (simp add: layout_ok_def rows_ok_def row_ok_def fresh_index_def cache_ok_def Let_def)
qed

lemma rows_ok_dirty: "rows_ok P n (w\<lparr>WRAP_DIRTY_ROWS := d\<rparr>) = rows_ok P n w"
  by (simp add: rows_ok_def row_ok_def index_ok_def cong: option.case_cong)

lemma ensured:
  assumes "layout_ok s" "WORD_WRAP (opts s)"
  shows "layout_ok (ensurewrapindex e s) \<and> rows_ok {} (length (DOC_LINES s)) (ws (ensurewrapindex e s)) \<and> DOC_LINES (ensurewrapindex e s) = DOC_LINES s"
proof -
  define s0 where "s0 = documentmetadataensure s"
  define b where "b = must_build e s0"
  define s1 where "s1 = (if b then fresh_index e s0 else s0)"
  define s2 where "s2 = s1\<lparr>ws := (ws s1)\<lparr>WRAP_DIRTY_ROWS := {}\<rparr>\<rparr>"
  define s' where "s' = fold (index_row e (wraplayoutwidth e) b) (sorted_list_of_set (WRAP_DIRTY_ROWS (ws s1))) s2"
  have r: "ensurewrapindex e s = s'" using assms(2) by (simp add: ensurewrapindex_def Let_def s'_def s2_def s1_def b_def s0_def)
  have l1: "layout_ok s1" "WRAP_LAYOUT_KEY (ws s1) \<noteq> None"
    using layout_metadata [OF assms(1)] fresh_ok [of s0 e] by (auto simp: s1_def s0_def b_def must_build_def layout_key_def)
  have d: "DOC_LINES s1 = DOC_LINES s" "DOC_LINES s2 = DOC_LINES s1"
    by (simp_all add: s1_def s2_def s0_def fresh_index_def documentmetadataensure_def documentmetadatareset_def invalidatewrapcache_def Let_def)
  have i: "ids_ok s2" using ids_ensured(2) [of s] by (simp add: s2_def s1_def s0_def fresh_index_def ids_ok_def Let_def)
  have c: "cache_ok (ws s2)" using l1 by (simp add: s2_def layout_ok_def cache_ok_def)
  have k: "rows_ok (WRAP_DIRTY_ROWS (ws s1)) (length (DOC_LINES s2)) (ws s2)"
    using l1 by (auto simp: s2_def layout_ok_def rows_ok_dirty)
  have f: "finite (WRAP_DIRTY_ROWS (ws s1))" using l1(1) by (simp add: layout_ok_def)
  have s': "s' = s2\<lparr>ws := ws s'\<rparr>" "cache_ok (ws s')" "rows_ok {} (length (DOC_LINES s2)) (ws s')" "WRAP_DIRTY_ROWS (ws s') = {}"
    using index_rows_ok [OF i c k, of e "wraplayoutwidth e" b "sorted_list_of_set (WRAP_DIRTY_ROWS (ws s1))"] f
    by (simp_all add: s'_def [symmetric]) (simp add: s2_def)
  have "DOC_LINES s' = DOC_LINES s2" by (subst s'(1)) simp
  then show ?thesis using s' d r assms(1) by (simp add: layout_ok_def)
qed

section \<open>Editing\<close>

lemma splice_nth:
  assumes "i \<le> j" "j \<le> length xs" "r < length xs - (j - i) + length ys"
  shows "splice xs i j ys ! r = (if r < i then xs ! r else if r < i + length ys then ys ! (r - i) else xs ! (r - i - length ys + j))"
proof -
  have "min (length xs) i = i" using assms(1,2) by simp
  then show ?thesis using assms by (auto simp: splice_def nth_append add.commute)
qed

lemma splice_length: "i \<le> j \<Longrightarrow> j \<le> length xs \<Longrightarrow> length (splice xs i j ys) = length xs - (j - i) + length ys"
  by (simp add: splice_def)

lemma splice_same: "splice xs i (i + k) (take k (drop i xs)) = xs"
  by (simp add: splice_def) (metis add.commute append_take_drop_id drop_drop)

lemma wrapreplace_layout:
  assumes "DOC_LINES s \<noteq> []" "cache_ok (ws s)" "finite (WRAP_DIRTY_ROWS (ws s))"
    and "WRAP_LAYOUT_KEY (ws s) \<noteq> None \<longrightarrow> rows_ok (WRAP_DIRTY_ROWS (ws s)) n (ws s)"
    and "length (DOC_LINES s) = n - k + m" "i + k \<le> n" "0 < k" "0 < m"
  shows "layout_ok (wrapmetadatareplace i k m s)"
proof (cases "WRAP_LAYOUT_KEY (ws s) = None \<or> int (length (WRAP_LINE_SEGMENTS (ws s))) \<noteq> int (length (DOC_LINES s)) - int (max 1 m) + int k")
  case True
  then show ?thesis using assms(1,2,3)
    by (auto simp: wrapmetadatareplace_def Let_def layout_ok_def invalidatewrapcache_def wrap_empty_def cache_ok_def)
next
  case False
  let ?w = "ws s"
  have k: "rows_ok (WRAP_DIRTY_ROWS ?w) n ?w" using False assms(4) by simp
  have len: "length (WRAP_LINE_SEGMENTS ?w) = n" "length (WRAP_LINE_COUNTS ?w) = n" using k by (simp_all add: rows_ok_def)
  have m: "max 1 m = m" using assms(8) by simp
  define old where "old = take k (drop i (WRAP_LINE_COUNTS ?w))"
  define counts where "counts = (if k = m then old else (if old = [] then 1 else hd old) # replicate (m - 1) 1)"
  define all where "all = splice (WRAP_LINE_COUNTS ?w) i (i + k) counts"
  define w where "w = ws (wrapmetadatareplace i k m s)"
  have s': "wrapmetadatareplace i k m s = s\<lparr>ws := w\<rparr>" using False m by (simp add: w_def wrapmetadatareplace_def Let_def)
  have w: "WRAP_LINE_SEGMENTS w = splice (WRAP_LINE_SEGMENTS ?w) i (i + k) (replicate m None)" "WRAP_LINE_COUNTS w = all"
    "WRAP_COUNT_TREE w = (if k \<noteq> m then wraptreebuild all else WRAP_COUNT_TREE ?w)" "WRAP_LINE_CACHE w = WRAP_LINE_CACHE ?w"
    "WRAP_DIRTY_ROWS w = {row \<in> WRAP_DIRTY_ROWS ?w. row < i} \<union> (\<lambda>row. row - k + m) ` {row \<in> WRAP_DIRTY_ROWS ?w. i + k \<le> row} \<union> {i..<i + m}"
    using False m by (simp_all add: w_def wrapmetadatareplace_def Let_def all_def counts_def old_def)
  have lo: "length old = k" using assms(6) len by (simp add: old_def)
  have lc: "length counts = m" using lo assms(8) by (simp add: counts_def)
  have la: "length all = n - k + m" using splice_length [of i "i + k" "WRAP_LINE_COUNTS ?w" counts] assms(6) len lc by (simp add: all_def)
  have ix: "index_ok w"
  proof (cases "k = m")
    case True
    then have "all = WRAP_LINE_COUNTS ?w" using splice_same by (simp add: all_def counts_def old_def)
    then show ?thesis using k True w(2,3) index_ok_cong [of w ?w] by (simp add: rows_ok_def)
  qed (use build_ok [of all] w(2,3) in \<open>simp add: index_ok_def\<close>)
  have "set old \<subseteq> set (WRAP_LINE_COUNTS ?w)" unfolding old_def by (meson set_drop_subset set_take_subset subset_trans)
  then have "\<forall>c \<in> set counts. 1 \<le> c" using k by (auto simp: counts_def rows_ok_def dest: list.set_sel(1))
  then have pos: "\<forall>c \<in> set all. 1 \<le> c" using k unfolding all_def splice_def rows_ok_def by (auto dest: in_set_takeD in_set_dropD)
  have rows: "row_ok (WRAP_DIRTY_ROWS w) w r" if r: "r < n - k + m" for r
  proof -
    have seg: "WRAP_LINE_SEGMENTS w ! r = (if r < i then WRAP_LINE_SEGMENTS ?w ! r else if r < i + m then None else WRAP_LINE_SEGMENTS ?w ! (r - i - m + (i + k)))"
      using splice_nth [of i "i + k" "WRAP_LINE_SEGMENTS ?w" r "replicate m None"] r assms(6) len by (auto simp: w(1))
    have cnt: "all ! r = (if r < i then WRAP_LINE_COUNTS ?w ! r else if r < i + m then counts ! (r - i) else WRAP_LINE_COUNTS ?w ! (r - i - m + (i + k)))"
      using splice_nth [of i "i + k" "WRAP_LINE_COUNTS ?w" r counts] r assms(6) len lc by (simp add: all_def)
    consider "r < i" | "i \<le> r" "r < i + m" | "i + m \<le> r" by linarith
    then show ?thesis
    proof cases
      case 1
      then have "row_ok (WRAP_DIRTY_ROWS ?w) ?w r" using k assms(6) by (simp add: rows_ok_def)
      then show ?thesis using 1 seg cnt by (auto simp: row_ok_def w(2,5) split: option.splits)
    next
      case 2
      then show ?thesis using seg by (simp add: row_ok_def w(5))
    next
      case 3
      let ?o = "r - i - m + (i + k)"
      have o: "?o < n" "i + k \<le> ?o" "?o - k + m = r" using 3 r assms(6) by linarith+
      have "row_ok (WRAP_DIRTY_ROWS ?w) ?w ?o" using k o(1) by (simp add: rows_ok_def)
      moreover have "r \<in> WRAP_DIRTY_ROWS w" if "?o \<in> WRAP_DIRTY_ROWS ?w"
        using that o(2,3) unfolding w(5) by (intro UnI1 UnI2 image_eqI [of r _ ?o]) auto
      ultimately show ?thesis using 3 seg cnt by (auto simp: row_ok_def w(2) split: option.splits)
    qed
  qed
  have "length (WRAP_LINE_SEGMENTS w) = n - k + m" using splice_length [of i "i + k" "WRAP_LINE_SEGMENTS ?w" "replicate m None"] assms(6) len by (simp add: w(1))
  then have "rows_ok (WRAP_DIRTY_ROWS w) (n - k + m) w" using la ix pos rows by (simp add: rows_ok_def w(2))
  moreover have "finite (WRAP_DIRTY_ROWS w)" using assms(3) by (simp add: w(5))
  ultimately show ?thesis using assms(1,2,5) s' w(4) by (simp add: layout_ok_def cache_ok_def)
qed


named_theorems layout_rules \<open>operations that keep the layout\<close>

lemma layout_cong: "DOC_LINES s' = DOC_LINES s \<Longrightarrow> ws s' = ws s \<Longrightarrow> layout_ok s' = layout_ok s"
  by (simp add: layout_ok_def)

lemma layout_fields [simp]:
  "layout_ok (s\<lparr>hs := h\<rparr>) = layout_ok s" "layout_ok (s\<lparr>dw := d\<rparr>) = layout_ok s" "layout_ok (s\<lparr>CUR_ROW := a\<rparr>) = layout_ok s"
  "layout_ok (s\<lparr>FIRST_VISIBLE_ROW := a\<rparr>) = layout_ok s" "layout_ok (s\<lparr>FIRST_VISIBLE_X := a\<rparr>) = layout_ok s"
  "layout_ok (s\<lparr>CUR_ROW := a, CUR_COL := b\<rparr>) = layout_ok s" "layout_ok (clearselection s) = layout_ok s" "layout_ok (caret_at r c s) = layout_ok s"
  "layout_ok (put_place p s) = layout_ok s" "layout_ok (s\<lparr>DOCUMENT_REFLOW_ROW := o'\<rparr>) = layout_ok s"
  by (auto simp: layout_ok_def clearselection_def caret_at_def put_place_def split: prod.splits)

lemma docwidth_layout [simp]: "layout_ok (docwidthreplace e i k r g s) = layout_ok s" "layout_ok (docwidthreset e s) = layout_ok s"
    "layout_ok (docwidthbeginindex s) = layout_ok s"
  by (simp_all add: docwidthreplace_def docwidthreset_def docwidthbeginindex_def Let_def)

lemma replace_lines_layout:
  assumes "layout_ok s" "sr \<le> er" "er < length (DOC_LINES s)" "replacement \<noteq> []"
  shows "layout_ok (replace_lines e sr er replacement g s)"
proof -
  define s1 where "s1 = s\<lparr>DOC_LINES := splice (DOC_LINES s) sr (er + 1) replacement,
      DOC_LINE_IDS := splice (DOC_LINE_IDS s) sr (er + 1) (DOC_LINE_IDS s ! sr # map (\<lambda>k. NEXT_LINE_ID s + int k) [0..<length replacement - 1]),
      DOC_LINE_VERSIONS := splice (DOC_LINE_VERSIONS s) sr (er + 1) ((DOC_LINE_VERSIONS s ! sr + 1) # replicate (length replacement - 1) 0),
      NEXT_LINE_ID := NEXT_LINE_ID s + int (length replacement - 1)\<rparr>"
  have l: "length (DOC_LINES s1) = length (DOC_LINES s) - (er - sr + 1) + length replacement"
    using splice_length [of sr "er + 1" "DOC_LINES s" replacement] assms(2,3) by (simp add: s1_def)
  then have ne: "DOC_LINES s1 \<noteq> []" using assms(4) by (cases "DOC_LINES s1") auto
  have "layout_ok (wrapmetadatareplace sr (er - sr + 1) (length replacement) s1)"
    by (rule wrapreplace_layout [OF ne _ _ _ l]) (use assms in \<open>auto simp: s1_def layout_ok_def\<close>)
  then show ?thesis unfolding replace_lines_def Let_def s1_def [symmetric] docwidth_layout by (simp only: if_split layout_fields) simp
qed

lemma editapply_layout: 
  assumes "layout_ok s"
  shows "layout_ok (snd (editapply e p0 q0 t s))"
proof -
  let ?s = "with_lines e s"
  have ne: "DOC_LINES s \<noteq> []" using assms by (simp add: layout_ok_def)
  have w: "layout_ok ?s" using ne layout_metadata [OF assms] by (simp add: with_lines_def)
  then have ne': "DOC_LINES ?s \<noteq> []" by (simp add: layout_ok_def)
  obtain p q where pq: "ordered (normalisecaret ?s (fst p0) (snd p0)) (normalisecaret ?s (fst q0) (snd q0)) = (p, q)" by (meson surj_pair)
  have ok: "caret_ok (DOC_LINES ?s) p" "caret_ok (DOC_LINES ?s) q"
    using pq normalise_ok [OF ne'] unfolding ordered_def normalisecaret_def by (auto split: if_splits)
  have le: "caret_le p q" using ordered_le pq by (metis fst_conv snd_conv)
  have b: "nat (fst p) \<le> nat (fst q)" "nat (fst q) < length (DOC_LINES ?s)"
    using ok le by (auto simp: caret_ok_def caret_le_def caret_less_def)
  have "layout_ok (replace_lines e (nat (fst p)) (nat (fst q)) r g ?s)" if "r \<noteq> []" for r g
    using replace_lines_layout [OF w b that] .
  moreover have "framed_chunks x c y \<noteq> []" for x c y by (simp add: framed_chunks_def)
  ultimately show ?thesis by (simp add: editapply_def Let_def pq split_beta)
qed

lemma ensure_layout: "layout_ok s \<Longrightarrow> layout_ok (ensurewrapindex e s)"
  using ensured by (cases "WORD_WRAP (opts s)") (auto simp: ensurewrapindex_def)

lemma layout_if: "layout_ok s \<Longrightarrow> layout_ok s' \<Longrightarrow> layout_ok (if b then s else s')"
  by simp

lemma query_layout: "layout_ok s \<Longrightarrow> layout_ok (snd (displaylinecount e s))" "layout_ok s \<Longrightarrow> layout_ok (snd (cursorvisualindex e r c s))"
    "layout_ok s \<Longrightarrow> layout_ok (snd (maxlinewidth e s))"
  unfolding displaylinecount_def cursorvisualindex_def maxlinewidth_def Let_def
  by (simp_all only: if_distrib [of snd] snd_conv if_split ensure_layout) auto

lemma needed_layout: "layout_ok s \<Longrightarrow> layout_ok (snd (horizontalneeded e s))" "layout_ok s \<Longrightarrow> layout_ok (snd (verticalneeded e s))"
  by (simp_all add: horizontalneeded_def verticalneeded_def split_beta query_layout)

lemma viewport_layout: "layout_ok s \<Longrightarrow> layout_ok (snd (viewport_width e s))"
  by (simp add: viewport_width_def Let_def split_beta needed_layout)

lemma clamp_layout: "layout_ok s \<Longrightarrow> layout_ok (clampxscroll e s)"
  unfolding clampxscroll_def Let_def split_beta
  by (intro layout_if) (simp_all only: layout_fields viewport_layout query_layout)

lemma lookx_layout: "layout_ok s \<Longrightarrow> layout_ok (ensurecursorvisiblex e s)"
  unfolding ensurecursorvisiblex_def Let_def split_beta
  by (intro layout_if clamp_layout) (simp_all only: layout_fields viewport_layout)

lemma look_layout: "layout_ok s \<Longrightarrow> layout_ok (ensurecursorvisible e s)"
  unfolding ensurecursorvisible_def Let_def split_beta
  by (intro layout_if lookx_layout) (simp_all only: layout_fields query_layout)

interpretation layout: editor_rel "\<lambda>s s'. layout_ok s \<longrightarrow> layout_ok s'" "\<lambda>_. True"
proof (unfold_locales, goal_cases)
  case (4 s s')
  then show ?case by (simp add: same_doc_def layout_ok_def)
next
  case (5 e s p q t)
  then show ?case by (simp add: editreplace_def Let_def split_beta editapply_layout)
next
  case (6 e s)
  then show ?case by (simp add: undo_def Let_def editapply_layout)
next
  case (7 e s)
  then show ?case by (simp add: redo_def Let_def editapply_layout)
qed (auto simp: query_layout look_layout clamp_layout, simp add: layout_ok_def)


section \<open>What is displayed\<close>

definition row_segments :: "editor \<Rightarrow> nat \<Rightarrow> (nat \<times> segment) list" where
  "row_segments s r = map (\<lambda>seg. (r, seg)) (segments_of s r)"

lemma laid_out_row: "rows_ok {} n (ws s) \<Longrightarrow> r < n \<Longrightarrow> segments_of s r \<noteq> [] \<and> WRAP_LINE_COUNTS (ws s) ! r = int (length (segments_of s r))"
proof -
  assume a: "rows_ok {} n (ws s)" "r < n"
  then have "row_ok {} (ws s) r" by (simp add: rows_ok_def)
  then show ?thesis by (cases "WRAP_LINE_SEGMENTS (ws s) ! r") (auto simp: row_ok_def segments_of_def)
qed

lemma rows_before_length: "rows_ok {} n (ws s) \<Longrightarrow> r \<le> n \<Longrightarrow> rows_before (ws s) r = int (length (concat (map (row_segments s) [0..<r])))"
proof (induction r)
  case (Suc r)
  have len: "length (WRAP_LINE_COUNTS (ws s)) = n" using Suc.prems(1) by (simp add: rows_ok_def)
  note row = laid_out_row [OF Suc.prems(1), of r]
  have "rows_before (ws s) (Suc r) = rows_before (ws s) r + max 1 (WRAP_LINE_COUNTS (ws s) ! r)"
    using Suc.prems(2) len by (simp add: rows_before_def take_Suc_conv_app_nth)
  also have "max 1 (WRAP_LINE_COUNTS (ws s) ! r) = int (length (row_segments s r))"
    using row Suc.prems(2) by (cases "segments_of s r") (auto simp: row_segments_def)
  finally show ?case using Suc by simp
qed (simp add: rows_before_def)

lemma concat_at:
  assumes "r < n" "length (concat (map f [0..<r])) \<le> i" "i < length (concat (map f [0..<Suc r]))"
  shows "concat (map f [0..<n]) ! i = f r ! (i - length (concat (map f [0..<r])))"
proof -
  have "[0..<n] = [0..<r] @ r # [Suc r..<n]" using assms(1) by (metis append_Cons append_Nil le_add_diff_inverse less_imp_le_nat upt_add_eq_append upt_conv_Cons zero_le)
  moreover have "i - length (concat (map f [0..<r])) < length (f r)" using assms(2,3) by simp
  ultimately show ?thesis using assms(2) by (simp add: nth_append)
qed

lemma displayed:
  assumes "layout_ok s"
  shows "fst (displaylinecount e s) = int (length (fst (wrapsegments e s)))
    \<and> (0 \<le> i \<and> i < fst (displaylinecount e s) \<longrightarrow> fst (displaysegment e i s) = fst (wrapsegments e s) ! nat i)"
proof (cases "WORD_WRAP (opts s)")
  case False
  then show ?thesis by (auto simp: displaylinecount_def wrapsegments_def displaysegment_def nth_enumerate_eq Let_def split_beta)
next
  case True
  let ?s = "ensurewrapindex e s" and ?n = "length (DOC_LINES s)"
  let ?L = "concat (map (row_segments ?s) [0..<?n])"
  have k: "rows_ok {} ?n (ws ?s)" using ensured [OF assms True] by blast
  have len: "length (WRAP_LINE_SEGMENTS (ws ?s)) = ?n" "length (WRAP_LINE_COUNTS (ws ?s)) = ?n" and ix: "index_ok (ws ?s)" using k by (simp_all add: rows_ok_def)
  have "0 < ?n" using assms by (simp add: layout_ok_def)
  then have "row_segments ?s 0 \<noteq> []" "0 \<in> set [0..<?n]" using laid_out_row [OF k, of 0] by (auto simp: row_segments_def)
  then have ne: "?L \<noteq> []" by (metis concat_eq_Nil_conv image_eqI list.set_map)
  have "concat (map (\<lambda>r. map (\<lambda>seg. (r, seg)) (segments_of ?s r)) [0..<?n]) = ?L" by (simp add: row_segments_def [abs_def])
  then have L: "fst (wrapsegments e s) = ?L" using True ne len unfolding wrapsegments_def Let_def by (simp del: concat_eq_Nil_conv)
  have total: "wraptreetotal (ws ?s) = int (length ?L)"
    using prefix_rows [OF ix] rows_before_length [OF k, of ?n] len by (simp add: wraptreetotal_def)
  have count: "fst (displaylinecount e s) = int (length ?L)" using True total by (simp add: displaylinecount_def Let_def)
  have "fst (displaysegment e i s) = ?L ! nat i" if i: "0 \<le> i" "i < int (length ?L)"
  proof -
    let ?r = "wraptreefind (ws ?s) i"
    let ?b = "length (concat (map (row_segments ?s) [0..<?r]))"
    have r: "?r < ?n" "rows_before (ws ?s) ?r \<le> i" "i < rows_before (ws ?s) (Suc ?r)" using find_row [OF ix i(1)] i(2) total len by auto
    have b: "rows_before (ws ?s) ?r = int ?b" "rows_before (ws ?s) (Suc ?r) = int (length (concat (map (row_segments ?s) [0..<Suc ?r])))"
      using rows_before_length [OF k, of ?r] rows_before_length [OF k, of "Suc ?r"] r(1) by simp_all
    have at: "?L ! nat i = row_segments ?s ?r ! (nat i - ?b)"
      by (rule concat_at) (use r b i in \<open>auto simp: nat_less_iff le_nat_iff simp del: upt_Suc\<close>)
    have off: "wraptreeprefix (ws ?s) (int ?r) = int ?b" using prefix_rows [OF ix, of "int ?r"] r(1) len b(1) by simp
    have inside: "nat i - ?b < length (segments_of ?s ?r)" using r(2,3) b by (auto simp: row_segments_def)
    have cut: "max 0 (min (max 0 (wraptreetotal (ws ?s) - 1)) i) = i" using i total by simp
    have "WRAP_LINE_COUNTS (ws ?s) \<noteq> []" using len r(1) by auto
    then have "fst (displaysegment e i s) = (?r, segments_of ?s ?r ! nat (max 0 (min (int (length (segments_of ?s ?r)) - 1) (i - int ?b))))"
      using True by (simp add: displaysegment_def Let_def cut off)
    moreover have "nat (max 0 (min (int (length (segments_of ?s ?r)) - 1) (i - int ?b))) = nat i - ?b" using inside i(1) r(2) b(1) by simp
    ultimately show ?thesis using at inside by (simp add: row_segments_def)
  qed
  then show ?thesis using L count by simp
qed

end
