(* ===== verification/Write_Props.thy ===== *)
theory Write_Props
  imports Write_Guard Write_Layout
begin

text \<open>
  The properties of the editor: changes of the text, undoing and redoing, what a clean document means, saving, unsaved
  changes, and what is displayed.
\<close>

section \<open>Documents that were loaded\<close>

lemma read_lines_ok: "read_document bs = Inr (ls, f) \<Longrightarrow> doc_ok ls"
proof -
  assume "read_document bs = Inr (ls, f)"
  then obtain t where "ls = fst (lines_of_file t)"
    by (auto simp: read_document_def decode_document_def rbind_Inr Let_def split_beta)
  then show ?thesis using lines_of_file_ok [of t] by (simp add: lines_ok_def doc_ok_def)
qed

definition loaded :: "wenv \<Rightarrow> bytes \<Rightarrow> editor \<Rightarrow> editor" where
  "loaded e bs z = (case read_document bs of Inr (ls, f) \<Rightarrow> loaddocumentfromlines e ls True z | Inl _ \<Rightarrow> initialisedocument e z)"

lemma load_opened: "doc_ok ls \<Longrightarrow> just_opened (loaddocumentfromlines e ls b z)"
proof -
  assume d: "doc_ok ls"
  then have "ls \<noteq> []" by (simp add: doc_ok_def)
  then show ?thesis using d
    by (simp add: just_opened_def loaddocumentfromlines_def documentmetadatareset_def invalidatewrapcache_def docwidthbeginindex_def docwidthreset_def
        historyreset_def Let_def)
qed

lemma new_opened: "just_opened (initialisedocument e z)"
  by (simp add: just_opened_def initialisedocument_def documentmetadatareset_def invalidatewrapcache_def docwidthreset_def historyreset_def doc_ok_def Let_def)

lemma loaded_opened: "just_opened (loaded e bs z)"
  using load_opened read_lines_ok new_opened by (auto simp: loaded_def split: sum.splits)

lemma loaded_layout: "cache_ok (ws z) \<Longrightarrow> layout_ok (loaded e bs z)"
  by (auto simp: loaded_def loaddocumentfromlines_def initialisedocument_def documentmetadatareset_def invalidatewrapcache_def docwidthbeginindex_def
      docwidthreset_def layout_ok_def cache_ok_def wrap_empty_def Let_def split: sum.splits)

lemma step_layout: "edit_step s s' \<Longrightarrow> layout_ok s \<longrightarrow> layout_ok s'"
proof (induction rule: edit_step.induct)
  case (asked_replace s q)
  then show ?case by (simp add: layout_ok_def)
qed (rule layout.handlekey_step layout.then_look layout.then_find layout.then_field layout.then_replace layout.then_lines layout.then_scroll
  layout.then_caret layout.then_selection layout.then_words; (simp | rule layout.then_selection_edits; simp)?)+

lemma session_layout: "session s s' \<Longrightarrow> layout_ok s \<Longrightarrow> layout_ok s'"
proof (induction rule: session.induct)
  case (saved s s' r)
  then show ?case by (simp add: finish_save_def)
qed (use step_layout in blast)+

section \<open>Changing the text\<close>

text \<open>C6. Changing a document replaces a piece of its text: the text is what stands before the two positions, what
  stands between and what stands after, whichever of the two comes first and wherever they lie; afterwards the piece between is the new text, with its line
  endings normalised, and the caret stands after it.  The call says whether anything changed.\<close>

theorem edit_refines_text:
  assumes "doc_ok (DOC_LINES s)"
  shows "\<exists>a m b. getdocumenttext s = a @ m @ b
    \<and> ordered (normalisecaret s (fst p) (snd p)) (normalisecaret s (fst q) (snd q)) = (pos_of a, pos_of (a @ m))
    \<and> getdocumenttext (snd (editreplace e p q t s)) = a @ newlines t @ b
    \<and> here (snd (editreplace e p q t s)) = pos_of (a @ newlines t)
    \<and> doc_ok (DOC_LINES (snd (editreplace e p q t s))) \<and> (fst (editreplace e p q t s) \<longleftrightarrow> m \<noteq> newlines t)"
proof -
  obtain a m b s1 where x: "getdocumenttext s = a @ m @ b"
    "ordered (normalisecaret s (fst p) (snd p)) (normalisecaret s (fst q) (snd q)) = (pos_of a, pos_of (a @ m))"
    "editapply e (pos_of a) (pos_of (a @ m)) t s = ((m, newlines t), s1)"
    "doc_ok (DOC_LINES s1)" "getdocumenttext s1 = a @ newlines t @ b" "here s1 = pos_of (a @ newlines t)"
    using editreplace_text [OF assms] by metis
  have "DOC_LINES (snd (editreplace e p q t s)) = DOC_LINES s1" "here (snd (editreplace e p q t s)) = here s1"
      "fst (editreplace e p q t s) \<longleftrightarrow> m \<noteq> newlines t"
    using x(2,3) by (simp_all add: editreplace_def Let_def here_def)
  then show ?thesis using x unfolding getdocumenttext_def by metis
qed

definition same_version :: "editor \<Rightarrow> editor \<Rightarrow> bool" where
  "same_version s s' \<longleftrightarrow> DOC_LINES s' = DOC_LINES s \<and> hs s' = hs s"

lemma past_eqI:
  "UNDO_STACK h = UNDO_STACK h' \<Longrightarrow> REDO_STACK h = REDO_STACK h' \<Longrightarrow> UNDO_BYTES h = UNDO_BYTES h' \<Longrightarrow> CURRENT_REVISION h = CURRENT_REVISION h' \<Longrightarrow>
    SAVED_REVISION h = SAVED_REVISION h' \<Longrightarrow> NEXT_REVISION h = NEXT_REVISION h' \<Longrightarrow> IS_DIRTY h = IS_DIRTY h' \<Longrightarrow> h = h'" for h h' :: past
  by (cases h; cases h') simp

lemma same_versionI:
  assumes "past_ok V s" "past_ok V s'" "UNDO_STACK (hs s') = UNDO_STACK (hs s)" "REDO_STACK (hs s') = REDO_STACK (hs s)"
    "UNDO_BYTES (hs s') = UNDO_BYTES (hs s)" "CURRENT_REVISION (hs s') = CURRENT_REVISION (hs s)" "SAVED_REVISION (hs s') = SAVED_REVISION (hs s)"
    "NEXT_REVISION (hs s') = NEXT_REVISION (hs s)"
  shows "same_version s s'"
proof -
  have "getdocumenttext s' = getdocumenttext s" "IS_DIRTY (hs s') = IS_DIRTY (hs s)" using assms by (simp_all add: past_ok_def)
  moreover have "doc_ok (DOC_LINES s)" "doc_ok (DOC_LINES s')" using assms(1,2) by (simp_all add: past_ok_def)
  ultimately show ?thesis using assms(3-) doc_eqI past_eqI [of "hs s'" "hs s"] by (simp add: same_version_def getdocumenttext_def)
qed

text \<open>C36. Redoing what was undone, and undoing what was redone, gives back the lines of the document and the whole
  history, in every state of a document that was loaded or created and edited and saved since.\<close>

theorem undo_redo_restore:
  assumes "just_opened s0" "session s0 s"
  shows "(UNDO_STACK (hs s) \<noteq> [] \<longrightarrow> same_version s (redo e' (undo e s))) \<and> (REDO_STACK (hs s) \<noteq> [] \<longrightarrow> same_version s (undo e' (redo e s)))"
proof -
  obtain V where V: "past_ok V s" using session_past [OF assms] .
  have "same_version s (redo e' (undo e s))" if "UNDO_STACK (hs s) = as @ [a]" for as a
  proof -
    note u = undo_hist [OF V that, of e]
    note r = redo_hist [of V "undo e s" "REDO_STACK (hs s)" a e']
    have "a_afterrev a = CURRENT_REVISION (hs s)" using V that by (simp add: past_ok_def)
    then show ?thesis using u r V that by (intro same_versionI [of V]) auto
  qed
  moreover have "same_version s (undo e' (redo e s))" if "REDO_STACK (hs s) = as @ [a]" for as a
  proof -
    note r = redo_hist [OF V that, of e]
    note u = undo_hist [of V "redo e s" "UNDO_STACK (hs s)" a e']
    have "a_beforerev a = CURRENT_REVISION (hs s)" using V that by (simp add: past_ok_def)
    then show ?thesis using u r V that by (intro same_versionI [of V]) auto
  qed
  ultimately show ?thesis by (metis append_butlast_last_id)
qed

section \<open>Saving\<close>

text \<open>C5. When the editor says that a document has no unsaved changes, the file holds it: a snapshot is written while
  the document may be edited; if its revision is still the current one when the write has completed, then whenever
  later edits, undos and redos leave the document clean, its lines are those in the file.\<close>

theorem clean_document_is_saved:
  assumes "just_opened s0" "session s0 s1"
    and "writeuserfilesnapshot user raw (DOC_LINES s1) f oe w = (Inr p, w')" "last p \<notin> range (snapshot_name (e_pid oe))"
    and "session s1 s2" "CURRENT_REVISION (hs s2) = CURRENT_REVISION (hs s1)"
    and "unsaved_session (finish_save (CURRENT_REVISION (hs s1)) s2) s3" "\<not> IS_DIRTY (hs s3)"
  shows "\<exists>n data. w_fs w' p = Some n \<and> n_kind n = Regular data \<and> document_bytes f (DOC_LINES s3) = Inr data"
proof -
  let ?s = "finish_save (CURRENT_REVISION (hs s1)) s2"
  obtain V where V: "past_ok V s1" using session_past [OF assms(1,2)] .
  obtain V2 where V2: "past_ok V2 s2" using session_names [OF assms(5)] V unfolding names_on_def by blast
  obtain Vs where Vs: "past_ok Vs ?s" using finish_names V2 unfolding names_on_def by blast
  have c: "continues_doc ?s s3" by (rule unsaved_continues [OF assms(7)])
  obtain V3 where V3: "past_ok V3 s3" "SAVED_REVISION (hs s3) = SAVED_REVISION (hs ?s)" using continuesD [OF c Vs] by metis
  have "CURRENT_REVISION (hs s3) = CURRENT_REVISION (hs s1)" using V3 assms(6,8) by (simp add: past_ok_def finish_save_def)
  moreover have "names_on s1 s3"
    using names_trans [OF session_names [OF assms(5)] names_trans [OF finish_names continues_names [OF c]]] .
  ultimately have lines: "DOC_LINES s3 = DOC_LINES s1" using revision_text [OF V] by blast
  obtain home parts where u: "usersavepath user raw = Inr (p, home, parts)"
  proof -
    obtain ro w1 where o: "openusersaveparent user raw oe w = (ro, w1)" by fastforce
    have "\<exists>d name. ro = Inr (p, d, name)" using assms(3) o by (cases ro) (auto simp: writeuserfilesnapshot_def andthen_Inr andthen_def split: prod.splits sum.splits)
    then show ?thesis using save_parent_Inr o that by metis
  qed
  have "\<exists>data. document_bytes f (DOC_LINES s1) = Inr data" "w_fs w' p = saved_node oe f (DOC_LINES s1) (w_fs w p)"
    using save_run [OF assms(3) u assms(4), of p] by auto
  then show ?thesis using lines by (auto simp: saved_node_def new_node_def)
qed

text \<open>C37. Saving replaces the file in one step or leaves it: whichever call fails, at every moment the target is the
  old file or the complete new one, and only names in the home of the user ever change; when the save reports success the
  file holds the bytes of the document.\<close>

theorem save_is_atomic_in_home:
  assumes "writeuserfilesnapshot user raw ls f e w = (r, w')" "usersavepath user raw = Inr (p, home, parts)"
    and "last p \<notin> range (snapshot_name (e_pid e))"
  shows "whole p (w_fs w p) (saved_node e f ls (w_fs w p)) w w' \<and> only (in_home home) w w'
    \<and> (r = Inr q \<longrightarrow> q = p \<and> (\<exists>data. document_bytes f ls = Inr data) \<and> w_fs w' p = saved_node e f ls (w_fs w p))"
  by (rule save_run [OF assms])


section \<open>Unsaved changes\<close>


section \<open>What is displayed\<close>

text \<open>C40. After any edits, what is displayed at an index, found by a search in the tree of partial sums, is that entry of
  the list of all wrapped rows, and the number of rows is the length of that list.\<close>

theorem displayed_rows:
  assumes "WRAP_LINE_CACHE (ws z) = []" "session (loaded e0 bs z) s"
  shows "fst (displaylinecount e s) = int (length (fst (wrapsegments e s)))
    \<and> (0 \<le> i \<and> i < fst (displaylinecount e s) \<longrightarrow> fst (displaysegment e i s) = fst (wrapsegments e s) ! nat i)"
  using displayed [OF session_layout [OF assms(2) loaded_layout]] assms(1) by (simp add: cache_ok_def)


section \<open>Witnesses\<close>

text \<open>A font in which every character is one wide, a window whose lines are four wide, and an editor at its start.\<close>

definition demo_wenv :: wenv where
  "demo_wenv = \<lparr>measuretext = (\<lambda>t _ _. Inr (int (length t))), measurelineadvances = (\<lambda>t _ _. map int [1..<length t + 1]), WIN_W = 6, MARGIN_LEFT = 1,
     SCROLLBAR_WIDTH = 1, CURSOR_WIDTH = 1, we_isalnum = (\<lambda>c. 97 \<le> c \<and> c \<le> 122), we_isprintable = (\<lambda>c. 32 \<le> c), we_lower = id, we_upper = id,
     we_time = 0, we_exget = None, we_exset = True\<rparr>"

definition demo_editor :: editor where
  "demo_editor = \<lparr>DOC_LINES = [[]], DOC_LINE_IDS = [], DOC_LINE_VERSIONS = [], NEXT_LINE_ID = 1, DOCUMENT_REFLOW_ROW = None, CUR_ROW = 0, CUR_COL = 0,
     FIRST_VISIBLE_ROW = 0, FIRST_VISIBLE_X = 0, SEL_ACTIVE = False, SEL_ANCHOR_ROW = 0, SEL_ANCHOR_COL = 0, SEL_ROW = 0, SEL_COL = 0, FIND_QUERY = [],
     REPLACE_QUERY = [],
     ws = \<lparr>WRAP_LAYOUT_KEY = None, WRAP_LINE_SEGMENTS = [], WRAP_LINE_COUNTS = [], WRAP_COUNT_TREE = [], WRAP_DIRTY_ROWS = {}, WRAP_REFLOW_FROM = None,
       WRAP_LINE_CACHE = [], WRAP_LINE_CACHE_BYTES = 0, WRAP_LINES_MEASURED = 0\<rparr>,
     dw = \<lparr>DOC_LINEW = [], DOC_MAXW = 0, DOC_MAXW_DIRTY = False, DOC_WIDTH_COUNTS = Map.empty, DOC_WIDTH_HEAP = [], DOC_WIDTH_INDEX_ROW = 0,
       DOC_WIDTH_INDEX_ACTIVE = False, DOC_FONTSTAMP = None\<rparr>,
     hs = \<lparr>UNDO_STACK = [], REDO_STACK = [], UNDO_BYTES = 0, CURRENT_REVISION = 0, SAVED_REVISION = 0, NEXT_REVISION = 1, IS_DIRTY = False\<rparr>,
     opts = \<lparr>FONT_SIZE = 1, FONT_PATH = [], TAB_WIDTH = 4, WORD_WRAP = True, INDENT_USE_TABS = False, OVERWRITE_MODE = False, FIND_MATCH_CASE = True,
       VISIBLE_LINES = 3\<rparr>\<rparr>"

text \<open>A new document, and the same after \<open>x\<close> has been dropped into it.\<close>

definition demo_plain :: editor where
  "demo_plain = initialisedocument demo_wenv demo_editor"

definition demo_typed :: editor where
  "demo_typed = ensurecursorvisible demo_wenv (replaceselectionwithtext demo_wenv [120] demo_plain)"

lemma demo_opened: "just_opened demo_plain"
  unfolding demo_plain_def by (rule new_opened)

lemma demo_session: "session demo_plain demo_typed"
  unfolding demo_typed_def by (rule session.edited [OF session.start edit_step.dropped])

lemma demo_replace: "replaceselectionwithtext demo_wenv [120] demo_plain = snd (editreplace demo_wenv (0, 0) (0, 0) [120] demo_plain)"
proof -
  have "selection_or_caret demo_plain = ((0, 0), (0, 0))" by code_simp
  then show ?thesis by (simp add: replaceselectionwithtext_def)
qed

lemma demo_applied: "fst (editapply demo_wenv (0, 0) (0, 0) [120] demo_plain) = ([], [120])"
  "DOC_LINES (snd (editapply demo_wenv (0, 0) (0, 0) [120] demo_plain)) = [[120]]"
  "ordered (normalisecaret demo_plain 0 0) (normalisecaret demo_plain 0 0) = ((0, 0), (0, 0))"
  by code_simp+

lemma demo_start: "UNDO_STACK (hs demo_plain) = []" "UNDO_BYTES (hs demo_plain) = 0" "NEXT_REVISION (hs demo_plain) = 1" "SAVED_REVISION (hs demo_plain) = 0"
  by (simp_all add: demo_plain_def initialisedocument_def historyreset_def Let_def)

lemma demo_core: "core demo_typed = core (snd (editreplace demo_wenv (0, 0) (0, 0) [120] demo_plain))"
  by (simp add: demo_typed_def demo_replace)

lemma demo_lines: "DOC_LINES demo_typed = [[120]]"
  using demo_core demo_applied by (simp add: core_def editreplace_def Let_def split_beta)

lemma demo_past: "hs demo_typed = hs (snd (editreplace demo_wenv (0, 0) (0, 0) [120] demo_plain))"
  using demo_core by (simp add: core_def)

lemma demo_hist: "UNDO_STACK (hs demo_typed) \<noteq> [] \<and> IS_DIRTY (hs demo_typed)"
  unfolding demo_past using demo_applied demo_start
  by (simp add: editreplace_def Let_def split_beta editapply_hs historypush_def push_fields UNDO_LIMIT_def UNDO_BYTE_LIMIT_def
      historysize_def utf8_replace_def is_surrogate_def)

text \<open>The home of the user \<open>u\<close>, empty, on a system where nothing fails.\<close>

definition demo_os :: env where
  "demo_os = \<lparr>e_fault = (\<lambda>_. False), e_written = (\<lambda>_. 4096), e_random = (\<lambda>_ _. []), e_time = (\<lambda>_. 0), e_masked = id, e_uid = 1000, e_gid = 1000, e_pid = 7\<rparr>"

definition demo_home :: world where
  "demo_home = \<lparr>w_fs = [[cps ''master'', cps ''u''] \<mapsto> \<lparr>n_kind = Directory, n_mode = 448, n_uid = 1000, n_gid = 1000\<rparr>], w_calls = 0, w_open = 0, w_past = []\<rparr>"

definition demo_format :: format where
  "demo_format = \<lparr>FILE_ENCODING = Utf8, FILE_BOM = False, FILE_NEWLINE = [10]\<rparr>"

lemma demo_path: "usersavepath (Inr (cps ''u'')) (cps ''/master/u/f'') = Inr ([cps ''master'', cps ''u'', cps ''f''], [cps ''master'', cps ''u''], [cps ''f''])"
  by (simp add: usersavepath_def starts_with_def abspath_def rbind_def Let_def)

lemma demo_parent: "openusersaveparent (Inr (cps ''u'')) (cps ''/master/u/f'') demo_os demo_home =
   (Inr ([cps ''master'', cps ''u'', cps ''f''], [cps ''master'', cps ''u''], cps ''f''), demo_home\<lparr>w_calls := 2, w_open := 1\<rparr>)"
  unfolding openusersaveparent_def demo_path
  by (simp add: andthen_def lift_res_def sys_opendir_def syscall_def look_dir_def opened_def ret_def raise_def except_do_def validateduserdirectory_def sys_fstat_def sys_env_def permit_def
     demo_os_def demo_home_def tick_def)

lemma demo_save: "fst (writeuserfilesnapshot (Inr (cps ''u'')) (cps ''/master/u/f'') [[120]] demo_format demo_os demo_home)
    = Inr [cps ''master'', cps ''u'', cps ''f'']"
  unfolding writeuserfilesnapshot_def andthen_def demo_parent
  by (simp add: andthen_def syscall_def ret_def raise_def except_do_def finally_do_def sys_env_def sys_urandom_def sys_close_def permit_def
     replace_target_def validateusersavetarget_def sys_lstat_def is_not_found_def sys_create_def change_def set_fs_def new_node_def opened_def
     fill_snapshot_def sys_fstat_def is_regular_def writefilesnapshotstream_def demo_format_def separator_def line_endings_def lift_res_def
     encode_cp_def is_surrogate_def rbind_def stream_write_def sys_write_def written_count_def on_node_def append_data_def sys_fsync_def sys_replace_def
     snapshot_name_def demo_os_def demo_home_def tick_def)

lemma demo_name: "last [cps ''master'', cps ''u'', cps ''f''] \<notin> range (snapshot_name (e_pid demo_os))"
  by (auto simp: snapshot_name_def)

theorem edit_refines_text_witness:
  "doc_ok (DOC_LINES demo_plain) \<and> (\<exists>a m b. getdocumenttext demo_plain = a @ m @ b
    \<and> ordered (normalisecaret demo_plain 0 9) (normalisecaret demo_plain 0 0) = (pos_of a, pos_of (a @ m))
    \<and> getdocumenttext (snd (editreplace demo_wenv (0, 9) (0, 0) [120] demo_plain)) = a @ newlines [120] @ b
    \<and> here (snd (editreplace demo_wenv (0, 9) (0, 0) [120] demo_plain)) = pos_of (a @ newlines [120])
    \<and> doc_ok (DOC_LINES (snd (editreplace demo_wenv (0, 9) (0, 0) [120] demo_plain)))
    \<and> (fst (editreplace demo_wenv (0, 9) (0, 0) [120] demo_plain) \<longleftrightarrow> m \<noteq> newlines [120]))"
proof -
  have d: "doc_ok (DOC_LINES demo_plain)" using demo_opened by (simp add: just_opened_def)
  show ?thesis using d edit_refines_text [OF d, of "(0, 9)" "(0, 0)" demo_wenv "[120]"] by (simp only: fst_conv snd_conv simp_thms)
qed

theorem undo_redo_restore_witness:
  "UNDO_STACK (hs demo_typed) \<noteq> [] \<and> same_version demo_typed (redo demo_wenv (undo demo_wenv demo_typed))"
  using undo_redo_restore [OF demo_opened demo_session, of demo_wenv demo_wenv] demo_hist by blast

theorem clean_document_is_saved_witness:
  "\<exists>n data. w_fs (snd (writeuserfilesnapshot (Inr (cps ''u'')) (cps ''/master/u/f'') [[120]] demo_format demo_os demo_home)) [cps ''master'', cps ''u'', cps ''f''] = Some n
    \<and> n_kind n = Regular data \<and> document_bytes demo_format (DOC_LINES (finish_save (CURRENT_REVISION (hs demo_typed)) demo_typed)) = Inr data"
proof -
  let ?run = "writeuserfilesnapshot (Inr (cps ''u'')) (cps ''/master/u/f'') [[120]] demo_format demo_os demo_home"
  have run: "writeuserfilesnapshot (Inr (cps ''u'')) (cps ''/master/u/f'') (DOC_LINES demo_typed) demo_format demo_os demo_home
      = (Inr [cps ''master'', cps ''u'', cps ''f''], snd ?run)"
    unfolding demo_lines by (rule prod_eqI) (simp_all only: demo_save fst_conv snd_conv)
  have clean: "\<not> IS_DIRTY (hs (finish_save (CURRENT_REVISION (hs demo_typed)) demo_typed))" by (simp add: finish_save_def)
  show ?thesis by (rule clean_document_is_saved [OF demo_opened demo_session run demo_name session.start refl rtranclp.rtrancl_refl clean])
qed

theorem save_is_atomic_in_home_witness:
  "only (in_home [cps ''master'', cps ''u'']) demo_home (snd (writeuserfilesnapshot (Inr (cps ''u'')) (cps ''/master/u/f'') [[120]] demo_format demo_os demo_home))
    \<and> w_fs (snd (writeuserfilesnapshot (Inr (cps ''u'')) (cps ''/master/u/f'') [[120]] demo_format demo_os demo_home)) [cps ''master'', cps ''u'', cps ''f'']
      = saved_node demo_os demo_format [[120]] (w_fs demo_home [cps ''master'', cps ''u'', cps ''f''])"
proof -
  let ?run = "writeuserfilesnapshot (Inr (cps ''u'')) (cps ''/master/u/f'') [[120]] demo_format demo_os demo_home"
  have run: "?run = (fst ?run, snd ?run)" by simp
  show ?thesis using save_is_atomic_in_home [OF run demo_path demo_name] demo_save by blast
qed





text \<open>\<open>ab cd\<close> is wrapped after the space.\<close>

definition demo_wrapped :: editor where
  "demo_wrapped = loaddocumentfromlines demo_wenv [[97, 98, 32, 99, 100], [101]] True demo_editor"

lemma demo_wrapped_loaded: "loaded demo_wenv [97, 98, 32, 99, 100, 10, 101] demo_editor = demo_wrapped"
proof -
  have "document_bytes demo_format [[97, 98, 32, 99, 100], [101]] = Inr [97, 98, 32, 99, 100, 10, 101]"
    by (simp add: document_bytes_def separator_def line_endings_def rbind_def encode_cp_def is_surrogate_def demo_format_def)
  then have "read_document [97, 98, 32, 99, 100, 10, 101] = Inr ([[97, 98, 32, 99, 100], [101]], demo_format)"
    using read_written [of "[[97, 98, 32, 99, 100], [101]]" demo_format "[97, 98, 32, 99, 100, 10, 101]"]
    by (simp add: lines_ok_def text_ok_def cp_ok_def line_endings_def recognisable_def starts_with_def demo_format_def)
  then show ?thesis by (simp add: loaded_def demo_wrapped_def)
qed

lemma demo_rows: "fst (displaylinecount demo_wenv demo_wrapped) = 3"
  by code_simp

theorem displayed_rows_witness:
  "fst (displaylinecount demo_wenv demo_wrapped) = 3 \<and> length (fst (wrapsegments demo_wenv demo_wrapped)) = 3
    \<and> fst (displaysegment demo_wenv 1 demo_wrapped) = fst (wrapsegments demo_wenv demo_wrapped) ! 1"
proof -
  have c: "WRAP_LINE_CACHE (ws demo_editor) = []" by (simp add: demo_editor_def)
  have s: "session (loaded demo_wenv [97, 98, 32, 99, 100, 10, 101] demo_editor) demo_wrapped" unfolding demo_wrapped_loaded by (rule session.start)
  show ?thesis using displayed_rows [OF c s, of demo_wenv 1] demo_rows by simp
qed

end
