(* ===== verification/Console_Buffer.thy ===== *)
theory Console_Buffer
  imports T1_Prelude
begin

text \<open>
  The screen buffer of the interactive console of brick (\<open>brick.py\<close>, classes
  \<open>ConsoleCell\<close>, \<open>ConsoleLine\<close>, \<open>ConsoleBuffer\<close>): cells, lines, the scrolling grid with
  its bounded history, cursor motion, erasure, character output with wide and combining
  characters.  The Unicode tables the code reads through \<open>unicodedata\<close> are the parameter
  \<open>unidata\<close>; every fact holds for all tables.  Rows, columns and counts are never negative
  in the code (each assignment is clamped at 0), so they are naturals here, and arguments
  that can be negative before clamping are integers.  The invariant \<open>buf_ok\<close> says that the
  grid is rectangular and the cursor, the scroll region and the tab stops lie inside it; in
  particular every list access of the operations below is in range.
\<close>

named_theorems buf_defs \<open>definitions of the buffer operations\<close>
named_theorems buf_ok_rules \<open>preservation of the buffer invariant\<close>

section \<open>Unicode tables\<close>

record unidata =
  u_combining :: "cp \<Rightarrow> nat"
  u_category :: "cp \<Rightarrow> string"
  u_east_asian_width :: "cp \<Rightarrow> string"

definition consolecharwidth :: "unidata \<Rightarrow> cp \<Rightarrow> nat" where
  "consolecharwidth u ch =
     (if u_combining u ch \<noteq> 0 \<or> starts_with ''M'' (u_category u ch) then 0
      else if u_category u ch \<in> {''Cc'', ''Cf''} then 0
      else if u_east_asian_width u ch \<in> {''W'', ''F''} then 2 else 1)"

section \<open>Styles, cells and lines\<close>

record style =
  s_fg :: "nat option"
  s_bg :: "nat option"
  s_bold :: bool
  s_faint :: bool
  s_italic :: bool
  s_underline :: nat
  s_strike :: bool
  s_inverse :: bool
  s_conceal :: bool
  s_link :: "pystr option"
  s_blink :: bool

definition consolestyledefault :: style where
  "consolestyledefault = \<lparr>s_fg = None, s_bg = None, s_bold = False, s_faint = False,
     s_italic = False, s_underline = 0, s_strike = False, s_inverse = False,
     s_conceal = False, s_link = None, s_blink = False\<rparr>"

text \<open>The keyword arguments of \<open>consolestylewith\<close>.\<close>

datatype style_change =
    Fg "nat option" | Bg "nat option" | Bold bool | Faint bool | Italic bool
  | Underline nat | Strike bool | Inverse bool | Conceal bool | Link "pystr option" | Blink bool

fun style_set :: "style_change \<Rightarrow> style \<Rightarrow> style" where
  "style_set (Fg v) s = s\<lparr>s_fg := v\<rparr>"
| "style_set (Bg v) s = s\<lparr>s_bg := v\<rparr>"
| "style_set (Bold v) s = s\<lparr>s_bold := v\<rparr>"
| "style_set (Faint v) s = s\<lparr>s_faint := v\<rparr>"
| "style_set (Italic v) s = s\<lparr>s_italic := v\<rparr>"
| "style_set (Underline v) s = s\<lparr>s_underline := v\<rparr>"
| "style_set (Strike v) s = s\<lparr>s_strike := v\<rparr>"
| "style_set (Inverse v) s = s\<lparr>s_inverse := v\<rparr>"
| "style_set (Conceal v) s = s\<lparr>s_conceal := v\<rparr>"
| "style_set (Link v) s = s\<lparr>s_link := v\<rparr>"
| "style_set (Blink v) s = s\<lparr>s_blink := v\<rparr>"

definition consolestylewith :: "style \<Rightarrow> style_change list \<Rightarrow> style" where
  "consolestylewith s changes = fold style_set changes s"

record cell =
  c_text :: pystr
  c_width :: nat
  c_style :: style

definition blankcell :: "style \<Rightarrow> cell" where
  "blankcell st = \<lparr>c_text = [32], c_width = 1, c_style = st\<rparr>"

record line =
  l_cells :: "cell list"
  l_wrapped :: bool

definition mkline :: "nat \<Rightarrow> style \<Rightarrow> line" where
  "mkline cols st = \<lparr>l_cells = replicate (max 1 cols) (blankcell st), l_wrapped = False\<rparr>"

definition line_text :: "bool \<Rightarrow> line \<Rightarrow> pystr" where
  "line_text trim l =
     (let value = concat (map (\<lambda>c. if c_width c \<noteq> 0 then c_text c else []) (l_cells l))
      in if trim then rstrip (\<lambda>c. c = 32) value else value)"

section \<open>The buffer\<close>

definition CONSOLE_HISTORY_MAX :: nat where
  "CONSOLE_HISTORY_MAX = 5000"

record savedpos =
  v_row :: nat
  v_col :: nat
  v_style :: style
  v_origin :: bool
  v_autowrap :: bool
  v_g0 :: cp
  v_g1 :: cp
  v_charset :: nat

record buffer =
  b_rows :: nat
  b_cols :: nat
  b_lines :: "line list"
  b_history :: "line list option"
  b_row :: nat
  b_col :: nat
  b_saved :: "savedpos option"
  b_top :: nat
  b_bottom :: nat
  b_wrap_pending :: bool
  b_style :: style
  b_autowrap :: bool
  b_origin :: bool
  b_insert :: bool
  b_newline :: bool
  b_tabs :: "nat set"
  b_g0 :: cp
  b_g1 :: cp
  b_charset :: nat

definition default_tabs :: "nat \<Rightarrow> nat set" where
  "default_tabs cols = set (filter (\<lambda>c. c mod 8 = 0) [8..<cols])"

definition buffer_init :: "int \<Rightarrow> int \<Rightarrow> bool \<Rightarrow> buffer" where
  "buffer_init rows cols history =
     (let r = nat (max 1 rows); c = nat (max 2 cols) in
      \<lparr>b_rows = r, b_cols = c,
       b_lines = replicate r (mkline c consolestyledefault),
       b_history = (if history then Some [] else None),
       b_row = 0, b_col = 0, b_saved = None, b_top = 0, b_bottom = r - 1,
       b_wrap_pending = False, b_style = consolestyledefault, b_autowrap = True,
       b_origin = False, b_insert = False, b_newline = False,
       b_tabs = default_tabs c, b_g0 = 66, b_g1 = 66, b_charset = 0\<rparr>)"

definition blankline :: "buffer \<Rightarrow> line" where
  "blankline b = mkline (b_cols b) (b_style b)"

definition buffer_reset :: "buffer \<Rightarrow> buffer" where
  "buffer_reset b = b\<lparr>
     b_lines := replicate (b_rows b) (mkline (b_cols b) consolestyledefault),
     b_history := map_option (\<lambda>_. []) (b_history b),
     b_row := 0, b_col := 0, b_saved := None, b_top := 0, b_bottom := b_rows b - 1,
     b_wrap_pending := False, b_style := consolestyledefault, b_autowrap := True,
     b_origin := False, b_insert := False, b_newline := False,
     b_tabs := default_tabs (b_cols b), b_g0 := 66, b_g1 := 66, b_charset := 0\<rparr>"

definition buffer_save :: "buffer \<Rightarrow> buffer" where
  "buffer_save b = b\<lparr>b_saved := Some \<lparr>v_row = b_row b, v_col = b_col b, v_style = b_style b,
     v_origin = b_origin b, v_autowrap = b_autowrap b, v_g0 = b_g0 b, v_g1 = b_g1 b,
     v_charset = b_charset b\<rparr>\<rparr>"

definition buffer_restore :: "buffer \<Rightarrow> buffer" where
  "buffer_restore b =
     (case b_saved b of None \<Rightarrow> b
      | Some v \<Rightarrow> b\<lparr>b_row := min (b_rows b - 1) (v_row v), b_col := min (b_cols b - 1) (v_col v),
          b_style := v_style v, b_origin := v_origin v, b_autowrap := v_autowrap v,
          b_g0 := v_g0 v, b_g1 := v_g1 v, b_charset := v_charset v,
          b_wrap_pending := False\<rparr>)"

definition setpos :: "int option \<Rightarrow> int option \<Rightarrow> buffer \<Rightarrow> buffer" where
  "setpos row col b =
     (let tp = (if b_origin b then int (b_top b) else 0);
          bt = (if b_origin b then int (b_bottom b) else int (b_rows b) - 1);
          b1 = (case row of None \<Rightarrow> b
                | Some r \<Rightarrow> b\<lparr>b_row := nat (max tp (min bt
                    (r + (if b_origin b then int (b_top b) else 0))))\<rparr>);
          b2 = (case col of None \<Rightarrow> b1
                | Some c \<Rightarrow> b1\<lparr>b_col := nat (max 0 (min (int (b_cols b) - 1) c))\<rparr>)
      in b2\<lparr>b_wrap_pending := False\<rparr>)"

definition cells_at :: "buffer \<Rightarrow> nat \<Rightarrow> cell list" where
  "cells_at b r = l_cells (b_lines b ! r)"

definition set_cells :: "nat \<Rightarrow> cell list \<Rightarrow> buffer \<Rightarrow> buffer" where
  "set_cells r cs b = b\<lparr>b_lines := (b_lines b)[r := (b_lines b ! r)\<lparr>l_cells := cs\<rparr>]\<rparr>"

definition set_cell :: "nat \<Rightarrow> nat \<Rightarrow> cell \<Rightarrow> buffer \<Rightarrow> buffer" where
  "set_cell r c x b = set_cells r ((cells_at b r)[c := x]) b"

definition set_wrapped :: "nat \<Rightarrow> buffer \<Rightarrow> buffer" where
  "set_wrapped r b = b\<lparr>b_lines := (b_lines b)[r := (b_lines b ! r)\<lparr>l_wrapped := True\<rparr>]\<rparr>"

definition clearwide :: "nat \<Rightarrow> nat \<Rightarrow> buffer \<Rightarrow> buffer" where
  "clearwide row col b =
     (if \<not> (row < b_rows b \<and> col < b_cols b) then b
      else if c_width (cells_at b row ! col) = 0 \<and> 0 < col
        then set_cell row (col - 1) (blankcell (b_style b)) b
      else if c_width (cells_at b row ! col) = 2 \<and> col + 1 < b_cols b
        then set_cell row (col + 1) (blankcell (b_style b)) b
      else b)"

definition erasecells :: "nat \<Rightarrow> nat \<Rightarrow> nat \<Rightarrow> buffer \<Rightarrow> buffer" where
  "erasecells row start0 end0 b =
     (if \<not> row < b_rows b then b
      else let start = min (b_cols b) start0; stop = max start (min (b_cols b) end0);
               b1 = (if start < stop then clearwide row (stop - 1) (clearwide row start b) else b)
           in fold (\<lambda>column. set_cell row column (blankcell (b_style b1))) [start..<stop] b1)"

definition list_pop :: "nat \<Rightarrow> 'a list \<Rightarrow> 'a list" where
  "list_pop i xs = take i xs @ drop (Suc i) xs"

definition list_insert :: "nat \<Rightarrow> 'a \<Rightarrow> 'a list \<Rightarrow> 'a list" where
  "list_insert i x xs = take i xs @ x # drop i xs"

text \<open>\<open>deque(maxlen=CONSOLE_HISTORY_MAX)\<close>: appending to a full deque drops its oldest line.\<close>

definition hist_trim :: "line list \<Rightarrow> line list" where
  "hist_trim h = drop (length h - CONSOLE_HISTORY_MAX) h"

definition hist_append :: "line \<Rightarrow> line list \<Rightarrow> line list" where
  "hist_append l h = hist_trim (h @ [l])"

definition scrollup_once :: "nat \<Rightarrow> nat \<Rightarrow> buffer \<Rightarrow> buffer" where
  "scrollup_once tp bt b = b\<lparr>
     b_history := (if tp = 0 \<and> bt = b_rows b - 1
        then map_option (hist_append (b_lines b ! tp)) (b_history b) else b_history b),
     b_lines := list_insert bt (blankline b) (list_pop tp (b_lines b))\<rparr>"

definition scrolldown_once :: "nat \<Rightarrow> nat \<Rightarrow> buffer \<Rightarrow> buffer" where
  "scrolldown_once tp bt b =
     b\<lparr>b_lines := list_insert tp (blankline b) (list_pop bt (b_lines b))\<rparr>"

definition scrollup_in :: "nat \<Rightarrow> nat \<Rightarrow> nat \<Rightarrow> buffer \<Rightarrow> buffer" where
  "scrollup_in amount tp bt0 b =
     (let bt = min (b_rows b - 1) bt0 in
      if bt < tp then b
      else (scrollup_once tp bt ^^ max 1 (min amount (bt - tp + 1))) b)"

definition scrolldown_in :: "nat \<Rightarrow> nat \<Rightarrow> nat \<Rightarrow> buffer \<Rightarrow> buffer" where
  "scrolldown_in amount tp bt0 b =
     (let bt = min (b_rows b - 1) bt0 in
      if bt < tp then b
      else (scrolldown_once tp bt ^^ max 1 (min amount (bt - tp + 1))) b)"

text \<open>With \<open>top\<close> and \<open>bottom\<close> left at \<open>None\<close> the scroll region is used as it is.\<close>

definition scrollup :: "nat \<Rightarrow> buffer \<Rightarrow> buffer" where
  "scrollup amount b =
     (if b_bottom b < b_top b then b
      else (scrollup_once (b_top b) (b_bottom b) ^^ max 1 (min amount (b_bottom b - b_top b + 1))) b)"

definition scrolldown :: "nat \<Rightarrow> buffer \<Rightarrow> buffer" where
  "scrolldown amount b =
     (if b_bottom b < b_top b then b
      else (scrolldown_once (b_top b) (b_bottom b) ^^ max 1 (min amount (b_bottom b - b_top b + 1))) b)"

definition index_down :: "buffer \<Rightarrow> buffer" where
  "index_down b =
     (let b1 = (if b_row b = b_bottom b then scrollup 1 b
                else b\<lparr>b_row := min (b_rows b - 1) (b_row b + 1)\<rparr>)
      in b1\<lparr>b_wrap_pending := False\<rparr>)"

definition reverseindex :: "buffer \<Rightarrow> buffer" where
  "reverseindex b =
     (let b1 = (if b_row b = b_top b then scrolldown 1 b
                else b\<lparr>b_row := b_row b - 1\<rparr>)
      in b1\<lparr>b_wrap_pending := False\<rparr>)"

definition carriage :: "buffer \<Rightarrow> buffer" where
  "carriage b = b\<lparr>b_col := 0, b_wrap_pending := False\<rparr>"

definition linefeed :: "buffer \<Rightarrow> buffer" where
  "linefeed b = (let b1 = index_down b in if b_newline b1 then carriage b1 else b1)"

definition buf_backspace :: "buffer \<Rightarrow> buffer" where
  "buf_backspace b =
     (let c1 = b_col b - 1;
          c2 = (if c_width (cells_at b (b_row b) ! c1) = 0 \<and> 0 < c1 then c1 - 1 else c1)
      in b\<lparr>b_col := c2, b_wrap_pending := False\<rparr>)"

definition tab_forward :: "buffer \<Rightarrow> buffer" where
  "tab_forward b =
     (let choices = Set.filter (\<lambda>v. b_col b < v) (b_tabs b) in
      b\<lparr>b_col := (if choices = {} then b_cols b - 1 else Min choices), b_wrap_pending := False\<rparr>)"

definition tab_backward :: "buffer \<Rightarrow> buffer" where
  "tab_backward b =
     (let choices = Set.filter (\<lambda>v. v < b_col b) (b_tabs b) in
      b\<lparr>b_col := (if choices = {} then 0 else Max choices), b_wrap_pending := False\<rparr>)"

section \<open>Character output\<close>

text \<open>The column a combining character attaches to: the nearest column at or to the left of
  \<open>start\<close> whose cell has a width; \<open>n\<close> counts the columns left, so \<open>n = 0\<close> is Python's
  \<open>column = -1\<close>.\<close>

fun base_column :: "cell list \<Rightarrow> nat \<Rightarrow> nat option" where
  "base_column cs 0 = None"
| "base_column cs (Suc n) = (if c_width (cs ! n) = 0 then base_column cs n else Some n)"

definition put_combining :: "cp \<Rightarrow> buffer \<Rightarrow> buffer" where
  "put_combining ch b =
     (let n = (if b_wrap_pending b then Suc (b_col b) else b_col b);
          cs = cells_at b (b_row b) in
      case base_column cs n of None \<Rightarrow> b
      | Some k \<Rightarrow> set_cell (b_row b) k ((cs ! k)\<lparr>c_text := c_text (cs ! k) @ [ch]\<rparr>) b)"

definition wrap_line :: "buffer \<Rightarrow> buffer" where
  "wrap_line b = index_down (carriage (set_wrapped (b_row b) b))"

definition put_wrap_pending :: "buffer \<Rightarrow> buffer" where
  "put_wrap_pending b =
     (if b_wrap_pending b
      then (if b_autowrap b then wrap_line b else b\<lparr>b_col := b_cols b - 1\<rparr>)\<lparr>b_wrap_pending := False\<rparr>
      else b)"

definition insert_blank :: "buffer \<Rightarrow> buffer" where
  "insert_blank b = set_cells (b_row b)
     (butlast (list_insert (b_col b) (blankcell (b_style b)) (cells_at b (b_row b)))) b"

definition put_cells :: "cp \<Rightarrow> nat \<Rightarrow> buffer \<Rightarrow> buffer" where
  "put_cells ch width b0 =
     (let b = clearwide (b_row b0) (b_col b0) b0;
          b1 = set_cell (b_row b) (b_col b) \<lparr>c_text = [ch], c_width = width, c_style = b_style b\<rparr> b;
          b2 = (if width = 2 \<and> b_col b1 + 1 < b_cols b1
                then set_cell (b_row b1) (b_col b1 + 1) \<lparr>c_text = [], c_width = 0, c_style = b_style b1\<rparr> b1
                else b1)
      in if b_cols b2 \<le> b_col b2 + width
         then b2\<lparr>b_col := b_cols b2 - 1, b_wrap_pending := True\<rparr>
         else b2\<lparr>b_col := b_col b2 + width\<rparr>)"

definition put :: "unidata \<Rightarrow> cp \<Rightarrow> buffer \<Rightarrow> buffer" where
  "put u ch b =
     (let width0 = consolecharwidth u ch in
      if width0 = 0 then put_combining ch b
      else
        let b1 = put_wrap_pending b;
            overflow = (width0 = 2 \<and> b_col b1 = b_cols b1 - 1);
            b2 = (if overflow \<and> b_autowrap b1 then wrap_line b1 else b1);
            width = (if overflow \<and> \<not> b_autowrap b1 then 1 else width0);
            b3 = (if b_insert b2 then (insert_blank ^^ width) b2 else b2)
        in put_cells ch width b3)"

section \<open>Erasing\<close>

definition erase_display :: "nat \<Rightarrow> buffer \<Rightarrow> buffer" where
  "erase_display mode b =
     (if mode = 0 then
        fold (\<lambda>row. erasecells row 0 (b_cols b)) [b_row b + 1..<b_rows b]
          (erasecells (b_row b) (b_col b) (b_cols b) b)
      else if mode = 1 then
        erasecells (b_row b) 0 (b_col b + 1)
          (fold (\<lambda>row. erasecells row 0 (b_cols b)) [0..<b_row b] b)
      else if mode = 2 \<or> mode = 3 then
        (let b1 = fold (\<lambda>row. erasecells row 0 (b_cols b)) [0..<b_rows b] b in
         if mode = 3 then b1\<lparr>b_history := map_option (\<lambda>_. []) (b_history b1)\<rparr> else b1)
      else b)"

definition erase_line :: "nat \<Rightarrow> buffer \<Rightarrow> buffer" where
  "erase_line mode b =
     (if mode = 0 then erasecells (b_row b) (b_col b) (b_cols b) b
      else if mode = 1 then erasecells (b_row b) 0 (b_col b + 1) b
      else if mode = 2 then erasecells (b_row b) 0 (b_cols b) b
      else b)"


section \<open>The invariant\<close>

definition line_ok :: "nat \<Rightarrow> line \<Rightarrow> bool" where
  "line_ok n l \<longleftrightarrow> length (l_cells l) = n"

definition lines_ok :: "nat \<Rightarrow> line list \<Rightarrow> bool" where
  "lines_ok n ls \<longleftrightarrow> (\<forall>l \<in> set ls. line_ok n l)"

definition hist_ok :: "nat \<Rightarrow> line list option \<Rightarrow> bool" where
  "hist_ok n ho \<longleftrightarrow>
     (case ho of None \<Rightarrow> True | Some h \<Rightarrow> length h \<le> CONSOLE_HISTORY_MAX \<and> lines_ok n h)"

definition buf_ok :: "buffer \<Rightarrow> bool" where
  "buf_ok b \<longleftrightarrow>
     1 \<le> b_rows b \<and> 2 \<le> b_cols b \<and> length (b_lines b) = b_rows b \<and> lines_ok (b_cols b) (b_lines b)
     \<and> hist_ok (b_cols b) (b_history b) \<and> b_row b < b_rows b \<and> b_col b < b_cols b
     \<and> b_top b \<le> b_bottom b \<and> b_bottom b < b_rows b \<and> b_tabs b \<subseteq> {..<b_cols b}"

text \<open>Two buffers that differ at most in the contents of the grid.\<close>

definition same_frame :: "buffer \<Rightarrow> buffer \<Rightarrow> bool" where
  "same_frame b b' \<longleftrightarrow> b'\<lparr>b_lines := []\<rparr> = b\<lparr>b_lines := []\<rparr>"

lemma same_frameD:
  assumes "same_frame b b'"
  shows "b_rows b' = b_rows b" "b_cols b' = b_cols b" "b_history b' = b_history b"
    "b_row b' = b_row b" "b_col b' = b_col b" "b_saved b' = b_saved b" "b_top b' = b_top b"
    "b_bottom b' = b_bottom b" "b_wrap_pending b' = b_wrap_pending b" "b_style b' = b_style b"
    "b_autowrap b' = b_autowrap b" "b_origin b' = b_origin b" "b_insert b' = b_insert b"
    "b_newline b' = b_newline b" "b_tabs b' = b_tabs b" "b_g0 b' = b_g0 b" "b_g1 b' = b_g1 b"
    "b_charset b' = b_charset b"
  using assms by (cases b; cases b'; simp add: same_frame_def)+

lemma same_frame_refl [simp]: "same_frame b b"
  by (simp add: same_frame_def)

lemma same_frame_trans: "same_frame a b \<Longrightarrow> same_frame b c \<Longrightarrow> same_frame a c"
  by (simp add: same_frame_def)

text \<open>A grid update: the frame and the shape of the grid stay.\<close>

definition grid_step :: "buffer \<Rightarrow> buffer \<Rightarrow> bool" where
  "grid_step b b' \<longleftrightarrow> same_frame b b' \<and> length (b_lines b') = length (b_lines b)
     \<and> (lines_ok (b_cols b) (b_lines b) \<longrightarrow> lines_ok (b_cols b) (b_lines b'))"

lemma grid_step_refl [simp]: "grid_step b b"
  by (simp add: grid_step_def)

lemma grid_step_trans: "grid_step a b \<Longrightarrow> grid_step b c \<Longrightarrow> grid_step a c"
  unfolding grid_step_def using same_frame_trans same_frameD(2) by metis

lemma grid_step_frame: "grid_step b b' \<Longrightarrow> same_frame b b'"
  by (simp add: grid_step_def)

lemma grid_step_ok: "grid_step b b' \<Longrightarrow> buf_ok b \<Longrightarrow> buf_ok b'"
  unfolding grid_step_def buf_ok_def
  by (auto dest: same_frameD simp: same_frameD(1) same_frameD(2) same_frameD(3) same_frameD(4)
      same_frameD(5) same_frameD(7) same_frameD(8) same_frameD(15))

lemma lines_ok_update: "lines_ok n ls \<Longrightarrow> line_ok n l \<Longrightarrow> lines_ok n (ls[i := l])"
  unfolding lines_ok_def using set_update_subset_insert by fastforce

lemma lines_ok_nth: "lines_ok n ls \<Longrightarrow> i < length ls \<Longrightarrow> length (l_cells (ls ! i)) = n"
  by (simp add: lines_ok_def line_ok_def)

lemma buf_ok_cells: "buf_ok b \<Longrightarrow> r < b_rows b \<Longrightarrow> length (cells_at b r) = b_cols b"
  by (simp add: cells_at_def buf_ok_def lines_ok_nth)

lemma set_cells_same_frame: "same_frame b (set_cells r cs b)"
  by (simp add: same_frame_def set_cells_def)

lemma set_cells_grid:
  "length cs = length (cells_at b r) \<Longrightarrow> grid_step b (set_cells r cs b)"
proof (cases "r < length (b_lines b)")
  case True
  assume len: "length cs = length (cells_at b r)"
  have "lines_ok (b_cols b) (b_lines (set_cells r cs b))" if ok: "lines_ok (b_cols b) (b_lines b)"
    unfolding set_cells_def
    using lines_ok_update [OF ok, of "(b_lines b ! r)\<lparr>l_cells := cs\<rparr>" r]
      lines_ok_nth [OF ok True] len by (simp add: line_ok_def cells_at_def)
  then show ?thesis
    by (simp add: grid_step_def set_cells_same_frame) (simp add: set_cells_def)
next
  case False
  then show ?thesis
    by (simp add: set_cells_def list_update_beyond)
qed

lemma set_cell_grid: "grid_step b (set_cell r c x b)"
  unfolding set_cell_def by (rule set_cells_grid) simp

lemma set_wrapped_grid: "grid_step b (set_wrapped r b)"
proof (cases "r < length (b_lines b)")
  case True
  have "lines_ok (b_cols b) (b_lines (set_wrapped r b))" if ok: "lines_ok (b_cols b) (b_lines b)"
    unfolding set_wrapped_def
    using lines_ok_update [OF ok, of "(b_lines b ! r)\<lparr>l_wrapped := True\<rparr>" r]
      lines_ok_nth [OF ok True] by (simp add: line_ok_def)
  then show ?thesis
    by (simp add: grid_step_def same_frame_def) (simp add: set_wrapped_def)
next
  case False
  then show ?thesis
    by (simp add: set_wrapped_def list_update_beyond)
qed

lemma clearwide_grid: "grid_step b (clearwide r c b)"
  by (simp add: clearwide_def set_cell_grid)

lemma fold_grid:
  "(\<And>x b. grid_step b (f x b)) \<Longrightarrow> grid_step b (fold f xs b)"
  by (induction xs arbitrary: b) (auto intro: grid_step_trans)

lemma erasecells_grid: "grid_step b (erasecells r s e b)"
  unfolding erasecells_def Let_def
  by (auto intro!: fold_grid set_cell_grid
      intro: grid_step_trans [OF _ fold_grid] grid_step_trans [OF clearwide_grid clearwide_grid] set_cell_grid)

lemma insert_blank_grid:
  assumes "cells_at b (b_row b) \<noteq> []"
  shows "grid_step b (insert_blank b)"
  unfolding insert_blank_def using assms
  by (intro set_cells_grid) (simp add: list_insert_def)

lemma erase_line_grid: "grid_step b (erase_line m b)"
  by (simp add: erase_line_def erasecells_grid)

lemma put_combining_grid: "grid_step b (put_combining ch b)"
  by (simp add: put_combining_def Let_def set_cell_grid split: option.split)

lemmas grid_rules = set_cell_grid set_wrapped_grid clearwide_grid erasecells_grid
  erase_line_grid put_combining_grid

section \<open>Every operation keeps the invariant\<close>

lemma length_list_pop: "i < length xs \<Longrightarrow> length (list_pop i xs) = length xs - 1"
  by (simp add: list_pop_def)

lemma length_list_insert: "length (list_insert i x xs) = Suc (length xs)"
  by (simp add: list_insert_def)

lemma set_list_pop: "set (list_pop i xs) \<subseteq> set xs"
  using set_take_subset set_drop_subset by (fastforce simp: list_pop_def)

lemma set_list_insert: "set (list_insert i x xs) = insert x (set xs)"
  by (auto simp: list_insert_def dest: in_set_takeD in_set_dropD)
     (metis Un_iff append_take_drop_id set_append)

lemma lines_ok_shift:
  "lines_ok n ls \<Longrightarrow> line_ok n l \<Longrightarrow> lines_ok n (list_insert j l (list_pop i ls))"
  unfolding lines_ok_def set_list_insert using set_list_pop by fastforce

lemma blankline_ok: "1 \<le> b_cols b \<Longrightarrow> line_ok (b_cols b) (blankline b)"
  by (simp add: blankline_def mkline_def line_ok_def)

lemma hist_trim_length: "length (hist_trim h) \<le> CONSOLE_HISTORY_MAX"
  by (simp add: hist_trim_def)

lemma lines_ok_hist_trim: "lines_ok n h \<Longrightarrow> lines_ok n (hist_trim h)"
  by (auto simp: lines_ok_def hist_trim_def dest: in_set_dropD)

lemma lines_ok_snoc [simp]: "lines_ok n (h @ [l]) \<longleftrightarrow> lines_ok n h \<and> line_ok n l"
  by (auto simp: lines_ok_def)

lemma hist_append_ok: "hist_ok n ho \<Longrightarrow> line_ok n l \<Longrightarrow> hist_ok n (map_option (hist_append l) ho)"
  by (cases ho)
     (simp_all add: hist_ok_def hist_append_def hist_trim_length lines_ok_hist_trim lines_ok_snoc)

lemma scrollup_once_ok:
  assumes ok: "buf_ok b" and tp: "tp < b_rows b"
  shows "buf_ok (scrollup_once tp bt b)"
proof -
  from ok tp have l: "line_ok (b_cols b) (b_lines b ! tp)"
    by (simp add: buf_ok_def lines_ok_def)
  from ok have bl: "line_ok (b_cols b) (blankline b)"
    by (simp add: buf_ok_def blankline_ok)
  show ?thesis
    using ok tp l bl
    by (auto simp: buf_ok_def scrollup_once_def length_list_insert length_list_pop lines_ok_shift
        hist_append_ok)
qed

lemma scrolldown_once_ok:
  assumes ok: "buf_ok b" and bt: "bt < b_rows b"
  shows "buf_ok (scrolldown_once tp bt b)"
proof -
  from ok have bl: "line_ok (b_cols b) (blankline b)"
    by (simp add: buf_ok_def blankline_ok)
  show ?thesis
    using ok bt bl
    by (simp add: buf_ok_def scrolldown_once_def length_list_insert length_list_pop lines_ok_shift)
qed

lemma scroll_once_rows [simp]:
  "b_rows (scrollup_once tp bt b) = b_rows b" "b_rows (scrolldown_once tp bt b) = b_rows b"
  "b_cols (scrollup_once tp bt b) = b_cols b" "b_cols (scrolldown_once tp bt b) = b_cols b"
  by (simp_all add: scrollup_once_def scrolldown_once_def)

lemma funpow_scrollup_ok:
  "buf_ok b \<Longrightarrow> tp < b_rows b \<Longrightarrow> buf_ok ((scrollup_once tp bt ^^ n) b) \<and> b_rows ((scrollup_once tp bt ^^ n) b) = b_rows b"
  by (induction n) (auto intro: scrollup_once_ok)

lemma funpow_scrolldown_ok:
  "buf_ok b \<Longrightarrow> bt < b_rows b \<Longrightarrow> buf_ok ((scrolldown_once tp bt ^^ n) b) \<and> b_rows ((scrolldown_once tp bt ^^ n) b) = b_rows b"
  by (induction n) (auto intro: scrolldown_once_ok)

lemma scrollup_in_ok [buf_ok_rules]:
  assumes "buf_ok b"
  shows "buf_ok (scrollup_in n tp bt b)"
proof -
  from assms have "1 \<le> b_rows b" by (simp add: buf_ok_def)
  then have bt: "min (b_rows b - 1) bt < b_rows b" by linarith
  show ?thesis
  proof (cases "min (b_rows b - 1) bt < tp")
    case True
    with assms show ?thesis by (simp add: scrollup_in_def Let_def)
  next
    case False
    with bt have "tp < b_rows b" by linarith
    with bt False show ?thesis
      using funpow_scrollup_ok [OF assms] by (simp add: scrollup_in_def Let_def)
  qed
qed

lemma scrolldown_in_ok [buf_ok_rules]:
  assumes "buf_ok b"
  shows "buf_ok (scrolldown_in n tp bt b)"
proof -
  from assms have "1 \<le> b_rows b" by (simp add: buf_ok_def)
  then have bt: "min (b_rows b - 1) bt < b_rows b" by linarith
  show ?thesis
  proof (cases "min (b_rows b - 1) bt < tp")
    case True
    with assms show ?thesis by (simp add: scrolldown_in_def Let_def)
  next
    case False
    with bt have "tp < b_rows b" by linarith
    with bt False show ?thesis
      using funpow_scrolldown_ok [OF assms] by (simp add: scrolldown_in_def Let_def)
  qed
qed

lemma scrollup_ok [buf_ok_rules]:
  assumes "buf_ok b"
  shows "buf_ok (scrollup n b)"
proof -
  from assms have "b_top b \<le> b_bottom b" "b_bottom b < b_rows b" by (simp_all add: buf_ok_def)
  then show ?thesis
    unfolding scrollup_def using funpow_scrollup_ok [OF assms] by simp
qed

lemma scrolldown_ok [buf_ok_rules]:
  assumes "buf_ok b"
  shows "buf_ok (scrolldown n b)"
proof -
  from assms have "b_top b \<le> b_bottom b" "b_bottom b < b_rows b" by (simp_all add: buf_ok_def)
  then show ?thesis
    unfolding scrolldown_def using funpow_scrolldown_ok [OF assms] by simp
qed

text \<open>Assignments to the remaining fields.\<close>

lemma buf_ok_fields [simp]:
  "buf_ok (b\<lparr>b_wrap_pending := w\<rparr>) = buf_ok b"
  "buf_ok (b\<lparr>b_style := st\<rparr>) = buf_ok b"
  "buf_ok (b\<lparr>b_saved := sv\<rparr>) = buf_ok b"
  "buf_ok (b\<lparr>b_autowrap := w\<rparr>) = buf_ok b"
  "buf_ok (b\<lparr>b_origin := w\<rparr>) = buf_ok b"
  "buf_ok (b\<lparr>b_insert := w\<rparr>) = buf_ok b"
  "buf_ok (b\<lparr>b_newline := w\<rparr>) = buf_ok b"
  "buf_ok (b\<lparr>b_g0 := c\<rparr>) = buf_ok b"
  "buf_ok (b\<lparr>b_g1 := c\<rparr>) = buf_ok b"
  "buf_ok (b\<lparr>b_charset := n\<rparr>) = buf_ok b"
  by (simp_all add: buf_ok_def)

lemma buf_ok_row: "buf_ok b \<Longrightarrow> r < b_rows b \<Longrightarrow> buf_ok (b\<lparr>b_row := r\<rparr>)"
  by (simp add: buf_ok_def)

lemma buf_ok_col: "buf_ok b \<Longrightarrow> c < b_cols b \<Longrightarrow> buf_ok (b\<lparr>b_col := c\<rparr>)"
  by (simp add: buf_ok_def)

lemma mkline_ok: "1 \<le> n \<Longrightarrow> line_ok n (mkline n st)"
  by (simp add: mkline_def line_ok_def)

lemma default_tabs_ok: "default_tabs n \<subseteq> {..<n}"
  by (auto simp: default_tabs_def)

lemma buffer_init_ok [buf_ok_rules]: "buf_ok (buffer_init r c h)"
  by (auto simp: buffer_init_def Let_def buf_ok_def lines_ok_def hist_ok_def mkline_ok default_tabs_def)

lemma buffer_reset_ok [buf_ok_rules]: "buf_ok b \<Longrightarrow> buf_ok (buffer_reset b)"
  using default_tabs_ok [of "b_cols b"]
  by (auto simp: buffer_reset_def buf_ok_def lines_ok_def hist_ok_def mkline_ok split: option.splits)

lemma buffer_save_ok [buf_ok_rules]: "buf_ok b \<Longrightarrow> buf_ok (buffer_save b)"
  by (simp add: buffer_save_def)

lemma buffer_restore_ok [buf_ok_rules]: "buf_ok b \<Longrightarrow> buf_ok (buffer_restore b)"
  by (auto simp: buffer_restore_def buf_ok_def split: option.split)

lemma setpos_ok [buf_ok_rules]: "buf_ok b \<Longrightarrow> buf_ok (setpos r c b)"
  by (auto simp: setpos_def Let_def buf_ok_def split: option.split)

lemma index_down_ok [buf_ok_rules]: "buf_ok b \<Longrightarrow> buf_ok (index_down b)"
  unfolding index_down_def Let_def
  by (auto intro!: scrollup_ok buf_ok_row simp: buf_ok_def [of b])

lemma reverseindex_ok [buf_ok_rules]: "buf_ok b \<Longrightarrow> buf_ok (reverseindex b)"
  unfolding reverseindex_def Let_def
  by (auto intro!: scrolldown_ok buf_ok_row simp: buf_ok_def [of b])

lemma carriage_ok [buf_ok_rules]: "buf_ok b \<Longrightarrow> buf_ok (carriage b)"
  by (simp add: carriage_def buf_ok_def)

lemma linefeed_ok [buf_ok_rules]: "buf_ok b \<Longrightarrow> buf_ok (linefeed b)"
  by (simp add: linefeed_def Let_def index_down_ok carriage_ok)

lemma buf_backspace_ok [buf_ok_rules]: "buf_ok b \<Longrightarrow> buf_ok (buf_backspace b)"
  by (auto simp: buf_backspace_def Let_def buf_ok_def)

lemma tab_forward_ok [buf_ok_rules]:
  assumes "buf_ok b"
  shows "buf_ok (tab_forward b)"
proof -
  let ?C = "{v \<in> b_tabs b. b_col b < v}"
  have "Min ?C \<in> ?C" if "?C \<noteq> {}"
    using that assms by (intro Min_in) (auto simp: buf_ok_def intro: finite_subset)
  then have "Min ?C < b_cols b" if "?C \<noteq> {}"
    using that assms by (auto simp: buf_ok_def)
  with assms show ?thesis
    by (auto simp: tab_forward_def Let_def buf_ok_def)
qed

lemma tab_backward_ok [buf_ok_rules]:
  assumes "buf_ok b"
  shows "buf_ok (tab_backward b)"
proof -
  let ?C = "{v \<in> b_tabs b. v < b_col b}"
  have "Max ?C \<in> ?C" if "?C \<noteq> {}"
    using that assms by (intro Max_in) (auto simp: buf_ok_def intro: finite_subset)
  then have "Max ?C < b_cols b" if "?C \<noteq> {}"
    using that assms by (auto simp: buf_ok_def)
  with assms show ?thesis
    by (auto simp: tab_backward_def Let_def buf_ok_def)
qed

lemma erasecells_ok [buf_ok_rules]: "buf_ok b \<Longrightarrow> buf_ok (erasecells r s e b)"
  by (rule grid_step_ok [OF erasecells_grid])

lemma erase_line_ok [buf_ok_rules]: "buf_ok b \<Longrightarrow> buf_ok (erase_line m b)"
  by (rule grid_step_ok [OF erase_line_grid])

lemma fold_erase_ok: "buf_ok b \<Longrightarrow> buf_ok (fold (\<lambda>row. erasecells row 0 n) rs b)"
  by (rule grid_step_ok [OF fold_grid [OF erasecells_grid]])

lemma buf_ok_clear_history: "buf_ok b \<Longrightarrow> buf_ok (b\<lparr>b_history := map_option (\<lambda>_. []) (b_history b)\<rparr>)"
  by (cases "b_history b") (simp_all add: buf_ok_def hist_ok_def lines_ok_def)

lemma erase_display_ok [buf_ok_rules]: "buf_ok b \<Longrightarrow> buf_ok (erase_display m b)"
  by (auto simp: erase_display_def Let_def intro!: fold_erase_ok erasecells_ok buf_ok_clear_history)

lemma wrap_line_ok [buf_ok_rules]: "buf_ok b \<Longrightarrow> buf_ok (wrap_line b)"
  unfolding wrap_line_def
  by (intro index_down_ok carriage_ok grid_step_ok [OF set_wrapped_grid])

lemma put_wrap_pending_ok [buf_ok_rules]: "buf_ok b \<Longrightarrow> buf_ok (put_wrap_pending b)"
  by (auto simp: put_wrap_pending_def intro!: wrap_line_ok buf_ok_col) (simp add: buf_ok_def)

lemma insert_blank_step: "buf_ok b \<Longrightarrow> grid_step b (insert_blank b)"
  using buf_ok_cells [of b "b_row b"]
  by (intro insert_blank_grid) (auto simp: buf_ok_def)

lemma funpow_insert_blank_ok: "buf_ok b \<Longrightarrow> buf_ok ((insert_blank ^^ n) b)"
  by (induction n) (auto intro: grid_step_ok insert_blank_step)

lemma put_cells_ok [buf_ok_rules]:
  assumes "buf_ok b"
  shows "buf_ok (put_cells ch w b)"
proof -
  define b0 where "b0 = clearwide (b_row b) (b_col b) b"
  define b1 where "b1 = set_cell (b_row b0) (b_col b0) \<lparr>c_text = [ch], c_width = w, c_style = b_style b0\<rparr> b0"
  define b2 where "b2 = (if w = 2 \<and> b_col b1 + 1 < b_cols b1
    then set_cell (b_row b1) (b_col b1 + 1) \<lparr>c_text = [], c_width = 0, c_style = b_style b1\<rparr> b1 else b1)"
  have "grid_step b b0" "grid_step b0 b1" "grid_step b1 b2"
    by (simp_all add: b0_def b1_def b2_def clearwide_grid set_cell_grid)
  then have "buf_ok b2" using assms by (blast intro: grid_step_ok)
  then show ?thesis
    unfolding put_cells_def Let_def b0_def [symmetric] b1_def [symmetric] b2_def [symmetric]
    by (auto intro!: buf_ok_col) (simp add: buf_ok_def)
qed

lemma put_ok [buf_ok_rules]: "buf_ok b \<Longrightarrow> buf_ok (put u ch b)"
  unfolding put_def Let_def
  by (auto intro!: put_cells_ok funpow_insert_blank_ok grid_step_ok [OF insert_blank_step]
      put_wrap_pending_ok wrap_line_ok grid_step_ok [OF put_combining_grid])

lemmas buffer_defs [buf_defs] =
  setpos_def set_cells_def set_cell_def set_wrapped_def clearwide_def
  carriage_def Let_def

end
