(* ===== verification/Console_Resize.thy ===== *)
theory Console_Resize
  imports Console_Buffer
begin

text \<open>
  \<open>ConsoleBuffer.resize\<close>: when the width changes, a buffer with history joins wrapped rows
  into logical lines and lays them out again at the new width, following the cursor; a buffer
  without history truncates or pads its rows.  The loop that moves a cursor standing beyond
  the end of its line is a recursion on the distance left.
\<close>

section \<open>Joining rows into logical lines\<close>

definition default_blank :: "cell \<Rightarrow> bool" where
  "default_blank c \<longleftrightarrow> c_text c = [32] \<and> c_style c = consolestyledefault"

definition logical_cells :: "line \<Rightarrow> cell list" where
  "logical_cells l =
     (let cells = filter (\<lambda>c. c_width c \<noteq> 0) (l_cells l)
      in if l_wrapped l then cells else rstrip default_blank cells)"

record grouping =
  g_logical :: "cell list list"
  g_group :: "cell list"
  g_width :: nat
  g_cursor :: "nat option"
  g_offset :: nat

fun group_lines :: "nat \<Rightarrow> nat \<Rightarrow> nat \<Rightarrow> grouping \<Rightarrow> line list \<Rightarrow> grouping" where
  "group_lines source column idx g [] = g"
| "group_lines source column idx g (l # ls) =
     (let cells = logical_cells l;
          g1 = (if idx = source
                then g\<lparr>g_cursor := Some (length (g_logical g)), g_offset := g_width g + column\<rparr> else g);
          group = g_group g1 @ cells;
          width = g_width g1 + sum_list (map (\<lambda>c. max 1 (c_width c)) cells);
          g2 = (if l_wrapped l then g1\<lparr>g_group := group, g_width := width\<rparr>
                else g1\<lparr>g_logical := g_logical g1 @ [group], g_group := [], g_width := 0\<rparr>)
      in group_lines source column (Suc idx) g2 ls)"

definition group_all :: "buffer \<Rightarrow> line list \<Rightarrow> grouping" where
  "group_all b history =
     (let g = group_lines (length history + b_row b) (min (b_col b) (b_cols b - 1)) 0
            \<lparr>g_logical = [], g_group = [], g_width = 0, g_cursor = None, g_offset = 0\<rparr>
            (history @ b_lines b)
      in if g_group g \<noteq> [] \<or> g_logical g = []
         then g\<lparr>g_logical := g_logical g @ [g_group g]\<rparr> else g)"

section \<open>Laying logical lines out at the new width\<close>

record rebuild =
  r_lines :: "line list"
  r_column :: nat
  r_group_column :: nat
  r_abs :: "nat option"
  r_abs_column :: nat

definition wrap_last :: "line list \<Rightarrow> line list" where
  "wrap_last ls = butlast ls @ [(last ls)\<lparr>l_wrapped := True\<rparr>]"

definition new_line :: "nat \<Rightarrow> line" where
  "new_line cols = mkline cols consolestyledefault"

definition set_last_cell :: "nat \<Rightarrow> cell \<Rightarrow> line list \<Rightarrow> line list" where
  "set_last_cell k x ls = butlast ls @ [(last ls)\<lparr>l_cells := (l_cells (last ls))[k := x]\<rparr>]"

definition rebuild_cell :: "nat \<Rightarrow> bool \<Rightarrow> nat \<Rightarrow> cell \<Rightarrow> rebuild \<Rightarrow> rebuild" where
  "rebuild_cell cols is_cursor offset c r =
     (let width = max 1 (min 2 (c_width c));
          r1 = (if r_column r + width > cols
                then r\<lparr>r_lines := wrap_last (r_lines r) @ [new_line cols], r_column := 0\<rparr> else r);
          r2 = (if is_cursor \<and> r_abs r1 = None \<and> offset \<le> r_group_column r1
                then r1\<lparr>r_abs := Some (length (r_lines r1) - 1), r_abs_column := r_column r1\<rparr> else r1);
          ls1 = set_last_cell (r_column r2)
                  \<lparr>c_text = c_text c, c_width = width, c_style = c_style c\<rparr> (r_lines r2);
          ls2 = (if width = 2 \<and> r_column r2 + 1 < cols
                 then set_last_cell (r_column r2 + 1)
                   \<lparr>c_text = [], c_width = 0, c_style = c_style c\<rparr> ls1 else ls1)
      in r2\<lparr>r_lines := ls2, r_column := r_column r2 + width,
            r_group_column := r_group_column r2 + width\<rparr>)"

text \<open>The loop that walks the cursor past the end of its logical line.  The new width is at
  least 2, so each round makes progress.\<close>

function advance_cursor :: "nat \<Rightarrow> nat \<Rightarrow> nat \<Rightarrow> line list \<Rightarrow> nat \<times> line list" where
  "advance_cursor cols relative column ls =
     (if relative = 0 \<or> cols = 0 then (column, ls)
      else if cols - column = 0
        then advance_cursor cols (relative - min relative cols) (min relative cols)
               (wrap_last ls @ [new_line cols])
      else advance_cursor cols (relative - min relative (cols - column))
             (column + min relative (cols - column)) ls)"
  by pat_completeness auto
termination
  by (relation "measure (\<lambda>(cols, relative, column, ls). relative)") auto

declare advance_cursor.simps [simp del]

definition rebuild_group :: "nat \<Rightarrow> nat option \<Rightarrow> nat \<Rightarrow> nat \<Rightarrow> cell list \<Rightarrow> rebuild \<Rightarrow> rebuild" where
  "rebuild_group cols cursor offset groupindex cells r =
     (let is_cursor = (cursor = Some groupindex);
          first = length (r_lines r);
          r1 = fold (rebuild_cell cols is_cursor offset) cells
                 (r\<lparr>r_lines := r_lines r @ [new_line cols], r_column := 0, r_group_column := 0\<rparr>);
          r2 = (if is_cursor \<and> r_abs r1 = None
                then (case advance_cursor cols (offset - r_group_column r1) (r_column r1) (r_lines r1) of
                        (column, ls) \<Rightarrow>
                          r1\<lparr>r_lines := ls, r_abs := Some (length ls - 1),
                             r_abs_column := min (cols - 1) column\<rparr>)
                else r1)
      in if length (r_lines r2) = first then r2\<lparr>r_lines := r_lines r2 @ [new_line cols]\<rparr> else r2)"

fun rebuild_groups :: "nat \<Rightarrow> nat option \<Rightarrow> nat \<Rightarrow> nat \<Rightarrow> cell list list \<Rightarrow> rebuild \<Rightarrow> rebuild" where
  "rebuild_groups cols cursor offset groupindex [] r = r"
| "rebuild_groups cols cursor offset groupindex (cells # rest) r =
     rebuild_groups cols cursor offset (Suc groupindex) rest
       (rebuild_group cols cursor offset groupindex cells r)"

section \<open>The whole operation\<close>

definition reflow :: "nat \<Rightarrow> nat \<Rightarrow> line list \<Rightarrow> buffer \<Rightarrow> buffer" where
  "reflow rows cols history b =
     (let g = group_all b history;
          r = rebuild_groups cols (g_cursor g) (g_offset g) 0 (g_logical g)
                \<lparr>r_lines = [], r_column = 0, r_group_column = 0, r_abs = None, r_abs_column = 0\<rparr>;
          rebuilt = r_lines r @ replicate (rows - length (r_lines r)) (new_line cols);
          split = length rebuilt - rows;
          b1 = b\<lparr>b_history := Some (hist_trim (take split rebuilt)), b_lines := drop split rebuilt\<rparr>;
          b2 = (case r_abs r of None \<Rightarrow> b1
                | Some a \<Rightarrow> b1\<lparr>b_row := nat (max 0 (min (int rows - 1) (int a - int split))),
                                b_col := min (cols - 1) (r_abs_column r)\<rparr>)
      in b2\<lparr>b_cols := cols\<rparr>)"

definition resize_line :: "nat \<Rightarrow> nat \<Rightarrow> line \<Rightarrow> line" where
  "resize_line old cols l =
     (if old < cols
      then l\<lparr>l_cells := l_cells l @ replicate (cols - old) (blankcell consolestyledefault)\<rparr>
      else let cs = take cols (l_cells l)
           in l\<lparr>l_cells := (if cs \<noteq> [] \<and> c_width (last cs) = 2
                 then butlast cs @ [blankcell consolestyledefault] else cs)\<rparr>)"

definition resize_rows :: "nat \<Rightarrow> buffer \<Rightarrow> buffer" where
  "resize_rows rows b =
     (if rows < length (b_lines b) then
        (let remove = length (b_lines b) - rows in
         b\<lparr>b_history := map_option (fold hist_append (take remove (b_lines b))) (b_history b),
           b_lines := drop remove (b_lines b), b_row := b_row b - remove\<rparr>)
      else b\<lparr>b_lines := b_lines b @ replicate (rows - length (b_lines b)) (blankline b)\<rparr>)"

definition resize :: "int \<Rightarrow> int \<Rightarrow> buffer \<Rightarrow> buffer" where
  "resize rows0 cols0 b =
     (let rows = nat (max 1 rows0); cols = nat (max 2 cols0);
          b1 = (if cols = b_cols b then b
                else (case b_history b of
                        Some h \<Rightarrow> reflow rows cols h b
                      | None \<Rightarrow> b\<lparr>b_lines := map (resize_line (b_cols b) cols) (b_lines b),
                                   b_cols := cols\<rparr>));
          b2 = resize_rows rows b1
      in b2\<lparr>b_rows := rows, b_top := 0, b_bottom := rows - 1,
            b_row := min (rows - 1) (b_row b2), b_col := min (cols - 1) (b_col b2),
            b_tabs := Set.filter (\<lambda>v. v < cols) (b_tabs b2 \<union> default_tabs cols),
            b_wrap_pending := False\<rparr>)"

section \<open>The grid stays rectangular\<close>

lemma new_line_ok: "1 \<le> cols \<Longrightarrow> line_ok cols (new_line cols)"
  by (simp add: new_line_def mkline_ok)

lemma lines_ok_append [simp]: "lines_ok n (xs @ ys) \<longleftrightarrow> lines_ok n xs \<and> lines_ok n ys"
  by (auto simp: lines_ok_def)

lemma lines_ok_Nil [simp]: "lines_ok n []"
  by (simp add: lines_ok_def)

lemma lines_ok_Cons [simp]: "lines_ok n (l # ls) \<longleftrightarrow> line_ok n l \<and> lines_ok n ls"
  by (auto simp: lines_ok_def)

lemma lines_ok_butlast: "lines_ok n ls \<Longrightarrow> lines_ok n (butlast ls)"
  by (auto simp: lines_ok_def dest: in_set_butlastD)

lemma lines_ok_last: "lines_ok n ls \<Longrightarrow> ls \<noteq> [] \<Longrightarrow> line_ok n (last ls)"
  by (simp add: lines_ok_def)

lemma lines_ok_replicate: "line_ok n l \<Longrightarrow> lines_ok n (replicate k l)"
  by (simp add: lines_ok_def)

lemma line_ok_wrapped [simp]: "line_ok n (l\<lparr>l_wrapped := w\<rparr>) = line_ok n l"
  by (simp add: line_ok_def)

lemma line_ok_update [simp]: "line_ok n (l\<lparr>l_cells := (l_cells l)[k := x]\<rparr>) = line_ok n l"
  by (simp add: line_ok_def)

lemma wrap_last_ok: "lines_ok n ls \<Longrightarrow> ls \<noteq> [] \<Longrightarrow> lines_ok n (wrap_last ls)"
  by (simp add: wrap_last_def lines_ok_butlast lines_ok_last)

lemma set_last_cell_ok: "lines_ok n ls \<Longrightarrow> ls \<noteq> [] \<Longrightarrow> lines_ok n (set_last_cell k x ls)"
  by (simp add: set_last_cell_def lines_ok_butlast lines_ok_last)

lemma set_last_cell_nonempty [simp]: "set_last_cell k x ls \<noteq> []"
  by (simp add: set_last_cell_def)

lemma length_set_last_cell [simp]: "ls \<noteq> [] \<Longrightarrow> length (set_last_cell k x ls) = length ls"
  by (simp add: set_last_cell_def)

lemma length_wrap_last [simp]: "ls \<noteq> [] \<Longrightarrow> length (wrap_last ls) = length ls"
  by (simp add: wrap_last_def)

definition rebuild_ok :: "nat \<Rightarrow> rebuild \<Rightarrow> bool" where
  "rebuild_ok cols r \<longleftrightarrow> r_lines r \<noteq> [] \<and> lines_ok cols (r_lines r)"

lemma rebuild_cell_ok:
  assumes "rebuild_ok cols r" and "1 \<le> cols"
  shows "rebuild_ok cols (rebuild_cell cols ic off c r)"
  using assms
  by (simp add: rebuild_ok_def rebuild_cell_def Let_def set_last_cell_ok wrap_last_ok new_line_ok)

lemma fold_rebuild_cell_ok:
  "rebuild_ok cols r \<Longrightarrow> 1 \<le> cols \<Longrightarrow> rebuild_ok cols (fold (rebuild_cell cols ic off) cs r)"
  by (induction cs arbitrary: r) (simp_all add: rebuild_cell_ok)

lemma advance_cursor_ok:
  "lines_ok cols ls \<Longrightarrow> ls \<noteq> [] \<Longrightarrow> 1 \<le> cols \<Longrightarrow> advance_cursor cols rel k ls = (k', ls') \<Longrightarrow>
   ls' \<noteq> [] \<and> lines_ok cols ls'"
proof (induction cols rel k ls arbitrary: k' ls' rule: advance_cursor.induct)
  case (1 cols relative column ls)
  show ?case
  proof (cases "relative = 0 \<or> cols = 0")
    case True
    with "1.prems" show ?thesis by (auto simp: advance_cursor.simps [of cols relative])
  next
    case False
    note f = False
    show ?thesis
    proof (cases "cols - column = 0")
      case True
      have "lines_ok cols (wrap_last ls @ [new_line cols])"
        using "1.prems" by (simp add: wrap_last_ok new_line_ok)
      with "1.IH"(1) [OF f True] "1.prems" f True show ?thesis
        by (simp add: advance_cursor.simps [of cols relative])
    next
      case False
      with "1.IH"(2) [OF f False] "1.prems" f show ?thesis
        by (simp add: advance_cursor.simps [of cols relative])
    qed
  qed
qed

lemma rebuild_group_ok:
  assumes "lines_ok cols (r_lines r)" and "1 \<le> cols"
  shows "rebuild_ok cols (rebuild_group cols cur off gi cs r)"
proof -
  let ?r0 = "r\<lparr>r_lines := r_lines r @ [new_line cols], r_column := 0, r_group_column := 0\<rparr>"
  define r1 where "r1 = fold (rebuild_cell cols (cur = Some gi) off) cs ?r0"
  have "rebuild_ok cols ?r0" using assms by (simp add: rebuild_ok_def new_line_ok)
  then have r1: "rebuild_ok cols r1" unfolding r1_def using assms(2) by (rule fold_rebuild_cell_ok)
  obtain k ls where adv: "advance_cursor cols (off - r_group_column r1) (r_column r1) (r_lines r1) = (k, ls)"
    by fastforce
  with r1 assms(2) have "ls \<noteq> [] \<and> lines_ok cols ls"
    unfolding rebuild_ok_def using advance_cursor_ok by blast
  with r1 adv assms(2) show ?thesis
    unfolding rebuild_group_def Let_def r1_def [symmetric]
    by (simp add: rebuild_ok_def new_line_ok)
qed

lemma rebuild_groups_ok:
  "lines_ok cols (r_lines r) \<Longrightarrow> 1 \<le> cols \<Longrightarrow>
   lines_ok cols (r_lines (rebuild_groups cols cur off gi gs r))"
  using rebuild_group_ok
  by (induction gs arbitrary: gi r) (simp_all add: rebuild_ok_def)

lemma lines_ok_take: "lines_ok n ls \<Longrightarrow> lines_ok n (take k ls)"
  by (auto simp: lines_ok_def dest: in_set_takeD)

lemma lines_ok_drop: "lines_ok n ls \<Longrightarrow> lines_ok n (drop k ls)"
  by (auto simp: lines_ok_def dest: in_set_dropD)

lemma reflow_shape:
  assumes "2 \<le> cols"
  shows "b_cols (reflow rows cols h b) = cols"
    and "length (b_lines (reflow rows cols h b)) = rows"
    and "lines_ok cols (b_lines (reflow rows cols h b))"
    and "hist_ok cols (b_history (reflow rows cols h b))"
proof -
  define g where "g = group_all b h"
  define r where "r = rebuild_groups cols (g_cursor g) (g_offset g) 0 (g_logical g)
    \<lparr>r_lines = [], r_column = 0, r_group_column = 0, r_abs = None, r_abs_column = 0\<rparr>"
  define rb where "rb = r_lines r @ replicate (rows - length (r_lines r)) (new_line cols)"
  have "lines_ok cols (r_lines r)"
    unfolding r_def using assms by (intro rebuild_groups_ok) auto
  then have rb: "lines_ok cols rb"
    using assms by (simp add: rb_def lines_ok_replicate new_line_ok)
  have len: "rows \<le> length rb" by (simp add: rb_def)
  have eq: "reflow rows cols h b =
    (let split = length rb - rows;
         b1 = b\<lparr>b_history := Some (hist_trim (take split rb)), b_lines := drop split rb\<rparr>;
         b2 = (case r_abs r of None \<Rightarrow> b1
               | Some a \<Rightarrow> b1\<lparr>b_row := nat (max 0 (min (int rows - 1) (int a - int split))),
                               b_col := min (cols - 1) (r_abs_column r)\<rparr>)
     in b2\<lparr>b_cols := cols\<rparr>)"
    unfolding reflow_def Let_def g_def [symmetric] r_def [symmetric] rb_def [symmetric] ..
  show "b_cols (reflow rows cols h b) = cols"
    and "length (b_lines (reflow rows cols h b)) = rows"
    and "lines_ok cols (b_lines (reflow rows cols h b))"
    and "hist_ok cols (b_history (reflow rows cols h b))"
    unfolding eq Let_def using rb len
    by (simp_all add: hist_ok_def hist_trim_length lines_ok_hist_trim lines_ok_take lines_ok_drop
        split: option.split)
qed

lemma resize_line_ok: "line_ok old l \<Longrightarrow> 1 \<le> cols \<Longrightarrow> line_ok cols (resize_line old cols l)"
  by (auto simp: line_ok_def resize_line_def Let_def)

lemma fold_hist_append_ok:
  "length h \<le> CONSOLE_HISTORY_MAX \<Longrightarrow> lines_ok n h \<Longrightarrow> lines_ok n ls \<Longrightarrow>
   length (fold hist_append ls h) \<le> CONSOLE_HISTORY_MAX \<and> lines_ok n (fold hist_append ls h)"
  by (induction ls arbitrary: h)
     (simp_all add: hist_append_def hist_trim_length lines_ok_hist_trim)

lemma resize_rows_shape:
  assumes "2 \<le> b_cols b" and "lines_ok (b_cols b) (b_lines b)" and "hist_ok (b_cols b) (b_history b)"
  shows "b_cols (resize_rows rows b) = b_cols b"
    and "length (b_lines (resize_rows rows b)) = rows"
    and "lines_ok (b_cols b) (b_lines (resize_rows rows b))"
    and "hist_ok (b_cols b) (b_history (resize_rows rows b))"
proof -
  have bl: "line_ok (b_cols b) (blankline b)" using assms(1) by (simp add: blankline_ok)
  show "b_cols (resize_rows rows b) = b_cols b"
    and "length (b_lines (resize_rows rows b)) = rows"
    and "lines_ok (b_cols b) (b_lines (resize_rows rows b))"
    using assms bl by (auto simp: resize_rows_def Let_def lines_ok_drop lines_ok_replicate)
  show "hist_ok (b_cols b) (b_history (resize_rows rows b))"
    using assms fold_hist_append_ok [of _ "b_cols b" "take (length (b_lines b) - rows) (b_lines b)"]
    by (cases "b_history b") (auto simp: resize_rows_def Let_def hist_ok_def lines_ok_take)
qed

text \<open>The state between the two halves of \<open>resize\<close>: the width is final, the height not yet.\<close>

lemma resize_width_shape:
  fixes rows cols :: nat
  assumes ok: "buf_ok b" and "2 \<le> cols"
  defines "b1 \<equiv> (if cols = b_cols b then b
     else (case b_history b of Some h \<Rightarrow> reflow rows cols h b
           | None \<Rightarrow> b\<lparr>b_lines := map (resize_line (b_cols b) cols) (b_lines b), b_cols := cols\<rparr>))"
  shows "b_cols b1 = cols \<and> lines_ok cols (b_lines b1) \<and> hist_ok cols (b_history b1)"
proof (cases "cols = b_cols b")
  case True
  with ok show ?thesis by (simp add: b1_def buf_ok_def)
next
  case False
  show ?thesis
  proof (cases "b_history b")
    case (Some h)
    with False assms(2) show ?thesis by (simp add: b1_def reflow_shape)
  next
    case None
    have "lines_ok cols (map (resize_line (b_cols b) cols) (b_lines b))"
      using ok assms(2) by (auto simp: lines_ok_def buf_ok_def intro!: resize_line_ok)
    with None False show ?thesis by (simp add: b1_def hist_ok_def)
  qed
qed

lemma resize_frame_ok:
  assumes "2 \<le> cols" and "1 \<le> rows" and "length (b_lines b) = rows" and "lines_ok cols (b_lines b)"
    and "hist_ok cols (b_history b)" and "b_cols b = cols"
  shows "buf_ok (b\<lparr>b_rows := rows, b_top := 0, b_bottom := rows - 1,
            b_row := min (rows - 1) (b_row b), b_col := min (cols - 1) (b_col b),
            b_tabs := Set.filter (\<lambda>v. v < cols) T, b_wrap_pending := False\<rparr>)"
  using assms by (auto simp: buf_ok_def)

lemma resize_ok [buf_ok_rules]:
  assumes "buf_ok b"
  shows "buf_ok (resize rows cols b)"
proof -
  define R where "R = nat (max 1 rows)"
  define C where "C = nat (max 2 cols)"
  define b1 where "b1 = (if C = b_cols b then b
     else (case b_history b of Some h \<Rightarrow> reflow R C h b
           | None \<Rightarrow> b\<lparr>b_lines := map (resize_line (b_cols b) C) (b_lines b), b_cols := C\<rparr>))"
  have c: "2 \<le> C" and r: "1 \<le> R" by (simp_all add: C_def R_def)
  have b1: "b_cols b1 = C \<and> lines_ok C (b_lines b1) \<and> hist_ok C (b_history b1)"
    unfolding b1_def using assms c by (rule resize_width_shape)
  note sh = resize_rows_shape [of b1 R]
  have "buf_ok ((resize_rows R b1)\<lparr>b_rows := R, b_top := 0, b_bottom := R - 1,
            b_row := min (R - 1) (b_row (resize_rows R b1)), b_col := min (C - 1) (b_col (resize_rows R b1)),
            b_tabs := Set.filter (\<lambda>v. v < C) (b_tabs (resize_rows R b1) \<union> default_tabs C),
            b_wrap_pending := False\<rparr>)"
    using sh b1 c r by (intro resize_frame_ok) simp_all
  then show ?thesis
    unfolding resize_def Let_def R_def [symmetric] C_def [symmetric] b1_def [symmetric] .
qed

lemma reflow_history: "b_history (reflow rows cols h b) \<noteq> None"
  by (simp add: reflow_def Let_def split: option.split)

lemma resize_rows_history: "b_history (resize_rows rows b) = None \<longleftrightarrow> b_history b = None"
  by (simp add: resize_rows_def Let_def)

lemma resize_shape:
  assumes "buf_ok b"
  shows "b_rows (resize rows cols b) = nat (max 1 rows) \<and> b_cols (resize rows cols b) = nat (max 2 cols)
    \<and> (b_history (resize rows cols b) = None \<longleftrightarrow> b_history b = None)"
proof -
  define R where "R = nat (max 1 rows)"
  define C where "C = nat (max 2 cols)"
  define b1 where "b1 = (if C = b_cols b then b
     else (case b_history b of Some h \<Rightarrow> reflow R C h b
           | None \<Rightarrow> b\<lparr>b_lines := map (resize_line (b_cols b) C) (b_lines b), b_cols := C\<rparr>))"
  have c: "2 \<le> C" by (simp add: C_def)
  have b1: "b_cols b1 = C \<and> lines_ok C (b_lines b1) \<and> hist_ok C (b_history b1)"
    unfolding b1_def using assms c by (rule resize_width_shape)
  have h: "b_history b1 = None \<longleftrightarrow> b_history b = None"
    unfolding b1_def using reflow_history by (auto split: option.split)
  show ?thesis
    unfolding resize_def Let_def R_def [symmetric] C_def [symmetric] b1_def [symmetric]
    using b1 c resize_rows_shape(1) [of b1 R] h by (simp add: resize_rows_history)
qed

end
