(* ===== verification/Console_Display.thy ===== *)
theory Console_Display
  imports Console_Resize Utf8_Decoder
begin

text \<open>
  The terminal of brick's interactive console (\<open>brick.py\<close>, class \<open>ConsoleDisplay\<close>): the
  byte-level parser (ground text, escape, CSI, OSC, string and designation states), control
  characters, CSI dispatch, SGR attributes, mode switching between the primary and the
  alternate screen, and the views of the contents (visible window, selection, transcript).
  A writer callback is modelled by the list of byte strings handed to it.
\<close>

section \<open>State\<close>

datatype pstate = Ground | Escape | Csi | Osc | OscEscape | StringBody | StringEscape | Designate

record display =
  d_primary :: buffer
  d_alternate :: buffer
  d_use_alternate :: bool
  d_writer :: bool
  d_written :: "bytes list"
  d_pending :: bytes
  d_state :: pstate
  d_sequence :: bytes
  d_designate :: "cp option"
  d_osc :: bytes
  d_dirty :: bool
  d_generation :: nat
  d_title :: pystr
  d_cursor_visible :: bool
  d_cursor_blink :: bool
  d_cursor_style :: nat
  d_app_cursor :: bool
  d_app_keypad :: bool
  d_bracketed_paste :: bool
  d_focus_events :: bool
  d_mouse_mode :: nat
  d_mouse_sgr :: bool
  d_view_offset :: nat
  d_last_printed :: cp
  d_text_blink :: bool

definition CONSOLE_SEQUENCE_LIMIT :: nat where
  "CONSOLE_SEQUENCE_LIMIT = 4096"

definition display_init :: "int \<Rightarrow> int \<Rightarrow> bool \<Rightarrow> display" where
  "display_init rows cols writer =
     \<lparr>d_primary = buffer_init rows cols True, d_alternate = buffer_init rows cols False,
      d_use_alternate = False, d_writer = writer, d_written = [], d_pending = [],
      d_state = Ground, d_sequence = [], d_designate = None, d_osc = [],
      d_dirty = True, d_generation = 0, d_title = [], d_cursor_visible = True,
      d_cursor_blink = True, d_cursor_style = 1, d_app_cursor = False, d_app_keypad = False,
      d_bracketed_paste = False, d_focus_events = False, d_mouse_mode = 0, d_mouse_sgr = False,
      d_view_offset = 0, d_last_printed = 32, d_text_blink = False\<rparr>"

definition dbuffer :: "display \<Rightarrow> buffer" where
  "dbuffer d = (if d_use_alternate d then d_alternate d else d_primary d)"

definition on_buffer :: "(buffer \<Rightarrow> buffer) \<Rightarrow> display \<Rightarrow> display" where
  "on_buffer f d =
     (if d_use_alternate d then d\<lparr>d_alternate := f (d_alternate d)\<rparr>
      else d\<lparr>d_primary := f (d_primary d)\<rparr>)"

definition changed :: "display \<Rightarrow> display" where
  "changed d = d\<lparr>d_dirty := True, d_generation := d_generation d + 1\<rparr>"

definition writeback :: "bytes \<Rightarrow> display \<Rightarrow> display" where
  "writeback data d = (if d_writer d \<and> data \<noteq> [] then d\<lparr>d_written := d_written d @ [data]\<rparr> else d)"

section \<open>Text\<close>

definition dec_graphics :: "(cp \<times> cp) list" where
  "dec_graphics =
     [(96, 0x25C6), (97, 0x2592), (102, 0xB0), (103, 0xB1), (106, 0x2518), (107, 0x2510),
      (108, 0x250C), (109, 0x2514), (110, 0x253C), (111, 0x23BA), (112, 0x23BB), (113, 0x2500),
      (114, 0x23BC), (115, 0x23BD), (116, 0x251C), (117, 0x2524), (118, 0x2534), (119, 0x252C),
      (120, 0x2502), (121, 0x2264), (122, 0x2265), (123, 0x3C0), (124, 0x2260), (125, 0xA3),
      (126, 0xB7)]"

definition charset_map :: "buffer \<Rightarrow> cp \<Rightarrow> cp" where
  "charset_map b ch =
     (let mapping = (if b_charset b \<noteq> 0 then b_g1 b else b_g0 b) in
      if mapping = 48 then (case map_of dec_graphics ch of None \<Rightarrow> ch | Some c \<Rightarrow> c) else ch)"

definition printchar :: "unidata \<Rightarrow> cp \<Rightarrow> display \<Rightarrow> display" where
  "printchar u ch0 d =
     (let ch = charset_map (dbuffer d) ch0
      in changed ((on_buffer (put u ch) d)\<lparr>d_last_printed := ch\<rparr>))"

definition printtext :: "unidata \<Rightarrow> pystr \<Rightarrow> display \<Rightarrow> display" where
  "printtext u s d = fold (printchar u) s d"

definition flushdecoder :: "unidata \<Rightarrow> display \<Rightarrow> display" where
  "flushdecoder u d = printtext u (utf8_final (d_pending d)) (d\<lparr>d_pending := []\<rparr>)"

section \<open>Control characters and escapes\<close>

definition control :: "nat \<Rightarrow> display \<Rightarrow> display" where
  "control byte d =
     (if byte = 7 then d
      else if byte = 8 then changed (on_buffer buf_backspace d)
      else if byte = 9 then changed (on_buffer tab_forward d)
      else if byte \<in> {10, 11, 12} then changed (on_buffer linefeed d)
      else if byte = 13 then changed (on_buffer carriage d)
      else if byte = 14 then changed (on_buffer (\<lambda>b. b\<lparr>b_charset := 1\<rparr>) d)
      else if byte = 15 then changed (on_buffer (\<lambda>b. b\<lparr>b_charset := 0\<rparr>) d)
      else d)"

definition display_reset :: "display \<Rightarrow> display" where
  "display_reset d = changed (d\<lparr>
     d_primary := buffer_reset (d_primary d), d_alternate := buffer_reset (d_alternate d),
     d_use_alternate := False, d_cursor_visible := True, d_cursor_blink := True,
     d_cursor_style := 1, d_app_cursor := False, d_app_keypad := False,
     d_bracketed_paste := False, d_focus_events := False, d_mouse_mode := 0,
     d_mouse_sgr := False, d_view_offset := 0, d_text_blink := False\<rparr>)"

definition escape :: "nat \<Rightarrow> display \<Rightarrow> display" where
  "escape byte d0 =
     (let d = d0\<lparr>d_state := Ground\<rparr> in
      if byte = 91 then d\<lparr>d_sequence := [], d_state := Csi\<rparr>
      else if byte = 93 then d\<lparr>d_osc := [], d_state := Osc\<rparr>
      else if byte \<in> {80, 94, 95} then d\<lparr>d_state := StringBody\<rparr>
      else if byte \<in> {40, 41, 42, 43} then d\<lparr>d_designate := Some byte, d_state := Designate\<rparr>
      else if byte = 55 then on_buffer buffer_save d
      else if byte = 56 then changed (on_buffer buffer_restore d)
      else if byte = 68 then changed (on_buffer index_down d)
      else if byte = 77 then changed (on_buffer reverseindex d)
      else if byte = 69 then changed (on_buffer (index_down \<circ> carriage) d)
      else if byte = 72 then on_buffer (\<lambda>b. b\<lparr>b_tabs := insert (b_col b) (b_tabs b)\<rparr>) d
      else if byte = 99 then display_reset d
      else if byte = 61 then d\<lparr>d_app_keypad := True\<rparr>
      else if byte = 62 then d\<lparr>d_app_keypad := False\<rparr>
      else d)"

text \<open>OSC: \<open>text.split(';', 1)\<close> raises when there is no semicolon and the exception is
  swallowed.\<close>

definition finishosc :: "display \<Rightarrow> display" where
  "finishosc d =
     (let text = utf8_decode (d_osc d);
          d1 = (if 59 \<notin> set text then d
                else (case partition_on 59 text of (command, value) \<Rightarrow>
                  if command \<in> {[48], [49], [50]} then d\<lparr>d_title := take 256 value\<rparr>
                  else if command = [56] then
                    (let link = (if 59 \<in> set value then snd (partition_on 59 value) else [])
                     in on_buffer (\<lambda>b. b\<lparr>b_style := consolestylewith (b_style b)
                          [Link (if link = [] then None else Some link)]\<rparr>) d)
                  else d))
      in d1\<lparr>d_osc := [], d_state := Ground\<rparr>)"

section \<open>CSI parameters\<close>

definition c_isspace :: "nat \<Rightarrow> bool" where
  "c_isspace c \<longleftrightarrow> (9 \<le> c \<and> c \<le> 13) \<or> c = 32"

text \<open>\<open>int(item)\<close> on ASCII text without signs or underscores, which cannot occur here: the
  characters from space to slash are removed before and an underscore ends the sequence.\<close>

definition parse_param :: "pystr \<Rightarrow> nat option" where
  "parse_param item =
     (if item = [] then None
      else let t = rstrip c_isspace (lstrip c_isspace item)
           in if t \<noteq> [] \<and> list_all is_digit t then Some (dec_val t) else None)"

definition csi_params :: "bytes \<Rightarrow> pystr \<times> pystr \<times> nat option list" where
  "csi_params raw =
     (let t0 = filter (\<lambda>c. c < 128) raw;
          private = takeWhile (\<lambda>c. c \<in> {63, 62, 60, 33}) t0;
          t1 = dropWhile (\<lambda>c. c \<in> {63, 62, 60, 33}) t0;
          intermediate = filter (\<lambda>c. 32 \<le> c \<and> c \<le> 47) t1;
          t2 = filter (\<lambda>c. \<not> (32 \<le> c \<and> c \<le> 47)) t1
      in (private, intermediate,
          map parse_param (split_on 59 (map (\<lambda>c. if c = 58 then 59 else c) t2))))"

definition param :: "nat option list \<Rightarrow> nat \<Rightarrow> nat \<Rightarrow> bool \<Rightarrow> nat" where
  "param values index dflt zero_dflt =
     (if length values \<le> index then dflt
      else (case values ! index of None \<Rightarrow> dflt
            | Some v \<Rightarrow> if zero_dflt \<and> v = 0 then dflt else v))"

section \<open>Colours and attributes\<close>

definition CONSOLE_PALETTE :: "nat list" where
  "CONSOLE_PALETTE =
     [0x000000, 0xCD0000, 0x00CD00, 0xCDCD00, 0x0000EE, 0xCD00CD, 0x00CDCD, 0xE5E5E5,
      0x7F7F7F, 0xFF0000, 0x00FF00, 0xFFFF00, 0x5C5CFF, 0xFF00FF, 0x00FFFF, 0xFFFFFF]"

definition colour_levels :: "nat list" where
  "colour_levels = [0, 95, 135, 175, 215, 255]"

definition rgb :: "nat \<Rightarrow> nat \<Rightarrow> nat \<Rightarrow> nat" where
  "rgb r g b = r * 65536 + g * 256 + b"

definition consoleindexedcolour :: "nat \<Rightarrow> nat" where
  "consoleindexedcolour index0 =
     (let index = min 255 index0 in
      if index < 16 then CONSOLE_PALETTE ! index
      else if index < 232 then
        (let value = index - 16 in
         rgb (colour_levels ! (value div 36)) (colour_levels ! (value mod 36 div 6))
             (colour_levels ! (value mod 6)))
      else let grey = 8 + (index - 232) * 10 in rgb grey grey grey)"

definition sgr_code :: "nat \<Rightarrow> style \<Rightarrow> style" where
  "sgr_code code s =
     (if code = 0 then consolestyledefault
      else if code = 1 then consolestylewith s [Bold True]
      else if code = 2 then consolestylewith s [Faint True]
      else if code = 3 then consolestylewith s [Italic True]
      else if code = 4 \<or> code = 21 then consolestylewith s [Underline (if code = 21 then 2 else 1)]
      else if code = 5 \<or> code = 6 then consolestylewith s [Blink True]
      else if code = 7 then consolestylewith s [Inverse True]
      else if code = 8 then consolestylewith s [Conceal True]
      else if code = 9 then consolestylewith s [Strike True]
      else if code = 22 then consolestylewith s [Bold False, Faint False]
      else if code = 23 then consolestylewith s [Italic False]
      else if code = 24 then consolestylewith s [Underline 0]
      else if code = 25 then consolestylewith s [Blink False]
      else if code = 27 then consolestylewith s [Inverse False]
      else if code = 28 then consolestylewith s [Conceal False]
      else if code = 29 then consolestylewith s [Strike False]
      else if 30 \<le> code \<and> code \<le> 37 then consolestylewith s [Fg (Some (CONSOLE_PALETTE ! (code - 30)))]
      else if code = 39 then consolestylewith s [Fg None]
      else if 40 \<le> code \<and> code \<le> 47 then consolestylewith s [Bg (Some (CONSOLE_PALETTE ! (code - 40)))]
      else if code = 49 then consolestylewith s [Bg None]
      else if 90 \<le> code \<and> code \<le> 97 then consolestylewith s [Fg (Some (CONSOLE_PALETTE ! (8 + code - 90)))]
      else if 100 \<le> code \<and> code \<le> 107 then consolestylewith s [Bg (Some (CONSOLE_PALETTE ! (8 + code - 100)))]
      else s)"

definition opt0 :: "nat option \<Rightarrow> nat" where
  "opt0 v = (case v of None \<Rightarrow> 0 | Some n \<Rightarrow> n)"

definition extended_colour :: "nat option list \<Rightarrow> (nat \<times> nat option list) option" where
  "extended_colour rest =
     (if 2 \<le> length rest \<and> rest ! 0 = Some 5
      then Some (consoleindexedcolour (opt0 (rest ! 1)), drop 2 rest)
      else if 4 \<le> length rest \<and> rest ! 0 = Some 2
      then Some (rgb (min 255 (opt0 (rest ! 1))) (min 255 (opt0 (rest ! 2))) (min 255 (opt0 (rest ! 3))),
                 drop 4 rest)
      else None)"

lemma extended_colour_shorter: "extended_colour rest = Some (c, vs) \<Longrightarrow> length vs < length rest"
  by (auto simp: extended_colour_def split: if_splits)

function sgr_loop :: "nat option list \<Rightarrow> style \<times> bool \<Rightarrow> style \<times> bool" where
  "sgr_loop [] sb = sb"
| "sgr_loop (v # rest) (s, blink) =
     (let code = opt0 v in
      if code = 38 \<or> code = 48 then
        (case extended_colour rest of
           None \<Rightarrow> sgr_loop rest (s, blink)
         | Some (colour, later) \<Rightarrow>
             sgr_loop later (consolestylewith s [if code = 38 then Fg (Some colour) else Bg (Some colour)], blink))
      else sgr_loop rest (sgr_code code s, blink \<or> code = 5 \<or> code = 6))"
  by pat_completeness auto
termination
  by (relation "measure (\<lambda>(vs, sb). length vs)") (auto dest: extended_colour_shorter)

definition sgr :: "nat option list \<Rightarrow> display \<Rightarrow> display" where
  "sgr values d =
     (let (s, blink) = sgr_loop (if values = [] then [Some 0] else values)
            (b_style (dbuffer d), d_text_blink d)
      in (on_buffer (\<lambda>b. b\<lparr>b_style := s\<rparr>) d)\<lparr>d_text_blink := blink\<rparr>)"

section \<open>Modes\<close>

definition switch_screen :: "nat \<Rightarrow> bool \<Rightarrow> display \<Rightarrow> display" where
  "switch_screen value enabled d =
     (let d1 = (if enabled \<and> value = 1049 then d\<lparr>d_primary := buffer_save (d_primary d)\<rparr> else d);
          d2 = d1\<lparr>d_use_alternate := enabled\<rparr>;
          d3 = (if enabled then d2\<lparr>d_alternate := buffer_reset (d_alternate d2)\<rparr>
                else if value = 1049 then d2\<lparr>d_primary := buffer_restore (d_primary d2)\<rparr> else d2)
      in d3\<lparr>d_view_offset := 0\<rparr>)"

definition setmode :: "pystr \<Rightarrow> bool \<Rightarrow> nat option \<Rightarrow> display \<Rightarrow> display" where
  "setmode private enabled v d =
     (let value = opt0 v in
      if private = [63] then
        (if value = 1 then d\<lparr>d_app_cursor := enabled\<rparr>
         else if value = 6 then on_buffer (\<lambda>b. setpos (Some 0) (Some 0) (b\<lparr>b_origin := enabled\<rparr>)) d
         else if value = 7 then on_buffer (\<lambda>b. b\<lparr>b_autowrap := enabled\<rparr>) d
         else if value = 12 then d\<lparr>d_cursor_blink := enabled\<rparr>
         else if value = 25 then d\<lparr>d_cursor_visible := enabled\<rparr>
         else if value \<in> {47, 1047, 1049} then switch_screen value enabled d
         else if value = 1048 then on_buffer (if enabled then buffer_save else buffer_restore) d
         else if value \<in> {1000, 1002, 1003} then d\<lparr>d_mouse_mode := (if enabled then value else 0)\<rparr>
         else if value = 1004 then d\<lparr>d_focus_events := enabled\<rparr>
         else if value = 1006 then d\<lparr>d_mouse_sgr := enabled\<rparr>
         else if value = 2004 then d\<lparr>d_bracketed_paste := enabled\<rparr>
         else d)
      else
        (if value = 4 then on_buffer (\<lambda>b. b\<lparr>b_insert := enabled\<rparr>) d
         else if value = 20 then on_buffer (\<lambda>b. b\<lparr>b_newline := enabled\<rparr>) d
         else d))"

definition setmodes :: "pystr \<Rightarrow> nat option list \<Rightarrow> bool \<Rightarrow> display \<Rightarrow> display" where
  "setmodes private values enabled d = fold (setmode private enabled) values d"

section \<open>CSI dispatch\<close>

definition delete_cell :: "buffer \<Rightarrow> buffer" where
  "delete_cell b = set_cells (b_row b)
     (list_pop (b_col b) (cells_at b (b_row b)) @ [blankcell (b_style b)]) b"

definition set_region :: "nat option list \<Rightarrow> buffer \<Rightarrow> buffer" where
  "set_region values b =
     (let tp = int (param values 0 1 True) - 1; bt = int (param values 1 (b_rows b) True) - 1 in
      if 0 \<le> tp \<and> tp < bt \<and> bt < int (b_rows b)
      then setpos (Some 0) (Some 0) (b\<lparr>b_top := nat tp, b_bottom := nat bt\<rparr>) else b)"

definition clear_tabs :: "nat \<Rightarrow> buffer \<Rightarrow> buffer" where
  "clear_tabs mode b =
     (if mode = 0 then b\<lparr>b_tabs := Set.remove (b_col b) (b_tabs b)\<rparr>
      else if mode = 3 then b\<lparr>b_tabs := {}\<rparr> else b)"

text \<open>The final bytes that act on the current buffer alone; \<open>None\<close> for all others.\<close>

definition csi_buffer :: "unidata \<Rightarrow> cp \<Rightarrow> nat option list \<Rightarrow> nat \<Rightarrow> buffer \<Rightarrow> buffer option" where
  "csi_buffer u printed values final b =
     (let count = param values 0 1 True;
          org = (if b_origin b then int (b_top b) else 0);
          row = int (b_row b); col = int (b_col b) in
      if final = 65 then Some (setpos (Some (row - int count - org)) None b)
      else if final \<in> {66, 101} then Some (setpos (Some (row + int count - org)) None b)
      else if final \<in> {67, 97} then Some (setpos None (Some (col + int count)) b)
      else if final = 68 then Some (setpos None (Some (col - int count)) b)
      else if final = 69 then Some (setpos (Some (row + int count - org)) (Some 0) b)
      else if final = 70 then Some (setpos (Some (row - int count - org)) (Some 0) b)
      else if final \<in> {71, 96} then Some (setpos None (Some (int count - 1)) b)
      else if final \<in> {72, 102} then
        Some (setpos (Some (int count - 1)) (Some (int (param values 1 1 True) - 1)) b)
      else if final = 100 then Some (setpos (Some (int count - 1)) None b)
      else if final = 74 then Some (erase_display (param values 0 0 False) b)
      else if final = 75 then Some (erase_line (param values 0 0 False) b)
      else if final = 88 then Some (erasecells (b_row b) (b_col b) (b_col b + count) b)
      else if final = 64 then Some ((insert_blank ^^ min count (b_cols b - b_col b)) b)
      else if final = 80 then Some ((delete_cell ^^ min count (b_cols b - b_col b)) b)
      else if final = 76 \<and> b_top b \<le> b_row b \<and> b_row b \<le> b_bottom b then
        Some (scrolldown_in count (b_row b) (b_bottom b) b)
      else if final = 77 \<and> b_top b \<le> b_row b \<and> b_row b \<le> b_bottom b then
        Some (scrollup_in count (b_row b) (b_bottom b) b)
      else if final = 83 then Some (scrollup count b)
      else if final = 84 then Some (scrolldown count b)
      else if final = 73 then Some ((tab_forward ^^ count) b)
      else if final = 90 then Some ((tab_backward ^^ count) b)
      else if final = 98 then Some ((put u printed ^^ min count 4096) b)
      else if final = 114 then Some (set_region values b)
      else if final = 115 then Some (buffer_save b)
      else if final = 117 then Some (buffer_restore b)
      else if final = 103 then Some (clear_tabs (param values 0 0 False) b)
      else None)"

definition cursor_report :: "buffer \<Rightarrow> bytes" where
  "cursor_report b = [27, 91] @ dec_nat (b_row b + 1) @ [59] @ dec_nat (b_col b + 1) @ [82]"

definition csi :: "unidata \<Rightarrow> bytes \<Rightarrow> nat \<Rightarrow> display \<Rightarrow> display" where
  "csi u raw final d =
     (case csi_params raw of (private, intermediate, values) \<Rightarrow>
        case csi_buffer u (d_last_printed d) values final (dbuffer d) of
          Some b \<Rightarrow> changed (on_buffer (\<lambda>_. b) d)
        | None \<Rightarrow>
            if final = 109 then changed (sgr values d)
            else if final = 104 \<or> final = 108 then changed (setmodes private values (final = 104) d)
            else if final = 110 then
              (let mode = param values 0 0 False in
               if mode = 5 then changed (writeback [27, 91, 48, 110] d)
               else if mode = 6 then changed (writeback (cursor_report (dbuffer d)) d)
               else changed d)
            else if final = 99 then changed (writeback [27, 91, 63, 49, 59, 50, 99] d)
            else if final = 113 \<and> intermediate = [32] then
              (let st = min 6 (param values 0 0 False)
               in changed (d\<lparr>d_cursor_style := st, d_cursor_blink := (st \<in> {0, 1, 3, 5})\<rparr>))
            else d)"

section \<open>The parser\<close>

definition feedbyte :: "unidata \<Rightarrow> nat \<Rightarrow> display \<Rightarrow> display" where
  "feedbyte u byte d =
     (case d_state d of
        Ground \<Rightarrow>
          if byte = 27 then (flushdecoder u d)\<lparr>d_state := Escape\<rparr>
          else if byte < 32 \<or> byte = 127 then control byte (flushdecoder u d)
          else (case utf8_step (d_pending d) byte of
                  (text, pending) \<Rightarrow> printtext u text (d\<lparr>d_pending := pending\<rparr>))
      | Escape \<Rightarrow> escape byte d
      | Csi \<Rightarrow>
          if 64 \<le> byte \<and> byte \<le> 126 then csi u (d_sequence d) byte (d\<lparr>d_sequence := [], d_state := Ground\<rparr>)
          else if length (d_sequence d) < CONSOLE_SEQUENCE_LIMIT then d\<lparr>d_sequence := d_sequence d @ [byte]\<rparr>
          else d\<lparr>d_sequence := [], d_state := Ground\<rparr>
      | Osc \<Rightarrow>
          if byte = 7 then finishosc d
          else if byte = 27 then d\<lparr>d_state := OscEscape\<rparr>
          else if length (d_osc d) < CONSOLE_SEQUENCE_LIMIT then d\<lparr>d_osc := d_osc d @ [byte]\<rparr>
          else d
      | OscEscape \<Rightarrow>
          if byte = 92 then finishosc d
          else (if length (d_osc d) + 2 < CONSOLE_SEQUENCE_LIMIT
                then d\<lparr>d_osc := d_osc d @ [27, byte]\<rparr> else d)\<lparr>d_state := Osc\<rparr>
      | StringBody \<Rightarrow> if byte = 27 then d\<lparr>d_state := StringEscape\<rparr> else d
      | StringEscape \<Rightarrow> d\<lparr>d_state := (if byte = 92 then Ground else StringBody)\<rparr>
      | Designate \<Rightarrow>
          (on_buffer (\<lambda>b. if d_designate d \<in> {Some 40, Some 42} then b\<lparr>b_g0 := byte\<rparr> else b\<lparr>b_g1 := byte\<rparr>) d)
            \<lparr>d_designate := None, d_state := Ground\<rparr>)"

definition feedbytes :: "unidata \<Rightarrow> bytes \<Rightarrow> display \<Rightarrow> display" where
  "feedbytes u data d = fold (feedbyte u) data d"

definition hist_len :: "buffer \<Rightarrow> nat" where
  "hist_len b = (case b_history b of None \<Rightarrow> 0 | Some h \<Rightarrow> length h)"

definition feed :: "unidata \<Rightarrow> bytes \<Rightarrow> display \<Rightarrow> display" where
  "feed u data d =
     (let before = hist_len (d_primary d); d1 = feedbytes u data d in
      if 0 < d_view_offset d1 \<and> \<not> d_use_alternate d1
      then d1\<lparr>d_view_offset := min (hist_len (d_primary d1))
                (d_view_offset d1 + (hist_len (d_primary d1) - before))\<rparr>
      else d1)"

definition display_resize :: "int \<Rightarrow> int \<Rightarrow> display \<Rightarrow> display" where
  "display_resize rows cols d =
     (let p = resize rows cols (d_primary d) in
      changed (d\<lparr>d_primary := p, d_alternate := resize rows cols (d_alternate d),
                 d_view_offset := min (d_view_offset d) (hist_len p)\<rparr>))"

section \<open>Views\<close>

definition all_lines :: "display \<Rightarrow> line list" where
  "all_lines d =
     (if d_use_alternate d then b_lines (d_alternate d)
      else (case b_history (d_primary d) of None \<Rightarrow> [] | Some h \<Rightarrow> h) @ b_lines (d_primary d))"

definition visible :: "display \<Rightarrow> int \<times> line list \<times> display" where
  "visible d =
     (let lines = all_lines d; rows = b_rows (dbuffer d);
          maximum = length lines - rows;
          d1 = d\<lparr>d_view_offset := min maximum (d_view_offset d)\<rparr>;
          start = length lines - rows - d_view_offset d1;
          result = take rows (drop start lines);
          missing = rows - length result
      in (int start - int missing,
          replicate missing (mkline (b_cols (dbuffer d)) consolestyledefault) @ result, d1))"

text \<open>The user scrolls: by a page with a key, by lines with the wheel unless the program has taken the mouse.
  Typing goes back to the end.\<close>

definition scroll_view :: "int \<Rightarrow> display \<Rightarrow> display" where
  "scroll_view n d = changed (d\<lparr>d_view_offset := nat (max 0 (min (int (hist_len (d_primary d))) (int (d_view_offset d) + n)))\<rparr>)"

definition scroll_page :: "bool \<Rightarrow> display \<Rightarrow> display" where
  "scroll_page up d = (let amount = max 1 (int (b_rows (dbuffer d)) - 1) in scroll_view (if up then amount else - amount) d)"

definition SCROLLSTEP :: int where "SCROLLSTEP = 3"

definition consolescroll :: "int \<Rightarrow> bool \<Rightarrow> display \<Rightarrow> display" where
  "consolescroll dy shift d =
     (if dy = 0 \<or> d_mouse_mode d \<noteq> 0 \<and> \<not> shift \<or> d_use_alternate d then d else scroll_view (dy * SCROLLSTEP) d)"

definition typed :: "display \<Rightarrow> display" where
  "typed d = (if d_view_offset d \<noteq> 0 then changed (d\<lparr>d_view_offset := 0\<rparr>) else d)"

definition selection_part :: "line \<Rightarrow> int \<Rightarrow> int \<Rightarrow> pystr" where
  "selection_part l start0 end0 =
     (let n = int (length (l_cells l)); start = max 0 (min n start0); stop = max start (min n end0)
      in rstrip (\<lambda>c. c = 32)
           (concat (map c_text (filter (\<lambda>c. c_width c \<noteq> 0)
              (take (nat (stop - start)) (drop (nat start) (l_cells l)))))))"

definition selection_text :: "((int \<times> int) \<times> (int \<times> int)) option \<Rightarrow> display \<Rightarrow> pystr" where
  "selection_text normal d =
     (case normal of None \<Rightarrow> []
      | Some ((sl0, sc), (el0, ec)) \<Rightarrow>
          let lines = all_lines d; m = int (length lines) - 1;
              sl = max 0 (min m sl0); el = max 0 (min m el0) in
          if lines = [] \<or> el < sl then []
          else concat (map (\<lambda>index.
                 selection_part (lines ! index) (if int index = sl then sc else 0)
                   (if int index = el then ec else int (length (l_cells (lines ! index))))
                 @ (if int index < el \<and> \<not> l_wrapped (lines ! index) then [10] else []))
               [nat sl..<Suc (nat el)]))"

definition transcript :: "display \<Rightarrow> pystr list" where
  "transcript d = rstrip (\<lambda>s. s = []) (lstrip (\<lambda>s. s = []) (map (line_text True) (all_lines d)))"

end
