(* ===== verification/Console_Facts.thy ===== *)
theory Console_Facts
  imports Console_Display
begin

text \<open>
  Facts on the terminal.  The contract every buffer operation of the console keeps is the
  locale \<open>screen_op\<close>: the buffer invariant, the size of the grid and the presence of a
  history survive the operation.  It is interpreted for each operation of \<open>ConsoleBuffer\<close>;
  the display invariant \<open>disp_ok\<close> then follows for the parser, whatever bytes it is fed.
\<close>

named_theorems disp_rules \<open>preservation of the display invariant\<close>

section \<open>The contract of a buffer operation\<close>

definition buf_shape :: "buffer \<Rightarrow> nat \<times> nat \<times> bool" where
  "buf_shape b = (b_rows b, b_cols b, b_history b = None)"

definition disp_ok :: "display \<Rightarrow> bool" where
  "disp_ok d \<longleftrightarrow> buf_ok (d_primary d) \<and> buf_ok (d_alternate d)
     \<and> b_history (d_primary d) \<noteq> None \<and> b_history (d_alternate d) = None
     \<and> b_rows (d_alternate d) = b_rows (d_primary d) \<and> b_cols (d_alternate d) = b_cols (d_primary d)
     \<and> pending_ok (d_pending d) \<and> length (d_sequence d) \<le> CONSOLE_SEQUENCE_LIMIT
     \<and> length (d_osc d) \<le> CONSOLE_SEQUENCE_LIMIT \<and> length (d_title d) \<le> 256 \<and> d_cursor_style d \<le> 6"

lemma disp_ok_buffer: "disp_ok d \<Longrightarrow> buf_ok (dbuffer d)"
  by (simp add: disp_ok_def dbuffer_def)

lemma on_buffer_const_ok:
  "disp_ok d \<Longrightarrow> buf_ok b \<Longrightarrow> buf_shape b = buf_shape (dbuffer d) \<Longrightarrow> disp_ok (on_buffer (\<lambda>_. b) d)"
  by (auto simp: disp_ok_def on_buffer_def dbuffer_def buf_shape_def)

lemma on_buffer_const: "on_buffer f d = on_buffer (\<lambda>_. f (dbuffer d)) d"
  by (simp add: on_buffer_def dbuffer_def)

locale screen_op =
  fixes f :: "buffer \<Rightarrow> buffer"
  assumes keeps_ok: "buf_ok b \<Longrightarrow> buf_ok (f b)"
    and keeps_shape: "buf_shape (f b) = buf_shape b"
begin

lemma iterate: "buf_ok b \<Longrightarrow> buf_ok ((f ^^ n) b) \<and> buf_shape ((f ^^ n) b) = buf_shape b"
  by (induction n) (auto simp: keeps_ok keeps_shape)

lemma iterate_shape: "buf_shape ((f ^^ n) b) = buf_shape b"
  by (induction n) (auto simp: keeps_shape)

lemma display_ok: "disp_ok d \<Longrightarrow> disp_ok (on_buffer f d)"
  unfolding on_buffer_const [of f]
  by (intro on_buffer_const_ok) (auto simp: keeps_ok keeps_shape disp_ok_buffer)

end

text \<open>Composition of two operations.\<close>

locale screen_op_pair = fst: screen_op f + snd: screen_op g
  for f g :: "buffer \<Rightarrow> buffer"
begin

lemma both: "buf_ok b \<Longrightarrow> buf_ok (g (f b)) \<and> buf_shape (g (f b)) = buf_shape b"
  by (simp add: fst.keeps_ok snd.keeps_ok fst.keeps_shape snd.keeps_shape)

end

sublocale screen_op_pair \<subseteq> pair: screen_op "g \<circ> f"
  by unfold_locales (simp_all add: fst.keeps_ok snd.keeps_ok fst.keeps_shape snd.keeps_shape)

lemma grid_step_shape: "grid_step b b' \<Longrightarrow> buf_shape b' = buf_shape b"
  by (auto simp: grid_step_def buf_shape_def dest: same_frameD(1) same_frameD(2) same_frameD(3))

lemma shape_scroll_once: "buf_shape (scrollup_once t k b) = buf_shape b"
  "buf_shape (scrolldown_once t k b) = buf_shape b"
  by (simp_all add: buf_shape_def scrollup_once_def scrolldown_once_def)

lemma shape_funpow: "(\<And>b. buf_shape (f b) = buf_shape b) \<Longrightarrow> buf_shape ((f ^^ n) b) = buf_shape b"
  by (induction n) auto

lemma shape_scroll:
  "buf_shape (scrollup n b) = buf_shape b" "buf_shape (scrolldown n b) = buf_shape b"
  "buf_shape (scrollup_in n t k b) = buf_shape b" "buf_shape (scrolldown_in n t k b) = buf_shape b"
  by (simp_all add: scrollup_def scrolldown_def scrollup_in_def scrolldown_in_def Let_def
      shape_funpow shape_scroll_once)

lemma shape_fields [simp]:
  "buf_shape (b\<lparr>b_wrap_pending := w\<rparr>) = buf_shape b" "buf_shape (b\<lparr>b_style := st\<rparr>) = buf_shape b"
  "buf_shape (b\<lparr>b_saved := sv\<rparr>) = buf_shape b" "buf_shape (b\<lparr>b_autowrap := w\<rparr>) = buf_shape b"
  "buf_shape (b\<lparr>b_origin := w\<rparr>) = buf_shape b" "buf_shape (b\<lparr>b_insert := w\<rparr>) = buf_shape b"
  "buf_shape (b\<lparr>b_newline := w\<rparr>) = buf_shape b" "buf_shape (b\<lparr>b_g0 := c\<rparr>) = buf_shape b"
  "buf_shape (b\<lparr>b_g1 := c\<rparr>) = buf_shape b" "buf_shape (b\<lparr>b_charset := n\<rparr>) = buf_shape b"
  "buf_shape (b\<lparr>b_row := n\<rparr>) = buf_shape b" "buf_shape (b\<lparr>b_col := n\<rparr>) = buf_shape b"
  "buf_shape (b\<lparr>b_top := n\<rparr>) = buf_shape b" "buf_shape (b\<lparr>b_bottom := n\<rparr>) = buf_shape b"
  "buf_shape (b\<lparr>b_tabs := T\<rparr>) = buf_shape b"
  by (simp_all add: buf_shape_def)

lemma setpos_shape: "buf_shape (setpos r c b) = buf_shape b"
  by (simp add: setpos_def Let_def split: option.split)

lemma index_down_shape: "buf_shape (index_down b) = buf_shape b"
  by (simp add: index_down_def Let_def shape_scroll)

lemma carriage_shape: "buf_shape (carriage b) = buf_shape b"
  by (simp add: carriage_def)

lemma wrap_line_shape: "buf_shape (wrap_line b) = buf_shape b"
  unfolding wrap_line_def
  by (simp add: index_down_shape carriage_shape grid_step_shape [OF set_wrapped_grid])

lemma put_cells_shape: "buf_shape (put_cells ch w b) = buf_shape b"
  by (simp add: put_cells_def Let_def grid_step_shape [OF set_cell_grid] grid_step_shape [OF clearwide_grid])

lemma insert_blank_shape: "buf_shape (insert_blank b) = buf_shape b"
  by (simp add: insert_blank_def set_cells_def buf_shape_def)

lemma put_shape: "buf_shape (put u ch b) = buf_shape b"
  by (simp add: put_def Let_def put_cells_shape wrap_line_shape put_wrap_pending_def
      shape_funpow insert_blank_shape grid_step_shape [OF put_combining_grid])

lemma erase_display_shape: "buf_shape (erase_display m b) = buf_shape b"
proof -
  have f: "buf_shape (fold (\<lambda>row. erasecells row 0 n) rs b) = buf_shape b" for n rs b
    by (rule grid_step_shape [OF fold_grid [OF erasecells_grid]])
  have "buf_shape (b\<lparr>b_history := map_option (\<lambda>_. []) (b_history b)\<rparr>) = buf_shape b" for b
    by (simp add: buf_shape_def)
  then show ?thesis
    unfolding erase_display_def Let_def
    by (simp add: f grid_step_shape [OF erasecells_grid])
qed

lemma delete_cell_step: "buf_ok b \<Longrightarrow> grid_step b (delete_cell b)"
  unfolding delete_cell_def
  using buf_ok_cells [of b "b_row b"]
  by (intro set_cells_grid) (simp add: buf_ok_def length_list_pop)

lemma delete_cell_shape: "buf_shape (delete_cell b) = buf_shape b"
  by (simp add: delete_cell_def set_cells_def buf_shape_def)

lemma buf_ok_region:
  "buf_ok b \<Longrightarrow> t \<le> k \<Longrightarrow> k < b_rows b \<Longrightarrow> buf_ok (b\<lparr>b_top := t, b_bottom := k\<rparr>)"
  by (simp add: buf_ok_def)

lemma set_region_ok: "buf_ok b \<Longrightarrow> buf_ok (set_region v b)"
  unfolding set_region_def Let_def
  by (auto intro!: setpos_ok buf_ok_region)

lemma clear_tabs_ok: "buf_ok b \<Longrightarrow> buf_ok (clear_tabs m b)"
  by (auto simp: clear_tabs_def buf_ok_def)

interpretation op_setpos: screen_op "setpos r c" for r c
  by unfold_locales (simp add: setpos_ok, simp add: setpos_shape)

interpretation op_index: screen_op index_down
  by unfold_locales (simp add: index_down_ok, simp add: index_down_shape)

interpretation op_reverseindex: screen_op reverseindex
  by unfold_locales (simp add: reverseindex_ok, simp add: reverseindex_def Let_def shape_scroll)

interpretation op_carriage: screen_op carriage
  by unfold_locales (simp add: carriage_ok, simp add: carriage_shape)

interpretation op_next_line: screen_op_pair carriage index_down
  by unfold_locales

interpretation op_linefeed: screen_op linefeed
  by unfold_locales (simp add: linefeed_ok, simp add: linefeed_def Let_def carriage_shape index_down_shape)

interpretation op_backspace: screen_op buf_backspace
  by unfold_locales (simp add: buf_backspace_ok, simp add: buf_backspace_def Let_def)

interpretation op_tab: screen_op tab_forward
  by unfold_locales (simp add: tab_forward_ok, simp add: tab_forward_def Let_def)

interpretation op_backtab: screen_op tab_backward
  by unfold_locales (simp add: tab_backward_ok, simp add: tab_backward_def Let_def)

interpretation op_put: screen_op "put u ch" for u ch
  by unfold_locales (simp add: put_ok, simp add: put_shape)

interpretation op_save: screen_op buffer_save
  by unfold_locales (simp add: buffer_save_ok, simp add: buffer_save_def)

interpretation op_restore: screen_op buffer_restore
  by unfold_locales (simp add: buffer_restore_ok, simp add: buffer_restore_def split: option.split)

interpretation op_reset: screen_op buffer_reset
  by unfold_locales (simp add: buffer_reset_ok, simp add: buffer_reset_def buf_shape_def)

interpretation op_erase_display: screen_op "erase_display m" for m
  by unfold_locales (simp add: erase_display_ok, simp add: erase_display_shape)

interpretation op_erase_line: screen_op "erase_line m" for m
  by unfold_locales (simp add: erase_line_ok, simp add: grid_step_shape [OF erase_line_grid])

interpretation op_erasecells: screen_op "erasecells r s e" for r s e
  by unfold_locales (simp add: erasecells_ok, simp add: grid_step_shape [OF erasecells_grid])

interpretation op_insert: screen_op insert_blank
  by unfold_locales (simp_all add: grid_step_ok [OF insert_blank_step] insert_blank_shape)

interpretation op_delete: screen_op delete_cell
  by unfold_locales (simp_all add: grid_step_ok [OF delete_cell_step] delete_cell_shape)

interpretation op_scrollup: screen_op "scrollup n" for n
  by unfold_locales (simp add: scrollup_ok, simp add: shape_scroll)

interpretation op_scrolldown: screen_op "scrolldown n" for n
  by unfold_locales (simp add: scrolldown_ok, simp add: shape_scroll)

interpretation op_insert_lines: screen_op "scrolldown_in n t k" for n t k
  by unfold_locales (simp add: scrolldown_in_ok, simp add: shape_scroll)

interpretation op_delete_lines: screen_op "scrollup_in n t k" for n t k
  by unfold_locales (simp add: scrollup_in_ok, simp add: shape_scroll)

interpretation op_region: screen_op "set_region v" for v
  by unfold_locales (simp add: set_region_ok, simp add: set_region_def Let_def setpos_shape)

interpretation op_clear_tabs: screen_op "clear_tabs m" for m
  by unfold_locales (simp add: clear_tabs_ok, simp add: clear_tabs_def)

lemma buf_ok_set_tab: "buf_ok b \<Longrightarrow> buf_ok (b\<lparr>b_tabs := insert (b_col b) (b_tabs b)\<rparr>)"
  by (simp add: buf_ok_def)

interpretation op_set_tab: screen_op "\<lambda>b. b\<lparr>b_tabs := insert (b_col b) (b_tabs b)\<rparr>"
  by unfold_locales (simp_all add: buf_ok_set_tab)

interpretation op_style: screen_op "\<lambda>b. b\<lparr>b_style := g (b_style b)\<rparr>" for g
  by unfold_locales simp_all

interpretation op_charset: screen_op "\<lambda>b. b\<lparr>b_charset := n\<rparr>" for n
  by unfold_locales simp_all

interpretation op_origin: screen_op "\<lambda>b. setpos r c (b\<lparr>b_origin := w\<rparr>)" for r c w
  by unfold_locales (simp add: setpos_ok, simp add: setpos_shape)

interpretation op_autowrap: screen_op "\<lambda>b. b\<lparr>b_autowrap := w\<rparr>" for w
  by unfold_locales simp_all

interpretation op_insertmode: screen_op "\<lambda>b. b\<lparr>b_insert := w\<rparr>" for w
  by unfold_locales simp_all

interpretation op_newline: screen_op "\<lambda>b. b\<lparr>b_newline := w\<rparr>" for w
  by unfold_locales simp_all

interpretation op_designate: screen_op "\<lambda>b. if P then b\<lparr>b_g0 := c\<rparr> else b\<lparr>b_g1 := c\<rparr>" for P c
  by unfold_locales simp_all

lemmas ops_keep =
  op_setpos.keeps_ok op_setpos.keeps_shape op_erase_display.keeps_ok op_erase_display.keeps_shape
  op_erase_line.keeps_ok op_erase_line.keeps_shape op_erasecells.keeps_ok op_erasecells.keeps_shape
  op_insert.iterate op_delete.iterate op_insert_lines.keeps_ok op_insert_lines.keeps_shape
  op_delete_lines.keeps_ok op_delete_lines.keeps_shape op_scrollup.keeps_ok op_scrollup.keeps_shape
  op_scrolldown.keeps_ok op_scrolldown.keeps_shape op_tab.iterate op_backtab.iterate op_put.iterate
  op_region.keeps_ok op_region.keeps_shape op_save.keeps_ok op_save.keeps_shape
  op_restore.keeps_ok op_restore.keeps_shape op_clear_tabs.keeps_ok op_clear_tabs.keeps_shape

section \<open>The display invariant\<close>

lemma csi_buffer_keeps:
  assumes "csi_buffer u p v final b = Some b'" and "buf_ok b"
  shows "buf_ok b' \<and> buf_shape b' = buf_shape b"
  using assms(1) unfolding csi_buffer_def Let_def
  by (simp only: split: if_splits) (use assms(2) in \<open>auto simp: ops_keep\<close>)+

lemma disp_ok_fields [simp]:
  "disp_ok (d\<lparr>d_state := s\<rparr>) = disp_ok d" "disp_ok (d\<lparr>d_dirty := w\<rparr>) = disp_ok d"
  "disp_ok (d\<lparr>d_generation := n\<rparr>) = disp_ok d" "disp_ok (d\<lparr>d_designate := x\<rparr>) = disp_ok d"
  "disp_ok (d\<lparr>d_last_printed := c\<rparr>) = disp_ok d" "disp_ok (d\<lparr>d_text_blink := w\<rparr>) = disp_ok d"
  "disp_ok (d\<lparr>d_view_offset := n\<rparr>) = disp_ok d" "disp_ok (d\<lparr>d_cursor_blink := w\<rparr>) = disp_ok d"
  "disp_ok (d\<lparr>d_cursor_visible := w\<rparr>) = disp_ok d" "disp_ok (d\<lparr>d_app_cursor := w\<rparr>) = disp_ok d"
  "disp_ok (d\<lparr>d_app_keypad := w\<rparr>) = disp_ok d" "disp_ok (d\<lparr>d_bracketed_paste := w\<rparr>) = disp_ok d"
  "disp_ok (d\<lparr>d_focus_events := w\<rparr>) = disp_ok d" "disp_ok (d\<lparr>d_mouse_mode := n\<rparr>) = disp_ok d"
  "disp_ok (d\<lparr>d_mouse_sgr := w\<rparr>) = disp_ok d" "disp_ok (d\<lparr>d_use_alternate := w\<rparr>) = disp_ok d"
  "disp_ok (d\<lparr>d_written := ws\<rparr>) = disp_ok d"
  by (simp_all add: disp_ok_def)

lemma disp_ok_bounded [simp]:
  "disp_ok d \<Longrightarrow> disp_ok (d\<lparr>d_sequence := []\<rparr>)" "disp_ok d \<Longrightarrow> disp_ok (d\<lparr>d_osc := []\<rparr>)"
  "disp_ok d \<Longrightarrow> disp_ok (d\<lparr>d_pending := []\<rparr>)"
  "disp_ok d \<Longrightarrow> pending_ok p \<Longrightarrow> disp_ok (d\<lparr>d_pending := p\<rparr>)"
  "disp_ok d \<Longrightarrow> length t \<le> 256 \<Longrightarrow> disp_ok (d\<lparr>d_title := t\<rparr>)"
  "disp_ok d \<Longrightarrow> n \<le> 6 \<Longrightarrow> disp_ok (d\<lparr>d_cursor_style := n\<rparr>)"
  "disp_ok d \<Longrightarrow> length q < CONSOLE_SEQUENCE_LIMIT \<Longrightarrow> disp_ok (d\<lparr>d_sequence := q @ [x]\<rparr>)"
  "disp_ok d \<Longrightarrow> length q < CONSOLE_SEQUENCE_LIMIT \<Longrightarrow> disp_ok (d\<lparr>d_osc := q @ [x]\<rparr>)"
  "disp_ok d \<Longrightarrow> length q + 2 < CONSOLE_SEQUENCE_LIMIT \<Longrightarrow> disp_ok (d\<lparr>d_osc := q @ [x, y]\<rparr>)"
  by (simp_all add: disp_ok_def)

lemma changed_ok [simp]: "disp_ok (changed d) = disp_ok d"
  by (simp add: changed_def)

lemma writeback_ok [disp_rules]: "disp_ok d \<Longrightarrow> disp_ok (writeback w d)"
  by (simp add: writeback_def)

lemma display_init_ok [disp_rules]: "disp_ok (display_init r c w)"
  by (simp add: disp_ok_def display_init_def buffer_init_ok)
     (simp add: buffer_init_def Let_def)

lemma printchar_ok [disp_rules]: "disp_ok d \<Longrightarrow> disp_ok (printchar u ch d)"
  by (simp add: printchar_def Let_def op_put.display_ok)

lemma printtext_ok [disp_rules]: "disp_ok d \<Longrightarrow> disp_ok (printtext u s d)"
  unfolding printtext_def by (induction s arbitrary: d) (simp_all add: printchar_ok)

lemma flushdecoder_ok [disp_rules]: "disp_ok d \<Longrightarrow> disp_ok (flushdecoder u d)"
  by (simp add: flushdecoder_def printtext_ok)

lemma control_ok [disp_rules]: "disp_ok d \<Longrightarrow> disp_ok (control byte d)"
  by (simp add: control_def op_backspace.display_ok op_tab.display_ok op_linefeed.display_ok
      op_carriage.display_ok op_charset.display_ok)

lemma disp_ok_buffers:
  assumes "disp_ok d" and "buf_ok p" "buf_ok a"
    and "buf_shape p = buf_shape (d_primary d)" "buf_shape a = buf_shape (d_alternate d)"
  shows "disp_ok (d\<lparr>d_primary := p, d_alternate := a\<rparr>)"
  using assms by (simp add: disp_ok_def buf_shape_def)

lemma display_reset_ok [disp_rules]:
  assumes "disp_ok d"
  shows "disp_ok (display_reset d)"
proof -
  have "disp_ok (d\<lparr>d_primary := buffer_reset (d_primary d), d_alternate := buffer_reset (d_alternate d)\<rparr>)"
    using assms by (intro disp_ok_buffers) (auto simp: disp_ok_def op_reset.keeps_ok op_reset.keeps_shape)
  then show ?thesis by (simp add: display_reset_def)
qed

lemma escape_ok [disp_rules]: "disp_ok d \<Longrightarrow> disp_ok (escape byte d)"
  unfolding escape_def Let_def
  by (auto intro!: op_save.display_ok op_restore.display_ok op_index.display_ok
      op_reverseindex.display_ok op_next_line.pair.display_ok op_set_tab.display_ok display_reset_ok)

lemma finishosc_ok [disp_rules]: "disp_ok d \<Longrightarrow> disp_ok (finishosc d)"
  unfolding finishosc_def Let_def
  by (auto intro!: disp_ok_bounded(2) op_style.display_ok split: prod.split)

lemma sgr_ok [disp_rules]: "disp_ok d \<Longrightarrow> disp_ok (sgr v d)"
  unfolding sgr_def Let_def
  by (auto intro!: op_style.display_ok split: prod.split)

lemma switch_screen_ok [disp_rules]:
  assumes "disp_ok d"
  shows "disp_ok (switch_screen value en d)"
proof -
  have p: "disp_ok (d\<lparr>d_primary := f (d_primary d)\<rparr>)" if "screen_op f" "disp_ok d" for f d
    using that disp_ok_buffers [of d "f (d_primary d)" "d_alternate d"]
    by (simp add: disp_ok_def screen_op.keeps_ok screen_op.keeps_shape)
  have a: "disp_ok (d\<lparr>d_alternate := f (d_alternate d)\<rparr>)" if "screen_op f" "disp_ok d" for f d
    using that disp_ok_buffers [of d "d_primary d" "f (d_alternate d)"]
    by (simp add: disp_ok_def screen_op.keeps_ok screen_op.keeps_shape)
  define d1 where "d1 = (if en \<and> value = 1049 then d\<lparr>d_primary := buffer_save (d_primary d)\<rparr> else d)"
  define d2 where "d2 = d1\<lparr>d_use_alternate := en\<rparr>"
  have "disp_ok d1" unfolding d1_def using assms p [OF op_save.screen_op_axioms] by simp
  then have "disp_ok d2" by (simp add: d2_def)
  then show ?thesis
    using p [OF op_restore.screen_op_axioms] a [OF op_reset.screen_op_axioms]
    unfolding switch_screen_def Let_def d1_def [symmetric] d2_def [symmetric] by simp
qed

lemma setmode_ok [disp_rules]: "disp_ok d \<Longrightarrow> disp_ok (setmode pr en v d)"
  unfolding setmode_def Let_def
  by (auto intro!: switch_screen_ok op_origin.display_ok op_autowrap.display_ok op_save.display_ok
      op_restore.display_ok op_insertmode.display_ok op_newline.display_ok)

lemma setmodes_ok [disp_rules]: "disp_ok d \<Longrightarrow> disp_ok (setmodes pr vs en d)"
  unfolding setmodes_def by (induction vs arbitrary: d) (simp_all add: setmode_ok)

lemma csi_ok [disp_rules]:
  assumes "disp_ok d"
  shows "disp_ok (csi u raw final d)"
proof -
  obtain pr im vs where ps: "csi_params raw = (pr, im, vs)" by (metis prod_cases3)
  show ?thesis
  proof (cases "csi_buffer u (d_last_printed d) vs final (dbuffer d)")
    case (Some b)
    with csi_buffer_keeps [OF Some] assms have "buf_ok b" "buf_shape b = buf_shape (dbuffer d)"
      by (simp_all add: disp_ok_buffer)
    with Some assms ps show ?thesis by (simp add: csi_def on_buffer_const_ok)
  next
    case None
    with assms ps show ?thesis
      by (simp add: csi_def Let_def sgr_ok setmodes_ok writeback_ok)
  qed
qed

lemma feedbyte_ok [disp_rules]:
  assumes "disp_ok d"
  shows "disp_ok (feedbyte u byte d)"
proof -
  have "pending_ok (snd (utf8_step (d_pending d) byte))"
    using assms by (simp add: disp_ok_def utf8_step_pending)
  then show ?thesis
    unfolding feedbyte_def using assms
    by (auto simp: flushdecoder_ok control_ok printtext_ok escape_ok csi_ok finishosc_ok
        op_designate.display_ok split: pstate.split prod.split)
qed

lemma feedbytes_ok [disp_rules]: "disp_ok d \<Longrightarrow> disp_ok (feedbytes u data d)"
  unfolding feedbytes_def by (induction data arbitrary: d) (simp_all add: feedbyte_ok)

lemma feed_ok [disp_rules]: "disp_ok d \<Longrightarrow> disp_ok (feed u data d)"
  by (simp add: feed_def Let_def feedbytes_ok)

lemma display_resize_ok [disp_rules]:
  assumes "disp_ok d"
  shows "disp_ok (display_resize r c d)"
  using assms resize_shape [of "d_primary d" r c] resize_shape [of "d_alternate d" r c]
  by (auto simp: display_resize_def Let_def changed_def disp_ok_def resize_ok)

section \<open>The alternate screen hides the primary one\<close>

text \<open>\<open>isolated d d'\<close>: either the view was reset to the bottom, or \<open>d'\<close> still shows the
  alternate screen with the same scroll position; and as long as the alternate screen is
  shown, the primary screen is that of \<open>d\<close>, at most with its position saved once more.\<close>

definition same_screen :: "buffer \<Rightarrow> buffer \<Rightarrow> bool" where
  "same_screen b b' \<longleftrightarrow> b' = b \<or> b' = buffer_save b"

lemma same_screen_refl [simp]: "same_screen b b"
  by (simp add: same_screen_def)

lemma buffer_save_twice [simp]: "buffer_save (buffer_save b) = buffer_save b"
  by (simp add: buffer_save_def)

lemma same_screen_trans: "same_screen a b \<Longrightarrow> same_screen b c \<Longrightarrow> same_screen a c"
  by (auto simp: same_screen_def)

lemma same_screen_save: "same_screen b (buffer_save b)"
  by (simp add: same_screen_def)

lemma same_screen_hist: "same_screen b b' \<Longrightarrow> hist_len b' = hist_len b"
  by (auto simp: same_screen_def hist_len_def buffer_save_def)

definition isolated :: "display \<Rightarrow> display \<Rightarrow> bool" where
  "isolated d d' \<longleftrightarrow> (d_view_offset d' = 0 \<or> (d_use_alternate d' = d_use_alternate d \<and> d_view_offset d' = d_view_offset d))
     \<and> (d_use_alternate d \<and> d_use_alternate d' \<longrightarrow> same_screen (d_primary d) (d_primary d'))"

text \<open>One step of the parser either leaves the alternate screen, or is isolated.\<close>

lemma isolated_refl [simp]: "isolated d d"
  by (simp add: isolated_def)

lemma isolated_on_buffer [simp]: "isolated d (on_buffer f d)"
  by (simp add: isolated_def on_buffer_def)

lemma isolated_fields [simp]:
  "isolated d (d'\<lparr>d_state := s\<rparr>) = isolated d d'" "isolated d (d'\<lparr>d_dirty := w\<rparr>) = isolated d d'"
  "isolated d (d'\<lparr>d_generation := n\<rparr>) = isolated d d'" "isolated d (d'\<lparr>d_designate := x\<rparr>) = isolated d d'"
  "isolated d (d'\<lparr>d_last_printed := c\<rparr>) = isolated d d'" "isolated d (d'\<lparr>d_text_blink := w\<rparr>) = isolated d d'"
  "isolated d (d'\<lparr>d_cursor_blink := w\<rparr>) = isolated d d'" "isolated d (d'\<lparr>d_cursor_visible := w\<rparr>) = isolated d d'"
  "isolated d (d'\<lparr>d_app_cursor := w\<rparr>) = isolated d d'" "isolated d (d'\<lparr>d_app_keypad := w\<rparr>) = isolated d d'"
  "isolated d (d'\<lparr>d_bracketed_paste := w\<rparr>) = isolated d d'" "isolated d (d'\<lparr>d_focus_events := w\<rparr>) = isolated d d'"
  "isolated d (d'\<lparr>d_mouse_mode := n\<rparr>) = isolated d d'" "isolated d (d'\<lparr>d_mouse_sgr := w\<rparr>) = isolated d d'"
  "isolated d (d'\<lparr>d_written := ws\<rparr>) = isolated d d'" "isolated d (d'\<lparr>d_pending := ps\<rparr>) = isolated d d'"
  "isolated d (d'\<lparr>d_sequence := q\<rparr>) = isolated d d'" "isolated d (d'\<lparr>d_osc := q\<rparr>) = isolated d d'"
  "isolated d (d'\<lparr>d_title := t\<rparr>) = isolated d d'" "isolated d (d'\<lparr>d_cursor_style := n\<rparr>) = isolated d d'"
  by (simp_all add: isolated_def)

lemma isolated_changed [simp]: "isolated d (changed d') = isolated d d'"
  by (simp add: changed_def)

lemma isolated_writeback [simp]: "isolated d (writeback w d') = isolated d d'"
  by (simp add: writeback_def)

text \<open>While the alternate screen stays in use, the chain of steps is isolated.\<close>

lemma isolated_trans:
  assumes "isolated d1 d2" "isolated d2 d3" "d_use_alternate d1 \<and> d_use_alternate d3 \<longrightarrow> d_use_alternate d2"
  shows "isolated d1 d3"
  using assms unfolding isolated_def by (auto intro: same_screen_trans)

text \<open>Steps that never switch the screen compose without that side condition.\<close>

definition quiet :: "display \<Rightarrow> display \<Rightarrow> bool" where
  "quiet d d' \<longleftrightarrow> d_use_alternate d' = d_use_alternate d \<and> isolated d d'"

lemma quiet_trans: "quiet a b \<Longrightarrow> quiet b c \<Longrightarrow> quiet a c"
  unfolding quiet_def using isolated_trans by metis

lemma quiet_isolated: "quiet d d' \<Longrightarrow> isolated d d'"
  by (simp add: quiet_def)

lemma use_alternate_on_buffer [simp]: "d_use_alternate (on_buffer f d) = d_use_alternate d"
  by (simp add: on_buffer_def)

lemma printchar_quiet: "quiet d (printchar u ch d)"
  by (simp add: quiet_def printchar_def Let_def) (simp add: changed_def)

lemma printtext_quiet: "quiet d (printtext u s d)"
  unfolding printtext_def
proof (induction s arbitrary: d)
  case Nil
  then show ?case by (simp add: quiet_def)
next
  case (Cons c s)
  from Cons [of "printchar u c d"] printchar_quiet [of d u c] show ?case
    by (auto intro: quiet_trans)
qed

lemma flushdecoder_quiet: "quiet d (flushdecoder u d)"
proof -
  have "quiet d (d\<lparr>d_pending := []\<rparr>)" by (simp add: quiet_def)
  then show ?thesis
    unfolding flushdecoder_def using printtext_quiet quiet_trans by blast
qed

lemma control_quiet: "quiet d (control b d)"
  by (simp add: quiet_def control_def) (simp add: changed_def)

lemma sgr_isolated: "isolated d (sgr v d)"
  by (simp add: sgr_def Let_def split: prod.split)

lemma switch_screen_isolated: "isolated d (switch_screen v en d)"
  using same_screen_save by (auto simp: switch_screen_def Let_def isolated_def)

lemma setmode_isolated: "isolated d (setmode pr en v d)"
  by (simp add: setmode_def Let_def switch_screen_isolated)

lemma display_reset_isolated: "isolated d (display_reset d)"
  by (simp add: display_reset_def) (simp add: isolated_def)

lemma escape_isolated: "isolated d (escape b d)"
proof -
  have "isolated d (on_buffer f (d\<lparr>d_state := Ground\<rparr>))" for f
    using isolated_on_buffer [of "d\<lparr>d_state := Ground\<rparr>" f] by (simp add: isolated_def)
  moreover have "isolated d (display_reset (d\<lparr>d_state := Ground\<rparr>))"
    using display_reset_isolated [of "d\<lparr>d_state := Ground\<rparr>"] by (simp add: isolated_def)
  ultimately show ?thesis by (simp add: escape_def Let_def)
qed

lemma finishosc_isolated: "isolated d (finishosc d)"
  by (simp add: finishosc_def Let_def split: prod.split)

lemma setmode_alternate:
  "d_use_alternate (setmode pr en v d) = d_use_alternate d \<or> d_use_alternate (setmode pr en v d) = en"
  by (simp add: setmode_def Let_def switch_screen_def)

lemma setmodes_alternate:
  "(en \<longrightarrow> d_use_alternate d \<longrightarrow> d_use_alternate (fold (setmode pr en) vs d))
   \<and> (\<not> en \<longrightarrow> d_use_alternate (fold (setmode pr en) vs d) \<longrightarrow> d_use_alternate d)"
proof (induction vs arbitrary: d)
  case Nil
  then show ?case by simp
next
  case (Cons v vs)
  from Cons [of "setmode pr en v d"] setmode_alternate [of pr en v d] show ?case
    by (cases en) auto
qed

lemma setmodes_isolated: "isolated d (setmodes pr vs en d)"
  unfolding setmodes_def
proof (induction vs arbitrary: d)
  case Nil
  then show ?case by simp
next
  case (Cons v vs)
  let ?d1 = "setmode pr en v d"
  have "d_use_alternate d \<and> d_use_alternate (fold (setmode pr en) vs ?d1) \<longrightarrow> d_use_alternate ?d1"
    using setmodes_alternate [of en ?d1 pr vs] setmode_alternate [of pr en v d] by auto
  from isolated_trans [OF setmode_isolated Cons [of ?d1] this] show ?case by simp
qed

lemma csi_isolated: "isolated d (csi u raw final d)"
proof -
  obtain pr im vs where ps: "csi_params raw = (pr, im, vs)" by (metis prod_cases3)
  show ?thesis
    by (cases "csi_buffer u (d_last_printed d) vs final (dbuffer d)")
       (simp_all add: csi_def ps Let_def sgr_isolated setmodes_isolated)
qed

lemma isolated_state [simp]:
  "isolated (d\<lparr>d_sequence := q, d_state := s\<rparr>) d' = isolated d d'"
  by (simp add: isolated_def)

lemma feedbyte_isolated: "isolated d (feedbyte u byte d)"
proof -
  have f: "isolated d (flushdecoder u d)"
    by (rule quiet_isolated [OF flushdecoder_quiet])
  have c: "isolated d (control byte (flushdecoder u d))"
    by (rule quiet_isolated [OF quiet_trans [OF flushdecoder_quiet control_quiet]])
  have t: "isolated d (printtext u s (d\<lparr>d_pending := q\<rparr>))" for s q
    using quiet_isolated [OF printtext_quiet [of "d\<lparr>d_pending := q\<rparr>" u s]] by (simp add: isolated_def)
  have k: "isolated d (csi u raw byte (d\<lparr>d_sequence := [], d_state := Ground\<rparr>))" for raw
    using csi_isolated [of "d\<lparr>d_sequence := [], d_state := Ground\<rparr>" u raw byte] by simp
  show ?thesis
    unfolding feedbyte_def using f c t k
    by (auto simp: escape_isolated finishosc_isolated split: pstate.split prod.split)
qed

definition calm :: "display \<Rightarrow> display \<Rightarrow> bool" where
  "calm d d' \<longleftrightarrow> d_view_offset d' = 0 \<or>
     (d_use_alternate d' = d_use_alternate d \<and> d_view_offset d' = d_view_offset d
      \<and> (d_use_alternate d \<longrightarrow> same_screen (d_primary d) (d_primary d')))"

lemma isolated_calm: "isolated d d' \<Longrightarrow> calm d d'"
  by (auto simp: isolated_def calm_def)

lemma calm_trans: "calm a b \<Longrightarrow> calm b c \<Longrightarrow> calm a c"
  by (auto simp: calm_def intro: same_screen_trans)

lemma feedbytes_calm: "calm d (feedbytes u data d)"
  unfolding feedbytes_def
proof (induction data arbitrary: d)
  case Nil
  then show ?case by (simp add: calm_def)
next
  case (Cons b data)
  from calm_trans [OF isolated_calm [OF feedbyte_isolated] Cons] show ?case by simp
qed

lemma feedbytes_append: "feedbytes u (xs @ ys) d = feedbytes u ys (feedbytes u xs d)"
  by (simp add: feedbytes_def)

lemma feedbytes_view0: "d_view_offset d = 0 \<Longrightarrow> d_view_offset (feedbytes u data d) = 0"
  using feedbytes_calm [of d u data] by (auto simp: calm_def)

lemma feed_view0: "d_view_offset d = 0 \<Longrightarrow> feed u data d = feedbytes u data d"
  by (simp add: feed_def Let_def feedbytes_view0)

definition view_ok :: "display \<Rightarrow> bool" where
  "view_ok d \<longleftrightarrow> d_view_offset d \<le> hist_len (d_primary d)"

lemma feed_view_ok:
  assumes "view_ok d"
  shows "view_ok (feed u data d)"
  using feedbytes_calm [of d u data] assms
  by (auto simp: feed_def Let_def view_ok_def calm_def dest: same_screen_hist)

lemma alternate_isolation:
  assumes "\<forall>k \<le> length data. d_use_alternate (feedbytes u (take k data) d)"
  shows "same_screen (d_primary d) (d_primary (feedbytes u data d))"
  using assms
proof (induction data arbitrary: d)
  case Nil
  then show ?case by (simp add: feedbytes_def)
next
  case (Cons b data)
  let ?d1 = "feedbyte u b d"
  have step: "feedbytes u (take (Suc k) (b # data)) d = feedbytes u (take k data) ?d1" for k
    by (simp add: feedbytes_def)
  have d: "d_use_alternate d" using Cons.prems [rule_format, of 0] by (simp add: feedbytes_def)
  have d1: "d_use_alternate ?d1" using Cons.prems [rule_format, of 1] by (simp add: feedbytes_def)
  have "\<forall>k \<le> length data. d_use_alternate (feedbytes u (take k data) ?d1)"
  proof (intro allI impI)
    fix k
    assume "k \<le> length data"
    then show "d_use_alternate (feedbytes u (take k data) ?d1)"
      using Cons.prems [rule_format, of "Suc k"] step [of k] by simp
  qed
  from Cons.IH [OF this] have "same_screen (d_primary ?d1) (d_primary (feedbytes u data ?d1))" .
  moreover have "same_screen (d_primary d) (d_primary ?d1)"
    using feedbyte_isolated [of d u b] d d1 by (simp add: isolated_def)
  ultimately show ?case by (auto intro: same_screen_trans simp: feedbytes_def)
qed

end
