(* ===== verification/Console_Text.thy ===== *)
theory Console_Text
  imports Console_Facts
begin

text \<open>
  What the terminal shows: printing a run of single-width characters, decoding UTF-8 input,
  cursor addressing and its report, scrolling into the history, and re-laying out lines of
  single-width characters at another width.
\<close>

section \<open>Printing single-width text\<close>

definition text_cell :: "style \<Rightarrow> cp \<Rightarrow> cell" where
  "text_cell st ch = \<lparr>c_text = [ch], c_width = 1, c_style = st\<rparr>"

definition narrow_row :: "buffer \<Rightarrow> bool" where
  "narrow_row b \<longleftrightarrow> (\<forall>c \<in> set (cells_at b (b_row b)). c_width c = 1)"

lemma cells_at_set_cells [simp]:
  "r < length (b_lines b) \<Longrightarrow> cells_at (set_cells r cs b) r = cs"
  by (simp add: cells_at_def set_cells_def)

lemma cells_at_fields [simp]:
  "cells_at (b\<lparr>b_col := c\<rparr>) r = cells_at b r" "cells_at (b\<lparr>b_wrap_pending := w\<rparr>) r = cells_at b r"
  by (simp_all add: cells_at_def)

lemma set_cells_fields [simp]:
  "b_rows (set_cells r cs b) = b_rows b" "b_cols (set_cells r cs b) = b_cols b"
  "b_row (set_cells r cs b) = b_row b" "b_col (set_cells r cs b) = b_col b"
  "b_style (set_cells r cs b) = b_style b" "b_wrap_pending (set_cells r cs b) = b_wrap_pending b"
  "b_insert (set_cells r cs b) = b_insert b" "length (b_lines (set_cells r cs b)) = length (b_lines b)"
  by (simp_all add: set_cells_def)

lemma set_cells_twice [simp]: "set_cells r cs' (set_cells r cs b) = set_cells r cs' b"
  by (cases "r < length (b_lines b)") (simp_all add: set_cells_def list_update_beyond)

lemma set_cells_col [simp]: "set_cells r cs (b\<lparr>b_col := c\<rparr>) = (set_cells r cs b)\<lparr>b_col := c\<rparr>"
  by (simp add: set_cells_def)

lemma put_narrow:
  assumes ok: "buf_ok b" and "narrow_row b" and np: "\<not> b_wrap_pending b" "\<not> b_insert b"
    and w: "consolecharwidth u ch = 1" and room: "b_col b + 1 < b_cols b"
  shows "put u ch b = (set_cell (b_row b) (b_col b) (text_cell (b_style b) ch) b)\<lparr>b_col := b_col b + 1\<rparr>"
proof -
  have len: "length (cells_at b (b_row b)) = b_cols b" using ok by (simp add: buf_ok_cells buf_ok_def)
  have "cells_at b (b_row b) ! b_col b \<in> set (cells_at b (b_row b))"
    using len room by (intro nth_mem) simp
  with assms(2) have "c_width (cells_at b (b_row b) ! b_col b) = 1" by (simp add: narrow_row_def)
  then have cw: "clearwide (b_row b) (b_col b) b = b" by (simp add: clearwide_def)
  have "put u ch b = put_cells ch 1 b"
    using w np by (simp add: put_def Let_def put_wrap_pending_def)
  also have "\<dots> = (set_cell (b_row b) (b_col b) (text_cell (b_style b) ch) b)\<lparr>b_col := b_col b + 1\<rparr>"
    using room by (simp add: put_cells_def cw Let_def text_cell_def set_cell_def)
  finally show ?thesis .
qed

lemma put_narrow_text:
  "buf_ok b \<Longrightarrow> narrow_row b \<Longrightarrow> \<not> b_wrap_pending b \<Longrightarrow> \<not> b_insert b \<Longrightarrow>
   \<forall>c \<in> set s. consolecharwidth u c = 1 \<Longrightarrow> b_col b + length s < b_cols b \<Longrightarrow>
   fold (put u) s b =
     (set_cells (b_row b) (take (b_col b) (cells_at b (b_row b)) @ map (text_cell (b_style b)) s
        @ drop (b_col b + length s) (cells_at b (b_row b))) b)\<lparr>b_col := b_col b + length s\<rparr>"
proof (induction s arbitrary: b)
  case Nil
  then show ?case by (simp add: set_cells_def cells_at_def)
next
  case (Cons ch s)
  let ?cs = "cells_at b (b_row b)"
  define b1 where "b1 = (set_cell (b_row b) (b_col b) (text_cell (b_style b) ch) b)\<lparr>b_col := b_col b + 1\<rparr>"
  have eq: "put u ch b = b1" unfolding b1_def using Cons.prems by (intro put_narrow) auto
  have rl: "b_row b < length (b_lines b)" and len: "length ?cs = b_cols b"
    using Cons.prems(1) by (simp_all add: buf_ok_def buf_ok_cells)
  have ok1: "buf_ok b1" using put_ok [OF Cons.prems(1), of u ch] eq by simp
  have cs1: "cells_at b1 (b_row b1) = ?cs[b_col b := text_cell (b_style b) ch]"
    using rl by (simp add: b1_def set_cell_def)
  have "narrow_row b1"
    using Cons.prems(2) set_update_subset_insert [of ?cs "b_col b" "text_cell (b_style b) ch"]
    by (auto simp: narrow_row_def cs1 text_cell_def)
  then have ih: "fold (put u) s b1 =
     (set_cells (b_row b1) (take (b_col b1) (cells_at b1 (b_row b1)) @ map (text_cell (b_style b1)) s
        @ drop (b_col b1 + length s) (cells_at b1 (b_row b1))) b1)\<lparr>b_col := b_col b1 + length s\<rparr>"
    using Cons.prems ok1 by (intro Cons.IH) (auto simp: b1_def set_cell_def)
  have t: "take (Suc (b_col b)) (?cs[b_col b := text_cell (b_style b) ch])
      = take (b_col b) ?cs @ [text_cell (b_style b) ch]"
    using Cons.prems(6) len by (simp add: take_Suc_conv_app_nth)
  show ?case
    using ih t by (simp add: eq cs1) (simp add: b1_def set_cell_def)
qed

section \<open>Decoding input in the ground state\<close>

lemma on_buffer_pending: "on_buffer f (d\<lparr>d_pending := p\<rparr>) = (on_buffer f d)\<lparr>d_pending := p\<rparr>"
  by (simp add: on_buffer_def)

lemma printchar_pending: "printchar u ch (d\<lparr>d_pending := p\<rparr>) = (printchar u ch d)\<lparr>d_pending := p\<rparr>"
  by (simp add: printchar_def Let_def on_buffer_pending dbuffer_def changed_def)

lemma printtext_pending: "printtext u s (d\<lparr>d_pending := p\<rparr>) = (printtext u s d)\<lparr>d_pending := p\<rparr>"
  unfolding printtext_def by (induction s arbitrary: d) (simp_all add: printchar_pending)

lemma d_state_on_buffer [simp]: "d_state (on_buffer f d) = d_state d" "d_pending (on_buffer f d) = d_pending d"
  by (simp_all add: on_buffer_def)

lemma printchar_state [simp]: "d_state (printchar u ch d) = d_state d" "d_pending (printchar u ch d) = d_pending d"
  by (simp_all add: printchar_def Let_def changed_def)

lemma printtext_state [simp]: "d_state (printtext u s d) = d_state d" "d_pending (printtext u s d) = d_pending d"
  unfolding printtext_def by (induction s arbitrary: d) simp_all

lemma printtext_append: "printtext u (s @ t) d = printtext u t (printtext u s d)"
  by (simp add: printtext_def)

definition text_byte :: "nat \<Rightarrow> bool" where
  "text_byte b \<longleftrightarrow> 32 \<le> b \<and> b \<noteq> 127"

lemma feedbytes_text:
  "d_state d = Ground \<Longrightarrow> \<forall>b \<in> set bs. text_byte b \<Longrightarrow>
   feedbytes u bs d = (printtext u (fst (utf8_run (d_pending d) bs)) d)
     \<lparr>d_pending := snd (utf8_run (d_pending d) bs)\<rparr>"
proof (induction bs arbitrary: d)
  case Nil
  then show ?case by (simp add: feedbytes_def printtext_def)
next
  case (Cons b bs)
  obtain out q where st: "utf8_step (d_pending d) b = (out, q)" by fastforce
  let ?d1 = "printtext u out (d\<lparr>d_pending := q\<rparr>)"
  have f: "feedbyte u b d = ?d1"
    using Cons.prems st by (simp add: feedbyte_def text_byte_def)
  have "feedbytes u bs ?d1 = (printtext u (fst (utf8_run q bs)) ?d1)\<lparr>d_pending := snd (utf8_run q bs)\<rparr>"
    using Cons.IH [of ?d1] Cons.prems by simp
  then show ?case
    by (simp add: feedbytes_def f st Let_def printtext_append printtext_pending split: prod.split)
qed

lemma utf8_text_bytes: "32 \<le> c \<Longrightarrow> c \<noteq> 127 \<Longrightarrow> \<forall>b \<in> set (utf8_cp c). text_byte b"
  by (auto simp: utf8_cp_def text_byte_def)

lemma feedbytes_utf8:
  assumes "d_state d = Ground" and "d_pending d = []"
    and s: "\<forall>c \<in> set s. cp_ok c \<and> \<not> is_surrogate c \<and> 32 \<le> c \<and> c \<noteq> 127"
  shows "feedbytes u (concat (map utf8_cp s)) d = printtext u s d"
proof -
  have "\<forall>b \<in> set (concat (map utf8_cp s)). text_byte b"
    using s utf8_text_bytes by auto
  moreover have "utf8_run [] (concat (map utf8_cp s)) = (s, [])"
    using s by (intro utf8_run_encoded) auto
  ultimately show ?thesis
    using feedbytes_text [of d "concat (map utf8_cp s)" u] assms(1,2)
    by (metis fst_conv printtext_pending snd_conv display.surjective display.update_convs(6))
qed

text \<open>Printing through the display: with a plain character set the characters reach the buffer
  unchanged.\<close>

definition plain_charset :: "buffer \<Rightarrow> bool" where
  "plain_charset b \<longleftrightarrow> (if b_charset b \<noteq> 0 then b_g1 b else b_g0 b) \<noteq> 48"

lemma charset_map_plain: "plain_charset b \<Longrightarrow> charset_map b ch = ch"
  by (simp add: plain_charset_def charset_map_def Let_def)

lemma dbuffer_on_buffer [simp]: "dbuffer (on_buffer f d) = f (dbuffer d)"
  by (simp add: dbuffer_def on_buffer_def)

lemma dbuffer_printchar: "dbuffer (printchar u ch d) = put u (charset_map (dbuffer d) ch) (dbuffer d)"
proof -
  have "dbuffer (changed (d'\<lparr>d_last_printed := c\<rparr>)) = dbuffer d'" for d' c
    by (simp add: dbuffer_def changed_def)
  then show ?thesis by (simp add: printchar_def Let_def)
qed

lemma printtext_narrow:
  "buf_ok (dbuffer d) \<Longrightarrow> narrow_row (dbuffer d) \<Longrightarrow> \<not> b_wrap_pending (dbuffer d) \<Longrightarrow>
   \<not> b_insert (dbuffer d) \<Longrightarrow> plain_charset (dbuffer d) \<Longrightarrow>
   \<forall>c \<in> set s. consolecharwidth u c = 1 \<Longrightarrow> b_col (dbuffer d) + length s < b_cols (dbuffer d) \<Longrightarrow>
   dbuffer (printtext u s d) = fold (put u) s (dbuffer d)"
proof (induction s arbitrary: d)
  case Nil
  then show ?case by (simp add: printtext_def)
next
  case (Cons ch s)
  let ?b = "dbuffer d" and ?d1 = "printchar u ch d"
  have b1: "dbuffer ?d1 = put u ch ?b"
    using Cons.prems(5) by (simp add: dbuffer_printchar charset_map_plain)
  have n: "put u ch ?b = (set_cell (b_row ?b) (b_col ?b) (text_cell (b_style ?b) ch) ?b)\<lparr>b_col := b_col ?b + 1\<rparr>"
    using Cons.prems by (intro put_narrow) auto
  have rl: "b_row ?b < length (b_lines ?b)" using Cons.prems(1) by (simp add: buf_ok_def)
  have "narrow_row (put u ch ?b)"
    using Cons.prems(2) rl
      set_update_subset_insert [of "cells_at ?b (b_row ?b)" "b_col ?b" "text_cell (b_style ?b) ch"]
    by (auto simp: n narrow_row_def text_cell_def set_cell_def)
  moreover have "plain_charset (put u ch ?b)"
    using Cons.prems(5) by (simp add: n plain_charset_def set_cell_def set_cells_def split: if_splits)
  ultimately have "dbuffer (printtext u s ?d1) = fold (put u) s (dbuffer ?d1)"
    using Cons.prems put_ok [OF Cons.prems(1)]
    by (intro Cons.IH) (auto simp: b1, simp_all add: n set_cell_def)
  then show ?case by (simp add: printtext_def b1)
qed

section \<open>Cursor addressing and its report\<close>

lemma parse_param_dec: "parse_param (dec_nat n) = Some n"
proof -
  have d: "\<forall>c \<in> set (dec_nat n). is_digit c" by (rule dec_nat_digits)
  then have "\<forall>c \<in> set (dec_nat n). \<not> c_isspace c" by (auto simp: is_digit_def c_isspace_def)
  then have "rstrip c_isspace (lstrip c_isspace (dec_nat n)) = dec_nat n"
    by (simp add: rstrip_def lstrip_def dropWhile_none)
  with d show ?thesis by (simp add: parse_param_def Let_def list_all_iff)
qed

lemma csi_params_pair:
  "csi_params (dec_nat r @ [59] @ dec_nat c) = ([], [], [Some r, Some c])"
proof -
  have d: "\<forall>x \<in> set (dec_nat n). 48 \<le> x \<and> x \<le> 57" for n
    using dec_nat_digits [of n] by (simp add: is_digit_def)
  define t where "t = dec_nat r @ [59] @ dec_nat c"
  have rng: "\<forall>x \<in> set t. 48 \<le> x \<and> x \<le> 59" unfolding t_def using d [of r] d [of c] by fastforce
  have no58: "58 \<notin> set t" unfolding t_def using d [of r] d [of c] by fastforce
  have "filter (\<lambda>x. x < 128) t = t" using rng by (auto simp: filter_id_conv)
  moreover have "t \<noteq> []" by (simp add: t_def)
  then have "48 \<le> hd t \<and> hd t \<le> 59" using rng hd_in_set by blast
  with \<open>t \<noteq> []\<close> have "t \<noteq> [] \<and> hd t \<notin> {63, 62, 60, 33}" by auto
  then have "takeWhile (\<lambda>x. x \<in> {63, 62, 60, 33}) t = []" "dropWhile (\<lambda>x. x \<in> {63, 62, 60, 33}) t = t"
    by (cases t; simp)+
  moreover have "filter (\<lambda>x. 32 \<le> x \<and> x \<le> 47) t = []" using rng by (auto simp: filter_empty_conv)
  moreover have "filter (\<lambda>x. \<not> (32 \<le> x \<and> x \<le> 47)) t = t" using rng by (auto simp: filter_id_conv)
  moreover have "map (\<lambda>x. if x = 58 then 59 else x) t = t" using no58 by (intro map_idI) auto
  moreover have "split_on 59 t = [dec_nat r, dec_nat c]"
  proof -
    have "59 \<notin> set (dec_nat r)" "59 \<notin> set (dec_nat c)" using d [of r] d [of c] by auto
    then show ?thesis unfolding t_def by (simp add: split_on_append_sep split_on_no_sep)
  qed
  ultimately show ?thesis
    unfolding csi_params_def t_def [symmetric] Let_def by (simp add: parse_param_dec)
qed

lemma feedbytes_csi_body:
  "d_state d = Csi \<Longrightarrow> \<forall>b \<in> set bs. b < 64 \<Longrightarrow> length (d_sequence d) + length bs \<le> CONSOLE_SEQUENCE_LIMIT \<Longrightarrow>
   feedbytes u bs d = d\<lparr>d_sequence := d_sequence d @ bs\<rparr>"
proof (induction bs arbitrary: d)
  case Nil
  then show ?case by (simp add: feedbytes_def)
next
  case (Cons b bs)
  have f: "feedbyte u b d = d\<lparr>d_sequence := d_sequence d @ [b]\<rparr>"
    using Cons.prems by (simp add: feedbyte_def)
  show ?case
    using Cons.IH [of "d\<lparr>d_sequence := d_sequence d @ [b]\<rparr>"] Cons.prems
    by (simp add: feedbytes_def f)
qed

text \<open>A whole CSI sequence fed from the ground state.\<close>

lemma feedbytes_csi:
  assumes "d_state d = Ground" "d_pending d = []" and body: "\<forall>b \<in> set bs. b < 64"
    and len: "length bs \<le> CONSOLE_SEQUENCE_LIMIT" and final: "64 \<le> f" "f \<le> 126"
  shows "feedbytes u ([27, 91] @ bs @ [f]) d = csi u bs f (d\<lparr>d_sequence := [], d_state := Ground\<rparr>)"
proof -
  have "flushdecoder u d = d"
    using assms(2) by (simp add: flushdecoder_def utf8_final_def printtext_def)
  then have start: "feedbytes u [27, 91] d = d\<lparr>d_sequence := [], d_state := Csi\<rparr>"
    using assms(1) by (simp add: feedbytes_def feedbyte_def escape_def Let_def)
  have mid: "feedbytes u bs (d\<lparr>d_sequence := [], d_state := Csi\<rparr>) = d\<lparr>d_sequence := bs, d_state := Csi\<rparr>"
    using feedbytes_csi_body [of "d\<lparr>d_sequence := [], d_state := Csi\<rparr>" bs u] body len by simp
  show ?thesis
    unfolding feedbytes_append start mid
    using final by (simp add: feedbytes_def feedbyte_def)
qed

lemma address_cursor:
  fixes u :: unidata
  assumes "d_state d = Ground" "d_pending d = []" and org: "\<not> b_origin (dbuffer d)"
    and r: "1 \<le> r" "r \<le> b_rows (dbuffer d)" and c: "1 \<le> c" "c \<le> b_cols (dbuffer d)"
    and len: "length (dec_nat r) + length (dec_nat c) < CONSOLE_SEQUENCE_LIMIT"
  defines "d' \<equiv> feedbytes u ([27, 91] @ (dec_nat r @ [59] @ dec_nat c) @ [72]) d"
  shows "d' = changed (on_buffer (\<lambda>b. b\<lparr>b_row := r - 1, b_col := c - 1, b_wrap_pending := False\<rparr>)
           (d\<lparr>d_sequence := [], d_state := Ground\<rparr>))"
proof -
  let ?bs = "dec_nat r @ [59] @ dec_nat c" and ?d0 = "d\<lparr>d_sequence := [], d_state := Ground\<rparr>"
  have "\<forall>b \<in> set ?bs. b < 64"
    using dec_nat_digits [of r] dec_nat_digits [of c] by (fastforce simp: is_digit_def)
  then have d': "d' = csi u ?bs 72 ?d0"
    unfolding d'_def using assms(1,2) len by (intro feedbytes_csi) auto
  have db: "dbuffer ?d0 = dbuffer d" by (simp add: dbuffer_def)
  have "csi_buffer u (d_last_printed ?d0) [Some r, Some c] 72 (dbuffer ?d0)
      = Some (setpos (Some (int r - 1)) (Some (int c - 1)) (dbuffer d))"
    using r c by (simp add: csi_buffer_def Let_def param_def db)
  also have "setpos (Some (int r - 1)) (Some (int c - 1)) (dbuffer d)
      = (dbuffer d)\<lparr>b_row := r - 1, b_col := c - 1, b_wrap_pending := False\<rparr>"
    using r c org by (simp add: setpos_def Let_def min_def max_def nat_diff_distrib)
  finally show ?thesis
    unfolding d' by (simp add: csi_def csi_params_pair del: append.simps)
       (simp add: on_buffer_def dbuffer_def)
qed

section \<open>Scrolling into the history\<close>

lemma scroll_keeps_lines:
  assumes "buf_ok b" and h: "b_history b = Some h" "length h < CONSOLE_HISTORY_MAX"
    and full: "b_top b = 0" "b_bottom b = b_rows b - 1" and bot: "b_row b = b_bottom b"
  shows "\<exists>h'. b_history (index_down b) = Some h'
    \<and> h' @ b_lines (index_down b) = h @ b_lines b @ [blankline b] \<and> b_row (index_down b) = b_row b"
proof -
  from assms(1) have l: "length (b_lines b) = b_rows b" "1 \<le> b_rows b" by (simp_all add: buf_ok_def)
  then obtain x xs where xs: "b_lines b = x # xs" by (cases "b_lines b") auto
  have one: "max 1 (min 1 (b_bottom b - b_top b + 1)) = 1" using full by simp
  have "index_down b = (scrollup_once 0 (b_rows b - 1) b)\<lparr>b_wrap_pending := False\<rparr>"
    using bot full l by (simp add: index_down_def scrollup_def one)
  moreover have "list_insert (b_rows b - 1) (blankline b) (list_pop 0 (b_lines b)) = xs @ [blankline b]"
    using l xs by (simp add: list_insert_def list_pop_def)
  moreover have "hist_append x h = h @ [x]"
    using h by (simp add: hist_append_def hist_trim_def)
  ultimately show ?thesis using h xs by (simp add: scrollup_once_def)
qed

section \<open>The visible window\<close>

lemma all_lines_length:
  "disp_ok d \<Longrightarrow> b_rows (dbuffer d) \<le> length (all_lines d)"
  by (auto simp: disp_ok_def all_lines_def dbuffer_def buf_ok_def)

lemma visible_window:
  assumes "disp_ok d" and "visible d = (start, ls, d')"
  shows "length ls = b_rows (dbuffer d)" and "0 \<le> start"
    and "ls = take (b_rows (dbuffer d)) (drop (nat start) (all_lines d))"
    and "nat start + b_rows (dbuffer d) + d_view_offset d' = length (all_lines d)"
proof -
  define n where "n = length (all_lines d)"
  define r where "r = b_rows (dbuffer d)"
  define v where "v = min (n - r) (d_view_offset d)"
  have rn: "r \<le> n" using all_lines_length [OF assms(1)] by (simp add: n_def r_def)
  have fit: "r \<le> n - (n - r - v)" using rn by (simp add: v_def)
  then have len: "length (take r (drop (n - r - v) (all_lines d))) = r"
    by (simp add: n_def [symmetric])
  have "visible d = (int (n - r - v), take r (drop (n - r - v) (all_lines d)),
      d\<lparr>d_view_offset := v\<rparr>)"
    using len by (simp add: visible_def Let_def n_def [symmetric] r_def [symmetric] v_def [symmetric]
      del: length_take length_drop)
  with assms(2) have vis: "start = int (n - r - v)" "ls = take r (drop (n - r - v) (all_lines d))"
    "d_view_offset d' = v"
    by (metis prod.inject, metis prod.inject, auto)
  show "length ls = b_rows (dbuffer d)" "0 \<le> start"
    "ls = take (b_rows (dbuffer d)) (drop (nat start) (all_lines d))"
    using vis len by (simp_all add: r_def)
  show "nat start + b_rows (dbuffer d) + d_view_offset d' = length (all_lines d)"
    using vis rn by (simp add: r_def [symmetric] n_def [symmetric] v_def)
qed

section \<open>Colours\<close>

lemma rgb_bound: "r \<le> 255 \<Longrightarrow> g \<le> 255 \<Longrightarrow> b \<le> 255 \<Longrightarrow> rgb r g b < 2 ^ 24"
  by (simp add: rgb_def)

lemma palette_bound: "i < 16 \<Longrightarrow> CONSOLE_PALETTE ! i < 2 ^ 24"
proof -
  have "\<forall>c \<in> set CONSOLE_PALETTE. c < 2 ^ 24" by (simp add: CONSOLE_PALETTE_def)
  moreover have "length CONSOLE_PALETTE = 16" by (simp add: CONSOLE_PALETTE_def)
  ultimately show "i < 16 \<Longrightarrow> CONSOLE_PALETTE ! i < 2 ^ 24" by simp
qed

lemma level_bound: "i < 6 \<Longrightarrow> colour_levels ! i \<le> 255"
proof -
  have "\<forall>c \<in> set colour_levels. c \<le> 255" by (simp add: colour_levels_def)
  moreover have "length colour_levels = 6" by (simp add: colour_levels_def)
  ultimately show "i < 6 \<Longrightarrow> colour_levels ! i \<le> 255" by simp
qed

lemma indexed_colour_bound: "consoleindexedcolour i < 2 ^ 24"
proof -
  let ?i = "min 255 i"
  consider "?i < 16" | "16 \<le> ?i" "?i < 232" | "232 \<le> ?i" by linarith
  then show ?thesis
  proof cases
    case 1
    then have "min 255 i = i" "i < 16" by linarith+
    then show ?thesis using palette_bound [of i]
      unfolding consoleindexedcolour_def Let_def by simp
  next
    case 2
    have "(?i - 16) div 36 < 6" using 2 by linarith
    moreover have "(?i - 16) mod 36 div 6 < 6" by (simp add: less_mult_imp_div_less)
    ultimately have "rgb (colour_levels ! ((?i - 16) div 36)) (colour_levels ! ((?i - 16) mod 36 div 6))
        (colour_levels ! ((?i - 16) mod 6)) < 2 ^ 24"
      by (intro rgb_bound level_bound) auto
    moreover from 2 have "\<not> ?i < 16" by simp
    ultimately show ?thesis unfolding consoleindexedcolour_def Let_def using 2 by presburger
  next
    case 3
    have "8 + (?i - 232) * 10 \<le> 255" by linarith
    then have "rgb (8 + (?i - 232) * 10) (8 + (?i - 232) * 10) (8 + (?i - 232) * 10) < 2 ^ 24"
      by (intro rgb_bound) auto
    moreover from 3 have "\<not> ?i < 16" "\<not> ?i < 232" by simp_all
    ultimately show ?thesis unfolding consoleindexedcolour_def Let_def by presburger
  qed
qed

end
