(* ===== verification/Console_Reflow.thy ===== *)
theory Console_Reflow
  imports Console_Resize
begin

text \<open>
  What a change of width does to the text: laying the logical lines out at another width keeps
  every one of them, in order, up to blanks at its end.  Stated for cells of one column; a
  double-width cell that does not fit at the end of a row leaves a blank there, which becomes
  part of the text (\<open>reflow_wide_blank\<close>).
\<close>

section \<open>Logical lines\<close>

fun logical_from :: "cell list \<Rightarrow> line list \<Rightarrow> cell list list" where
  "logical_from acc [] = (if acc = [] then [] else [acc])"
| "logical_from acc (l # ls) =
     (if l_wrapped l then logical_from (acc @ logical_cells l) ls
      else (acc @ logical_cells l) # logical_from [] ls)"

definition screen_text :: "line list \<Rightarrow> cell list list" where
  "screen_text ls = map (rstrip default_blank) (logical_from [] ls)"

definition dblank :: cell where
  "dblank = blankcell consolestyledefault"

lemma dblank_facts [simp]: "default_blank dblank" "c_width dblank = 1"
  by (simp_all add: dblank_def default_blank_def blankcell_def)

lemma new_line_cells: "1 \<le> cols \<Longrightarrow> l_cells (new_line cols) = replicate cols dblank"
  by (simp add: new_line_def mkline_def dblank_def max_def)

lemma new_line_unwrapped [simp]: "\<not> l_wrapped (new_line cols)"
  by (simp add: new_line_def mkline_def)

lemma rstrip_snoc: "rstrip p (xs @ [x]) = (if p x then rstrip p xs else xs @ [x])"
  by (simp add: rstrip_def)

lemma rstrip_append_all: "\<forall>y \<in> set ys. p y \<Longrightarrow> rstrip p (xs @ ys) = rstrip p xs"
  by (induction ys rule: rev_induct) (simp_all add: rstrip_snoc flip: append_assoc)

lemma rstrip_append_rstrip: "rstrip p (xs @ rstrip p ys) = rstrip p (xs @ ys)"
proof (induction ys rule: rev_induct)
  case Nil
  then show ?case by (simp add: rstrip_def)
next
  case (snoc y ys)
  then show ?case using rstrip_snoc [of p "xs @ ys" y] by (simp add: rstrip_snoc)
qed

lemma group_lines_logical:
  "(let g' = group_lines src col idx g ls in
    g_logical g' @ (if g_group g' = [] then [] else [g_group g']))
   = g_logical g @ logical_from (g_group g) ls"
  by (induction ls arbitrary: idx g) (simp_all add: Let_def)

lemma group_all_logical:
  "g_logical (group_all b h) =
     (let L = logical_from [] (h @ b_lines b) in if L = [] then [[]] else L)"
  using group_lines_logical [of "length h + b_row b" "min (b_col b) (b_cols b - 1)" 0
      "\<lparr>g_logical = [], g_group = [], g_width = 0, g_cursor = None, g_offset = 0\<rparr>" "h @ b_lines b"]
  by (auto simp: group_all_def Let_def split: if_splits)

section \<open>One logical line laid out\<close>

text \<open>\<open>laid cols pre cells k column ls\<close>: after the lines \<open>pre\<close> come wrapped full lines and a
  last one filled up to \<open>column\<close>, which hold \<open>cells\<close> and then \<open>k\<close> blanks.\<close>

definition laid :: "nat \<Rightarrow> line list \<Rightarrow> cell list \<Rightarrow> nat \<Rightarrow> nat \<Rightarrow> line list \<Rightarrow> bool" where
  "laid cols pre cells k column ls \<longleftrightarrow> (\<exists>W cur. ls = pre @ W @ [cur] \<and> (\<forall>l \<in> set W. l_wrapped l)
     \<and> \<not> l_wrapped cur \<and> length (l_cells cur) = cols \<and> column \<le> cols
     \<and> drop column (l_cells cur) = replicate (cols - column) dblank
     \<and> concat (map l_cells W) @ take column (l_cells cur) = cells @ replicate k dblank)"

lemma laid_start: "1 \<le> cols \<Longrightarrow> laid cols pre [] 0 0 (pre @ [new_line cols])"
  unfolding laid_def by (rule exI [of _ "[]"]) (simp add: new_line_cells)

lemma laid_wrap:
  assumes "laid cols pre cells k cols ls" "1 \<le> cols"
  shows "laid cols pre cells k 0 (wrap_last ls @ [new_line cols])"
proof -
  from assms(1) obtain W cur where w: "ls = pre @ W @ [cur]" "\<forall>l \<in> set W. l_wrapped l"
    "length (l_cells cur) = cols"
    "concat (map l_cells W) @ take cols (l_cells cur) = cells @ replicate k dblank"
    unfolding laid_def by blast
  then show ?thesis
    unfolding laid_def using assms(2)
    by (intro exI [of _ "W @ [cur\<lparr>l_wrapped := True\<rparr>]"] exI [of _ "new_line cols"])
       (simp add: wrap_last_def butlast_append new_line_cells)
qed

lemma laid_put:
  assumes "laid cols pre cells 0 column ls" "column < cols"
  shows "laid cols pre (cells @ [c]) 0 (Suc column) (set_last_cell column c ls)"
proof -
  from assms(1) obtain W cur where w: "ls = pre @ W @ [cur]" "\<forall>l \<in> set W. l_wrapped l" "\<not> l_wrapped cur"
    "length (l_cells cur) = cols" "drop column (l_cells cur) = replicate (cols - column) dblank"
    "concat (map l_cells W) @ take column (l_cells cur) = cells"
    unfolding laid_def by auto
  have "drop (Suc column) (l_cells cur) = tl (drop column (l_cells cur))"
    by (simp add: drop_Suc tl_drop)
  then have "drop (Suc column) (l_cells cur) = replicate (cols - Suc column) dblank"
    using w(5) assms(2) by simp
  then show ?thesis
    unfolding laid_def using w assms(2)
    by (intro exI [of _ W] exI [of _ "cur\<lparr>l_cells := (l_cells cur)[column := c]\<rparr>"])
       (simp add: set_last_cell_def butlast_append take_Suc_conv_app_nth)
qed

lemma laid_skip:
  assumes "laid cols pre cells k column ls" "column + n \<le> cols"
  shows "laid cols pre cells (k + n) (column + n) ls"
proof -
  from assms(1) obtain W cur where w: "ls = pre @ W @ [cur]" "\<forall>l \<in> set W. l_wrapped l" "\<not> l_wrapped cur"
    "length (l_cells cur) = cols" "drop column (l_cells cur) = replicate (cols - column) dblank"
    "concat (map l_cells W) @ take column (l_cells cur) = cells @ replicate k dblank"
    unfolding laid_def by blast
  have "take (column + n) (l_cells cur) = take column (l_cells cur) @ replicate n dblank"
    using w(5) assms(2) by (simp add: take_add)
  moreover have "drop (column + n) (l_cells cur) = replicate (cols - (column + n)) dblank"
    using w(5) by (metis add.commute diff_diff_left drop_drop drop_replicate)
  ultimately show ?thesis
    unfolding laid_def using w assms(2) by (intro exI [of _ W] exI [of _ cur])
      (simp add: replicate_add flip: append_assoc)
qed

lemma laid_rebuild_cell:
  assumes "laid cols pre cells 0 (r_column r) (r_lines r)" "1 \<le> cols" "c_width c = 1"
  shows "laid cols pre (cells @ [c]) 0 (r_column (rebuild_cell cols ic off c r)) (r_lines (rebuild_cell cols ic off c r))"
proof -
  have c: "\<lparr>c_text = c_text c, c_width = Suc 0, c_style = c_style c\<rparr> = c" using assms(3) by simp
  have le: "r_column r \<le> cols" using assms(1) by (auto simp: laid_def)
  define r1 where "r1 = (if r_column r + 1 > cols
    then r\<lparr>r_lines := wrap_last (r_lines r) @ [new_line cols], r_column := 0\<rparr> else r)"
  have "laid cols pre cells 0 (r_column r1) (r_lines r1) \<and> r_column r1 < cols"
    using assms(1,2) le laid_wrap [of cols pre cells 0 "r_lines r"]
    by (auto simp: r1_def le_antisym less_Suc_eq_le)
  then have "laid cols pre (cells @ [c]) 0 (Suc (r_column r1)) (set_last_cell (r_column r1) c (r_lines r1))"
    by (intro laid_put) auto
  then show ?thesis
    using assms(3) by (simp add: rebuild_cell_def Let_def r1_def c split: if_splits)
qed

lemma laid_fold:
  "laid cols pre done 0 (r_column r) (r_lines r) \<Longrightarrow> 1 \<le> cols \<Longrightarrow> \<forall>c \<in> set cells. c_width c = 1 \<Longrightarrow>
   laid cols pre (done @ cells) 0 (r_column (fold (rebuild_cell cols ic off) cells r))
     (r_lines (fold (rebuild_cell cols ic off) cells r))"
proof (induction cells arbitrary: "done" r)
  case Nil
  then show ?case by simp
next
  case (Cons c cells)
  from Cons.IH [OF laid_rebuild_cell [OF Cons.prems(1,2)], of c] Cons.prems show ?case by simp
qed

lemma laid_advance:
  "laid cols pre cells k column ls \<Longrightarrow> 1 \<le> cols \<Longrightarrow> advance_cursor cols rel column ls = (column', ls') \<Longrightarrow>
   \<exists>k' c. laid cols pre cells k' c ls'"
proof (induction cols rel column ls arbitrary: k column' ls' rule: advance_cursor.induct)
  case (1 cols relative column ls)
  have le: "column \<le> cols" using "1.prems"(1) by (auto simp: laid_def)
  show ?case
  proof (cases "relative = 0 \<or> cols = 0")
    case True
    with "1.prems" show ?thesis by (auto simp: advance_cursor.simps [of cols relative])
  next
    case False
    note f = False
    show ?thesis
    proof (cases "cols - column = 0")
      case True
      have "laid cols pre cells k 0 (wrap_last ls @ [new_line cols])"
        using "1.prems" True le by (intro laid_wrap) (auto simp: le_antisym)
      then have "laid cols pre cells (k + min relative cols) (min relative cols) (wrap_last ls @ [new_line cols])"
        using laid_skip [of cols pre cells k 0 _ "min relative cols"] by simp
      from "1.IH"(1) [OF f True this] "1.prems"(2,3) f True show ?thesis
        by (simp add: advance_cursor.simps [of cols relative])
    next
      case False
      let ?n = "min relative (cols - column)"
      have "laid cols pre cells (k + ?n) (column + ?n) ls"
        using "1.prems"(1) le by (intro laid_skip) auto
      from "1.IH"(2) [OF f False this] "1.prems"(2,3) f False show ?thesis
        by (simp add: advance_cursor.simps [of cols relative])
    qed
  qed
qed

lemma logical_from_wrapped:
  "\<forall>l \<in> set W. l_wrapped l \<and> (\<forall>c \<in> set (l_cells l). c_width c = 1) \<Longrightarrow>
   logical_from acc (W @ ls) = logical_from (acc @ concat (map l_cells W)) ls"
  by (induction W arbitrary: acc) (simp_all add: logical_cells_def Let_def filter_id_conv)

text \<open>A laid-out logical line reads back as its cells, up to blanks at the end.\<close>

lemma laid_reads:
  assumes "laid cols pre cells k column ls" "\<forall>c \<in> set cells. c_width c = 1"
  shows "\<exists>B. ls = pre @ B \<and> (\<forall>rest. \<exists>X. logical_from [] (B @ rest) = X # logical_from [] rest
    \<and> rstrip default_blank X = rstrip default_blank cells)"
proof -
  from assms(1) obtain W cur where w: "ls = pre @ W @ [cur]" "\<forall>l \<in> set W. l_wrapped l" "\<not> l_wrapped cur"
    "drop column (l_cells cur) = replicate (cols - column) dblank"
    "concat (map l_cells W) @ take column (l_cells cur) = cells @ replicate k dblank"
    unfolding laid_def by blast
  have cat: "concat (map l_cells W) @ l_cells cur = cells @ replicate (k + (cols - column)) dblank"
    using w(4,5) by (metis append.assoc append_take_drop_id replicate_add)
  have "\<forall>c \<in> set (cells @ replicate (k + (cols - column)) dblank). c_width c = 1"
    using assms(2) by auto
  then have n: "\<forall>c \<in> set (concat (map l_cells W) @ l_cells cur). c_width c = 1"
    unfolding cat [symmetric] .
  let ?X = "concat (map l_cells W) @ rstrip default_blank (l_cells cur)"
  have "logical_cells cur = rstrip default_blank (l_cells cur)"
    using n w(3) by (simp add: logical_cells_def Let_def filter_True)
  then have "logical_from [] ((W @ [cur]) @ rest) = ?X # logical_from [] rest" for rest
    using logical_from_wrapped [of W "[]" "cur # rest"] w(2,3) n by auto
  moreover have "rstrip default_blank ?X = rstrip default_blank cells"
    unfolding rstrip_append_rstrip cat by (rule rstrip_append_all) simp
  ultimately show ?thesis using w(1) by (intro exI [of _ "W @ [cur]"]) blast
qed

lemma rebuild_group_reads:
  assumes "1 \<le> cols" "\<forall>c \<in> set cells. c_width c = 1"
  shows "\<exists>B. r_lines (rebuild_group cols cursor off gi cells r) = r_lines r @ B \<and>
    (\<forall>rest. \<exists>X. logical_from [] (B @ rest) = X # logical_from [] rest
      \<and> rstrip default_blank X = rstrip default_blank cells)"
proof -
  let ?r0 = "r\<lparr>r_lines := r_lines r @ [new_line cols], r_column := 0, r_group_column := 0\<rparr>"
  define r1 where "r1 = fold (rebuild_cell cols (cursor = Some gi) off) cells ?r0"
  have l1: "laid cols (r_lines r) cells 0 (r_column r1) (r_lines r1)"
    using laid_fold [of cols "r_lines r" "[]" ?r0 cells "cursor = Some gi" off] laid_start [of cols "r_lines r"] assms
    by (simp add: r1_def)
  obtain col2 ls2 where a: "advance_cursor cols (off - r_group_column r1) (r_column r1) (r_lines r1) = (col2, ls2)"
    by fastforce
  obtain k c where l2: "laid cols (r_lines r) cells k c ls2" using laid_advance [OF l1 assms(1) a] by blast
  define ls where "ls = (if cursor = Some gi \<and> r_abs r1 = None then ls2 else r_lines r1)"
  have "\<exists>k c. laid cols (r_lines r) cells k c ls" using l1 l2 by (auto simp: ls_def)
  then have l: "\<exists>B. ls = r_lines r @ B \<and> (\<forall>rest. \<exists>X. logical_from [] (B @ rest) = X # logical_from [] rest
      \<and> rstrip default_blank X = rstrip default_blank cells)" and "length ls \<noteq> length (r_lines r)"
    using laid_reads [OF _ assms(2)] by (blast, auto simp: laid_def)
  moreover have "r_lines (rebuild_group cols cursor off gi cells r) = ls" if "length ls \<noteq> length (r_lines r)"
    using a that unfolding rebuild_group_def Let_def r1_def [symmetric] by (auto simp: ls_def split: if_splits)
  ultimately show ?thesis by metis
qed

lemma rebuild_groups_reads:
  "1 \<le> cols \<Longrightarrow> \<forall>cells \<in> set groups. \<forall>c \<in> set cells. c_width c = 1 \<Longrightarrow>
   \<exists>B. r_lines (rebuild_groups cols cursor off gi groups r) = r_lines r @ B \<and>
     (\<forall>rest. \<exists>Xs. logical_from [] (B @ rest) = Xs @ logical_from [] rest
       \<and> map (rstrip default_blank) Xs = map (rstrip default_blank) groups)"
proof (induction groups arbitrary: gi r)
  case Nil
  then show ?case by auto
next
  case (Cons cells groups)
  let ?r1 = "rebuild_group cols cursor off gi cells r"
  from rebuild_group_reads [of cols cells cursor off gi r] Cons.prems obtain B where
    b: "r_lines ?r1 = r_lines r @ B" "\<And>rest. \<exists>X. logical_from [] (B @ rest) = X # logical_from [] rest
      \<and> rstrip default_blank X = rstrip default_blank cells" by auto
  from Cons.IH [of "Suc gi" ?r1] Cons.prems obtain C where
    c: "r_lines (rebuild_groups cols cursor off (Suc gi) groups ?r1) = r_lines ?r1 @ C"
    "\<And>rest. \<exists>Xs. logical_from [] (C @ rest) = Xs @ logical_from [] rest
       \<and> map (rstrip default_blank) Xs = map (rstrip default_blank) groups" by auto
  have "\<exists>Xs. logical_from [] ((B @ C) @ rest) = Xs @ logical_from [] rest
       \<and> map (rstrip default_blank) Xs = map (rstrip default_blank) (cells # groups)" for rest
    using b(2) [of "C @ rest"] c(2) [of rest] by (metis append.assoc append_Cons list.simps(9))
  then show ?case using b(1) c(1) by (intro exI [of _ "B @ C"]) simp
qed

lemma screen_text_blank_lines:
  "1 \<le> cols \<Longrightarrow> logical_from [] (replicate n (new_line cols)) = replicate n []"
proof (induction n)
  case (Suc n)
  have "rstrip default_blank ([] @ replicate cols dblank) = rstrip default_blank []"
    by (rule rstrip_append_all) simp
  then have "logical_cells (new_line cols) = []"
    using Suc.prems by (simp add: logical_cells_def new_line_cells Let_def rstrip_def)
  with Suc show ?case by simp
qed simp

lemma rstrip_Nil [simp]: "rstrip p [] = []"
  by (simp add: rstrip_def)

definition narrow_lines :: "line list \<Rightarrow> bool" where
  "narrow_lines ls \<longleftrightarrow> list_all (\<lambda>l. list_all (\<lambda>c. c_width c = 1) (l_cells l)) ls"

lemma logical_cells_subset: "set (logical_cells l) \<subseteq> set (l_cells l)"
proof -
  have "set (rstrip p xs) \<subseteq> set xs" for p and xs :: "cell list"
    by (auto simp: rstrip_def dest: set_dropWhileD)
  from this [of default_blank "filter (\<lambda>c. c_width c \<noteq> 0) (l_cells l)"] show ?thesis
    by (auto simp: logical_cells_def Let_def)
qed

lemma logical_from_narrow:
  "narrow_lines ls \<Longrightarrow> \<forall>c \<in> set acc. c_width c = 1 \<Longrightarrow>
   \<forall>cells \<in> set (logical_from acc ls). \<forall>c \<in> set cells. c_width c = 1"
proof (induction ls arbitrary: acc)
  case (Cons l ls)
  have "\<forall>c \<in> set (l_cells l). c_width c = 1" and ls: "narrow_lines ls"
    using Cons.prems(1) by (simp_all add: narrow_lines_def list_all_iff)
  then have acc: "\<forall>c \<in> set (acc @ logical_cells l). c_width c = 1"
    using Cons.prems(2) logical_cells_subset [of l] unfolding set_append by blast
  show ?case
  proof (cases "l_wrapped l")
    case True
    then show ?thesis using Cons.IH [OF ls acc] by simp
  next
    case False
    have "\<forall>cells \<in> set (logical_from [] ls). \<forall>c \<in> set cells. c_width c = 1"
      by (rule Cons.IH [OF ls]) simp
    with False acc show ?thesis by simp
  qed
qed simp

section \<open>The whole resize\<close>

lemma reflow_text:
  assumes cols: "1 \<le> cols" and n: "narrow_lines (h @ b_lines b)"
    and h': "b_history (reflow rows cols h b) = Some h'" "length h' < CONSOLE_HISTORY_MAX"
  shows "\<exists>k. screen_text (h' @ b_lines (reflow rows cols h b)) = screen_text (h @ b_lines b) @ replicate k []"
proof -
  define g where "g = group_all b h"
  define r where "r = rebuild_groups cols (g_cursor g) (g_offset g) 0 (g_logical g)
    \<lparr>r_lines = [], r_column = 0, r_group_column = 0, r_abs = None, r_abs_column = 0\<rparr>"
  define m where "m = rows - length (r_lines r)"
  define rebuilt where "rebuilt = r_lines r @ replicate m (new_line cols)"
  have gl: "g_logical g = (let L = logical_from [] (h @ b_lines b) in if L = [] then [[]] else L)"
    unfolding g_def by (rule group_all_logical)
  have "\<forall>cells \<in> set (g_logical g). \<forall>c \<in> set cells. c_width c = 1"
    using logical_from_narrow [OF n, of "[]"] by (auto simp: gl Let_def)
  from rebuild_groups_reads [OF cols this] obtain Xs where
    "logical_from [] (r_lines r @ replicate m (new_line cols)) = Xs @ logical_from [] (replicate m (new_line cols))"
    "map (rstrip default_blank) Xs = map (rstrip default_blank) (g_logical g)"
    unfolding r_def by (metis append_Nil rebuild.select_convs(1))
  then have "screen_text rebuilt = map (rstrip default_blank) (g_logical g) @ replicate m []"
    using cols by (simp add: rebuilt_def screen_text_def screen_text_blank_lines)
  moreover have "\<exists>j. map (rstrip default_blank) (g_logical g) = screen_text (h @ b_lines b) @ replicate j []"
    by (auto simp: gl screen_text_def Let_def intro: exI [of _ 1] exI [of _ 0])
  ultimately have t: "\<exists>k. screen_text rebuilt = screen_text (h @ b_lines b) @ replicate k []"
    by (metis append.assoc replicate_add)
  have hist: "b_history (reflow rows cols h b) = Some (hist_trim (take (length rebuilt - rows) rebuilt))"
    and ls: "b_lines (reflow rows cols h b) = drop (length rebuilt - rows) rebuilt"
    by (simp_all add: reflow_def Let_def g_def [symmetric] r_def [symmetric] m_def [symmetric]
        rebuilt_def [symmetric] split: option.split)
  have "h' = take (length rebuilt - rows) rebuilt"
    using hist h' by (auto simp: hist_trim_def)
  then show ?thesis using ls t by simp
qed

lemma reflow_lines: "length (b_lines (reflow rows cols h b)) = rows"
  by (simp add: reflow_def Let_def split: option.split)

lemma resize_text:
  assumes "b_history b = Some h" "nat (max 2 cols) \<noteq> b_cols b" "narrow_lines (h @ b_lines b)"
    and "b_history (resize rows cols b) = Some h'" "length h' < CONSOLE_HISTORY_MAX"
  shows "\<exists>k. screen_text (h' @ b_lines (resize rows cols b)) = screen_text (h @ b_lines b) @ replicate k []"
proof -
  define r where "r = reflow (nat (max 1 rows)) (nat (max 2 cols)) h b"
  have "length (b_lines r) = nat (max 1 rows)" by (simp add: r_def reflow_lines)
  then have "resize_rows (nat (max 1 rows)) r = r" by (simp add: resize_rows_def)
  then have "b_history (resize rows cols b) = b_history r" "b_lines (resize rows cols b) = b_lines r"
    using assms(1,2) by (simp_all add: resize_def Let_def r_def)
  then show ?thesis using reflow_text [of "nat (max 2 cols)" h b "nat (max 1 rows)" h'] assms(3-5)
    by (simp add: r_def)
qed

end
