(* ===== verification/Console_Props.thy ===== *)
theory Console_Props
  imports Console_Text Console_Reflow
begin

text \<open>
  The properties of the console terminal that the rest of brick relies on, over any history of
  output fed to it, resizes of its window and scrolling by the user.
\<close>

section \<open>Histories of a console\<close>

datatype console_event = Output bytes | Resized int int | Page bool | Wheel int bool | Typed

fun console_step :: "unidata \<Rightarrow> console_event \<Rightarrow> display \<Rightarrow> display" where
  "console_step u (Output data) d = feed u data d"
| "console_step u (Resized rows cols) d = display_resize rows cols d"
| "console_step u (Page up) d = scroll_page up d"
| "console_step u (Wheel dy shift) d = consolescroll dy shift d"
| "console_step u Typed d = typed d"

definition console_run :: "unidata \<Rightarrow> console_event list \<Rightarrow> display \<Rightarrow> display" where
  "console_run u es d = fold (console_step u) es d"

lemma scroll_ok: "disp_ok (scroll_view n d) = disp_ok d" "disp_ok (typed d) = disp_ok d"
  by (simp_all add: scroll_view_def typed_def changed_def disp_ok_def)

lemma console_step_ok: "disp_ok d \<Longrightarrow> disp_ok (console_step u e d)"
  by (cases e) (simp_all add: feed_ok display_resize_ok scroll_page_def consolescroll_def scroll_ok Let_def)

lemma console_run_ok: "disp_ok d \<Longrightarrow> disp_ok (console_run u es d)"
  unfolding console_run_def by (induction es arbitrary: d) (simp_all add: console_step_ok)




lemma disp_okD:
  assumes "disp_ok d"
  shows "length (b_lines (dbuffer d)) = b_rows (dbuffer d)"
    and "list_all (\<lambda>l. length (l_cells l) = b_cols (dbuffer d)) (b_lines (dbuffer d))"
    and "b_row (dbuffer d) < b_rows (dbuffer d)" and "b_col (dbuffer d) < b_cols (dbuffer d)"
    and "b_top (dbuffer d) \<le> b_bottom (dbuffer d)" and "b_bottom (dbuffer d) < b_rows (dbuffer d)"
    and "length (d_pending d) \<le> 3"
  using disp_ok_buffer [OF assms] assms
  by (auto simp: buf_ok_def lines_ok_def line_ok_def list_all_iff disp_ok_def pending_ok_length)

lemma disp_ok_history: "disp_ok d \<Longrightarrow> hist_len (d_primary d) \<le> CONSOLE_HISTORY_MAX"
  by (auto simp: disp_ok_def buf_ok_def hist_ok_def hist_len_def)

section \<open>Safety of the screen\<close>

text \<open>C3. Whatever bytes a program writes, in whatever pieces, and however the window is
  resized in between, the screen on show stays a full grid: as many lines as rows, every line
  as many cells as columns, the cursor and the scroll region inside it, so that no operation
  indexes outside a list; the history of the primary screen never exceeds its limit, the
  sequence buffers never exceed theirs, and at most three bytes wait in the decoder.\<close>

theorem console_screen_safe:
  fixes u es rows cols w
  defines "d \<equiv> console_run u es (display_init rows cols w)"
  shows "length (b_lines (dbuffer d)) = b_rows (dbuffer d)
    \<and> list_all (\<lambda>l. length (l_cells l) = b_cols (dbuffer d)) (b_lines (dbuffer d))
    \<and> b_row (dbuffer d) < b_rows (dbuffer d) \<and> b_col (dbuffer d) < b_cols (dbuffer d)
    \<and> b_top (dbuffer d) \<le> b_bottom (dbuffer d) \<and> b_bottom (dbuffer d) < b_rows (dbuffer d)
    \<and> hist_len (d_primary d) \<le> CONSOLE_HISTORY_MAX
    \<and> length (d_sequence d) \<le> CONSOLE_SEQUENCE_LIMIT \<and> length (d_osc d) \<le> CONSOLE_SEQUENCE_LIMIT
    \<and> length (d_pending d) \<le> 3"
proof -
  have ok: "disp_ok d" unfolding d_def by (intro console_run_ok display_init_ok)
  then have "length (d_sequence d) \<le> CONSOLE_SEQUENCE_LIMIT \<and> length (d_osc d) \<le> CONSOLE_SEQUENCE_LIMIT"
    by (simp add: disp_ok_def)
  then show ?thesis using disp_okD [OF ok] disp_ok_history [OF ok] by blast
qed

text \<open>Tables for the examples: control characters, characters of one column, and characters of two
  columns from 240 on.\<close>

definition ascii_tables :: unidata where
  "ascii_tables = \<lparr>u_combining = (\<lambda>_. 0), u_category = (\<lambda>c. if c < 32 then ''Cc'' else ''Ll''),
     u_east_asian_width = (\<lambda>c. if 240 \<le> c then ''W'' else ''Na'')\<rparr>"

section \<open>The view of the user\<close>






section \<open>The alternate screen\<close>

lemma csi_params_1049: "csi_params [63, 49, 48, 52, 57] = ([63], [], [Some 1049])"
  by (simp add: csi_params_def Let_def parse_param_def rstrip_def lstrip_def c_isspace_def is_digit_def
      dec_val_def)

lemma feed_1049:
  assumes "d_state d = Ground" "d_pending d = []"
  shows "feedbytes u [27, 91, 63, 49, 48, 52, 57, (if en then 104 else 108)] d
       = changed (switch_screen 1049 en (d\<lparr>d_sequence := [], d_state := Ground\<rparr>))"
proof -
  let ?f = "if en then 104 else 108 :: nat"
  have "feedbytes u ([27, 91] @ [63, 49, 48, 52, 57] @ [?f]) d
      = csi u [63, 49, 48, 52, 57] ?f (d\<lparr>d_sequence := [], d_state := Ground\<rparr>)"
    using assms by (intro feedbytes_csi) (auto simp: CONSOLE_SEQUENCE_LIMIT_def)
  then show ?thesis
    by (cases en) (simp_all add: csi_def csi_params_1049 csi_buffer_def Let_def setmodes_def setmode_def opt0_def)
qed

lemma restore_save:
  "buf_ok b \<Longrightarrow> buffer_restore (buffer_save b) = (buffer_save b)\<lparr>b_wrap_pending := False\<rparr>"
  by (cases b) (auto simp: buffer_restore_def buffer_save_def buf_ok_def min_def)

text \<open>C8. A full-screen program: it enters the alternate screen, writes anything that does not
  leave it, and leaves it again.  The primary screen, with its history, its cursor and its
  attributes, is then exactly what it was, with only its position saved and no pending wrap.\<close>

theorem alternate_screen_restored:
  assumes "d_state d = Ground" "d_pending d = []" "\<not> d_use_alternate d" "disp_ok d"
    and "d1 = feedbytes u [27, 91, 63, 49, 48, 52, 57, 104] d"
    and stays: "\<forall>k \<le> length data. d_use_alternate (feedbytes u (take k data) d1)"
    and "d2 = feedbytes u data d1" "d_state d2 = Ground" "d_pending d2 = []"
  shows "dbuffer (feedbytes u [27, 91, 63, 49, 48, 52, 57, 108] d2)
       = (buffer_save (d_primary d))\<lparr>b_wrap_pending := False\<rparr>"
proof -
  have ok: "buf_ok (d_primary d)" using assms(4) by (simp add: disp_ok_def)
  have "d_primary d1 = buffer_save (d_primary d)"
    using feed_1049 [of d u True] assms(1-3,5) by (simp add: switch_screen_def Let_def changed_def)
  moreover have "same_screen (d_primary d1) (d_primary d2)"
    using alternate_isolation [OF stays] assms(7) by simp
  ultimately have p2: "d_primary d2 = buffer_save (d_primary d)" by (simp add: same_screen_def)
  have "dbuffer (feedbytes u [27, 91, 63, 49, 48, 52, 57, 108] d2) = buffer_restore (d_primary d2)"
    using feed_1049 [of d2 u False] assms(8,9)
    by (simp add: switch_screen_def Let_def changed_def dbuffer_def)
  also have "\<dots> = (buffer_save (d_primary d))\<lparr>b_wrap_pending := False\<rparr>"
    using ok by (simp add: p2 restore_save)
  finally show ?thesis .
qed

lemma alternate_screen_restored_witness:
  fixes d :: display
  defines "d \<equiv> feed ascii_tables [72, 105] (display_init 2 4 True)"
  shows "dbuffer (feedbytes ascii_tables [27, 91, 63, 49, 48, 52, 57, 108]
      (feedbytes ascii_tables [33] (feedbytes ascii_tables [27, 91, 63, 49, 48, 52, 57, 104] d)))
    = (buffer_save (d_primary d))\<lparr>b_wrap_pending := False\<rparr>"
proof -
  let ?in = "feedbytes ascii_tables [27, 91, 63, 49, 48, 52, 57, 104]"
  let ?check = "\<lambda>d. d_state d = Ground \<and> d_pending d = [] \<and> \<not> d_use_alternate d
    \<and> (let d1 = ?in d; d2 = feedbytes ascii_tables [33] d1
       in d_use_alternate d1 \<and> d_use_alternate d2 \<and> d_state d2 = Ground \<and> d_pending d2 = [])"
  have c: "?check d" unfolding d_def by code_simp
  have "\<forall>k \<le> length [33::nat]. d_use_alternate (feedbytes ascii_tables (take k [33]) (?in d))"
    using c by (simp add: le_Suc_eq Let_def feedbytes_def)
  moreover have "disp_ok d" unfolding d_def by (intro feed_ok display_init_ok)
  ultimately show ?thesis
    using c by (intro alternate_screen_restored [OF _ _ _ _ refl _ refl]) (simp_all only: Let_def not_False_eq_True)
qed

section \<open>Text on the screen\<close>

text \<open>C9. Printing.  The UTF-8 encoding of a run of one-column characters, fed in the ground
  state, is decoded to exactly those characters, which replace the cells from the cursor on in
  the current style; the other cells and lines are untouched and the cursor stands after them.\<close>

theorem feed_prints_text:
  assumes "disp_ok d" "d_state d = Ground" "d_pending d = []" "d_view_offset d = 0"
    and "\<forall>c \<in> set s. cp_ok c \<and> \<not> is_surrogate c \<and> 32 \<le> c \<and> c \<noteq> 127 \<and> consolecharwidth u c = 1"
    and "b = dbuffer d" "narrow_row b" "\<not> b_wrap_pending b" "\<not> b_insert b" "plain_charset b"
    and "b_col b + length s < b_cols b"
  shows "dbuffer (feed u (concat (map utf8_cp s)) d) =
     (set_cells (b_row b) (take (b_col b) (cells_at b (b_row b)) @ map (text_cell (b_style b)) s
        @ drop (b_col b + length s) (cells_at b (b_row b))) b)\<lparr>b_col := b_col b + length s\<rparr>"
proof -
  have "feed u (concat (map utf8_cp s)) d = printtext u s d"
    using assms by (simp add: feed_view0 feedbytes_utf8)
  moreover have "dbuffer (printtext u s d) = fold (put u) s b"
    unfolding assms(6) using assms disp_ok_buffer [OF assms(1)] by (intro printtext_narrow) auto
  ultimately show ?thesis
    using assms disp_ok_buffer [OF assms(1)] by (simp add: put_narrow_text)
qed

lemma feed_prints_text_witness:
  fixes b :: buffer
  defines "b \<equiv> dbuffer (display_init 1 4 True)"
  shows "dbuffer (feed ascii_tables (concat (map utf8_cp [104, 233])) (display_init 1 4 True)) =
     (set_cells (b_row b) (take (b_col b) (cells_at b (b_row b)) @ map (text_cell (b_style b)) [104, 233]
        @ drop (b_col b + length [104, 233::nat]) (cells_at b (b_row b))) b)
       \<lparr>b_col := b_col b + length [104, 233::nat]\<rparr>"
  by (rule feed_prints_text [OF display_init_ok])
     (auto simp: b_def dbuffer_def display_init_def buffer_init_def cp_ok_def is_surrogate_def
        consolecharwidth_def ascii_tables_def starts_with_def narrow_row_def cells_at_def
        mkline_def blankcell_def plain_charset_def Let_def)

section \<open>Cursor position reports\<close>

lemma feed_dsr6:
  assumes "d_state d = Ground" "d_pending d = []" "d_writer d"
  shows "d_written (feedbytes u [27, 91, 54, 110] d) = d_written d @ [cursor_report (dbuffer d)]"
proof -
  have "feedbytes u ([27, 91] @ [54] @ [110]) d = csi u [54] 110 (d\<lparr>d_sequence := [], d_state := Ground\<rparr>)"
    using assms by (intro feedbytes_csi) (auto simp: CONSOLE_SEQUENCE_LIMIT_def)
  moreover have "csi_params [54] = ([], [], [Some 6])"
    by (simp add: csi_params_def Let_def parse_param_def rstrip_def lstrip_def c_isspace_def is_digit_def
      dec_val_def)
  ultimately show ?thesis
    using assms by (simp add: csi_def csi_buffer_def Let_def param_def writeback_def changed_def
        dbuffer_def cursor_report_def)
qed

text \<open>A program that addresses the cursor and asks where it is gets back the address it
  sent: after \<open>CSI r ; c H\<close> with an address inside the screen, \<open>CSI 6 n\<close> answers
  \<open>CSI r ; c R\<close>.\<close>

theorem cursor_address_report:
  assumes "d_state d = Ground" "d_pending d = []" "d_writer d" "\<not> b_origin (dbuffer d)"
    and "1 \<le> r" "r \<le> b_rows (dbuffer d)" "1 \<le> c" "c \<le> b_cols (dbuffer d)"
    and "length (dec_nat r) + length (dec_nat c) < CONSOLE_SEQUENCE_LIMIT"
  shows "d_written (feedbytes u (([27, 91] @ (dec_nat r @ [59] @ dec_nat c) @ [72]) @ [27, 91, 54, 110]) d)
       = d_written d @ [[27, 91] @ dec_nat r @ [59] @ dec_nat c @ [82]]"
proof -
  let ?d1 = "feedbytes u ([27, 91] @ (dec_nat r @ [59] @ dec_nat c) @ [72]) d"
  have d1: "?d1 = changed (on_buffer (\<lambda>b. b\<lparr>b_row := r - 1, b_col := c - 1, b_wrap_pending := False\<rparr>)
           (d\<lparr>d_sequence := [], d_state := Ground\<rparr>))"
    using assms by (intro address_cursor) auto
  have "d_state ?d1 = Ground" "d_pending ?d1 = []" "d_writer ?d1" "d_written ?d1 = d_written d"
    using assms unfolding d1 by (simp_all add: changed_def on_buffer_def)
  moreover have "cursor_report (dbuffer ?d1) = [27, 91] @ dec_nat r @ [59] @ dec_nat c @ [82]"
    using assms unfolding d1 by (simp add: changed_def on_buffer_def dbuffer_def cursor_report_def)
  ultimately show ?thesis unfolding feedbytes_append [of u _ "[27, 91, 54, 110]"]
    using feed_dsr6 [of ?d1 u] by simp
qed

lemma cursor_address_report_witness:
  "d_written (feedbytes ascii_tables (([27, 91] @ (dec_nat 24 @ [59] @ dec_nat 80) @ [72]) @ [27, 91, 54, 110])
      (display_init 24 80 True))
    = [[27, 91] @ dec_nat 24 @ [59] @ dec_nat 80 @ [82]]"
proof -
  have "length (dec_nat 24) + length (dec_nat 80) < CONSOLE_SEQUENCE_LIMIT"
    by (simp add: CONSOLE_SEQUENCE_LIMIT_def dec_nat.simps)
  then show ?thesis
    using cursor_address_report [of "display_init 24 80 True" 24 80 ascii_tables]
    by (simp add: display_init_def dbuffer_def buffer_init_def Let_def)
qed

section \<open>Scrolling and views\<close>

text \<open>C10. Scrolling loses nothing: a line feed on the last row of an unrestricted screen moves
  the top line to the end of the history and opens a blank line at the bottom; read in order,
  history and screen are what they were followed by the blank line.\<close>

theorem linefeed_scrolls_into_history:
  assumes "buf_ok b" "b_history b = Some h" "length h < CONSOLE_HISTORY_MAX"
    and "b_top b = 0" "b_bottom b = b_rows b - 1" "b_row b = b_bottom b" "\<not> b_newline b"
  shows "\<exists>h'. b_history (linefeed b) = Some h' \<and> h' @ b_lines (linefeed b) = h @ b_lines b @ [blankline b]
    \<and> b_row (linefeed b) = b_row b \<and> b_col (linefeed b) = b_col b"
proof -
  have "b_col (index_down b) = b_col b" "\<not> b_newline (index_down b)"
    using assms by (simp_all add: index_down_def scrollup_def scrollup_once_def)
  then show ?thesis
    using scroll_keeps_lines [OF assms(1-6)] by (auto simp: linefeed_def)
qed

lemma linefeed_scrolls_into_history_witness:
  fixes b :: buffer
  defines "b \<equiv> (buffer_init 2 4 True)\<lparr>b_row := 1\<rparr>"
  shows "\<exists>h'. b_history (linefeed b) = Some h' \<and> h' @ b_lines (linefeed b) = [] @ b_lines b @ [blankline b]
    \<and> b_row (linefeed b) = b_row b \<and> b_col (linefeed b) = b_col b"
  by (rule linefeed_scrolls_into_history)
     (auto simp: b_def buffer_init_def Let_def buf_ok_def lines_ok_def line_ok_def mkline_def hist_ok_def
        CONSOLE_HISTORY_MAX_def default_tabs_def)

text \<open>The window on show: exactly as many lines as the screen has rows, contiguous in the
  sequence of history and screen lines, ending \<open>view_offset\<close> lines above its end.\<close>

theorem visible_is_a_window:
  assumes "disp_ok d" "visible d = (start, ls, d')"
  shows "length ls = b_rows (dbuffer d) \<and> 0 \<le> start
    \<and> ls = take (b_rows (dbuffer d)) (drop (nat start) (all_lines d))
    \<and> nat start + b_rows (dbuffer d) + d_view_offset d' = length (all_lines d)"
  using visible_window [OF assms] by blast

lemma visible_is_a_window_witness:
  fixes d :: display
  defines "d \<equiv> display_init 2 4 True"
  shows "length (fst (snd (visible d))) = b_rows (dbuffer d) \<and> 0 \<le> fst (visible d)"
proof -
  have "disp_ok d" by (simp add: d_def display_init_ok)
  from visible_is_a_window [OF this, of "fst (visible d)" "fst (snd (visible d))" "snd (snd (visible d))"]
  show ?thesis by (metis prod.collapse)
qed

section \<open>Changing the width\<close>

text \<open>C11. A change of width keeps the text: for one-column cells, as long as the history does not
  overflow, the logical lines of history and screen after the resize are those before it, in
  order and up to blanks at their ends, followed by empty lines only.\<close>

theorem resize_keeps_text:
  assumes "b_history b = Some h" "nat (max 2 cols) \<noteq> b_cols b" "narrow_lines (h @ b_lines b)"
    and "b_history (resize rows cols b) = Some h'" "length h' < CONSOLE_HISTORY_MAX"
  shows "\<exists>k. screen_text (h' @ b_lines (resize rows cols b)) = screen_text (h @ b_lines b) @ replicate k []"
  using assms by (rule resize_text)

definition demo_buffer :: "cp list \<Rightarrow> buffer" where
  "demo_buffer s = fold (put ascii_tables) s (buffer_init 1 4 True)"

lemma resize_keeps_text_witness:
  "\<exists>k. screen_text (the (b_history (resize 1 2 (demo_buffer [97, 98, 99]))) @ b_lines (resize 1 2 (demo_buffer [97, 98, 99])))
     = screen_text (b_lines (demo_buffer [97, 98, 99])) @ replicate k []"
proof -
  let ?b = "demo_buffer [97, 98, 99]" and ?r = "resize 1 2 (demo_buffer [97, 98, 99])"
  have "b_history ?b = Some [] \<and> nat (max 2 2) \<noteq> b_cols ?b \<and> narrow_lines ([] @ b_lines ?b)
      \<and> b_history ?r = Some (the (b_history ?r)) \<and> length (the (b_history ?r)) < CONSOLE_HISTORY_MAX"
    by code_simp
  then show ?thesis using resize_keeps_text [of ?b "[]" 2 1 "the (b_history ?r)"] by simp
qed

text \<open>With a double-width character the text is not kept: \<open>a\<close> and a wide character laid out on
  two columns become \<open>a\<close>, a blank and the wide character, and widening the window again keeps
  the blank.\<close>

lemma reflow_wide_blank:
  fixes b :: buffer
  defines "b \<equiv> demo_buffer [97, 250]"
  shows "map (map c_text) (screen_text (b_lines b)) = [[[97], [250]]]
    \<and> map (map c_text) (screen_text (b_lines (resize 1 4 (resize 2 2 b)))) \<noteq> [[[97], [250]]]
    \<and> map (map c_text) (screen_text (b_lines (resize 2 2 b))) = [[[97], [32], [250]]]"
  unfolding b_def by code_simp

text \<open>Overwriting: a wide character written one cell before a wide character replaces that one's
  first half and leaves its second half, a cell of width 0, behind.\<close>

lemma put_wide_orphan:
  "map c_width (cells_at (fold (put ascii_tables) [97, 250] (buffer_init 1 4 True)) 0) = [1, 2, 0, 1]
   \<and> map c_width (cells_at (put ascii_tables 250
        (setpos None (Some 0) (fold (put ascii_tables) [97, 250] (buffer_init 1 4 True)))) 0) = [2, 0, 0, 1]"
  by code_simp

end
