(* ===== verification/Broker_Codec.thy ===== *)
theory Broker_Codec
  imports T1_Prelude
begin

unbundle bit_operations_syntax

text \<open>
  The pure part of the authentication broker (\<open>broker.py\<close>): account names, passwords, the
  unpadded URL-safe base64 of salts and digests, bounded decimal items, and the stored
  credential representations (Argon2id, scrypt and the legacy PBKDF2) with hashing,
  verification and the upgrade test.  The key derivation functions and the NFKC
  normalisation are parameters.  Arguments are typed here, so the \<open>isinstance\<close> tests of the
  code always pass.
\<close>

named_theorems broker_consts \<open>the constants of the broker\<close>

definition MIN_NEW_PASSWORD_CHARS :: nat where [broker_consts]: "MIN_NEW_PASSWORD_CHARS = 4"
definition MAX_PASSWORD_CHARS :: nat where [broker_consts]: "MAX_PASSWORD_CHARS = 32"
definition MAX_PASSWORD_BYTES :: nat where [broker_consts]: "MAX_PASSWORD_BYTES = 128"
definition ARGON2_TIME_COST :: nat where [broker_consts]: "ARGON2_TIME_COST = 3"
definition ARGON2_MEMORY_KIB :: nat where [broker_consts]: "ARGON2_MEMORY_KIB = 65536"
definition ARGON2_PARALLELISM :: nat where [broker_consts]: "ARGON2_PARALLELISM = 1"
definition ARGON2_HASH_BYTES :: nat where [broker_consts]: "ARGON2_HASH_BYTES = 32"
definition ARGON2_SALT_BYTES :: nat where [broker_consts]: "ARGON2_SALT_BYTES = 16"
definition SCRYPT_N :: nat where [broker_consts]: "SCRYPT_N = 32768"
definition SCRYPT_R :: nat where [broker_consts]: "SCRYPT_R = 8"
definition SCRYPT_P :: nat where [broker_consts]: "SCRYPT_P = 1"
definition LEGACY_PBKDF2_ITERATIONS :: nat where [broker_consts]: "LEGACY_PBKDF2_ITERATIONS = 100000"

section \<open>Names and passwords\<close>

definition is_alnum :: "cp \<Rightarrow> bool" where
  "is_alnum c \<longleftrightarrow> is_digit c \<or> (65 \<le> c \<and> c \<le> 90) \<or> (97 \<le> c \<and> c \<le> 122)"

definition username_char :: "cp \<Rightarrow> bool" where
  "username_char c \<longleftrightarrow> is_alnum c \<or> c = 46 \<or> c = 95 \<or> c = 45"

definition username_ok :: "pystr \<Rightarrow> bool" where
  "username_ok s \<longleftrightarrow> s \<noteq> [] \<and> is_alnum (hd s) \<and> length s \<le> 32 \<and> list_all username_char (tl s)"

definition canonicalize_username :: "(pystr \<Rightarrow> pystr) \<Rightarrow> pystr \<Rightarrow> pystr res" where
  "canonicalize_username nfkc name =
     (let v = strip (nfkc name) in if username_ok v then Inr v else Inl ValueError)"

definition password_bytes :: "bool \<Rightarrow> pystr \<Rightarrow> bytes res" where
  "password_bytes allow_short password =
     (if 0 \<in> set password then Inl ValueError
      else if length password > MAX_PASSWORD_CHARS then Inl ValueError
      else if \<not> allow_short \<and> length password < MIN_NEW_PASSWORD_CHARS then Inl ValueError
      else rbind (utf8_strict password) (\<lambda>encoded.
        if length encoded > MAX_PASSWORD_BYTES then Inl ValueError else Inr encoded))"

definition validate_new_password :: "pystr \<Rightarrow> nat res" where
  "validate_new_password password = rbind (password_bytes False password) (\<lambda>d. Inr (length d))"

section \<open>Base64\<close>

definition b64_char :: "nat \<Rightarrow> cp" where
  "b64_char i =
     (if i < 26 then 65 + i else if i < 52 then 71 + i else if i < 62 then i - 4
      else if i = 62 then 45 else 95)"

definition b64_index :: "cp \<Rightarrow> nat option" where
  "b64_index c =
     (if 65 \<le> c \<and> c \<le> 90 then Some (c - 65) else if 97 \<le> c \<and> c \<le> 122 then Some (c - 71)
      else if is_digit c then Some (c + 4) else if c = 45 then Some 62
      else if c = 95 then Some 63 else None)"

fun encode_b64 :: "bytes \<Rightarrow> pystr" where
  "encode_b64 (a # b # c # r) =
     b64_char (a div 4) # b64_char (a mod 4 * 16 + b div 16) #
     b64_char (b mod 16 * 4 + c div 64) # b64_char (c mod 64) # encode_b64 r"
| "encode_b64 [a, b] = [b64_char (a div 4), b64_char (a mod 4 * 16 + b div 16), b64_char (b mod 16 * 4)]"
| "encode_b64 [a] = [b64_char (a div 4), b64_char (a mod 4 * 16)]"
| "encode_b64 [] = []"

text \<open>\<open>base64.b64decode\<close> of the padded text: the padding completes 2 or 3 digits, and a single
  left-over digit is an error.  The digits are given by their values.\<close>

fun b64_groups :: "nat list \<Rightarrow> bytes res" where
  "b64_groups (p # q # r # s # t) =
     rbind (b64_groups t) (\<lambda>rest.
       Inr ((p * 4 + q div 16) # (q mod 16 * 16 + r div 4) # (r mod 4 * 64 + s) # rest))"
| "b64_groups [p, q, r] = Inr [p * 4 + q div 16, q mod 16 * 16 + r div 4]"
| "b64_groups [p, q] = Inr [p * 4 + q div 16]"
| "b64_groups [p] = Inl ValueError"
| "b64_groups [] = Inr []"

definition decode_b64 :: "nat \<Rightarrow> nat \<Rightarrow> pystr \<Rightarrow> bytes res" where
  "decode_b64 minimum maximum v =
     (if v = [] \<or> list_ex (\<lambda>c. b64_index c = None) v then Inl ValueError
      else if length v > (maximum + 2) div 3 * 4 then Inl ValueError
      else rbind (b64_groups (map (\<lambda>c. the (b64_index c)) v)) (\<lambda>decoded.
        if \<not> (minimum \<le> length decoded \<and> length decoded \<le> maximum) then Inl ValueError
        else if encode_b64 decoded \<noteq> v then Inl ValueError else Inr decoded))"

definition bounded_integer :: "nat \<Rightarrow> nat \<Rightarrow> pystr \<Rightarrow> nat res" where
  "bounded_integer minimum maximum v =
     (if v = [] \<or> \<not> list_all is_digit v then Inl ValueError
      else if length v > length (dec_nat maximum) then Inl ValueError
      else let number = dec_val v in
           if minimum \<le> number \<and> number \<le> maximum then Inr number else Inl ValueError)"

section \<open>Stored representations\<close>

datatype parsed_hash =
    ArgonHash (ph_memory: nat) (ph_time: nat) (ph_parallelism: nat) (ph_salt: bytes) (ph_digest: bytes)
  | ScryptHash (ph_n: nat) (ph_r: nat) (ph_parallelism: nat) (ph_salt: bytes) (ph_digest: bytes)

definition field :: "pystr \<Rightarrow> pystr" where
  "field item = snd (partition_on 61 item)"

definition parse_argon2id :: "pystr list \<Rightarrow> parsed_hash res" where
  "parse_argon2id vs =
     (if map (\<lambda>item. fst (partition_on 61 item)) vs
           \<noteq> [cps ''m'', cps ''t'', cps ''p'', cps ''salt'', cps ''hash''] then Inl ValueError
      else rbind (bounded_integer 32768 262144 (field (vs ! 0))) (\<lambda>memory.
           rbind (bounded_integer 2 6 (field (vs ! 1))) (\<lambda>time_cost.
           rbind (bounded_integer 1 4 (field (vs ! 2))) (\<lambda>parallelism.
           rbind (decode_b64 16 32 (field (vs ! 3))) (\<lambda>salt.
           rbind (decode_b64 ARGON2_HASH_BYTES ARGON2_HASH_BYTES (field (vs ! 4))) (\<lambda>digest.
             Inr (ArgonHash memory time_cost parallelism salt digest)))))))"

definition parse_scrypt :: "pystr list \<Rightarrow> parsed_hash res" where
  "parse_scrypt vs =
     (if map (\<lambda>item. fst (partition_on 61 item)) vs
           \<noteq> [cps ''n'', cps ''r'', cps ''p'', cps ''salt'', cps ''hash''] then Inl ValueError
      else rbind (bounded_integer 16384 65536 (field (vs ! 0))) (\<lambda>n.
           if n AND (n - 1) \<noteq> 0 then Inl ValueError
           else rbind (bounded_integer SCRYPT_R SCRYPT_R (field (vs ! 1))) (\<lambda>r.
                rbind (bounded_integer 1 2 (field (vs ! 2))) (\<lambda>parallelism.
                rbind (decode_b64 16 32 (field (vs ! 3))) (\<lambda>salt.
                rbind (decode_b64 32 32 (field (vs ! 4))) (\<lambda>digest.
                  Inr (ScryptHash n r parallelism salt digest)))))))"

definition parse_current_hash :: "pystr \<Rightarrow> parsed_hash res" where
  "parse_current_hash stored =
     (if length stored > 512 \<or> \<not> list_all (\<lambda>c. c < 128) stored then Inl ValueError
      else let parts = split_on 36 stored in
        if length parts \<noteq> 8 \<or> parts ! 0 \<noteq> cps ''t1auth'' \<or> parts ! 1 \<noteq> cps ''v=1'' then Inl ValueError
        else if parts ! 2 = cps ''kdf=argon2id'' then parse_argon2id (drop 3 parts)
        else if parts ! 2 = cps ''kdf=scrypt'' then parse_scrypt (drop 3 parts)
        else Inl ValueError)"

definition hex_digit :: "cp \<Rightarrow> nat option" where
  "hex_digit c =
     (if is_digit c then Some (c - 48) else if 97 \<le> c \<and> c \<le> 102 then Some (c - 87)
      else if 65 \<le> c \<and> c \<le> 70 then Some (c - 55) else None)"

definition hex_text :: "nat \<Rightarrow> pystr \<Rightarrow> bool" where
  "hex_text n s \<longleftrightarrow> length s = n \<and> list_all (\<lambda>c. hex_digit c \<noteq> None) s"

fun from_hex :: "pystr \<Rightarrow> bytes" where
  "from_hex (a # b # r) = (the (hex_digit a) * 16 + the (hex_digit b)) # from_hex r"
| "from_hex _ = []"

definition parse_legacy_hash :: "pystr \<Rightarrow> (bytes \<times> bytes) res" where
  "parse_legacy_hash stored =
     (if length stored \<noteq> 111 \<or> \<not> list_all (\<lambda>c. c < 128) stored then Inl ValueError
      else (case split_on 36 stored of
              [algorithm, iterations, salt_hex, digest_hex] \<Rightarrow>
                if algorithm \<noteq> cps ''sha256'' then Inl ValueError
                else if iterations \<noteq> dec_nat LEGACY_PBKDF2_ITERATIONS then Inl ValueError
                else if \<not> hex_text 32 salt_hex \<or> \<not> hex_text 64 digest_hex then Inl ValueError
                else Inr (from_hex salt_hex, from_hex digest_hex)
            | _ \<Rightarrow> Inl ValueError))"

definition is_ok :: "'a res \<Rightarrow> bool" where
  "is_ok r = (case r of Inl _ \<Rightarrow> False | Inr _ \<Rightarrow> True)"

definition validate_stored_hash :: "pystr \<Rightarrow> bool" where
  "validate_stored_hash stored =
     (if starts_with (cps ''t1auth$'') stored then is_ok (parse_current_hash stored)
      else is_ok (parse_legacy_hash stored))"

section \<open>Hashing and verification\<close>

text \<open>The native functions: \<open>argon2id_hash_raw\<close> when the library was found, giving a status
  and the output buffer (arguments: time, memory, parallelism, password, salt);
  \<open>hashlib.scrypt\<close> (n, r, p, password, salt) and \<open>hashlib.pbkdf2_hmac\<close> (password, salt).\<close>

record kdf =
  k_argon2 :: "(nat \<Rightarrow> nat \<Rightarrow> nat \<Rightarrow> bytes \<Rightarrow> bytes \<Rightarrow> nat \<times> bytes) option"
  k_scrypt :: "nat \<Rightarrow> nat \<Rightarrow> nat \<Rightarrow> bytes \<Rightarrow> bytes \<Rightarrow> bytes res"
  k_pbkdf2 :: "bytes \<Rightarrow> bytes \<Rightarrow> bytes"

definition argon2id_available :: "kdf \<Rightarrow> bool" where
  "argon2id_available k \<longleftrightarrow> k_argon2 k \<noteq> None"

definition argon2id :: "kdf \<Rightarrow> nat \<Rightarrow> nat \<Rightarrow> nat \<Rightarrow> bytes \<Rightarrow> bytes \<Rightarrow> bytes res" where
  "argon2id k time_cost memory_kib parallelism password salt =
     (case k_argon2 k of None \<Rightarrow> Inl AuthenticationError
      | Some f \<Rightarrow> (case f time_cost memory_kib parallelism password salt of (result, output) \<Rightarrow>
          if result \<noteq> 0 then Inl AuthenticationError else Inr output))"

definition hash_password :: "kdf \<Rightarrow> bytes \<Rightarrow> pystr \<Rightarrow> pystr res" where
  "hash_password k salt password =
     rbind (password_bytes False password) (\<lambda>encoded.
       if argon2id_available k then
         rbind (argon2id k ARGON2_TIME_COST ARGON2_MEMORY_KIB ARGON2_PARALLELISM encoded salt) (\<lambda>digest.
           Inr (cps ''t1auth$v=1$kdf=argon2id$m='' @ dec_nat ARGON2_MEMORY_KIB
             @ cps ''$t='' @ dec_nat ARGON2_TIME_COST @ cps ''$p='' @ dec_nat ARGON2_PARALLELISM
             @ cps ''$salt='' @ encode_b64 salt @ cps ''$hash='' @ encode_b64 digest))
       else
         rbind (k_scrypt k SCRYPT_N SCRYPT_R SCRYPT_P encoded salt) (\<lambda>digest.
           Inr (cps ''t1auth$v=1$kdf=scrypt$n='' @ dec_nat SCRYPT_N
             @ cps ''$r='' @ dec_nat SCRYPT_R @ cps ''$p='' @ dec_nat SCRYPT_P
             @ cps ''$salt='' @ encode_b64 salt @ cps ''$hash='' @ encode_b64 digest)))"

definition derive :: "kdf \<Rightarrow> parsed_hash \<Rightarrow> bytes \<Rightarrow> bytes res" where
  "derive k p encoded =
     (case p of
        ArgonHash memory time_cost par salt _ \<Rightarrow> argon2id k time_cost memory par encoded salt
      | ScryptHash n r par salt _ \<Rightarrow> k_scrypt k n r par encoded salt)"

text \<open>The exceptions that \<open>verify_password\<close> turns into a refusal.\<close>

definition refuse :: "bool res \<Rightarrow> bool res" where
  "refuse m = (case m of
      Inl e \<Rightarrow> if e \<in> {AuthenticationError, AttributeError, TypeError, ValueError} then Inr False else Inl e
    | Inr b \<Rightarrow> Inr b)"

definition verify_password :: "kdf \<Rightarrow> pystr \<Rightarrow> pystr \<Rightarrow> bool res" where
  "verify_password k password stored =
     refuse (rbind (password_bytes True password) (\<lambda>encoded.
       if starts_with (cps ''t1auth$'') stored then
         rbind (parse_current_hash stored) (\<lambda>parsed.
         rbind (derive k parsed encoded) (\<lambda>actual. Inr (actual = ph_digest parsed)))
       else
         rbind (parse_legacy_hash stored) (\<lambda>(salt, expected).
           Inr (k_pbkdf2 k encoded salt = expected))))"

definition password_needs_upgrade :: "kdf \<Rightarrow> pystr \<Rightarrow> bool" where
  "password_needs_upgrade k stored =
     (case parse_current_hash stored of
        Inl _ \<Rightarrow> validate_stored_hash stored
      | Inr (ArgonHash memory time_cost par _ _) \<Rightarrow>
          memory \<noteq> ARGON2_MEMORY_KIB \<or> time_cost \<noteq> ARGON2_TIME_COST \<or> par \<noteq> ARGON2_PARALLELISM
      | Inr (ScryptHash n r par _ _) \<Rightarrow>
          argon2id_available k \<or> n \<noteq> SCRYPT_N \<or> r \<noteq> SCRYPT_R \<or> par \<noteq> SCRYPT_P)"

section \<open>Facts\<close>

lemma b64_index_char: "i < 64 \<Longrightarrow> b64_index (b64_char i) = Some i"
  by (auto simp: b64_char_def b64_index_def is_digit_def)

lemma b64_round:
  fixes a b c :: nat
  assumes "a < 256" "b < 256" "c < 256"
  shows "a div 4 < 64" "a mod 4 * 16 + b div 16 < 64" "b mod 16 * 4 + c div 64 < 64" "c mod 64 < 64"
    "a mod 4 * 16 < 64" "b mod 16 * 4 < 64"
    "(a mod 4 * 16 + b div 16) div 16 = a mod 4" "(a mod 4 * 16 + b div 16) mod 16 = b div 16"
    "(b mod 16 * 4 + c div 64) div 4 = b mod 16" "(b mod 16 * 4 + c div 64) mod 4 = c div 64"
    "b div 16 mod 16 = b div 16" "c div 64 mod 4 = c div 64"
proof -
  have q: "b div 16 < 16" "c div 64 < 4" "a mod 4 < 4" "b mod 16 < 16" using assms by auto
  show "a div 4 < 64" "c mod 64 < 64" using assms by auto
  show "a mod 4 * 16 + b div 16 < 64" "b mod 16 * 4 + c div 64 < 64" "a mod 4 * 16 < 64" "b mod 16 * 4 < 64"
    using q by linarith+
  show "(a mod 4 * 16 + b div 16) div 16 = a mod 4" "(a mod 4 * 16 + b div 16) mod 16 = b div 16"
    "(b mod 16 * 4 + c div 64) div 4 = b mod 16" "(b mod 16 * 4 + c div 64) mod 4 = c div 64"
    "b div 16 mod 16 = b div 16" "c div 64 mod 4 = c div 64"
    using q by simp_all
qed

lemma b64_groups_encode:
  "bytes_ok bs \<Longrightarrow> b64_groups (map (\<lambda>c. the (b64_index c)) (encode_b64 bs)) = Inr bs"
proof (induction bs rule: encode_b64.induct)
  case (1 a b c r)
  then show ?case using b64_round [of a b c] by (simp add: b64_index_char)
next
  case (2 a b)
  then show ?case using b64_round [of a b 0] by (simp add: b64_index_char)
next
  case (3 a)
  then show ?case using b64_round [of a 0 0] by (simp add: b64_index_char)
qed simp

lemma encode_b64_alphabet: "bytes_ok bs \<Longrightarrow> \<forall>c \<in> set (encode_b64 bs). b64_index c \<noteq> None"
proof (induction bs rule: encode_b64.induct)
  case (1 a b c r)
  then show ?case using b64_round [of a b c] by (simp add: b64_index_char)
next
  case (2 a b)
  then show ?case using b64_round [of a b 0] by (simp add: b64_index_char)
next
  case (3 a)
  then show ?case using b64_round [of a 0 0] by (simp add: b64_index_char)
qed simp

lemma length_encode_b64: "length (encode_b64 bs) \<le> (length bs + 2) div 3 * 4"
proof (induction bs rule: encode_b64.induct)
  case (1 a b c r)
  have "(length (a # b # c # r) + 2) div 3 = Suc ((length r + 2) div 3)" by simp
  with "1.IH" show ?case by simp
qed auto

lemma encode_b64_Nil [simp]: "encode_b64 bs = [] \<longleftrightarrow> bs = []"
  by (cases bs rule: encode_b64.cases) auto

lemma decode_encode_b64:
  assumes "bytes_ok bs" "bs \<noteq> []" "minimum \<le> length bs" "length bs \<le> maximum"
  shows "decode_b64 minimum maximum (encode_b64 bs) = Inr bs"
proof -
  have "length (encode_b64 bs) \<le> (maximum + 2) div 3 * 4"
    using length_encode_b64 [of bs] assms(4) by (meson add_le_mono1 div_le_mono le_trans mult_le_mono1)
  moreover have "\<not> list_ex (\<lambda>c. b64_index c = None) (encode_b64 bs)"
    using encode_b64_alphabet [OF assms(1)] by (auto simp: list_ex_iff)
  ultimately show ?thesis using assms by (simp add: decode_b64_def b64_groups_encode)
qed

lemma decode_b64_canonical:
  "decode_b64 lo hi v = Inr bs \<Longrightarrow> encode_b64 bs = v \<and> lo \<le> length bs \<and> length bs \<le> hi"
  by (auto simp: decode_b64_def rbind_eq_Inr split: if_splits)

lemma bounded_integer_dec:
  assumes "lo \<le> n" "n \<le> hi"
  shows "bounded_integer lo hi (dec_nat n) = Inr n"
  using assms dec_nat_digits [of n] dec_nat_length_mono [OF assms(2)]
  by (auto simp: bounded_integer_def list_all_iff Let_def)

lemma bounded_integer_range: "bounded_integer lo hi v = Inr n \<Longrightarrow> lo \<le> n \<and> n \<le> hi"
  by (auto simp: bounded_integer_def Let_def split: if_splits)

text \<open>The stored text of a fresh hash splits back into its fields.\<close>

lemma b64_no_sep:
  assumes "bytes_ok bs"
  shows "36 \<notin> set (encode_b64 bs)" "61 \<notin> set (encode_b64 bs)" "\<forall>c \<in> set (encode_b64 bs). c < 128"
proof -
  have "b64_index c \<noteq> None \<Longrightarrow> c \<noteq> 36 \<and> c \<noteq> 61 \<and> c < 128" for c
    by (auto simp: b64_index_def is_digit_def split: if_splits)
  with encode_b64_alphabet [OF assms]
  show "36 \<notin> set (encode_b64 bs)" "61 \<notin> set (encode_b64 bs)" "\<forall>c \<in> set (encode_b64 bs). c < 128"
    by blast+
qed

lemma dec_no_sep:
  "36 \<notin> set (dec_nat n)" "61 \<notin> set (dec_nat n)" "\<forall>c \<in> set (dec_nat n). c < 128"
  using dec_nat_digits [of n] by (auto simp: is_digit_def)

definition stored_text :: "pystr \<Rightarrow> (pystr \<times> pystr) list \<Rightarrow> pystr" where
  "stored_text kind items =
     join_with 36 ([cps ''t1auth'', cps ''v=1'', cps ''kdf='' @ kind] @ map (\<lambda>(k, v). k @ 61 # v) items)"

lemma split_stored_text:
  assumes "36 \<notin> set kind" "\<forall>(k, v) \<in> set items. 36 \<notin> set k \<and> 36 \<notin> set v"
  shows "split_on 36 (stored_text kind items) =
    [cps ''t1auth'', cps ''v=1'', cps ''kdf='' @ kind] @ map (\<lambda>(k, v). k @ 61 # v) items"
  unfolding stored_text_def using assms by (intro split_on_join) auto

lemma field_part: "61 \<notin> set k \<Longrightarrow> partition_on 61 (k @ 61 # v) = (k, v)"
  by (rule partition_on_append)

definition salt_ok :: "bytes \<Rightarrow> bool" where
  "salt_ok salt \<longleftrightarrow> bytes_ok salt \<and> length salt = ARGON2_SALT_BYTES"

definition digest_ok :: "bytes \<Rightarrow> bool" where
  "digest_ok d \<longleftrightarrow> bytes_ok d \<and> length d = ARGON2_HASH_BYTES"

lemma parse_argon_fields:
  assumes "salt_ok salt" "digest_ok digest"
  shows "parse_argon2id (map (\<lambda>(k, v). k @ 61 # v)
      [(cps ''m'', dec_nat 65536), (cps ''t'', dec_nat 3), (cps ''p'', dec_nat 1),
       (cps ''salt'', encode_b64 salt), (cps ''hash'', encode_b64 digest)])
    = Inr (ArgonHash 65536 3 1 salt digest)"
proof -
  have "decode_b64 16 32 (encode_b64 salt) = Inr salt" "decode_b64 32 32 (encode_b64 digest) = Inr digest"
    using assms by (auto intro!: decode_encode_b64 simp: salt_ok_def digest_ok_def broker_consts)
  moreover have "bounded_integer 32768 262144 (dec_nat 65536) = Inr 65536"
    "bounded_integer 2 6 (dec_nat 3) = Inr 3" "bounded_integer 1 4 (dec_nat 1) = Inr 1"
    by (rule bounded_integer_dec; simp)+
  ultimately show ?thesis
    by (simp add: parse_argon2id_def field_def field_part broker_consts partition_on_def)
qed

lemma parse_scrypt_fields:
  assumes "salt_ok salt" "digest_ok digest"
  shows "parse_scrypt (map (\<lambda>(k, v). k @ 61 # v)
      [(cps ''n'', dec_nat 32768), (cps ''r'', dec_nat 8), (cps ''p'', dec_nat 1),
       (cps ''salt'', encode_b64 salt), (cps ''hash'', encode_b64 digest)])
    = Inr (ScryptHash 32768 8 1 salt digest)"
proof -
  have "decode_b64 16 32 (encode_b64 salt) = Inr salt" "decode_b64 32 32 (encode_b64 digest) = Inr digest"
    using assms by (auto intro!: decode_encode_b64 simp: salt_ok_def digest_ok_def broker_consts)
  moreover have "bounded_integer 16384 65536 (dec_nat 32768) = Inr 32768"
    "bounded_integer 8 8 (dec_nat 8) = Inr 8" "bounded_integer 1 2 (dec_nat 1) = Inr 1"
    by (rule bounded_integer_dec; simp)+
  moreover have "(32768 :: nat) AND (32768 - 1) = 0" by simp
  ultimately show ?thesis
    by (simp add: parse_scrypt_def field_def field_part broker_consts partition_on_def)
qed

lemma length_join: "length (join_with c xs) \<le> sum_list (map (\<lambda>x. Suc (length x)) xs)"
  by (induction c xs rule: join_with.induct) auto

lemma set_join: "set (join_with c xs) \<subseteq> insert c (\<Union> (set ` set xs))"
  by (induction c xs rule: join_with.induct) auto

definition plain_field :: "pystr \<times> pystr \<Rightarrow> bool" where
  "plain_field kv \<longleftrightarrow> 36 \<notin> set (fst kv) \<and> 36 \<notin> set (snd kv) \<and> (\<forall>c \<in> set (fst kv @ snd kv). c < 128)
     \<and> length (fst kv) \<le> 4 \<and> length (snd kv) \<le> 44"

lemma parse_stored_text:
  assumes kind: "36 \<notin> set kind" "\<forall>c \<in> set kind. c < 128" "length kind \<le> 8"
    and items: "\<forall>kv \<in> set items. plain_field kv" "length items = 5"
  shows "parse_current_hash (stored_text kind items) =
    (if kind = cps ''argon2id'' then parse_argon2id (map (\<lambda>(k, v). k @ 61 # v) items)
     else if kind = cps ''scrypt'' then parse_scrypt (map (\<lambda>(k, v). k @ 61 # v) items) else Inl ValueError)"
proof -
  let ?parts = "[cps ''t1auth'', cps ''v=1'', cps ''kdf='' @ kind] @ map (\<lambda>(k, v). k @ 61 # v) items"
  have split: "split_on 36 (stored_text kind items) = ?parts"
    using kind items by (intro split_stored_text) (auto simp: plain_field_def)
  have "sum_list (map (\<lambda>(k, v). Suc (length (k @ 61 # v))) items) \<le> sum_list (map (\<lambda>_. 50) items)"
    using items(1) by (intro sum_list_mono) (auto simp: plain_field_def)
  then have "length (stored_text kind items) \<le> 512"
    unfolding stored_text_def using length_join [of 36 ?parts] kind(3) items(2)
    by (simp add: sum_list_triv comp_def case_prod_unfold)
  moreover have "\<forall>c \<in> set (stored_text kind items). c < 128"
  proof -
    have "\<forall>x \<in> set ?parts. \<forall>c \<in> set x. c < 128"
      using kind items by (fastforce simp: plain_field_def)
    then show ?thesis unfolding stored_text_def using set_join [of 36 ?parts] by fastforce
  qed
  ultimately show ?thesis
    using items(2) by (simp add: parse_current_hash_def split list_all_iff)
qed

lemma stored_text_start: "starts_with (cps ''t1auth$'') (stored_text kind items)"
  by (simp add: stored_text_def starts_with_def)

text \<open>What the derivation functions return is a digest of the stored size.\<close>

definition kdf_ok :: "kdf \<Rightarrow> bool" where
  "kdf_ok k \<longleftrightarrow> (\<forall>t m p pw s d. argon2id k t m p pw s = Inr d \<longrightarrow> digest_ok d)
     \<and> (\<forall>n r p pw s d. k_scrypt k n r p pw s = Inr d \<longrightarrow> digest_ok d)"

definition current_parameters :: "kdf \<Rightarrow> bytes \<Rightarrow> bytes \<Rightarrow> parsed_hash" where
  "current_parameters k salt digest =
     (if argon2id_available k then ArgonHash ARGON2_MEMORY_KIB ARGON2_TIME_COST ARGON2_PARALLELISM salt digest
      else ScryptHash SCRYPT_N SCRYPT_R SCRYPT_P salt digest)"

lemma plain_field_dec:
  assumes "length a \<le> 4" "\<forall>x \<in> set a. x < 128 \<and> x \<noteq> 36" "l \<le> 999999"
  shows "plain_field (a, dec_nat l)"
proof -
  have "length (dec_nat l) \<le> 6"
    using dec_nat_length_mono [OF assms(3)] by (simp add: dec_nat.simps)
  then show ?thesis
    using assms dec_no_sep(1) [of l] dec_no_sep(3) [of l] by (auto simp: plain_field_def)
qed

lemma plain_field_b64:
  assumes "length a \<le> 4" "\<forall>x \<in> set a. x < 128 \<and> x \<noteq> 36" "bytes_ok bs" "length bs \<le> 32"
  shows "plain_field (a, encode_b64 bs)"
proof -
  have "length (encode_b64 bs) \<le> (length bs + 2) div 3 * 4" by (rule length_encode_b64)
  also have "(length bs + 2) div 3 \<le> 34 div 3" using assms(4) by (intro div_le_mono) simp
  then have "(length bs + 2) div 3 * 4 \<le> 44" by simp
  finally show ?thesis
    using assms b64_no_sep(1) [OF assms(3)] b64_no_sep(3) [OF assms(3)] by (auto simp: plain_field_def)
qed

lemma hash_password_parses:
  assumes "kdf_ok k" "salt_ok salt" "hash_password k salt password = Inr stored"
  obtains encoded digest where "password_bytes False password = Inr encoded"
    and "derive k (current_parameters k salt digest) encoded = Inr digest"
    and "parse_current_hash stored = Inr (current_parameters k salt digest)"
    and "starts_with (cps ''t1auth$'') stored"
proof -
  from assms(3) obtain encoded where e: "password_bytes False password = Inr encoded"
    by (auto simp: hash_password_def rbind_eq_Inr)
  show thesis
  proof (cases "argon2id_available k")
    case True
    with assms(3) e obtain digest where d: "argon2id k 3 65536 1 encoded salt = Inr digest"
      by (auto simp: hash_password_def rbind_eq_Inr broker_consts)
    let ?items = "[(cps ''m'', dec_nat 65536), (cps ''t'', dec_nat 3), (cps ''p'', dec_nat 1),
       (cps ''salt'', encode_b64 salt), (cps ''hash'', encode_b64 digest)]"
    have st: "stored = stored_text (cps ''argon2id'') ?items"
      using True assms(3) e d by (simp add: hash_password_def broker_consts stored_text_def)
    have dok: "digest_ok digest" using assms(1) d unfolding kdf_ok_def by blast
    have "\<forall>kv \<in> set ?items. plain_field kv"
      using assms(2) dok by (simp add: plain_field_dec plain_field_b64 salt_ok_def digest_ok_def broker_consts)
    then have "parse_current_hash stored = Inr (ArgonHash 65536 3 1 salt digest)"
      unfolding st using parse_stored_text [of "cps ''argon2id''" ?items] parse_argon_fields [OF assms(2) dok]
      by simp
    then show thesis using that [OF e, of digest] True d stored_text_start
      by (simp add: current_parameters_def derive_def broker_consts st)
  next
    case False
    with assms(3) e obtain digest where d: "k_scrypt k 32768 8 1 encoded salt = Inr digest"
      by (auto simp: hash_password_def rbind_eq_Inr broker_consts)
    let ?items = "[(cps ''n'', dec_nat 32768), (cps ''r'', dec_nat 8), (cps ''p'', dec_nat 1),
       (cps ''salt'', encode_b64 salt), (cps ''hash'', encode_b64 digest)]"
    have st: "stored = stored_text (cps ''scrypt'') ?items"
      using False assms(3) e d by (simp add: hash_password_def broker_consts stored_text_def)
    have dok: "digest_ok digest" using assms(1) d unfolding kdf_ok_def by blast
    have "\<forall>kv \<in> set ?items. plain_field kv"
      using assms(2) dok by (simp add: plain_field_dec plain_field_b64 salt_ok_def digest_ok_def broker_consts)
    then have "parse_current_hash stored = Inr (ScryptHash 32768 8 1 salt digest)"
      unfolding st using parse_stored_text [of "cps ''scrypt''" ?items] parse_scrypt_fields [OF assms(2) dok]
      by simp
    then show thesis using that [OF e, of digest] False d stored_text_start
      by (simp add: current_parameters_def derive_def broker_consts st)
  qed
qed

lemma password_bytes_short: "password_bytes False pw = Inr e \<Longrightarrow> password_bytes True pw = Inr e"
  by (auto simp: password_bytes_def split: if_splits)

lemma ph_current [simp]:
  "ph_digest (current_parameters k salt digest) = digest" "ph_salt (current_parameters k salt digest) = salt"
  by (simp_all add: current_parameters_def)

lemma username_ok_chars: "username_ok s \<Longrightarrow> \<forall>c \<in> set s. username_char c"
  by (cases s) (auto simp: username_ok_def username_char_def list_all_iff)

lemma username_char_plain: "username_char c \<Longrightarrow> c < 128 \<and> c \<noteq> 58 \<and> c \<noteq> 10 \<and> c \<noteq> 13 \<and> c \<noteq> 47 \<and> c \<noteq> 92
    \<and> c \<noteq> 0 \<and> \<not> py_isspace c"
  by (auto simp: username_char_def is_alnum_def is_digit_def py_isspace_def)

section \<open>Properties\<close>

text \<open>C15. A password that was just stored verifies: what \<open>hash_password\<close> returns is a valid
  stored representation, verification of the same password against it succeeds, and it needs no
  upgrade.\<close>

theorem hash_then_verify:
  assumes "kdf_ok k" "salt_ok salt" "hash_password k salt password = Inr stored"
  shows "validate_stored_hash stored \<and> verify_password k password stored = Inr True
    \<and> \<not> password_needs_upgrade k stored"
proof -
  from hash_password_parses [OF assms] obtain encoded digest where
    h: "password_bytes False password = Inr encoded"
    "derive k (current_parameters k salt digest) encoded = Inr digest"
    "parse_current_hash stored = Inr (current_parameters k salt digest)"
    "starts_with (cps ''t1auth$'') stored" .
  have "validate_stored_hash stored" using h by (simp add: validate_stored_hash_def is_ok_def)
  moreover have "verify_password k password stored = Inr True"
    using h password_bytes_short [OF h(1)] by (simp add: verify_password_def refuse_def)
  moreover have "\<not> password_needs_upgrade k stored"
    using h(3) by (simp add: password_needs_upgrade_def current_parameters_def)
  ultimately show ?thesis by blast
qed

text \<open>A derivation that copies the first bytes of salt and password, for the examples.\<close>

definition demo_kdf :: kdf where
  "demo_kdf = \<lparr>k_argon2 = Some (\<lambda>t m p pw salt. (0, take 32 (map (\<lambda>b. b mod 256) (pw @ salt) @ replicate 32 0))),
     k_scrypt = (\<lambda>n r p pw salt. Inr (replicate 32 0)), k_pbkdf2 = (\<lambda>pw salt. replicate 32 0)\<rparr>"

lemma demo_kdf_ok: "kdf_ok demo_kdf"
  by (auto simp: kdf_ok_def demo_kdf_def argon2id_def digest_ok_def broker_consts bytes_ok_def
      dest!: in_set_takeD split: if_splits)

lemma demo_salt_ok: "salt_ok (replicate 16 7)"
  by (simp add: salt_ok_def bytes_ok_def broker_consts)

lemma hash_then_verify_witness:
  "\<exists>stored. hash_password demo_kdf (replicate 16 7) (cps ''secret'') = Inr stored
     \<and> validate_stored_hash stored \<and> verify_password demo_kdf (cps ''secret'') stored = Inr True
     \<and> \<not> password_needs_upgrade demo_kdf stored"
proof -
  have "\<exists>stored. hash_password demo_kdf (replicate 16 7) (cps ''secret'') = Inr stored"
    by (simp add: hash_password_def password_bytes_def broker_consts utf8_strict_def is_surrogate_def
        argon2id_available_def argon2id_def demo_kdf_def utf8_cp_def)
  then show ?thesis using hash_then_verify [OF demo_kdf_ok demo_salt_ok] by blast
qed

text \<open>The bounds of the policy on what a derivation is run with.\<close>

definition argon_policy :: "nat \<Rightarrow> nat \<Rightarrow> nat \<Rightarrow> bytes \<Rightarrow> bool" where
  "argon_policy t m p salt \<longleftrightarrow> 2 \<le> t \<and> t \<le> 6 \<and> 32768 \<le> m \<and> m \<le> 262144 \<and> 1 \<le> p \<and> p \<le> 4 \<and> 16 \<le> length salt \<and> length salt \<le> 32"

definition scrypt_policy :: "nat \<Rightarrow> nat \<Rightarrow> nat \<Rightarrow> bytes \<Rightarrow> bool" where
  "scrypt_policy n r p salt \<longleftrightarrow> 16384 \<le> n \<and> n \<le> 65536 \<and> n AND (n - 1) = 0 \<and> r = 8 \<and> 1 \<le> p \<and> p \<le> 2 \<and> 16 \<le> length salt \<and> length salt \<le> 32"

definition within_policy :: "parsed_hash \<Rightarrow> bool" where
  "within_policy h = (case h of
     ArgonHash m t p salt digest \<Rightarrow> argon_policy t m p salt \<and> length digest = 32
   | ScryptHash n r p salt digest \<Rightarrow> scrypt_policy n r p salt \<and> length digest = 32)"

text \<open>Derivation functions that agree wherever the policy lets a derivation be run.\<close>

definition same_in_policy :: "kdf \<Rightarrow> kdf \<Rightarrow> bool" where
  "same_in_policy k k' \<longleftrightarrow>
     (\<forall>t m p pw salt. argon_policy t m p salt \<longrightarrow> argon2id k t m p pw salt = argon2id k' t m p pw salt)
     \<and> (\<forall>n r p pw salt. scrypt_policy n r p salt \<longrightarrow> k_scrypt k n r p pw salt = k_scrypt k' n r p pw salt)
     \<and> (\<forall>pw salt. length salt = 16 \<longrightarrow> k_pbkdf2 k pw salt = k_pbkdf2 k' pw salt)"

lemma parsed_within_policy: "parse_current_hash stored = Inr p \<Longrightarrow> within_policy p"
  unfolding parse_current_hash_def parse_argon2id_def parse_scrypt_def Let_def
  by (auto simp: rbind_eq_Inr broker_consts within_policy_def argon_policy_def scrypt_policy_def split: if_splits
      dest!: bounded_integer_range decode_b64_canonical)

lemma from_hex_length: "length (from_hex s) = length s div 2"
  by (induction s rule: from_hex.induct) simp_all

lemma legacy_lengths: "parse_legacy_hash stored = Inr (salt, digest) \<Longrightarrow> length salt = 16 \<and> length digest = 32"
  by (auto simp: parse_legacy_hash_def hex_text_def from_hex_length split: if_splits list.splits)

lemma derive_same: "same_in_policy k k' \<Longrightarrow> within_policy p \<Longrightarrow> derive k p encoded = derive k' p encoded"
  by (cases p) (simp_all add: derive_def within_policy_def same_in_policy_def)

text \<open>C16. Verification answers yes exactly when the stored text is well formed and the derivation that it names gives
  the stored digest: a text that cannot be parsed, a derivation that fails and a password that cannot be encoded never let
  anyone in, in the current and in the legacy format.  Only parameters within the policy reach a derivation: functions
  that agree there, whatever they do elsewhere, give the same answer to every stored text.\<close>

theorem verify_password_sound:
  "(verify_password k password stored = Inr True \<longleftrightarrow>
      (\<exists>encoded. password_bytes True password = Inr encoded \<and>
        (if starts_with (cps ''t1auth$'') stored
         then \<exists>p. parse_current_hash stored = Inr p \<and> within_policy p \<and> derive k p encoded = Inr (ph_digest p)
         else \<exists>salt digest. parse_legacy_hash stored = Inr (salt, digest) \<and> length salt = 16 \<and> length digest = 32
           \<and> k_pbkdf2 k encoded salt = digest)))
    \<and> (same_in_policy k k' \<longrightarrow> verify_password k password stored = verify_password k' password stored)"
proof -
  have accepts: "refuse m = Inr True \<longleftrightarrow> m = Inr True" for m by (cases m) (auto simp: refuse_def)
  have "verify_password k password stored = verify_password k' password stored" if s: "same_in_policy k k'"
  proof (cases "starts_with (cps ''t1auth$'') stored")
    case True
    have "rbind (parse_current_hash stored) (\<lambda>parsed. rbind (derive k parsed x) (\<lambda>actual. Inr (actual = ph_digest parsed)))
        = rbind (parse_current_hash stored) (\<lambda>parsed. rbind (derive k' parsed x) (\<lambda>actual. Inr (actual = ph_digest parsed)))" for x
      by (cases "parse_current_hash stored") (simp_all add: rbind_def derive_same [OF s parsed_within_policy])
    then show ?thesis using True by (simp add: verify_password_def)
  next
    case False
    have "rbind (parse_legacy_hash stored) (\<lambda>(salt, expected). Inr (k_pbkdf2 k x salt = expected))
        = rbind (parse_legacy_hash stored) (\<lambda>(salt, expected). Inr (k_pbkdf2 k' x salt = expected))" for x
      using s legacy_lengths by (cases "parse_legacy_hash stored") (auto simp: rbind_def same_in_policy_def)
    then show ?thesis using False by (simp add: verify_password_def)
  qed
  moreover have "verify_password k password stored = Inr True \<longleftrightarrow>
      (\<exists>encoded. password_bytes True password = Inr encoded \<and>
        (if starts_with (cps ''t1auth$'') stored
         then \<exists>p. parse_current_hash stored = Inr p \<and> within_policy p \<and> derive k p encoded = Inr (ph_digest p)
         else \<exists>salt digest. parse_legacy_hash stored = Inr (salt, digest) \<and> length salt = 16 \<and> length digest = 32
           \<and> k_pbkdf2 k encoded salt = digest))"
  proof (cases "starts_with (cps ''t1auth$'') stored")
    case True
    have "(\<exists>p. parse_current_hash stored = Inr p \<and> within_policy p \<and> derive k p x = Inr (ph_digest p))
        \<longleftrightarrow> (\<exists>p. parse_current_hash stored = Inr p \<and> derive k p x = Inr (ph_digest p))" for x
      using parsed_within_policy by blast
    then show ?thesis using True by (simp add: verify_password_def accepts rbind_eq_Inr del: cps_Cons)
  next
    case False
    have "(\<exists>salt digest. parse_legacy_hash stored = Inr (salt, digest) \<and> length salt = 16 \<and> length digest = 32 \<and> k_pbkdf2 k x salt = digest)
        \<longleftrightarrow> (\<exists>salt digest. parse_legacy_hash stored = Inr (salt, digest) \<and> k_pbkdf2 k x salt = digest)" for x
      using legacy_lengths by blast
    then show ?thesis using False by (simp add: verify_password_def accepts rbind_eq_Inr del: cps_Cons)
  qed
  ultimately show ?thesis by blast
qed

text \<open>The same derivation, which outside the policy fails.\<close>

theorem verify_password_sound_witness:
  "\<exists>stored. hash_password demo_kdf (replicate 16 7) (cps ''secret'') = Inr stored
     \<and> verify_password (demo_kdf\<lparr>k_scrypt := (\<lambda>n r p pw salt. if scrypt_policy n r p salt then Inr (replicate 32 0) else Inl ValueError)\<rparr>) (cps ''secret'') stored
       = Inr True"
proof -
  let ?k = "demo_kdf\<lparr>k_scrypt := (\<lambda>n r p pw salt. if scrypt_policy n r p salt then Inr (replicate 32 0) else Inl ValueError)\<rparr>"
  obtain stored where h: "hash_password demo_kdf (replicate 16 7) (cps ''secret'') = Inr stored"
  proof -
    have "\<exists>stored. hash_password demo_kdf (replicate 16 7) (cps ''secret'') = Inr stored"
      by (simp add: hash_password_def password_bytes_def broker_consts utf8_strict_def is_surrogate_def
          argon2id_available_def argon2id_def demo_kdf_def utf8_cp_def)
    then show ?thesis using that by blast
  qed
  obtain e digest where x: "password_bytes False (cps ''secret'') = Inr e"
    "derive demo_kdf (current_parameters demo_kdf (replicate 16 7) digest) e = Inr digest"
    "parse_current_hash stored = Inr (current_parameters demo_kdf (replicate 16 7) digest)" "starts_with (cps ''t1auth$'') stored"
    using hash_password_parses [OF demo_kdf_ok demo_salt_ok h] .
  have "same_in_policy demo_kdf ?k" by (simp add: same_in_policy_def argon2id_def demo_kdf_def)
  moreover have "verify_password demo_kdf (cps ''secret'') stored = Inr True"
    using verify_password_sound [of demo_kdf "cps ''secret''" stored ?k] x(2-) password_bytes_short [OF x(1)]
      parsed_within_policy [OF x(3)] by (auto simp del: cps_Cons)
  ultimately show ?thesis using verify_password_sound [of demo_kdf "cps ''secret''" stored ?k] h by (metis (lifting))
qed

text \<open>The length limit in bytes never rejects a password the limit in characters accepts: no
  password of at most 32 characters is longer than 128 bytes, so a password is refused only for a
  null character, its number of characters, or a surrogate.\<close>

theorem password_bytes_accepts:
  "(\<exists>e. password_bytes short pw = Inr e) \<longleftrightarrow>
     0 \<notin> set pw \<and> length pw \<le> 32 \<and> (short \<or> 4 \<le> length pw) \<and> \<not> list_ex is_surrogate pw"
proof -
  have "length e \<le> 128" if "utf8_strict pw = Inr e" "length pw \<le> 32" for e
    using utf8_strict_length [OF that(1)] that(2) by linarith
  then show ?thesis
    by (fastforce simp: password_bytes_def broker_consts rbind_eq_Inr utf8_strict_def split: if_splits)
qed

end
