(* ===== verification/Broker_Store.thy ===== *)
theory Broker_Store
  imports Broker_Atomic Broker_Codec Utf8_Decoder
begin

unbundle bit_operations_syntax

text \<open>
  What the broker keeps on disk (\<open>broker.py\<close>): service secrets, the credential file of the
  active account, the private home tree, and the operations that provision, change and remove
  the account.  A file is named by the components of its directory and its own name.
\<close>

section \<open>Service secrets\<close>

definition MAX_SERVICE_SECRET_BYTES :: nat where [broker_consts]: "MAX_SERVICE_SECRET_BYTES = 4096"
definition MAX_CREDENTIAL_BYTES :: nat where [broker_consts]: "MAX_CREDENTIAL_BYTES = 4096"

definition service_char :: "cp \<Rightarrow> bool" where
  "service_char c \<longleftrightarrow> (97 \<le> c \<and> c \<le> 122) \<or> is_digit c \<or> c = 46 \<or> c = 45"

definition service_secret_name :: "pystr \<Rightarrow> pystr res" where
  "service_secret_name service =
     (if service \<noteq> [] \<and> 97 \<le> hd service \<and> hd service \<le> 122 \<and> length service \<le> 64
         \<and> list_all service_char (tl service)
      then Inr (service @ cps ''.secret'') else Inl ValueError)"

text \<open>A secret is given as text, which is encoded, or as bytes.\<close>

definition secret_data :: "pystr + bytes \<Rightarrow> bytes res" where
  "secret_data secret = (case secret of Inl text \<Rightarrow> utf8_strict text | Inr data \<Rightarrow> Inr data)"

definition value_guard :: "bool \<Rightarrow> unit io" where
  "value_guard b = (if b then ret () else raise ValueError)"

definition store_service_secret :: "path \<Rightarrow> pystr \<Rightarrow> pystr + bytes \<Rightarrow> unit io" where
  "store_service_secret directory service secret =
     andthen (lift_res (service_secret_name service)) (\<lambda>name.
     andthen (lift_res (secret_data secret)) (\<lambda>data.
     andthen (value_guard (1 \<le> length data \<and> length data \<le> MAX_SERVICE_SECRET_BYTES \<and> 0 \<notin> set data)) (\<lambda>_.
     andthen (open_secure_directory True (Some 448) False directory) (\<lambda>d.
       finally_do (atomic_write_at d name data 384) sys_close))))"

definition load_service_secret :: "path \<Rightarrow> pystr \<Rightarrow> bytes io" where
  "load_service_secret directory service =
     andthen (lift_res (service_secret_name service)) (\<lambda>name.
     andthen (open_secure_directory False None False directory) (\<lambda>d.
     andthen (finally_do (read_regular_at d name MAX_SERVICE_SECRET_BYTES) sys_close) (\<lambda>(secret, metadata).
     andthen (guard_io (n_mode metadata AND 63 = 0 \<and> secret \<noteq> [] \<and> 0 \<notin> set secret)) (\<lambda>_. ret secret))))"

definition delete_service_secret :: "path \<Rightarrow> pystr \<Rightarrow> unit io" where
  "delete_service_secret directory service =
     andthen (lift_res (service_secret_name service)) (\<lambda>name.
     andthen (open_secure_directory False None False directory) (\<lambda>d.
       finally_do (andthen (sys_unlink d name) (\<lambda>_. sys_fsync d)) sys_close))"

section \<open>Credentials\<close>

definition parse_credentials :: "(pystr \<Rightarrow> pystr) \<Rightarrow> bytes \<Rightarrow> (pystr \<times> pystr) res" where
  "parse_credentials nfkc data =
     rbind (utf8_decode_strict data) (\<lambda>text.
       if text = [] then Inl IndexError
       else let first = takeWhile (\<lambda>c. \<not> is_linebreak c) text in
         if 58 \<notin> set first then Inl ValueError
         else rbind (canonicalize_username nfkc (fst (partition_on 58 first))) (\<lambda>username.
           Inr (username, snd (partition_on 58 first))))"

definition atomic_write_credentials :: "(pystr \<Rightarrow> pystr) \<Rightarrow> path \<Rightarrow> pystr \<Rightarrow> pystr \<Rightarrow> pystr \<Rightarrow> unit io" where
  "atomic_write_credentials nfkc parent name user stored =
     andthen (lift_res (canonicalize_username nfkc user)) (\<lambda>username.
     andthen (value_guard (validate_stored_hash stored)) (\<lambda>_.
     andthen (open_secure_directory True (Some 448) False parent) (\<lambda>d.
       finally_do
         (andthen (lift_res (utf8_strict (username @ [58] @ stored @ [10]))) (\<lambda>payload.
            atomic_write_at d name payload 384))
         sys_close)))"

definition read_credentials :: "(pystr \<Rightarrow> pystr) \<Rightarrow> path \<Rightarrow> pystr \<Rightarrow> (pystr \<times> pystr) io" where
  "read_credentials nfkc parent name =
     andthen (open_secure_directory False None False parent) (\<lambda>d.
     andthen (finally_do (read_regular_at d name MAX_CREDENTIAL_BYTES) sys_close) (\<lambda>(data, _).
       (case parse_credentials nfkc data of
          Inl _ \<Rightarrow> raise AuthenticationError
        | Inr (username, stored) \<Rightarrow>
            if validate_stored_hash stored then ret (username, stored) else raise AuthenticationError)))"

section \<open>The home tree\<close>

definition sys_dup :: "path \<Rightarrow> path io" where
  "sys_dup p = andthen (syscall (\<lambda>e fs. Inr p)) (\<lambda>d. andthen opened (\<lambda>_. ret d))"

definition set_owner :: "(nat \<times> nat) option \<Rightarrow> path \<Rightarrow> nat \<Rightarrow> unit io" where
  "set_owner owner d mode = (case owner of None \<Rightarrow> ret ()
     | Some (uid, gid) \<Rightarrow> andthen (sys_fchown d uid gid) (\<lambda>_. sys_fchmod d mode))"

fun tree_walk :: "nat \<Rightarrow> (nat \<times> nat) option \<Rightarrow> path \<Rightarrow> pystr list \<Rightarrow> unit io" where
  "tree_walk mode owner d [] = ret ()"
| "tree_walk mode owner d (c # cs) =
     andthen (open_child_directory d c True mode) (\<lambda>child.
     andthen sys_close (\<lambda>_.
     andthen (set_owner owner child mode) (\<lambda>_. tree_walk mode owner child cs)))"

definition ensure_tree_at :: "path \<Rightarrow> pystr list \<Rightarrow> nat \<Rightarrow> (nat \<times> nat) option \<Rightarrow> unit io" where
  "ensure_tree_at base parts mode owner =
     andthen (sys_dup base) (\<lambda>d. finally_do (tree_walk mode owner d parts) sys_close)"

definition home_parts :: "pystr list list" where
  "home_parts =
     [[cps ''flash'', cps ''books''], [cps ''flash'', cps ''music''], [cps ''flash'', cps ''images''],
      [cps ''flash'', cps ''downloads''], [cps ''flash'', cps ''videos''], [cps ''expanse''],
      [cps ''reference'', cps ''identity'']]"

text \<open>The owner is given by both numbers or by none; a number below 1 is refused.\<close>

definition owner_of :: "int option \<Rightarrow> int option \<Rightarrow> ((nat \<times> nat) option) res" where
  "owner_of uid gid = (case (uid, gid) of
     (None, None) \<Rightarrow> Inr None
   | (Some u, Some g) \<Rightarrow> if u < 1 \<or> g < 1 then Inl ValueError else Inr (Some (nat u, nat g))
   | _ \<Rightarrow> Inl ValueError)"

definition ensure_user_tree ::
  "(pystr \<Rightarrow> pystr) \<Rightarrow> path \<Rightarrow> pystr \<Rightarrow> int option \<Rightarrow> int option \<Rightarrow> pystr io" where
  "ensure_user_tree nfkc home_base user uid gid =
     andthen (lift_res (owner_of uid gid)) (\<lambda>owner.
     andthen (lift_res (canonicalize_username nfkc user)) (\<lambda>username.
     andthen (open_secure_directory True (Some 493) False home_base) (\<lambda>base.
     andthen (finally_do
       (andthen (open_child_directory base username True 448) (\<lambda>home.
          finally_do
            (andthen (set_owner owner home 448) (\<lambda>_.
               foreach home_parts (\<lambda>relative. ensure_tree_at home relative 448 owner)))
            sys_close))
       sys_close) (\<lambda>_. ret username))))"

section \<open>Accounts\<close>

definition hash_password_io :: "kdf \<Rightarrow> pystr \<Rightarrow> pystr io" where
  "hash_password_io k password =
     andthen (lift_res (password_bytes False password)) (\<lambda>_.
     andthen (sys_urandom ARGON2_SALT_BYTES) (\<lambda>salt. lift_res (hash_password k salt password)))"

definition credential_dir :: "path \<Rightarrow> path" where
  "credential_dir sysroot = sysroot @ [cps ''the one'', cps ''master'']"

definition credential_name :: pystr where
  "credential_name = cps ''master.txt''"

definition home_dir :: "path \<Rightarrow> path" where
  "home_dir sysroot = sysroot @ [cps ''master'']"

definition check_root :: "path \<Rightarrow> unit io" where
  "check_root sysroot = andthen (open_secure_directory False None False sysroot) (\<lambda>_. sys_close)"

definition provision_user ::
  "kdf \<Rightarrow> (pystr \<Rightarrow> pystr) \<Rightarrow> path \<Rightarrow> pystr \<Rightarrow> pystr \<Rightarrow> int option \<Rightarrow> int option \<Rightarrow> pystr io" where
  "provision_user k nfkc sysroot user password uid gid =
     andthen (check_root sysroot) (\<lambda>_.
     andthen (lift_res (canonicalize_username nfkc user)) (\<lambda>username.
     andthen (hash_password_io k password) (\<lambda>stored.
     andthen (ensure_user_tree nfkc (home_dir sysroot) username uid gid) (\<lambda>_.
     andthen (atomic_write_credentials nfkc (credential_dir sysroot) credential_name username stored) (\<lambda>_.
       ret username)))))"

definition require_password :: "kdf \<Rightarrow> pystr \<Rightarrow> pystr \<Rightarrow> unit io" where
  "require_password k password stored =
     andthen (lift_res (verify_password k password stored)) (\<lambda>ok. guard_io ok)"

text \<open>The old home must be a directory and the new name free before the rename.\<close>

definition check_home :: "path \<Rightarrow> pystr \<Rightarrow> unit io" where
  "check_home base name =
     andthen (open_child_directory base name False 448) (\<lambda>home.
       finally_do (andthen (sys_fstat home) (\<lambda>n. guard_io (n_kind n = Directory))) sys_close)"

definition move_home :: "path \<Rightarrow> pystr \<Rightarrow> pystr \<Rightarrow> unit io" where
  "move_home home_base old new =
     andthen (open_secure_directory False None False home_base) (\<lambda>base.
       finally_do
         (andthen (check_home base old) (\<lambda>_.
          andthen (sys_lexists base new) (\<lambda>exists_already.
          andthen (guard_io (\<not> exists_already)) (\<lambda>_.
          andthen (sys_rename base old new) (\<lambda>_. sys_fsync base)))))
         sys_close)"

definition move_back :: "path \<Rightarrow> pystr \<Rightarrow> pystr \<Rightarrow> unit io" where
  "move_back home_base new old =
     andthen (open_secure_directory False None False home_base) (\<lambda>base.
       finally_do (andthen (sys_rename base new old) (\<lambda>_. sys_fsync base)) sys_close)"

record account_change =
  ac_old_username :: pystr
  ac_username :: pystr
  ac_password_changed :: bool

definition change_user ::
  "kdf \<Rightarrow> (pystr \<Rightarrow> pystr) \<Rightarrow> path \<Rightarrow> pystr \<Rightarrow> pystr \<Rightarrow> pystr \<Rightarrow> account_change io" where
  "change_user k nfkc sysroot current_password user new_password =
     andthen (check_root sysroot) (\<lambda>_.
     andthen (read_credentials nfkc (credential_dir sysroot) credential_name) (\<lambda>(old_username, old_hash).
     andthen (require_password k current_password old_hash) (\<lambda>_.
     andthen (lift_res (canonicalize_username nfkc user)) (\<lambda>username.
     andthen (if new_password \<noteq> [] then hash_password_io k new_password else ret old_hash) (\<lambda>replacement.
     andthen (if username \<noteq> old_username then move_home (home_dir sysroot) old_username username else ret ()) (\<lambda>_.
     andthen (except_do
        (atomic_write_credentials nfkc (credential_dir sysroot) credential_name username replacement)
        any_error
        (\<lambda>err. andthen (if username \<noteq> old_username then move_back (home_dir sysroot) username old_username else ret ())
                 (\<lambda>_. raise err))) (\<lambda>_.
       ret \<lparr>ac_old_username = old_username, ac_username = username, ac_password_changed = (new_password \<noteq> [])\<rparr>)))))))"

text \<open>\<open>shutil.rmtree\<close>: removes the tree, or fails and leaves it.\<close>

definition sys_rmtree :: "path \<Rightarrow> unit io" where
  "sys_rmtree p = change (\<lambda>e fs. Inr (remove_tree p fs))"

definition unlink_credentials :: "path \<Rightarrow> path \<Rightarrow> pystr \<Rightarrow> pystr \<Rightarrow> unit io" where
  "unlink_credentials sysroot base quarantine active =
     andthen (open_secure_directory False None False (credential_dir sysroot)) (\<lambda>credentials.
       finally_do
         (except_do
            (andthen (sys_unlink credentials credential_name) (\<lambda>_. sys_fsync credentials))
            any_error
            (\<lambda>err. andthen (sys_rename base quarantine active) (\<lambda>_.
                    andthen (sys_fsync base) (\<lambda>_. raise err))))
         sys_close)"

definition remove_user :: "kdf \<Rightarrow> (pystr \<Rightarrow> pystr) \<Rightarrow> path \<Rightarrow> pystr \<Rightarrow> pystr \<Rightarrow> pystr io" where
  "remove_user k nfkc sysroot current_password user =
     andthen (check_root sysroot) (\<lambda>_.
     andthen (read_credentials nfkc (credential_dir sysroot) credential_name) (\<lambda>(active, stored).
     andthen (lift_res (canonicalize_username nfkc user)) (\<lambda>username.
     andthen (guard_io (username = active)) (\<lambda>_.
     andthen (require_password k current_password stored) (\<lambda>_.
     andthen (sys_urandom 12) (\<lambda>token.
     (let quarantine = cps ''.removed-'' @ hex_of token in
     andthen (open_secure_directory False None False (home_dir sysroot)) (\<lambda>base.
     andthen (finally_do
       (andthen (check_home base active) (\<lambda>_.
        andthen (sys_rename base active quarantine) (\<lambda>_.
        andthen (sys_fsync base) (\<lambda>_. unlink_credentials sysroot base quarantine active))))
       sys_close) (\<lambda>_.
     andthen (except_do (sys_rmtree (home_dir sysroot @ [quarantine])) any_error
        (\<lambda>_. raise AuthenticationError)) (\<lambda>_. ret active))))))))))"

end
