(* ===== verification/T1_Json.thy ===== *)
theory T1_Json
  imports Complex_Main T1_Prelude "HOL-Library.Finite_Map"
begin

text \<open>
  JSON values as Python has them after \<open>json.loads\<close>, with an object as a finite map, the
  conversions \<open>float\<close> and \<open>int\<close>, and the parameter \<open>codec\<close> for the library code behind them.
\<close>

section \<open>JSON\<close>

datatype json =
    JNull | JBool bool | JInt int | JFloat rat | JStr pystr | JList "json list"
  | JObj "(pystr, json) fmap"

record codec =
  c_loads :: "pystr \<Rightarrow> json option"
  c_dumps :: "json \<Rightarrow> pystr"
  c_text_float :: "pystr \<Rightarrow> rat option"
  c_text_int :: "pystr \<Rightarrow> int option"
  c_sha256 :: "bytes \<Rightarrow> pystr"

definition py_float :: "codec \<Rightarrow> json \<Rightarrow> rat res" where
  "py_float c v = (case v of
     JBool b \<Rightarrow> Inr (if b then 1 else 0) | JInt i \<Rightarrow> Inr (of_int i) | JFloat x \<Rightarrow> Inr x
   | JStr s \<Rightarrow> (case c_text_float c s of None \<Rightarrow> Inl ValueError | Some x \<Rightarrow> Inr x)
   | _ \<Rightarrow> Inl TypeError)"

definition truncate_rat :: "rat \<Rightarrow> int" where
  "truncate_rat x = (if 0 \<le> x then floor x else ceiling x)"

definition py_int :: "codec \<Rightarrow> json \<Rightarrow> int res" where
  "py_int c v = (case v of
     JBool b \<Rightarrow> Inr (if b then 1 else 0) | JInt i \<Rightarrow> Inr i | JFloat x \<Rightarrow> Inr (truncate_rat x)
   | JStr s \<Rightarrow> (case c_text_int c s of None \<Rightarrow> Inl ValueError | Some i \<Rightarrow> Inr i)
   | _ \<Rightarrow> Inl TypeError)"

text \<open>\<open>v.get(key, default)\<close>: only an object has the method.\<close>

definition py_get :: "json \<Rightarrow> pystr \<Rightarrow> json \<Rightarrow> json res" where
  "py_get v key dflt = (case v of
     JObj m \<Rightarrow> Inr (case fmlookup m key of None \<Rightarrow> dflt | Some x \<Rightarrow> x) | _ \<Rightarrow> Inl AttributeError)"

end
