(* ===== verification/Broker_Auth.thy ===== *)
theory Broker_Auth
  imports Broker_Store T1_Json
begin

unbundle bit_operations_syntax

text \<open>
  Throttling and authorization (\<open>broker.py\<close>): the persistent exponential backoff
  \<open>AttemptLimiter\<close>, \<open>authenticate_master\<close>, and the recovery authorizations.  The limiter
  state is a JSON value; reading and printing JSON, the conversion of text by \<open>float\<close> and
  \<open>int\<close>, and SHA-256 are the parameter \<open>codec\<close>.  Times are rationals: the sums and
  differences the code forms of a clock value with a delay of at most 30 seconds are taken as
  exact.
\<close>

section \<open>The limiter state\<close>

definition equals_one :: "json \<Rightarrow> bool" where
  "equals_one v \<longleftrightarrow> v = JInt 1 \<or> v = JFloat 1 \<or> v = JBool True"

definition empty_state :: "(pystr, json) fmap" where
  "empty_state = fmap_of_list [(cps ''version'', JInt 1), (cps ''entries'', JObj fmempty)]"

definition limiter_key :: "codec \<Rightarrow> pystr \<Rightarrow> pystr \<Rightarrow> pystr res" where
  "limiter_key c who scope =
     rbind (utf8_strict (scope @ [0] @ who)) (\<lambda>data. Inr (c_sha256 c data))"

text \<open>The checks of \<open>_load\<close>: the state and its entries.\<close>

definition check_state :: "json \<Rightarrow> ((pystr, json) fmap \<times> (pystr, json) fmap) option" where
  "check_state v = (case v of
     JObj st \<Rightarrow>
       (if \<not> (case fmlookup st (cps ''version'') of Some x \<Rightarrow> equals_one x | None \<Rightarrow> False) then None
        else case fmlookup st (cps ''entries'') of
            Some (JObj es) \<Rightarrow> if fcard (fmdom es) > 64 then None else Some (st, es)
          | _ \<Rightarrow> None)
   | _ \<Rightarrow> None)"

definition limiter_load :: "codec \<Rightarrow> path \<Rightarrow> pystr \<Rightarrow> ((pystr, json) fmap \<times> (pystr, json) fmap) io" where
  "limiter_load c d name e w =
     (case read_regular_at d name 32768 e w of
        (Inl FileNotFoundError, w1) \<Rightarrow> (Inr (empty_state, fmempty), w1)
      | (Inl err, w1) \<Rightarrow> (Inl err, w1)
      | (Inr (raw, metadata), w1) \<Rightarrow>
          (if n_mode metadata AND 63 \<noteq> 0 then Inl AuthenticationError
           else case utf8_decode_strict raw of
               Inl _ \<Rightarrow> Inl AuthenticationError
             | Inr text \<Rightarrow> (case c_loads c text of
                 None \<Rightarrow> Inl AuthenticationError
               | Some v \<Rightarrow> (case check_state v of None \<Rightarrow> Inl AuthenticationError | Some s \<Rightarrow> Inr s)), w1))"

definition with_entries :: "(pystr, json) fmap \<Rightarrow> (pystr, json) fmap \<Rightarrow> json" where
  "with_entries st es = JObj (fmupd (cps ''entries'') (JObj es) st)"

definition limiter_write :: "codec \<Rightarrow> path \<Rightarrow> pystr \<Rightarrow> json \<Rightarrow> unit io" where
  "limiter_write c d name state = atomic_write_at d name (c_dumps c state @ [10]) 384"

section \<open>One attempt\<close>

text \<open>Reading an entry: a missing or foreign number is an \<open>AuthenticationError\<close>, an entry that is
  no object an \<open>AttributeError\<close>.\<close>

definition read_entry :: "codec \<Rightarrow> json \<Rightarrow> (rat \<times> int) res" where
  "read_entry c entry =
     (case rbind (py_get entry (cps ''blocked_until'') (JFloat 0)) (\<lambda>b.
           rbind (py_float c b) (\<lambda>blocked_until.
           rbind (py_get entry (cps ''failures'') (JInt 0)) (\<lambda>f.
           rbind (py_int c f) (\<lambda>failures. Inr (blocked_until, failures))))) of
        Inl err \<Rightarrow> Inl (if err = AttributeError then err else AuthenticationError)
      | Inr x \<Rightarrow> Inr x)"

definition entry_age :: "codec \<Rightarrow> rat \<Rightarrow> json \<Rightarrow> rat res" where
  "entry_age c now v =
     rbind (py_get v (cps ''last'') (JFloat now)) (\<lambda>l. rbind (py_float c l) (\<lambda>x. Inr (now - x)))"

definition new_entry :: "int \<Rightarrow> rat \<Rightarrow> rat \<Rightarrow> json" where
  "new_entry failures delay now = JObj (fmap_of_list [(cps ''failures'', JInt failures),
     (cps ''blocked_until'', JFloat (now + delay)), (cps ''last'', JFloat now)])"

text \<open>Old entries are dropped; one that cannot be read is an error.\<close>

definition drop_old :: "codec \<Rightarrow> rat \<Rightarrow> (pystr, json) fmap \<Rightarrow> ((pystr, json) fmap) res" where
  "drop_old c now es =
     (if \<not> fmpred (\<lambda>_ v. is_ok (entry_age c now v)) es then Inl AuthenticationError
      else Inr (fmfilter (\<lambda>k. case fmlookup es k of None \<Rightarrow> True
             | Some v \<Rightarrow> (case entry_age c now v of Inr a \<Rightarrow> a \<le> 86400 | Inl _ \<Rightarrow> True)) es))"

text \<open>The decision of \<open>reserve\<close> on the entries: refused with the time left, or the new entries
  and the delay that follows a failure.\<close>

definition reserve_decide ::
  "codec \<Rightarrow> pystr \<Rightarrow> rat \<Rightarrow> (pystr, json) fmap \<Rightarrow> ((rat + (pystr, json) fmap \<times> rat)) res" where
  "reserve_decide c key now es =
     rbind (read_entry c (case fmlookup es key of None \<Rightarrow> JObj fmempty | Some v \<Rightarrow> v)) (\<lambda>(blocked_until, failures0).
       if blocked_until > now then Inr (Inl (min (blocked_until - now) 30))
       else
         (let failures = min (max failures0 0 + 1) 10;
              delay = min (2 ^ nat (failures - 1)) 30
          in rbind (drop_old c now (fmupd key (new_entry failures delay now) es)) (\<lambda>es1.
               Inr (Inr (es1, delay)))))"

text \<open>\<open>os.open\<close> with \<open>O_RDWR | O_CREAT\<close> for the lock file.\<close>

definition sys_open_create :: "path \<Rightarrow> pystr \<Rightarrow> nat \<Rightarrow> path io" where
  "sys_open_create d name mode =
     andthen (change (\<lambda>e fs. (case fs (d @ [name]) of
         None \<Rightarrow> Inr (fs(d @ [name] \<mapsto> new_node e (Regular []) mode))
       | Some n \<Rightarrow> if n_kind n = Directory \<or> n_kind n = Symlink then Inl OSError else Inr fs)))
     (\<lambda>_. andthen opened (\<lambda>_. ret (d @ [name])))"

definition sys_flock :: "path \<Rightarrow> unit io" where
  "sys_flock p = syscall (\<lambda>e fs. Inr ())"

definition lock_name :: "pystr \<Rightarrow> pystr" where
  "lock_name name = [46] @ name @ cps ''.lock''"

definition locked :: "path \<Rightarrow> pystr \<Rightarrow> (path \<Rightarrow> 'a io) \<Rightarrow> 'a io" where
  "locked parent name body =
     andthen (open_secure_directory True (Some 448) False parent) (\<lambda>d.
     andthen (sys_open_create d (lock_name name) 384) (\<lambda>l.
     andthen (sys_fchmod l 384) (\<lambda>_.
       finally_do
         (andthen (sys_flock l) (\<lambda>_. body d))
         (andthen (sys_flock l) (\<lambda>_. andthen sys_close (\<lambda>_. sys_close))))))"

definition reserve :: "codec \<Rightarrow> path \<Rightarrow> pystr \<Rightarrow> pystr \<Rightarrow> pystr \<Rightarrow> rat option \<Rightarrow> (bool \<times> rat) io" where
  "reserve c parent name who scope now0 =
     andthen (case now0 of None \<Rightarrow> sys_time | Some t \<Rightarrow> ret t) (\<lambda>now.
     andthen (lift_res (limiter_key c who scope)) (\<lambda>key.
       locked parent name (\<lambda>d.
         andthen (limiter_load c d name) (\<lambda>(st, es).
         andthen (lift_res (reserve_decide c key now es)) (\<lambda>decision.
           (case decision of
              Inl retry \<Rightarrow> ret (False, retry)
            | Inr (es1, delay) \<Rightarrow>
                andthen (limiter_write c d name (with_entries st es1)) (\<lambda>_. ret (True, delay))))))))"

definition success :: "codec \<Rightarrow> path \<Rightarrow> pystr \<Rightarrow> pystr \<Rightarrow> pystr \<Rightarrow> unit io" where
  "success c parent name who scope =
     andthen (lift_res (limiter_key c who scope)) (\<lambda>key.
       locked parent name (\<lambda>d.
         andthen (limiter_load c d name) (\<lambda>(st, es).
           if fmlookup es key \<noteq> None
           then limiter_write c d name (with_entries st (fmdrop key es)) else ret ())))"

section \<open>Authentication\<close>

datatype auth_error = NoError | RateLimited | InvalidCredential | MigrationFailed | Raised pyerr

record auth_result =
  ar_ok :: bool
  ar_username :: pystr
  ar_retry_after :: rat
  ar_migrated :: bool
  ar_error :: auth_error

definition refused :: "pystr \<Rightarrow> rat \<Rightarrow> auth_error \<Rightarrow> auth_result" where
  "refused user retry err =
     \<lparr>ar_ok = False, ar_username = user, ar_retry_after = retry, ar_migrated = False, ar_error = err\<rparr>"

definition accepted :: "pystr \<Rightarrow> bool \<Rightarrow> auth_error \<Rightarrow> auth_result" where
  "accepted user migrated err =
     \<lparr>ar_ok = True, ar_username = user, ar_retry_after = 0, ar_migrated = migrated, ar_error = err\<rparr>"

definition migrate_hash :: "kdf \<Rightarrow> (pystr \<Rightarrow> pystr) \<Rightarrow> path \<Rightarrow> pystr \<Rightarrow> pystr \<Rightarrow> pystr \<Rightarrow> auth_result io" where
  "migrate_hash k nfkc mdir mname username password =
     except_do
       (andthen (hash_password_io k password) (\<lambda>replacement.
        andthen (atomic_write_credentials nfkc mdir mname username replacement) (\<lambda>_.
          ret (accepted username True NoError))))
       any_error (\<lambda>_. ret (accepted username False MigrationFailed))"

definition authenticate_master ::
  "kdf \<Rightarrow> codec \<Rightarrow> (pystr \<Rightarrow> pystr) \<Rightarrow> path \<Rightarrow> pystr \<Rightarrow> pystr \<Rightarrow> pystr \<Rightarrow> path \<Rightarrow> pystr \<Rightarrow> rat option \<Rightarrow> bool
     \<Rightarrow> auth_result io" where
  "authenticate_master k c nfkc mdir mname password scope rdir rname now migrate =
     except_do
       (andthen (read_credentials nfkc mdir mname) (\<lambda>(username, stored).
        andthen (reserve c rdir rname username scope now) (\<lambda>(allowed, delay).
          if \<not> allowed then ret (refused username delay RateLimited)
          else
            andthen (lift_res (verify_password k password stored)) (\<lambda>ok.
              if \<not> ok then ret (refused username delay InvalidCredential)
              else
                andthen (success c rdir rname username scope) (\<lambda>_.
                  if migrate \<and> password_needs_upgrade k stored
                  then migrate_hash k nfkc mdir mname username password
                  else ret (accepted username False NoError))))))
       any_error (\<lambda>err. ret (refused [] 0 (Raised err)))"

section \<open>Recovery authorizations\<close>

definition RECOVERY_ACTIONS :: "pystr list" where
  "RECOVERY_ACTIONS = [cps ''reset'', cps ''reinstall'']"

definition token_ok :: "pystr \<Rightarrow> bool" where
  "token_ok t \<longleftrightarrow> length t = 43 \<and> list_all (\<lambda>c. is_alnum c \<or> c = 95 \<or> c = 45) t"

definition token_name :: "codec \<Rightarrow> pystr \<Rightarrow> pystr res" where
  "token_name c token = (if token_ok token then Inr (c_sha256 c token) else Inl ValueError)"

definition recovery_directory :: "path \<Rightarrow> path" where
  "recovery_directory mdir = mdir @ [cps ''recovery authorizations'']"

definition record_body :: "pystr \<Rightarrow> pystr \<Rightarrow> nat \<Rightarrow> pystr \<Rightarrow> pystr" where
  "record_body format action expires subject =
     cps ''format='' @ format @ [10] @ cps ''action='' @ action @ [10] @
     cps ''expires='' @ dec_nat expires @ [10] @ cps ''subject='' @ subject @ [10]"

definition value_check :: "bool \<Rightarrow> unit res" where
  "value_check b = guard_res b ValueError"

text \<open>The time is read as a whole number of seconds; the code's clock is not negative.\<close>

definition int_time :: "rat option \<Rightarrow> nat io" where
  "int_time now = andthen (case now of None \<Rightarrow> sys_time | Some t \<Rightarrow> ret t) (\<lambda>t. ret (nat (truncate_rat t)))"

definition issue_recovery_authorization ::
  "kdf \<Rightarrow> codec \<Rightarrow> (pystr \<Rightarrow> pystr) \<Rightarrow> path \<Rightarrow> pystr \<Rightarrow> pystr \<Rightarrow> pystr \<Rightarrow> int \<Rightarrow> path \<Rightarrow> pystr \<Rightarrow> rat option
     \<Rightarrow> (auth_result \<times> pystr) io" where
  "issue_recovery_authorization k c nfkc mdir mname password action ttl rdir rname now0 =
     andthen (lift_res (value_check (action \<in> set RECOVERY_ACTIONS))) (\<lambda>_.
     andthen (authenticate_master k c nfkc mdir mname password (cps ''recovery:'' @ action) rdir rname None True) (\<lambda>result.
       if \<not> ar_ok result then ret (result, [])
       else
         andthen (lift_res (value_check (30 \<le> ttl \<and> ttl \<le> 900))) (\<lambda>_.
         andthen (int_time now0) (\<lambda>now.
         andthen (sys_urandom 32) (\<lambda>random.
         (let token = encode_b64 random in
         andthen (lift_res (token_name c token)) (\<lambda>name.
         andthen (open_secure_directory True (Some 448) False (recovery_directory mdir)) (\<lambda>d.
         andthen (finally_do (atomic_write_at d name
              (record_body [49] action (now + nat ttl) (ar_username result)) 384) sys_close) (\<lambda>_.
           ret (result, token))))))))))"

text \<open>The lines of a record as a table; a line without \<open>=\<close> is a \<open>ValueError\<close>, a repeated key
  is reported as \<open>AuthenticationError\<close>.\<close>

fun record_table :: "pystr list \<Rightarrow> (pystr \<times> pystr) list \<Rightarrow> ((pystr \<times> pystr) list) res" where
  "record_table [] table = Inr table"
| "record_table (l # ls) table =
     (if 61 \<notin> set l then Inl ValueError
      else let (key, v) = partition_on 61 l in
        if key \<in> fst ` set table then Inl AuthenticationError
        else record_table ls (table @ [(key, v)]))"

definition record_keys :: "pystr set" where
  "record_keys = {cps ''format'', cps ''action'', cps ''expires'', cps ''subject''}"

definition entry_of :: "(pystr \<times> pystr) list \<Rightarrow> string \<Rightarrow> pystr" where
  "entry_of table key = (case map_of table (cps key) of Some v \<Rightarrow> v | None \<Rightarrow> [])"

text \<open>The checks on a record and the time: the expiry and the subject.\<close>

definition check_record :: "(pystr \<Rightarrow> pystr) \<Rightarrow> pystr \<Rightarrow> nat \<Rightarrow> bytes \<Rightarrow> (nat \<times> pystr) res" where
  "check_record nfkc action now raw =
     (if \<not> list_all (\<lambda>c. c < 128) raw then Inl ValueError
      else rbind (record_table (splitlines (length raw) raw) []) (\<lambda>table.
        if fst ` set table \<noteq> record_keys then Inl AuthenticationError
        else if entry_of table ''format'' \<noteq> [49] \<or> entry_of table ''action'' \<noteq> action then Inl AuthenticationError
        else rbind (canonicalize_username nfkc (entry_of table ''subject'')) (\<lambda>_.
             rbind (bounded_integer 1 4102444800 (entry_of table ''expires'')) (\<lambda>expires.
               if now < expires \<and> expires \<le> now + 900 then Inr (expires, entry_of table ''subject'')
               else Inl AuthenticationError))))"

definition read_record :: "path \<Rightarrow> pystr \<Rightarrow> (bytes \<times> node) io" where
  "read_record mdir name =
     andthen (open_secure_directory False None False (recovery_directory mdir)) (\<lambda>d.
       finally_do (read_regular_at d name 512) sys_close)"

definition caught_by_validate :: "pyerr \<Rightarrow> bool" where
  "caught_by_validate err \<longleftrightarrow> err \<noteq> AttributeError \<and> err \<noteq> IndexError"

definition validate_recovery_authorization ::
  "codec \<Rightarrow> (pystr \<Rightarrow> pystr) \<Rightarrow> path \<Rightarrow> pystr \<Rightarrow> pystr \<Rightarrow> rat option \<Rightarrow> bool io" where
  "validate_recovery_authorization c nfkc mdir token action now0 =
     except_do
       (if action \<notin> set RECOVERY_ACTIONS then ret False
        else
          andthen (lift_res (token_name c token)) (\<lambda>name.
          andthen (read_record mdir name) (\<lambda>(raw, metadata).
            if n_mode metadata AND 63 \<noteq> 0 then ret False
            else andthen (int_time now0) (\<lambda>now.
                   ret (is_ok (check_record nfkc action now raw))))))
       caught_by_validate (\<lambda>_. ret False)"

definition is_hex_lower :: "cp \<Rightarrow> bool" where
  "is_hex_lower c \<longleftrightarrow> is_digit c \<or> (97 \<le> c \<and> c \<le> 102)"

definition lower_ascii :: "pystr \<Rightarrow> pystr" where
  "lower_ascii s = map (\<lambda>c. if 65 \<le> c \<and> c \<le> 90 then c + 32 else c) s"

definition boot_id_ok :: "pystr \<Rightarrow> bool" where
  "boot_id_ok s \<longleftrightarrow>
     length s = 36
     \<and> list_all (\<lambda>i. if i \<in> {8, 13, 18, 23} then s ! i = 45 else is_hex_lower (s ! i)) [0..<36]
     \<and> 49 \<le> s ! 14 \<and> s ! 14 \<le> 53 \<and> s ! 19 \<in> {56, 57, 97, 98}"

text \<open>The boot identity is lowered by the caller's \<open>str.lower\<close>; on the identities that pass
  the test this is \<open>lower_ascii\<close>.\<close>

definition recovery_authorization_digest ::
  "codec \<Rightarrow> (pystr \<Rightarrow> pystr) \<Rightarrow> path \<Rightarrow> pystr \<Rightarrow> pystr \<Rightarrow> rat option \<Rightarrow> pystr option \<Rightarrow> pystr io" where
  "recovery_authorization_digest c nfkc mdir token action now0 origin =
     andthen (validate_recovery_authorization c nfkc mdir token action now0) (\<lambda>ok.
     andthen (guard_io ok) (\<lambda>_.
     andthen (lift_res (token_name c token)) (\<lambda>digest.
       (case origin of
          None \<Rightarrow> ret digest
        | Some boot0 \<Rightarrow>
            (let boot = lower_ascii (strip boot0) in
             andthen (lift_res (value_check (boot_id_ok boot))) (\<lambda>_.
             andthen (open_secure_directory False None False (recovery_directory mdir)) (\<lambda>d.
             andthen (finally_do
               (andthen (read_regular_at d digest 512) (\<lambda>(raw, metadata).
                andthen (guard_io (n_mode metadata AND 63 = 0)) (\<lambda>_.
                andthen (int_time now0) (\<lambda>now.
                andthen (lift_res (check_record nfkc action now raw)) (\<lambda>(expires, subject).
                  atomic_write_at d digest
                    (record_body [50] action expires subject @ cps ''origin_boot_id='' @ boot @ [10]) 384)))))
               sys_close) (\<lambda>_. ret digest))))))))"

section \<open>Passwords on standard input\<close>

definition ends_with :: "pystr \<Rightarrow> pystr \<Rightarrow> bool" where
  "ends_with suffix s \<longleftrightarrow> length suffix \<le> length s \<and> drop (length s - length suffix) s = suffix"

definition read_password_stdin :: "pystr \<Rightarrow> pystr res" where
  "read_password_stdin input =
     (let v0 = take (MAX_PASSWORD_CHARS + 3) input;
          v = (if ends_with [13, 10] v0 then take (length v0 - 2) v0
               else if ends_with [10] v0 then butlast v0 else v0)
      in if 10 \<in> set v \<or> 13 \<in> set v then Inl ValueError else Inr v)"

fun replace_crlf :: "pystr \<Rightarrow> pystr" where
  "replace_crlf (a # b # r) = (if a = 13 \<and> b = 10 then 10 # replace_crlf r else a # replace_crlf (b # r))"
| "replace_crlf s = s"

definition read_password_lines :: "nat \<Rightarrow> pystr \<Rightarrow> (pystr list) res" where
  "read_password_lines count input =
     (if count < 1 \<or> 2 < count then Inl ValueError
      else let v0 = replace_crlf (take ((MAX_PASSWORD_CHARS + 3) * count) input);
               v = (if ends_with [10] v0 then butlast v0 else v0);
               lines = split_on 10 v
           in if length lines \<noteq> count \<or> list_ex (\<lambda>l. 13 \<in> set l) lines then Inl ValueError else Inr lines)"

end
