(* ===== verification/Broker_Props.thy ===== *)
theory Broker_Props
  imports Broker_Auth
begin

unbundle bit_operations_syntax

text \<open>
  What the broker guarantees about the files it keeps: crash safety, descriptor balance, real
  directories only, round trips of credentials and secrets, and refusals that change nothing.
\<close>

section \<open>Opening directories\<close>

lemma check_final_Inr:
  assumes "check_final create fm rep cs (d, fc) e w = (Inr d', w')"
  shows "d' = d \<and> (\<forall>q. is_dir (w_fs w) q \<longrightarrow> is_dir (w_fs w') q)
    \<and> (\<forall>mode. create \<longrightarrow> cs \<noteq> [] \<longrightarrow> fm = Some mode \<longrightarrow> (\<exists>n. w_fs w' d = Some n \<and> dir_metadata_ok mode e n))"
proof (cases "create \<and> cs \<noteq> [] \<and> fm \<noteq> None")
  case False
  then show ?thesis using assms by (auto simp: check_final_def split: option.splits)
next
  case True
  then obtain mode where fm: "fm = Some mode" by blast
  from assms True fm obtain u w1 n w2 where
    m: "(if fc \<or> rep then sys_fchmod d mode else ret ()) e w = (Inr u, w1)"
    and s: "sys_fstat d e w1 = (Inr n, w2)" and g: "dir_metadata_ok mode e n" "d' = d" "w' = w2"
    by (auto simp: check_final_def andthen_Inr)
  have fs: "w_fs w2 = w_fs w1" "w_fs w1 d = Some n"
    using s by (auto simp: sys_fstat_def syscall_Inr split: option.splits)
  have "\<forall>q. is_dir (w_fs w) q \<longrightarrow> is_dir (w_fs w1) q"
    using m by (cases "fc \<or> rep") (auto dest!: sys_fchmod_Inr simp: is_dir_def)
  then show ?thesis using fs g fm by auto
qed

lemma open_directory_Inr:
  assumes "open_secure_directory create fm rep cs e w = (Inr d, w')"
  shows "d = cs \<and> (\<forall>k \<le> length cs. is_dir (w_fs w') (take k cs))
    \<and> (\<forall>mode. create \<longrightarrow> cs \<noteq> [] \<longrightarrow> fm = Some mode \<longrightarrow> (\<exists>n. w_fs w' cs = Some n \<and> dir_metadata_ok mode e n))"
proof -
  from assms obtain w1 d1 fc w2 where
    o: "sys_opendir [] e w = (Inr [], w1)" and s: "secure_walk create fm [] cs False e w1 = (Inr (d1, fc), w2)"
    and c: "check_final create fm rep cs (d1, fc) e w2 = (Inr d, w')"
    by (auto simp: open_secure_directory_def andthen_Inr except_do_def any_error_def andthen_def raise_def
        dest: sys_opendir_Inr split: prod.splits sum.splits)
  from secure_walk_Inr [OF s] have d1: "d1 = cs"
    "\<forall>k. 1 \<le> k \<longrightarrow> k \<le> length cs \<longrightarrow> is_dir (w_fs w2) (take k cs)" by auto
  have "is_dir (w_fs w1) []" using sys_opendir_Inr [OF o] by simp
  moreover have "grows w1 w2" using keepsD [OF secure_walk_grows s] .
  ultimately have "is_dir (w_fs w2) []" by (auto simp: is_dir_def grows_def)
  then have "\<forall>k \<le> length cs. is_dir (w_fs w2) (take k cs)"
    using d1(2) by (metis le_numeral_extra(3) not_less_eq_eq One_nat_def take0 not0_implies_Suc le0)
  then show ?thesis using check_final_Inr [OF c] d1(1) by auto
qed

lemma open_directory_fair:
  assumes "fair e" "list_all safe_component cs" "\<forall>k \<le> length cs. is_dir (w_fs w) (take k cs)"
    and "create \<Longrightarrow> \<exists>n. w_fs w cs = Some n \<and> dir_metadata_ok (the fm) e n" and "create \<Longrightarrow> fm \<noteq> None" "\<not> rep"
  shows "\<exists>w'. open_secure_directory create fm rep cs e w = (Inr cs, w') \<and> w_fs w' = w_fs w"
proof -
  have o: "sys_opendir [] e w = (Inr [], (tick w)\<lparr>w_open := w_open w + 1\<rparr>)" (is "_ = (_, ?w1)")
    using assms(1) assms(3) [rule_format, of 0]
    by (auto simp: sys_opendir_def andthen_def fair_syscall look_dir_def is_dir_def opened_def ret_def)
  obtain w2 where s: "secure_walk create fm [] cs False e ?w1 = (Inr (cs, False), w2)" "w_fs w2 = w_fs w"
    using fair_secure_walk [OF assms(1,2), of ?w1 "[]" create fm False] assms(3) by auto
  have "\<exists>w'. check_final create fm rep cs (cs, False) e w2 = (Inr cs, w') \<and> w_fs w' = w_fs w"
  proof (cases "create \<and> cs \<noteq> []")
    case True
    then obtain mode n where "fm = Some mode" "w_fs w cs = Some n" "dir_metadata_ok mode e n"
      using assms(4,5) by auto
    then show ?thesis using True assms(1,6) s(2)
      by (simp add: check_final_def andthen_def sys_fstat_def fair_syscall guard_run ret_def)
  next
    case False
    then show ?thesis using s(2) by (auto simp: check_final_def ret_def split: option.split)
  qed
  then show ?thesis using o s(1)
    by (auto simp: open_secure_directory_def andthen_def except_do_def)
qed

section \<open>Properties of file access\<close>

text \<open>C2. An atomic write is all or nothing at every moment.  Whatever call fails and whenever the
  machine stops, in every file tree that exists during the write, and in the one it leaves, the
  name holds what it held before or a regular file with exactly the new data and the requested
  mode; and when the write returns normally, it holds the new data.\<close>

theorem atomic_write_crash_safe:
  assumes "atomic_write_at d name data mode e w = (r, w')"
    and "n = \<lparr>n_kind = Regular data, n_mode = mode, n_uid = e_uid e, n_gid = e_gid e\<rparr>"
  shows "(\<exists>steps. w_past w' = steps @ w_past w \<and>
      list_all (\<lambda>fs. fs (d @ [name]) = w_fs w (d @ [name]) \<or> fs (d @ [name]) = Some n) steps)
    \<and> (w_fs w' (d @ [name]) = w_fs w (d @ [name]) \<or> w_fs w' (d @ [name]) = Some n)
    \<and> (r = Inr () \<longrightarrow> w_fs w' (d @ [name]) = Some n)"
  using atomic_write_whole [OF assms(1) refl] assms(2) unfolding whole_def by blast

text \<open>An environment whose third call fails, and one without faults, for the examples.\<close>

definition demo_env :: "nat option \<Rightarrow> env" where
  "demo_env fault = \<lparr>e_fault = (\<lambda>n. fault = Some n), e_written = (\<lambda>_. 4096),
     e_random = (\<lambda>_ n. replicate n 7), e_time = (\<lambda>_. 1000), e_masked = (\<lambda>m. m), e_uid = 0, e_gid = 0, e_pid = 9\<rparr>"

definition dir_node :: "nat \<Rightarrow> node" where
  "dir_node mode = \<lparr>n_kind = Directory, n_mode = mode, n_uid = 0, n_gid = 0\<rparr>"

definition demo_world :: world where
  "demo_world = \<lparr>w_fs = [[] \<mapsto> dir_node 493, [cps ''m''] \<mapsto> dir_node 448], w_calls = 0, w_open = 0, w_past = []\<rparr>"

lemma demo_env_fair: "fair (demo_env None)"
  by (simp add: fair_def demo_env_def)

lemma atomic_write_crash_safe_witness:
  "(w_fs (snd (atomic_write_at [cps ''m''] (cps ''f'') [1, 2] 384 (demo_env (Some 3)) demo_world)) ([cps ''m''] @ [cps ''f''])
      = w_fs demo_world ([cps ''m''] @ [cps ''f''])
    \<or> w_fs (snd (atomic_write_at [cps ''m''] (cps ''f'') [1, 2] 384 (demo_env (Some 3)) demo_world)) ([cps ''m''] @ [cps ''f''])
      = Some \<lparr>n_kind = Regular [1, 2], n_mode = 384, n_uid = 0, n_gid = 0\<rparr>)"
  using atomic_write_crash_safe [of "[cps ''m'']" "cps ''f''" "[1, 2]" 384 "demo_env (Some 3)" demo_world
      "fst (atomic_write_at [cps ''m''] (cps ''f'') [1, 2] 384 (demo_env (Some 3)) demo_world)"
      "snd (atomic_write_at [cps ''m''] (cps ''f'') [1, 2] 384 (demo_env (Some 3)) demo_world)", OF _ refl]
  by (simp add: demo_env_def)

text \<open>C17. No link is followed and no foreign directory used: when a secure directory is opened,
  every prefix of the path is a real directory, and one opened for creation with a mode has
  exactly that mode and the caller's owner.\<close>

theorem secure_directory_is_real:
  assumes "open_secure_directory create fm repair cs e w = (Inr d, w')"
  shows "d = cs \<and> list_all (\<lambda>k. is_dir (w_fs w') (take k cs)) [0..<Suc (length cs)]
    \<and> (create \<and> cs \<noteq> [] \<and> fm = Some mode \<longrightarrow> (\<exists>n. w_fs w' cs = Some n \<and> dir_metadata_ok mode e n))"
  using open_directory_Inr [OF assms] by (auto simp: list_all_iff less_Suc_eq_le)

lemma demo_open:
  "\<exists>w'. open_secure_directory True (Some 448) False [cps ''m''] (demo_env None) demo_world = (Inr [cps ''m''], w')
    \<and> w_fs w' = w_fs demo_world"
proof -
  have "k = 0 \<or> k = 1" if "k \<le> 1" for k :: nat using that by auto
  then have "\<forall>k \<le> length [cps ''m'']. is_dir (w_fs demo_world) (take k [cps ''m''])"
    by (auto simp: is_dir_def demo_world_def dir_node_def)
  then show ?thesis
    by (intro open_directory_fair [OF demo_env_fair])
       (simp_all add: safe_component_def demo_world_def dir_metadata_ok_def dir_node_def demo_env_def)
qed

lemma secure_directory_is_real_witness:
  "\<exists>w'. open_secure_directory True (Some 448) False [cps ''m''] (demo_env None) demo_world = (Inr [cps ''m''], w')
    \<and> list_all (\<lambda>k. is_dir (w_fs w') (take k [cps ''m''])) [0..<Suc (length [cps ''m''])]"
proof -
  from demo_open obtain w' where
    o: "open_secure_directory True (Some 448) False [cps ''m''] (demo_env None) demo_world = (Inr [cps ''m''], w')" by blast
  from secure_directory_is_real [OF this] show ?thesis using o by blast
qed

section \<open>Descriptors\<close>

lemma value_guard_balanced: "keeps same_open (value_guard b)"
  by (simp add: value_guard_def balanced_basic)

lemma open_then_close:
  "(\<And>d. keeps same_open (m d)) \<Longrightarrow>
   keeps same_open (andthen (open_secure_directory create fm rep cs) (\<lambda>d. finally_do (m d) sys_close))"
  by (intro gives_then_closes open_secure_directory_gives closes_finally)

lemma open_then_close_then:
  assumes "\<And>d. keeps same_open (m d)" "\<And>x. keeps same_open (f x)"
  shows "keeps same_open (andthen (open_secure_directory create fm rep cs) (\<lambda>d. andthen (finally_do (m d) sys_close) f))"
proof -
  have "andthen (open_secure_directory create fm rep cs) (\<lambda>d. andthen (finally_do (m d) sys_close) f)
      = andthen (andthen (open_secure_directory create fm rep cs) (\<lambda>d. finally_do (m d) sys_close)) f"
    by (simp add: andthen_assoc)
  then show ?thesis using balanced.keeps_andthen [OF open_then_close [OF assms(1)] assms(2)] by simp
qed

lemma credentials_balanced:
  "keeps same_open (atomic_write_credentials nfkc parent name user stored)"
  "keeps same_open (read_credentials nfkc parent name)"
proof -
  show "keeps same_open (atomic_write_credentials nfkc parent name user stored)"
    unfolding atomic_write_credentials_def
    by (rule balanced.keeps_andthen [OF balanced.keeps_lift]
        balanced.keeps_andthen [OF value_guard_balanced] open_then_close atomic_write_balanced)+
  show "keeps same_open (read_credentials nfkc parent name)"
    unfolding read_credentials_def
    by (rule open_then_close_then [OF read_regular_balanced])
       (auto simp: balanced_basic split: prod.split sum.split)
qed

lemma secrets_balanced:
  "keeps same_open (store_service_secret directory service secret)"
  "keeps same_open (load_service_secret directory service)"
  "keeps same_open (delete_service_secret directory service)"
proof -
  show "keeps same_open (store_service_secret directory service secret)"
    unfolding store_service_secret_def
    by (rule balanced.keeps_andthen [OF balanced.keeps_lift]
        balanced.keeps_andthen [OF value_guard_balanced] open_then_close atomic_write_balanced)+
  show "keeps same_open (load_service_secret directory service)"
    unfolding load_service_secret_def
    by (rule balanced.keeps_andthen [OF balanced.keeps_lift], rule open_then_close_then [OF read_regular_balanced])
       (auto simp: balanced_basic balanced.keeps_andthen split: prod.split)
  show "keeps same_open (delete_service_secret directory service)"
    unfolding delete_service_secret_def
    by (rule balanced.keeps_andthen [OF balanced.keeps_lift] open_then_close balanced.keeps_andthen
        same_open_calls)+
qed

text \<open>No descriptor leaks: whatever calls fail, reading and writing the credentials and
  storing, loading and deleting service secrets leave exactly as many descriptors open as before,
  also when they raise.\<close>

theorem no_descriptor_leak:
  "w_open (snd (read_credentials nfkc parent name e w)) = w_open w
   \<and> w_open (snd (atomic_write_credentials nfkc parent name user stored e w)) = w_open w
   \<and> w_open (snd (store_service_secret directory service secret e w)) = w_open w
   \<and> w_open (snd (load_service_secret directory service e w)) = w_open w
   \<and> w_open (snd (delete_service_secret directory service e w)) = w_open w"
  using credentials_balanced secrets_balanced unfolding keeps_def same_open_def by simp

text \<open>Creating a child directory is not covered: when \<open>fchmod\<close> fails after the open, the new
  descriptor is left open.\<close>

lemma open_child_leaks:
  "open_child_directory [cps ''m''] (cps ''c'') True 448 (demo_env (Some 2)) demo_world
     = (Inl OSError, snd (open_child_directory [cps ''m''] (cps ''c'') True 448 (demo_env (Some 2)) demo_world))
   \<and> w_open (snd (open_child_directory [cps ''m''] (cps ''c'') True 448 (demo_env (Some 2)) demo_world)) = 1"
  by (simp add: open_child_directory_def andthen_def guard_run safe_component_def except_do_def sys_mkdir_def
      change_def syscall_def demo_env_def demo_world_def tick_def set_fs_def sys_opendir_def look_dir_def
      new_node_def opened_def ret_def sys_fchmod_def)

section \<open>Round trips\<close>

definition stored_char :: "cp \<Rightarrow> bool" where
  "stored_char c \<longleftrightarrow> is_alnum c \<or> c = 36 \<or> c = 61 \<or> c = 45 \<or> c = 95"

lemma partition_item: "partition_on c item = (k, v) \<Longrightarrow> v \<noteq> [] \<Longrightarrow> item = k @ c # v"
proof -
  assume p: "partition_on c item = (k, v)" and v: "v \<noteq> []"
  then have k: "k = takeWhile (\<lambda>x. x \<noteq> c) item" and d: "v = drop 1 (dropWhile (\<lambda>x. x \<noteq> c) item)"
    by (simp_all add: partition_on_def)
  from v d obtain y ys where y: "dropWhile (\<lambda>x. x \<noteq> c) item = y # ys"
    by (cases "dropWhile (\<lambda>x. x \<noteq> c) item") auto
  then have "y = c" using hd_dropWhile [of "\<lambda>x. x \<noteq> c" item] by simp
  then show ?thesis using k d y takeWhile_dropWhile_id [of "\<lambda>x. x \<noteq> c" item] by simp
qed

lemma field_chars:
  assumes "fst (partition_on 61 item) = k" "\<forall>c \<in> set k. is_alnum c" "field item \<noteq> []"
    "\<forall>c \<in> set (field item). stored_char c"
  shows "\<forall>c \<in> set item. stored_char c"
proof -
  have "item = k @ 61 # field item"
    using assms(1,3) by (intro partition_item) (simp_all add: field_def prod_eq_iff)
  then have "set item = set (k @ 61 # field item)" by (rule arg_cong)
  then show ?thesis using assms(2,4) by (simp add: stored_char_def ball_Un)
qed

lemma bounded_integer_chars: "bounded_integer lo hi v = Inr n \<Longrightarrow> v \<noteq> [] \<and> (\<forall>c \<in> set v. stored_char c)"
  by (auto simp: bounded_integer_def list_all_iff stored_char_def is_alnum_def split: if_splits)

lemma b64_index_alnum: "b64_index c \<noteq> None \<Longrightarrow> stored_char c"
  by (auto simp: b64_index_def stored_char_def is_alnum_def split: if_splits)

lemma decode_b64_chars:
  assumes "decode_b64 lo hi v = Inr bs"
  shows "v \<noteq> [] \<and> (\<forall>c \<in> set v. stored_char c)"
proof -
  have "v \<noteq> [] \<and> (\<forall>c \<in> set v. b64_index c \<noteq> None)"
    using assms by (auto simp: decode_b64_def list_ex_iff split: if_splits)
  then show ?thesis using b64_index_alnum by blast
qed

lemma five_items:
  assumes "map f vs = [a1, a2, a3, a4, a5]"
  obtains x1 x2 x3 x4 x5 where "vs = [x1, x2, x3, x4, x5]" "f x1 = a1" "f x2 = a2" "f x3 = a3" "f x4 = a4" "f x5 = a5"
  using assms by (auto simp: map_eq_Cons_conv)

lemma items_chars:
  assumes "parse_argon2id vs = Inr p \<or> parse_scrypt vs = Inr p"
  shows "\<forall>item \<in> set vs. \<forall>c \<in> set item. stored_char c"
proof -
  let ?k = "\<lambda>item. fst (partition_on 61 item)"
  have alnum: "\<forall>c \<in> set k. is_alnum c" if "k \<in> cps ` {''m'', ''t'', ''n'', ''r'', ''p'', ''salt'', ''hash''}" for k
    using that by (auto simp: is_alnum_def is_digit_def)
  have ok: "\<forall>c \<in> set item. stored_char c"
    if "?k item \<in> cps ` {''m'', ''t'', ''n'', ''r'', ''p'', ''salt'', ''hash''}"
      "field item \<noteq> [] \<and> (\<forall>c \<in> set (field item). stored_char c)" for item
    using field_chars [OF refl alnum [OF that(1)]] that(2) by blast
  from assms show ?thesis
  proof
    assume a: "parse_argon2id vs = Inr p"
    then have m: "map ?k vs = [cps ''m'', cps ''t'', cps ''p'', cps ''salt'', cps ''hash'']"
      by (auto simp: parse_argon2id_def split: if_splits)
    from five_items [OF m] obtain x1 x2 x3 x4 x5 where x: "vs = [x1, x2, x3, x4, x5]" "?k x1 = cps ''m''"
      "?k x2 = cps ''t''" "?k x3 = cps ''p''" "?k x4 = cps ''salt''" "?k x5 = cps ''hash''" .
    from a x have f: "\<exists>n. bounded_integer 32768 262144 (field x1) = Inr n" "\<exists>n. bounded_integer 2 6 (field x2) = Inr n"
      "\<exists>n. bounded_integer 1 4 (field x3) = Inr n" "\<exists>b. decode_b64 16 32 (field x4) = Inr b"
      "\<exists>b. decode_b64 ARGON2_HASH_BYTES ARGON2_HASH_BYTES (field x5) = Inr b"
      by (auto simp: parse_argon2id_def rbind_eq_Inr)
    have "\<forall>c \<in> set x1. stored_char c" by (rule ok) (use f(1) x in \<open>auto dest: bounded_integer_chars\<close>)
    moreover have "\<forall>c \<in> set x2. stored_char c" by (rule ok) (use f(2) x in \<open>auto dest: bounded_integer_chars\<close>)
    moreover have "\<forall>c \<in> set x3. stored_char c" by (rule ok) (use f(3) x in \<open>auto dest: bounded_integer_chars\<close>)
    moreover have "\<forall>c \<in> set x4. stored_char c" by (rule ok) (use f(4) x in \<open>auto dest: decode_b64_chars\<close>)
    moreover have "\<forall>c \<in> set x5. stored_char c" by (rule ok) (use f(5) x in \<open>auto dest: decode_b64_chars\<close>)
    ultimately show ?thesis using x(1) by simp
  next
    assume a: "parse_scrypt vs = Inr p"
    then have m: "map ?k vs = [cps ''n'', cps ''r'', cps ''p'', cps ''salt'', cps ''hash'']"
      by (auto simp: parse_scrypt_def split: if_splits)
    from five_items [OF m] obtain x1 x2 x3 x4 x5 where x: "vs = [x1, x2, x3, x4, x5]" "?k x1 = cps ''n''"
      "?k x2 = cps ''r''" "?k x3 = cps ''p''" "?k x4 = cps ''salt''" "?k x5 = cps ''hash''" .
    from a x have f: "\<exists>n. bounded_integer 16384 65536 (field x1) = Inr n" "\<exists>n. bounded_integer SCRYPT_R SCRYPT_R (field x2) = Inr n"
      "\<exists>n. bounded_integer 1 2 (field x3) = Inr n" "\<exists>b. decode_b64 16 32 (field x4) = Inr b"
      "\<exists>b. decode_b64 32 32 (field x5) = Inr b"
      by (auto simp: parse_scrypt_def rbind_eq_Inr split: if_splits)
    have "\<forall>c \<in> set x1. stored_char c" by (rule ok) (use f(1) x in \<open>auto dest: bounded_integer_chars\<close>)
    moreover have "\<forall>c \<in> set x2. stored_char c" by (rule ok) (use f(2) x in \<open>auto dest: bounded_integer_chars\<close>)
    moreover have "\<forall>c \<in> set x3. stored_char c" by (rule ok) (use f(3) x in \<open>auto dest: bounded_integer_chars\<close>)
    moreover have "\<forall>c \<in> set x4. stored_char c" by (rule ok) (use f(4) x in \<open>auto dest: decode_b64_chars\<close>)
    moreover have "\<forall>c \<in> set x5. stored_char c" by (rule ok) (use f(5) x in \<open>auto dest: decode_b64_chars\<close>)
    ultimately show ?thesis using x(1) by simp
  qed
qed

lemma current_hash_chars:
  assumes "parse_current_hash stored = Inr p"
  shows "length stored \<le> 512 \<and> (\<forall>c \<in> set stored. stored_char c)"
proof -
  let ?parts = "split_on 36 stored"
  from assms have l: "length stored \<le> 512" "length ?parts = 8" "?parts ! 0 = cps ''t1auth''" "?parts ! 1 = cps ''v=1''"
    "?parts ! 2 = cps ''kdf=argon2id'' \<or> ?parts ! 2 = cps ''kdf=scrypt''"
    and vs: "parse_argon2id (drop 3 ?parts) = Inr p \<or> parse_scrypt (drop 3 ?parts) = Inr p"
    by (auto simp: parse_current_hash_def Let_def split: if_splits)
  have parts: "?parts = [?parts ! 0, ?parts ! 1, ?parts ! 2] @ drop 3 ?parts"
    using l(2) by (cases ?parts; cases "tl ?parts"; cases "tl (tl ?parts)") auto
  have "\<forall>x \<in> set [?parts ! 0, ?parts ! 1, ?parts ! 2]. \<forall>c \<in> set x. stored_char c"
    using l(3-5) by (auto simp: stored_char_def is_alnum_def is_digit_def)
  then have all: "\<forall>x \<in> set ?parts. \<forall>c \<in> set x. stored_char c"
    using items_chars [OF vs] by (subst parts) auto
  have "set stored \<subseteq> insert 36 (\<Union> (set ` set ?parts))"
    using set_join [of 36 ?parts] by (simp add: join_split_on)
  then show ?thesis using all l(1) by (auto simp: stored_char_def)
qed

lemma legacy_hash_chars:
  assumes "parse_legacy_hash stored = Inr p"
  shows "length stored \<le> 512 \<and> (\<forall>c \<in> set stored. stored_char c)"
proof -
  from assms obtain a b c d where s: "split_on 36 stored = [a, b, c, d]" "a = cps ''sha256''"
    "b = dec_nat LEGACY_PBKDF2_ITERATIONS" "hex_text 32 c" "hex_text 64 d" "length stored = 111"
    by (auto simp: parse_legacy_hash_def split: if_splits list.splits)
  have hex: "hex_digit x \<noteq> None \<Longrightarrow> stored_char x" for x
    by (auto simp: hex_digit_def stored_char_def is_alnum_def split: if_splits)
  have digit: "is_digit x \<Longrightarrow> stored_char x" for x by (simp add: stored_char_def is_alnum_def)
  have "\<forall>x \<in> set b. stored_char x" using s(3) dec_nat_digits digit by blast
  moreover have "\<forall>x \<in> set c. stored_char x" "\<forall>x \<in> set d. stored_char x"
    using s(4,5) hex by (auto simp: hex_text_def list_all_iff)
  moreover have "\<forall>x \<in> set a. stored_char x" unfolding s(2) by (simp add: stored_char_def is_alnum_def is_digit_def)
  ultimately have all: "\<forall>x \<in> set [a, b, c, d]. \<forall>y \<in> set x. stored_char y" by simp
  have "set stored \<subseteq> insert 36 (\<Union> (set ` set [a, b, c, d]))"
    using set_join [of 36 "[a, b, c, d]"] join_split_on [of 36 stored] s(1) by auto
  then show ?thesis using all s(6) by (auto simp: stored_char_def)
qed

lemma valid_stored_chars:
  assumes "validate_stored_hash stored"
  shows "length stored \<le> 512 \<and> (\<forall>c \<in> set stored. stored_char c)"
  using assms current_hash_chars legacy_hash_chars
  by (auto simp: validate_stored_hash_def is_ok_def split: if_splits sum.splits)

text \<open>NFKC leaves ASCII text alone; this is all that is used of it.\<close>

definition keeps_ascii :: "(pystr \<Rightarrow> pystr) \<Rightarrow> bool" where
  "keeps_ascii nfkc \<longleftrightarrow> (\<forall>s. (\<forall>c \<in> set s. c < 128) \<longrightarrow> nfkc s = s)"

lemma canonical_username:
  assumes "canonicalize_username nfkc user = Inr username"
  shows "username_ok username" and "keeps_ascii nfkc \<Longrightarrow> canonicalize_username nfkc username = Inr username"
proof -
  show ok: "username_ok username" using assms by (auto simp: canonicalize_username_def Let_def split: if_splits)
  have "\<forall>c \<in> set username. c < 128 \<and> \<not> py_isspace c"
    using username_ok_chars [OF ok] username_char_plain by blast
  then show "keeps_ascii nfkc \<Longrightarrow> canonicalize_username nfkc username = Inr username"
    using ok by (simp add: canonicalize_username_def keeps_ascii_def strip_none)
qed

lemma decode_ascii: "\<forall>c \<in> set s. c < 128 \<Longrightarrow> utf8_decode_strict s = Inr s"
proof -
  assume a: "\<forall>c \<in> set s. c < 128"
  then have "\<forall>c \<in> set s. cp_ok c" by (auto simp: cp_ok_def)
  moreover have "utf8_strict s = Inr s" using a by (rule utf8_strict_ascii)
  ultimately have "utf8_decode s = s" by (rule utf8_decode_encode)
  then show ?thesis using a by (simp add: utf8_decode_strict_def concat_utf8_ascii)
qed

lemma stored_char_plain: "stored_char c \<Longrightarrow> c < 128 \<and> \<not> is_linebreak c"
  by (auto simp: stored_char_def is_alnum_def is_digit_def is_linebreak_def)

lemma username_char_line: "username_char c \<Longrightarrow> \<not> is_linebreak c"
  by (auto simp: username_char_def is_alnum_def is_digit_def is_linebreak_def)

lemma takeWhile_before: "\<forall>x \<in> set xs. p x \<Longrightarrow> \<not> p y \<Longrightarrow> takeWhile p (xs @ [y]) = xs"
  by (induction xs) auto

lemma parse_written_credentials:
  assumes "keeps_ascii nfkc" "username_ok username" "validate_stored_hash stored"
  shows "utf8_strict (username @ [58] @ stored @ [10]) = Inr (username @ [58] @ stored @ [10])"
    and "parse_credentials nfkc (username @ [58] @ stored @ [10]) = Inr (username, stored)"
    and "length (username @ [58] @ stored @ [10]) \<le> MAX_CREDENTIAL_BYTES"
proof -
  have u: "\<forall>c \<in> set username. c < 128 \<and> c \<noteq> 58 \<and> \<not> is_linebreak c \<and> \<not> py_isspace c"
    using username_ok_chars [OF assms(2)] username_char_plain username_char_line by blast
  have s: "\<forall>c \<in> set stored. c < 128 \<and> \<not> is_linebreak c" "length stored \<le> 512"
    using valid_stored_chars [OF assms(3)] stored_char_plain by blast+
  let ?t = "username @ [58] @ stored @ [10]"
  have ascii: "\<forall>c \<in> set ?t. c < 128" using u s by auto
  show "utf8_strict ?t = Inr ?t" using ascii by (rule utf8_strict_ascii)
  have "takeWhile (\<lambda>c. \<not> is_linebreak c) ((username @ [58] @ stored) @ [10]) = username @ [58] @ stored"
    by (rule takeWhile_before) (use u s in \<open>auto simp: is_linebreak_def\<close>)
  moreover have "partition_on 58 (username @ 58 # stored) = (username, stored)"
    using u by (intro partition_on_append) auto
  moreover have "canonicalize_username nfkc username = Inr username"
    using assms(1,2) u by (simp add: canonicalize_username_def keeps_ascii_def strip_none)
  ultimately show "parse_credentials nfkc ?t = Inr (username, stored)"
    using decode_ascii [OF ascii] by (simp add: parse_credentials_def)
  show "length ?t \<le> MAX_CREDENTIAL_BYTES"
    using s(2) assms(2) by (simp add: username_ok_def broker_consts)
qed

text \<open>A private directory that exists, seen from a file tree.\<close>

definition private_dir :: "env \<Rightarrow> fs \<Rightarrow> path \<Rightarrow> bool" where
  "private_dir e fs d \<longleftrightarrow> d \<noteq> [] \<and> list_all safe_component d \<and> list_all (\<lambda>k. is_dir fs (take k d)) [0..<Suc (length d)]
     \<and> (\<exists>n. fs d = Some n \<and> dir_metadata_ok 448 e n)"

definition no_temporary :: "env \<Rightarrow> fs \<Rightarrow> path \<Rightarrow> pystr \<Rightarrow> bool" where
  "no_temporary e fs d name \<longleftrightarrow> (\<forall>token. fs (d @ [temporary_name name (e_pid e) token]) = None)"

lemma private_dir_prefixes: "private_dir e fs d \<Longrightarrow> \<forall>k \<le> length d. is_dir fs (take k d)"
  by (auto simp: private_dir_def list_all_iff less_Suc_eq_le)

lemma open_private:
  assumes "fair e" "private_dir e (w_fs w) d"
  shows "\<exists>w'. open_secure_directory True (Some 448) False d e w = (Inr d, w') \<and> w_fs w' = w_fs w"
    and "\<exists>w'. open_secure_directory False None False d e w = (Inr d, w') \<and> w_fs w' = w_fs w"
  using assms private_dir_prefixes [OF assms(2)]
  by (intro open_directory_fair; simp add: private_dir_def)+

lemma private_dir_update:
  assumes "private_dir e fs d"
  shows "private_dir e (fs(d @ [name] \<mapsto> n)) d"
proof -
  have "take k d \<noteq> d @ [name]" for k
    by (metis append_eq_conv_conj length_append_singleton length_take min.cobounded1 not_less_eq_eq order_refl)
  then show ?thesis using assms by (auto simp: private_dir_def is_dir_def list_all_iff)
qed

lemma write_in_private:
  assumes "fair e" "private_dir e (w_fs w) d" "safe_component name" "no_temporary e (w_fs w) d name"
    and "\<forall>m. w_fs w (d @ [name]) = Some m \<longrightarrow> n_kind m \<noteq> Directory"
  shows "\<exists>w'. andthen (open_secure_directory True (Some 448) False d)
      (\<lambda>d. finally_do (atomic_write_at d name data 384) sys_close) e w = (Inr (), w')
    \<and> w_fs w' = (w_fs w)(d @ [name] \<mapsto> \<lparr>n_kind = Regular data, n_mode = 384, n_uid = e_uid e, n_gid = e_gid e\<rparr>)"
proof -
  obtain w1 where o: "open_secure_directory True (Some 448) False d e w = (Inr d, w1)" "w_fs w1 = w_fs w"
    using open_private(1) [OF assms(1,2)] by blast
  obtain w2 where a: "atomic_write_at d name data 384 e w1 = (Inr (), w2)"
    "w_fs w2 = (w_fs w)(d @ [name] \<mapsto> \<lparr>n_kind = Regular data, n_mode = 384, n_uid = e_uid e, n_gid = e_gid e\<rparr>)"
    using atomic_write_fair [OF assms(1,3), of w1 d data 384] assms(4,5) o(2) by (auto simp: no_temporary_def)
  show ?thesis using o(1) a by (simp add: andthen_def finally_do_def)
qed

definition read_private :: "path \<Rightarrow> pystr \<Rightarrow> nat \<Rightarrow> (bytes \<times> node) io" where
  "read_private d name maximum =
     andthen (open_secure_directory False None False d) (\<lambda>d. finally_do (read_regular_at d name maximum) sys_close)"

lemma read_in_private:
  assumes "fair e" "private_dir e (w_fs w) d" "safe_component name" "w_fs w (d @ [name]) = Some n"
    "n_kind n = Regular data" "length data \<le> maximum"
  shows "\<exists>w'. read_private d name maximum e w = (Inr (data, n), w') \<and> w_fs w' = w_fs w"
proof -
  obtain w1 where o: "open_secure_directory False None False d e w = (Inr d, w1)" "w_fs w1 = w_fs w"
    using open_private(2) [OF assms(1,2)] by blast
  obtain w2 where r: "read_regular_at d name maximum e w1 = (Inr (data, n), w2)" "w_fs w2 = w_fs w"
    using read_regular_fair [OF assms(1,3), of w1 d n data maximum] assms(4-6) o(2) by auto
  show ?thesis using o(1) r by (auto simp: read_private_def andthen_def finally_do_def)
qed

lemma read_credentials_alt:
  "read_credentials nfkc parent name = andthen (read_private parent name MAX_CREDENTIAL_BYTES) (\<lambda>(data, _).
     (case parse_credentials nfkc data of
        Inl _ \<Rightarrow> raise AuthenticationError
      | Inr (username, stored) \<Rightarrow>
          if validate_stored_hash stored then ret (username, stored) else raise AuthenticationError))"
  by (simp add: read_credentials_def read_private_def andthen_assoc)

lemma load_service_secret_alt:
  "load_service_secret directory service = andthen (lift_res (service_secret_name service)) (\<lambda>name.
     andthen (read_private directory name MAX_SERVICE_SECRET_BYTES) (\<lambda>(secret, metadata).
     andthen (guard_io (n_mode metadata AND 63 = 0 \<and> secret \<noteq> [] \<and> 0 \<notin> set secret)) (\<lambda>_. ret secret)))"
  by (simp add: load_service_secret_def read_private_def andthen_assoc)

text \<open>C18. What is written as credentials is read back: in a private directory, without faults,
  writing an account name and a valid stored password succeeds, and reading the file returns the
  canonical name and exactly that stored password.\<close>

theorem credentials_round_trip:
  assumes "fair e" "keeps_ascii nfkc" "private_dir e (w_fs w) d" "safe_component name"
    and "no_temporary e (w_fs w) d name" "\<forall>m. w_fs w (d @ [name]) = Some m \<longrightarrow> n_kind m \<noteq> Directory"
    and "canonicalize_username nfkc user = Inr username" "validate_stored_hash stored"
  shows "\<exists>w1 w2. atomic_write_credentials nfkc d name user stored e w = (Inr (), w1)
    \<and> read_credentials nfkc d name e w1 = (Inr (username, stored), w2)"
proof -
  let ?t = "username @ [58] @ stored @ [10]"
  have p: "utf8_strict ?t = Inr ?t" "parse_credentials nfkc ?t = Inr (username, stored)"
    "length ?t \<le> MAX_CREDENTIAL_BYTES"
    using parse_written_credentials [OF assms(2) canonical_username(1) [OF assms(7)] assms(8)] .
  define n where "n = \<lparr>n_kind = Regular ?t, n_mode = 384, n_uid = e_uid e, n_gid = e_gid e\<rparr>"
  obtain w1 where w1: "andthen (open_secure_directory True (Some 448) False d)
      (\<lambda>d. finally_do (atomic_write_at d name ?t 384) sys_close) e w = (Inr (), w1)"
    "w_fs w1 = (w_fs w)(d @ [name] \<mapsto> n)"
    using write_in_private [OF assms(1,3-6), of ?t] unfolding n_def by blast
  then have wr: "atomic_write_credentials nfkc d name user stored e w = (Inr (), w1)"
    using assms(7,8) p(1) by (simp add: atomic_write_credentials_def value_guard_def)
  have "private_dir e (w_fs w1) d" using private_dir_update [OF assms(3)] w1(2) by simp
  from read_in_private [OF assms(1) this assms(4), of n ?t MAX_CREDENTIAL_BYTES] w1(2) p(3)
  obtain w2 where r: "read_private d name MAX_CREDENTIAL_BYTES e w1 = (Inr (?t, n), w2)" by (auto simp: n_def)
  have "read_credentials nfkc d name e w1 = (Inr (username, stored), w2)"
    using p(2) assms(8) by (simp add: read_credentials_alt andthen_def r ret_def)
  with wr show ?thesis by blast
qed

definition demo_stored :: pystr where
  "demo_stored = stored_text (cps ''argon2id'') [(cps ''m'', dec_nat 65536), (cps ''t'', dec_nat 3),
     (cps ''p'', dec_nat 1), (cps ''salt'', encode_b64 (replicate 16 7)), (cps ''hash'', encode_b64 (replicate 32 9))]"

lemma demo_stored_valid: "validate_stored_hash demo_stored"
proof -
  have d: "digest_ok (replicate 32 9)" by (simp add: digest_ok_def bytes_ok_def broker_consts)
  have "parse_current_hash demo_stored = Inr (ArgonHash 65536 3 1 (replicate 16 7) (replicate 32 9))"
    unfolding demo_stored_def using parse_argon_fields [OF demo_salt_ok d]
    by (subst parse_stored_text) (simp_all add: plain_field_dec plain_field_b64 bytes_ok_def)
  then show ?thesis
    using stored_text_start by (simp add: validate_stored_hash_def is_ok_def demo_stored_def)
qed

lemma demo_private: "private_dir (demo_env None) (w_fs demo_world) [cps ''m'']"
  by (simp add: private_dir_def safe_component_def is_dir_def demo_world_def dir_node_def dir_metadata_ok_def
      demo_env_def)

lemma demo_no_temporary: "no_temporary (demo_env None) (w_fs demo_world) [cps ''m''] name"
  by (simp add: no_temporary_def demo_world_def)

lemma credentials_round_trip_witness:
  "\<exists>w1 w2. atomic_write_credentials (\<lambda>s. s) [cps ''m''] (cps ''master.txt'') (cps '' ada '') demo_stored
      (demo_env None) demo_world = (Inr (), w1)
    \<and> read_credentials (\<lambda>s. s) [cps ''m''] (cps ''master.txt'') (demo_env None) w1 = (Inr (cps ''ada'', demo_stored), w2)"
proof (rule credentials_round_trip [OF demo_env_fair _ demo_private _ demo_no_temporary _ _ demo_stored_valid])
  show "keeps_ascii (\<lambda>s. s)" by (simp add: keeps_ascii_def)
  show "safe_component (cps ''master.txt'')" by (simp add: safe_component_def)
  show "\<forall>m. w_fs demo_world ([cps ''m''] @ [cps ''master.txt'']) = Some m \<longrightarrow> n_kind m \<noteq> Directory"
    by (simp add: demo_world_def)
  show "canonicalize_username (\<lambda>s. s) (cps '' ada '') = Inr (cps ''ada'')"
    by (simp add: canonicalize_username_def strip_def lstrip_def rstrip_def py_isspace_def username_ok_def
        username_char_def is_alnum_def is_digit_def)
qed

text \<open>A stored service secret is loaded back unchanged, and the file holding it is readable by
  its owner only.\<close>

theorem service_secret_round_trip:
  assumes "fair e" "private_dir e (w_fs w) d" "service_secret_name service = Inr name"
    and "no_temporary e (w_fs w) d name" "\<forall>m. w_fs w (d @ [name]) = Some m \<longrightarrow> n_kind m \<noteq> Directory"
    and "secret_data secret = Inr data" "1 \<le> length data" "length data \<le> MAX_SERVICE_SECRET_BYTES" "0 \<notin> set data"
  shows "\<exists>w1 w2. store_service_secret d service secret e w = (Inr (), w1)
    \<and> load_service_secret d service e w1 = (Inr data, w2)
    \<and> map_option n_mode (w_fs w1 (d @ [name])) = Some 384"
proof -
  have safe: "safe_component name"
  proof -
    from assms(3) have n: "name = service @ cps ''.secret''" and c: "\<forall>x \<in> set service. service_char x"
      by (cases service; auto simp: service_secret_name_def service_char_def list_all_iff split: if_splits)+
    have "length name > 2" using n by simp
    then have "name \<notin> {[], [46], [46, 46]}" by auto
    moreover have "\<forall>x \<in> set name. x \<noteq> 47 \<and> x \<noteq> 92 \<and> x \<noteq> 0"
      using n c by (auto simp: service_char_def is_digit_def)
    ultimately show ?thesis by (auto simp: safe_component_def)
  qed
  define n where "n = \<lparr>n_kind = Regular data, n_mode = 384, n_uid = e_uid e, n_gid = e_gid e\<rparr>"
  obtain w1 where w1: "andthen (open_secure_directory True (Some 448) False d)
      (\<lambda>d. finally_do (atomic_write_at d name data 384) sys_close) e w = (Inr (), w1)"
    "w_fs w1 = (w_fs w)(d @ [name] \<mapsto> n)"
    using write_in_private [OF assms(1,2) safe assms(4,5), of data] unfolding n_def by blast
  then have st: "store_service_secret d service secret e w = (Inr (), w1)"
    using assms(3,6-9) by (simp add: store_service_secret_def value_guard_def)
  have "private_dir e (w_fs w1) d" using private_dir_update [OF assms(2)] w1(2) by simp
  from read_in_private [OF assms(1) this safe, of n data MAX_SERVICE_SECRET_BYTES] w1(2) assms(8)
  obtain w2 where r: "read_private d name MAX_SERVICE_SECRET_BYTES e w1 = (Inr (data, n), w2)" by (auto simp: n_def)
  have "data \<noteq> []" using assms(7) by auto
  then have "load_service_secret d service e w1 = (Inr data, w2)"
    using assms(3,9) by (simp add: load_service_secret_alt andthen_def r guard_run ret_def n_def)
  with st w1(2) show ?thesis by (auto simp: n_def)
qed

lemma service_secret_round_trip_witness:
  "\<exists>w1 w2. store_service_secret [cps ''m''] (cps ''smtp'') (Inr [1, 2, 3]) (demo_env None) demo_world = (Inr (), w1)
    \<and> load_service_secret [cps ''m''] (cps ''smtp'') (demo_env None) w1 = (Inr [1, 2, 3], w2)"
proof -
  have n: "service_secret_name (cps ''smtp'') = Inr (cps ''smtp.secret'')"
    by (simp add: service_secret_name_def service_char_def)
  have "\<forall>m. w_fs demo_world ([cps ''m''] @ [cps ''smtp.secret'']) = Some m \<longrightarrow> n_kind m \<noteq> Directory"
    by (simp add: demo_world_def)
  from service_secret_round_trip [OF demo_env_fair demo_private n demo_no_temporary this, of "Inr [1, 2, 3]" "[1, 2, 3]"]
  show ?thesis by (auto simp: secret_data_def broker_consts)
qed

end
