(* ===== verification/Broker_Policy.thy ===== *)
theory Broker_Policy
  imports Broker_Props
begin

unbundle bit_operations_syntax

text \<open>
  The policies of the broker: the pace of password guesses, the need of the current password,
  and the life of recovery authorizations.
\<close>

section \<open>Backoff\<close>

definition delay_after :: "int \<Rightarrow> rat" where
  "delay_after failures = min (2 ^ nat (failures - 1)) 30"

text \<open>The entry the limiter keeps after an attempt.\<close>

definition limiter_entry :: "int \<Rightarrow> rat \<Rightarrow> json" where
  "limiter_entry failures now = new_entry failures (delay_after failures) now"

lemma read_limiter_entry: "read_entry c (limiter_entry f t) = Inr (t + delay_after f, f)"
  by (simp add: read_entry_def limiter_entry_def new_entry_def py_get_def fmlookup_of_list py_float_def py_int_def)

lemma age_limiter_entry: "entry_age c now (limiter_entry f now) = Inr 0"
  by (simp add: entry_age_def limiter_entry_def new_entry_def py_get_def fmlookup_of_list py_float_def)

lemma read_no_entry: "read_entry c (JObj fmempty) = Inr (0, 0)"
  by (simp add: read_entry_def py_get_def py_float_def py_int_def)

lemma drop_old_keeps:
  "drop_old c now (fmupd key (limiter_entry f now) es) = Inr es' \<Longrightarrow> fmlookup es' key = Some (limiter_entry f now)"
  by (auto simp: drop_old_def age_limiter_entry split: if_splits)

text \<open>The decision on a key that has such an entry, and on one that has none.\<close>

lemma decide_refused:
  assumes "fmlookup es key = Some (limiter_entry f t)" "t + delay_after f > now"
  shows "reserve_decide c key now es = Inr (Inl (min (t + delay_after f - now) 30))"
  using assms by (simp add: reserve_decide_def read_limiter_entry)

lemma decide_granted:
  assumes "reserve_decide c key now es = Inr (Inr (es', d))"
    and "read_entry c (case fmlookup es key of None \<Rightarrow> JObj fmempty | Some v \<Rightarrow> v) = Inr (blocked, f)"
  shows "blocked \<le> now \<and> d = delay_after (min (max f 0 + 1) 10)
    \<and> fmlookup es' key = Some (limiter_entry (min (max f 0 + 1) 10) now)"
proof -
  let ?f = "min (max f 0 + 1) 10"
  from assms have b: "blocked \<le> now" and r: "drop_old c now (fmupd key (limiter_entry ?f now) es) = Inr es'"
    and d: "d = delay_after ?f"
    by (auto simp: reserve_decide_def Let_def rbind_eq_Inr limiter_entry_def delay_after_def split: if_splits)
  then show ?thesis using drop_old_keeps [OF r] by blast
qed

lemma decide_grants:
  assumes "read_entry c (case fmlookup es key of None \<Rightarrow> JObj fmempty | Some v \<Rightarrow> v) = Inr (blocked, f)" "blocked \<le> now"
    and "f' = min (max f 0 + 1) 10" "drop_old c now (fmupd key (limiter_entry f' now) es) = Inr es'"
  shows "reserve_decide c key now es = Inr (Inr (es', delay_after f'))"
  using assms by (simp add: reserve_decide_def Let_def limiter_entry_def delay_after_def)

text \<open>A series of attempts on one account, all let through, none of them successful.\<close>

fun granted :: "codec \<Rightarrow> pystr \<Rightarrow> (pystr, json) fmap \<Rightarrow> rat list \<Rightarrow> bool" where
  "granted c key es [] = True"
| "granted c key es (t # ts) =
     (case reserve_decide c key t es of Inr (Inr (es', _)) \<Rightarrow> granted c key es' ts | _ \<Rightarrow> False)"

lemma granted_Cons:
  "granted c key es (t # ts) \<longleftrightarrow> (\<exists>es' d. reserve_decide c key t es = Inr (Inr (es', d)) \<and> granted c key es' ts)"
  by (auto split: sum.splits)

fun total_delay :: "int \<Rightarrow> nat \<Rightarrow> rat" where
  "total_delay f 0 = 0"
| "total_delay f (Suc n) = delay_after f + total_delay (min (max f 0 + 1) 10) n"

lemma granted_total:
  "granted c key es ts \<Longrightarrow> fmlookup es key = Some (limiter_entry f t) \<Longrightarrow> ts \<noteq> [] \<Longrightarrow>
   t + total_delay f (length ts) \<le> last ts"
proof (induction ts arbitrary: es f t)
  case Nil
  then show ?case by simp
next
  case (Cons u ts)
  let ?f = "min (max f 0 + 1) 10"
  from Cons.prems(1) obtain es' d where r: "reserve_decide c key u es = Inr (Inr (es', d))" "granted c key es' ts"
    unfolding granted_Cons by blast
  from decide_granted [OF r(1), of "t + delay_after f" f] Cons.prems(2) have
    u: "t + delay_after f \<le> u" "fmlookup es' key = Some (limiter_entry ?f u)"
    by (simp_all add: read_limiter_entry)
  show ?case
  proof (cases ts)
    case Nil
    then show ?thesis using u by simp
  next
    case (Cons v vs)
    then have "u + total_delay ?f (length ts) \<le> last ts" using Cons.IH [OF r(2) u(2)] by simp
    then show ?thesis using u Cons by simp
  qed
qed

lemma total_delay_slow: "6 \<le> f \<Longrightarrow> f \<le> 10 \<Longrightarrow> total_delay f n = 30 * of_nat n"
proof (induction n arbitrary: f)
  case 0
  then show ?case by simp
next
  case (Suc n)
  have "f \<in> {6, 7, 8, 9, 10}" using Suc.prems by auto
  then have "delay_after f = 30" by (auto simp: delay_after_def)
  moreover have "6 \<le> min (max f 0 + 1) 10" "min (max f 0 + 1) 10 \<le> 10" using Suc.prems by auto
  ultimately show ?case using Suc.IH [of "min (max f 0 + 1) 10"] by (simp add: algebra_simps)
qed

lemma total_delay_start: "total_delay 1 (5 + n) = 31 + 30 * of_nat n"
proof -
  have "total_delay 1 (5 + n) = 1 + (2 + (4 + (8 + (16 + total_delay 6 n))))"
    by (simp add: numeral_eq_Suc delay_after_def)
  then show ?thesis using total_delay_slow [of 6 n] by simp
qed

text \<open>C19. The pace of guesses: on an account without earlier failures, six password attempts in a
  row take at least 31 seconds, and every further one at least 30 more.  No sequence of attempts is
  let through faster.\<close>

theorem guess_pace:
  assumes "granted c key es (t # ts)" "fmlookup es key = None" "length ts = 5 + n"
  shows "t + 31 + 30 * of_nat n \<le> last (t # ts)"
proof -
  from assms(1) obtain es' d where r: "reserve_decide c key t es = Inr (Inr (es', d))" "granted c key es' ts"
    unfolding granted_Cons by blast
  from decide_granted [OF r(1), of 0 0] assms(2) have "fmlookup es' key = Some (limiter_entry 1 t)"
    by (simp add: read_no_entry)
  moreover have ts: "ts \<noteq> []" using assms(3) by auto
  ultimately have "t + total_delay 1 (length ts) \<le> last ts" using granted_total [OF r(2)] by blast
  then show ?thesis using assms(3) total_delay_start [of n] ts by simp
qed

lemma guess_pace_witness:
  fixes c :: codec
  defines "c \<equiv> \<lparr>c_loads = (\<lambda>_. None), c_dumps = (\<lambda>_. []), c_text_float = (\<lambda>_. None), c_text_int = (\<lambda>_. None),
    c_sha256 = (\<lambda>b. b)\<rparr>"
  shows "granted c (cps ''k'') fmempty [100, 101, 103, 107, 115, 131] \<and> (100::rat) + 31 + 30 * of_nat 0 \<le> 131"
proof -
  let ?es = "\<lambda>f u. fmupd (cps ''k'') (limiter_entry f u) fmempty"
  have drop: "drop_old c u (fmupd (cps ''k'') (limiter_entry f u) es) = Inr (?es f u)"
    if "es = fmempty \<or> (\<exists>g t. es = ?es g t)" for es f u
    using that by (auto simp: drop_old_def age_limiter_entry is_ok_def fmpred_iff simp del: cps_Cons
        intro!: fmap_ext split: if_splits)
  have step: "granted c (cps ''k'') (?es f t) (u # ts) \<longleftrightarrow> granted c (cps ''k'') (?es (f + 1) u) ts"
    if "t + delay_after f \<le> u" "0 \<le> f" "f < 10" for f t u ts
    using decide_grants [of c "?es f t" "cps ''k''" "t + delay_after f" f u "f + 1" "?es (f + 1) u"] drop that
    by (simp add: read_limiter_entry del: cps_Cons)
  have first: "granted c (cps ''k'') fmempty (u # ts) \<longleftrightarrow> granted c (cps ''k'') (?es 1 u) ts" if "0 \<le> u" for u ts
    using decide_grants [of c fmempty "cps ''k''" 0 0 u 1 "?es 1 u"] drop that
    by (simp add: read_no_entry del: cps_Cons)
  have g: "granted c (cps ''k'') fmempty [100, 101, 103, 107, 115, 131]"
    by (simp add: first step delay_after_def del: granted.simps(2) cps_Cons)
  show ?thesis using g guess_pace [of c "cps ''k''" fmempty 100 "[101, 103, 107, 115, 131]" 0] by simp
qed

section \<open>The current password\<close>

lemma read_private_Inr:
  assumes "read_private d name maximum e w = (Inr (data, n), w')"
  shows "w_fs w (d @ [name]) = Some n \<and> n_kind n = Regular data"
proof -
  from assms obtain d' w1 w2 where o: "open_secure_directory False None False d e w = (Inr d', w1)"
    and r: "read_regular_at d' name maximum e w1 = (Inr (data, n), w2)"
    by (auto simp: read_private_def andthen_Inr finally_Inr)
  have "w_fs w1 = w_fs w" using only_nothing [OF keepsD [OF confined.keeps_open_existing o]] .
  then show ?thesis using read_regular_Inr [OF r] open_directory_Inr [OF o] by simp
qed

lemma read_private_quiet: "keeps (only nothing) (read_private d name maximum)"
  unfolding read_private_def
  by (intro confined.keeps_andthen confined.keeps_finally confined.keeps_open_existing confined.keeps_read_regular
      confined.keeps_close)

lemma read_credentials_quiet: "keeps (only nothing) (read_credentials nfkc d name)"
  unfolding read_credentials_alt
  by (rule confined.keeps_andthen [OF read_private_quiet])
     (auto simp: confined.keeps_basic split: prod.split sum.split)

lemma read_credentials_Inr:
  assumes "read_credentials nfkc d name e w = (Inr (u, s), w')"
  shows "\<exists>n data. w_fs w (d @ [name]) = Some n \<and> n_kind n = Regular data \<and> parse_credentials nfkc data = Inr (u, s)"
proof -
  from assms obtain data n w1 where r: "read_private d name MAX_CREDENTIAL_BYTES e w = (Inr (data, n), w1)"
    and f: "(case parse_credentials nfkc data of Inl _ \<Rightarrow> raise AuthenticationError
      | Inr (username, stored) \<Rightarrow> if validate_stored_hash stored then ret (username, stored)
          else raise AuthenticationError) e w1 = (Inr (u, s), w')"
    by (auto simp: read_credentials_alt andthen_Inr)
  from f have "parse_credentials nfkc data = Inr (u, s)"
    by (cases "parse_credentials nfkc data") (auto split: if_splits)
  then show ?thesis using read_private_Inr [OF r] by blast
qed

lemma check_root_quiet: "keeps (only nothing) (check_root sysroot)"
  unfolding check_root_def by (intro confined.keeps_andthen confined.keeps_open_existing confined.keeps_close)

text \<open>The credentials a file tree holds.\<close>

definition account :: "(pystr \<Rightarrow> pystr) \<Rightarrow> fs \<Rightarrow> path \<Rightarrow> (pystr \<times> pystr) option" where
  "account nfkc fs p = (case fs p of
     Some n \<Rightarrow> (case n_kind n of Regular data \<Rightarrow> (case parse_credentials nfkc data of Inr us \<Rightarrow> Some us | Inl _ \<Rightarrow> None)
               | _ \<Rightarrow> None)
   | None \<Rightarrow> None)"

lemma read_credentials_account:
  "read_credentials nfkc d name e w = (Inr us, w') \<Longrightarrow> account nfkc (w_fs w) (d @ [name]) = Some us"
  by (cases us) (auto dest!: read_credentials_Inr simp: account_def)

text \<open>A program that reads the credentials and then runs a guarded rest: when the guard refuses the
  account the tree holds, nothing changes.\<close>

lemma guarded_refusal:
  assumes "andthen (check_root sysroot) (\<lambda>_. andthen (read_credentials nfkc d name) rest) e w = (r, w')"
    and "\<And>us e w. account nfkc (w_fs w) (d @ [name]) = Some us \<Longrightarrow> P us \<Longrightarrow>
       (\<exists>err. fst (rest us e w) = Inl err) \<and> only nothing w (snd (rest us e w))"
    and "\<And>us. account nfkc (w_fs w) (d @ [name]) = Some us \<Longrightarrow> P us"
  shows "(\<exists>err. r = Inl err) \<and> only nothing w w'"
proof -
  obtain r1 w1 where c: "check_root sysroot e w = (r1, w1)" by fastforce
  have o1: "only nothing w w1" using keepsD [OF check_root_quiet c] .
  show ?thesis
  proof (cases r1)
    case (Inl err)
    then show ?thesis using assms(1) c o1 by (auto simp: andthen_def)
  next
    case (Inr u)
    obtain r2 w2 where rd: "read_credentials nfkc d name e w1 = (r2, w2)" by fastforce
    have o2: "only nothing w1 w2" using keepsD [OF read_credentials_quiet rd] .
    show ?thesis
    proof (cases r2)
      case (Inl err)
      then show ?thesis using assms(1) c Inr rd only_trans [OF o1 o2] by (auto simp: andthen_def)
    next
      case us: (Inr us)
      have a: "account nfkc (w_fs w) (d @ [name]) = Some us" "account nfkc (w_fs w2) (d @ [name]) = Some us"
        using read_credentials_account [of nfkc d name e w1 us w2] rd us only_nothing [OF o1] only_nothing [OF o2] by simp_all
      have "rest us e w2 = (r, w')" using assms(1) c Inr rd us by (simp add: andthen_def)
      then show ?thesis
        using assms(2) [OF a(2) assms(3) [OF a(1)], of e] only_trans [OF only_trans [OF o1 o2]] by auto
    qed
  qed
qed

lemma require_refuses:
  assumes "verify_password k password stored \<noteq> Inr True"
  shows "(\<exists>err. fst (andthen (require_password k password stored) f e w) = Inl err)
    \<and> only nothing w (snd (andthen (require_password k password stored) f e w))"
proof -
  have "\<exists>err. require_password k password stored e w = (Inl err, w)"
    using assms by (cases "verify_password k password stored")
      (auto simp: require_password_def raise_run guard_run)
  then show ?thesis by (auto simp: andthen_def confined.refl)
qed

text \<open>C20. The account is changed only with the current password: when the given password does not
  verify against the stored one, the operation raises and leaves every file as it was.\<close>

theorem change_needs_password:
  assumes "account nfkc (w_fs w) (credential_dir sysroot @ [credential_name]) = Some (active, stored)"
    and "verify_password k password stored \<noteq> Inr True"
    and "change_user k nfkc sysroot password user new_password e w = (r, w')"
  shows "(\<exists>err. r = Inl err) \<and> w_fs w' = w_fs w"
proof -
  have "(\<exists>err. r = Inl err) \<and> only nothing w w'"
    by (rule guarded_refusal [where P = "\<lambda>us. us = (active, stored)", OF assms(3) [unfolded change_user_def]])
       (use assms(1) require_refuses [OF assms(2)] in auto)
  then show ?thesis using only_nothing by blast
qed

text \<open>An installed system with one account, for the examples.\<close>

definition account_world :: world where
  "account_world = \<lparr>w_fs = [[] \<mapsto> dir_node 493, [cps ''the one''] \<mapsto> dir_node 493,
      [cps ''the one'', cps ''master''] \<mapsto> dir_node 448, [cps ''master''] \<mapsto> dir_node 493,
      [cps ''master'', cps ''ada''] \<mapsto> dir_node 448,
      [cps ''the one'', cps ''master'', cps ''master.txt''] \<mapsto>
        \<lparr>n_kind = Regular (cps ''ada'' @ [58] @ demo_stored @ [10]), n_mode = 384, n_uid = 0, n_gid = 0\<rparr>],
      w_calls = 0, w_open = 0, w_past = []\<rparr>"

lemma account_world_account:
  "account (\<lambda>s. s) (w_fs account_world) (credential_dir [] @ [credential_name]) = Some (cps ''ada'', demo_stored)"
proof -
  have "keeps_ascii (\<lambda>s. s)" by (simp add: keeps_ascii_def)
  moreover have "username_ok (cps ''ada'')" by (simp add: username_ok_def username_char_def is_alnum_def)
  ultimately have "parse_credentials (\<lambda>s. s) (cps ''ada'' @ [58] @ demo_stored @ [10]) = Inr (cps ''ada'', demo_stored)"
    using parse_written_credentials(2) demo_stored_valid by blast
  then show ?thesis
    by (simp add: account_def account_world_def credential_dir_def credential_name_def del: cps_Cons append.simps)
qed

lemma demo_stored_parses: "parse_current_hash demo_stored = Inr (ArgonHash 65536 3 1 (replicate 16 7) (replicate 32 9))"
proof -
  have d: "digest_ok (replicate 32 9)" by (simp add: digest_ok_def bytes_ok_def broker_consts)
  show ?thesis unfolding demo_stored_def using parse_argon_fields [OF demo_salt_ok d]
    by (subst parse_stored_text) (simp_all add: plain_field_dec plain_field_b64 bytes_ok_def)
qed

lemma demo_stored_refuses: "verify_password demo_kdf (cps ''nope'') demo_stored = Inr False"
proof -
  have "password_bytes True (cps ''nope'') = Inr (cps ''nope'')"
    by (simp add: password_bytes_def broker_consts utf8_strict_def is_surrogate_def utf8_cp_def)
  moreover have "starts_with (cps ''t1auth$'') demo_stored" unfolding demo_stored_def by (rule stored_text_start)
  moreover have "take 32 (110 # xs) \<noteq> replicate 32 9" for xs :: "nat list" by (simp add: numeral_eq_Suc)
  ultimately show ?thesis
    by (simp add: verify_password_def demo_stored_parses derive_def argon2id_def demo_kdf_def refuse_def
        del: take_Cons_numeral take_append)
qed

lemma change_needs_password_witness:
  "(\<exists>err. fst (change_user demo_kdf (\<lambda>s. s) [] (cps ''nope'') (cps ''eve'') [] (demo_env None) account_world) = Inl err)
    \<and> w_fs (snd (change_user demo_kdf (\<lambda>s. s) [] (cps ''nope'') (cps ''eve'') [] (demo_env None) account_world)) = w_fs account_world"
  by (rule change_needs_password [OF account_world_account _ , of demo_kdf "cps ''nope''" "cps ''eve''" "[]" "demo_env None"])
     (simp_all add: demo_stored_refuses del: cps_Cons)

text \<open>The account is removed only with the current password and the name of the active
  account; otherwise the operation raises and leaves every file as it was.\<close>

theorem remove_needs_password:
  assumes "account nfkc (w_fs w) (credential_dir sysroot @ [credential_name]) = Some (active, stored)"
    and "verify_password k password stored \<noteq> Inr True \<or> canonicalize_username nfkc user \<noteq> Inr active"
    and "remove_user k nfkc sysroot password user e w = (r, w')"
  shows "(\<exists>err. r = Inl err) \<and> w_fs w' = w_fs w"
proof -
  have rest: "(\<exists>err. fst (andthen (lift_res (canonicalize_username nfkc user)) (\<lambda>username.
      andthen (guard_io (username = active)) (\<lambda>_. andthen (require_password k password stored) f)) e w) = Inl err)
    \<and> only nothing w (snd (andthen (lift_res (canonicalize_username nfkc user)) (\<lambda>username.
      andthen (guard_io (username = active)) (\<lambda>_. andthen (require_password k password stored) f)) e w))"
    for f :: "unit \<Rightarrow> pystr io" and e w
  proof (cases "canonicalize_username nfkc user")
    case (Inl err)
    then show ?thesis by (simp add: raise_run confined.refl)
  next
    case (Inr u)
    show ?thesis
    proof (cases "u = active")
      case True
      then show ?thesis using Inr assms(2) require_refuses [of k password stored f e w] by (simp add: guard_io_def)
    next
      case False
      then show ?thesis using Inr by (simp add: guard_io_def andthen_def raise_run confined.refl)
    qed
  qed
  have "(\<exists>err. r = Inl err) \<and> only nothing w w'"
    by (rule guarded_refusal [where P = "\<lambda>us. us = (active, stored)", OF assms(3) [unfolded remove_user_def]])
       (use assms(1) rest in auto)
  then show ?thesis using only_nothing by blast
qed

lemma remove_needs_password_witness:
  "(\<exists>err. fst (remove_user demo_kdf (\<lambda>s. s) [] (cps ''nope'') (cps ''ada'') (demo_env None) account_world) = Inl err)
    \<and> w_fs (snd (remove_user demo_kdf (\<lambda>s. s) [] (cps ''nope'') (cps ''ada'') (demo_env None) account_world)) = w_fs account_world"
  by (rule remove_needs_password [OF account_world_account _ , of demo_kdf "cps ''nope''" "cps ''ada''" "demo_env None"])
     (simp_all add: demo_stored_refuses del: cps_Cons)

section \<open>Recovery authorizations\<close>

definition record_fields :: "pystr \<Rightarrow> pystr \<Rightarrow> nat \<Rightarrow> pystr \<Rightarrow> (pystr \<times> pystr) list" where
  "record_fields format action expires subject =
     [(cps ''format'', format), (cps ''action'', action), (cps ''expires'', dec_nat expires), (cps ''subject'', subject)]"

definition one_line :: "pystr \<Rightarrow> bool" where
  "one_line s \<longleftrightarrow> (\<forall>c \<in> set s. c < 128 \<and> \<not> is_linebreak c)"

lemma record_lines:
  assumes "one_line format" "one_line action" "one_line subject"
  shows "splitlines (Suc (Suc (Suc (Suc n)))) (record_body format action expires subject @ r) =
    map (\<lambda>(k, v). k @ 61 # v) (record_fields format action expires subject) @ splitlines n r"
proof -
  have d: "one_line (dec_nat expires)"
    using dec_nat_digits [of expires] by (auto simp: one_line_def is_digit_def is_linebreak_def)
  have l: "\<forall>c \<in> set (k @ 61 # v). \<not> is_linebreak c" if "one_line k" "one_line v" for k v
    using that by (auto simp: one_line_def is_linebreak_def)
  have k: "one_line (cps ''format'')" "one_line (cps ''action'')" "one_line (cps ''expires'')" "one_line (cps ''subject'')"
    by (simp_all add: one_line_def is_linebreak_def)
  have b: "record_body format action expires subject @ r = (cps ''format'' @ 61 # format) @ 10 #
      ((cps ''action'' @ 61 # action) @ 10 # ((cps ''expires'' @ 61 # dec_nat expires) @ 10 #
      ((cps ''subject'' @ 61 # subject) @ 10 # r)))"
    by (simp add: record_body_def)
  show ?thesis
    unfolding b using assms d k
    by (simp only: splitlines_line [OF l] record_fields_def list.map prod.case append.simps)
qed

lemma record_table_fields:
  "record_table (map (\<lambda>(k, v). k @ 61 # v) (record_fields format action expires subject)) [] =
     Inr (record_fields format action expires subject)"
  by (simp add: record_fields_def partition_on_def)

lemma record_body_ascii:
  assumes "one_line format" "one_line action" "one_line subject"
  shows "list_all (\<lambda>c. c < 128) (record_body format action expires subject)"
  using assms dec_no_sep(3) [of expires] by (auto simp: record_body_def one_line_def list_all_iff)

lemma username_one_line: "username_ok s \<Longrightarrow> one_line s"
  using username_ok_chars username_char_plain username_char_line unfolding one_line_def by blast

lemma action_one_line: "action \<in> set RECOVERY_ACTIONS \<Longrightarrow> one_line action"
  by (auto simp: RECOVERY_ACTIONS_def one_line_def is_linebreak_def)

lemma record_body_long: "\<exists>n. length (record_body format action expires subject) = Suc (Suc (Suc (Suc n)))"
  by (simp add: record_body_def)

lemma bounded_integer_dec_iff:
  "rbind (bounded_integer lo hi (dec_nat n)) f = (if lo \<le> n \<and> n \<le> hi then f n else Inl ValueError)"
proof (cases "lo \<le> n \<and> n \<le> hi")
  case True
  then show ?thesis by (simp add: bounded_integer_dec)
next
  case False
  then have "bounded_integer lo hi (dec_nat n) = Inl ValueError" by (auto simp: bounded_integer_def Let_def)
  then show ?thesis using False by auto
qed

lemma record_entries:
  "entry_of (record_fields f a x s) ''format'' = f" "entry_of (record_fields f a x s) ''action'' = a"
  "entry_of (record_fields f a x s) ''expires'' = dec_nat x" "entry_of (record_fields f a x s) ''subject'' = s"
  by (simp_all add: record_fields_def entry_of_def)

lemma record_fields_keys: "fst ` set (record_fields f a x s) = record_keys"
  by (auto simp: record_fields_def record_keys_def)

lemma check_record_iff:
  assumes "keeps_ascii nfkc" "username_ok subject" "action \<in> set RECOVERY_ACTIONS"
  shows "is_ok (check_record nfkc action' now (record_body [49] action expires subject)) \<longleftrightarrow>
    action' = action \<and> now < expires \<and> expires \<le> now + 900 \<and> expires \<le> 4102444800"
proof -
  have one: "one_line [49]" by (simp add: one_line_def is_linebreak_def)
  obtain n where n: "length (record_body [49] action expires subject) = Suc (Suc (Suc (Suc n)))"
    using record_body_long by blast
  let ?t = "record_fields [49] action expires subject"
  have lines: "splitlines (length (record_body [49] action expires subject)) (record_body [49] action expires subject)
      = map (\<lambda>(k, v). k @ 61 # v) ?t"
    using record_lines [OF one action_one_line [OF assms(3)] username_one_line [OF assms(2)], of n expires "[]"]
    unfolding n by (cases n) simp_all
  have ascii: "list_all (\<lambda>c. c < 128) (record_body [49] action expires subject)"
    using record_body_ascii [OF one action_one_line [OF assms(3)] username_one_line [OF assms(2)]] .
  have u: "canonicalize_username nfkc subject = Inr subject"
    using assms(1,2) username_ok_chars [OF assms(2)] username_char_plain
    by (simp add: canonicalize_username_def keeps_ascii_def strip_none)
  show ?thesis
    unfolding check_record_def lines record_table_fields
    by (auto simp: ascii record_fields_keys record_entries u bounded_integer_dec_iff is_ok_def)
qed

lemma check_record_upgraded:
  assumes "one_line action" "one_line subject" "one_line boot"
  shows "\<not> is_ok (check_record nfkc action' now (record_body [50] action expires subject @ cps ''origin_boot_id='' @ boot @ [10]))"
proof -
  have one: "one_line [50]" by (simp add: one_line_def is_linebreak_def)
  let ?raw = "record_body [50] action expires subject @ cps ''origin_boot_id='' @ boot @ [10]"
  let ?t = "record_fields [50] action expires subject"
  obtain m where "length (record_body [50] action expires subject) = Suc (Suc (Suc (Suc m)))"
    using record_body_long by blast
  then obtain n where n: "length ?raw = Suc (Suc (Suc (Suc (Suc n))))" by simp
  have b: "\<forall>c \<in> set (cps ''origin_boot_id'' @ 61 # boot). \<not> is_linebreak c"
    using assms(3) by (auto simp: one_line_def is_linebreak_def)
  have "splitlines (length ?raw) ?raw = map (\<lambda>(k, v). k @ 61 # v) ?t @
      splitlines (Suc n) ((cps ''origin_boot_id'' @ 61 # boot) @ 10 # [])"
    unfolding n record_lines [OF one assms(1,2)] by simp
  also have "splitlines (Suc n) ((cps ''origin_boot_id'' @ 61 # boot) @ 10 # []) = [cps ''origin_boot_id'' @ 61 # boot]"
    unfolding splitlines_line [OF b] by (cases n) simp_all
  finally have "record_table (splitlines (length ?raw) ?raw) [] = Inr (?t @ [(cps ''origin_boot_id'', boot)])"
    by (simp add: record_fields_def partition_on_def)
  moreover have "cps ''origin_boot_id'' \<in> fst ` set (?t @ [(cps ''origin_boot_id'', boot)])" by simp
  moreover have "cps ''origin_boot_id'' \<notin> record_keys" by (simp add: record_keys_def)
  ultimately have "record_table (splitlines (length ?raw) ?raw) [] = Inr (?t @ [(cps ''origin_boot_id'', boot)])"
    "fst ` set (?t @ [(cps ''origin_boot_id'', boot)]) \<noteq> record_keys" by metis+
  then show ?thesis by (simp add: check_record_def is_ok_def del: set_append set_simps)
qed

text \<open>SHA-256 digests are printed as 64 hexadecimal digits.\<close>

definition sha_ok :: "codec \<Rightarrow> bool" where
  "sha_ok c \<longleftrightarrow> (\<forall>b. hex_text 64 (c_sha256 c b))"

lemma sha_safe: "sha_ok c \<Longrightarrow> safe_component (c_sha256 c b)"
proof -
  assume "sha_ok c"
  then have h: "length (c_sha256 c b) = 64" "\<forall>x \<in> set (c_sha256 c b). hex_digit x \<noteq> None"
    by (auto simp: sha_ok_def hex_text_def list_all_iff)
  have "x \<noteq> 47 \<and> x \<noteq> 92 \<and> x \<noteq> 0" if "hex_digit x \<noteq> None" for x
    using that by (auto simp: hex_digit_def is_digit_def split: if_splits)
  then have "\<forall>x \<in> set (c_sha256 c b). x \<noteq> 47 \<and> x \<noteq> 92 \<and> x \<noteq> 0" using h(2) by blast
  then show ?thesis using h(1) by (auto simp: safe_component_def)
qed

lemma read_record_private: "read_record mdir name = read_private (recovery_directory mdir) name 512"
  by (simp add: read_record_def read_private_def)

lemma record_body_short:
  assumes "action \<in> set RECOVERY_ACTIONS" "username_ok subject" "expires \<le> 4102444800"
  shows "length (record_body [49] action expires subject) \<le> 512"
proof -
  have "length (dec_nat expires) \<le> 10"
    using dec_nat_length_mono [OF assms(3)] by (simp add: dec_nat.simps)
  moreover have "length action \<le> 9" using assms(1) by (auto simp: RECOVERY_ACTIONS_def)
  ultimately show ?thesis using assms(2) by (simp add: record_body_def username_ok_def)
qed

text \<open>C21. A recovery authorization is bound to its action and its lifetime: a private record of an
  authorization, presented with its token, validates exactly for the action it was issued for and
  while the clock lies before its expiry and at most 900 seconds away from it.\<close>

theorem recovery_validates_exactly:
  assumes "fair e" "keeps_ascii nfkc" "sha_ok c" "token_ok token"
    and "private_dir e (w_fs w) (recovery_directory mdir)"
    and "w_fs w (recovery_directory mdir @ [c_sha256 c token]) = Some \<lparr>n_kind = Regular (record_body [49] action expires subject),
           n_mode = 384, n_uid = u, n_gid = g\<rparr>"
    and "username_ok subject" "action \<in> set RECOVERY_ACTIONS" "expires \<le> 4102444800"
  shows "fst (validate_recovery_authorization c nfkc mdir token action' (Some (of_nat now)) e w)
    = Inr (action' = action \<and> now < expires \<and> expires \<le> now + 900)"
proof (cases "action' \<in> set RECOVERY_ACTIONS")
  case False
  then show ?thesis using assms(8) by (auto simp: validate_recovery_authorization_def except_do_def ret_def)
next
  case True
  let ?body = "record_body [49] action expires subject"
  let ?n = "\<lparr>n_kind = Regular ?body, n_mode = 384, n_uid = u, n_gid = g\<rparr>"
  obtain w1 where r: "read_private (recovery_directory mdir) (c_sha256 c token) 512 e w = (Inr (?body, ?n), w1)"
    using read_in_private [OF assms(1,5) sha_safe [OF assms(3)] assms(6), of ?body 512]
      record_body_short [OF assms(8,7,9)] by auto
  have t: "int_time (Some (of_nat now)) = ret now"
    by (simp add: int_time_def truncate_rat_def)
  have "validate_recovery_authorization c nfkc mdir token action' (Some (of_nat now)) e w
      = (Inr (is_ok (check_record nfkc action' now ?body)), w1)"
    using True assms(4)
    by (simp add: validate_recovery_authorization_def except_do_def token_name_def read_record_private
        andthen_def r t ret_def lift_res_def)
  then show ?thesis using check_record_iff [OF assms(2,7,8)] assms(9) by auto
qed

definition demo_codec :: codec where
  "demo_codec = \<lparr>c_loads = (\<lambda>_. None), c_dumps = (\<lambda>_. []), c_text_float = (\<lambda>_. None), c_text_int = (\<lambda>_. None),
    c_sha256 = (\<lambda>_. replicate 64 97)\<rparr>"

definition record_world :: world where
  "record_world = \<lparr>w_fs = [[] \<mapsto> dir_node 493, [cps ''m''] \<mapsto> dir_node 448,
      [cps ''m'', cps ''recovery authorizations''] \<mapsto> dir_node 448,
      [cps ''m'', cps ''recovery authorizations'', replicate 64 97] \<mapsto>
        \<lparr>n_kind = Regular (record_body [49] (cps ''reset'') 1300 (cps ''ada'')), n_mode = 384, n_uid = 0, n_gid = 0\<rparr>],
      w_calls = 0, w_open = 0, w_past = []\<rparr>"

lemma recovery_validates_exactly_witness:
  "fst (validate_recovery_authorization demo_codec (\<lambda>s. s) [cps ''m''] (replicate 43 65) (cps ''reset'')
      (Some (of_nat 1000)) (demo_env None) record_world) = Inr True"
proof -
  have u: "username_ok (cps ''ada'')" by (simp add: username_ok_def username_char_def is_alnum_def)
  have a: "keeps_ascii (\<lambda>s. s)" "sha_ok demo_codec" "token_ok (replicate 43 65)" "cps ''reset'' \<in> set RECOVERY_ACTIONS"
    by (simp_all add: keeps_ascii_def sha_ok_def hex_text_def demo_codec_def list_all_iff hex_digit_def token_ok_def
        is_alnum_def RECOVERY_ACTIONS_def)
  have p: "private_dir (demo_env None) (w_fs record_world) (recovery_directory [cps ''m''])"
    by (simp add: private_dir_def recovery_directory_def safe_component_def is_dir_def record_world_def dir_node_def
        dir_metadata_ok_def demo_env_def)
  have f: "w_fs record_world (recovery_directory [cps ''m''] @ [c_sha256 demo_codec (replicate 43 65)])
      = Some \<lparr>n_kind = Regular (record_body [49] (cps ''reset'') 1300 (cps ''ada'')), n_mode = 384, n_uid = 0, n_gid = 0\<rparr>"
    by (simp add: record_world_def recovery_directory_def demo_codec_def)
  show ?thesis
    using recovery_validates_exactly [OF demo_env_fair a(1-3) p f u a(4), of "cps ''reset''" 1000] by simp
qed

lemma record_table_chars:
  "record_table ls table = Inr t \<Longrightarrow> \<forall>l \<in> set ls. \<forall>x \<in> set l. Q x \<Longrightarrow> \<forall>kv \<in> set table. \<forall>x \<in> set (snd kv). Q x \<Longrightarrow>
   \<forall>kv \<in> set t. \<forall>x \<in> set (snd kv). Q x"
proof (induction ls arbitrary: table)
  case Nil
  then show ?case by simp
next
  case (Cons l ls)
  obtain k v where p: "partition_on 61 l = (k, v)" by fastforce
  have "set v \<subseteq> set l"
    using p set_dropWhile_subset [of "\<lambda>x. x \<noteq> 61" l] by (auto simp: partition_on_def dest!: in_set_dropD)
  then have "\<forall>kv \<in> set (table @ [(k, v)]). \<forall>x \<in> set (snd kv). Q x" using Cons.prems(2,3) by auto
  moreover have "record_table ls (table @ [(k, v)]) = Inr t"
    using Cons.prems(1) p by (auto split: if_splits)
  ultimately show ?case using Cons.IH [of "table @ [(k, v)]"] Cons.prems(2) by (meson list.set_intros(2))
qed

lemma checked_subject:
  assumes "check_record nfkc action now raw = Inr (expires, subject)"
  shows "one_line subject"
proof -
  from assms obtain t where t: "subject = entry_of t ''subject''" "\<forall>c \<in> set raw. c < 128"
    "record_table (splitlines (length raw) raw) [] = Inr t"
    by (auto simp: check_record_def rbind_eq_Inr list_all_iff split: if_splits)
  have "\<forall>kv \<in> set t. \<forall>x \<in> set (snd kv). x < 128 \<and> \<not> is_linebreak x"
    by (rule record_table_chars [OF t(3)]) (use t(2) splitlines_chars in auto)
  then have "one_line v" if "map_of t (cps ''subject'') = Some v" for v
    using map_of_SomeD [OF that] unfolding one_line_def by force
  then show ?thesis
    unfolding t(1) entry_of_def by (cases "map_of t (cps ''subject'')") (simp_all add: one_line_def del: cps_Cons)
qed

lemma boot_id_line: "boot_id_ok s \<Longrightarrow> one_line s"
  unfolding one_line_def
proof
  fix x
  assume b: "boot_id_ok s" and "x \<in> set s"
  have all: "\<forall>i \<in> set [0..<36]. if i \<in> {8, 13, 18, 23} then s ! i = 45 else is_hex_lower (s ! i)" and "length s = 36"
    using b unfolding boot_id_ok_def list_all_iff by blast+
  then obtain i where "i < 36" "x = s ! i" using \<open>x \<in> set s\<close> by (metis in_set_conv_nth)
  moreover from this(1) have "i \<in> set [0..<36]" unfolding set_upt by simp
  ultimately have "x = 45 \<or> is_hex_lower x" using bspec [OF all, of i] by metis
  then show "x < 128 \<and> \<not> is_linebreak x" by (auto simp: is_hex_lower_def is_digit_def is_linebreak_def)
qed

text \<open>C22. An authorization that was bound to a boot is spent: after the digest was handed out with a
  boot identity, the record no longer passes the checks, for any action and at any time.\<close>

theorem recovery_digest_spends:
  assumes "recovery_authorization_digest c nfkc mdir token action now (Some boot) e w = (Inr digest, w')"
  shows "\<exists>n raw. w_fs w' (recovery_directory mdir @ [digest]) = Some n \<and> n_kind n = Regular raw
    \<and> \<not> is_ok (check_record nfkc action' t raw)"
proof -
  let ?b = "lower_ascii (strip boot)" and ?d = "recovery_directory mdir"
  from assms obtain w1 w2 w3 d raw0 m w4 now1 w5 expires subject w6 u1 where
    b: "boot_id_ok ?b" and o: "open_secure_directory False None False ?d e w1 = (Inr d, w2)"
    and ck: "check_record nfkc action now1 raw0 = Inr (expires, subject)"
    and wr: "atomic_write_at d digest (record_body [50] action expires subject @ cps ''origin_boot_id='' @ ?b @ [10]) 384 e w5
      = (Inr u1, w6)" and w': "w_fs w' = w_fs w6"
    and va: "validate_recovery_authorization c nfkc mdir token action now e w = (Inr True, w3)"
    unfolding recovery_authorization_digest_def
    by (auto simp: andthen_Inr finally_Inr Let_def lift_res_def value_check_def split: prod.splits)
  have d: "d = ?d" using open_directory_Inr [OF o] by simp
  have "action \<in> set RECOVERY_ACTIONS"
    using va by (auto simp: validate_recovery_authorization_def except_do_def ret_def split: if_splits)
  then have a: "one_line action" by (rule action_one_line)
  have "w_fs w6 (d @ [digest]) = Some \<lparr>n_kind = Regular (record_body [50] action expires subject
      @ cps ''origin_boot_id='' @ ?b @ [10]), n_mode = 384, n_uid = e_uid e, n_gid = e_gid e\<rparr>"
    using atomic_write_whole [OF wr refl] by (simp del: cps_Cons)
  then show ?thesis
    using check_record_upgraded [OF a checked_subject [OF ck] boot_id_line [OF b]] w' d
    by (intro exI conjI) (auto simp del: cps_Cons)
qed

lemma recovery_digest_runs:
  assumes "fair e" "private_dir e (w_fs w) d" "safe_component name" "d = recovery_directory mdir"
    and "w_fs w (d @ [name]) = Some n" "n_kind n = Regular raw" "n_mode n = 384" "length raw \<le> 512"
    and "token_name c token = Inr name" "action \<in> set RECOVERY_ACTIONS" "no_temporary e (w_fs w) d name"
    and "check_record nfkc action now raw = Inr (expires, subject)" "boot_id_ok (lower_ascii (strip boot))"
  shows "\<exists>w'. recovery_authorization_digest c nfkc mdir token action (Some (of_nat now)) (Some boot) e w = (Inr name, w')"
proof -
  have t: "int_time (Some (of_nat now)) = ret now" by (simp add: int_time_def truncate_rat_def)
  obtain w1 where r: "read_private d name 512 e w = (Inr (raw, n), w1)" "w_fs w1 = w_fs w"
    using read_in_private [OF assms(1-3,5,6,8)] by blast
  have v: "validate_recovery_authorization c nfkc mdir token action (Some (of_nat now)) e w = (Inr True, w1)"
    using assms(4,7,9,10,12) r(1)
    by (simp add: validate_recovery_authorization_def except_do_def read_record_private andthen_def t ret_def
        lift_res_def is_ok_def)
  obtain w2 where o: "open_secure_directory False None False d e w1 = (Inr d, w2)" "w_fs w2 = w_fs w"
    using open_private(2) [OF assms(1), of w1 d] assms(2) r(2) by auto
  obtain w3 where g: "read_regular_at d name 512 e w2 = (Inr (raw, n), w3)" "w_fs w3 = w_fs w"
    using read_regular_fair [OF assms(1,3), of w2 d n raw 512] assms(5,6,8) o(2) by auto
  have "\<exists>w4. atomic_write_at d name data 384 e w3 = (Inr (), w4)" for data
    using atomic_write_fair [OF assms(1,3), of w3 d data 384] g(2) assms(5,6,11) by (auto simp: no_temporary_def)
  then obtain w4 where a: "atomic_write_at d name (record_body [50] action expires subject @ cps ''origin_boot_id=''
      @ lower_ascii (strip boot) @ [10]) 384 e w3 = (Inr (), w4)" by blast
  have m: "finally_do (andthen (read_regular_at d name 512) (\<lambda>(raw, metadata).
        andthen (guard_io (n_mode metadata AND 63 = 0)) (\<lambda>_. andthen (ret now) (\<lambda>now.
        andthen (lift_res (check_record nfkc action now raw)) (\<lambda>(expires, subject).
          atomic_write_at d name (record_body [50] action expires subject @ cps ''origin_boot_id=''
            @ lower_ascii (strip boot) @ [10]) 384))))) sys_close e w2 = (Inr (), w4\<lparr>w_open := w_open w4 - 1\<rparr>)"
    using assms(7,12) g(1) a by (simp add: finally_do_def andthen_def guard_run ret_def lift_res_def del: cps_Cons)
  show ?thesis
    using assms(9,13) v o(1) m unfolding assms(4) recovery_authorization_digest_def t
    by (simp add: andthen_def [of "validate_recovery_authorization c nfkc mdir token action (Some (of_nat now))"]
        andthen_def [of "open_secure_directory False None False (recovery_directory mdir)"]
        andthen_def [of "finally_do m cl" for m cl] andthen_def [of "guard_io b" for b] andthen_def [of "lift_res x" for x]
        guard_run lift_res_def Let_def value_check_def guard_res_def ret_run del: cps_Cons)
qed

lemma recovery_digest_spends_witness:
  "\<exists>w' n raw. recovery_authorization_digest demo_codec (\<lambda>s. s) [cps ''m''] (replicate 43 65) (cps ''reset'')
      (Some (of_nat 1000)) (Some (cps ''01234567-89ab-4cde-8f01-23456789abcd'')) (demo_env None) record_world
        = (Inr (replicate 64 97), w')
    \<and> w_fs w' (recovery_directory [cps ''m''] @ [replicate 64 97]) = Some n \<and> n_kind n = Regular raw
    \<and> \<not> is_ok (check_record (\<lambda>s. s) (cps ''reset'') 1001 raw)"
proof -
  let ?d = "recovery_directory [cps ''m'']" and ?n = "replicate 64 97 :: pystr" and ?e = "demo_env None"
  let ?body = "record_body [49] (cps ''reset'') 1300 (cps ''ada'')"
  let ?node = "\<lparr>n_kind = Regular ?body, n_mode = 384, n_uid = 0, n_gid = 0\<rparr>"
  have u: "username_ok (cps ''ada'')" by (simp add: username_ok_def username_char_def is_alnum_def)
  have a: "keeps_ascii (\<lambda>s. s)" "cps ''reset'' \<in> set RECOVERY_ACTIONS" "token_name demo_codec (replicate 43 65) = Inr ?n"
    "sha_ok demo_codec" "c_sha256 demo_codec [] = ?n"
    by (simp_all add: keeps_ascii_def RECOVERY_ACTIONS_def token_name_def token_ok_def is_alnum_def list_all_iff sha_ok_def
        hex_text_def demo_codec_def hex_digit_def)
  have p: "private_dir ?e (w_fs record_world) ?d"
    by (simp add: private_dir_def recovery_directory_def safe_component_def is_dir_def record_world_def dir_node_def
        dir_metadata_ok_def demo_env_def)
  have f: "w_fs record_world (?d @ [?n]) = Some ?node"
    by (simp add: record_world_def recovery_directory_def)
  have safe: "safe_component ?n" using sha_safe [OF a(4), of "[]"] a(5) by simp
  have b: "boot_id_ok (lower_ascii (strip (cps ''01234567-89ab-4cde-8f01-23456789abcd'')))"
    by (simp add: boot_id_ok_def lower_ascii_def strip_def lstrip_def rstrip_def py_isspace_def
        is_hex_lower_def is_digit_def upt_rec)
  have ck: "is_ok (check_record (\<lambda>s. s) (cps ''reset'') 1000 ?body)"
    using check_record_iff [OF a(1) u a(2)] by (simp del: cps_Cons)
  then obtain ex su where c: "check_record (\<lambda>s. s) (cps ''reset'') 1000 ?body = Inr (ex, su)"
    unfolding is_ok_def by (cases "check_record (\<lambda>s. s) (cps ''reset'') 1000 ?body") auto
  have tmp: "no_temporary ?e (w_fs record_world) ?d ?n"
    by (simp add: no_temporary_def record_world_def recovery_directory_def temporary_name_def)
  have len: "length ?body \<le> 512" using record_body_short [OF a(2) u] by simp
  obtain w' where r: "recovery_authorization_digest demo_codec (\<lambda>s. s) [cps ''m''] (replicate 43 65) (cps ''reset'')
      (Some (of_nat 1000)) (Some (cps ''01234567-89ab-4cde-8f01-23456789abcd'')) ?e record_world = (Inr ?n, w')"
    using recovery_digest_runs [OF demo_env_fair p safe refl f _ _ len a(3,2) tmp c b] by (auto simp del: cps_Cons)
  from recovery_digest_spends [OF r, of "cps ''reset''" 1001] r show ?thesis by blast
qed

end
