(* ===== verification/Exchange_State.thy ===== *)
theory Exchange_State
  imports Complex_Main T1_Prelude Utf8_Decoder "HOL-Library.State_Monad"
begin

text \<open>
  The clipboard of the transfer service (\<open>exchange/exchange.py\<close>): JSON values, the global
  variables of the daemon, validation, setting, clearing, expiry, and the state file.  The
  functions of the module run in a state monad over the record \<open>daemon\<close>; JSON, SHA-256, the
  text Python prints for a value and the outcome of each system call are the parameter
  \<open>xenv\<close>.  Outcomes are indexed by a counter of the calls made, so that every sequence of
  failures is covered.  Logging is not modelled: it is switched off unless \<open>DEBUGEXCHANGE\<close> is
  set, and nothing depends on it.
\<close>

section \<open>JSON values\<close>

text \<open>Objects keep the order of their keys, in which \<open>json.dumps\<close> prints them.\<close>

datatype jv =
    VNull | VBool bool | VInt int | VFloat rat | VStr pystr | VList "jv list"
  | VObj "(pystr \<times> jv) list"

datatype parsed = Parsed jv | BadJson | ParseError

datatype recvd = WouldBlock | RecvError | Received bytes

text \<open>The environment: \<open>x_loads\<close> and \<open>x_dumps\<close> are \<open>json.loads\<close> and
  \<open>json.dumps(..., ensure_ascii=False)\<close>; \<open>x_repr\<close> is \<open>str\<close> of a float, list or object; \<open>x_int\<close>
  is \<open>int\<close> of a text; \<open>x_save\<close> tells for a call whether a file can be opened for writing and how
  many bytes fit; \<open>x_sent\<close> whether \<open>sendall\<close> returns; \<open>x_removed\<close> whether a file can be removed;
  \<open>x_runtime\<close> is the result of \<open>lstat\<close> on the runtime directory (is a directory, owner, group,
  permissions).\<close>

record xenv =
  x_loads :: "pystr \<Rightarrow> parsed"
  x_dumps :: "jv \<Rightarrow> pystr option"
  x_repr :: "jv \<Rightarrow> pystr"
  x_int :: "pystr \<Rightarrow> int option"
  x_sha256 :: "bytes \<Rightarrow> pystr"
  x_time :: "nat \<Rightarrow> int"
  x_save :: "nat \<Rightarrow> nat option"
  x_sent :: "nat \<Rightarrow> bool"
  x_removed :: "nat \<Rightarrow> bool"
  x_readable :: bool
  x_runtime :: "(bool \<times> nat \<times> nat \<times> nat) option"
  x_random :: bytes
  x_pid :: nat
  x_bound :: bool
  x_listening :: bool

definition py_str :: "xenv \<Rightarrow> jv \<Rightarrow> pystr" where
  "py_str e v = (case v of
     VNull \<Rightarrow> cps ''None'' | VBool b \<Rightarrow> (if b then cps ''True'' else cps ''False'')
   | VInt i \<Rightarrow> dec_int i | VStr s \<Rightarrow> s | _ \<Rightarrow> x_repr e v)"

definition int_of :: "xenv \<Rightarrow> jv \<Rightarrow> int res" where
  "int_of e v = (case v of
     VBool b \<Rightarrow> Inr (if b then 1 else 0) | VInt i \<Rightarrow> Inr i
   | VFloat x \<Rightarrow> Inr (if 0 \<le> x then floor x else ceiling x)
   | VStr s \<Rightarrow> (case x_int e s of None \<Rightarrow> Inl ValueError | Some i \<Rightarrow> Inr i)
   | _ \<Rightarrow> Inl TypeError)"

text \<open>\<open>obj.get(key, default)\<close> of a dictionary.\<close>

definition vget :: "(pystr \<times> jv) list \<Rightarrow> string \<Rightarrow> jv \<Rightarrow> jv" where
  "vget obj key dflt = (case map_of obj (cps key) of None \<Rightarrow> dflt | Some v \<Rightarrow> v)"

definition vtxt :: "string \<Rightarrow> jv" where
  "vtxt s = VStr (cps s)"

definition vobj :: "(string \<times> jv) list \<Rightarrow> jv" where
  "vobj kvs = VObj (map (\<lambda>(k, v). (cps k, v)) kvs)"

section \<open>The daemon's variables\<close>

definition MAXBYTES :: nat where "MAXBYTES = 1048576"

definition MAXMSG :: nat where "MAXMSG = 1048576"

record clip =
  st_type :: pystr
  st_data :: pystr
  st_hash :: pystr
  st_ts :: int
  st_source :: pystr
  st_bytes :: nat
  st_ttl :: int

definition empty_clip :: clip where
  "empty_clip = \<lparr>st_type = cps ''empty'', st_data = [], st_hash = [], st_ts = 0, st_source = cps ''system'',
     st_bytes = 0, st_ttl = 0\<rparr>"

type_synonym cli = nat

text \<open>Besides the globals: the files of the runtime directory, the sockets closed so far, the
  number of the next accepted socket, the objects sent, and the number of calls.\<close>

record daemon =
  STATE :: clip
  CLIENTS :: "cli list"
  CLIENTBUFS :: "cli \<rightharpoonup> bytes"
  WATCHERS :: "cli list"
  RUNNING :: bool
  SHUTKEY :: pystr
  d_file :: "bytes option"
  d_pid :: "bytes option"
  d_key :: "bytes option"
  d_sock :: bool
  d_closed :: "cli list"
  d_next :: nat
  d_out :: "(cli \<times> jv) list"
  d_calls :: nat

definition daemon_init :: daemon where
  "daemon_init = \<lparr>STATE = empty_clip, CLIENTS = [], CLIENTBUFS = (\<lambda>_. None), WATCHERS = [], RUNNING = True,
     SHUTKEY = [], d_file = None, d_pid = None, d_key = None, d_sock = False, d_closed = [], d_next = 0,
     d_out = [], d_calls = 0\<rparr>"

type_synonym 'a xd = "(daemon, 'a) state"

definition tickd :: "nat xd" where
  "tickd = do {d \<leftarrow> State_Monad.get; State_Monad.set (d\<lparr>d_calls := d_calls d + 1\<rparr>); State_Monad.return (d_calls d)}"

definition putd :: "(daemon \<Rightarrow> daemon) \<Rightarrow> unit xd" where
  "putd f = do {d \<leftarrow> State_Monad.get; State_Monad.set (f d)}"

definition nowsec :: "xenv \<Rightarrow> int xd" where
  "nowsec e = do {n \<leftarrow> tickd; State_Monad.return (x_time e n)}"

definition makehash :: "xenv \<Rightarrow> pystr \<Rightarrow> pystr" where
  "makehash e text = x_sha256 e (utf8_replace text)"

section \<open>The state file\<close>

definition clip_obj :: "clip \<Rightarrow> (string \<times> jv) list" where
  "clip_obj st = [(''type'', VStr (st_type st)), (''data'', VStr (st_data st)), (''hash'', VStr (st_hash st)),
     (''ts'', VInt (st_ts st)), (''source'', VStr (st_source st)), (''bytes'', VInt (int (st_bytes st))),
     (''ttl'', VInt (st_ttl st))]"

definition clip_json :: "clip \<Rightarrow> jv" where
  "clip_json st = vobj (clip_obj st)"

text \<open>\<open>open(path, 'w')\<close> and one \<open>write\<close>: opening empties the file, a text that cannot be encoded
  raises with nothing written, and a full disk leaves a prefix.\<close>

definition write_text :: "xenv \<Rightarrow> nat \<Rightarrow> pystr \<Rightarrow> (bytes option \<times> bool)" where
  "write_text e n raw = (case x_save e n of
     None \<Rightarrow> (None, False)
   | Some k \<Rightarrow> (case utf8_strict raw of
       Inl _ \<Rightarrow> (Some [], False)
     | Inr bs \<Rightarrow> (Some (take k bs), length bs \<le> k)))"

definition savestate :: "xenv \<Rightarrow> bool xd" where
  "savestate e = do {
     n \<leftarrow> tickd;
     d \<leftarrow> State_Monad.get;
     case x_dumps e (clip_json (STATE d)) of
       None \<Rightarrow> State_Monad.return False
     | Some raw \<Rightarrow>
         (case write_text e n raw of
            (None, ok) \<Rightarrow> State_Monad.return ok
          | (Some bs, ok) \<Rightarrow> do {putd (\<lambda>d. d\<lparr>d_file := Some bs\<rparr>); State_Monad.return ok})}"

definition loaded_clip :: "xenv \<Rightarrow> (pystr \<times> jv) list \<Rightarrow> clip option res" where
  "loaded_clip e kvs =
     (let t = py_str e (vget kvs ''type'' (vtxt ''empty'')); d = py_str e (vget kvs ''data'' (VStr []));
          s = py_str e (vget kvs ''source'' (vtxt ''system''))
      in rbind (int_of e (vget kvs ''ts'' (VInt 0))) (\<lambda>ts.
         rbind (int_of e (vget kvs ''ttl'' (VInt 0))) (\<lambda>ttl.
           let b = length (utf8_replace d) in
           if b > MAXBYTES then Inr None
           else Inr (Some \<lparr>st_type = t, st_data = d, st_hash = makehash e d, st_ts = ts, st_source = s,
                  st_bytes = b, st_ttl = ttl\<rparr>))))"

definition loadstate :: "xenv \<Rightarrow> (unit res) xd" where
  "loadstate e = do {
     d \<leftarrow> State_Monad.get;
     (case d_file d of
        None \<Rightarrow> State_Monad.return (Inr ())
      | Some bs \<Rightarrow>
          (if \<not> x_readable e then State_Monad.return (Inr ())
           else case decode_text bs of
               Inl _ \<Rightarrow> State_Monad.return (Inr ())
             | Inr raw \<Rightarrow> (case x_loads e raw of
                 Parsed (VObj kvs) \<Rightarrow>
                   (case loaded_clip e kvs of
                      Inl err \<Rightarrow> State_Monad.return (Inl err)
                    | Inr None \<Rightarrow> State_Monad.return (Inr ())
                    | Inr (Some st) \<Rightarrow> do {putd (\<lambda>d. d\<lparr>STATE := st\<rparr>); State_Monad.return (Inr ())})
               | Parsed _ \<Rightarrow> State_Monad.return (Inl AttributeError)
               | _ \<Rightarrow> State_Monad.return (Inr ()))))}"

section \<open>Validation and expiry\<close>

definition validtext :: "xenv \<Rightarrow> jv \<Rightarrow> bool \<times> pystr" where
  "validtext e v =
     (if v = VNull then (False, cps ''no text'')
      else let text = py_str e v in
        if 0 \<in> set text then (False, cps ''null byte'')
        else if length (utf8_replace text) > MAXBYTES then (False, cps ''too large'')
        else (True, []))"

definition expired :: "xenv \<Rightarrow> clip \<Rightarrow> bool xd" where
  "expired e st =
     (if st_ttl st \<le> 0 \<or> st_ts st \<le> 0 then State_Monad.return False
      else do {now \<leftarrow> nowsec e; State_Monad.return (st_ts st + st_ttl st \<le> now)})"

section \<open>State functions\<close>

definition put_clip :: "xenv \<Rightarrow> pystr \<Rightarrow> pystr \<Rightarrow> pystr \<Rightarrow> nat \<Rightarrow> pystr \<Rightarrow> unit xd" where
  "put_clip e t text h b source = do {
     now \<leftarrow> nowsec e;
     putd (\<lambda>d. d\<lparr>STATE := \<lparr>st_type = t, st_data = text, st_hash = h, st_ts = now, st_source = source,
       st_bytes = b, st_ttl = 0\<rparr>\<rparr>)}"

definition saved :: "xenv \<Rightarrow> (bool \<times> pystr) xd" where
  "saved e = do {
     ok \<leftarrow> savestate e;
     State_Monad.return (if ok then (True, []) else (False, cps ''save error''))}"

text \<open>A value that is no text passes \<open>validtext\<close>, which converts a local copy, and then has no
  \<open>encode\<close>.\<close>

definition setstatetype :: "xenv \<Rightarrow> pystr \<Rightarrow> jv \<Rightarrow> pystr \<Rightarrow> (bool \<times> pystr) xd" where
  "setstatetype e t text source =
     (if \<not> fst (validtext e text) then State_Monad.return (False, snd (validtext e text))
      else case text of
          VStr s \<Rightarrow> do {
            put_clip e t s (makehash e s) (length (utf8_replace s)) source;
            saved e}
        | _ \<Rightarrow> State_Monad.return (False, cps ''encode error''))"

definition setstate :: "xenv \<Rightarrow> jv \<Rightarrow> pystr \<Rightarrow> (bool \<times> pystr) xd" where
  "setstate e text source = setstatetype e (cps ''text'') text source"

definition clearstate :: "xenv \<Rightarrow> pystr \<Rightarrow> (bool \<times> pystr) xd" where
  "clearstate e source = do {
     put_clip e (cps ''empty'') [] [] 0 source;
     saved e}"

definition getstate :: "xenv \<Rightarrow> clip xd" where
  "getstate e = do {
     d \<leftarrow> State_Monad.get;
     late \<leftarrow> expired e (STATE d);
     (if late then do {_ \<leftarrow> clearstate e (cps ''system:expired''); State_Monad.return ()}
      else State_Monad.return ());
     d \<leftarrow> State_Monad.get;
     State_Monad.return (STATE d)}"

end
