(* ===== verification/Exchange_Daemon.thy ===== *)
theory Exchange_Daemon
  imports Exchange_State
begin

text \<open>
  The daemon and the clients of the transfer service (\<open>exchange/exchange.py\<close>): permission,
  sockets and message framing, the operations, the main loop with its startup and shutdown, and
  the client functions.  A socket the daemon accepts is a number; the outcome of \<open>select\<close>,
  \<open>accept\<close> and \<open>recv\<close> is the input of the loop.  A signal is taken between two rounds of the
  loop.
\<close>

section \<open>Permission\<close>

definition op_of :: "xenv \<Rightarrow> (pystr \<times> jv) list \<Rightarrow> pystr" where
  "op_of e kvs = strip (py_str e (vget kvs ''op'' (VStr [])))"

definition allowed :: "xenv \<Rightarrow> pystr \<Rightarrow> jv \<Rightarrow> bool" where
  "allowed e shutkey msg = (case msg of
     VObj kvs \<Rightarrow> op_of e kvs \<noteq> [] \<and>
       (op_of e kvs = cps ''shutdown'' \<longrightarrow> py_str e (vget kvs ''key'' (VStr [])) = shutkey)
   | _ \<Rightarrow> False)"

section \<open>Sockets\<close>

definition acceptclient :: "bool \<Rightarrow> unit xd" where
  "acceptclient accepted =
     (if accepted then putd (\<lambda>d. d\<lparr>d_next := d_next d + 1, CLIENTBUFS := (CLIENTBUFS d)(d_next d \<mapsto> []),
        CLIENTS := CLIENTS d @ [d_next d]\<rparr>)
      else State_Monad.return ())"

definition dropclient :: "cli \<Rightarrow> unit xd" where
  "dropclient cli = putd (\<lambda>d. d\<lparr>WATCHERS := remove1 cli (WATCHERS d), CLIENTS := remove1 cli (CLIENTS d),
     CLIENTBUFS := (CLIENTBUFS d)(cli := None), d_closed := cli # d_closed d\<rparr>)"

definition sendobj :: "xenv \<Rightarrow> cli \<Rightarrow> jv \<Rightarrow> bool xd" where
  "sendobj e cli v = do {
     n \<leftarrow> tickd;
     d \<leftarrow> State_Monad.get;
     (if x_dumps e v = None \<or> cli \<in> set (d_closed d) \<or> \<not> x_sent e n then State_Monad.return False
      else do {putd (\<lambda>d. d\<lparr>d_out := d_out d @ [(cli, v)]\<rparr>); State_Monad.return True})}"

fun send_each :: "xenv \<Rightarrow> cli list \<Rightarrow> jv \<Rightarrow> (cli list) xd" where
  "send_each e [] event = State_Monad.return []"
| "send_each e (w # ws) event = do {
     ok \<leftarrow> sendobj e w event;
     dead \<leftarrow> send_each e ws event;
     State_Monad.return (if ok then dead else w # dead)}"

fun drop_each :: "cli list \<Rightarrow> unit xd" where
  "drop_each [] = State_Monad.return ()"
| "drop_each (c # cs) = do {dropclient c; drop_each cs}"

definition notify :: "xenv \<Rightarrow> jv \<Rightarrow> unit xd" where
  "notify e event = do {
     d \<leftarrow> State_Monad.get;
     dead \<leftarrow> send_each e (WATCHERS d) event;
     drop_each dead}"

section \<open>Messages\<close>

definition error_reply :: "string \<Rightarrow> jv" where
  "error_reply err = vobj [(''ok'', VBool False), (''error'', vtxt err)]"

definition bytes_space :: "nat \<Rightarrow> bool" where
  "bytes_space b \<longleftrightarrow> b = 32 \<or> (9 \<le> b \<and> b \<le> 13)"

definition newline_at :: "bytes \<Rightarrow> nat option" where
  "newline_at buf = (let i = length (takeWhile (\<lambda>b. b \<noteq> 10) buf) in if i < length buf then Some i else None)"

lemma newline_at_less: "newline_at buf = Some i \<Longrightarrow> i < length buf"
  by (auto simp: newline_at_def Let_def split: if_splits)

text \<open>One line: blank lines are skipped, what is no JSON is answered with an error.\<close>

definition read_line :: "xenv \<Rightarrow> cli \<Rightarrow> bytes \<Rightarrow> (jv list) xd" where
  "read_line e cli line =
     (if list_all bytes_space line then State_Monad.return []
      else case x_loads e (utf8_decode line) of
          Parsed v \<Rightarrow> State_Monad.return [v]
        | BadJson \<Rightarrow> do {_ \<leftarrow> sendobj e cli (error_reply ''bad json''); State_Monad.return []}
        | ParseError \<Rightarrow> do {_ \<leftarrow> sendobj e cli (error_reply ''parse error''); State_Monad.return []})"

function read_lines :: "xenv \<Rightarrow> cli \<Rightarrow> bytes \<Rightarrow> (jv list \<times> bytes) xd" where
  "read_lines e cli buf = (case newline_at buf of
     None \<Rightarrow> State_Monad.return ([], buf)
   | Some i \<Rightarrow> do {
       ms \<leftarrow> read_line e cli (take i buf);
       (rest, remainder) \<leftarrow> read_lines e cli (drop (i + 1) buf);
       State_Monad.return (ms @ rest, remainder)})"
  by pat_completeness auto
termination
  by (relation "measure (\<lambda>(e, cli, buf). length buf)") (auto dest: newline_at_less)

declare read_lines.simps [simp del]

text \<open>Reading from a socket that was closed in the same round raises.\<close>

definition readmsgs :: "xenv \<Rightarrow> cli \<Rightarrow> recvd \<Rightarrow> (jv list) xd" where
  "readmsgs e cli r = do {
     d \<leftarrow> State_Monad.get;
     (case (if cli \<in> set (d_closed d) then RecvError else r) of
        WouldBlock \<Rightarrow> State_Monad.return []
      | RecvError \<Rightarrow> do {dropclient cli; State_Monad.return []}
      | Received data \<Rightarrow>
          (if data = [] then do {dropclient cli; State_Monad.return []}
           else let buf = (case CLIENTBUFS d cli of None \<Rightarrow> [] | Some b \<Rightarrow> b) @ data in
             if length buf > MAXMSG then do {
               _ \<leftarrow> sendobj e cli (error_reply ''message too large'');
               dropclient cli;
               State_Monad.return []}
             else do {
               (msgs, remainder) \<leftarrow> read_lines e cli buf;
               putd (\<lambda>d. d\<lparr>CLIENTBUFS := (CLIENTBUFS d)(cli \<mapsto> remainder)\<rparr>);
               State_Monad.return msgs}))}"

section \<open>Operations\<close>

definition opping :: "xenv \<Rightarrow> jv xd" where
  "opping e = do {
     st \<leftarrow> getstate e;
     now \<leftarrow> nowsec e;
     State_Monad.return (vobj [(''ok'', VBool True), (''daemon'', vtxt ''exchange''), (''ts'', VInt now),
       (''statehash'', VStr (st_hash st)), (''statetype'', VStr (st_type st)), (''bytes'', VInt (int (st_bytes st)))])}"

definition opget :: "xenv \<Rightarrow> jv xd" where
  "opget e = do {
     st \<leftarrow> getstate e;
     State_Monad.return (vobj [(''ok'', VBool True), (''state'', clip_json st)])}"

definition opmeta :: "xenv \<Rightarrow> jv xd" where
  "opmeta e = do {
     st \<leftarrow> getstate e;
     State_Monad.return (vobj [(''ok'', VBool True), (''type'', VStr (st_type st)), (''hash'', VStr (st_hash st)),
       (''ts'', VInt (st_ts st)), (''source'', VStr (st_source st)), (''bytes'', VInt (int (st_bytes st))),
       (''ttl'', VInt (st_ttl st))])}"

definition changed_event :: "clip \<Rightarrow> jv" where
  "changed_event st = vobj [(''event'', vtxt ''changed''), (''hash'', VStr (st_hash st)), (''ts'', VInt (st_ts st)),
     (''source'', VStr (st_source st)), (''bytes'', VInt (int (st_bytes st)))]"

definition failed :: "pystr \<Rightarrow> jv" where
  "failed err = vobj [(''ok'', VBool False), (''error'', VStr err)]"

definition clip_types :: "pystr list" where
  "clip_types = [cps ''text'', cps ''files'', cps ''html'', cps ''image'']"

definition opset :: "xenv \<Rightarrow> (pystr \<times> jv) list \<Rightarrow> jv xd" where
  "opset e kvs =
     (let t = py_str e (vget kvs ''type'' (vtxt ''text'')); v = vget kvs ''data'' (VStr []);
          s = py_str e (vget kvs ''source'' (vtxt ''app''))
      in if t \<notin> set clip_types then State_Monad.return (error_reply ''unsupported type'')
         else do {
           (ok, err) \<leftarrow> setstatetype e t (VStr (py_str e v)) s;
           (if \<not> ok then State_Monad.return (failed err)
            else do {
              st \<leftarrow> getstate e;
              notify e (changed_event st);
              State_Monad.return (vobj [(''ok'', VBool True), (''hash'', VStr (st_hash st)), (''ts'', VInt (st_ts st))])})})"

definition opclear :: "xenv \<Rightarrow> (pystr \<times> jv) list \<Rightarrow> jv xd" where
  "opclear e kvs = do {
     (ok, err) \<leftarrow> clearstate e (py_str e (vget kvs ''source'' (vtxt ''app'')));
     (if \<not> ok then State_Monad.return (failed err)
      else do {
        st \<leftarrow> getstate e;
        notify e (changed_event st);
        State_Monad.return (vobj [(''ok'', VBool True), (''ts'', VInt (st_ts st))])})}"

definition ready_event :: "clip \<Rightarrow> jv" where
  "ready_event st = vobj [(''event'', vtxt ''ready''), (''hash'', VStr (st_hash st)), (''ts'', VInt (st_ts st)),
     (''type'', VStr (st_type st)), (''bytes'', VInt (int (st_bytes st)))]"

definition ok_reply :: jv where
  "ok_reply = vobj [(''ok'', VBool True)]"

definition opwatch :: "xenv \<Rightarrow> cli \<Rightarrow> jv xd" where
  "opwatch e cli = do {
     putd (\<lambda>d. if cli \<in> set (WATCHERS d) then d else d\<lparr>WATCHERS := WATCHERS d @ [cli]\<rparr>);
     st \<leftarrow> getstate e;
     _ \<leftarrow> sendobj e cli (ready_event st);
     State_Monad.return ok_reply}"

definition opunwatch :: "cli \<Rightarrow> jv xd" where
  "opunwatch cli = do {
     putd (\<lambda>d. d\<lparr>WATCHERS := remove1 cli (WATCHERS d)\<rparr>);
     State_Monad.return ok_reply}"

definition opshutdown :: "jv xd" where
  "opshutdown = do {
     putd (\<lambda>d. d\<lparr>RUNNING := False\<rparr>);
     State_Monad.return ok_reply}"

definition route :: "xenv \<Rightarrow> cli \<Rightarrow> (pystr \<times> jv) list \<Rightarrow> pystr \<Rightarrow> jv xd" where
  "route e cli kvs op =
     (if op = cps ''ping'' then opping e
      else if op = cps ''get'' then opget e
      else if op = cps ''meta'' then opmeta e
      else if op = cps ''set'' then opset e kvs
      else if op = cps ''clear'' then opclear e kvs
      else if op = cps ''watch'' then opwatch e cli
      else if op = cps ''unwatch'' then opunwatch cli
      else if op = cps ''shutdown'' then opshutdown
      else State_Monad.return (error_reply ''unknown op''))"

definition handle :: "xenv \<Rightarrow> cli \<Rightarrow> jv \<Rightarrow> jv xd" where
  "handle e cli msg = do {
     d \<leftarrow> State_Monad.get;
     (if \<not> allowed e (SHUTKEY d) msg then State_Monad.return (error_reply ''not allowed'')
      else case msg of
          VObj kvs \<Rightarrow> route e cli kvs (op_of e kvs)
        | _ \<Rightarrow> State_Monad.return (error_reply ''bad op''))}"

section \<open>The main loop\<close>

fun answer :: "xenv \<Rightarrow> cli \<Rightarrow> jv list \<Rightarrow> unit xd" where
  "answer e s [] = State_Monad.return ()"
| "answer e s (m # ms) = do {
     res \<leftarrow> handle e s m;
     ok \<leftarrow> sendobj e s res;
     (if ok then answer e s ms else dropclient s)}"

datatype ready = Server bool | Client cli recvd

fun serve :: "xenv \<Rightarrow> ready \<Rightarrow> unit xd" where
  "serve e (Server accepted) = acceptclient accepted"
| "serve e (Client s r) = do {msgs \<leftarrow> readmsgs e s r; answer e s msgs}"

fun serve_all :: "xenv \<Rightarrow> ready list \<Rightarrow> unit xd" where
  "serve_all e [] = State_Monad.return ()"
| "serve_all e (r # rs) = do {serve e r; serve_all e rs}"

text \<open>The outcome of one \<open>select\<close>; \<open>Signal\<close> is a signal taken before it.\<close>

datatype selected = Interrupted | SelectError | Signal | Ready "ready list"

definition handlesig :: "unit xd" where
  "handlesig = putd (\<lambda>d. d\<lparr>RUNNING := False\<rparr>)"

text \<open>\<open>select\<close> returns sockets of the list it was given, the server and the clients.\<close>

definition from_rlist :: "daemon \<Rightarrow> ready \<Rightarrow> bool" where
  "from_rlist d r = (case r of Server _ \<Rightarrow> True | Client s _ \<Rightarrow> s \<in> set (CLIENTS d))"

fun loop_round :: "xenv \<Rightarrow> selected \<Rightarrow> unit xd" where
  "loop_round e (Ready rs) = do {d \<leftarrow> State_Monad.get; serve_all e (filter (from_rlist d) rs)}"
| "loop_round e Signal = handlesig"
| "loop_round e Interrupted = State_Monad.return ()"
| "loop_round e SelectError = State_Monad.return ()"

fun main_loop :: "xenv \<Rightarrow> selected list \<Rightarrow> unit xd" where
  "main_loop e [] = State_Monad.return ()"
| "main_loop e (r # rs) = do {
     d \<leftarrow> State_Monad.get;
     (if RUNNING d then do {loop_round e r; main_loop e rs} else State_Monad.return ())}"

section \<open>Startup and shutdown\<close>

datatype runtime_fault = Unavailable | NotTier | BadOwner | BadMode

definition validateruntime :: "xenv \<Rightarrow> runtime_fault option" where
  "validateruntime e = (case x_runtime e of
     None \<Rightarrow> Some Unavailable
   | Some (is_tier, uid, gid, mode) \<Rightarrow>
       if \<not> is_tier then Some NotTier
       else if uid \<noteq> 0 \<or> gid \<noteq> 1000 then Some BadOwner
       else if mode \<noteq> 1480 then Some BadMode
       else None)"

text \<open>\<open>removestale\<close>, \<open>clearpid\<close> and \<open>clearkey\<close>: a missing file is no failure.\<close>

definition removestale :: "xenv \<Rightarrow> bool xd" where
  "removestale e = do {
     n \<leftarrow> tickd;
     d \<leftarrow> State_Monad.get;
     (if \<not> d_sock d then State_Monad.return True
      else if \<not> x_removed e n then State_Monad.return False
      else do {putd (\<lambda>d. d\<lparr>d_sock := False\<rparr>); State_Monad.return True})}"

definition clearpid :: "xenv \<Rightarrow> unit xd" where
  "clearpid e = do {n \<leftarrow> tickd; putd (\<lambda>d. if x_removed e n then d\<lparr>d_pid := None\<rparr> else d)}"

definition clearkey :: "xenv \<Rightarrow> unit xd" where
  "clearkey e = do {n \<leftarrow> tickd; putd (\<lambda>d. if x_removed e n then d\<lparr>d_key := None\<rparr> else d)}"

definition randkey :: "xenv \<Rightarrow> pystr" where
  "randkey e = x_sha256 e (x_random e)"

definition writekey :: "xenv \<Rightarrow> pystr \<Rightarrow> bool xd" where
  "writekey e key = do {
     n \<leftarrow> tickd;
     (case write_text e n key of
        (None, ok) \<Rightarrow> State_Monad.return ok
      | (Some bs, ok) \<Rightarrow> do {putd (\<lambda>d. d\<lparr>d_key := Some bs\<rparr>); State_Monad.return ok})}"

definition writepid :: "xenv \<Rightarrow> bool xd" where
  "writepid e = do {
     n \<leftarrow> tickd;
     (case write_text e n (dec_nat (x_pid e)) of
        (None, ok) \<Rightarrow> State_Monad.return ok
      | (Some bs, ok) \<Rightarrow> do {putd (\<lambda>d. d\<lparr>d_pid := Some bs\<rparr>); State_Monad.return ok})}"

definition serveropen :: "xenv \<Rightarrow> bool xd" where
  "serveropen e = (if x_bound e then do {putd (\<lambda>d. d\<lparr>d_sock := True\<rparr>); State_Monad.return (x_listening e)}
     else State_Monad.return False)"

definition drop_all :: "unit xd" where
  "drop_all = do {d \<leftarrow> State_Monad.get; drop_each (CLIENTS d)}"

definition shut_down :: "xenv \<Rightarrow> int xd" where
  "shut_down e = do {
     drop_all;
     _ \<leftarrow> removestale e;
     clearpid e;
     clearkey e;
     State_Monad.return 0}"

text \<open>The checks before the loop, in their order; \<open>Inr False\<close> is the return of 1.\<close>

definition prepare :: "xenv \<Rightarrow> (bool res) xd" where
  "prepare e =
     (if validateruntime e \<noteq> None then State_Monad.return (Inr False)
      else do {
        ok \<leftarrow> removestale e;
        (if \<not> ok then State_Monad.return (Inr False)
         else do {
           putd (\<lambda>d. d\<lparr>SHUTKEY := randkey e\<rparr>);
           (if randkey e = [] then State_Monad.return (Inr False)
            else do {
              ok \<leftarrow> writekey e (randkey e);
              (if \<not> ok then State_Monad.return (Inr False)
               else do {
                 ok \<leftarrow> writepid e;
                 (if \<not> ok then State_Monad.return (Inr False)
                  else do {
                    r \<leftarrow> loadstate e;
                    (case r of
                       Inl err \<Rightarrow> State_Monad.return (Inl err)
                     | Inr _ \<Rightarrow> do {
                         srv \<leftarrow> serveropen e;
                         (if srv then State_Monad.return (Inr True)
                          else do {clearpid e; clearkey e; State_Monad.return (Inr False)})})})})})})})"

text \<open>\<open>None\<close> is a daemon that is still serving when the given rounds are over.\<close>

definition daemonrun :: "xenv \<Rightarrow> selected list \<Rightarrow> (int res option) xd" where
  "daemonrun e rounds = do {
     r \<leftarrow> prepare e;
     (case r of
        Inl err \<Rightarrow> State_Monad.return (Some (Inl err))
      | Inr False \<Rightarrow> State_Monad.return (Some (Inr 1))
      | Inr True \<Rightarrow> do {
          main_loop e rounds;
          d \<leftarrow> State_Monad.get;
          (if RUNNING d then State_Monad.return None
           else do {code \<leftarrow> shut_down e; State_Monad.return (Some (Inr code))})})}"

section \<open>Clients\<close>

text \<open>What the client's socket delivers: the outcome of each \<open>recv\<close> and the seconds since the call
  started.  Running out of it is a \<open>recv\<close> that blocks.\<close>

type_synonym stream = "(bytes option \<times> rat) list"

datatype reply = Blocked | NoReply | Reply jv

fun exrecv :: "xenv \<Rightarrow> rat \<Rightarrow> bytes \<Rightarrow> stream \<Rightarrow> reply \<times> stream" where
  "exrecv e timeout buf [] = (Blocked, [])"
| "exrecv e timeout buf ((r, elapsed) # rs) = (case r of
     None \<Rightarrow> (NoReply, rs)
   | Some data \<Rightarrow>
       if data = [] then (NoReply, rs)
       else let buf1 = buf @ data in
         if length buf1 > MAXMSG then (NoReply, rs)
         else case newline_at buf1 of
             Some i \<Rightarrow> (case x_loads e (utf8_decode (take i buf1)) of Parsed v \<Rightarrow> Reply v | _ \<Rightarrow> NoReply, rs)
           | None \<Rightarrow> if elapsed > timeout then (NoReply, rs) else exrecv e timeout buf1 rs)"

text \<open>The bytes a client sends for a message, when it can connect and send.\<close>

definition request_line :: "xenv \<Rightarrow> jv \<Rightarrow> bytes option" where
  "request_line e msg = (case x_dumps e msg of None \<Rightarrow> None | Some raw \<Rightarrow> Some (utf8_replace (raw @ [10])))"

definition excall :: "xenv \<Rightarrow> bool \<Rightarrow> jv \<Rightarrow> stream \<Rightarrow> reply" where
  "excall e reachable msg rs =
     (if \<not> reachable \<or> request_line e msg = None then NoReply else fst (exrecv e 2 [] rs))"

text \<open>Truth of a value, as \<open>not res.get('ok', False)\<close> tests it.\<close>

definition truthy :: "jv \<Rightarrow> bool" where
  "truthy v = (case v of VNull \<Rightarrow> False | VBool b \<Rightarrow> b | VInt i \<Rightarrow> i \<noteq> 0 | VFloat x \<Rightarrow> x \<noteq> 0
     | VStr s \<Rightarrow> s \<noteq> [] | VList xs \<Rightarrow> xs \<noteq> [] | VObj kvs \<Rightarrow> kvs \<noteq> [])"

text \<open>The pair most client functions return; \<open>None\<close> is a call that does not return, a reply that is
  no object an \<open>AttributeError\<close>.\<close>

definition ok_result :: "reply \<Rightarrow> ((bool \<times> jv) res) option" where
  "ok_result r = (case r of
     Blocked \<Rightarrow> None
   | NoReply \<Rightarrow> Some (Inr (False, VObj []))
   | Reply (VObj kvs) \<Rightarrow> Some (Inr (truthy (vget kvs ''ok'' (VBool False)), VObj kvs))
   | Reply _ \<Rightarrow> Some (Inl AttributeError))"

definition exping :: "xenv \<Rightarrow> bool \<Rightarrow> stream \<Rightarrow> ((bool \<times> jv) res) option" where
  "exping e reachable rs = ok_result (excall e reachable (vobj [(''op'', vtxt ''ping'')]) rs)"

definition exmeta :: "xenv \<Rightarrow> bool \<Rightarrow> stream \<Rightarrow> ((bool \<times> jv) res) option" where
  "exmeta e reachable rs = ok_result (excall e reachable (vobj [(''op'', vtxt ''meta'')]) rs)"

definition state_of_reply :: "bool \<times> jv \<Rightarrow> bool \<times> jv" where
  "state_of_reply r = (case r of
     (True, VObj kvs) \<Rightarrow> (True, vget kvs ''state'' (VObj [])) | _ \<Rightarrow> r)"

definition exget :: "xenv \<Rightarrow> bool \<Rightarrow> stream \<Rightarrow> ((bool \<times> jv) res) option" where
  "exget e reachable rs =
     map_option (map_sum id state_of_reply) (ok_result (excall e reachable (vobj [(''op'', vtxt ''get'')]) rs))"

definition set_request :: "string \<Rightarrow> pystr \<Rightarrow> jv \<Rightarrow> jv" where
  "set_request t data source =
     vobj [(''op'', vtxt ''set''), (''type'', vtxt t), (''data'', VStr data), (''source'', source)]"

definition exset :: "xenv \<Rightarrow> bool \<Rightarrow> jv \<Rightarrow> jv \<Rightarrow> stream \<Rightarrow> ((bool \<times> jv) res) option" where
  "exset e reachable text source rs = ok_result (excall e reachable (set_request ''text'' (py_str e text) source) rs)"

definition exsethtml :: "xenv \<Rightarrow> bool \<Rightarrow> jv \<Rightarrow> jv \<Rightarrow> stream \<Rightarrow> ((bool \<times> jv) res) option" where
  "exsethtml e reachable text source rs = ok_result (excall e reachable (set_request ''html'' (py_str e text) source) rs)"

definition exsetfiles :: "xenv \<Rightarrow> bool \<Rightarrow> jv \<Rightarrow> jv \<Rightarrow> stream \<Rightarrow> ((bool \<times> jv) res) option" where
  "exsetfiles e reachable payload source rs = (case x_dumps e payload of
     None \<Rightarrow> Some (Inr (False, vobj [(''error'', vtxt ''invalid payload'')]))
   | Some raw \<Rightarrow> ok_result (excall e reachable (set_request ''files'' raw source) rs))"

definition exsetimage :: "xenv \<Rightarrow> bool \<Rightarrow> jv \<Rightarrow> jv \<Rightarrow> stream \<Rightarrow> ((bool \<times> jv) res) option" where
  "exsetimage e reachable payload source rs = (case x_dumps e payload of
     None \<Rightarrow> Some (Inr (False, vobj [(''error'', vtxt ''invalid image payload'')]))
   | Some raw \<Rightarrow> ok_result (excall e reachable (set_request ''image'' raw source) rs))"

definition exclear :: "xenv \<Rightarrow> bool \<Rightarrow> jv \<Rightarrow> stream \<Rightarrow> ((bool \<times> jv) res) option" where
  "exclear e reachable source rs =
     ok_result (excall e reachable (vobj [(''op'', vtxt ''clear''), (''source'', source)]) rs)"

lemma exrecv_shorter: "exrecv e timeout buf rs = (Reply v, rs') \<Longrightarrow> length rs' < length rs"
  by (induction rs arbitrary: buf)
     (fastforce simp: Let_def split: option.splits if_splits prod.splits parsed.splits)+

text \<open>The messages \<open>exwatch\<close> passes to its callback, and whether it returned.\<close>

function watch_loop :: "xenv \<Rightarrow> stream \<Rightarrow> jv list \<times> bool" where
  "watch_loop e rs = (case exrecv e 3600 [] rs of
     (Reply v, rs') \<Rightarrow> (let (vs, ended) = watch_loop e rs' in (v # vs, ended))
   | (NoReply, _) \<Rightarrow> ([], True)
   | (Blocked, _) \<Rightarrow> ([], False))"
  by pat_completeness auto
termination
  by (relation "measure (\<lambda>(e, rs). length rs)") (simp, metis exrecv_shorter in_measure old.prod.case)

declare watch_loop.simps [simp del]

definition exwatch :: "xenv \<Rightarrow> bool \<Rightarrow> bool \<Rightarrow> stream \<Rightarrow> jv list \<times> (bool \<times> jv) option" where
  "exwatch e linked sent rs =
     (if \<not> linked then ([], Some (False, vobj [(''error'', vtxt ''connect error'')]))
      else if \<not> sent then ([], Some (False, vobj [(''error'', vtxt ''send error'')]))
      else let (vs, ended) = watch_loop e rs in (vs, if ended then Some (True, ok_reply) else None))"

end
