(* ===== verification/Exchange_Facts.thy ===== *)
theory Exchange_Facts
  imports Exchange_Daemon
begin

text \<open>
  Invariants of the transfer daemon.  \<open>stays I m\<close> says that \<open>m\<close> keeps \<open>I\<close>.  Three locales state
  what an invariant has to promise so that groups of operations keep it: \<open>clip_ops\<close> for the
  clipboard functions and sending, \<open>socket_ops\<close> for the operations on connections, \<open>loop_ops\<close> for
  the whole loop; their lemmas are proved once and used for the connection tables, for the
  clipboard, and for the frame of each group.
\<close>

section \<open>Keeping an invariant\<close>

named_theorems stays_rules \<open>operations that keep an invariant\<close>

definition stays :: "(daemon \<Rightarrow> bool) \<Rightarrow> 'a xd \<Rightarrow> bool" where
  "stays I m \<longleftrightarrow> (\<forall>d. I d \<longrightarrow> I (snd (run_state m d)))"

lemma staysD: "stays I m \<Longrightarrow> I d \<Longrightarrow> run_state m d = (x, d') \<Longrightarrow> I d'"
  by (metis snd_conv stays_def)

lemma stays_return [stays_rules]: "stays I (State_Monad.return x)"
  by (simp add: stays_def)

lemma stays_bind [stays_rules]: "stays I m \<Longrightarrow> (\<And>x. stays I (f x)) \<Longrightarrow> stays I (State_Monad.bind m f)"
  by (auto simp: stays_def split: prod.splits dest: spec)

lemma stays_get_bind [stays_rules]: "(\<And>d. stays I (f d)) \<Longrightarrow> stays I (State_Monad.bind State_Monad.get f)"
  by (simp add: stays_def)

lemma stays_read: "(\<And>d. I d \<Longrightarrow> I (snd (run_state (f d) d))) \<Longrightarrow> stays I (State_Monad.bind State_Monad.get f)"
  by (simp add: stays_def)

lemma stays_putd: "(\<And>d. I d \<Longrightarrow> I (f d)) \<Longrightarrow> stays I (putd f)"
  by (simp add: stays_def putd_def)

lemma stays_if [stays_rules]: "(b \<Longrightarrow> stays I m) \<Longrightarrow> (\<not> b \<Longrightarrow> stays I m') \<Longrightarrow> stays I (if b then m else m')"
  by simp

lemma stays_option [stays_rules]:
  "(x = None \<Longrightarrow> stays I m) \<Longrightarrow> (\<And>y. x = Some y \<Longrightarrow> stays I (f y)) \<Longrightarrow> stays I (case x of None \<Rightarrow> m | Some y \<Rightarrow> f y)"
  by (cases x) auto

lemma stays_prod [stays_rules]: "(\<And>a b. p = (a, b) \<Longrightarrow> stays I (f a b)) \<Longrightarrow> stays I (case p of (a, b) \<Rightarrow> f a b)"
  by (cases p) auto

lemma stays_sum [stays_rules]:
  "(\<And>a. x = Inl a \<Longrightarrow> stays I (f a)) \<Longrightarrow> (\<And>b. x = Inr b \<Longrightarrow> stays I (g b)) \<Longrightarrow> stays I (case x of Inl a \<Rightarrow> f a | Inr b \<Rightarrow> g b)"
  by (cases x) auto

lemma stays_parsed [stays_rules]:
  "(\<And>v. x = Parsed v \<Longrightarrow> stays I (f v)) \<Longrightarrow> stays I g \<Longrightarrow> stays I h \<Longrightarrow>
   stays I (case x of Parsed v \<Rightarrow> f v | BadJson \<Rightarrow> g | ParseError \<Rightarrow> h)"
  by (cases x) auto

lemma stays_jv [stays_rules]:
  "(\<And>kvs. v = VObj kvs \<Longrightarrow> stays I (f kvs)) \<Longrightarrow> stays I g \<Longrightarrow>
   stays I (case v of VNull \<Rightarrow> g | VBool b \<Rightarrow> g | VInt i \<Rightarrow> g | VFloat q \<Rightarrow> g | VStr t \<Rightarrow> g | VList vs \<Rightarrow> g
     | VObj kvs \<Rightarrow> f kvs)"
  by (cases v) auto

lemma run_tickd [simp]: "run_state tickd d = (d_calls d, d\<lparr>d_calls := d_calls d + 1\<rparr>)"
  by (simp add: tickd_def)

lemma run_putd [simp]: "run_state (putd f) d = ((), f d)"
  by (simp add: putd_def)

section \<open>Invariants of the clipboard functions\<close>

definition clip_ok :: "xenv \<Rightarrow> clip \<Rightarrow> bool" where
  "clip_ok e st \<longleftrightarrow> st_bytes st = length (utf8_replace (st_data st)) \<and> st_bytes st \<le> MAXBYTES
     \<and> (st_hash st = makehash e (st_data st) \<or> st_data st = [] \<and> st_hash st = [])"

locale clip_ops =
  fixes I :: "daemon \<Rightarrow> bool" and e :: xenv
  assumes calls_kept: "I d \<Longrightarrow> I (d\<lparr>d_calls := n\<rparr>)"
    and out_kept: "I d \<Longrightarrow> I (d\<lparr>d_out := xs\<rparr>)"
    and file_kept: "I d \<Longrightarrow> I (d\<lparr>d_file := f\<rparr>)"
    and clip_kept: "I d \<Longrightarrow> clip_ok e st \<Longrightarrow> I (d\<lparr>STATE := st\<rparr>)"
begin

lemma stays_tickd [stays_rules]: "stays I tickd"
  by (simp add: stays_def calls_kept)

lemma stays_nowsec [stays_rules]: "stays I (nowsec e)"
  unfolding nowsec_def by (intro stays_rules)

lemma stays_savestate [stays_rules]: "stays I (savestate e)"
  unfolding savestate_def by (intro stays_rules stays_putd file_kept)

lemma stays_put_clip:
  assumes "b = length (utf8_replace text)" "b \<le> MAXBYTES" "h = makehash e text \<or> text = [] \<and> h = []"
  shows "stays I (put_clip e t text h b source)"
  unfolding put_clip_def by (intro stays_rules stays_putd clip_kept) (use assms in \<open>auto simp: clip_ok_def\<close>)

lemma stays_saved [stays_rules]: "stays I (saved e)"
  unfolding saved_def by (intro stays_rules)

lemma stays_setstatetype [stays_rules]: "stays I (setstatetype e t v source)"
proof (cases v)
  case (VStr s)
  then show ?thesis
    unfolding setstatetype_def
    by (auto simp: validtext_def py_str_def Let_def split: if_splits intro!: stays_rules stays_put_clip)
qed (auto simp: setstatetype_def intro: stays_return)

lemma stays_clearstate [stays_rules]: "stays I (clearstate e source)"
  unfolding clearstate_def by (intro stays_rules stays_put_clip) (auto simp: utf8_replace_def)

lemma stays_getstate [stays_rules]: "stays I (getstate e)"
  unfolding getstate_def expired_def by (intro stays_rules)

lemma stays_sendobj [stays_rules]: "stays I (sendobj e cli v)"
  unfolding sendobj_def by (intro stays_rules stays_putd out_kept)

lemma stays_send_each [stays_rules]: "stays I (send_each e ws event)"
  by (induction ws) (auto intro!: stays_rules)

lemma stays_read_line [stays_rules]: "stays I (read_line e cli line)"
  unfolding read_line_def by (intro stays_rules)

lemma stays_read_lines [stays_rules]: "stays I (read_lines e cli buf)"
proof (induction buf rule: length_induct)
  case (1 buf)
  then show ?case
    by (subst read_lines.simps) (auto intro!: stays_rules split: option.split prod.split dest!: newline_at_less)
qed

end

text \<open>Everything but the clipboard, its file, the log and the call counter is left alone.\<close>

definition same_sockets :: "daemon \<Rightarrow> daemon \<Rightarrow> bool" where
  "same_sockets d0 d \<longleftrightarrow> CLIENTS d = CLIENTS d0 \<and> CLIENTBUFS d = CLIENTBUFS d0 \<and> WATCHERS d = WATCHERS d0
     \<and> d_closed d = d_closed d0 \<and> d_next d = d_next d0 \<and> RUNNING d = RUNNING d0 \<and> SHUTKEY d = SHUTKEY d0
     \<and> d_pid d = d_pid d0 \<and> d_key d = d_key d0 \<and> d_sock d = d_sock d0"

interpretation sockets: clip_ops "same_sockets d0" e for d0 e
  by unfold_locales (simp_all add: same_sockets_def)

lemma same_sockets_refl [simp]: "same_sockets d d"
  by (simp add: same_sockets_def)

lemma same_socketsD: "stays (same_sockets d) m \<Longrightarrow> run_state m d = (x, d') \<Longrightarrow> same_sockets d d'"
  by (rule staysD) simp_all

section \<open>Invariants of the connections\<close>

lemma newline_at_None: "newline_at buf = None \<longleftrightarrow> 10 \<notin> set buf"
proof -
  have "length (takeWhile (\<lambda>b. b \<noteq> 10) buf) < length buf \<longleftrightarrow> 10 \<in> set buf" by (induction buf) auto
  then show ?thesis by (auto simp: newline_at_def Let_def)
qed

lemma read_lines_remainder:
  "run_state (read_lines e cli buf) d = ((ms, r), d') \<Longrightarrow> 10 \<notin> set r \<and> length r \<le> length buf"
proof (induction buf arbitrary: d ms d' rule: length_induct)
  case (1 buf)
  show ?case
  proof (cases "newline_at buf")
    case None
    then show ?thesis
      using "1.prems" newline_at_None [of buf] by (auto simp: read_lines.simps [of e cli buf])
  next
    case (Some i)
    then have "length (drop (i + 1) buf) < length buf" using newline_at_less [OF Some] by simp
    with Some "1" show ?thesis
      by (fastforce simp: read_lines.simps [of e cli buf] split: prod.splits)
  qed
qed

locale socket_ops = clip_ops +
  fixes n :: nat
  assumes next_kept: "I d \<Longrightarrow> d_next d = n"
    and watched: "I d \<Longrightarrow> w \<in> set (WATCHERS d) \<Longrightarrow> w < n"
    and live: "I d \<Longrightarrow> c < n \<Longrightarrow> c \<notin> set (d_closed d) \<Longrightarrow> c \<in> set (CLIENTS d)"
    and drop_kept: "I d \<Longrightarrow> c < n \<Longrightarrow> I (snd (run_state (dropclient c) d))"
    and watch_kept: "I d \<Longrightarrow> c \<in> set (CLIENTS d) \<Longrightarrow> c \<notin> set (WATCHERS d) \<Longrightarrow> I (d\<lparr>WATCHERS := WATCHERS d @ [c]\<rparr>)"
    and unwatch_kept: "I d \<Longrightarrow> I (d\<lparr>WATCHERS := remove1 c (WATCHERS d)\<rparr>)"
    and buffer_kept: "I d \<Longrightarrow> c \<in> set (CLIENTS d) \<Longrightarrow> 10 \<notin> set b \<Longrightarrow> length b \<le> MAXMSG
        \<Longrightarrow> I (d\<lparr>CLIENTBUFS := (CLIENTBUFS d)(c \<mapsto> b)\<rparr>)"
    and stop_kept: "I d \<Longrightarrow> I (d\<lparr>RUNNING := False\<rparr>)"
begin

lemma stays_dropclient: "c < n \<Longrightarrow> stays I (dropclient c)"
  by (simp add: stays_def drop_kept)

lemma stays_drop_each: "\<forall>c \<in> set cs. c < n \<Longrightarrow> stays I (drop_each cs)"
  by (induction cs) (auto intro!: stays_rules stays_dropclient)

lemma send_each_dead: "run_state (send_each e' ws event) d = (dead, d') \<Longrightarrow> set dead \<subseteq> set ws"
  by (induction ws arbitrary: d dead d') (fastforce split: prod.splits if_splits)+

lemma stays_notify [stays_rules]: "stays I (notify e event)"
  unfolding notify_def
proof (rule stays_read)
  fix d
  assume d: "I d"
  obtain dead d1 where s: "run_state (send_each e (WATCHERS d) event) d = (dead, d1)" by fastforce
  have "I d1" using staysD [OF stays_send_each d s] .
  moreover have "\<forall>c \<in> set dead. c < n" using send_each_dead [OF s] watched [OF d] by blast
  ultimately show "I (snd (run_state (State_Monad.bind (send_each e (WATCHERS d) event) drop_each) d))"
    using s stays_drop_each unfolding stays_def by simp
qed

lemma stays_replies [stays_rules]:
  "stays I (opping e)" "stays I (opget e)" "stays I (opmeta e)" "stays I (opset e kvs)" "stays I (opclear e kvs)"
  unfolding opping_def opget_def opmeta_def opset_def opclear_def Let_def by (intro stays_rules)+

lemma stays_stop [stays_rules]: "stays I opshutdown" "stays I handlesig" "stays I (opunwatch c)"
  unfolding opshutdown_def handlesig_def opunwatch_def by (intro stays_rules stays_putd stop_kept unwatch_kept; assumption)+

lemma opwatch_kept: "I d \<Longrightarrow> c \<in> set (CLIENTS d) \<Longrightarrow> I (snd (run_state (opwatch e c) d))"
proof -
  assume d: "I d" "c \<in> set (CLIENTS d)"
  let ?d = "if c \<in> set (WATCHERS d) then d else d\<lparr>WATCHERS := WATCHERS d @ [c]\<rparr>"
  have "I ?d" using d by (simp add: watch_kept)
  moreover have "stays I (do {st \<leftarrow> getstate e; _ \<leftarrow> sendobj e c (ready_event st); State_Monad.return ok_reply})"
    by (intro stays_rules)
  ultimately show ?thesis unfolding opwatch_def stays_def by simp
qed

lemma handle_kept: "I d \<Longrightarrow> c \<in> set (CLIENTS d) \<Longrightarrow> I (snd (run_state (handle e c msg) d))"
proof -
  assume d: "I d" "c \<in> set (CLIENTS d)"
  have "I (snd (run_state (route e c kvs op) d))" for kvs op
    unfolding route_def using d opwatch_kept stays_replies stays_stop by (simp add: stays_def)
  then show ?thesis using d by (auto simp: handle_def split: jv.split)
qed

lemma sendobj_ok: "run_state (sendobj e' c v) d = (True, d') \<Longrightarrow> c \<notin> set (d_closed d')"
  by (auto simp: sendobj_def split: if_splits)

lemma answer_kept: "I d \<Longrightarrow> c \<in> set (CLIENTS d) \<Longrightarrow> c < n \<Longrightarrow> I (snd (run_state (answer e c ms) d))"
proof (induction ms arbitrary: d)
  case Nil
  then show ?case by simp
next
  case (Cons m ms)
  obtain res d1 ok d2 where r: "run_state (handle e c m) d = (res, d1)" "run_state (sendobj e c res) d1 = (ok, d2)"
    by fastforce
  have "I d1" using handle_kept [OF Cons.prems(1,2), of m] r(1) by simp
  then have d2: "I d2" using staysD [OF stays_sendobj _ r(2)] by blast
  show ?case
  proof (cases ok)
    case True
    then have "c \<in> set (CLIENTS d2)" using live [OF d2 Cons.prems(3)] sendobj_ok [of e c res d1 d2] r(2) by simp
    then show ?thesis using Cons.IH [OF d2 _ Cons.prems(3)] r True by simp
  next
    case False
    then show ?thesis using drop_kept [OF d2 Cons.prems(3)] r by simp
  qed
qed

lemma read_data_kept:
  assumes "I d" "c < n" "c \<notin> set (d_closed d)" "length b \<le> MAXMSG"
    and "run_state (do {(msgs, remainder) \<leftarrow> read_lines e c b;
      putd (\<lambda>d. d\<lparr>CLIENTBUFS := (CLIENTBUFS d)(c \<mapsto> remainder)\<rparr>); State_Monad.return msgs}) d = (ms, d')"
  shows "I d' \<and> c \<in> set (CLIENTS d')"
proof -
  obtain r0 d1 where r: "run_state (read_lines e c b) d = ((ms, r0), d1)" "d' = d1\<lparr>CLIENTBUFS := (CLIENTBUFS d1)(c \<mapsto> r0)\<rparr>"
    using assms(5) by (auto split: prod.splits)
  have "same_sockets d d1" using same_socketsD [OF sockets.stays_read_lines r(1)] .
  then have "c \<in> set (CLIENTS d1)" using live [OF assms(1-3)] by (simp add: same_sockets_def)
  moreover have "I d1" using staysD [OF stays_read_lines assms(1) r(1)] .
  moreover have "10 \<notin> set r0 \<and> length r0 \<le> MAXMSG" using read_lines_remainder [OF r(1)] assms(4) by simp
  ultimately show ?thesis using buffer_kept r(2) by simp
qed

lemma readmsgs_kept:
  assumes "I d" "c < n" "run_state (readmsgs e c r) d = (ms, d')"
  shows "I d' \<and> (ms \<noteq> [] \<longrightarrow> c \<in> set (CLIENTS d'))"
proof -
  let ?r = "if c \<in> set (d_closed d) then RecvError else r"
  have drop: "run_state (do {dropclient c; State_Monad.return []}) d0 = (ms, d') \<Longrightarrow> I d0 \<Longrightarrow> ms = [] \<and> I d'" for d0
    using drop_kept [OF _ assms(2), of d0] by (auto simp: dropclient_def)
  show ?thesis
  proof (cases ?r)
    case WouldBlock
    then show ?thesis using assms by (auto simp: readmsgs_def)
  next
    case RecvError
    then show ?thesis using assms drop [of d] by (simp add: readmsgs_def)
  next
    case (Received data)
    let ?b = "(case CLIENTBUFS d c of None \<Rightarrow> [] | Some b \<Rightarrow> b) @ data"
    have c: "c \<notin> set (d_closed d)" using Received by (auto split: if_splits)
    obtain d1 where d1: "snd (run_state (sendobj e c (error_reply ''message too large'')) d) = d1" "I d1"
      using stays_sendobj assms(1) unfolding stays_def by blast
    consider "data = []" | "data \<noteq> []" "length ?b > MAXMSG" | "data \<noteq> []" "length ?b \<le> MAXMSG" by linarith
    then show ?thesis
    proof cases
      case 1
      then show ?thesis using assms drop [of d] Received by (simp add: readmsgs_def)
    next
      case 2
      then show ?thesis using assms drop [of d1] Received d1
        by (simp add: readmsgs_def Let_def split: prod.splits)
    next
      case 3
      then have "run_state (do {(msgs, remainder) \<leftarrow> read_lines e c ?b;
          putd (\<lambda>d. d\<lparr>CLIENTBUFS := (CLIENTBUFS d)(c \<mapsto> remainder)\<rparr>); State_Monad.return msgs}) d = (ms, d')"
        using assms(3) Received by (simp add: readmsgs_def Let_def)
      then show ?thesis using read_data_kept [OF assms(1,2) c 3(2)] by simp
    qed
  qed
qed

lemma serve_client_kept: "I d \<Longrightarrow> c < n \<Longrightarrow> I (snd (run_state (serve e (Client c r)) d))"
proof -
  assume d: "I d" "c < n"
  obtain ms d1 where r: "run_state (readmsgs e c r) d = (ms, d1)" by fastforce
  from readmsgs_kept [OF d r] have "I d1" "ms \<noteq> [] \<longrightarrow> c \<in> set (CLIENTS d1)" by auto
  then show ?thesis using r answer_kept [OF _ _ d(2), of d1 ms] by (cases "ms = []") auto
qed

end

section \<open>Invariants of the daemon\<close>

text \<open>An invariant of the whole daemon keeps its promises while the next socket number is fixed,
  and is kept by accepting a client, by loading a clipboard and by the files of the runtime
  directory.\<close>

locale daemon_ops =
  fixes J :: "daemon \<Rightarrow> bool" and e :: xenv
  assumes serving: "socket_ops (\<lambda>d. J d \<and> d_next d = n) e n"
    and numbered: "J d \<Longrightarrow> c \<in> set (CLIENTS d) \<Longrightarrow> c < d_next d"
    and accept_kept: "J d \<Longrightarrow> J (snd (run_state (acceptclient True) d))"
    and key_kept: "J d \<Longrightarrow> J (d\<lparr>SHUTKEY := k\<rparr>)" "J d \<Longrightarrow> J (d\<lparr>d_key := f\<rparr>)"
    and runtime_kept: "J d \<Longrightarrow> J (d\<lparr>d_pid := f\<rparr>)" "J d \<Longrightarrow> J (d\<lparr>d_sock := b\<rparr>)"
begin

lemma basic_kept: "J d \<Longrightarrow> J (d\<lparr>d_calls := m\<rparr>)" "J d \<Longrightarrow> clip_ok e st \<Longrightarrow> J (d\<lparr>STATE := st\<rparr>)"
  "J d \<Longrightarrow> J (d\<lparr>RUNNING := False\<rparr>)"
  using serving [of "d_next d"] unfolding socket_ops_def clip_ops_def socket_ops_axioms_def by fastforce+

lemma serve_kept:
  assumes "J d" "case r of Server _ \<Rightarrow> True | Client c _ \<Rightarrow> c < d_next d"
  shows "J (snd (run_state (serve e r) d)) \<and> d_next d \<le> d_next (snd (run_state (serve e r) d))"
proof (cases r)
  case (Server b)
  then show ?thesis using assms(1) accept_kept by (cases b) (auto simp: acceptclient_def)
next
  case (Client c x)
  then show ?thesis
    using assms socket_ops.serve_client_kept [OF serving, of d "d_next d" c x] by simp
qed

lemma serve_all_kept:
  "J d \<Longrightarrow> \<forall>r \<in> set rs. case r of Server _ \<Rightarrow> True | Client c _ \<Rightarrow> c < d_next d \<Longrightarrow> J (snd (run_state (serve_all e rs) d))"
proof (induction rs arbitrary: d)
  case Nil
  then show ?case by simp
next
  case (Cons r rs)
  obtain d1 where r: "run_state (serve e r) d = ((), d1)" by (metis surj_pair old.unit.exhaust)
  from serve_kept [OF Cons.prems(1), of r] Cons.prems(2) r have "J d1" "d_next d \<le> d_next d1" by auto
  moreover from this(2) have "\<forall>r \<in> set rs. case r of Server _ \<Rightarrow> True | Client c _ \<Rightarrow> c < d_next d1"
    using Cons.prems(2) by (auto split: ready.splits dest: less_le_trans)
  ultimately show ?case using Cons.IH r by simp
qed

lemma loop_round_kept: "J d \<Longrightarrow> J (snd (run_state (loop_round e r) d))"
proof (cases r)
  case (Ready rs)
  assume d: "J d"
  have "\<forall>r \<in> set (filter (from_rlist d) rs). case r of Server _ \<Rightarrow> True | Client c _ \<Rightarrow> c < d_next d"
    using numbered [OF d] by (auto simp: from_rlist_def split: ready.splits)
  then show ?thesis using serve_all_kept [OF d] Ready by simp
qed (auto simp: handlesig_def basic_kept)

lemma main_loop_kept: "J d \<Longrightarrow> J (snd (run_state (main_loop e rounds) d))"
proof (induction rounds arbitrary: d)
  case (Cons r rs)
  then show ?case using loop_round_kept [OF Cons.prems, of r] by (auto split: prod.splits)
qed simp

lemma stays_drop_all: "stays J drop_all"
  unfolding drop_all_def
proof (rule stays_read)
  fix d
  assume d: "J d"
  have "stays (\<lambda>d'. J d' \<and> d_next d' = d_next d) (drop_each (CLIENTS d))"
    using socket_ops.stays_drop_each [OF serving] numbered [OF d] by blast
  then show "J (snd (run_state (drop_each (CLIENTS d)) d))" using d by (simp add: stays_def)
qed

lemma stays_tick: "stays J tickd"
  by (simp add: stays_def basic_kept)

lemma stays_shut_down: "stays J (shut_down e)"
  unfolding shut_down_def removestale_def clearpid_def clearkey_def
  by (intro stays_rules stays_drop_all stays_tick stays_putd) (auto simp: runtime_kept key_kept)

lemma loaded_clip_ok: "loaded_clip e kvs = Inr (Some st) \<Longrightarrow> clip_ok e st"
  by (auto simp: loaded_clip_def clip_ok_def Let_def rbind_eq_Inr split: if_splits)

lemma stays_loadstate: "stays J (loadstate e)"
  unfolding loadstate_def
  by (intro stays_rules stays_putd) (auto intro: basic_kept loaded_clip_ok)

lemma stays_prepare: "stays J (prepare e)"
  unfolding prepare_def removestale_def writekey_def writepid_def serveropen_def clearpid_def clearkey_def
  by (auto intro!: stays_rules stays_tick stays_putd stays_loadstate split: sum.split option.split prod.split
      simp: runtime_kept key_kept)

lemma daemonrun_kept: "J d \<Longrightarrow> J (snd (run_state (daemonrun e rounds) d))"
proof -
  assume "J d"
  have "stays J (main_loop e rounds)" by (simp add: stays_def main_loop_kept)
  then have "stays J (daemonrun e rounds)"
    unfolding daemonrun_def
    by (auto intro!: stays_rules stays_prepare stays_shut_down split: sum.split bool.split)
  then show ?thesis using \<open>J d\<close> by (simp add: stays_def)
qed

end

section \<open>The tables of connections and the clipboard\<close>

definition sock_inv :: "daemon \<Rightarrow> bool" where
  "sock_inv d \<longleftrightarrow> distinct (CLIENTS d) \<and> distinct (WATCHERS d) \<and> set (WATCHERS d) \<subseteq> set (CLIENTS d)
     \<and> dom (CLIENTBUFS d) = set (CLIENTS d)
     \<and> (\<forall>c b. CLIENTBUFS d c = Some b \<longrightarrow> 10 \<notin> set b \<and> length b \<le> MAXMSG)
     \<and> set (CLIENTS d) \<inter> set (d_closed d) = {} \<and> set (CLIENTS d) \<union> set (d_closed d) = {..<d_next d}"

lemma drop_sock_inv: "sock_inv d \<Longrightarrow> c < d_next d \<Longrightarrow> sock_inv (snd (run_state (dropclient c) d))"
  unfolding sock_inv_def dropclient_def by (auto simp: set_remove1_eq distinct_remove1 split: if_splits)

lemma accept_sock_inv: "sock_inv d \<Longrightarrow> sock_inv (snd (run_state (acceptclient True) d))"
proof -
  assume d: "sock_inv d"
  then have "d_next d \<notin> set (CLIENTS d) \<union> set (d_closed d)" by (auto simp: sock_inv_def)
  then show ?thesis using d by (auto simp: sock_inv_def acceptclient_def lessThan_Suc split: if_splits)
qed

lemma sock_inv_serving: "socket_ops (\<lambda>d. sock_inv d \<and> d_next d = n) e n"
proof unfold_locales
  show "sock_inv d \<and> d_next d = n \<Longrightarrow> c < n \<Longrightarrow> sock_inv (snd (run_state (dropclient c) d))
    \<and> d_next (snd (run_state (dropclient c) d)) = n" for d c
    using drop_sock_inv [of d c] by (auto simp: dropclient_def)
qed (auto simp: sock_inv_def set_remove1_eq)

interpretation conn: daemon_ops sock_inv e for e
  by (rule daemon_ops.intro) (auto simp: sock_inv_serving accept_sock_inv, auto simp: sock_inv_def)

definition clip_inv :: "xenv \<Rightarrow> daemon \<Rightarrow> bool" where
  "clip_inv e d \<longleftrightarrow> sock_inv d \<and> clip_ok e (STATE d)"

lemma clip_inv_serving: "socket_ops (\<lambda>d. clip_inv e d \<and> d_next d = n) e n"
proof unfold_locales
  show "clip_inv e d \<and> d_next d = n \<Longrightarrow> c < n \<Longrightarrow> clip_inv e (snd (run_state (dropclient c) d))
    \<and> d_next (snd (run_state (dropclient c) d)) = n" for d c
    using drop_sock_inv [of d c] by (auto simp: dropclient_def clip_inv_def)
qed (auto simp: sock_inv_def clip_inv_def set_remove1_eq)

interpretation board: daemon_ops "clip_inv e" e for e
proof (rule daemon_ops.intro)
  show "clip_inv e d \<Longrightarrow> clip_inv e (snd (run_state (acceptclient True) d))" for d
    using accept_sock_inv [of d] by (simp add: clip_inv_def acceptclient_def)
qed (auto simp: clip_inv_serving, auto simp: clip_inv_def sock_inv_def)

end
