(* ===== verification/Exchange_Props.thy ===== *)
theory Exchange_Props
  imports Exchange_Facts
begin

text \<open>
  Properties of the transfer service: the tables of connections and the clipboard over every run
  of the daemon, who can stop it and that it stops, framing of messages, the clipboard as a
  register, notification of the watchers, the state file over a restart, failing saves, and the
  client's call.
\<close>

section \<open>Runs of the daemon\<close>

text \<open>A daemon that starts with whatever files an earlier one left behind.\<close>

definition booted :: "bytes option \<Rightarrow> bytes option \<Rightarrow> bytes option \<Rightarrow> bool \<Rightarrow> daemon" where
  "booted f p k s = daemon_init\<lparr>d_file := f, d_pid := p, d_key := k, d_sock := s\<rparr>"

lemma booted_inv: "clip_inv e (booted f p k s)"
  by (simp add: booted_def daemon_init_def clip_inv_def sock_inv_def clip_ok_def empty_clip_def utf8_replace_def)

text \<open>C23. Whatever the clients send and whichever calls fail, the tables of the daemon agree: no
  client is listed twice, every watcher is a client, every client has exactly one buffer, which
  holds no complete line and at most \<open>MAXMSG\<close> bytes, and the sockets accepted so far are exactly
  the clients and the closed ones, so that none is leaked or used after it was closed.\<close>

theorem exchange_sockets_safe:
  "let d = snd (run_state (daemonrun e rounds) (booted f p k s)) in
     distinct (CLIENTS d) \<and> distinct (WATCHERS d) \<and> set (WATCHERS d) \<subseteq> set (CLIENTS d)
     \<and> dom (CLIENTBUFS d) = set (CLIENTS d)
     \<and> list_all (\<lambda>c. case CLIENTBUFS d c of None \<Rightarrow> False | Some b \<Rightarrow> 10 \<notin> set b \<and> length b \<le> MAXMSG) (CLIENTS d)
     \<and> set (CLIENTS d) \<inter> set (d_closed d) = {} \<and> set (CLIENTS d) \<union> set (d_closed d) = {..<d_next d}"
proof -
  have "sock_inv (snd (run_state (daemonrun e rounds) (booted f p k s)))"
    using conn.daemonrun_kept booted_inv clip_inv_def by blast
  then show ?thesis unfolding sock_inv_def Let_def by (auto simp: list_all_iff dom_def split: option.split)
qed

text \<open>C24. Over every run, also one that started from a foreign state file, the clipboard describes
  its own data: the size is the number of bytes of the text in UTF-8 and at most \<open>MAXBYTES\<close>, and
  the hash is the hash of the data, or missing for the empty clipboard.\<close>

theorem clipboard_consistent:
  "let st = STATE (snd (run_state (daemonrun e rounds) (booted f p k s))) in
     st_bytes st = length (utf8_replace (st_data st)) \<and> st_bytes st \<le> MAXBYTES
     \<and> (st_hash st = makehash e (st_data st) \<or> st_data st = [] \<and> st_hash st = [])"
proof -
  have "clip_ok e (STATE (snd (run_state (daemonrun e rounds) (booted f p k s))))"
    using board.daemonrun_kept [OF booted_inv, of e rounds f p k s] unfolding clip_inv_def by (rule conjunct2)
  then show ?thesis unfolding clip_ok_def Let_def .
qed

section \<open>Stopping\<close>

lemma drop_each_stays: "(\<And>d c. I d \<Longrightarrow> I (snd (run_state (dropclient c) d))) \<Longrightarrow> stays I (drop_each cs)"
  by (induction cs) (auto intro!: stays_return stays_bind simp: stays_def [of I "dropclient c" for c])

text \<open>The operations other than shutdown leave the loop running.\<close>

interpretation runs: clip_ops "\<lambda>d. RUNNING d = r \<and> SHUTKEY d = k" e for r k e
  by unfold_locales simp_all

lemma drop_each_run [stays_rules]: "stays (\<lambda>d. RUNNING d = r \<and> SHUTKEY d = k) (drop_each cs)"
  by (rule drop_each_stays) (simp add: dropclient_def)

lemma route_run:
  "op \<noteq> cps ''shutdown'' \<Longrightarrow> stays (\<lambda>d. RUNNING d = r \<and> SHUTKEY d = k) (route e c kvs op)"
  unfolding route_def opping_def opget_def opmeta_def opset_def opclear_def opwatch_def opunwatch_def notify_def Let_def
  by (intro stays_rules stays_putd) simp_all

text \<open>C25. Only the holder of the key stops the daemon: a message ends the main loop if and only if
  it is a shutdown request that carries the key the daemon wrote at its start.\<close>

theorem shutdown_needs_key:
  "RUNNING (snd (run_state (handle e c msg) d)) \<longleftrightarrow>
     RUNNING d \<and> \<not> (case msg of VObj kvs \<Rightarrow> op_of e kvs = cps ''shutdown'' \<and> py_str e (vget kvs ''key'' (VStr [])) = SHUTKEY d
                       | _ \<Rightarrow> False)"
proof (cases msg)
  case (VObj kvs)
  have s: "RUNNING (snd (run_state (route e c kvs (op_of e kvs)) d)) = RUNNING d" if "op_of e kvs \<noteq> cps ''shutdown''"
    using route_run [OF that, of "RUNNING d" "SHUTKEY d" e c kvs] by (simp add: stays_def)
  show ?thesis
  proof (cases "op_of e kvs = cps ''shutdown''")
    case True
    then show ?thesis using VObj by (simp add: handle_def allowed_def route_def opshutdown_def)
  next
    case False
    then show ?thesis using VObj s by (auto simp: handle_def)
  qed
qed (simp_all add: handle_def allowed_def)

lemma main_loop_append: "main_loop e (rs @ qs) = do {main_loop e rs; main_loop e qs}"
proof (induction rs)
  case (Cons r rs)
  have stopped: "\<not> RUNNING d \<Longrightarrow> run_state (main_loop e qs) d = ((), d)" for d by (cases qs) simp_all
  show ?case by (rule state_ext) (auto simp: Cons.IH stopped split: prod.split)
qed simp

lemma loop_stops_at_signal: "\<not> RUNNING (snd (run_state (main_loop e (rs @ Signal # qs)) d))"
proof -
  obtain d1 where r: "run_state (main_loop e rs) d = ((), d1)" by (metis surj_pair old.unit.exhaust)
  have stopped: "\<not> RUNNING d \<Longrightarrow> run_state (main_loop e qs) d = ((), d)" for d by (cases qs) simp_all
  then have "\<not> RUNNING (snd (run_state (main_loop e (Signal # qs)) d1))" by (simp add: handlesig_def)
  then show ?thesis using r by (simp add: main_loop_append del: main_loop.simps)
qed

lemma drop_each_clients: "CLIENTS (snd (run_state (drop_each cs) d)) = fold remove1 cs (CLIENTS d)"
  by (induction cs arbitrary: d) (simp_all add: dropclient_def)

lemma fold_remove1_self: "fold remove1 cs cs = []"
  by (induction cs) simp_all

text \<open>The files of the runtime directory do not touch the connections.\<close>

lemma shut_down_run:
  "\<exists>d'. run_state (shut_down e) d = (0, d') \<and> CLIENTS d' = [] \<and> (sock_inv d \<longrightarrow> sock_inv d')"
proof -
  have "sock_inv d \<longrightarrow> sock_inv (snd (run_state (shut_down e) d))"
    using conn.stays_shut_down by (simp add: stays_def)
  moreover have "fst (run_state (shut_down e) d) = 0" "CLIENTS (snd (run_state (shut_down e) d)) = []"
    using drop_each_clients [of "CLIENTS d" d]
    by (auto simp: shut_down_def drop_all_def removestale_def clearpid_def clearkey_def fold_remove1_self
        split: prod.splits)
  ultimately show ?thesis by (metis prod.collapse)
qed

text \<open>C26. A signal ends the daemon: once startup has succeeded, a run in which a signal arrives
  returns 0, whatever the clients did before, with no client left and every accepted socket
  closed.\<close>

theorem signal_ends_daemon:
  assumes "run_state (prepare e) (booted f p k s) = (Inr True, d1)"
  shows "\<exists>d'. run_state (daemonrun e (rounds @ Signal # later)) (booted f p k s) = (Some (Inr 0), d')
    \<and> CLIENTS d' = [] \<and> WATCHERS d' = [] \<and> CLIENTBUFS d' = (\<lambda>_. None) \<and> set (d_closed d') = {..<d_next d'}"
proof -
  obtain d2 where m: "run_state (main_loop e (rounds @ Signal # later)) d1 = ((), d2)"
    by (metis surj_pair old.unit.exhaust)
  then have stop: "\<not> RUNNING d2" using loop_stops_at_signal [of e rounds later d1] by simp
  have inv: "sock_inv (snd (run_state (daemonrun e (rounds @ Signal # later)) (booted f p k s)))"
    using conn.daemonrun_kept booted_inv clip_inv_def by blast
  obtain d' where d': "run_state (shut_down e) d2 = (0, d')" "CLIENTS d' = []" using shut_down_run by blast
  have r: "run_state (daemonrun e (rounds @ Signal # later)) (booted f p k s) = (Some (Inr 0), d')"
    using assms m stop d'(1) by (simp add: daemonrun_def)
  then have "sock_inv d'" using inv by simp
  then show ?thesis using r d'(2) by (auto simp: sock_inv_def)
qed

section \<open>An environment for the examples\<close>

text \<open>JSON for a single value: \<open>v\<close> is printed as one letter and read back from it, everything else is
  printed as another letter and not read.\<close>

definition demo_xenv :: "jv \<Rightarrow> xenv" where
  "demo_xenv v = \<lparr>x_loads = (\<lambda>s. if s = [118] then Parsed v else BadJson),
     x_dumps = (\<lambda>u. Some (if u = v then [118] else [119])), x_repr = (\<lambda>_. []),
     x_int = (\<lambda>_. None), x_sha256 = (\<lambda>b. 35 # b), x_time = (\<lambda>n. 1000 + int n), x_save = (\<lambda>_. Some 5000),
     x_sent = (\<lambda>_. True), x_removed = (\<lambda>_. True), x_readable = True, x_runtime = Some (True, 0, 1000, 1480),
     x_random = [1, 2, 3], x_pid = 77, x_bound = True, x_listening = True\<rparr>"

lemma demo_prepare: "\<exists>d1. run_state (prepare (demo_xenv VNull)) (booted None None None True) = (Inr True, d1)"
  by (simp add: prepare_def demo_xenv_def validateruntime_def removestale_def booted_def daemon_init_def randkey_def
      writekey_def writepid_def write_text_def utf8_strict_def is_surrogate_def loadstate_def serveropen_def dec_nat.simps)

lemma signal_ends_daemon_witness:
  "\<exists>d'. run_state (daemonrun (demo_xenv VNull) ([Ready [Server True]] @ Signal # [])) (booted None None None True) = (Some (Inr 0), d')
    \<and> CLIENTS d' = [] \<and> set (d_closed d') = {..<d_next d'}"
proof -
  obtain d1 where "run_state (prepare (demo_xenv VNull)) (booted None None None True) = (Inr True, d1)" using demo_prepare by blast
  from signal_ends_daemon [OF this, of "[Ready [Server True]]" "[]"] show ?thesis by blast
qed

section \<open>Framing\<close>

lemma newline_at_Some:
  "newline_at buf = Some i \<Longrightarrow> buf = take i buf @ 10 # drop (i + 1) buf \<and> 10 \<notin> set (take i buf)"
proof -
  assume a: "newline_at buf = Some i"
  then have i: "i = length (takeWhile (\<lambda>b. b \<noteq> 10) buf)" "i < length buf"
    using newline_at_less [OF a] by (auto simp: newline_at_def Let_def split: if_splits)
  then have t: "take i buf = takeWhile (\<lambda>b. b \<noteq> 10) buf" by (metis takeWhile_eq_take)
  moreover have "buf ! i = 10" using i nth_length_takeWhile [of "\<lambda>b. b \<noteq> 10" buf] by simp
  moreover have "10 \<notin> set (takeWhile (\<lambda>b. b \<noteq> 10) buf)" by (auto dest: set_takeWhileD)
  ultimately show ?thesis using id_take_nth_drop [OF i(2)] by simp
qed

text \<open>The messages of a stream: those of its complete lines, a blank line and a line that is no JSON
  having none.\<close>

definition line_messages :: "xenv \<Rightarrow> bytes \<Rightarrow> jv list" where
  "line_messages e line = (if list_all bytes_space line then []
     else case x_loads e (utf8_decode line) of Parsed v \<Rightarrow> [v] | _ \<Rightarrow> [])"

definition stream_messages :: "xenv \<Rightarrow> bytes \<Rightarrow> jv list" where
  "stream_messages e bs = concat (map (line_messages e) (butlast (split_on 10 bs)))"

lemma split_on_append:
  "split_on c (xs @ ys) = butlast (split_on c xs) @ split_on c (last (split_on c xs) @ ys)"
proof (induction xs)
  case Nil
  then show ?case by simp
next
  case (Cons x xs)
  obtain y r where s: "split_on c xs = y # r" by (cases "split_on c xs") auto
  show ?case
  proof (cases "x = c")
    case True
    then show ?thesis using Cons.IH by simp
  next
    case False
    then show ?thesis using Cons.IH s by (cases r) (auto split: list.splits)
  qed
qed

lemma read_line_run: "fst (run_state (read_line e c line) d) = line_messages e line"
  by (auto simp: read_line_def line_messages_def split: parsed.split prod.split)

lemma read_lines_run:
  "fst (run_state (read_lines e c buf) d) = (stream_messages e buf, last (split_on 10 buf))"
proof (induction buf arbitrary: d rule: length_induct)
  case (1 buf)
  show ?case
  proof (cases "newline_at buf")
    case None
    then have "split_on 10 buf = [buf]" using newline_at_None split_on_no_sep by blast
    then show ?thesis using None by (simp add: read_lines.simps [of e c buf] stream_messages_def)
  next
    case (Some i)
    let ?r = "drop (i + 1) buf"
    obtain ms d1 where l: "run_state (read_line e c (take i buf)) d = (ms, d1)" by fastforce
    then have ms: "ms = line_messages e (take i buf)" using read_line_run by (metis fst_conv)
    have "length ?r < length buf" using newline_at_less [OF Some] by simp
    then have ih: "fst (run_state (read_lines e c ?r) d1) = (stream_messages e ?r, last (split_on 10 ?r))"
      using 1 by blast
    have s: "split_on 10 buf = take i buf # split_on 10 ?r"
      using newline_at_Some [OF Some] split_on_append_sep by metis
    show ?thesis
      using ih Some l by (auto simp: read_lines.simps [of e c buf] stream_messages_def s ms split: prod.splits)
  qed
qed

lemma readmsgs_run:
  assumes "CLIENTBUFS d c = Some b" "c \<notin> set (d_closed d)" "data \<noteq> []" "length (b @ data) \<le> MAXMSG"
  shows "\<exists>d'. run_state (readmsgs e c (Received data)) d = (stream_messages e (b @ data), d')
    \<and> CLIENTBUFS d' c = Some (last (split_on 10 (b @ data))) \<and> d_closed d' = d_closed d"
proof -
  obtain d1 where r: "run_state (read_lines e c (b @ data)) d = ((stream_messages e (b @ data), last (split_on 10 (b @ data))), d1)"
    using read_lines_run [of e c "b @ data" d] by (metis prod.collapse)
  have "same_sockets d d1" using same_socketsD [OF sockets.stays_read_lines r] .
  then show ?thesis using assms r by (simp add: readmsgs_def same_sockets_def)
qed

text \<open>A client whose bytes arrive in the given pieces.\<close>

fun read_pieces :: "xenv \<Rightarrow> cli \<Rightarrow> bytes list \<Rightarrow> (jv list) xd" where
  "read_pieces e c [] = State_Monad.return []"
| "read_pieces e c (x # xs) = do {
     ms \<leftarrow> readmsgs e c (Received x);
     rest \<leftarrow> read_pieces e c xs;
     State_Monad.return (ms @ rest)}"

text \<open>C27. Framing does not depend on how the bytes arrive: as long as a client's buffer and its
  data together stay within \<open>MAXMSG\<close>, the messages read from the pieces are those of the complete
  lines of the whole stream, in order, and the incomplete last line is kept.\<close>

theorem framing_ignores_pieces:
  assumes "CLIENTBUFS d c = Some b" "c \<notin> set (d_closed d)" "list_all (\<lambda>x. x \<noteq> []) xs"
    and "length b + length (concat xs) \<le> MAXMSG" "10 \<notin> set b"
  shows "fst (run_state (read_pieces e c xs) d) = stream_messages e (b @ concat xs)
    \<and> CLIENTBUFS (snd (run_state (read_pieces e c xs) d)) c = Some (last (split_on 10 (b @ concat xs)))"
  using assms
proof (induction xs arbitrary: d b)
  case Nil
  then show ?case by (simp add: stream_messages_def split_on_no_sep)
next
  case (Cons x xs)
  let ?l = "last (split_on 10 (b @ x))"
  obtain d1 where r: "run_state (readmsgs e c (Received x)) d = (stream_messages e (b @ x), d1)"
    "CLIENTBUFS d1 c = Some ?l" "d_closed d1 = d_closed d"
    using readmsgs_run [of d c b x e] Cons.prems by auto
  have sp: "split_on 10 ((b @ x) @ concat xs) = butlast (split_on 10 (b @ x)) @ split_on 10 (?l @ concat xs)"
    by (rule split_on_append)
  have len: "length ?l \<le> length (b @ x)" and nl: "10 \<notin> set ?l"
    using read_lines_run [of e c "b @ x" d] read_lines_remainder [of e c "b @ x" d] by (metis prod.collapse)+
  have ih: "fst (run_state (read_pieces e c xs) d1) = stream_messages e (?l @ concat xs)
    \<and> CLIENTBUFS (snd (run_state (read_pieces e c xs) d1)) c = Some (last (split_on 10 (?l @ concat xs)))"
    by (rule Cons.IH) (use r Cons.prems len nl in auto)
  have "stream_messages e (b @ x @ concat xs) = stream_messages e (b @ x) @ stream_messages e (?l @ concat xs)"
    using sp by (simp add: stream_messages_def butlast_append)
  moreover have "last (split_on 10 (b @ x @ concat xs)) = last (split_on 10 (?l @ concat xs))"
    using sp by simp
  ultimately show ?case using ih r(1) by (auto split: prod.splits)
qed

definition demo_daemon :: daemon where
  "demo_daemon = daemon_init\<lparr>CLIENTS := [0, 1], WATCHERS := [1], CLIENTBUFS := [0 \<mapsto> [], 1 \<mapsto> []], d_next := 2, SHUTKEY := [35]\<rparr>"

lemma framing_ignores_pieces_witness:
  "fst (run_state (read_pieces (demo_xenv (VInt 7)) 0 [[118], [10, 118, 10], [10, 118]]) demo_daemon) = [VInt 7, VInt 7]
    \<and> CLIENTBUFS (snd (run_state (read_pieces (demo_xenv (VInt 7)) 0 [[118], [10, 118, 10], [10, 118]]) demo_daemon)) 0 = Some [118]"
proof -
  have u: "utf8_decode [118] = [118]"
    using utf8_decode_encode [of "[118]" "[118]"] by (simp add: cp_ok_def utf8_strict_def is_surrogate_def)
  have m: "stream_messages (demo_xenv (VInt 7)) ([] @ concat [[118], [10, 118, 10], [10, 118]]) = [VInt 7, VInt 7]"
    by (simp add: stream_messages_def line_messages_def demo_xenv_def bytes_space_def u)
  show ?thesis
    using framing_ignores_pieces [of demo_daemon 0 "[]" "[[118], [10, 118, 10], [10, 118]]" "demo_xenv (VInt 7)"] m
    by (simp add: demo_daemon_def daemon_init_def MAXMSG_def)
qed

section \<open>The clipboard as a register\<close>

text \<open>The abstract clipboard: nothing, or a type, a text and the application it came from.\<close>

type_synonym board = "(pystr \<times> pystr \<times> pystr) option"

definition abs_board :: "clip \<Rightarrow> board" where
  "abs_board st = (if st_type st = cps ''empty'' then None else Some (st_type st, st_data st, st_source st))"

definition board_set :: "xenv \<Rightarrow> (pystr \<times> jv) list \<Rightarrow> board \<Rightarrow> board" where
  "board_set e kvs b =
     (let t = py_str e (vget kvs ''type'' (vtxt ''text'')); d = py_str e (vget kvs ''data'' (VStr []));
          s = py_str e (vget kvs ''source'' (vtxt ''app''))
      in if t \<in> set clip_types \<and> 0 \<notin> set d \<and> length (utf8_replace d) \<le> MAXBYTES then Some (t, d, s) else b)"

definition board_step :: "xenv \<Rightarrow> pystr \<Rightarrow> jv \<Rightarrow> board \<Rightarrow> board" where
  "board_step e shutkey msg b = (case msg of
     VObj kvs \<Rightarrow> (if \<not> allowed e shutkey msg then b
       else if op_of e kvs = cps ''set'' then board_set e kvs b
       else if op_of e kvs = cps ''clear'' then None else b)
   | _ \<Rightarrow> b)"

lemma getstate_still: "st_ttl (STATE d) = 0 \<Longrightarrow> run_state (getstate e) d = (STATE d, d)"
  by (simp add: getstate_def expired_def)

abbreviation holding :: "clip \<Rightarrow> pystr \<Rightarrow> daemon \<Rightarrow> bool" where
  "holding st k \<equiv> (\<lambda>d. STATE d = st \<and> SHUTKEY d = k)"

lemma holding_tick: "stays (holding st k) tickd"
  by (simp add: stays_def)

lemma holding_sendobj: "stays (holding st k) (sendobj e c v)"
  unfolding sendobj_def by (intro stays_rules stays_putd holding_tick) simp

lemma holding_send_each: "stays (holding st k) (send_each e ws event)"
  by (induction ws) (auto intro!: stays_return stays_bind holding_sendobj)

lemma holding_notify: "stays (holding st k) (notify e event)"
  unfolding notify_def
  by (intro stays_rules holding_send_each drop_each_stays) (simp add: dropclient_def)

lemma holding_saved: "stays (holding st k) (saved e)"
  unfolding saved_def savestate_def by (intro stays_rules stays_putd holding_tick) simp

lemma holdingD: "stays (holding (STATE d) (SHUTKEY d)) m \<Longrightarrow> run_state m d = (x, d') \<Longrightarrow> STATE d' = STATE d \<and> SHUTKEY d' = SHUTKEY d"
  using staysD [of "holding (STATE d) (SHUTKEY d)" m d x d'] by blast

lemma changed_then_notified:
  assumes "st_ttl (STATE d) = 0"
    and "run_state (do {st \<leftarrow> getstate e; notify e (changed_event st); State_Monad.return (f st)}) d = (r, d')"
  shows "r = f (STATE d) \<and> run_state (notify e (changed_event (STATE d))) d = ((), d')
    \<and> STATE d' = STATE d \<and> SHUTKEY d' = SHUTKEY d"
proof -
  have r: "r = f (STATE d)" "run_state (notify e (changed_event (STATE d))) d = ((), d')"
    using assms by (simp_all add: getstate_still split: prod.splits)
  then show ?thesis using holdingD [OF holding_notify r(2)] by blast
qed

lemma put_saved:
  assumes "run_state (do {put_clip e t s h b source; saved e}) d = (r, d')"
  shows "STATE d' = \<lparr>st_type = t, st_data = s, st_hash = h, st_ts = x_time e (d_calls d), st_source = source,
      st_bytes = b, st_ttl = 0\<rparr> \<and> SHUTKEY d' = SHUTKEY d"
proof -
  obtain d1 where "run_state (put_clip e t s h b source) d = ((), d1)"
    and d1: "STATE d1 = \<lparr>st_type = t, st_data = s, st_hash = h, st_ts = x_time e (d_calls d), st_source = source,
      st_bytes = b, st_ttl = 0\<rparr>" "SHUTKEY d1 = SHUTKEY d"
    by (simp add: put_clip_def nowsec_def)
  then have "run_state (saved e) d1 = (r, d')" using assms by simp
  from holdingD [OF holding_saved this] d1 show ?thesis by simp
qed

lemma set_text_step:
  assumes "run_state (setstatetype e t (VStr s) source) d = ((ok, err), d')" "t \<noteq> cps ''empty''" "st_ttl (STATE d) = 0"
  shows "abs_board (STATE d') = (if 0 \<notin> set s \<and> length (utf8_replace s) \<le> MAXBYTES then Some (t, s, source) else abs_board (STATE d))
    \<and> st_ttl (STATE d') = 0 \<and> SHUTKEY d' = SHUTKEY d"
proof (cases "0 \<notin> set s \<and> length (utf8_replace s) \<le> MAXBYTES")
  case True
  then have "run_state (do {put_clip e t s (makehash e s) (length (utf8_replace s)) source; saved e}) d = ((ok, err), d')"
    using assms(1) by (simp add: setstatetype_def validtext_def py_str_def)
  from put_saved [OF this] show ?thesis using True assms(2) by (simp add: abs_board_def)
next
  case False
  then show ?thesis using assms by (auto simp: setstatetype_def validtext_def py_str_def split: if_splits)
qed

lemma opset_step:
  assumes "run_state (opset e kvs) d = (r, d')" "st_ttl (STATE d) = 0"
  shows "abs_board (STATE d') = board_set e kvs (abs_board (STATE d)) \<and> st_ttl (STATE d') = 0 \<and> SHUTKEY d' = SHUTKEY d"
proof -
  let ?t = "py_str e (vget kvs ''type'' (vtxt ''text''))" and ?s = "py_str e (vget kvs ''data'' (VStr []))"
  let ?src = "py_str e (vget kvs ''source'' (vtxt ''app''))"
  show ?thesis
  proof (cases "?t \<in> set clip_types")
    case False
    then show ?thesis using assms by (simp add: opset_def board_set_def Let_def)
  next
    case True
    then have t: "?t \<noteq> cps ''empty''" by (auto simp: clip_types_def)
    obtain ok err d1 where s1: "run_state (setstatetype e ?t (VStr ?s) ?src) d = ((ok, err), d1)" by (metis surj_pair)
    note step = set_text_step [OF s1 t assms(2)]
    have "STATE d' = STATE d1 \<and> SHUTKEY d' = SHUTKEY d1"
    proof (cases ok)
      case False
      then show ?thesis using assms(1) s1 True by (simp add: opset_def Let_def)
    next
      case ok: True
      then have "run_state (do {st \<leftarrow> getstate e; notify e (changed_event st); State_Monad.return
          (vobj [(''ok'', VBool True), (''hash'', VStr (st_hash st)), (''ts'', VInt (st_ts st))])}) d1 = (r, d')"
        using assms(1) s1 True by (simp add: opset_def Let_def)
      from changed_then_notified [OF _ this] step show ?thesis by simp
    qed
    then show ?thesis using step True by (simp add: board_set_def Let_def)
  qed
qed

lemma opclear_step:
  assumes "run_state (opclear e kvs) d = (r, d')" "st_ttl (STATE d) = 0"
  shows "abs_board (STATE d') = None \<and> st_ttl (STATE d') = 0 \<and> SHUTKEY d' = SHUTKEY d"
proof -
  let ?src = "py_str e (vget kvs ''source'' (vtxt ''app''))"
  obtain ok err d1 where s1: "run_state (clearstate e ?src) d = ((ok, err), d1)" by (metis surj_pair)
  from put_saved [OF this [unfolded clearstate_def]]
  have step: "abs_board (STATE d1) = None" "st_ttl (STATE d1) = 0" "SHUTKEY d1 = SHUTKEY d" by (simp_all add: abs_board_def)
  have "STATE d' = STATE d1 \<and> SHUTKEY d' = SHUTKEY d1"
  proof (cases ok)
    case False
    then show ?thesis using assms(1) s1 by (simp add: opclear_def)
  next
    case ok: True
    then have "run_state (do {st \<leftarrow> getstate e; notify e (changed_event st); State_Monad.return
        (vobj [(''ok'', VBool True), (''ts'', VInt (st_ts st))])}) d1 = (r, d')"
      using assms(1) s1 by (simp add: opclear_def)
    from changed_then_notified [OF step(2) this] show ?thesis by simp
  qed
  then show ?thesis using step by simp
qed

lemma opwatch_step:
  assumes "run_state (opwatch e c) d = (r, d')" "st_ttl (STATE d) = 0"
  shows "STATE d' = STATE d \<and> SHUTKEY d' = SHUTKEY d"
proof -
  let ?d = "if c \<in> set (WATCHERS d) then d else d\<lparr>WATCHERS := WATCHERS d @ [c]\<rparr>"
  have "st_ttl (STATE ?d) = 0" using assms(2) by simp
  then obtain ok where "run_state (sendobj e c (ready_event (STATE ?d))) ?d = (ok, d')"
    using assms(1) by (simp add: opwatch_def getstate_still split: prod.splits)
  from holdingD [OF holding_sendobj this] show ?thesis by simp
qed

lemma handle_step:
  assumes "run_state (handle e c msg) d = (r, d')" "st_ttl (STATE d) = 0"
  shows "abs_board (STATE d') = board_step e (SHUTKEY d) msg (abs_board (STATE d)) \<and> st_ttl (STATE d') = 0 \<and> SHUTKEY d' = SHUTKEY d"
proof (cases "allowed e (SHUTKEY d) msg")
  case False
  then show ?thesis using assms by (auto simp: handle_def board_step_def split: jv.split)
next
  case True
  then obtain kvs where m: "msg = VObj kvs" by (auto simp: allowed_def split: jv.splits)
  let ?op = "op_of e kvs"
  have r: "run_state (route e c kvs ?op) d = (r, d')" using assms(1) True m by (simp add: handle_def)
  consider "?op = cps ''set''" | "?op = cps ''clear''" | "?op = cps ''watch''"
    | "?op \<notin> {cps ''set'', cps ''clear'', cps ''watch''}" by blast
  then show ?thesis
  proof cases
    case 1
    then show ?thesis using opset_step [of e kvs d r d'] r assms(2) True m by (simp add: route_def board_step_def)
  next
    case 2
    then show ?thesis using opclear_step [of e kvs d r d'] r assms(2) True m by (simp add: route_def board_step_def)
  next
    case 3
    then show ?thesis using opwatch_step [of e c d r d'] r assms(2) True m by (simp add: route_def board_step_def)
  next
    case 4
    then have "STATE d' = STATE d \<and> SHUTKEY d' = SHUTKEY d"
      using r assms(2) unfolding route_def
      by (auto simp: opping_def opget_def opmeta_def opunwatch_def opshutdown_def nowsec_def getstate_still
          split: if_splits simp del: cps_Cons)
    then show ?thesis using 4 True m assms(2) by (simp add: board_step_def del: cps_Cons)
  qed
qed

fun handle_all :: "xenv \<Rightarrow> (cli \<times> jv) list \<Rightarrow> (jv list) xd" where
  "handle_all e [] = State_Monad.return []"
| "handle_all e ((c, m) # ms) = do {r \<leftarrow> handle e c m; rs \<leftarrow> handle_all e ms; State_Monad.return (r # rs)}"

lemma handle_all_step:
  "st_ttl (STATE d) = 0 \<Longrightarrow>
   abs_board (STATE (snd (run_state (handle_all e ms) d))) = fold (board_step e (SHUTKEY d)) (map snd ms) (abs_board (STATE d))
   \<and> st_ttl (STATE (snd (run_state (handle_all e ms) d))) = 0"
proof (induction ms arbitrary: d)
  case Nil
  then show ?case by simp
next
  case (Cons cm ms)
  obtain c m where cm: "cm = (c, m)" by fastforce
  obtain r d1 where r: "run_state (handle e c m) d = (r, d1)" by fastforce
  note step = handle_step [OF r Cons.prems]
  show ?case using Cons.IH [of d1] step r cm by (auto split: prod.splits)
qed

text \<open>C4. The daemon refines a register: after any requests of any clients the clipboard is what the
  accepted set and clear requests make of it in order, whether or not saving and notifying
  succeeded, and a get request returns it and changes nothing.\<close>

theorem exchange_refines_register:
  assumes "st_ttl (STATE d) = 0" "run_state (handle_all e ms) d = (rs, d')"
  shows "abs_board (STATE d') = fold (board_step e (SHUTKEY d)) (map snd ms) (abs_board (STATE d))
    \<and> run_state (handle e c (vobj [(''op'', vtxt ''get'')])) d' = (vobj [(''ok'', VBool True), (''state'', clip_json (STATE d'))], d')"
proof -
  from handle_all_step [OF assms(1), of e ms] assms(2)
  have a: "abs_board (STATE d') = fold (board_step e (SHUTKEY d)) (map snd ms) (abs_board (STATE d))"
    "st_ttl (STATE d') = 0" by simp_all
  have op: "op_of e [(cps ''op'', VStr (cps ''get''))] = cps ''get''"
    by (simp add: op_of_def vget_def py_str_def strip_def lstrip_def rstrip_def py_isspace_def)
  have "run_state (handle e c (vobj [(''op'', vtxt ''get'')])) d' = (vobj [(''ok'', VBool True), (''state'', clip_json (STATE d'))], d')"
    using op by (simp add: handle_def vobj_def vtxt_def allowed_def route_def opget_def getstate_still [OF a(2)])
  then show ?thesis using a(1) by simp
qed

definition demo_set :: jv where
  "demo_set = vobj [(''op'', vtxt ''set''), (''data'', vtxt ''hi''), (''source'', vtxt ''write'')]"

lemma exchange_refines_register_witness:
  "\<exists>rs d'. run_state (handle_all (demo_xenv VNull) [(0, demo_set), (1, VInt 3)]) demo_daemon = (rs, d')
    \<and> abs_board (STATE d') = Some (cps ''text'', cps ''hi'', cps ''write'')"
proof -
  let ?e = "demo_xenv VNull"
  obtain rs d' where r: "run_state (handle_all ?e [(0, demo_set), (1, VInt 3)]) demo_daemon = (rs, d')" by fastforce
  have "board_step ?e (SHUTKEY demo_daemon) demo_set b = Some (cps ''text'', cps ''hi'', cps ''write'')" for b
    by (simp add: board_step_def demo_set_def vobj_def vtxt_def allowed_def op_of_def vget_def py_str_def strip_def
        lstrip_def rstrip_def py_isspace_def board_set_def clip_types_def utf8_replace_def is_surrogate_def MAXBYTES_def)
  then have "fold (board_step ?e (SHUTKEY demo_daemon)) (map snd [(0, demo_set), (1, VInt 3)]) (abs_board (STATE demo_daemon))
      = Some (cps ''text'', cps ''hi'', cps ''write'')"
    by (simp add: board_step_def del: cps_Cons)
  then show ?thesis
    using exchange_refines_register [OF _ r] r by (simp add: demo_daemon_def daemon_init_def empty_clip_def del: handle_all.simps cps_Cons)
qed

section \<open>Notification\<close>

definition reached :: "xenv \<Rightarrow> nat \<Rightarrow> cli list \<Rightarrow> cli list" where
  "reached e n ws = map fst (filter (\<lambda>(w, i). x_sent e i) (zip ws [n..<n + length ws]))"

definition missed :: "xenv \<Rightarrow> nat \<Rightarrow> cli list \<Rightarrow> cli list" where
  "missed e n ws = map fst (filter (\<lambda>(w, i). \<not> x_sent e i) (zip ws [n..<n + length ws]))"

lemma reached_simps [simp]:
  "reached e n [] = []" "missed e n [] = []"
  "reached e n (w # ws) = (if x_sent e n then w # reached e (Suc n) ws else reached e (Suc n) ws)"
  "missed e n (w # ws) = (if x_sent e n then missed e (Suc n) ws else w # missed e (Suc n) ws)"
  by (simp_all add: reached_def missed_def upt_conv_Cons del: upt_Suc)

lemma send_each_exact:
  "x_dumps e v \<noteq> None \<Longrightarrow> set ws \<inter> set (d_closed d) = {} \<Longrightarrow>
   run_state (send_each e ws v) d = (missed e (d_calls d) ws,
     d\<lparr>d_calls := d_calls d + length ws, d_out := d_out d @ map (\<lambda>w. (w, v)) (reached e (d_calls d) ws)\<rparr>)"
  by (induction ws arbitrary: d) (auto simp: sendobj_def)

lemma drop_each_watchers: "WATCHERS (snd (run_state (drop_each cs) d)) = fold remove1 cs (WATCHERS d)"
  "d_out (snd (run_state (drop_each cs) d)) = d_out d"
  by (induction cs arbitrary: d) (simp_all add: dropclient_def)

lemma fold_remove1_filter: "distinct xs \<Longrightarrow> fold remove1 ys xs = filter (\<lambda>x. x \<notin> set ys) xs"
proof (induction ys arbitrary: xs)
  case (Cons y ys)
  then show ?case
    by (simp add: distinct_remove1_removeAll removeAll_filter_not_eq distinct_filter) (metis (no_types, lifting) filter_cong)
qed simp

lemma missed_subset: "set (missed e n ws) \<subseteq> set ws"
  by (induction ws arbitrary: n) auto

lemma filter_missed: "distinct ws \<Longrightarrow> filter (\<lambda>w. w \<notin> set (missed e n ws)) ws = reached e n ws"
proof (induction ws arbitrary: n)
  case (Cons w ws)
  have "w \<notin> set (missed e (Suc n) ws)" using Cons.prems missed_subset by fastforce
  moreover have "filter (\<lambda>x. x \<noteq> w \<and> x \<notin> set (missed e (Suc n) ws)) ws = filter (\<lambda>x. x \<notin> set (missed e (Suc n) ws)) ws"
    using Cons.prems by (intro filter_cong) auto
  ultimately show ?case using Cons by simp
qed simp

text \<open>C28. Every watcher hears of a change exactly once: notifying sends the event to each watcher
  in turn, and afterwards the watchers are those the event was sent to; the others are no
  longer clients, and nobody else is affected.\<close>

theorem notify_exactly_once:
  assumes "sock_inv d" "x_dumps e event \<noteq> None" "run_state (notify e event) d = ((), d')"
  shows "d_out d' = d_out d @ map (\<lambda>w. (w, event)) (reached e (d_calls d) (WATCHERS d))
    \<and> WATCHERS d' = reached e (d_calls d) (WATCHERS d)
    \<and> CLIENTS d' = filter (\<lambda>c. c \<notin> set (missed e (d_calls d) (WATCHERS d))) (CLIENTS d)"
proof -
  let ?d = "d\<lparr>d_calls := d_calls d + length (WATCHERS d),
      d_out := d_out d @ map (\<lambda>w. (w, event)) (reached e (d_calls d) (WATCHERS d))\<rparr>"
  have inv: "distinct (CLIENTS d)" "distinct (WATCHERS d)" "set (WATCHERS d) \<inter> set (d_closed d) = {}"
    using assms(1) by (auto simp: sock_inv_def)
  have "snd (run_state (drop_each (missed e (d_calls d) (WATCHERS d))) ?d) = d'"
    using assms(3) send_each_exact [OF assms(2) inv(3)] by (simp add: notify_def)
  then show ?thesis
    using drop_each_watchers [of "missed e (d_calls d) (WATCHERS d)" ?d] drop_each_clients [of "missed e (d_calls d) (WATCHERS d)" ?d]
    by (auto simp: fold_remove1_filter inv filter_missed)
qed

lemma demo_daemon_inv: "sock_inv demo_daemon"
  by (auto simp: sock_inv_def demo_daemon_def daemon_init_def split: if_splits)

lemma notify_exactly_once_witness:
  "\<exists>d'. run_state (notify (demo_xenv VNull) ok_reply) demo_daemon = ((), d')
    \<and> d_out d' = [(1, ok_reply)] \<and> WATCHERS d' = [1] \<and> CLIENTS d' = [0, 1]"
proof -
  obtain d' where r: "run_state (notify (demo_xenv VNull) ok_reply) demo_daemon = ((), d')"
    by (metis surj_pair old.unit.exhaust)
  from notify_exactly_once [OF demo_daemon_inv _ r] r show ?thesis
    by (simp add: demo_xenv_def demo_daemon_def daemon_init_def)
qed

end
