(* ===== verification/Exchange_Client.thy ===== *)
theory Exchange_Client
  imports Exchange_Props
begin

text \<open>
  The transfer service and the world around it: the state file over a restart, what a failing
  save leaves behind, and the call of a client.
\<close>

section \<open>The state file\<close>

lemma savestate_file:
  assumes "run_state (savestate e) d = (True, d')" "x_dumps e (clip_json (STATE d)) = Some raw"
  shows "\<exists>bs. utf8_strict raw = Inr bs \<and> d_file d' = Some bs"
proof (cases "utf8_strict raw")
  case (Inr bs)
  then show ?thesis using assms by (auto simp: savestate_def write_text_def split: option.splits)
qed (use assms in \<open>auto simp: savestate_def write_text_def split: option.splits\<close>)

lemma loaded_clip_json:
  assumes "clip_json st = VObj kvs" "clip_ok e st"
  shows "loaded_clip e kvs = Inr (Some (st\<lparr>st_hash := makehash e (st_data st)\<rparr>))"
  using assms
  by (auto simp: clip_json_def vobj_def clip_obj_def loaded_clip_def vget_def py_str_def int_of_def clip_ok_def Let_def)

text \<open>C29. The clipboard survives a restart: when the state was saved, a daemon that starts on that
  file has the same clipboard, with the hash of its data.  The JSON printer and reader are assumed
  to agree on this one value, and the printed text to hold no carriage return.\<close>

theorem state_survives_restart:
  assumes "clip_ok e (STATE d)" "run_state (savestate e) d = (True, d1)" "x_dumps e (clip_json (STATE d)) = Some raw"
    and "x_loads e raw = Parsed (clip_json (STATE d))" "\<forall>c \<in> set raw. cp_ok c" "13 \<notin> set raw" "x_readable e"
  shows "\<exists>d2. run_state (loadstate e) (booted (d_file d1) p k s) = (Inr (), d2)
    \<and> STATE d2 = (STATE d)\<lparr>st_hash := makehash e (st_data (STATE d))\<rparr>"
proof -
  obtain bs where bs: "utf8_strict raw = Inr bs" "d_file d1 = Some bs" using savestate_file [OF assms(2,3)] by blast
  obtain kvs where kvs: "clip_json (STATE d) = VObj kvs" by (simp add: clip_json_def vobj_def)
  show ?thesis
    using decode_text_encoded [OF bs(1) assms(5,6)] bs(2) loaded_clip_json [OF kvs assms(1)] assms(4,7) kvs
    by (simp add: loadstate_def booted_def)
qed

definition held_daemon :: daemon where
  "held_daemon = daemon_init\<lparr>STATE := \<lparr>st_type = cps ''text'', st_data = cps ''hi'', st_hash = 35 # cps ''hi'', st_ts = 5,
     st_source = cps ''app'', st_bytes = 2, st_ttl = 0\<rparr>\<rparr>"

lemma state_survives_restart_witness:
  "\<exists>d1 d2. run_state (savestate (demo_xenv (clip_json (STATE held_daemon)))) held_daemon = (True, d1)
    \<and> run_state (loadstate (demo_xenv (clip_json (STATE held_daemon)))) (booted (d_file d1) None None False) = (Inr (), d2)
    \<and> STATE d2 = STATE held_daemon"
proof -
  let ?e = "demo_xenv (clip_json (STATE held_daemon))"
  have ok: "clip_ok ?e (STATE held_daemon)"
    by (simp add: clip_ok_def held_daemon_def utf8_replace_def is_surrogate_def MAXBYTES_def makehash_def demo_xenv_def)
  obtain d1 where s: "run_state (savestate ?e) held_daemon = (True, d1)"
    by (simp add: savestate_def demo_xenv_def write_text_def utf8_strict_def is_surrogate_def)
  have h: "(STATE held_daemon)\<lparr>st_hash := makehash ?e (st_data (STATE held_daemon))\<rparr> = STATE held_daemon"
    by (simp add: held_daemon_def makehash_def demo_xenv_def utf8_replace_def is_surrogate_def)
  show ?thesis
    using state_survives_restart [OF ok s, of "[118]" None None False] s h by (simp add: demo_xenv_def cp_ok_def)
qed

section \<open>A failing save\<close>

text \<open>A failing save is reported but not undone: when the new clipboard cannot be written, the
  requester gets the error \<open>save error\<close> and no watcher is told, yet the clipboard already is the new
  one, and the state file is what the failed write left of it.\<close>

theorem save_error_keeps_change:
  fixes kvs :: "(pystr \<times> jv) list"
  assumes "t = py_str e (vget kvs ''type'' (vtxt ''text''))" "s = py_str e (vget kvs ''data'' (VStr []))"
    and "t \<in> set clip_types" "0 \<notin> set s" "length (utf8_replace s) \<le> MAXBYTES"
    and "st = \<lparr>st_type = t, st_data = s, st_hash = makehash e s, st_ts = x_time e (d_calls d),
          st_source = py_str e (vget kvs ''source'' (vtxt ''app'')), st_bytes = length (utf8_replace s), st_ttl = 0\<rparr>"
    and "x_dumps e (clip_json st) = Some raw" "write_text e (d_calls d + 1) raw = (f, False)"
  shows "run_state (opset e kvs) d = (failed (cps ''save error''),
    d\<lparr>STATE := st, d_calls := d_calls d + 2, d_file := (case f of None \<Rightarrow> d_file d | Some bs \<Rightarrow> Some bs)\<rparr>)"
proof -
  have v: "validtext e (VStr s) = (True, [])" using assms(4,5) by (simp add: validtext_def py_str_def)
  have "run_state (setstatetype e t (VStr s) (st_source st)) d = ((False, cps ''save error''),
      d\<lparr>STATE := st, d_calls := d_calls d + 2, d_file := (case f of None \<Rightarrow> d_file d | Some bs \<Rightarrow> Some bs)\<rparr>)"
    using assms(6-8) v
    by (cases f) (simp_all add: setstatetype_def put_clip_def nowsec_def saved_def savestate_def del: cps_Cons)
  then show ?thesis
    using assms(1-3,6) by (simp add: opset_def Let_def del: cps_Cons)
qed

text \<open>A text with an unpaired surrogate is such a case: it is accepted, and the file is emptied.\<close>

lemma surrogate_empties_file:
  "list_ex is_surrogate raw \<Longrightarrow> x_save e n = Some k \<Longrightarrow> write_text e n raw = (Some [], False)"
  by (simp add: write_text_def utf8_strict_def)

definition full_disk :: xenv where
  "full_disk = (demo_xenv VNull)\<lparr>x_save := (\<lambda>_. None)\<rparr>"

definition hi_request :: "(pystr \<times> jv) list" where
  "hi_request = [(cps ''op'', vtxt ''set''), (cps ''data'', vtxt ''hi'')]"

lemma save_error_keeps_change_witness:
  "\<exists>d'. run_state (opset full_disk hi_request) demo_daemon = (failed (cps ''save error''), d')
    \<and> st_data (STATE d') = cps ''hi'' \<and> d_out d' = d_out demo_daemon \<and> d_file d' = d_file demo_daemon"
proof -
  have p: "cps ''text'' = py_str full_disk (vget hi_request ''type'' (vtxt ''text''))"
    "cps ''hi'' = py_str full_disk (vget hi_request ''data'' (VStr []))"
    by (simp_all add: hi_request_def vget_def vtxt_def py_str_def)
  have q: "cps ''text'' \<in> set clip_types" "0 \<notin> set (cps ''hi'')" "length (utf8_replace (cps ''hi'')) \<le> MAXBYTES"
    by (simp_all add: clip_types_def utf8_replace_def is_surrogate_def MAXBYTES_def)
  have x: "\<exists>raw. x_dumps full_disk v = Some raw" "write_text full_disk n raw = (None, False)" for v n raw
    by (simp_all add: full_disk_def demo_xenv_def write_text_def)
  obtain raw where "x_dumps full_disk (clip_json \<lparr>st_type = cps ''text'', st_data = cps ''hi'',
      st_hash = makehash full_disk (cps ''hi''), st_ts = x_time full_disk (d_calls demo_daemon),
      st_source = py_str full_disk (vget hi_request ''source'' (vtxt ''app'')),
      st_bytes = length (utf8_replace (cps ''hi'')), st_ttl = 0\<rparr>) = Some raw" using x(1) by blast
  from save_error_keeps_change [OF p q refl this x(2)] show ?thesis by (simp del: cps_Cons)
qed

section \<open>The client's call\<close>

lemma utf8_cp_newline: "10 \<in> set (utf8_cp c) \<longleftrightarrow> c = 10"
  by (auto simp: utf8_cp_def split: if_splits)

lemma utf8_no_newline: "10 \<notin> set raw \<Longrightarrow> 10 \<notin> set (concat (map utf8_cp raw))"
  by (auto simp: utf8_cp_newline)

lemma exrecv_pieces:
  assumes "list_all (\<lambda>(x, t). x \<noteq> [] \<and> t \<le> timeout) ps" "buf @ concat (map fst ps) = line @ [10]" "10 \<notin> set line"
    and "length (line @ [10]) \<le> MAXMSG" "ps \<noteq> []" "x_loads e (utf8_decode line) = Parsed v"
  shows "exrecv e timeout buf (map (\<lambda>(x, t). (Some x, t)) ps) = (Reply v, [])"
  using assms
proof (induction ps arbitrary: buf)
  case (Cons p ps)
  obtain x t where p: "p = (x, t)" by fastforce
  let ?buf = "buf @ x"
  have whole: "?buf @ concat (map fst ps) = line @ [10]" using Cons.prems(2) p by simp
  then have len: "length ?buf \<le> MAXMSG" using Cons.prems(4) by (metis le_trans length_append le_add1)
  have x: "x \<noteq> []" "t \<le> timeout" using Cons.prems(1) p by auto
  show ?case
  proof (cases ps)
    case Nil
    have tw: "takeWhile (\<lambda>b. b \<noteq> 10) (line @ [10]) = line"
      using takeWhile_neq_append [OF Cons.prems(3), of "[]"] by simp
    have "newline_at (line @ [10]) = Some (length line)" unfolding newline_at_def tw by simp
    then show ?thesis using Nil whole len x p Cons.prems(6) by (simp add: Let_def)
  next
    case (Cons q qs)
    obtain y u where q: "q = (y, u)" by fastforce
    have "y \<noteq> []" using Cons.prems(1) Cons q by simp
    then have "concat (map fst ps) \<noteq> []" using Cons q by simp
    then obtain zs where "line = ?buf @ zs" using whole
      by (metis butlast_append butlast_snoc)
    then have "newline_at ?buf = None" using Cons.prems(3) newline_at_None by simp
    then show ?thesis
      using Cons.IH [of ?buf] Cons.prems whole len x p Cons by (simp add: Let_def)
  qed
qed simp

text \<open>What arrives behind the first line is thrown away with the buffer of the call: of two events that
  arrive together, a watching client sees the first and waits on.\<close>

lemma exrecv_loses_second_line:
  assumes "10 \<notin> set l1" "length (l1 @ 10 # l2 @ [10]) \<le> MAXMSG" "x_loads e (utf8_decode l1) = Parsed v1"
  shows "watch_loop e [(Some (l1 @ 10 # l2 @ [10]), 0)] = ([v1], False)"
proof -
  have tw: "takeWhile (\<lambda>b. b \<noteq> 10) (l1 @ 10 # l2 @ [10]) = l1" by (rule takeWhile_neq_append [OF assms(1)])
  have "newline_at (l1 @ 10 # l2 @ [10]) = Some (length l1)" unfolding newline_at_def tw by simp
  then have "exrecv e 3600 [] [(Some (l1 @ 10 # l2 @ [10]), 0)] = (Reply v1, [])" using assms(2,3) by (simp add: Let_def)
  moreover have "watch_loop e [] = ([], False)" by (simp add: watch_loop.simps [of e "[]"])
  ultimately show ?thesis by (simp add: watch_loop.simps [of e "[(Some (l1 @ 10 # l2 @ [10]), 0)]"])
qed

text \<open>C30. A get call returns the clipboard: when the daemon's answer arrives in time, in whatever
  pieces, the client's call returns, reports success and yields the clipboard of the daemon.  The
  JSON printer and reader are assumed to agree on the answer, and the printed text to be one line
  of characters that can be encoded.\<close>

theorem get_call_returns_clipboard:
  assumes "st_ttl (STATE d) = 0" "run_state (opget e) d = (v, d')"
    and "x_dumps e v = Some raw" "x_loads e raw = Parsed v" "\<forall>c \<in> set raw. cp_ok c \<and> \<not> is_surrogate c \<and> c \<noteq> 10"
    and "x_dumps e (vobj [(''op'', vtxt ''get'')]) \<noteq> None"
    and "concat (map fst ps) = utf8_replace (raw @ [10])" "length (utf8_replace (raw @ [10])) \<le> MAXMSG"
    and "list_all (\<lambda>(x, t). x \<noteq> [] \<and> t \<le> 2) ps"
  shows "exget e True (map (\<lambda>(x, t). (Some x, t)) ps) = Some (Inr (True, clip_json (STATE d)))"
proof -
  have v: "v = vobj [(''ok'', VBool True), (''state'', clip_json (STATE d))]"
    using assms(2) by (auto simp: opget_def getstate_still [OF assms(1)])
  let ?line = "concat (map utf8_cp raw)"
  have strict: "utf8_strict raw = Inr ?line" using assms(5) by (auto simp: utf8_strict_def list_ex_iff)
  have line: "utf8_replace (raw @ [10]) = ?line @ [10]"
  proof -
    have "map (\<lambda>c. if is_surrogate c then [63] else utf8_cp c) raw = map utf8_cp raw"
      by (rule map_cong) (use assms(5) in auto)
    then have "utf8_replace raw = ?line" unfolding utf8_replace_def by (rule arg_cong)
    moreover have "utf8_replace [10] = [10]" by (simp add: utf8_replace_def is_surrogate_def)
    ultimately show ?thesis by (simp add: utf8_replace_def)
  qed
  have dec: "utf8_decode ?line = raw" using utf8_decode_encode [OF _ strict] assms(5) by blast
  have "10 \<notin> set raw" using assms(5) by blast
  then have nl: "10 \<notin> set ?line" by (rule utf8_no_newline)
  have "ps \<noteq> []" using assms(7) line by auto
  then have "exrecv e 2 [] (map (\<lambda>(x, t). (Some x, t)) ps) = (Reply v, [])"
    using exrecv_pieces [OF assms(9) _ nl] assms(4,7,8) line dec by simp
  then have "excall e True (vobj [(''op'', vtxt ''get'')]) (map (\<lambda>(x, t). (Some x, t)) ps) = Reply v"
    using assms(6) by (auto simp: excall_def request_line_def)
  then show ?thesis by (simp add: exget_def v vobj_def ok_result_def vget_def truthy_def state_of_reply_def)
qed

lemma get_call_returns_clipboard_witness:
  "exget (demo_xenv (vobj [(''ok'', VBool True), (''state'', clip_json (STATE held_daemon))])) True [(Some [118], 1), (Some [10], 2)]
     = Some (Inr (True, clip_json (STATE held_daemon)))"
proof -
  let ?v = "vobj [(''ok'', VBool True), (''state'', clip_json (STATE held_daemon))]"
  have z: "st_ttl (STATE held_daemon) = 0" by (simp add: held_daemon_def)
  have r: "run_state (opget (demo_xenv ?v)) held_daemon = (?v, held_daemon)"
    by (simp add: opget_def getstate_still [OF z])
  have j: "x_dumps (demo_xenv ?v) ?v = Some [118]" "x_loads (demo_xenv ?v) [118] = Parsed ?v"
    "x_dumps (demo_xenv ?v) (vobj [(''op'', vtxt ''get'')]) \<noteq> None"
    by (simp_all add: demo_xenv_def)
  show ?thesis
    using get_call_returns_clipboard [OF z r j(1,2) _ j(3), of "[([118], 1), ([10], 2)]"]
    by (simp add: cp_ok_def is_surrogate_def utf8_replace_def MAXMSG_def)
qed

end
