(* ===== verification/T1_Files.thy ===== *)
theory T1_Files
  imports T1_Programs T1_Json T1_Paths Utf8_Decoder
begin

text \<open>
  A file system for the modules that work on paths: a list of paths with what is there, a path being
  its components; there are no links, and a second slash in front of an absolute path is read as
  one.  A call that can raise raises what the environment says for its number (\<open>r_fault\<close>).  The
  functions of \<open>os\<close> and \<open>shutil\<close> that the modules use are programs of such calls.
\<close>

section \<open>The file system\<close>

datatype entry = Tier | File bytes

type_synonym store = "(rpath \<times> entry) list"

record renv =
  r_fault :: "nat \<Rightarrow> pyerr option"
  r_time :: "nat \<Rightarrow> rat"
  r_token :: "nat \<Rightarrow> nat \<Rightarrow> bytes"
  r_codec :: codec
  r_cwd :: rpath
  r_device :: "rpath \<Rightarrow> nat"
  r_lines :: "nat \<Rightarrow> nat"

record rbin =
  b_fs :: store
  b_calls :: nat

type_synonym 'a rio = "(renv, rbin, 'a) prog"

definition found :: "store \<Rightarrow> rpath \<Rightarrow> bool" where
  "found s p \<longleftrightarrow> map_of s p \<noteq> None"

definition put_entry :: "rpath \<Rightarrow> entry \<Rightarrow> store \<Rightarrow> store" where
  "put_entry p x s = (p, x) # filter (\<lambda>(q, _). q \<noteq> p) s"

definition drop_tree :: "rpath \<Rightarrow> store \<Rightarrow> store" where
  "drop_tree p s = filter (\<lambda>(q, _). \<not> starts_with p q) s"

definition shift_tree :: "rpath \<Rightarrow> rpath \<Rightarrow> store \<Rightarrow> store" where
  "shift_tree old new s = map (\<lambda>(q, x). (if starts_with old q then new @ drop (length old) q else q, x)) s"

definition rcall :: "(store \<Rightarrow> 'a res) \<Rightarrow> 'a rio" where
  "rcall f e b = (case r_fault e (b_calls b) of
     Some err \<Rightarrow> (Inl err, b\<lparr>b_calls := b_calls b + 1\<rparr>)
   | None \<Rightarrow> (f (b_fs b), b\<lparr>b_calls := b_calls b + 1\<rparr>))"

definition put_fs :: "store \<Rightarrow> unit rio" where
  "put_fs s e b = (Inr (), b\<lparr>b_fs := s\<rparr>)"

definition look :: "(store \<Rightarrow> 'a) \<Rightarrow> 'a rio" where
  "look f e b = (Inr (f (b_fs b)), b)"

definition rchange :: "(store \<Rightarrow> store res) \<Rightarrow> unit rio" where
  "rchange f = andthen (rcall f) put_fs"

definition parent_found :: "store \<Rightarrow> rpath \<Rightarrow> bool" where
  "parent_found s p \<longleftrightarrow> p \<noteq> [] \<and> map_of s (butlast p) = Some Tier"

definition mkdir :: "rpath \<Rightarrow> unit rio" where
  "mkdir p = rchange (\<lambda>s.
     (if found s p then Inl FileExistsError
      else if \<not> parent_found s p then Inl (if found s (butlast p) then NotADirectoryError else FileNotFoundError)
      else Inr (put_entry p Tier s)))"

fun is_oserror :: "pyerr \<Rightarrow> bool" where
  "is_oserror OSError = True"
| "is_oserror FileNotFoundError = True"
| "is_oserror FileExistsError = True"
| "is_oserror PermissionError = True"
| "is_oserror IsADirectoryError = True"
| "is_oserror NotADirectoryError = True"
| "is_oserror _ = False"

text \<open>\<open>os.makedirs\<close>: every missing ancestor is created first.\<close>

definition makedirs :: "rpath \<Rightarrow> bool \<Rightarrow> unit rio" where
  "makedirs p exist_ok =
     andthen (foreach (map (\<lambda>k. take k p) [0..<length p])
       (\<lambda>q. andthen (look (\<lambda>s. found s q)) (\<lambda>there. if there then ret () else mkdir q))) (\<lambda>_.
     except_do (mkdir p) (\<lambda>err. is_oserror err \<and> exist_ok)
       (\<lambda>err. andthen (look (\<lambda>s. map_of s p = Some Tier)) (\<lambda>tier. if tier then ret () else raise err)))"

definition remove_file :: "rpath \<Rightarrow> unit rio" where
  "remove_file p = rchange (\<lambda>s. (case map_of s p of
     Some (File _) \<Rightarrow> Inr (filter (\<lambda>(q, _). q \<noteq> p) s) | Some Tier \<Rightarrow> Inl IsADirectoryError | None \<Rightarrow> Inl FileNotFoundError))"

text \<open>\<open>open(p).read()\<close>, \<open>open(p, 'w')\<close>, \<open>open(p, 'a')\<close> and writing; opening for writing creates or
  empties the file before the text is encoded.\<close>

definition read_file :: "rpath \<Rightarrow> bytes rio" where
  "read_file p = rcall (\<lambda>s. (case map_of s p of
     Some (File bs) \<Rightarrow> Inr bs | Some Tier \<Rightarrow> Inl IsADirectoryError | None \<Rightarrow> Inl FileNotFoundError))"

definition read_text :: "rpath \<Rightarrow> pystr rio" where
  "read_text p = andthen (read_file p) (\<lambda>bs. lift_res (decode_text bs))"

definition open_for :: "bool \<Rightarrow> rpath \<Rightarrow> unit rio" where
  "open_for wipe p = rchange (\<lambda>s. (case map_of s p of
     Some Tier \<Rightarrow> Inl IsADirectoryError
   | Some (File bs) \<Rightarrow> Inr (if wipe then put_entry p (File []) s else s)
   | None \<Rightarrow> if parent_found s p then Inr (put_entry p (File []) s) else Inl (if found s (butlast p) then NotADirectoryError else FileNotFoundError)))"

definition add_bytes :: "rpath \<Rightarrow> bytes \<Rightarrow> unit rio" where
  "add_bytes p bs = rchange (\<lambda>s. (case map_of s p of
     Some (File old) \<Rightarrow> Inr (put_entry p (File (old @ bs)) s) | _ \<Rightarrow> Inl OSError))"

definition put_text :: "rpath \<Rightarrow> pystr \<Rightarrow> unit rio" where
  "put_text p text =
     andthen (open_for True p) (\<lambda>_. andthen (lift_res (utf8_strict text)) (\<lambda>bs. add_bytes p bs))"

definition replace_file :: "rpath \<Rightarrow> rpath \<Rightarrow> unit rio" where
  "replace_file src dst = rchange (\<lambda>s. (case map_of s src of
     Some (File bs) \<Rightarrow>
       (if map_of s dst = Some Tier then Inl OSError
        else Inr (put_entry dst (File bs) (filter (\<lambda>(q, _). q \<noteq> src) s)))
   | Some Tier \<Rightarrow> Inl OSError | None \<Rightarrow> Inl FileNotFoundError))"

text \<open>Removing one entry; a tier must be empty.\<close>

definition remove_entry :: "rpath \<Rightarrow> unit rio" where
  "remove_entry p = rchange (\<lambda>s.
     (if \<not> found s p then Inl FileNotFoundError
      else if list_ex (\<lambda>(q, _). starts_with p q \<and> q \<noteq> p) s then Inl OSError
      else Inr (filter (\<lambda>(q, _). q \<noteq> p) s)))"

text \<open>The entries at and below a tier, the deepest first: the order in which \<open>shutil.rmtree\<close> removes them.\<close>

definition keys_below :: "rpath \<Rightarrow> store \<Rightarrow> rpath list" where
  "keys_below p s = rev (sort_key length (remdups (filter (starts_with p) (map fst s))))"

definition list_tree :: "rpath \<Rightarrow> rpath list rio" where
  "list_tree p = rcall (\<lambda>s. (case map_of s p of
     None \<Rightarrow> Inl FileNotFoundError | Some (File _) \<Rightarrow> Inl NotADirectoryError | Some Tier \<Rightarrow> Inr (keys_below p s)))"

text \<open>\<open>shutil.rmtree(p)\<close> stops at the first error; with \<open>ignore_errors=True\<close> it goes on.\<close>

definition rmtree_strict :: "rpath \<Rightarrow> unit rio" where
  "rmtree_strict p = andthen (list_tree p) (\<lambda>ks. foreach ks remove_entry)"

definition rmtree :: "rpath \<Rightarrow> unit rio" where
  "rmtree p = except_do
     (andthen (list_tree p) (\<lambda>ks. foreach ks (\<lambda>k. except_do (remove_entry k) (\<lambda>_. True) (\<lambda>_. ret ()))))
     (\<lambda>_. True) (\<lambda>_. ret ())"

section \<open>Copying and moving\<close>

definition copy_file :: "rpath \<Rightarrow> rpath \<Rightarrow> unit rio" where
  "copy_file src dst = andthen (look (\<lambda>s. src = dst \<and> found s src)) (\<lambda>same.
     if same then raise OSError
     else andthen (read_file src) (\<lambda>bs. andthen (open_for True dst) (\<lambda>_. add_bytes dst bs)))"

text \<open>\<open>shutil.copy2\<close>: an existing tier receives the file under its own name.\<close>

definition copy2 :: "rpath \<Rightarrow> rpath \<Rightarrow> unit rio" where
  "copy2 src dst = andthen (look (\<lambda>s. map_of s dst = Some Tier)) (\<lambda>tier.
     copy_file src (if tier \<and> src \<noteq> [] then dst @ [last src] else dst))"

text \<open>\<open>shutil.copytree\<close> to a new tier: what cannot be copied is left out and reported at the end.  The
  source is listed once, parents before children, so a tier that is copied into itself is copied as it was;
  Python lists it tier by tier.\<close>

definition entries_below :: "rpath \<Rightarrow> store \<Rightarrow> store" where
  "entries_below p s = sort_key (\<lambda>(q, _). length q) (filter (\<lambda>(q, _). starts_with p q \<and> q \<noteq> p) s)"

fun copy_entries :: "rpath \<Rightarrow> rpath \<Rightarrow> store \<Rightarrow> bool rio" where
  "copy_entries src dst [] = ret True"
| "copy_entries src dst ((q, x) # xs) =
     (let p = dst @ drop (length src) q in
      andthen (except_do (andthen (case x of Tier \<Rightarrow> mkdir p | File _ \<Rightarrow> copy_file q p) (\<lambda>_. ret True)) is_oserror (\<lambda>_. ret False)) (\<lambda>ok.
      andthen (copy_entries src dst xs) (\<lambda>rest. ret (ok \<and> rest))))"

definition copytree :: "rpath \<Rightarrow> rpath \<Rightarrow> unit rio" where
  "copytree src dst =
     andthen (rcall (\<lambda>s. (case map_of s src of
        None \<Rightarrow> Inl FileNotFoundError | Some (File _) \<Rightarrow> Inl NotADirectoryError | Some Tier \<Rightarrow> Inr (entries_below src s)))) (\<lambda>xs.
     andthen (makedirs dst False) (\<lambda>_.
     andthen (copy_entries src dst xs) (\<lambda>ok. if ok then ret () else raise OSError)))"

text \<open>\<open>os.rename\<close>: a file may replace a file and a tier an empty tier, on the same device.\<close>

definition renamed :: "rpath \<Rightarrow> rpath \<Rightarrow> store \<Rightarrow> store res" where
  "renamed src dst s =
     (if \<not> found s src then Inl FileNotFoundError
      else if src = dst then Inr s
      else if starts_with src dst \<or> \<not> parent_found s dst then Inl OSError
      else case map_of s dst of
          None \<Rightarrow> Inr (shift_tree src dst s)
        | Some x \<Rightarrow>
            if (x = Tier) = (map_of s src = Some Tier) \<and> \<not> list_ex (\<lambda>(q, _). starts_with dst q \<and> q \<noteq> dst) s
            then Inr (shift_tree src dst (filter (\<lambda>(q, _). q \<noteq> dst) s)) else Inl OSError)"

definition rename_path :: "rpath \<Rightarrow> rpath \<Rightarrow> unit rio" where
  "rename_path src dst e = rchange (\<lambda>s. if r_device e src = r_device e dst then renamed src dst s else Inl OSError) e"

text \<open>\<open>shutil.move\<close>: an existing tier receives the source under its own name; when the rename fails, for
  whatever reason, the source is copied and then removed.\<close>

definition move_copying :: "rpath \<Rightarrow> rpath \<Rightarrow> unit rio" where
  "move_copying src goal =
     andthen (look (\<lambda>s. map_of s src = Some Tier)) (\<lambda>tier.
       if tier then (if starts_with src goal then raise OSError else andthen (copytree src goal) (\<lambda>_. rmtree_strict src))
       else andthen (copy2 src goal) (\<lambda>_. remove_file src))"

definition move_path :: "rpath \<Rightarrow> rpath \<Rightarrow> unit rio" where
  "move_path src dst =
     andthen (look (\<lambda>s. map_of s dst = Some Tier)) (\<lambda>tier.
       if tier \<and> src = dst then rename_path src dst
       else if tier \<and> src = [] then raise OSError
       else
         (let goal = (if tier then dst @ [last src] else dst) in
          andthen (look (\<lambda>s. found s goal)) (\<lambda>there.
            if tier \<and> there then raise OSError
            else except_do (rename_path src goal) is_oserror (\<lambda>_. move_copying src goal))))"

section \<open>Time and random bytes\<close>

definition now_of :: "rat rio" where
  "now_of e b = (Inr (r_time e (b_calls b)), b\<lparr>b_calls := b_calls b + 1\<rparr>)"

definition token_hex :: "nat \<Rightarrow> pystr rio" where
  "token_hex n e b = (Inr (hex_of (r_token e (b_calls b) n)), b\<lparr>b_calls := b_calls b + 1\<rparr>)"

end
