(* ===== verification/T1_Files_Facts.thy ===== *)
theory T1_Files_Facts
  imports T1_Files
begin

text \<open>
  Facts on the file system and on programs over it: \<open>yields\<close> relates a program to its result and the
  file system it leaves when no call fails.
\<close>

section \<open>Runs without failures\<close>

named_theorems yields_rules \<open>results of programs when no call fails\<close>

definition no_fault :: "renv \<Rightarrow> bool" where
  "no_fault e \<longleftrightarrow> (\<forall>n. r_fault e n = None)"

definition yields :: "renv \<Rightarrow> store \<Rightarrow> 'a rio \<Rightarrow> 'a \<Rightarrow> store \<Rightarrow> bool" where
  "yields e s m x s' \<longleftrightarrow> (\<forall>b. b_fs b = s \<longrightarrow> (\<exists>b'. m e b = (Inr x, b') \<and> b_fs b' = s'))"

lemma yieldsD: "yields e s m x s' \<Longrightarrow> b_fs b = s \<Longrightarrow> \<exists>b'. m e b = (Inr x, b') \<and> b_fs b' = s'"
  by (auto simp: yields_def)

lemma yields_ret [yields_rules]: "yields e s (ret x) x s"
  by (simp add: yields_def ret_run)

lemma yields_andthen: "yields e s m x s1 \<Longrightarrow> yields e s1 (f x) y s2 \<Longrightarrow> yields e s (andthen m f) y s2"
  unfolding yields_def by (metis andthen_ok)

lemma yields_lift: "r = Inr x \<Longrightarrow> yields e s (lift_res r) x s"
  by (simp add: yields_def lift_res_def)

lemma yields_except: "yields e s m x s' \<Longrightarrow> yields e s (except_do m errs h) x s'"
  by (fastforce simp: yields_def except_do_def)

lemma yields_look: "yields e s (look f) (f s) s"
  by (simp add: yields_def look_def)

lemma yields_rcall: "no_fault e \<Longrightarrow> f s = Inr x \<Longrightarrow> yields e s (rcall f) x s"
  by (simp add: yields_def rcall_def no_fault_def)

lemma yields_rchange: "no_fault e \<Longrightarrow> f s = Inr s' \<Longrightarrow> yields e s (rchange f) () s'"
  unfolding rchange_def
  by (rule yields_andthen [OF yields_rcall]) (auto simp: yields_def put_fs_def)

lemma yields_token: "(\<And>t. yields e s (f t) y s') \<Longrightarrow> yields e s (andthen (token_hex n) f) y s'"
  unfolding yields_def
proof (intro allI impI)
  fix b :: rbin
  assume f: "\<And>t. \<forall>b. b_fs b = s \<longrightarrow> (\<exists>b'. f t e b = (Inr y, b') \<and> b_fs b' = s')" and b: "b_fs b = s"
  obtain t where t: "token_hex n e b = (Inr t, b\<lparr>b_calls := b_calls b + 1\<rparr>)" by (simp add: token_hex_def)
  have "b_fs (b\<lparr>b_calls := b_calls b + 1\<rparr>) = s" using b by simp
  with f obtain b' where "f t e (b\<lparr>b_calls := b_calls b + 1\<rparr>) = (Inr y, b') \<and> b_fs b' = s'" by blast
  then show "\<exists>b'. andthen (token_hex n) f e b = (Inr y, b') \<and> b_fs b' = s'" using t by (auto simp: andthen_def)
qed

text \<open>A clock that stands still for the run.\<close>

definition at_time :: "renv \<Rightarrow> rat \<Rightarrow> bool" where
  "at_time e t \<longleftrightarrow> (\<forall>n. r_time e n = t)"

lemma yields_now: "at_time e t \<Longrightarrow> yields e s now_of t s"
  by (simp add: yields_def now_of_def at_time_def)

lemma yields_foreach:
  "(\<And>s x. x \<in> set xs \<Longrightarrow> yields e s (f x) () (g x s)) \<Longrightarrow> yields e s (foreach xs f) () (fold g xs s)"
  by (induction xs arbitrary: s) (auto intro!: yields_ret intro: yields_andthen)

section \<open>Entries\<close>

lemma map_of_put [simp]: "map_of (put_entry p x s) q = (if q = p then Some x else map_of s q)"
  by (induction s) (auto simp: put_entry_def)

lemma put_put [simp]: "put_entry p x (put_entry p y s) = put_entry p x s"
  by (simp add: put_entry_def)

lemma filter_put: "filter (\<lambda>(q, _). q \<noteq> p) (put_entry p x s) = filter (\<lambda>(q, _). q \<noteq> p) s"
  by (simp add: put_entry_def)

lemma map_of_drop: "map_of (drop_tree p s) q = (if starts_with p q then None else map_of s q)"
  by (induction s) (auto simp: drop_tree_def)

section \<open>Removing\<close>

lemma yields_remove_entry:
  assumes "no_fault e" "found s p" "\<forall>q \<in> fst ` set s. starts_with p q \<longrightarrow> q = p"
  shows "yields e s (remove_entry p) () (filter (\<lambda>(q, _). q \<noteq> p) s)"
  unfolding remove_entry_def
proof (rule yields_rchange [OF assms(1)])
  have "\<not> list_ex (\<lambda>(q, _). starts_with p q \<and> q \<noteq> p) s" using assms(3) by (force simp: list_ex_iff)
  then show "(if \<not> found s p then Inl FileNotFoundError
      else if list_ex (\<lambda>(q, _). starts_with p q \<and> q \<noteq> p) s then Inl OSError
      else Inr (filter (\<lambda>(q, _). q \<noteq> p) s)) = Inr (filter (\<lambda>(q, _). q \<noteq> p) s)"
    using assms(2) by simp
qed

lemma starts_with_length: "starts_with p q \<Longrightarrow> length q \<le> length p \<Longrightarrow> q = p"
  by (auto simp: starts_with_iff)

text \<open>Keys in order of falling length, with everything below them among them.\<close>

definition removable :: "rpath list \<Rightarrow> store \<Rightarrow> bool" where
  "removable ks s \<longleftrightarrow> distinct ks \<and> sorted_wrt (\<lambda>a b. length b \<le> length a) ks \<and> set ks \<subseteq> fst ` set s
     \<and> (\<forall>q \<in> fst ` set s. \<forall>k \<in> set ks. starts_with k q \<longrightarrow> q \<in> set ks)"

lemma removable_Cons:
  assumes "removable (k # ks) s"
  shows "found s k" "\<forall>q \<in> fst ` set s. starts_with k q \<longrightarrow> q = k" "removable ks (filter (\<lambda>(q, _). q \<noteq> k) s)"
proof -
  show "found s k" using assms by (auto simp: removable_def found_def map_of_eq_None_iff)
  show "\<forall>q \<in> fst ` set s. starts_with k q \<longrightarrow> q = k"
  proof (intro ballI impI)
    fix q
    assume q: "q \<in> fst ` set s" "starts_with k q"
    then have "q \<in> set (k # ks)" using assms unfolding removable_def by (metis list.set_intros(1))
    then have "length q \<le> length k" using assms by (auto simp: removable_def)
    then show "q = k" using starts_with_length q(2) by blast
  qed
  show "removable ks (filter (\<lambda>(q, _). q \<noteq> k) s)"
    using assms unfolding removable_def by (auto 0 3 simp: subset_iff image_iff)
qed

lemma yields_remove_all:
  assumes "no_fault e" "removable ks s" "\<And>s k s'. yields e s (remove_entry k) () s' \<Longrightarrow> yields e s (f k) () s'"
  shows "yields e s (foreach ks f) () (filter (\<lambda>(q, _). q \<notin> set ks) s)"
  using assms(2)
proof (induction ks arbitrary: s)
  case Nil
  then show ?case by (simp add: yields_ret)
next
  case (Cons k ks)
  note r = removable_Cons [OF Cons.prems]
  have "filter (\<lambda>(q, _). q \<notin> set ks) (filter (\<lambda>(q, _). q \<noteq> k) s) = filter (\<lambda>(q, _). q \<notin> set (k # ks)) s"
    by (auto intro: filter_cong)
  then have "yields e (filter (\<lambda>(q, _). q \<noteq> k) s) (foreach ks f) () (filter (\<lambda>(q, _). q \<notin> set (k # ks)) s)"
    using Cons.IH [OF r(3)] by simp
  then show ?case using yields_andthen [OF assms(3) [OF yields_remove_entry [OF assms(1) r(1,2)]]] by simp
qed

lemma keys_below_set: "set (keys_below p s) = {q \<in> fst ` set s. starts_with p q}"
  by (auto simp: keys_below_def)

lemma keys_below_removable: "removable (keys_below p s) s"
proof -
  have "distinct (keys_below p s)" by (simp add: keys_below_def)
  moreover have "sorted_wrt (\<lambda>a b. length b \<le> length a) (keys_below p s)"
    unfolding keys_below_def sorted_wrt_rev
    using sorted_sort_key [of length "remdups (filter (starts_with p) (map fst s))"] by (simp only: sorted_map)
  ultimately show ?thesis
    unfolding removable_def keys_below_set using starts_with_trans by blast
qed

lemma drop_tree_keys: "filter (\<lambda>(q, _). q \<notin> set (keys_below p s)) s = drop_tree p s"
  unfolding drop_tree_def keys_below_set by (rule filter_cong) (force simp: image_iff)+

lemma yields_rmtree_strict:
  assumes "no_fault e" "map_of s p = Some Tier"
  shows "yields e s (rmtree_strict p) () (drop_tree p s)"
proof -
  have "yields e s (list_tree p) (keys_below p s) s"
    unfolding list_tree_def using assms by (intro yields_rcall) simp_all
  then show ?thesis
    unfolding rmtree_strict_def using yields_remove_all [OF assms(1) keys_below_removable [of p s], where f = remove_entry]
    by (auto simp: drop_tree_keys intro: yields_andthen)
qed

lemma keys_of_drop: "q \<in> fst ` set (drop_tree p s) \<Longrightarrow> q \<in> fst ` set s \<and> \<not> starts_with p q"
  by (auto simp: drop_tree_def)

text \<open>A path that is a tier, or that has nothing at or below it.\<close>

definition tree_ok :: "store \<Rightarrow> rpath \<Rightarrow> bool" where
  "tree_ok s p \<longleftrightarrow> map_of s p = Some Tier \<or> (\<forall>q \<in> fst ` set s. \<not> starts_with p q)"

lemma tree_ok_drop: "tree_ok s p \<Longrightarrow> tree_ok (drop_tree p' s) p"
proof (cases "starts_with p' p")
  case True
  then show ?thesis by (auto simp: tree_ok_def drop_tree_def dest: starts_with_trans)
next
  case False
  assume "tree_ok s p"
  then show ?thesis using False keys_of_drop by (fastforce simp: tree_ok_def map_of_drop)
qed

lemma yields_rmtree:
  assumes "no_fault e" "tree_ok s p"
  shows "yields e s (rmtree p) () (drop_tree p s)"
proof (cases "map_of s p = Some Tier")
  case True
  have "yields e s (list_tree p) (keys_below p s) s"
    unfolding list_tree_def using assms(1) True by (intro yields_rcall) simp_all
  moreover have "yields e s (foreach (keys_below p s) (\<lambda>k. except_do (remove_entry k) (\<lambda>_. True) (\<lambda>_. ret ()))) () (drop_tree p s)"
    unfolding drop_tree_keys [symmetric]
    by (rule yields_remove_all [OF assms(1) keys_below_removable]) (rule yields_except)
  ultimately show ?thesis unfolding rmtree_def by (intro yields_except) (rule yields_andthen)
next
  case False
  then have n: "\<forall>q \<in> fst ` set s. \<not> starts_with p q" using assms(2) by (simp add: tree_ok_def)
  then have "drop_tree p s = s" unfolding drop_tree_def filter_id_conv by force
  moreover have "map_of s p = None" using n by (auto simp: map_of_eq_None_iff)
  ultimately show ?thesis
    using assms(1) by (auto simp: yields_def rmtree_def except_do_def andthen_def list_tree_def rcall_def no_fault_def ret_def)
qed

section \<open>Making tiers and moving\<close>

lemma yields_mkdir:
  "no_fault e \<Longrightarrow> map_of s p = None \<Longrightarrow> parent_found s p \<Longrightarrow> yields e s (mkdir p) () (put_entry p Tier s)"
  unfolding mkdir_def by (rule yields_rchange) (simp_all add: found_def)

lemma yields_foreach_same: "(\<And>x. x \<in> set xs \<Longrightarrow> yields e s (f x) () s) \<Longrightarrow> yields e s (foreach xs f) () s"
  by (induction xs) (auto intro: yields_ret yields_andthen)

lemma yields_parents_there:
  assumes "\<forall>k < length p. found s (take k p)"
  shows "yields e s (foreach (map (\<lambda>k. take k p) [0..<length p])
     (\<lambda>q. andthen (look (\<lambda>s. found s q)) (\<lambda>there. if there then ret () else mkdir q))) () s"
  using assms
  by (intro yields_foreach_same) (auto simp: yields_def andthen_def look_def ret_def)

lemma yields_makedirs_new:
  assumes "no_fault e" "\<forall>k < length p. found s (take k p)" "map_of s p = None" "parent_found s p"
  shows "yields e s (makedirs p ok) () (put_entry p Tier s)"
  unfolding makedirs_def
  by (rule yields_andthen [OF yields_parents_there [OF assms(2)]])
    (intro yields_except yields_mkdir [OF assms(1,3,4)])

lemma yields_makedirs_there:
  assumes "no_fault e" "\<forall>k \<le> length p. found s (take k p)" "map_of s p = Some Tier"
  shows "yields e s (makedirs p True) () s"
proof -
  have "yields e s (except_do (mkdir p) (\<lambda>err. is_oserror err \<and> True)
       (\<lambda>err. andthen (look (\<lambda>s. map_of s p = Some Tier)) (\<lambda>tier. if tier then ret () else raise err))) () s"
    using assms(1,3)
    by (auto simp: yields_def except_do_def mkdir_def rchange_def andthen_def rcall_def no_fault_def found_def look_def ret_def)
  then show ?thesis
    unfolding makedirs_def by (intro yields_andthen [OF yields_parents_there]) (use assms(2) in auto)
qed

lemma yields_rename:
  assumes "no_fault e" "r_device e src = r_device e dst" "renamed src dst s = Inr s'"
  shows "yields e s (rename_path src dst) () s'"
proof -
  have "yields e s (rchange (\<lambda>s. if r_device e src = r_device e dst then renamed src dst s else Inl OSError)) () s'"
    using assms by (intro yields_rchange) auto
  then show ?thesis by (simp add: yields_def rename_path_def)
qed

lemma yields_move:
  assumes "no_fault e" "r_device e src = r_device e dst" "map_of s src \<noteq> None" "map_of s dst = None" "parent_found s dst" "\<not> starts_with src dst"
  shows "yields e s (move_path src dst) () (shift_tree src dst s)"
proof -
  have "renamed src dst s = Inr (shift_tree src dst s)"
    using assms(3-6) by (auto simp: renamed_def found_def)
  then have "yields e s (except_do (rename_path src dst) is_oserror (\<lambda>_. move_copying src dst)) () (shift_tree src dst s)"
    by (intro yields_except yields_rename [OF assms(1,2)])
  then show ?thesis
    using assms(4) unfolding yields_def by (auto simp: move_path_def andthen_def look_def found_def)
qed

end
