(* ===== verification/Rubbish.thy ===== *)
theory Rubbish
  imports T1_Files_Facts
begin

text \<open>
  The rubbish bin (\<open>rubbish/rubbish.py\<close>) and the protected paths it asks for
  (\<open>check\<close> of \<open>architect/architect.py\<close>), over the file system of \<^emph>\<open>T1_Files\<close>.  Text files are decoded as
  a whole, so that one that cannot be decoded yields no line.  The messages the functions print are
  not modelled; a function that returns nothing after an error returns normally here.
\<close>

section \<open>Protected paths\<close>

definition ARCH_PROTECTED_NONRECURSIVE :: "rpath list" where
  "ARCH_PROTECTED_NONRECURSIVE = [[cps ''software''], [cps ''master''], [cps ''the one''], [cps ''.rubbish''], [cps ''.remainder''],
     [cps ''.ephemeral''], [cps ''the one'', cps ''settings''], [cps ''the one'', cps ''logs''], [cps ''the one'', cps ''software''],
     [cps ''the one'', cps ''resources''], [cps ''the one'', cps ''drivers''], [cps ''the one'', cps ''catalogue'']]"

definition ARCH_PROTECTED_RECURSIVE :: "rpath list" where
  "ARCH_PROTECTED_RECURSIVE = [[cps ''boot''], [cps ''the one'', cps ''master''], [cps ''the one'', cps ''build'']]"

text \<open>Without links \<open>os.path.realpath\<close> is \<open>os.path.abspath\<close>.\<close>

definition check :: "rpath \<Rightarrow> pystr \<Rightarrow> bool" where
  "check cwd path =
     (let rp = abspath cwd path in
      rp \<notin> set ARCH_PROTECTED_NONRECURSIVE \<and> \<not> list_ex (\<lambda>p. starts_with p rp) ARCH_PROTECTED_RECURSIVE)"

text \<open>\<open>requirepermission\<close>: whether the wrapped command runs.\<close>

definition requirepermission :: "rpath \<Rightarrow> pystr list \<Rightarrow> bool" where
  "requirepermission cwd args = list_all (check cwd) (take 2 (if args = [] then [[46]] else args))"

section \<open>Configuration and identity\<close>

definition RUBBISHDIR :: rpath where "RUBBISHDIR = [cps ''.rubbish'']"

definition INDEXFILE :: rpath where "INDEXFILE = RUBBISHDIR @ [cps ''index.txt'']"

definition CONF_FILE :: rpath where "CONF_FILE = [cps ''the one'', cps ''settings'', cps ''rubbish.txt'']"

definition SESSIONIDENTITYFILE :: rpath where
  "SESSIONIDENTITYFILE = [cps ''the one'', cps ''settings'', cps ''session'', cps ''identity.json'']"

type_synonym config = "pystr \<Rightarrow> pystr option"

definition default_config :: config where
  "default_config = [cps ''maxsizemb'' \<mapsto> cps ''512'', cps ''maxagedays'' \<mapsto> cps ''30'', cps ''protectsecs'' \<mapsto> cps ''3600'']"

text \<open>The lines a file object yields.\<close>

definition file_lines :: "pystr \<Rightarrow> pystr list" where
  "file_lines text = (let ls = split_on 10 text in if last ls = [] then butlast ls else ls)"

text \<open>A loop over the lines of a file, with the exception that ends it, if one does: a call that fails, or bytes that
  are not UTF-8.  How many of the lines in front of the failure have been delivered by then depends on the buffers of the
  interpreter: \<open>r_lines\<close>.\<close>

fun good_text :: "nat \<Rightarrow> bytes \<Rightarrow> pystr" where
  "good_text 0 bs = []"
| "good_text (Suc n) bs = (case decode_text (take (Suc n) bs) of Inr t \<Rightarrow> t | Inl _ \<Rightarrow> good_text n bs)"

definition lines_read :: "rpath \<Rightarrow> (pystr list \<times> pyerr option) rio" where
  "lines_read p e b = (case read_text p e b of
     (Inr t, b1) \<Rightarrow> (Inr (file_lines t, None), b1)
   | (Inl err, b1) \<Rightarrow>
       (Inr (take (r_lines e (b_calls b)) (case map_of (b_fs b) p of
           Some (File bs) \<Rightarrow> butlast (split_on 10 (good_text (length bs) bs)) | _ \<Rightarrow> []), Some err), b1))"

definition config_line :: "pystr \<Rightarrow> config \<Rightarrow> config" where
  "config_line line0 cfg =
     (let line = strip line0 in
      if line = [] \<or> hd line = 35 then cfg
      else if 61 \<in> set line then cfg(strip (fst (partition_on 61 line)) \<mapsto> strip (snd (partition_on 61 line)))
      else cfg)"

definition loadconfig :: "config rio" where
  "loadconfig =
     andthen (look (\<lambda>s. found s CONF_FILE)) (\<lambda>there.
       if there then andthen (lines_read CONF_FILE) (\<lambda>(ls, err). ret (fold config_line ls default_config))
       else ret default_config)"

text \<open>The name of the session's user; \<open>RuntimeError\<close> is reported as \<open>ValueError\<close>.\<close>

definition session_char :: "cp \<Rightarrow> bool" where
  "session_char c \<longleftrightarrow> is_digit c \<or> (65 \<le> c \<and> c \<le> 90) \<or> (97 \<le> c \<and> c \<le> 122)"

definition session_name :: "pystr \<Rightarrow> bool" where
  "session_name s \<longleftrightarrow> s \<noteq> [] \<and> length s \<le> 32 \<and> session_char (hd s)
     \<and> list_all (\<lambda>c. session_char c \<or> c = 46 \<or> c = 95 \<or> c = 45) (tl s)"

definition identity_name :: "json \<Rightarrow> pystr option" where
  "identity_name v = (case v of
     JObj m \<Rightarrow>
       (if fset (fmdom m) = {cps ''format'', cps ''username''} \<and> fmlookup m (cps ''format'') = Some (JInt 1)
        then (case fmlookup m (cps ''username'') of
            Some (JStr s) \<Rightarrow> if session_name s then Some s else None | _ \<Rightarrow> None)
        else None)
   | _ \<Rightarrow> None)"

definition getusername :: "pystr rio" where
  "getusername e =
     andthen (except_do (read_file SESSIONIDENTITYFILE) (\<lambda>_. True) (\<lambda>_. raise ValueError)) (\<lambda>raw.
       if length raw > 1024 then raise ValueError
       else case utf8_decode_strict raw of
           Inl _ \<Rightarrow> raise ValueError
         | Inr text \<Rightarrow> (case c_loads (r_codec e) text of
             None \<Rightarrow> raise ValueError
           | Some v \<Rightarrow> (case identity_name v of None \<Rightarrow> raise ValueError | Some s \<Rightarrow> ret s))) e"

section \<open>The index\<close>

record item =
  i_id :: pystr
  i_name :: pystr
  i_orig :: pystr
  i_isdir :: pystr
  i_size :: pystr
  i_ts :: pystr
  i_user :: pystr

definition index_header :: pystr where
  "index_header = join_with 9 [cps ''id'', cps ''name'', cps ''origpath'', cps ''isdir'', cps ''size'', cps ''deletedts'', cps ''user'']"

definition item_parts :: "item \<Rightarrow> pystr list" where
  "item_parts r = [i_id r, i_name r, i_orig r, i_isdir r, i_size r, i_ts r, i_user r]"

definition item_row :: "item \<Rightarrow> pystr" where
  "item_row r = join_with 9 (item_parts r)"

definition parse_item :: "pystr \<Rightarrow> item list" where
  "parse_item line =
     (let parts = split_on 9 line in
      if line = [] \<or> length parts < 7 then []
      else [\<lparr>i_id = parts ! 0, i_name = parts ! 1, i_orig = parts ! 2, i_isdir = parts ! 3, i_size = parts ! 4,
             i_ts = parts ! 5, i_user = parts ! 6\<rparr>])"

definition ensuretiers :: "bool rio" where
  "ensuretiers =
     except_do
       (andthen (makedirs RUBBISHDIR True) (\<lambda>_.
        andthen (look (\<lambda>s. found s INDEXFILE)) (\<lambda>there.
        andthen (if there then ret () else put_text INDEXFILE (index_header @ [10])) (\<lambda>_. ret True))))
       (\<lambda>_. True) (\<lambda>_. ret False)"

definition maketemp :: "rpath rio" where
  "maketemp = andthen (token_hex 3) (\<lambda>t. ret (RUBBISHDIR @ [cps ''index.txt.tmp.'' @ t]))"

definition appendindex :: "pystr \<Rightarrow> unit rio" where
  "appendindex row =
     except_do
       (andthen maketemp (\<lambda>tmp.
        andthen (put_text tmp row) (\<lambda>_.
        andthen (open_for False INDEXFILE) (\<lambda>_.
        andthen (read_text tmp) (\<lambda>text.
        andthen (lift_res (utf8_strict text)) (\<lambda>bs.
        andthen (add_bytes INDEXFILE bs) (\<lambda>_. remove_file tmp)))))))
       (\<lambda>_. True) (\<lambda>_. ret ())"

definition readindex :: "(item list) rio" where
  "readindex =
     andthen (lines_read INDEXFILE) (\<lambda>(ls, err).
       ret (if err = Some FileNotFoundError then [] else concat (map parse_item (drop 1 ls))))"

definition index_text :: "item list \<Rightarrow> pystr" where
  "index_text items = index_header @ [10] @ concat (map (\<lambda>r. item_row r @ [10]) items)"

definition writeindex :: "item list \<Rightarrow> unit rio" where
  "writeindex items =
     except_do
       (andthen maketemp (\<lambda>tmp. andthen (put_text tmp (index_text items)) (\<lambda>_. replace_file tmp INDEXFILE)))
       (\<lambda>_. True) (\<lambda>_. ret ())"

definition makeid :: "pystr rio" where
  "makeid = andthen now_of (\<lambda>t. andthen (token_hex 4) (\<lambda>h. ret (dec_int (truncate_rat (t * 1000)) @ [45] @ h)))"

text \<open>\<open>sizesingle\<close>: the bytes of a file, or of all files below a tier; 0 when there is nothing.\<close>

definition size_at :: "rpath \<Rightarrow> store \<Rightarrow> nat" where
  "size_at p s = sum_list (map (\<lambda>(q, x). case x of File bs \<Rightarrow> if starts_with p q then length bs else 0 | Tier \<Rightarrow> 0) s)"

definition sizesingle :: "rpath \<Rightarrow> nat rio" where
  "sizesingle p = except_do (rcall (\<lambda>s. Inr (size_at p s))) (\<lambda>_. True) (\<lambda>_. ret 0)"

text \<open>\<open>os.path.join(RUBBISHDIR, rid)\<close>: an identifier that is an absolute path, or that climbs, leaves
  the bin.\<close>

definition payload_tier :: "pystr \<Rightarrow> rpath" where
  "payload_tier rid = abspath RUBBISHDIR rid"

definition payload :: "item \<Rightarrow> rpath" where
  "payload r = payload_tier (i_id r)"

fun sum_sizes :: "item list \<Rightarrow> nat rio" where
  "sum_sizes [] = ret 0"
| "sum_sizes (r # rs) =
     andthen (sizesingle (payload r @ [cps ''content''])) (\<lambda>n. andthen (sum_sizes rs) (\<lambda>m. ret (n + m)))"

definition rubbishsize :: "nat rio" where
  "rubbishsize = andthen readindex sum_sizes"

section \<open>Putting away\<close>

text \<open>A fresh tier for the payload; a clash of names is tried once more.\<close>

definition new_payload :: "pystr rio" where
  "new_payload =
     andthen makeid (\<lambda>rid.
       except_do (andthen (makedirs (payload_tier rid) False) (\<lambda>_. ret rid))
         (\<lambda>err. err = FileExistsError)
         (\<lambda>_. andthen makeid (\<lambda>rid2. andthen (makedirs (payload_tier rid2) False) (\<lambda>_. ret rid2))))"

definition describe :: "rpath \<Rightarrow> pystr \<Rightarrow> pystr \<Rightarrow> item rio" where
  "describe target rid user =
     (let content = payload_tier rid @ [cps ''content''] in
      andthen (look (\<lambda>s. map_of s content = Some Tier)) (\<lambda>isdir.
      andthen (sizesingle content) (\<lambda>size.
      andthen now_of (\<lambda>t.
        ret \<lparr>i_id = rid, i_name = (if target = [] then [] else last target), i_orig = path_text target,
             i_isdir = (if isdir then [49] else [48]), i_size = dec_nat size, i_ts = dec_int (truncate_rat t),
             i_user = user\<rparr>))))"

definition storeone :: "pystr \<Rightarrow> unit rio" where
  "storeone path e =
     except_do
       (andthen getusername (\<lambda>user.
        (let target = abspath (r_cwd e) path in
         if starts_with RUBBISHDIR target then ret ()
         else
           andthen (look (\<lambda>s. found s target)) (\<lambda>there.
             if \<not> there then ret ()
             else
               andthen new_payload (\<lambda>rid.
               andthen (move_path target (payload_tier rid @ [cps ''content''])) (\<lambda>_.
               andthen (describe target rid user) (\<lambda>r. appendindex (item_row r @ [10]))))))))
       (\<lambda>_. True) (\<lambda>_. ret ()) e"

definition storepaths :: "pystr list \<Rightarrow> unit rio" where
  "storepaths paths = andthen ensuretiers (\<lambda>ok. if ok then foreach paths storeone else ret ())"

section \<open>Restoring\<close>

text \<open>The complete rows of the index; one with more than seven fields cannot be unpacked.\<close>

definition full_rows :: "pystr list \<Rightarrow> pystr list list" where
  "full_rows lines = filter (\<lambda>parts. 7 \<le> length parts) (map (split_on 9) (filter (\<lambda>l. l \<noteq> []) (drop 1 lines)))"

fun matching_rows :: "rpath \<Rightarrow> pystr \<Rightarrow> pystr option \<Rightarrow> pystr list list \<Rightarrow> (item list) res" where
  "matching_rows cwd name original [] = Inr []"
| "matching_rows cwd name original (parts # rows) =
     (if length parts \<noteq> 7 then Inl ValueError
      else rbind (matching_rows cwd name original rows) (\<lambda>rs.
        let r = \<lparr>i_id = parts ! 0, i_name = parts ! 1, i_orig = parts ! 2, i_isdir = parts ! 3, i_size = parts ! 4,
              i_ts = parts ! 5, i_user = parts ! 6\<rparr> in
        Inr (if i_name r = name \<and> (case original of None \<Rightarrow> True | Some op \<Rightarrow> abspath cwd (i_orig r) = abspath cwd op)
             then r # rs else rs)))"

definition without_row :: "pystr \<Rightarrow> pystr list \<Rightarrow> pystr" where
  "without_row rid lines =
     join_with 10 (take 1 lines @ filter (\<lambda>l. \<not> starts_with (rid @ [9]) l) (drop 1 lines)) @ [10]"

text \<open>The part both restore functions share.\<close>

definition put_back :: "pystr list \<Rightarrow> pystr \<Rightarrow> pystr \<Rightarrow> bool rio" where
  "put_back lines rid orig e =
     except_do
       (let dest = abspath (r_cwd e) orig;
            dest_dir = dirname orig in
        if \<not> check (r_cwd e) orig then ret False
        else
          andthen (look (\<lambda>s. found s dest)) (\<lambda>there.
            if there then ret False
            else
              andthen (if dest_dir = [] then raise FileNotFoundError else makedirs (abspath (r_cwd e) dest_dir) True) (\<lambda>_.
              andthen (move_path (payload_tier rid @ [cps ''content'']) dest) (\<lambda>_.
              andthen (put_text INDEXFILE (without_row rid lines)) (\<lambda>_. ret True)))))
       (\<lambda>_. True) (\<lambda>_. ret False) e"

definition index_lines :: "(pystr list option) rio" where
  "index_lines =
     except_do (andthen (read_text INDEXFILE) (\<lambda>text. ret (Some (splitlines (length text) text))))
       (\<lambda>err. err = FileNotFoundError) (\<lambda>_. ret None)"

definition restorefromrubbish :: "pystr \<Rightarrow> pystr option \<Rightarrow> bool rio" where
  "restorefromrubbish name original e =
     andthen index_lines (\<lambda>ls. (case ls of
        None \<Rightarrow> ret False
      | Some lines \<Rightarrow>
          andthen (lift_res (matching_rows (r_cwd e) name original (full_rows lines))) (\<lambda>ms. (case ms of
             [r] \<Rightarrow> put_back lines (i_id r) (i_orig r)
           | _ \<Rightarrow> ret False)))) e"

definition restorefromrubbishrid :: "pystr \<Rightarrow> bool rio" where
  "restorefromrubbishrid rid =
     andthen index_lines (\<lambda>ls. (case ls of
        None \<Rightarrow> ret False
      | Some lines \<Rightarrow> (case filter (\<lambda>parts. hd parts = rid) (full_rows lines) of
          [] \<Rightarrow> ret False
        | parts # _ \<Rightarrow> if length parts \<noteq> 7 then raise ValueError else put_back lines rid (parts ! 2))))"

section \<open>Emptying and purging\<close>

definition drop_payload :: "item \<Rightarrow> unit rio" where
  "drop_payload r =
     andthen (look (\<lambda>s. map_of s (payload r))) (\<lambda>x. (case x of
        Some Tier \<Rightarrow> rmtree (payload r) | Some (File _) \<Rightarrow> remove_file (payload r) | None \<Rightarrow> ret ()))"

definition emptyrubbish :: "unit rio" where
  "emptyrubbish =
     except_do (andthen readindex (\<lambda>items. andthen (foreach items drop_payload) (\<lambda>_. writeindex [])))
       (\<lambda>_. True) (\<lambda>_. ret ())"

text \<open>\<open>int(text)\<close>, and \<open>int(cfg.get(key, default) or default)\<close>.\<close>

definition text_int :: "renv \<Rightarrow> pystr \<Rightarrow> int res" where
  "text_int e t = (case c_text_int (r_codec e) t of None \<Rightarrow> Inl ValueError | Some i \<Rightarrow> Inr i)"

definition config_int :: "renv \<Rightarrow> config \<Rightarrow> string \<Rightarrow> string \<Rightarrow> int res" where
  "config_int e cfg key dflt =
     text_int e (case cfg (cps key) of None \<Rightarrow> cps dflt | Some v \<Rightarrow> if v = [] then cps dflt else v)"

fun split_old :: "renv \<Rightarrow> int \<Rightarrow> int \<Rightarrow> int \<Rightarrow> item list \<Rightarrow> (item list \<times> item list) res" where
  "split_old e now maxagedays protectsecs [] = Inr ([], [])"
| "split_old e now maxagedays protectsecs (r # rs) =
     rbind (text_int e (i_ts r)) (\<lambda>ts.
     rbind (split_old e now maxagedays protectsecs rs) (\<lambda>(keep, remove).
       let age = now - ts in
       Inr (if maxagedays * 86400 \<le> age \<and> protectsecs \<le> age then (keep, r # remove) else (r # keep, remove))))"

text \<open>The second pass: oldest first, until the size is within the cap.\<close>

fun cap_loop :: "int \<Rightarrow> int \<Rightarrow> int \<Rightarrow> (item \<times> int) list \<Rightarrow> int \<Rightarrow> item list \<Rightarrow> (int \<times> item list) rio" where
  "cap_loop now protectsecs cap [] sz_total keep = ret (sz_total, keep)"
| "cap_loop now protectsecs cap ((r, ts) # rs) sz_total keep =
     (if sz_total \<le> cap then ret (sz_total, keep)
      else if now - ts < protectsecs then cap_loop now protectsecs cap rs sz_total keep
      else andthen (sizesingle (payload r)) (\<lambda>sz.
           andthen (rmtree (payload r)) (\<lambda>_.
             cap_loop now protectsecs cap rs (sz_total - int sz) (filter (\<lambda>x. i_id x \<noteq> i_id r) keep))))"

fun dated :: "renv \<Rightarrow> item list \<Rightarrow> ((item \<times> int) list) res" where
  "dated e [] = Inr []"
| "dated e (r # rs) = rbind (text_int e (i_ts r)) (\<lambda>ts. rbind (dated e rs) (\<lambda>ds. Inr ((r, ts) # ds)))"

definition purge_size :: "int \<Rightarrow> int \<Rightarrow> int \<Rightarrow> item list \<Rightarrow> unit rio" where
  "purge_size now protectsecs cap keep e =
     andthen rubbishsize (\<lambda>sz_total.
       if int sz_total \<le> cap then ret ()
       else
         andthen (lift_res (dated e keep)) (\<lambda>ds.
         andthen (cap_loop now protectsecs cap (sort_key snd ds) (int sz_total) keep) (\<lambda>(sz_total', keep').
           if length keep' < length keep then writeindex keep' else ret ()))) e"

definition purgerubbish :: "unit rio" where
  "purgerubbish e =
     except_do
       (andthen ensuretiers (\<lambda>ok.
         if \<not> ok then ret ()
         else
           andthen loadconfig (\<lambda>cfg.
           andthen (lift_res (config_int e cfg ''maxsizemb'' ''512'')) (\<lambda>maxsizemb.
           andthen (lift_res (config_int e cfg ''maxagedays'' ''30'')) (\<lambda>maxagedays.
           andthen (lift_res (config_int e cfg ''protectsecs'' ''3600'')) (\<lambda>protectsecs.
           andthen readindex (\<lambda>items.
           andthen now_of (\<lambda>t.
           (let now = truncate_rat t in
           andthen (lift_res (split_old e now maxagedays protectsecs items)) (\<lambda>(keep, remove).
           andthen (foreach remove (\<lambda>r. rmtree (payload r))) (\<lambda>_.
           andthen (if remove \<noteq> [] then writeindex keep else ret ()) (\<lambda>_.
             purge_size now protectsecs (maxsizemb * 1024 * 1024) keep))))))))))))
       (\<lambda>_. True) (\<lambda>_. ret ()) e"

end
