(* ===== verification/Rubbish_Facts.thy ===== *)
theory Rubbish_Facts
  imports Rubbish
begin

text \<open>
  The text of the index: it is read back as it was written.
\<close>

section \<open>Sizes\<close>

lemma yields_sizesingle: "no_fault e \<Longrightarrow> yields e s (sizesingle p) (size_at p s) s"
  unfolding sizesingle_def by (intro yields_except yields_rcall) auto

lemma size_at_put: "\<not> starts_with p q \<Longrightarrow> size_at p (put_entry q x s) = size_at p s"
proof -
  assume n: "\<not> starts_with p q"
  then have "size_at p (filter (\<lambda>(q', _). q' \<noteq> q) s) = size_at p s"
    by (induction s) (auto simp: size_at_def split: entry.splits)
  then show ?thesis using n by (auto simp: size_at_def put_entry_def split: entry.splits)
qed

lemma size_at_drop: "\<forall>x. \<not> (starts_with p x \<and> starts_with q x) \<Longrightarrow> size_at p (drop_tree q s) = size_at p s"
  by (induction s) (auto simp: size_at_def drop_tree_def split: entry.splits if_splits)

section \<open>The index\<close>

definition clean_field :: "pystr \<Rightarrow> bool" where
  "clean_field f \<longleftrightarrow> (\<forall>c \<in> set f. cp_ok c \<and> \<not> is_surrogate c \<and> \<not> is_linebreak c \<and> c \<noteq> 9)"

definition clean_item :: "item \<Rightarrow> bool" where
  "clean_item r \<longleftrightarrow> list_all clean_field (item_parts r)"

lemma join_clean:
  "\<forall>x \<in> set xs. clean_field x \<Longrightarrow> c \<in> set (join_with 9 xs) \<Longrightarrow> cp_ok c \<and> \<not> is_surrogate c \<and> \<not> is_linebreak c"
proof (induction xs rule: induct_list012)
  case (3 x y zs)
  then consider "c \<in> set x" | "c = 9" | "c \<in> set (join_with 9 (y # zs))" by auto
  then show ?case
  proof cases
    case 1
    then show ?thesis using "3.prems"(1) by (simp add: clean_field_def)
  next
    case 2
    then show ?thesis by (simp add: cp_ok_def is_surrogate_def is_linebreak_def)
  next
    case c: 3
    then show ?thesis using "3.IH"(2) "3.prems"(1) by simp
  qed
qed (simp_all add: clean_field_def)

lemma row_clean: "clean_item r \<Longrightarrow> c \<in> set (item_row r) \<Longrightarrow> cp_ok c \<and> \<not> is_surrogate c \<and> \<not> is_linebreak c"
  using join_clean [of "item_parts r" c] by (simp add: clean_item_def item_row_def list_all_iff)

lemma header_clean: "c \<in> set index_header \<Longrightarrow> cp_ok c \<and> \<not> is_surrogate c \<and> \<not> is_linebreak c"
proof -
  have "\<forall>c \<in> set index_header. c < 123 \<and> (c = 9 \<or> 97 \<le> c)" by (simp add: index_header_def)
  then show "c \<in> set index_header \<Longrightarrow> ?thesis" by (auto simp: cp_ok_def is_surrogate_def is_linebreak_def)
qed

lemma row_parts: "clean_item r \<Longrightarrow> split_on 9 (item_row r) = item_parts r"
  unfolding item_row_def
  by (rule split_on_join) (auto simp: clean_item_def item_parts_def list_all_iff clean_field_def)

lemma parse_row: "clean_item r \<Longrightarrow> parse_item (item_row r) = [r]"
proof -
  assume c: "clean_item r"
  have "item_row r \<noteq> []" by (simp add: item_row_def item_parts_def)
  then show ?thesis using row_parts [OF c] by (simp add: parse_item_def item_parts_def)
qed

lemma index_text_chars:
  assumes "\<forall>r \<in> set items. clean_item r" "c \<in> set (index_text items)"
  shows "cp_ok c \<and> \<not> is_surrogate c \<and> c \<noteq> 13"
proof -
  have "c = 10 \<or> c \<in> set index_header \<or> (\<exists>r \<in> set items. c \<in> set (item_row r))"
    using assms(2) unfolding index_text_def by (auto split: if_splits)
  then consider "c = 10" | "\<not> is_linebreak c" "cp_ok c" "\<not> is_surrogate c"
    using assms(1) header_clean [of c] row_clean [of _ c] by blast
  then show ?thesis by cases (auto simp: cp_ok_def is_surrogate_def is_linebreak_def)
qed

lemma split_rows:
  "\<forall>r \<in> set items. clean_item r \<Longrightarrow> split_on 10 (concat (map (\<lambda>r. item_row r @ [10]) items)) = map item_row items @ [[]]"
proof (induction items)
  case (Cons r items)
  have "10 \<notin> set (item_row r)" using row_clean [of r 10] Cons.prems by (auto simp: is_linebreak_def)
  then show ?case using Cons by (simp add: split_on_append_sep)
qed simp

lemma index_file_lines:
  assumes "\<forall>r \<in> set items. clean_item r"
  shows "file_lines (index_text items) = index_header # map item_row items"
proof -
  have "10 \<notin> set index_header" using header_clean [of 10] by (auto simp: is_linebreak_def)
  then have "split_on 10 (index_text items) = index_header # map item_row items @ [[]]"
    using split_rows [OF assms] by (simp add: index_text_def split_on_append_sep)
  then show ?thesis by (simp add: file_lines_def)
qed

lemma splitlines_rows:
  "\<forall>r \<in> set items. clean_item r \<Longrightarrow> length items \<le> n \<Longrightarrow>
   splitlines n (concat (map (\<lambda>r. item_row r @ [10]) items)) = map item_row items"
proof (induction items arbitrary: n)
  case Nil
  then show ?case by (cases n) simp_all
next
  case (Cons r items)
  then obtain m where m: "n = Suc m" "length items \<le> m" by (cases n) auto
  have l: "\<forall>c \<in> set (item_row r). \<not> is_linebreak c" using row_clean Cons.prems(1) by auto
  show ?case using Cons m splitlines_line [OF l] by simp
qed

lemma index_splitlines:
  assumes "\<forall>r \<in> set items. clean_item r"
  shows "splitlines (length (index_text items)) (index_text items) = index_header # map item_row items"
proof -
  let ?t = "concat (map (\<lambda>r. item_row r @ [10]) items)"
  have l: "\<forall>c \<in> set index_header. \<not> is_linebreak c" using header_clean by auto
  have "length items \<le> length ?t" by (induction items) auto
  then have n: "length items \<le> length index_header + length ?t" by simp
  have "length (index_text items) = Suc (length index_header + length ?t)" by (simp add: index_text_def)
  moreover have "index_text items = index_header @ 10 # ?t" by (simp add: index_text_def)
  ultimately show ?thesis using splitlines_line [OF l] splitlines_rows [OF assms n] by simp
qed

definition holds_index :: "store \<Rightarrow> item list \<Rightarrow> bool" where
  "holds_index s items \<longleftrightarrow> map_of s INDEXFILE = Some (File (concat (map utf8_cp (index_text items))))"

lemma index_encoded:
  "\<forall>r \<in> set items. clean_item r \<Longrightarrow> utf8_strict (index_text items) = Inr (concat (map utf8_cp (index_text items)))"
  using index_text_chars by (auto simp: utf8_strict_def list_ex_iff)

lemma yields_index_text:
  assumes "no_fault e" "holds_index s items" "\<forall>r \<in> set items. clean_item r"
  shows "yields e s (read_text INDEXFILE) (index_text items) s"
proof -
  have "decode_text (concat (map utf8_cp (index_text items))) = Inr (index_text items)"
    by (rule decode_text_encoded [OF index_encoded [OF assms(3)]]) (use index_text_chars [OF assms(3)] in auto)
  moreover have "yields e s (read_file INDEXFILE) (concat (map utf8_cp (index_text items))) s"
    unfolding read_file_def using assms(1,2) by (intro yields_rcall) (simp_all add: holds_index_def)
  ultimately show ?thesis unfolding read_text_def by (blast intro: yields_andthen yields_lift)
qed

lemma yields_lines: "yields e s (read_text p) t s \<Longrightarrow> yields e s (lines_read p) (file_lines t, None) s"
  unfolding yields_def lines_read_def by (auto split: prod.splits sum.splits)

lemma yields_readindex:
  assumes "no_fault e" "holds_index s items" "\<forall>r \<in> set items. clean_item r"
  shows "yields e s readindex items s"
proof -
  have "concat (map parse_item (map item_row items)) = items"
    using assms(3) by (induction items) (auto simp: parse_row)
  then have "concat (map parse_item (drop 1 (file_lines (index_text items)))) = items"
    using index_file_lines [OF assms(3)] by simp
  then show ?thesis
    unfolding readindex_def using yields_lines [OF yields_index_text [OF assms]]
    by (intro yields_andthen [where x = "(file_lines (index_text items), None)"]) (auto intro: yields_ret)
qed

text \<open>The tiers and the index are there, and no temporary file is left over.\<close>

definition tmp_path :: "pystr \<Rightarrow> rpath" where
  "tmp_path t = RUBBISHDIR @ [cps ''index.txt.tmp.'' @ t]"

definition bin_ready :: "store \<Rightarrow> bool" where
  "bin_ready s \<longleftrightarrow> map_of s [] = Some Tier \<and> map_of s RUBBISHDIR = Some Tier \<and> (\<exists>bs. map_of s INDEXFILE = Some (File bs))
     \<and> (\<forall>t. tmp_path t \<notin> fst ` set s)"

lemma bin_ready_tmp:
  assumes "bin_ready s"
  shows "map_of s (tmp_path t) = None" "filter (\<lambda>(q, _). q \<noteq> tmp_path t) s = s"
proof -
  have t: "tmp_path t \<notin> fst ` set s" using assms by (simp add: bin_ready_def)
  then show "map_of s (tmp_path t) = None" by (simp add: map_of_eq_None_iff)
  show "filter (\<lambda>(q, _). q \<noteq> tmp_path t) s = s" unfolding filter_id_conv using t by force
qed

lemma tmp_path_facts: "INDEXFILE \<noteq> tmp_path t" "tmp_path t \<noteq> []" "butlast (tmp_path t) = RUBBISHDIR"
  by (simp_all add: INDEXFILE_def tmp_path_def)

lemma yields_put_text:
  assumes "no_fault e" "map_of s p = None" "parent_found s p" "utf8_strict t = Inr bs"
  shows "yields e s (put_text p t) () (put_entry p (File bs) s)"
proof -
  have o: "yields e s (open_for True p) () (put_entry p (File []) s)"
    unfolding open_for_def using assms(2,3) by (intro yields_rchange [OF assms(1)]) simp
  have a: "yields e (put_entry p (File []) s) (add_bytes p bs) () (put_entry p (File bs) s)"
    unfolding add_bytes_def by (intro yields_rchange [OF assms(1)]) simp
  show ?thesis
    unfolding put_text_def by (rule yields_andthen [OF o], rule yields_andthen [OF yields_lift [OF assms(4)]]) (rule a)
qed

lemma yields_writeindex:
  assumes "no_fault e" "bin_ready s" "\<forall>r \<in> set items. clean_item r"
  shows "yields e s (writeindex items) () (put_entry INDEXFILE (File (concat (map utf8_cp (index_text items)))) s)"
proof -
  let ?bs = "concat (map utf8_cp (index_text items))"
  have w: "yields e s (andthen (put_text (tmp_path t) (index_text items)) (\<lambda>_. replace_file (tmp_path t) INDEXFILE)) ()
      (put_entry INDEXFILE (File ?bs) s)" for t
  proof (rule yields_andthen)
    show "yields e s (put_text (tmp_path t) (index_text items)) () (put_entry (tmp_path t) (File ?bs) s)"
      using bin_ready_tmp [OF assms(2)] assms(2) tmp_path_facts [of t]
      by (intro yields_put_text [OF assms(1) _ _ index_encoded [OF assms(3)]]) (simp_all add: parent_found_def bin_ready_def)
    have "map_of s INDEXFILE \<noteq> Some Tier" using assms(2) by (auto simp: bin_ready_def)
    then show "yields e (put_entry (tmp_path t) (File ?bs) s) (replace_file (tmp_path t) INDEXFILE) ()
        (put_entry INDEXFILE (File ?bs) s)"
      unfolding replace_file_def using bin_ready_tmp [OF assms(2), of t] tmp_path_facts(1) [of t]
      by (intro yields_rchange [OF assms(1)]) (simp add: filter_put)
  qed
  then show ?thesis
    unfolding writeindex_def maketemp_def andthen_assoc andthen_value tmp_path_def by (intro yields_except yields_token)
qed

end
