(* ===== verification/Rubbish_Purge.thy ===== *)
theory Rubbish_Purge
  imports Rubbish_Facts
begin

text \<open>
  Purging the rubbish: which items go, what is left of the index and the payloads, and the size
  that remains.
\<close>

section \<open>Payloads\<close>

definition plain_id :: "item \<Rightarrow> bool" where
  "plain_id r \<longleftrightarrow> 47 \<notin> set (i_id r) \<and> i_id r \<notin> {[], [46], [46, 46], cps ''index.txt''}"

lemma payload_plain: "plain_id r \<Longrightarrow> payload r = RUBBISHDIR @ [i_id r]"
proof -
  assume p: "plain_id r"
  then have "hd (i_id r) \<noteq> 47" by (cases "i_id r") (auto simp: plain_id_def)
  then show ?thesis
    using p by (auto simp: plain_id_def payload_def payload_tier_def abspath_def split_on_no_sep simp del: cps_Cons)
qed

lemma payload_apart:
  "plain_id a \<Longrightarrow> plain_id b \<Longrightarrow> i_id a \<noteq> i_id b \<Longrightarrow> \<not> (starts_with (payload a) x \<and> starts_with (payload b) x)"
  by (auto simp: payload_plain starts_with_iff)

lemma payload_index: "plain_id r \<Longrightarrow> \<not> starts_with (payload r) INDEXFILE"
  by (auto simp: payload_plain INDEXFILE_def starts_with_iff) (simp add: plain_id_def)

lemma payload_above: "plain_id r \<Longrightarrow> \<not> starts_with (payload r) []" "plain_id r \<Longrightarrow> \<not> starts_with (payload r) RUBBISHDIR"
  by (auto simp: payload_plain RUBBISHDIR_def starts_with_iff)

definition only_content :: "store \<Rightarrow> item \<Rightarrow> bool" where
  "only_content s r \<longleftrightarrow> (\<forall>(q, x) \<in> set s. x \<noteq> Tier \<and> starts_with (payload r) q \<longrightarrow> starts_with (payload r @ [cps ''content'']) q)"

lemma size_content:
  assumes "only_content s r"
  shows "size_at (payload r @ [cps ''content'']) s = size_at (payload r) s"
proof -
  have "(\<lambda>(q, x). case x of File bs \<Rightarrow> if starts_with (payload r @ [cps ''content'']) q then length bs else 0 | Tier \<Rightarrow> 0) y
      = (\<lambda>(q, x). case x of File bs \<Rightarrow> if starts_with (payload r) q then length bs else 0 | Tier \<Rightarrow> 0) y" if "y \<in> set s" for y
    using assms that unfolding only_content_def starts_with_iff by (cases y) (fastforce split: entry.split simp del: cps_Cons)
  then show ?thesis unfolding size_at_def by (metis (no_types, lifting) map_cong)
qed

text \<open>A bin whose index lists its payloads.\<close>

definition bin_ok :: "store \<Rightarrow> item list \<Rightarrow> bool" where
  "bin_ok s items \<longleftrightarrow> bin_ready s \<and> holds_index s items \<and> distinct (map i_id items)
     \<and> (\<forall>r \<in> set items. clean_item r \<and> plain_id r \<and> only_content s r \<and> tree_ok s (payload r))"

lemma keys_drop: "fst ` set (drop_tree p s) \<subseteq> fst ` set s"
  by (auto simp: drop_tree_def)

lemma keys_put: "fst ` set (put_entry p x s) \<subseteq> insert p (fst ` set s)"
  by (auto simp: put_entry_def)

lemma bin_ready_drop: "bin_ready s \<Longrightarrow> plain_id r \<Longrightarrow> bin_ready (drop_tree (payload r) s)"
  using payload_index [of r] payload_above [of r] keys_drop [of "payload r" s]
  unfolding bin_ready_def map_of_drop by (auto simp del: cps_Cons)

lemma only_content_drop: "only_content s r \<Longrightarrow> only_content (drop_tree p s) r"
  by (auto simp: only_content_def drop_tree_def)

lemma index_path: "INDEXFILE \<noteq> []" "INDEXFILE \<noteq> RUBBISHDIR"
  by (simp_all add: INDEXFILE_def RUBBISHDIR_def)

lemma bin_ready_put: "bin_ready s \<Longrightarrow> bin_ready (put_entry INDEXFILE (File bs) s)"
  using tmp_path_facts(1) keys_put [of INDEXFILE "File bs" s] index_path
  unfolding bin_ready_def map_of_put by (metis (no_types, lifting) insertE subsetD)

lemma tree_ok_put: "tree_ok s (payload r) \<Longrightarrow> plain_id r \<Longrightarrow> tree_ok (put_entry INDEXFILE x s) (payload r)"
  using payload_index [of r] keys_put [of INDEXFILE x s] unfolding tree_ok_def map_of_put
  by (metis (mono_tags, lifting) fun_upd_other insertE starts_with_refl subsetD)

lemma only_content_put: "only_content s r \<Longrightarrow> plain_id r \<Longrightarrow> only_content (put_entry INDEXFILE x s) r"
  using payload_index [of r] by (auto simp: only_content_def put_entry_def)

abbreviation drop_payloads :: "item list \<Rightarrow> store \<Rightarrow> store" where
  "drop_payloads rs s \<equiv> fold (\<lambda>r. drop_tree (payload r)) rs s"

lemma drop_payloads_facts:
  assumes "\<forall>r \<in> set rs. plain_id r"
  shows "bin_ready s \<Longrightarrow> bin_ready (drop_payloads rs s)"
    and "only_content s x \<Longrightarrow> only_content (drop_payloads rs s) x"
    and "tree_ok s p \<Longrightarrow> tree_ok (drop_payloads rs s) p"
    and "map_of (drop_payloads rs s) INDEXFILE = map_of s INDEXFILE"
  using assms
  by (induction rs arbitrary: s) (auto simp: bin_ready_drop only_content_drop tree_ok_drop map_of_drop payload_index simp del: cps_Cons)

lemma drop_payloads_other:
  assumes "\<forall>r \<in> set rs. plain_id r \<and> i_id r \<noteq> i_id x" "plain_id x"
  shows "starts_with (payload x) q \<Longrightarrow> map_of (drop_payloads rs s) q = map_of s q"
    and "size_at (payload x) (drop_payloads rs s) = size_at (payload x) s"
  using assms
proof (induction rs arbitrary: s)
  case (Cons r rs)
  { case 1
    then show ?case using Cons(1) payload_apart [of x r q] by (auto simp: map_of_drop)
  next
    case 2
    then show ?case using Cons(2) payload_apart [of x r] by (auto simp: size_at_drop) }
qed simp_all

section \<open>What purging chooses\<close>

definition ts_of :: "renv \<Rightarrow> item \<Rightarrow> int" where
  "ts_of e r = (case text_int e (i_ts r) of Inr t \<Rightarrow> t | Inl _ \<Rightarrow> 0)"

definition dated_item :: "renv \<Rightarrow> item \<Rightarrow> bool" where
  "dated_item e r \<longleftrightarrow> (\<exists>t. text_int e (i_ts r) = Inr t)"

definition is_old :: "renv \<Rightarrow> int \<Rightarrow> int \<Rightarrow> int \<Rightarrow> item \<Rightarrow> bool" where
  "is_old e now maxage protect r \<longleftrightarrow> maxage * 86400 \<le> now - ts_of e r \<and> protect \<le> now - ts_of e r"

lemma split_old_filter:
  "\<forall>r \<in> set items. dated_item e r \<Longrightarrow> split_old e now maxage protect items =
     Inr (filter (\<lambda>r. \<not> is_old e now maxage protect r) items, filter (is_old e now maxage protect) items)"
  by (induction items) (auto simp: dated_item_def ts_of_def is_old_def Let_def)

lemma dated_all: "\<forall>r \<in> set items. dated_item e r \<Longrightarrow> dated e items = Inr (map (\<lambda>r. (r, ts_of e r)) items)"
  by (induction items) (auto simp: dated_item_def ts_of_def)

text \<open>The choice of the second pass as a function of the file system.\<close>

fun evict :: "int \<Rightarrow> int \<Rightarrow> int \<Rightarrow> (item \<times> int) list \<Rightarrow> int \<Rightarrow> store \<Rightarrow> item list \<times> int" where
  "evict now protect cap [] n s = ([], n)"
| "evict now protect cap ((r, ts) # ds) n s =
     (if n \<le> cap then ([], n)
      else if now - ts < protect then evict now protect cap ds n s
      else let (rs, m) = evict now protect cap ds (n - int (size_at (payload r) s)) (drop_tree (payload r) s) in (r # rs, m))"

lemma cap_loop_yields:
  "no_fault e \<Longrightarrow> evict now protect cap ds n s = (rs, m) \<Longrightarrow> \<forall>(r, ts) \<in> set ds. tree_ok s (payload r) \<Longrightarrow>
   yields e s (cap_loop now protect cap ds n keep) (m, filter (\<lambda>x. i_id x \<notin> i_id ` set rs) keep) (drop_payloads rs s)"
proof (induction now protect cap ds n s arbitrary: keep rs m rule: evict.induct)
  case (1 now protect cap n s)
  then show ?case by (simp add: yields_ret)
next
  case (2 now protect cap r ts ds n s)
  show ?case
  proof (cases "n \<le> cap \<or> now - ts < protect")
    case True
    then show ?thesis using 2 by (auto simp: yields_ret)
  next
    case False
    let ?s = "drop_tree (payload r) s" and ?n = "n - int (size_at (payload r) s)"
    obtain rs' where rs: "evict now protect cap ds ?n ?s = (rs', m)" "rs = r # rs'"
      using "2.prems"(2) False by (auto split: prod.splits)
    have t: "\<forall>(r', ts) \<in> set ds. tree_ok ?s (payload r')" using "2.prems"(3) tree_ok_drop by fastforce
    have "yields e ?s (cap_loop now protect cap ds ?n (filter (\<lambda>x. i_id x \<noteq> i_id r) keep))
        (m, filter (\<lambda>x. i_id x \<notin> i_id ` set rs') (filter (\<lambda>x. i_id x \<noteq> i_id r) keep)) (drop_payloads rs' ?s)"
      using "2.IH"(2) [OF _ _ "2.prems"(1) rs(1) t] False by blast
    moreover have "filter (\<lambda>x. i_id x \<notin> i_id ` set rs') (filter (\<lambda>x. i_id x \<noteq> i_id r) keep)
        = filter (\<lambda>x. i_id x \<notin> i_id ` set rs) keep" using rs(2) by (auto intro: filter_cong)
    ultimately show ?thesis
      using False rs(2) yields_sizesingle [OF "2.prems"(1)] yields_rmtree [OF "2.prems"(1)] "2.prems"(3)
      by (auto intro!: yields_andthen)
  qed
qed

definition load :: "store \<Rightarrow> item list \<Rightarrow> int" where
  "load s rs = sum_list (map (\<lambda>r. int (size_at (payload r) s)) rs)"

lemma load_Nil [simp]: "load s [] = 0" "load s (r # rs) = int (size_at (payload r) s) + load s rs"
  by (simp_all add: load_def)

lemma load_drop: "plain_id r \<Longrightarrow> \<forall>x \<in> set xs. plain_id x \<and> i_id x \<noteq> i_id r \<Longrightarrow> load (drop_tree (payload r) s) xs = load s xs"
  using payload_apart by (induction xs) (auto simp: size_at_drop)

lemma load_without:
  assumes "distinct ks" "distinct rs" "set rs \<subseteq> set ks"
  shows "load s (filter (\<lambda>r. r \<notin> set rs) ks) = load s ks - load s rs"
proof -
  have sums: "load s xs = (\<Sum>r \<in> set xs. int (size_at (payload r) s))" if "distinct xs" for xs
    using that by (simp add: load_def sum_list_distinct_conv_sum_set)
  have "set (filter (\<lambda>r. r \<notin> set rs) ks) = set ks - set rs" by auto
  then show ?thesis using assms by (simp add: sums distinct_filter sum_diff)
qed

text \<open>What goes in the second pass is a front part of the items that may go, oldest first, up to where the rest fits.\<close>

abbreviation may_go :: "int \<Rightarrow> int \<Rightarrow> (item \<times> int) list \<Rightarrow> item list" where
  "may_go now protect ds \<equiv> map fst (filter (\<lambda>(r, ts). protect \<le> now - ts) ds)"

lemma evict_front:
  "evict now protect cap ds n s = (rs, m) \<Longrightarrow> distinct (map (i_id \<circ> fst) ds) \<Longrightarrow> \<forall>(r, ts) \<in> set ds. plain_id r \<Longrightarrow>
   \<exists>k \<le> length (may_go now protect ds). rs = take k (may_go now protect ds) \<and> (\<forall>j < k. cap < n - load s (take j (may_go now protect ds)))
     \<and> (n - load s (take k (may_go now protect ds)) \<le> cap \<or> k = length (may_go now protect ds))"
proof (induction now protect cap ds n s arbitrary: rs m rule: evict.induct)
  case (1 now protect cap n s)
  then show ?case by simp
next
  case (2 now protect cap r ts ds n s)
  consider "n \<le> cap" | "\<not> n \<le> cap" "now - ts < protect" | "\<not> n \<le> cap" "\<not> now - ts < protect" by blast
  then show ?case
  proof cases
    case 1
    then show ?thesis using "2.prems"(1) by (intro exI [of _ 0]) simp
  next
    case 2
    then show ?thesis using "2.IH"(1) [of rs m] "2.prems" by simp
  next
    case 3
    let ?s = "drop_tree (payload r) s" and ?n = "n - int (size_at (payload r) s)" and ?E = "may_go now protect ds"
    obtain rs' where rs: "evict now protect cap ds ?n ?s = (rs', m)" "rs = r # rs'"
      using "2.prems"(1) 3 by (auto split: prod.splits)
    have load: "load ?s (take j ?E) = load s (take j ?E)" for j
    proof (rule load_drop)
      show "plain_id r" using "2.prems"(3) by simp
      have "\<forall>x \<in> set ?E. plain_id x \<and> i_id x \<noteq> i_id r" using "2.prems"(2,3) by force
      then show "\<forall>x \<in> set (take j ?E). plain_id x \<and> i_id x \<noteq> i_id r" by (meson in_set_takeD)
    qed
    obtain k where k: "k \<le> length ?E" "rs' = take k ?E" "\<forall>j < k. cap < ?n - load ?s (take j ?E)" "?n - load ?s (take k ?E) \<le> cap \<or> k = length ?E"
      using "2.IH"(2) [OF 3 rs(1)] "2.prems"(2,3) by auto
    have E: "may_go now protect ((r, ts) # ds) = r # ?E" using 3(2) by simp
    have minus: "n - load s (r # xs) = ?n - load s xs" for xs by simp
    have "\<forall>j < Suc k. cap < n - load s (take j (r # ?E))"
    proof (intro allI impI)
      fix j
      assume "j < Suc k"
      then show "cap < n - load s (take j (r # ?E))" using k(3) 3(1) unfolding load by (cases j) (simp_all only: take_Suc_Cons take_0 minus load_Nil(1) not_le diff_0_right Suc_less_eq)
    qed
    then show ?thesis using k(1,2,4) rs(2) unfolding E load
      by (intro exI [of _ "Suc k"]) (simp only: take_Suc_Cons minus length_Cons Suc_le_mono simp_thms nat.inject)
  qed
qed

lemma insort_image: "insort_key f (g x) (map g xs) = map g (insort_key (\<lambda>x. f (g x)) x xs)"
  by (induction xs) auto

lemma sort_image: "sort_key f (map g xs) = map g (sort_key (\<lambda>x. f (g x)) xs)"
  by (induction xs) (simp_all add: insort_image)

definition evictable :: "renv \<Rightarrow> int \<Rightarrow> int \<Rightarrow> item list \<Rightarrow> item list" where
  "evictable e now protect items = sort_key (ts_of e) (filter (\<lambda>r. protect \<le> now - ts_of e r) items)"

lemma may_go_evictable: "may_go now protect (sort_key snd (map (\<lambda>r. (r, ts_of e r)) items)) = evictable e now protect items"
  by (simp add: evictable_def filter_sort sort_image comp_def filter_map)

section \<open>The steps of a purge\<close>

definition stored_config :: "store \<Rightarrow> config" where
  "stored_config s = (case map_of s CONF_FILE of
     Some (File bs) \<Rightarrow> (case decode_text bs of Inr t \<Rightarrow> fold config_line (file_lines t) default_config | Inl _ \<Rightarrow> default_config)
   | _ \<Rightarrow> default_config)"

definition config_readable :: "store \<Rightarrow> bool" where
  "config_readable s \<longleftrightarrow> (case map_of s CONF_FILE of Some (File bs) \<Rightarrow> (case decode_text bs of Inr t \<Rightarrow> True | Inl _ \<Rightarrow> False) | _ \<Rightarrow> True)"

lemma yields_loadconfig: "no_fault e \<Longrightarrow> config_readable s \<Longrightarrow> yields e s loadconfig (stored_config s) s"
  unfolding yields_def loadconfig_def stored_config_def
  by (auto simp: config_readable_def lines_read_def andthen_def look_def found_def read_text_def read_file_def rcall_def no_fault_def ret_def
      lift_res_def split: option.splits entry.splits sum.splits)

lemma yields_ensuretiers:
  assumes "no_fault e" "bin_ready s"
  shows "yields e s ensuretiers True s"
proof -
  have "found s (take k RUBBISHDIR)" for k
    using assms(2) by (cases k) (auto simp: bin_ready_def found_def RUBBISHDIR_def)
  then have "yields e s (makedirs RUBBISHDIR True) () s"
    using assms(2) by (intro yields_makedirs_there [OF assms(1)]) (auto simp: bin_ready_def)
  moreover have "found s INDEXFILE" using assms(2) by (auto simp: bin_ready_def found_def)
  ultimately show ?thesis
    unfolding ensuretiers_def using yields_look [of e s "\<lambda>s. found s INDEXFILE"]
    by (intro yields_except) (auto intro!: yields_andthen yields_ret)
qed

lemma yields_sum_sizes:
  "no_fault e \<Longrightarrow> \<forall>r \<in> set rs. only_content s r \<Longrightarrow> yields e s (sum_sizes rs) (nat (load s rs)) s"
proof (induction rs)
  case Nil
  then show ?case by (simp add: load_def yields_ret)
next
  case (Cons r rs)
  have "nat (load s (r # rs)) = size_at (payload r @ [cps ''content'']) s + nat (load s rs)"
  proof -
    have "0 \<le> load s rs" unfolding load_def by (rule sum_list_nonneg) auto
    then show ?thesis using size_content [of s r] Cons.prems(2) by (simp add: load_def nat_add_distrib del: cps_Cons)
  qed
  then show ?case
    using Cons yields_sizesingle [OF Cons.prems(1)] by (auto intro!: yields_andthen yields_ret simp del: cps_Cons)
qed

lemma load_nonneg: "0 \<le> load s rs"
  unfolding load_def by (rule sum_list_nonneg) auto

lemma bin_ok_index:
  "bin_ready s \<Longrightarrow> \<forall>r \<in> set items. clean_item r \<and> plain_id r \<and> only_content s r \<and> tree_ok s (payload r) \<Longrightarrow> distinct (map i_id items) \<Longrightarrow>
   bin_ok (put_entry INDEXFILE (File (concat (map utf8_cp (index_text items)))) s) items"
  unfolding bin_ok_def using bin_ready_put [of s] only_content_put tree_ok_put by (auto simp: holds_index_def simp del: cps_Cons)

text \<open>A purged bin: the index lists what is kept, the payloads of the others are gone, and everything else is as it was.\<close>

definition after_purge :: "store \<Rightarrow> item list \<Rightarrow> item list \<Rightarrow> rpath \<Rightarrow> entry option" where
  "after_purge s items kept q =
     (if q = INDEXFILE then Some (File (concat (map utf8_cp (index_text kept))))
      else if \<exists>r \<in> set items - set kept. starts_with (payload r) q then None else map_of s q)"

definition purged :: "store \<Rightarrow> item list \<Rightarrow> store \<Rightarrow> item list \<Rightarrow> bool" where
  "purged s items s' kept \<longleftrightarrow> bin_ok s' kept \<and> set kept \<subseteq> set items \<and> map_of s' = after_purge s items kept
     \<and> (\<forall>r \<in> set kept. size_at (payload r) s' = size_at (payload r) s)"

lemma purged_refl: "bin_ok s items \<Longrightarrow> purged s items s items"
  by (auto simp: purged_def after_purge_def bin_ok_def holds_index_def)

lemma map_of_drop_payloads: "map_of (drop_payloads rs s) q = (if \<exists>r \<in> set rs. starts_with (payload r) q then None else map_of s q)"
  by (induction rs arbitrary: s) (auto simp: map_of_drop)

lemma purged_drop:
  assumes "bin_ok s items" "set rs \<subseteq> set items" "kept = filter (\<lambda>x. i_id x \<notin> i_id ` set rs) items"
  shows "purged s items (put_entry INDEXFILE (File (concat (map utf8_cp (index_text kept)))) (drop_payloads rs s)) kept"
proof -
  have plain: "\<forall>r \<in> set rs. plain_id r" using assms(1,2) by (auto simp: bin_ok_def simp del: cps_Cons)
  have "bin_ready (drop_payloads rs s)" using drop_payloads_facts(1) [OF plain] assms(1) by (simp add: bin_ok_def)
  moreover have "\<forall>r \<in> set kept. clean_item r \<and> plain_id r \<and> only_content (drop_payloads rs s) r
      \<and> tree_ok (drop_payloads rs s) (payload r)"
    using assms(1,3) drop_payloads_facts(2,3) [OF plain] by (simp add: bin_ok_def del: cps_Cons)
  moreover have "distinct (map i_id kept)" using assms(1,3) by (simp add: bin_ok_def distinct_map_filter)
  ultimately have ok: "bin_ok (put_entry INDEXFILE (File (concat (map utf8_cp (index_text kept)))) (drop_payloads rs s)) kept"
    by (rule bin_ok_index)
  have gone: "set items - set kept = set rs"
  proof -
    have "r \<in> set rs" if r: "r \<in> set items" "i_id r \<in> i_id ` set rs" for r
      using assms(1,2) r by (auto simp: bin_ok_def distinct_map inj_on_def)
    then show ?thesis using assms(2,3) by auto
  qed
  have "size_at (payload r) (put_entry INDEXFILE (File bs) (drop_payloads rs s)) = size_at (payload r) s" if "r \<in> set kept" for r bs
  proof -
    have "plain_id r" "\<forall>x \<in> set rs. plain_id x \<and> i_id x \<noteq> i_id r" using that plain assms(1,3) by (auto simp: bin_ok_def image_iff)
    then show ?thesis using drop_payloads_other(2) [of rs r s] payload_index [of r] by (simp add: size_at_put)
  qed
  then show ?thesis
    unfolding purged_def using ok assms(3) gone by (auto simp: after_purge_def map_of_put map_of_drop_payloads fun_eq_iff)
qed

lemma purged_trans:
  assumes "purged s items s1 keep" "purged s1 keep s2 kept"
  shows "purged s items s2 kept"
proof -
  have "after_purge s1 keep kept q = after_purge s items kept q" for q
    using assms unfolding purged_def by (auto simp: after_purge_def)
  then show ?thesis using assms by (auto simp: purged_def)
qed

lemma load_put: "\<forall>r \<in> set rs. plain_id r \<Longrightarrow> load (put_entry INDEXFILE x s) rs = load s rs"
  by (induction rs) (auto simp: load_def size_at_put payload_index simp del: cps_Cons)

lemma dropped_shorter: "rs \<noteq> [] \<Longrightarrow> set rs \<subseteq> set keep \<Longrightarrow> length (filter (\<lambda>x. i_id x \<notin> i_id ` set rs) keep) < length keep"
  by (rule length_filter_less [of "hd rs"]) (auto dest: hd_in_set)

lemma purge_size_yields:
  assumes "no_fault e" "bin_ok s keep" "\<forall>r \<in> set keep. dated_item e r"
  shows "\<exists>s' k. let E = evictable e now protect keep; rest = (\<lambda>j. filter (\<lambda>r. r \<notin> set (take j E)) keep) in
    yields e s (purge_size now protect cap keep) () s' \<and> purged s keep s' (rest k) \<and> k \<le> length E
    \<and> (\<forall>j < k. cap < load s (rest j)) \<and> (load s (rest k) \<le> cap \<or> k = length E)"
proof -
  have bin: "bin_ready s" "holds_index s keep" "distinct (map i_id keep)" "\<forall>r \<in> set keep. clean_item r"
    "\<forall>r \<in> set keep. plain_id r" "\<forall>r \<in> set keep. only_content s r" "\<forall>r \<in> set keep. tree_ok s (payload r)"
    using assms(2) by (auto simp: bin_ok_def simp del: cps_Cons)
  have size: "yields e s rubbishsize (nat (load s keep)) s"
    unfolding rubbishsize_def
    by (rule yields_andthen [where x = keep]) (rule yields_readindex [OF assms(1) bin(2,4)], rule yields_sum_sizes [OF assms(1) bin(6)])
  show ?thesis
  proof (cases "load s keep \<le> cap")
    case True
    then have "yields e s (purge_size now protect cap keep) () s"
      using size load_nonneg [of s keep] unfolding purge_size_def yields_def by (fastforce simp: andthen_def ret_def)
    then show ?thesis using purged_refl [OF assms(2)] True by (intro exI [of _ s] exI [of _ 0]) simp
  next
    case False
    let ?ds = "sort_key snd (map (\<lambda>r. (r, ts_of e r)) keep)"
    obtain rs m where ev: "evict now protect cap ?ds (load s keep) s = (rs, m)" by fastforce
    let ?E = "evictable e now protect keep"
    have E: "may_go now protect ?ds = ?E" by (rule may_go_evictable)
    have ds: "distinct (map (i_id \<circ> fst) ?ds)" using bin(3) by (auto simp: distinct_map inj_on_def)
    obtain k where k: "k \<le> length ?E" "rs = take k ?E" "\<forall>j < k. cap < load s keep - load s (take j ?E)"
        "load s keep - load s (take k ?E) \<le> cap \<or> k = length ?E"
      using evict_front [OF ev ds] bin(5) unfolding E by auto
    have d: "distinct keep" "distinct ?E" "set ?E \<subseteq> set keep" using bin(3) by (auto simp: distinct_map evictable_def)
    have rest: "load s (filter (\<lambda>r. r \<notin> set (take j ?E)) keep) = load s keep - load s (take j ?E)" for j
      using d by (intro load_without) (auto dest: in_set_takeD)
    have rs: "set rs \<subseteq> set keep" using k(2) d(3) by (auto dest: in_set_takeD)
    have ids: "filter (\<lambda>x. i_id x \<notin> i_id ` set rs) keep = filter (\<lambda>r. r \<notin> set rs) keep"
      using bin(3) rs by (intro filter_cong refl) (auto simp: distinct_map inj_on_def)
    let ?kept = "filter (\<lambda>x. i_id x \<notin> i_id ` set rs) keep"
    have loop: "yields e s (cap_loop now protect cap ?ds (load s keep) keep) (m, ?kept) (drop_payloads rs s)"
      by (rule cap_loop_yields [OF assms(1) ev]) (use bin(7) in auto)
    have plain: "\<forall>r \<in> set rs. plain_id r" using bin(5) rs by blast
    let ?s' = "if rs = [] then s else put_entry INDEXFILE (File (concat (map utf8_cp (index_text ?kept)))) (drop_payloads rs s)"
    have fin: "yields e (drop_payloads rs s) (if length ?kept < length keep then writeindex ?kept else ret ()) () ?s'"
    proof (cases "rs = []")
      case True
      then show ?thesis by (simp add: yields_ret)
    next
      case False
      then show ?thesis
        using dropped_shorter [OF False rs] yields_writeindex [OF assms(1) drop_payloads_facts(1) [OF plain bin(1)], of ?kept] bin(4)
        by simp
    qed
    have "yields e s (purge_size now protect cap keep) () ?s'"
    proof -
      have dated: "yields e s (lift_res (dated e keep)) (map (\<lambda>r. (r, ts_of e r)) keep) s"
        by (rule yields_lift [OF dated_all [OF assms(3)]])
      have tail: "yields e s (andthen (cap_loop now protect cap ?ds (load s keep) keep)
          (\<lambda>(n, keep'). if length keep' < length keep then writeindex keep' else ret ())) () ?s'"
        by (rule yields_andthen [where x = "(m, ?kept)", OF loop]) (use fin in simp)
      have "yields e s (andthen (lift_res (dated e keep)) (\<lambda>ds. andthen (cap_loop now protect cap (sort_key snd ds) (load s keep) keep)
            (\<lambda>(n, keep'). if length keep' < length keep then writeindex keep' else ret ()))) () ?s'"
        by (rule yields_andthen [where x = "map (\<lambda>r. (r, ts_of e r)) keep", OF dated]) (rule tail)
      then have "yields e s (andthen rubbishsize (\<lambda>n. if int n \<le> cap then ret ()
          else andthen (lift_res (dated e keep)) (\<lambda>ds. andthen (cap_loop now protect cap (sort_key snd ds) (int n) keep)
            (\<lambda>(n, keep'). if length keep' < length keep then writeindex keep' else ret ())))) () ?s'"
        using False load_nonneg [of s keep] by (intro yields_andthen [where x = "nat (load s keep)", OF size]) simp
      then show ?thesis unfolding yields_def purge_size_def .
    qed
    moreover have "purged s keep ?s' ?kept"
      using purged_refl [OF assms(2)] purged_drop [OF assms(2) rs refl] by simp
    ultimately have "yields e s (purge_size now protect cap keep) () ?s'"
      "purged s keep ?s' (filter (\<lambda>r. r \<notin> set (take k ?E)) keep)" unfolding ids unfolding k(2) by blast+
    then show ?thesis unfolding Let_def rest using k(1,3,4) by blast
  qed
qed

text \<open>The first pass: the items that are too old go, the others stay.\<close>

lemma kept_young:
  assumes "distinct (map i_id items)"
  shows "filter (\<lambda>r. \<not> P r) items = filter (\<lambda>x. i_id x \<notin> i_id ` set (filter P items)) items"
  using assms by (intro filter_cong refl) (auto simp: distinct_map inj_on_def)

lemma yields_drop_payloads:
  "no_fault e \<Longrightarrow> \<forall>r \<in> set rs. tree_ok s (payload r) \<Longrightarrow> yields e s (foreach rs (\<lambda>r. rmtree (payload r))) () (drop_payloads rs s)"
proof (induction rs arbitrary: s)
  case (Cons r rs)
  have "yields e (drop_tree (payload r) s) (foreach rs (\<lambda>r. rmtree (payload r))) () (drop_payloads (r # rs) s)"
    using Cons tree_ok_drop by simp
  moreover have "yields e s (rmtree (payload r)) () (drop_tree (payload r) s)" using Cons.prems by (intro yields_rmtree) simp_all
  ultimately show ?case by (auto intro: yields_andthen)
qed (simp add: yields_ret)

lemma purge_age_yields:
  fixes P :: "item \<Rightarrow> bool"
  assumes "no_fault e" "bin_ok s items"
  defines "keep \<equiv> filter (\<lambda>r. \<not> P r) items" and "gone \<equiv> filter P items"
  shows "\<exists>s'. yields e s (andthen (foreach gone (\<lambda>r. rmtree (payload r))) (\<lambda>_. if gone \<noteq> [] then writeindex keep else ret ())) () s'
    \<and> purged s items s' keep"
proof (cases "gone = []")
  case True
  then have "keep = items" unfolding keep_def gone_def by (simp add: filter_empty_conv filter_id_conv)
  then show ?thesis
    using True purged_refl [OF assms(2)] yields_ret [of e s "()"] by (auto intro!: exI [of _ s] yields_andthen)
next
  case False
  let ?s' = "put_entry INDEXFILE (File (concat (map utf8_cp (index_text keep)))) (drop_payloads gone s)"
  have bin: "bin_ready s" "\<forall>r \<in> set keep. clean_item r" "\<forall>r \<in> set gone. plain_id r" "distinct (map i_id items)"
    using assms(2) unfolding keep_def gone_def by (auto simp: bin_ok_def simp del: cps_Cons)
  have "yields e s (foreach gone (\<lambda>r. rmtree (payload r))) () (drop_payloads gone s)"
    using assms(2) by (intro yields_drop_payloads [OF assms(1)]) (auto simp: gone_def bin_ok_def)
  moreover have "yields e (drop_payloads gone s) (if gone \<noteq> [] then writeindex keep else ret ()) () ?s'"
    using False yields_writeindex [OF assms(1) drop_payloads_facts(1) [OF bin(3,1)] bin(2)] by simp
  ultimately have "yields e s (andthen (foreach gone (\<lambda>r. rmtree (payload r))) (\<lambda>_. if gone \<noteq> [] then writeindex keep else ret ())) () ?s'"
    by (rule yields_andthen)
  moreover have "purged s items ?s' keep"
    using purged_drop [OF assms(2), of gone keep] kept_young [OF bin(4), of P]
    unfolding keep_def gone_def by simp
  ultimately show ?thesis by blast
qed

definition purge_limits :: "renv \<Rightarrow> store \<Rightarrow> int \<Rightarrow> int \<Rightarrow> int \<Rightarrow> bool" where
  "purge_limits e s maxsize maxage protect \<longleftrightarrow> config_readable s
   \<and> config_int e (stored_config s) ''maxsizemb'' ''512'' = Inr maxsize
   \<and> config_int e (stored_config s) ''maxagedays'' ''30'' = Inr maxage
   \<and> config_int e (stored_config s) ''protectsecs'' ''3600'' = Inr protect"

lemma yields_purgerubbish:
  assumes "no_fault e" "at_time e t" "bin_ok s items" "\<forall>r \<in> set items. dated_item e r"
    and "purge_limits e s maxsize maxage protect"
  defines "old \<equiv> is_old e (truncate_rat t) maxage protect"
  defines "keep \<equiv> filter (\<lambda>r. \<not> old r) items" and "gone \<equiv> filter old items"
  assumes "yields e s (andthen (foreach gone (\<lambda>r. rmtree (payload r))) (\<lambda>_. if gone \<noteq> [] then writeindex keep else ret ())) () s1"
    and "yields e s1 (purge_size (truncate_rat t) protect (maxsize * 1024 * 1024) keep) () s2"
  shows "yields e s purgerubbish () s2"
proof -
  have bin: "bin_ready s" "holds_index s items" "\<forall>r \<in> set items. clean_item r"
    using assms(3) by (auto simp: bin_ok_def)
  have split: "split_old e (truncate_rat t) maxage protect items = Inr (keep, gone)"
    unfolding keep_def gone_def old_def by (rule split_old_filter [OF assms(4)])
  have end_part: "yields e s (andthen (foreach gone (\<lambda>r. rmtree (payload r))) (\<lambda>_.
      andthen (if gone \<noteq> [] then writeindex keep else ret ()) (\<lambda>_.
        purge_size (truncate_rat t) protect (maxsize * 1024 * 1024) keep))) () s2"
    using yields_andthen [where f = "\<lambda>_. purge_size (truncate_rat t) protect (maxsize * 1024 * 1024) keep", OF assms(9,10)]
    by (simp add: andthen_assoc)
  note limits = assms(5) [unfolded purge_limits_def]
  show ?thesis
    unfolding yields_def
  proof (intro allI impI)
    fix b :: rbin
    assume b: "b_fs b = s"
    obtain b1 where b1: "ensuretiers e b = (Inr True, b1)" "b_fs b1 = s"
      using yieldsD [OF yields_ensuretiers [OF assms(1) bin(1)] b] by blast
    obtain b2 where b2: "loadconfig e b1 = (Inr (stored_config s), b2)" "b_fs b2 = s"
      using yieldsD [OF yields_loadconfig [OF assms(1)] b1(2)] limits by blast
    obtain b3 where b3: "readindex e b2 = (Inr items, b3)" "b_fs b3 = s"
      using yieldsD [OF yields_readindex [OF assms(1) bin(2,3)] b2(2)] by blast
    obtain b4 where b4: "now_of e b3 = (Inr t, b4)" "b_fs b4 = s"
      using yieldsD [OF yields_now [OF assms(2)] b3(2)] by blast
    obtain b5 where "andthen (foreach gone (\<lambda>r. rmtree (payload r))) (\<lambda>_.
        andthen (if gone \<noteq> [] then writeindex keep else ret ()) (\<lambda>_.
          purge_size (truncate_rat t) protect (maxsize * 1024 * 1024) keep)) e b4 = (Inr (), b5)" "b_fs b5 = s2"
      using yieldsD [OF end_part b4(2)] by blast
    then show "\<exists>b'. purgerubbish e b = (Inr (), b') \<and> b_fs b' = s2"
      by (simp add: purgerubbish_def except_do_def limits split andthen_ok [where m = ensuretiers, OF b1(1)]
          andthen_ok [where m = loadconfig, OF b2(1)] andthen_ok [where m = readindex, OF b3(1)]
          andthen_ok [where m = now_of, OF b4(1)])
  qed
qed

text \<open>C31. A purge in which no call fails removes exactly the items that are at least \<open>maxagedays\<close> and \<open>protectsecs\<close> old
  and then, oldest first, as few of the others that are at least \<open>protectsecs\<close> old as bring the rest within \<open>maxsizemb\<close>
  megabytes, or all of them when that is not enough.  Afterwards the index lists exactly the items that are left, the payloads
  of the others are gone, and every other path is as it was.
\<close>

theorem purge_bounds:
  assumes "no_fault e" "at_time e t" "bin_ok s items" "\<forall>r \<in> set items. dated_item e r"
    and "purge_limits e s maxsize maxage protect"
  shows "\<exists>s' k. let now = truncate_rat t; young = filter (\<lambda>r. \<not> is_old e now maxage protect r) items;
      E = evictable e now protect young; rest = (\<lambda>j. filter (\<lambda>r. r \<notin> set (take j E)) young) in
    yields e s purgerubbish () s' \<and> map_of s' = after_purge s items (rest k) \<and> bin_ok s' (rest k) \<and> k \<le> length E
    \<and> (\<forall>j < k. maxsize * 1024 * 1024 < load s (rest j)) \<and> (load s (rest k) \<le> maxsize * 1024 * 1024 \<or> k = length E)"
proof -
  let ?old = "is_old e (truncate_rat t) maxage protect"
  let ?keep = "filter (\<lambda>r. \<not> ?old r) items" and ?E = "evictable e (truncate_rat t) protect (filter (\<lambda>r. \<not> ?old r) items)"
  let ?rest = "\<lambda>j. filter (\<lambda>r. r \<notin> set (take j ?E)) ?keep"
  obtain s1 where s1: "yields e s (andthen (foreach (filter ?old items) (\<lambda>r. rmtree (payload r)))
      (\<lambda>_. if filter ?old items \<noteq> [] then writeindex ?keep else ret ())) () s1" "purged s items s1 ?keep"
    using purge_age_yields [OF assms(1,3), of ?old] by blast
  obtain s2 k where s2: "yields e s1 (purge_size (truncate_rat t) protect (maxsize * 1024 * 1024) ?keep) () s2"
    "purged s1 ?keep s2 (?rest k)" "k \<le> length ?E" "\<forall>j < k. maxsize * 1024 * 1024 < load s1 (?rest j)"
    "load s1 (?rest k) \<le> maxsize * 1024 * 1024 \<or> k = length ?E"
    using purge_size_yields [OF assms(1), of s1 ?keep "truncate_rat t" protect "maxsize * 1024 * 1024"] s1(2) assms(4)
    unfolding purged_def Let_def by auto
  have same: "load s1 (?rest j) = load s (?rest j)" for j
    using s1(2) unfolding purged_def load_def by (intro arg_cong [where f = sum_list] map_cong) auto
  have "purged s items s2 (?rest k)" by (rule purged_trans [OF s1(2) s2(2)])
  then show ?thesis
    using yields_purgerubbish [OF assms s1(1) s2(1)] s2(3-) unfolding Let_def same purged_def by blast
qed

text \<open>A bin with one item deleted long ago and one deleted a second ago.\<close>

definition demo_identity :: json where
  "demo_identity = JObj (fmap_of_list [(cps ''format'', JInt 1), (cps ''username'', JStr (cps ''atri''))])"

definition demo_renv :: renv where
  "demo_renv = \<lparr>r_fault = (\<lambda>_. None), r_time = (\<lambda>_. 1000000000), r_token = (\<lambda>_ n. replicate n 0),
     r_codec = \<lparr>c_loads = (\<lambda>_. Some demo_identity), c_dumps = (\<lambda>_. []), c_text_float = (\<lambda>_. None),
       c_text_int = (\<lambda>t. if t \<noteq> [] \<and> list_all is_digit t then Some (int (dec_val t)) else None), c_sha256 = (\<lambda>_. [])\<rparr>,
     r_cwd = [], r_device = (\<lambda>_. 0), r_lines = (\<lambda>_. 0)\<rparr>"

definition demo_item :: "cp \<Rightarrow> pystr \<Rightarrow> item" where
  "demo_item c ts = \<lparr>i_id = [c], i_name = [c], i_orig = [47, c], i_isdir = [48], i_size = [49], i_ts = ts, i_user = [117]\<rparr>"

definition demo_bin :: "item list \<Rightarrow> store" where
  "demo_bin items = [([], Tier), (RUBBISHDIR, Tier), (INDEXFILE, File (concat (map utf8_cp (index_text items))))]
     @ concat (map (\<lambda>r. [(RUBBISHDIR @ [i_id r], Tier), (RUBBISHDIR @ [i_id r, cps ''content''], File [7])]) items)"

lemma demo_renv_runs: "no_fault demo_renv" "at_time demo_renv 1000000000" "truncate_rat 1000000000 = 1000000000"
  by (simp_all add: no_fault_def at_time_def demo_renv_def truncate_rat_def)

lemma demo_item_facts:
  assumes "97 \<le> c" "c \<le> 122" "ts \<noteq> []" "\<forall>d \<in> set ts. is_digit d"
  shows "clean_item (demo_item c ts)" "plain_id (demo_item c ts)" "dated_item demo_renv (demo_item c ts)"
    "ts_of demo_renv (demo_item c ts) = int (dec_val ts)" "i_id (demo_item c ts) = [c]"
  using assms
  by (auto simp: clean_item_def item_parts_def clean_field_def demo_item_def cp_ok_def is_surrogate_def is_linebreak_def
      is_digit_def plain_id_def dated_item_def ts_of_def text_int_def demo_renv_def list_all_iff)

lemma demo_bin_ok:
  assumes "\<forall>r \<in> set items. clean_item r \<and> plain_id r \<and> length (i_id r) = 1" "distinct (map i_id items)"
  shows "bin_ok (demo_bin items) items"
proof -
  have "only_content (demo_bin items) r" if "r \<in> set items" for r
    using that assms payload_index [of r]
    by (auto simp: only_content_def demo_bin_def payload_plain starts_with_iff distinct_map inj_on_def simp del: cps_Cons)
  moreover have "tmp_path t \<notin> fst ` set (demo_bin items)" for t
  proof -
    have "i_id r \<noteq> cps ''index.txt.tmp.'' @ t" if "r \<in> set items" for r
    proof -
      have "length (i_id r) = 1" using that assms(1) by blast
      then show ?thesis by (auto dest!: arg_cong [where f = length])
    qed
    moreover have "cps ''index.txt.tmp.'' @ t \<noteq> cps ''index.txt''" by simp
    ultimately show ?thesis
      unfolding demo_bin_def tmp_path_def INDEXFILE_def RUBBISHDIR_def by (fastforce simp del: cps_Cons)
  qed
  then have "bin_ready (demo_bin items)"
    by (simp add: bin_ready_def demo_bin_def index_path RUBBISHDIR_def INDEXFILE_def)
  moreover have "tree_ok (demo_bin items) (payload r)" if "r \<in> set items" for r
  proof -
    have p: "payload r = RUBBISHDIR @ [i_id r]" "payload r \<noteq> INDEXFILE"
      using that assms(1) payload_plain payload_index [of r] by (auto simp del: cps_Cons)
    have "(payload r, Tier) \<in> set (demo_bin items)" using that p(1) by (auto simp: demo_bin_def)
    moreover have "x = Tier" if "(payload r, x) \<in> set (demo_bin items)" for x
      using that p by (auto simp: demo_bin_def simp del: cps_Cons)
    ultimately show ?thesis unfolding tree_ok_def by (metis map_of_SomeD map_of_eq_None_iff not_None_eq image_eqI fst_conv)
  qed
  moreover have "holds_index (demo_bin items) items" using index_path by (simp add: holds_index_def demo_bin_def)
  ultimately show ?thesis using assms by (simp add: bin_ok_def)
qed

lemma demo_limits: "purge_limits demo_renv (demo_bin items) 512 30 3600"
proof -
  have "CONF_FILE \<notin> fst ` set (demo_bin items)"
    by (auto simp: CONF_FILE_def demo_bin_def INDEXFILE_def RUBBISHDIR_def)
  then have "stored_config (demo_bin items) = default_config"
    "config_readable (demo_bin items)"
    by (simp_all add: stored_config_def config_readable_def map_of_eq_None_iff [THEN iffD2])
  then show ?thesis
    by (simp add: purge_limits_def config_int_def default_config_def text_int_def demo_renv_def is_digit_def dec_val_def)
qed

theorem purge_bounds_witness:
  "\<exists>s'. yields demo_renv (demo_bin [demo_item 97 (cps ''0''), demo_item 98 (cps ''999999999'')]) purgerubbish () s'
    \<and> bin_ok s' [demo_item 98 (cps ''999999999'')]
    \<and> map_of s' (RUBBISHDIR @ [[98], cps ''content'']) = Some (File [7]) \<and> map_of s' (RUBBISHDIR @ [[97], cps ''content'']) = None"
proof -
  let ?a = "demo_item 97 (cps ''0'')" and ?b = "demo_item 98 (cps ''999999999'')"
  have a: "clean_item ?a" "plain_id ?a" "dated_item demo_renv ?a" "ts_of demo_renv ?a = 0" "i_id ?a = [97]"
    using demo_item_facts [of 97 "cps ''0''"] by (simp_all add: is_digit_def dec_val_def)
  have b: "clean_item ?b" "plain_id ?b" "dated_item demo_renv ?b" "ts_of demo_renv ?b = 999999999" "i_id ?b = [98]"
    using demo_item_facts [of 98 "cps ''999999999''"] by (simp_all add: is_digit_def dec_val_def)
  have ok: "bin_ok (demo_bin [?a, ?b]) [?a, ?b]" by (rule demo_bin_ok) (simp_all add: a b del: cps_Cons)
  have dated: "\<forall>r \<in> set [?a, ?b]. dated_item demo_renv r" using a b by (simp del: cps_Cons)
  have young: "filter (\<lambda>r. \<not> is_old demo_renv 1000000000 30 3600 r) [?a, ?b] = [?b]"
    using a(4) b(4) by (simp add: is_old_def del: cps_Cons)
  have none: "evictable demo_renv 1000000000 3600 [?b] = []" using b(4) by (simp add: evictable_def del: cps_Cons)
  obtain s' where s': "yields demo_renv (demo_bin [?a, ?b]) purgerubbish () s'"
    "map_of s' = after_purge (demo_bin [?a, ?b]) [?a, ?b] [?b]" "bin_ok s' [?b]"
    using purge_bounds [OF demo_renv_runs(1,2) ok dated demo_limits] unfolding demo_renv_runs(3) Let_def young none by auto
  have "set [?a, ?b] - set [?b] = {?a}" using a(5) b(5) by (auto simp del: cps_Cons)
  moreover have "payload ?a = RUBBISHDIR @ [[97]]" using payload_plain [OF a(2)] a(5) by simp
  moreover have "RUBBISHDIR @ [[98], cps ''content''] \<noteq> INDEXFILE" "RUBBISHDIR @ [[97], cps ''content''] \<noteq> INDEXFILE"
    by (simp_all add: INDEXFILE_def)
  moreover have "map_of (demo_bin [?a, ?b]) (RUBBISHDIR @ [[98], cps ''content'']) = Some (File [7])"
    using a(5) b(5) by (simp add: demo_bin_def INDEXFILE_def RUBBISHDIR_def del: cps_Cons)
  ultimately have "map_of s' (RUBBISHDIR @ [[98], cps ''content'']) = Some (File [7])" "map_of s' (RUBBISHDIR @ [[97], cps ''content'']) = None"
    unfolding s'(2) after_purge_def by (simp_all add: starts_with_iff del: cps_Cons)
  then show ?thesis using s'(1,3) by blast
qed

end
