(* ===== verification/Rubbish_Restore.thy ===== *)
theory Rubbish_Restore
  imports Rubbish_Purge
begin

text \<open>
  Putting an item into the rubbish and taking it out again: moved trees, the row that is appended
  to the index, and the round trip.
\<close>

section \<open>Moved trees\<close>

lemma map_of_shift:
  assumes "\<forall>q \<in> fst ` set s. \<not> starts_with new q" "\<forall>q. \<not> (starts_with new q \<and> starts_with old q)"
  shows "map_of (shift_tree old new s) q =
    (if starts_with new q then map_of s (old @ drop (length new) q) else if starts_with old q then None else map_of s q)"
  using assms(1)
proof (induction s)
  case (Cons y s)
  obtain k x where y: "y = (k, x)" by (cases y)
  then have k: "\<not> starts_with new k" using Cons.prems by simp
  have "map_of (shift_tree old new (y # s)) q = (if q = (if starts_with old k then new @ drop (length old) k else k) then Some x
      else map_of (shift_tree old new s) q)" by (simp add: y shift_tree_def)
  then show ?case
    using Cons k assms(2) y by (auto simp: starts_with_iff)
qed (simp add: shift_tree_def)

lemma shift_back:
  assumes "\<forall>q \<in> fst ` set s. \<not> starts_with new q"
  shows "shift_tree new old (shift_tree old new s) = s"
  using assms by (induction s) (auto simp: shift_tree_def starts_with_iff)

section \<open>The steps of putting away\<close>

definition signed_in :: "renv \<Rightarrow> store \<Rightarrow> pystr \<Rightarrow> bool" where
  "signed_in e s user \<longleftrightarrow> (\<exists>bs t v. map_of s SESSIONIDENTITYFILE = Some (File bs) \<and> length bs \<le> 1024
     \<and> utf8_decode_strict bs = Inr t \<and> c_loads (r_codec e) t = Some v \<and> identity_name v = Some user)"

lemma yields_getusername: "no_fault e \<Longrightarrow> signed_in e s user \<Longrightarrow> yields e s getusername user s"
  unfolding yields_def signed_in_def
  by (auto simp: getusername_def andthen_def except_do_def read_file_def rcall_def no_fault_def ret_def)

lemma session_char_clean: "session_char c \<Longrightarrow> clean_field [c]"
  by (auto simp: session_char_def is_digit_def clean_field_def cp_ok_def is_surrogate_def is_linebreak_def)

lemma identity_clean: "identity_name v = Some user \<Longrightarrow> clean_field user"
proof -
  assume "identity_name v = Some user"
  then have n: "session_name user" by (auto simp: identity_name_def split: json.splits if_splits option.splits)
  have "clean_field [c]" if "c \<in> set user" for c
  proof (cases "session_char c")
    case True
    then show ?thesis by (rule session_char_clean)
  next
    case False
    then have "c = 46 \<or> c = 95 \<or> c = 45"
      using n that by (cases user) (auto simp: session_name_def list_all_iff)
    then show ?thesis by (auto simp: clean_field_def cp_ok_def is_surrogate_def is_linebreak_def)
  qed
  then show ?thesis by (auto simp: clean_field_def)
qed

lemma clean_index_row: "clean_item r \<Longrightarrow> utf8_strict (item_row r @ [10]) = Inr (concat (map utf8_cp (item_row r @ [10])))"
  using row_clean [of r] by (auto simp: utf8_strict_def list_ex_iff is_surrogate_def)

lemma yields_read_text:
  assumes "no_fault e" "map_of s p = Some (File bs)" "decode_text bs = Inr t"
  shows "yields e s (read_text p) t s"
proof -
  have "yields e s (read_file p) bs s"
    unfolding read_file_def using assms(1,2) by (intro yields_rcall) simp_all
  then show ?thesis unfolding read_text_def using assms(3) by (blast intro: yields_andthen yields_lift)
qed

lemma row_decoded: "clean_item r \<Longrightarrow> decode_text (concat (map utf8_cp (item_row r @ [10]))) = Inr (item_row r @ [10])"
proof (rule decode_text_encoded [OF clean_index_row])
  assume r: "clean_item r"
  show "\<forall>c \<in> set (item_row r @ [10]). cp_ok c" using row_clean [OF r] by (auto simp: cp_ok_def)
  show "13 \<notin> set (item_row r @ [10])" using row_clean [OF r, of 13] by (auto simp: is_linebreak_def)
qed

lemma filter_swap: "filter P (filter Q xs) = filter Q (filter P xs)"
  by (simp add: conj_commute)

lemma drop_temp:
  assumes "p \<noteq> q" "filter (\<lambda>(k, _). k \<noteq> q) s = s"
  shows "filter (\<lambda>(k, _). k \<noteq> q) (put_entry p x (put_entry q y s)) = put_entry p x s"
proof -
  have "filter (\<lambda>(k, _). k \<noteq> q) (filter (\<lambda>(k, _). k \<noteq> p) s) = filter (\<lambda>(k, _). k \<noteq> p) s"
    by (subst filter_swap) (simp only: assms(2))
  then show ?thesis using assms by (simp add: put_entry_def del: filter_filter)
qed

lemma yields_append_row:
  assumes "no_fault e" "bin_ready s" "map_of s INDEXFILE = Some (File old)" "clean_item r"
  defines "bs \<equiv> concat (map utf8_cp (item_row r @ [10]))"
  shows "yields e s (appendindex (item_row r @ [10])) () (put_entry INDEXFILE (File (old @ bs)) s)"
proof -
  have steps: "yields e s (andthen (put_text (tmp_path t) (item_row r @ [10])) (\<lambda>_.
      andthen (open_for False INDEXFILE) (\<lambda>_. andthen (read_text (tmp_path t)) (\<lambda>text.
      andthen (lift_res (utf8_strict text)) (\<lambda>bs. andthen (add_bytes INDEXFILE bs) (\<lambda>_. remove_file (tmp_path t))))))) ()
      (put_entry INDEXFILE (File (old @ bs)) s)" for t
  proof (rule yields_andthen)
    note tmp = bin_ready_tmp [OF assms(2), of t] tmp_path_facts [of t]
    let ?s = "put_entry (tmp_path t) (File bs) s"
    show "yields e s (put_text (tmp_path t) (item_row r @ [10])) () ?s"
      unfolding bs_def using tmp assms(2)
      by (intro yields_put_text [OF assms(1) _ _ clean_index_row [OF assms(4)]]) (simp_all add: parent_found_def bin_ready_def)
    have o: "yields e ?s (open_for False INDEXFILE) () ?s"
      unfolding open_for_def using assms(3) tmp(3) by (intro yields_rchange [OF assms(1)]) simp
    have r: "yields e ?s (read_text (tmp_path t)) (item_row r @ [10]) ?s"
      using row_decoded [OF assms(4)] by (intro yields_read_text [OF assms(1)]) (simp_all add: bs_def)
    have a: "yields e ?s (add_bytes INDEXFILE bs) () (put_entry INDEXFILE (File (old @ bs)) ?s)"
      unfolding add_bytes_def using assms(3) tmp(3) by (intro yields_rchange [OF assms(1)]) simp
    have d: "yields e (put_entry INDEXFILE (File (old @ bs)) ?s) (remove_file (tmp_path t)) () (put_entry INDEXFILE (File (old @ bs)) s)"
      unfolding remove_file_def using tmp
      by (intro yields_rchange [OF assms(1)]) (simp add: drop_temp)
    show "yields e ?s (andthen (open_for False INDEXFILE) (\<lambda>_. andthen (read_text (tmp_path t)) (\<lambda>text.
      andthen (lift_res (utf8_strict text)) (\<lambda>bs. andthen (add_bytes INDEXFILE bs) (\<lambda>_. remove_file (tmp_path t)))))) ()
      (put_entry INDEXFILE (File (old @ bs)) s)"
      apply (rule yields_andthen [OF o])
      apply (rule yields_andthen [OF r])
      apply (rule yields_andthen [OF yields_lift [OF clean_index_row [OF assms(4)]]])
      apply (fold bs_def)
      apply (rule yields_andthen [OF a])
      apply (rule d)
      done
  qed
  then show ?thesis
    unfolding appendindex_def maketemp_def andthen_assoc andthen_value tmp_path_def by (intro yields_except yields_token)
qed

text \<open>The identifiers a run can draw.\<close>

definition new_ids :: "renv \<Rightarrow> rat \<Rightarrow> pystr set" where
  "new_ids e t = range (\<lambda>n. dec_int (truncate_rat (t * 1000)) @ [45] @ hex_of (r_token e n 4))"

definition id_char :: "cp \<Rightarrow> bool" where
  "id_char c \<longleftrightarrow> c = 45 \<or> is_digit c \<or> (97 \<le> c \<and> c \<le> 102)"

lemma dec_int_chars: "c \<in> set (dec_int i) \<Longrightarrow> id_char c"
  using dec_nat_digits by (auto simp: dec_int_def id_char_def split: if_splits)

lemma hex_char_char: "d < 16 \<Longrightarrow> id_char (hex_char d)"
  by (auto simp: hex_char_def id_char_def is_digit_def)

lemma hex_of_chars: "bytes_ok bs \<Longrightarrow> c \<in> set (hex_of bs) \<Longrightarrow> id_char c"
  by (induction bs) (auto simp: hex_of_def bytes_ok_def intro!: hex_char_char)

lemma new_id_chars:
  assumes "\<forall>n k. bytes_ok (r_token e n k)" "rid \<in> new_ids e t"
  shows "c \<in> set rid \<Longrightarrow> id_char c" "45 \<in> set rid"
proof -
  obtain n where n: "rid = dec_int (truncate_rat (t * 1000)) @ [45] @ hex_of (r_token e n 4)"
    using assms(2) by (auto simp: new_ids_def)
  then show "45 \<in> set rid" by simp
  assume "c \<in> set rid"
  then consider "c \<in> set (dec_int (truncate_rat (t * 1000)))" | "c = 45" | "c \<in> set (hex_of (r_token e n 4))"
    using n by auto
  then show "id_char c"
  proof cases
    case 1
    then show ?thesis by (rule dec_int_chars)
  next
    case 2
    then show ?thesis by (simp add: id_char_def)
  next
    case 3
    have "bytes_ok (r_token e n 4)" using assms(1) by blast
    then show ?thesis using 3 by (rule hex_of_chars)
  qed
qed

lemma id_char_clean: "\<forall>c \<in> set x. id_char c \<Longrightarrow> clean_field x"
  by (auto simp: clean_field_def id_char_def is_digit_def cp_ok_def is_surrogate_def is_linebreak_def)

lemma new_id_facts:
  assumes "\<forall>n k. bytes_ok (r_token e n k)" "rid \<in> new_ids e t"
  shows "clean_field rid" "payload_tier rid = RUBBISHDIR @ [rid]" "RUBBISHDIR @ [rid] \<noteq> INDEXFILE" "RUBBISHDIR @ [rid] \<noteq> tmp_path u"
proof -
  have c: "\<forall>c \<in> set rid. id_char c" "45 \<in> set rid" using new_id_chars [OF assms] by auto
  show "clean_field rid" by (rule id_char_clean [OF c(1)])
  have no: "120 \<notin> set rid" "47 \<notin> set rid" using c(1) by (auto simp: id_char_def is_digit_def)
  then show index: "RUBBISHDIR @ [rid] \<noteq> INDEXFILE" "RUBBISHDIR @ [rid] \<noteq> tmp_path u"
    by (auto simp: INDEXFILE_def tmp_path_def)
  have "rid \<notin> {[], [46], [46, 46]}" using c(2) by auto
  moreover then have "hd rid \<noteq> 47" using no(2) by (cases rid) auto
  ultimately show "payload_tier rid = RUBBISHDIR @ [rid]"
    using no(2) by (simp add: payload_tier_def abspath_def split_on_no_sep)
qed

definition id_free :: "store \<Rightarrow> pystr \<Rightarrow> bool" where
  "id_free s rid \<longleftrightarrow> (\<forall>q \<in> fst ` set s. \<not> starts_with (RUBBISHDIR @ [rid]) q)"

lemma id_free_none: "id_free s rid \<Longrightarrow> map_of s (RUBBISHDIR @ rid # q) = None"
  by (force simp: id_free_def starts_with_iff map_of_eq_None_iff)

lemma yields_new_tier:
  assumes "no_fault e" "bin_ready s" "id_free s rid"
  shows "yields e s (makedirs (RUBBISHDIR @ [rid]) False) () (put_entry (RUBBISHDIR @ [rid]) Tier s)"
proof (rule yields_makedirs_new [OF assms(1)])
  have "take k (RUBBISHDIR @ [rid]) \<in> {[], RUBBISHDIR}" if "k < length (RUBBISHDIR @ [rid])" for k
    using that by (cases k) (simp_all add: RUBBISHDIR_def)
  then show "\<forall>k < length (RUBBISHDIR @ [rid]). found s (take k (RUBBISHDIR @ [rid]))"
    using assms(2) by (fastforce simp: bin_ready_def found_def)
  show "map_of s (RUBBISHDIR @ [rid]) = None" using id_free_none [OF assms(3), of "[]"] by simp
  show "parent_found s (RUBBISHDIR @ [rid])" using assms(2) by (simp add: parent_found_def bin_ready_def)
qed

lemma new_payload_run:
  assumes "no_fault e" "at_time e t" "\<forall>n k. bytes_ok (r_token e n k)" "bin_ready s" "\<forall>rid \<in> new_ids e t. id_free s rid" "b_fs b = s"
  shows "\<exists>rid b'. new_payload e b = (Inr rid, b') \<and> rid \<in> new_ids e t \<and> b_fs b' = put_entry (RUBBISHDIR @ [rid]) Tier s"
proof -
  obtain b1 where b1: "now_of e b = (Inr t, b1)" "b_fs b1 = s" using yieldsD [OF yields_now [OF assms(2)] assms(6)] by blast
  have "\<exists>rid b2. makeid e b = (Inr rid, b2) \<and> rid \<in> new_ids e t \<and> b_fs b2 = s"
    using b1(2) unfolding makeid_def andthen_ok [where m = now_of, OF b1(1)]
    by (auto simp: andthen_def token_hex_def ret_def new_ids_def)
  then obtain rid b2 where id: "makeid e b = (Inr rid, b2)" "rid \<in> new_ids e t" "b_fs b2 = s" by blast
  obtain b3 where b3: "makedirs (payload_tier rid) False e b2 = (Inr (), b3)" "b_fs b3 = put_entry (RUBBISHDIR @ [rid]) Tier s"
    using yieldsD [OF yields_new_tier [OF assms(1,4)] id(3)] assms(5) id(2) new_id_facts(2) [OF assms(3) id(2)] by metis
  have "new_payload e b = (Inr rid, b3)"
    by (simp add: new_payload_def andthen_ok [where m = makeid, OF id(1)] except_do_def
        andthen_ok [where m = "makedirs (payload_tier rid) False" and e = e, OF b3(1)] ret_run)
  then show ?thesis using id(2) b3(2) by blast
qed

section \<open>Putting away\<close>

definition content :: "pystr \<Rightarrow> rpath" where
  "content rid = RUBBISHDIR @ [rid, cps ''content'']"

lemma content_tier: "content rid = (RUBBISHDIR @ [rid]) @ [cps ''content'']"
  by (simp add: content_def)

lemma outside: "target \<noteq> [] \<Longrightarrow> \<not> starts_with RUBBISHDIR target \<Longrightarrow> starts_with target q \<Longrightarrow> \<not> starts_with RUBBISHDIR q"
  by (cases target) (auto simp: starts_with_iff RUBBISHDIR_def)

lemma content_below: "starts_with (content rid) q \<Longrightarrow> starts_with RUBBISHDIR q"
  by (auto simp: content_def starts_with_iff)

text \<open>What a path must be for the move to go through.\<close>

definition storable :: "store \<Rightarrow> rpath \<Rightarrow> bool" where
  "storable s target \<longleftrightarrow> target \<noteq> [] \<and> \<not> starts_with RUBBISHDIR target \<and> map_of s target \<noteq> None
     \<and> clean_field (path_text target) \<and> (\<forall>k < length target. map_of s (take k target) = Some Tier)"

definition tucked :: "rpath \<Rightarrow> pystr \<Rightarrow> store \<Rightarrow> store" where
  "tucked target rid s = shift_tree target (content rid) (put_entry (RUBBISHDIR @ [rid]) Tier s)"

lemma tucked_keys:
  assumes "id_free s rid"
  shows "\<forall>q \<in> fst ` set (put_entry (RUBBISHDIR @ [rid]) Tier s). \<not> starts_with (content rid) q"
  using assms by (auto simp: put_entry_def id_free_def content_def starts_with_iff)

lemma map_of_tucked:
  assumes "id_free s rid" "storable s target"
  shows "map_of (tucked target rid s) q =
    (if starts_with (content rid) q then map_of (put_entry (RUBBISHDIR @ [rid]) Tier s) (target @ drop (length (content rid)) q)
     else if starts_with target q then None else if q = RUBBISHDIR @ [rid] then Some Tier else map_of s q)"
proof -
  have "\<forall>q. \<not> (starts_with (content rid) q \<and> starts_with target q)"
    using assms(2) outside content_below by (metis storable_def)
  from map_of_shift [OF tucked_keys [OF assms(1)] this] show ?thesis by (simp add: tucked_def)
qed

lemma tucked_bin:
  assumes "id_free s rid" "storable s target" "bin_ready s" "\<forall>n k. bytes_ok (r_token e n k)" "rid \<in> new_ids e t"
  shows "bin_ready (tucked target rid s)" "map_of (tucked target rid s) INDEXFILE = map_of s INDEXFILE"
proof -
  have t: "target \<noteq> []" "\<And>q. starts_with RUBBISHDIR q \<Longrightarrow> \<not> starts_with target q"
    using assms(2) outside unfolding storable_def by blast+
  have c: "\<not> starts_with (content rid) []" "\<not> starts_with (content rid) RUBBISHDIR" "\<not> starts_with (content rid) INDEXFILE"
    "\<And>u. \<not> starts_with (content rid) (tmp_path u)"
    by (auto simp: content_def starts_with_iff RUBBISHDIR_def INDEXFILE_def tmp_path_def)
  have below: "starts_with RUBBISHDIR INDEXFILE" "\<And>u. starts_with RUBBISHDIR (tmp_path u)"
    by (auto simp: starts_with_iff INDEXFILE_def tmp_path_def)
  have no: "\<not> starts_with target []" using t(1) by (simp add: starts_with_iff)
  note m = map_of_tucked [OF assms(1,2)] and rid = new_id_facts(3,4) [OF assms(4,5)]
  show index: "map_of (tucked target rid s) INDEXFILE = map_of s INDEXFILE"
    using c(3) t(2) [OF below(1)] rid(1) by (simp add: m)
  have "tmp_path u \<notin> fst ` set (tucked target rid s)" for u
    using c(4) t(2) [OF below(2)] rid(2) bin_ready_tmp(1) [OF assms(3), of u]
    by (metis m map_of_eq_None_iff)
  moreover have "map_of (tucked target rid s) [] = Some Tier" "map_of (tucked target rid s) RUBBISHDIR = Some Tier"
    using c(1,2) no t(2) [of RUBBISHDIR] assms(3) by (simp_all add: m bin_ready_def)
  ultimately show "bin_ready (tucked target rid s)"
    using index assms(3) unfolding bin_ready_def by simp
qed

definition new_item :: "rat \<Rightarrow> pystr \<Rightarrow> rpath \<Rightarrow> pystr \<Rightarrow> store \<Rightarrow> item" where
  "new_item t user target rid s = \<lparr>i_id = rid, i_name = last target, i_orig = path_text target,
     i_isdir = (if map_of s (content rid) = Some Tier then [49] else [48]), i_size = dec_nat (size_at (content rid) s),
     i_ts = dec_int (truncate_rat t), i_user = user\<rparr>"

lemma new_item_clean:
  assumes "clean_field rid" "clean_field user" "storable s0 target"
  shows "clean_item (new_item t user target rid s)"
proof -
  have "set (last target) \<subseteq> set (path_text target)" using assms(3) by (force simp: storable_def path_text_def)
  then have "clean_field (last target)" using assms(3) by (auto simp: storable_def clean_field_def)
  moreover have "clean_field (dec_nat n)" for n
    using dec_nat_digits [of n] by (intro id_char_clean) (auto simp: id_char_def)
  moreover have "clean_field (dec_int i)" for i using dec_int_chars [of _ i] by (intro id_char_clean) auto
  moreover have "clean_field [49]" "clean_field [48]"
    by (simp_all add: clean_field_def cp_ok_def is_surrogate_def is_linebreak_def)
  ultimately show ?thesis using assms by (simp add: clean_item_def item_parts_def new_item_def storable_def)
qed

text \<open>An environment in which nothing fails and everything is on one device, and a bin that lists its items, with a user signed in and
  no draw of an identifier that is taken.\<close>

definition usable :: "renv \<Rightarrow> rat \<Rightarrow> store \<Rightarrow> item list \<Rightarrow> pystr \<Rightarrow> bool" where
  "usable e t s items user \<longleftrightarrow> no_fault e \<and> at_time e t \<and> (\<forall>n k. bytes_ok (r_token e n k)) \<and> list_all plain_part (r_cwd e)
     \<and> (\<forall>p q. r_device e p = r_device e q) \<and> bin_ready s \<and> holds_index s items \<and> (\<forall>r \<in> set items. clean_item r) \<and> signed_in e s user
     \<and> (\<forall>rid \<in> new_ids e t. id_free s rid \<and> rid \<notin> i_id ` set items)"

lemma usableD:
  assumes "usable e t s items user"
  shows "no_fault e" "at_time e t" "\<forall>n k. bytes_ok (r_token e n k)" "list_all plain_part (r_cwd e)" "bin_ready s" "holds_index s items"
    "\<forall>r \<in> set items. clean_item r" "signed_in e s user" "\<forall>rid \<in> new_ids e t. id_free s rid" "\<forall>rid \<in> new_ids e t. rid \<notin> i_id ` set items"
    "clean_field user" "r_device e p = r_device e q"
  using assms identity_clean by (auto simp: usable_def signed_in_def)

definition stored :: "rat \<Rightarrow> pystr \<Rightarrow> item list \<Rightarrow> rpath \<Rightarrow> pystr \<Rightarrow> store \<Rightarrow> store" where
  "stored t user items target rid s =
     put_entry INDEXFILE (File (concat (map utf8_cp (index_text (items @ [new_item t user target rid (tucked target rid s)])))))
       (tucked target rid s)"

lemma yields_tuck:
  assumes "usable e t s items user" "storable s target" "rid \<in> new_ids e t"
  shows "yields e (put_entry (RUBBISHDIR @ [rid]) Tier s) (move_path target (content rid)) () (tucked target rid s)"
proof -
  note u = usableD [OF assms(1)]
  let ?s = "put_entry (RUBBISHDIR @ [rid]) Tier s"
  have t: "target \<noteq> []" "\<not> starts_with RUBBISHDIR target" "map_of s target \<noteq> None" using assms(2) by (auto simp: storable_def)
  have "target \<noteq> RUBBISHDIR @ [rid]" using t(2) by (auto simp: starts_with_iff)
  then have "map_of ?s target \<noteq> None" using t(3) by simp
  moreover have "map_of ?s (content rid) = None"
    using id_free_none [of s rid "[cps ''content'']"] u(9) assms(3) by (simp add: content_def del: cps_Cons)
  moreover have "\<not> starts_with target (content rid)" using outside [OF t(1,2)] content_below [of rid "content rid"] by auto
  moreover have "parent_found ?s (content rid)" unfolding parent_found_def content_tier butlast_snoc by simp
  ultimately show ?thesis
    unfolding tucked_def by (intro yields_move [OF u(1)] u(12))
qed

lemma yields_describe:
  assumes "usable e t s0 items user" "target \<noteq> []" "rid \<in> new_ids e t"
  shows "yields e s (describe target rid user) (new_item t user target rid s) s"
proof -
  note u = usableD [OF assms(1)]
  have c: "payload_tier rid @ [cps ''content''] = content rid"
    using new_id_facts(2) [OF u(3) assms(3)] by (simp add: content_def del: cps_Cons)
  show ?thesis
    unfolding describe_def Let_def c new_item_def
    by (rule yields_andthen [OF yields_look], rule yields_andthen [OF yields_sizesingle [OF u(1)]],
        rule yields_andthen [OF yields_now [OF u(2)]]) (simp add: assms(2) yields_ret)
qed

lemma yields_put_away:
  assumes "usable e t s items user" "storable s target" "rid \<in> new_ids e t"
  shows "yields e (put_entry (RUBBISHDIR @ [rid]) Tier s)
    (andthen (move_path target (payload_tier rid @ [cps ''content''])) (\<lambda>_. andthen (describe target rid user) (\<lambda>r. appendindex (item_row r @ [10]))))
    () (stored t user items target rid s)"
proof -
  note u = usableD [OF assms(1)]
  let ?s = "tucked target rid s"
  let ?r = "new_item t user target rid ?s"
  have free: "id_free s rid" using u(9) assms(3) by blast
  have bin: "bin_ready ?s" "map_of ?s INDEXFILE = Some (File (concat (map utf8_cp (index_text items))))"
    using tucked_bin [OF free assms(2) u(5,3) assms(3)] u(6) by (simp_all add: holds_index_def)
  have r: "clean_item ?r" by (rule new_item_clean [OF new_id_facts(1) [OF u(3) assms(3)] u(11) assms(2)])
  have c: "payload_tier rid @ [cps ''content''] = content rid"
    using new_id_facts(2) [OF u(3) assms(3)] by (simp add: content_def del: cps_Cons)
  have row: "concat (map utf8_cp (index_text items)) @ concat (map utf8_cp (item_row ?r @ [10]))
      = concat (map utf8_cp (index_text (items @ [?r])))" by (simp add: index_text_def)
  have "yields e ?s (appendindex (item_row ?r @ [10])) () (stored t user items target rid s)"
    using yields_append_row [OF u(1) bin r] unfolding row stored_def .
  then show ?thesis
    unfolding c using yields_describe [OF assms(1) _ assms(3)] assms(2)
    by (intro yields_andthen [OF yields_tuck [OF assms]]) (auto simp: storable_def intro: yields_andthen)
qed

lemma storeone_run:
  assumes "usable e t s items user" "target = abspath (r_cwd e) path" "storable s target" "b_fs b = s"
  shows "\<exists>rid b'. rid \<in> new_ids e t \<and> storeone path e b = (Inr (), b') \<and> b_fs b' = stored t user items target rid s"
proof -
  note u = usableD [OF assms(1)]
  obtain b1 where b1: "getusername e b = (Inr user, b1)" "b_fs b1 = s"
    using yieldsD [OF yields_getusername [OF u(1,8)] assms(4)] by blast
  obtain rid b2 where b2: "new_payload e b1 = (Inr rid, b2)" "rid \<in> new_ids e t" "b_fs b2 = put_entry (RUBBISHDIR @ [rid]) Tier s"
    using new_payload_run [OF u(1,2,3,5,9) b1(2)] by blast
  obtain b3 where b3: "andthen (move_path target (payload_tier rid @ [cps ''content''])) (\<lambda>_.
      andthen (describe target rid user) (\<lambda>r. appendindex (item_row r @ [10]))) e b2 = (Inr (), b3)" "b_fs b3 = stored t user items target rid s"
    using yieldsD [OF yields_put_away [OF assms(1,3) b2(2)] b2(3)] by blast
  have "\<not> starts_with RUBBISHDIR target" "found s target" using assms(3) by (auto simp: storable_def found_def)
  then have "storeone path e b = (Inr (), b3)"
    using b3(1) b1(2)
    by (simp add: storeone_def except_do_def andthen_ok [where m = getusername, OF b1(1)] assms(2) [symmetric]
        andthen_ok [where m = "look (\<lambda>s. found s target)" and w = b1 and e = e and ?w1.0 = b1 and x = True] look_def
        andthen_ok [where m = new_payload, OF b2(1)] del: cps_Cons)
  then show ?thesis using b2(2) b3(2) by blast
qed

section \<open>Taking out\<close>

lemma row_nonempty: "item_row r \<noteq> []"
  by (simp add: item_row_def item_parts_def)

lemma full_rows_index:
  "\<forall>r \<in> set items. clean_item r \<Longrightarrow> full_rows (index_header # map item_row items) = map item_parts items"
  by (induction items) (auto simp: full_rows_def row_nonempty row_parts item_parts_def)

lemma matching_rows_filter:
  "matching_rows cwd name (Some p) (map item_parts items) =
     Inr (filter (\<lambda>r. i_name r = name \<and> abspath cwd (i_orig r) = abspath cwd p) items)"
  by (induction items) (auto simp: item_parts_def)

lemma yields_index_lines:
  assumes "no_fault e" "holds_index s items" "\<forall>r \<in> set items. clean_item r"
  shows "yields e s index_lines (Some (index_header # map item_row items)) s"
  unfolding index_lines_def
  by (intro yields_except yields_andthen [where x = "index_text items", OF yields_index_text [OF assms]])
    (simp add: index_splitlines [OF assms(3)] yields_ret)

lemma join_rows: "join_with 10 (x # xs) @ [10] = x @ [10] @ concat (map (\<lambda>l. l @ [10]) xs)"
  by (induction xs arbitrary: x) auto

lemma row_starts:
  assumes "clean_item r" "9 \<notin> set rid"
  shows "starts_with (rid @ [9]) (item_row r) \<longleftrightarrow> i_id r = rid"
proof -
  have row: "item_row r = i_id r @ 9 # join_with 9 (tl (item_parts r))" by (simp add: item_row_def item_parts_def)
  have id: "9 \<notin> set (i_id r)" using assms(1) by (auto simp: clean_item_def item_parts_def clean_field_def)
  show ?thesis
  proof
    assume "starts_with (rid @ [9]) (item_row r)"
    then obtain x where "i_id r @ 9 # join_with 9 (tl (item_parts r)) = rid @ 9 # x" using row by (auto simp: starts_with_iff)
    then have "takeWhile (\<lambda>y. y \<noteq> 9) (i_id r @ 9 # join_with 9 (tl (item_parts r))) = takeWhile (\<lambda>y. y \<noteq> 9) (rid @ 9 # x)"
      by simp
    then show "i_id r = rid" by (simp only: takeWhile_neq_append [OF id] takeWhile_neq_append [OF assms(2)])
  next
    assume "i_id r = rid"
    then show "starts_with (rid @ [9]) (item_row r)" using row by (auto simp: starts_with_iff)
  qed
qed

lemma without_last:
  assumes "\<forall>r \<in> set items. clean_item r" "clean_item r" "i_id r \<notin> i_id ` set items"
  shows "without_row (i_id r) (index_header # map item_row (items @ [r])) = index_text items"
proof -
  have id: "9 \<notin> set (i_id r)" using assms(2) by (auto simp: clean_item_def item_parts_def clean_field_def)
  have "\<forall>x \<in> set items. i_id x \<noteq> i_id r" using assms(3) by (metis imageI)
  then have "filter (\<lambda>l. \<not> starts_with (i_id r @ [9]) l) (map item_row items) = map item_row items"
    using assms(1) by (auto simp: filter_id_conv row_starts [OF _ id])
  moreover have "starts_with (i_id r @ [9]) (item_row r)" using row_starts [OF assms(2) id] by simp
  ultimately have "without_row (i_id r) (index_header # map item_row (items @ [r])) = join_with 10 (index_header # map item_row items) @ [10]"
    by (simp add: without_row_def)
  then show ?thesis unfolding join_rows by (simp add: index_text_def comp_def)
qed

lemma yields_rewrite:
  assumes "no_fault e" "map_of s p = Some (File old)" "utf8_strict t = Inr bs"
  shows "yields e s (put_text p t) () (put_entry p (File bs) s)"
proof -
  have o: "yields e s (open_for True p) () (put_entry p (File []) s)"
    unfolding open_for_def using assms(2) by (intro yields_rchange [OF assms(1)]) simp
  have a: "yields e (put_entry p (File []) s) (add_bytes p bs) () (put_entry p (File bs) s)"
    unfolding add_bytes_def by (intro yields_rchange [OF assms(1)]) simp
  show ?thesis
    unfolding put_text_def by (rule yields_andthen [OF o], rule yields_andthen [OF yields_lift [OF assms(3)]]) (rule a)
qed

lemma map_of_stored:
  "map_of (stored t user items target rid s) q =
    (if q = INDEXFILE then Some (File (concat (map utf8_cp (index_text (items @ [new_item t user target rid (tucked target rid s)])))))
     else map_of (tucked target rid s) q)"
  by (simp add: stored_def)

text \<open>What the move leaves behind, and what the move back makes of it.\<close>

lemma stored_facts:
  assumes "usable e t s items user" "storable s target" "rid \<in> new_ids e t"
  defines "s3 \<equiv> stored t user items target rid s"
  shows "starts_with target q \<Longrightarrow> map_of s3 q = None"
    and "map_of s3 (content rid @ x) = map_of s (target @ x)"
    and "k < length target \<Longrightarrow> map_of s3 (take k target) = Some Tier"
    and "\<not> starts_with target q \<Longrightarrow> \<not> starts_with (content rid) q \<Longrightarrow> q \<noteq> INDEXFILE \<Longrightarrow> q \<noteq> RUBBISHDIR @ [rid] \<Longrightarrow> map_of s3 q = map_of s q"
    and "map_of s3 (RUBBISHDIR @ [rid]) = Some Tier"
proof -
  note u = usableD [OF assms(1)]
  have free: "id_free s rid" using u(9) assms(3) by blast
  note m = map_of_tucked [OF free assms(2)]
  have t: "target \<noteq> []" "\<And>q. starts_with target q \<Longrightarrow> \<not> starts_with RUBBISHDIR q"
    using assms(2) outside unfolding storable_def by blast+
  have below: "starts_with RUBBISHDIR INDEXFILE" "starts_with RUBBISHDIR (RUBBISHDIR @ [rid])" "\<And>x. starts_with RUBBISHDIR (content rid @ x)"
    by (auto simp: starts_with_iff INDEXFILE_def content_def)
  show gone: "map_of s3 q = None" if "starts_with target q" for q
    using t(2) [OF that] that below(1) content_below unfolding s3_def map_of_stored m by auto
  show "map_of s3 (content rid @ x) = map_of s (target @ x)" for x
  proof -
    have "target @ x \<noteq> RUBBISHDIR @ [rid]" using t(2) [of "target @ x"] below(2) by auto
    moreover have "content rid @ x \<noteq> INDEXFILE" by (simp add: content_def INDEXFILE_def)
    ultimately show ?thesis by (simp add: s3_def map_of_stored m)
  qed
  show other: "map_of s3 q = map_of s q"
    if "\<not> starts_with target q" "\<not> starts_with (content rid) q" "q \<noteq> INDEXFILE" "q \<noteq> RUBBISHDIR @ [rid]" for q
    using that by (simp add: s3_def map_of_stored m)
  show "map_of s3 (take k target) = Some Tier" if "k < length target" for k
  proof -
    have "\<not> starts_with target (take k target)" using that by (auto simp: starts_with_def)
    moreover have "starts_with (take k target) target" by (metis append_take_drop_id starts_with_append)
    then have "\<not> starts_with RUBBISHDIR (take k target)" using t(2) [of target] starts_with_trans by fastforce
    moreover then have "\<not> starts_with (content rid) (take k target)" "take k target \<noteq> INDEXFILE" "take k target \<noteq> RUBBISHDIR @ [rid]"
      using content_below below by auto
    ultimately show ?thesis using other [of "take k target"] that assms(2) by (simp add: storable_def)
  qed
  have "\<not> starts_with target (RUBBISHDIR @ [rid])" "\<not> starts_with (content rid) (RUBBISHDIR @ [rid])" "RUBBISHDIR @ [rid] \<noteq> INDEXFILE"
    using t(2) below(2) new_id_facts(3) [OF u(3) assms(3)] by (auto simp: content_def starts_with_iff)
  then show "map_of s3 (RUBBISHDIR @ [rid]) = Some Tier" by (simp add: s3_def map_of_stored m)
qed

definition taken_out :: "item list \<Rightarrow> rpath \<Rightarrow> pystr \<Rightarrow> store \<Rightarrow> store" where
  "taken_out items target rid s = put_entry INDEXFILE (File (concat (map utf8_cp (index_text items)))) (shift_tree (content rid) target s)"

lemma map_of_back:
  assumes "usable e t s items user" "storable s target" "rid \<in> new_ids e t"
  defines "s3 \<equiv> stored t user items target rid s"
  shows "map_of (shift_tree (content rid) target s3) q =
    (if starts_with target q then map_of s3 (content rid @ drop (length target) q)
     else if starts_with (content rid) q then None else map_of s3 q)"
proof (rule map_of_shift)
  show "\<forall>q. \<not> (starts_with target q \<and> starts_with (content rid) q)"
    using assms(2) outside content_below by (metis storable_def)
  show "\<forall>q \<in> fst ` set s3. \<not> starts_with target q"
    using stored_facts(1) [OF assms(1-3), folded s3_def] by (metis map_of_eq_None_iff)
qed

lemma map_of_taken_out:
  assumes "usable e t s items user" "storable s target" "rid \<in> new_ids e t"
  shows "map_of (taken_out items target rid (stored t user items target rid s)) = (map_of s)(RUBBISHDIR @ [rid] \<mapsto> Tier)"
proof
  fix q
  note u = usableD [OF assms(1)]
  note f = stored_facts [OF assms]
  let ?s3 = "stored t user items target rid s"
  note m = map_of_back [OF assms]
  have index: "map_of s INDEXFILE = Some (File (concat (map utf8_cp (index_text items))))" using u(6) by (simp add: holds_index_def)
  have ix: "RUBBISHDIR @ [rid] \<noteq> INDEXFILE" by (rule new_id_facts(3) [OF u(3) assms(3)])
  have p: "\<not> starts_with target (RUBBISHDIR @ [rid])" "\<not> starts_with (content rid) (RUBBISHDIR @ [rid])"
    using outside [of target "RUBBISHDIR @ [rid]"] assms(2) by (auto simp: storable_def content_def starts_with_iff)
  consider (index) "q = INDEXFILE" | (target) "starts_with target q" "q \<noteq> INDEXFILE"
    | (content) "starts_with (content rid) q" "\<not> starts_with target q" "q \<noteq> INDEXFILE" | (tier) "q = RUBBISHDIR @ [rid]"
    | (other) "\<not> starts_with target q" "\<not> starts_with (content rid) q" "q \<noteq> INDEXFILE" "q \<noteq> RUBBISHDIR @ [rid]" by blast
  then show "map_of (taken_out items target rid ?s3) q = ((map_of s)(RUBBISHDIR @ [rid] \<mapsto> Tier)) q"
  proof cases
    case index
    then show ?thesis using ix \<open>map_of s INDEXFILE = _\<close> by (simp add: taken_out_def)
  next
    case target
    then obtain x where "q = target @ x" by (auto simp: starts_with_iff)
    moreover have "q \<noteq> RUBBISHDIR @ [rid]" using target(1) p(1) by auto
    ultimately show ?thesis using target f(2) [of x] by (auto simp: taken_out_def m)
  next
    case content
    moreover from content(1) obtain x where "q = RUBBISHDIR @ rid # x" by (auto simp: starts_with_iff content_def)
    moreover have "map_of s (RUBBISHDIR @ rid # x) = None" for x using id_free_none u(9) assms(3) by blast
    ultimately show ?thesis using p(2) by (auto simp: taken_out_def m)
  next
    case tier
    then show ?thesis using p ix f(5) by (simp add: taken_out_def m)
  next
    case other
    then show ?thesis using f(4) [OF other] by (simp add: taken_out_def m)
  qed
qed

lemma yields_put_back:
  assumes "usable e t s items user" "storable s target" "rid \<in> new_ids e t" "list_all plain_part target"
    and "check (r_cwd e) (path_text target)"
  defines "s3 \<equiv> stored t user items target rid s" and "r \<equiv> new_item t user target rid (tucked target rid s)"
  shows "yields e s3 (put_back (index_header # map item_row (items @ [r])) rid (path_text target)) True (taken_out items target rid s3)"
proof -
  note u = usableD [OF assms(1)] and f = stored_facts [OF assms(1-3), folded s3_def]
  let ?lines = "index_header # map item_row (items @ [r])"
  have t: "target \<noteq> []" using assms(2) by (simp add: storable_def)
  have paths: "abspath (r_cwd e) (path_text target) = target" "dirname (path_text target) = path_text (butlast target)"
    "abspath (r_cwd e) (dirname (path_text target)) = butlast target"
    using abspath_path_text [OF assms(4)] dirname_path_text [OF assms(4) t] abspath_path_text [of "butlast target"] assms(4)
    by (simp_all add: list_all_iff in_set_butlastD)
  have dir: "dirname (path_text target) \<noteq> []" unfolding paths(2) by (auto simp: path_text_def)
  have tiers: "yields e s3 (makedirs (butlast target) True) () s3"
  proof -
    have tier: "map_of s3 (take k (butlast target)) = Some Tier" if "k \<le> length (butlast target)" for k
    proof -
      have "take k (butlast target) = take k target" "k < length target" using that t by (cases target rule: rev_cases; simp)+
      then show ?thesis using f(3) by simp
    qed
    from this [of "length (butlast target)"] show ?thesis using tier by (intro yields_makedirs_there [OF u(1)]) (auto simp: found_def)
  qed
  have c: "payload_tier rid @ [cps ''content''] = content rid"
    using new_id_facts(2) [OF u(3) assms(3)] by (simp add: content_def del: cps_Cons)
  have none: "map_of s3 target = None" by (rule f(1)) simp
  have "\<not> starts_with (content rid) target"
    using assms(2) content_below [of rid target] by (auto simp: storable_def)
  moreover have "parent_found s3 target" using t f(3) [of "length target - 1"] by (simp add: parent_found_def butlast_conv_take)
  moreover have "map_of s3 (content rid) \<noteq> None" using f(2) [of "[]"] assms(2) by (simp add: storable_def)
  ultimately have move: "yields e s3 (move_path (content rid) target) () (shift_tree (content rid) target s3)"
    using none by (intro yields_move [OF u(1)] u(12))
  have r: "clean_item r" "i_id r = rid"
    using new_item_clean [OF new_id_facts(1) [OF u(3) assms(3)] u(11) assms(2)] by (simp_all add: r_def new_item_def)
  have lines: "without_row rid ?lines = index_text items"
    using without_last [OF u(7) r(1)] u(10) assms(3) r(2) by auto
  have "\<exists>old. map_of (shift_tree (content rid) target s3) INDEXFILE = Some (File old)"
    using outside [of target INDEXFILE] assms(2) by (auto simp: s3_def map_of_back [OF assms(1-3)] map_of_stored storable_def)
      (auto simp: starts_with_iff INDEXFILE_def content_def)
  then have write_back: "yields e (shift_tree (content rid) target s3) (put_text INDEXFILE (without_row rid ?lines)) () (taken_out items target rid s3)"
    unfolding lines taken_out_def using yields_rewrite [OF u(1) _ index_encoded [OF u(7)]] by blast
  have go: "yields e s3 (andthen (makedirs (butlast target) True) (\<lambda>_. andthen (move_path (content rid) target) (\<lambda>_.
      andthen (put_text INDEXFILE (without_row rid ?lines)) (\<lambda>_. ret True)))) True (taken_out items target rid s3)"
    by (rule yields_andthen [OF tiers], rule yields_andthen [OF move], rule yields_andthen [OF write_back], rule yields_ret)
  show ?thesis
    unfolding yields_def
  proof (intro allI impI)
    fix b :: rbin
    assume b: "b_fs b = s3"
    then have l: "look (\<lambda>s. found s target) e b = (Inr False, b)" using none by (simp add: look_def found_def)
    from yieldsD [OF go b] show "\<exists>b'. put_back ?lines rid (path_text target) e b = (Inr True, b') \<and> b_fs b' = taken_out items target rid s3"
      using assms(5) dir
      by (auto simp: put_back_def Let_def paths(1,3) c except_do_def andthen_ok [where m = "look (\<lambda>s. found s target)" and e = e, OF l]
          simp del: cps_Cons)
  qed
qed

text \<open>C32. What a user puts into the rubbish on the same device can be taken out as it was.  Putting away a path that exists
  outside the bin moves everything at and below it into a fresh payload tier and lists it last
  in the index; restoring that name and path afterwards succeeds and gives back the file system from before,
  every entry at its path and the index included, except that the payload's tier is left behind, empty.
\<close>

theorem store_then_restore:
  assumes "usable e t s items user" "target = abspath (r_cwd e) path" "storable s target" "check (r_cwd e) (path_text target)"
    and "\<forall>r \<in> set items. \<not> (i_name r = last target \<and> abspath (r_cwd e) (i_orig r) = target)"
    and "b_fs b = s"
  shows "\<exists>rid b1 b2. storeone path e b = (Inr (), b1)
    \<and> (\<forall>x. map_of (b_fs b1) (target @ x) = None \<and> map_of (b_fs b1) (RUBBISHDIR @ [rid, cps ''content''] @ x) = map_of s (target @ x))
    \<and> (\<exists>r. holds_index (b_fs b1) (items @ [r]) \<and> i_id r = rid \<and> i_orig r = path_text target \<and> i_user r = user)
    \<and> restorefromrubbish (last target) (Some (path_text target)) e b1 = (Inr True, b2)
    \<and> map_of (b_fs b2) = (map_of s)(RUBBISHDIR @ [rid] \<mapsto> Tier)"
proof -
  note u = usableD [OF assms(1)]
  obtain rid b1 where rid: "rid \<in> new_ids e t" "storeone path e b = (Inr (), b1)" "b_fs b1 = stored t user items target rid s"
    using storeone_run [OF assms(1-3,6)] by blast
  let ?r = "new_item t user target rid (tucked target rid s)"
  note f = stored_facts [OF assms(1,3) rid(1), folded rid(3)]
  have plain: "list_all plain_part target" using abspath_parts [OF u(4)] assms(2) by simp
  have index: "holds_index (b_fs b1) (items @ [?r])" by (simp add: rid(3) stored_def holds_index_def)
  have clean: "\<forall>r \<in> set (items @ [?r]). clean_item r"
    using new_item_clean [OF new_id_facts(1) [OF u(3) rid(1)] u(11) assms(3)] u(7) by auto
  let ?lines = "index_header # map item_row (items @ [?r])"
  obtain b' where b': "index_lines e b1 = (Inr (Some ?lines), b')" "b_fs b' = b_fs b1"
    using yieldsD [OF yields_index_lines [OF u(1) index clean] refl] by blast
  have t: "abspath (r_cwd e) (path_text target) = target" by (rule abspath_path_text [OF plain])
  have "filter (\<lambda>r. i_name r = last target \<and> abspath (r_cwd e) (i_orig r) = target) items = []"
    using assms(5) by (simp add: filter_empty_conv)
  moreover have "i_name ?r = last target" "i_orig ?r = path_text target" "i_id ?r = rid" "i_user ?r = user" by (simp_all add: new_item_def)
  ultimately have match: "matching_rows (r_cwd e) (last target) (Some (path_text target)) (full_rows ?lines) = Inr [?r]"
    unfolding full_rows_index [OF clean] matching_rows_filter by (simp add: t)
  obtain b2 where b2: "put_back ?lines rid (path_text target) e b' = (Inr True, b2)" "b_fs b2 = taken_out items target rid (b_fs b')"
    using yieldsD [OF yields_put_back [OF assms(1,3) rid(1) plain assms(4)], of b'] b'(2) rid(3) by auto
  have "restorefromrubbish (last target) (Some (path_text target)) e b1 = (Inr True, b2)"
    using b2(1) \<open>i_orig ?r = _\<close> \<open>i_id ?r = _\<close>
    by (simp add: restorefromrubbish_def andthen_ok [where m = index_lines, OF b'(1)] match del: map_append list.map)
  moreover have "map_of (b_fs b2) = (map_of s)(RUBBISHDIR @ [rid] \<mapsto> Tier)"
    unfolding b2(2) b'(2) rid(3) by (rule map_of_taken_out [OF assms(1,3) rid(1)])
  moreover have "map_of (b_fs b1) (target @ x) = None \<and> map_of (b_fs b1) (RUBBISHDIR @ [rid, cps ''content''] @ x) = map_of s (target @ x)" for x
    using f(1) [of "target @ x"] f(2) [of x] by (simp add: content_def del: cps_Cons)
  ultimately show ?thesis
    using rid(2) index \<open>i_orig ?r = _\<close> \<open>i_id ?r = _\<close> \<open>i_user ?r = _\<close> by blast
qed

text \<open>A bin without items, a user and a file \<open>/f\<close>.\<close>

definition demo_home :: store where
  "demo_home = demo_bin [] @ [(SESSIONIDENTITYFILE, File [123]), ([[102]], File [7])]"

lemma demo_signed_in: "signed_in demo_renv demo_home (cps ''atri'')"
proof -
  have "map_of demo_home SESSIONIDENTITYFILE = Some (File [123])"
    by (simp add: demo_home_def demo_bin_def SESSIONIDENTITYFILE_def RUBBISHDIR_def INDEXFILE_def)
  moreover have "utf8_decode_strict [123] = Inr [123]"
    using utf8_decode_encode [of "[123]" "[123]"] by (simp add: utf8_decode_strict_def utf8_strict_def cp_ok_def is_surrogate_def)
  moreover have "c_loads (r_codec demo_renv) [123] = Some demo_identity" by (simp add: demo_renv_def)
  moreover have "identity_name demo_identity = Some (cps ''atri'')"
    by (auto simp: identity_name_def demo_identity_def fmlookup_of_list session_name_def session_char_def is_digit_def)
  ultimately show ?thesis unfolding signed_in_def by fastforce
qed

lemma demo_usable: "usable demo_renv 1000000000 demo_home [] (cps ''atri'')"
proof -
  have tokens: "\<forall>n k. bytes_ok (r_token demo_renv n k)" by (simp add: demo_renv_def bytes_ok_def)
  have free: "id_free demo_home rid" if "rid \<in> new_ids demo_renv 1000000000" for rid
    using new_id_facts(3) [OF tokens that]
    by (auto simp: id_free_def demo_home_def demo_bin_def starts_with_iff SESSIONIDENTITYFILE_def RUBBISHDIR_def INDEXFILE_def)
  have "bin_ready demo_home"
    using demo_bin_ok [of "[]"]
    by (auto simp: bin_ready_def bin_ok_def demo_home_def map_add_def tmp_path_def RUBBISHDIR_def SESSIONIDENTITYFILE_def)
  moreover have "holds_index demo_home []" using index_path by (simp add: holds_index_def demo_home_def demo_bin_def)
  moreover have "list_all plain_part (r_cwd demo_renv)" by (simp add: demo_renv_def)
  moreover have "\<forall>p q. r_device demo_renv p = r_device demo_renv q" by (simp add: demo_renv_def)
  ultimately show ?thesis using demo_renv_runs(1,2) tokens free demo_signed_in by (simp add: usable_def)
qed

theorem store_then_restore_witness:
  "\<exists>b1 b2. storeone (cps ''f'') demo_renv \<lparr>b_fs = demo_home, b_calls = 0\<rparr> = (Inr (), b1) \<and> map_of (b_fs b1) [[102]] = None
    \<and> restorefromrubbish (cps ''f'') (Some (cps ''/f'')) demo_renv b1 = (Inr True, b2) \<and> map_of (b_fs b2) [[102]] = Some (File [7])"
proof -
  have path: "[[102]] = abspath (r_cwd demo_renv) (cps ''f'')" by (simp add: demo_renv_def abspath_def)
  have there: "map_of demo_home [[102]] = Some (File [7])"
    by (simp add: demo_home_def demo_bin_def RUBBISHDIR_def INDEXFILE_def SESSIONIDENTITYFILE_def)
  have st: "storable demo_home [[102]]"
    using there demo_usable
    by (auto simp: storable_def starts_with_def RUBBISHDIR_def path_text_def clean_field_def cp_ok_def is_surrogate_def is_linebreak_def
        usable_def bin_ready_def)
  have ok: "check (r_cwd demo_renv) (path_text [[102]])"
    by (simp add: check_def demo_renv_def path_text_def abspath_def ARCH_PROTECTED_NONRECURSIVE_def ARCH_PROTECTED_RECURSIVE_def starts_with_def)
  have none: "\<forall>r \<in> set []. \<not> (i_name r = last [[102]] \<and> abspath (r_cwd demo_renv) (i_orig r) = [[102]])" by simp
  obtain rid b1 b2 where run: "storeone (cps ''f'') demo_renv \<lparr>b_fs = demo_home, b_calls = 0\<rparr> = (Inr (), b1)"
    "\<forall>x. map_of (b_fs b1) ([[102]] @ x) = None"
    "restorefromrubbish (last [[102]]) (Some (path_text [[102]])) demo_renv b1 = (Inr True, b2)"
    "map_of (b_fs b2) = (map_of demo_home)(RUBBISHDIR @ [rid] \<mapsto> Tier)"
    using store_then_restore [OF demo_usable path st ok none, of "\<lparr>b_fs = demo_home, b_calls = 0\<rparr>"] by auto
  have "map_of (b_fs b1) [[102]] = None" using run(2) [rule_format, of "[]"] by simp
  moreover have "map_of (b_fs b2) [[102]] = Some (File [7])" using run(4) there by (simp add: RUBBISHDIR_def)
  ultimately show ?thesis using run(1,3) by (auto simp: path_text_def)
qed

end
