(* ===== verification/Search.thy ===== *)
theory Search
  imports T1_Paths T1_Scan Utf8_Decoder "HOL-Library.List_Lexorder"
begin

text \<open>
  Searching names and text (\<open>search/search.py\<close>).  The file system is a tree without links in which a
  tier may refuse to be listed and a file to be opened.  \<open>str.lower\<close> and \<open>str.casefold\<close> are parameters.
  The generators of the module are lists of what they produce, in order, and their consumers take
  from the front, so that what a consumer never asks for is not counted.  Printed text is kept as
  values.
\<close>

section \<open>The file system\<close>

datatype fnode = FFile bool bytes | FTier bool "(pystr \<times> fnode) list"

record senv =
  s_root :: fnode
  s_cwd :: rpath
  s_lower :: "pystr \<Rightarrow> pystr"
  s_fold :: "pystr \<Rightarrow> pystr"
  SHOWHIDDEN :: bool

fun node_below :: "fnode \<Rightarrow> rpath \<Rightarrow> fnode option" where
  "node_below x [] = Some x"
| "node_below (FFile _ _) (c # p) = None"
| "node_below (FTier _ es) (c # p) = (case map_of es c of None \<Rightarrow> None | Some x \<Rightarrow> node_below x p)"

definition node_at :: "senv \<Rightarrow> pystr \<Rightarrow> fnode option" where
  "node_at e t = (if t = [] then None else node_below (s_root e) (abspath (s_cwd e) t))"

definition MAXTEXTSIZE :: nat where "MAXTEXTSIZE = 16 * 1024 * 1024"
definition MAXRESULTS :: nat where "MAXRESULTS = 2000"
definition DELIMIN :: pystr where "DELIMIN = cps ''in''"

fun is_tier :: "fnode \<Rightarrow> bool" where
  "is_tier (FTier _ _) = True"
| "is_tier (FFile _ _) = False"

definition isfile :: "senv \<Rightarrow> pystr \<Rightarrow> bool" where
  "isfile e t = (case node_at e t of Some x \<Rightarrow> \<not> is_tier x | None \<Rightarrow> False)"

definition isdir :: "senv \<Rightarrow> pystr \<Rightarrow> bool" where
  "isdir e t = (case node_at e t of Some x \<Rightarrow> is_tier x | None \<Rightarrow> False)"

definition joinfrom :: "pystr list \<Rightarrow> pystr" where
  "joinfrom tokens = strip (join_with 32 tokens)"

definition visible_name :: "senv \<Rightarrow> pystr \<Rightarrow> bool" where
  "visible_name e name \<longleftrightarrow> SHOWHIDDEN e \<or> \<not> starts_with [46] name"

text \<open>A walk hands out the entries of a tier, tiers first, then walks each of its tiers; a tier
  that cannot be listed is reported to \<open>walkerror\<close>.\<close>

datatype walked = Entry pystr bool | Denied pystr

definition listed :: "senv \<Rightarrow> bool \<Rightarrow> (pystr \<times> fnode) list \<Rightarrow> (pystr \<times> fnode) list" where
  "listed e tiers es = sort_key (\<lambda>(name, _). s_fold e name) (filter (\<lambda>(name, x). is_tier x = tiers \<and> visible_name e name) es)"

function walk :: "senv \<Rightarrow> pystr \<Rightarrow> fnode \<Rightarrow> walked list" where
  "walk e dirpath (FFile ok bs) = []"
| "walk e dirpath (FTier ok es) =
     (if \<not> ok then [Denied dirpath]
      else map (\<lambda>(name, _). Entry (join_path dirpath name) True) (listed e True es)
         @ map (\<lambda>(name, _). Entry (join_path dirpath name) False) (listed e False es)
         @ concat (map (\<lambda>(name, x). walk e (join_path dirpath name) x) (listed e True es)))"
  by pat_completeness auto
termination
proof (relation "measure (\<lambda>(_, _, x). size x)")
  fix e ok and es :: "(pystr \<times> fnode) list" and dirpath z x y
  assume "z \<in> set (listed e True es)" and z: "(x, y) = z"
  then have "(x, y) \<in> set es" by (auto simp: listed_def)
  then have "size y \<le> size_list (\<lambda>p. Suc (size (snd p))) es" by (induction es) auto
  then show "((e, join_path dirpath x, y), e, dirpath, FTier ok es) \<in> measure (\<lambda>(_, _, x). size x)"
    by (simp add: size_prod_simp del: size_list_conv_sum_list)
qed simp

definition walkpaths :: "senv \<Rightarrow> pystr \<Rightarrow> walked list" where
  "walkpaths e root = (if isdir e root then walk e root (the (node_at e root)) else [])"

section \<open>Matching\<close>

text \<open>\<open>re.escape\<close>, \<open>str.replace\<close>, and \<open>re.match\<close> on the expressions that \<open>wildcardregex\<close> builds: a dot stands
  for any character but a line feed, and the end is also found before a last line feed.\<close>

definition re_special :: pystr where
  "re_special = cps ''()[]{}?*+-|^$.&~# '' @ [92, 9, 10, 13, 11, 12]"

definition re_escape :: "pystr \<Rightarrow> pystr" where
  "re_escape t = concat (map (\<lambda>c. if c \<in> set re_special then [92, c] else [c]) t)"

definition wildcardregex :: "pystr \<Rightarrow> pystr" where
  "wildcardregex pattern =
     (let escaped = re_escape pattern;
          escaped = replace_all [92, 42] [46, 42] escaped;
          escaped = replace_all [92, 63] [46] escaped
      in [94] @ escaped @ [36])"

datatype atom = Lit cp | AnyOne | AnyMany

function re_atoms :: "pystr \<Rightarrow> atom list" where
  "re_atoms t =
     (if t = [] then []
      else if starts_with [46, 42] t then AnyMany # re_atoms (drop 2 t)
      else if hd t = 46 then AnyOne # re_atoms (tl t)
      else if hd t = 92 \<and> tl t \<noteq> [] then Lit (hd (tl t)) # re_atoms (drop 2 t)
      else Lit (hd t) # re_atoms (tl t))"
  by pat_completeness auto
termination by (relation "measure length") auto

declare re_atoms.simps [simp del]

fun atoms_match :: "atom list \<Rightarrow> pystr \<Rightarrow> bool" where
  "atoms_match [] s = (s = [] \<or> s = [10])"
| "atoms_match (Lit c # as) s = (case s of [] \<Rightarrow> False | x # xs \<Rightarrow> x = c \<and> atoms_match as xs)"
| "atoms_match (AnyOne # as) s = (case s of [] \<Rightarrow> False | x # xs \<Rightarrow> x \<noteq> 10 \<and> atoms_match as xs)"
| "atoms_match (AnyMany # as) [] = atoms_match as []"
| "atoms_match (AnyMany # as) (x # xs) = (atoms_match as (x # xs) \<or> (x \<noteq> 10 \<and> atoms_match (AnyMany # as) xs))"

definition re_match :: "pystr \<Rightarrow> pystr \<Rightarrow> bool" where
  "re_match regex s = atoms_match (re_atoms (butlast (tl regex))) s"

definition contains :: "pystr \<Rightarrow> pystr \<Rightarrow> bool" where
  "contains t v = list_ex (\<lambda>i. starts_with t (drop i v)) [0..<length v + 1]"

definition termmatch :: "senv \<Rightarrow> pystr \<Rightarrow> pystr \<Rightarrow> bool \<Rightarrow> bool \<Rightarrow> bool" where
  "termmatch e v term exact wildcard =
     (let lowvalue = s_lower e v; lowterm = s_lower e term in
      if exact then lowvalue = lowterm
      else if wildcard \<and> (42 \<in> set lowterm \<or> 63 \<in> set lowterm) then re_match (wildcardregex lowterm) lowvalue
      else contains lowterm lowvalue)"

datatype mode = AnyOf | AllOf | Exact

definition matchname :: "senv \<Rightarrow> pystr \<Rightarrow> pystr list \<Rightarrow> mode \<Rightarrow> bool" where
  "matchname e name terms m =
     (if terms = [] then False
      else case m of
        Exact \<Rightarrow> termmatch e name (joinfrom terms) True False
      | AllOf \<Rightarrow> list_all (\<lambda>t. termmatch e name t False True) terms
      | AnyOf \<Rightarrow> list_ex (\<lambda>t. termmatch e name t False True) terms)"

definition matchline :: "senv \<Rightarrow> pystr \<Rightarrow> pystr list \<Rightarrow> mode \<Rightarrow> bool" where
  "matchline e line terms m =
     (if terms = [] then False
      else case m of
        Exact \<Rightarrow> contains (s_lower e (joinfrom terms)) (s_lower e line)
      | AllOf \<Rightarrow> list_all (\<lambda>t. termmatch e line t False False) terms
      | AnyOf \<Rightarrow> list_ex (\<lambda>t. termmatch e line t False False) terms)"

section \<open>Parsing the arguments\<close>

definition in_positions :: "senv \<Rightarrow> pystr list \<Rightarrow> nat list" where
  "in_positions e args = filter (\<lambda>i. s_lower e (args ! i) = DELIMIN) [0..<length args]"

definition splitin :: "senv \<Rightarrow> pystr list \<Rightarrow> (pystr list \<times> pystr) option" where
  "splitin e args =
     (let positions = in_positions e args;
          target = (\<lambda>i. joinfrom (drop (i + 1) args)) in
      case find (\<lambda>i. 0 < i \<and> i + 1 < length args \<and> (isfile e (target i) \<or> isdir e (target i))) (rev positions) of
        Some i \<Rightarrow> Some (take i args, target i)
      | None \<Rightarrow> if positions = [] then None else Some (take (last positions) args, target (last positions)))"

lemma find_member: "find P xs = Some x \<Longrightarrow> x \<in> set xs"
  by (metis find_Some_iff nth_mem)

function name_scopes :: "senv \<Rightarrow> pystr list \<Rightarrow> pystr list \<Rightarrow> pystr list \<times> pystr list" where
  "name_scopes e remaining found =
     (case find (\<lambda>n. isdir e (joinfrom (drop (length remaining - n) remaining))) [1..<length remaining + 1] of
        None \<Rightarrow> (remaining, found)
      | Some n \<Rightarrow> name_scopes e (take (length remaining - n) remaining)
                    (found @ [joinfrom (drop (length remaining - n) remaining)]))"
  by pat_completeness auto
termination
proof (relation "measure (\<lambda>(_, r, _). length r)")
  fix e :: senv and remaining found :: "pystr list" and n
  assume "find (\<lambda>n. isdir e (joinfrom (drop (length remaining - n) remaining))) [1..<length remaining + 1] = Some n"
  from find_member [OF this] show "((e, take (length remaining - n) remaining, found @ [joinfrom (drop (length remaining - n) remaining)]), e, remaining, found)
      \<in> measure (\<lambda>(_, r, _). length r)" by auto
qed simp

declare name_scopes.simps [simp del]

definition parsenamescope :: "senv \<Rightarrow> pystr list \<Rightarrow> pystr list \<times> pystr list" where
  "parsenamescope e args = (let (remaining, found) = name_scopes e args [] in (remaining, rev found))"

datatype purpose = Names | Content
datatype kind_of = Both | OnlyFile | OnlyTier

definition first_kind :: "pystr \<Rightarrow> kind_of option" where
  "first_kind w = (if w = cps ''names'' then Some Both else if w = cps ''files'' then Some OnlyFile
     else if w = cps ''tiers'' then Some OnlyTier else None)"

definition first_mode :: "pystr \<Rightarrow> mode option" where
  "first_mode w = (if w = cps ''exact'' then Some Exact else if w = cps ''all'' then Some AllOf else None)"

definition parse :: "senv \<Rightarrow> pystr list \<Rightarrow> (purpose \<times> pystr list \<times> pystr list \<times> kind_of \<times> mode) option" where
  "parse e args = (case args of
     [] \<Rightarrow> None
   | first # rest \<Rightarrow> (case first_kind (s_lower e first) of
       Some k \<Rightarrow> (case splitin e rest of None \<Rightarrow> None | Some (terms, target) \<Rightarrow> Some (Names, terms, [target], k, AnyOf))
     | None \<Rightarrow>
         (let (m, tokens) = (case first_mode (s_lower e first) of Some m \<Rightarrow> (m, rest) | None \<Rightarrow> (AnyOf, args)) in
          case splitin e tokens of
            Some (terms, target) \<Rightarrow> Some (Content, terms, [target], Both, m)
          | None \<Rightarrow> (case parsenamescope e tokens of (terms, scopes) \<Rightarrow>
              Some (Names, terms, if scopes = [] then [[46]] else scopes, Both, m)))))"

section \<open>Searching text\<close>

datatype out =
    Hit pystr nat pystr | Unreadable pystr | NoTerms | NotFound pystr | NoMatches | Matches nat nat | StoppedMatches
  | Skipped nat nat nat | Name pystr | NamesFound nat | StoppedNames | SkippedTiers nat | Usage

record counts =
  files :: nat
  matches :: nat
  binary_files :: nat
  large :: nat
  errors :: nat
  limited :: bool

definition no_counts :: counts where
  "no_counts = \<lparr>files = 0, matches = 0, binary_files = 0, large = 0, errors = 0, limited = False\<rparr>"

text \<open>The lines a text stream yields, each with its line feed.\<close>

definition stream_lines :: "bytes \<Rightarrow> pystr list" where
  "stream_lines bs =
     (let ls = split_on 10 (newlines (utf8_decode bs)) in
      map (\<lambda>l. l @ [10]) (butlast ls) @ (if last ls = [] then [] else [last ls]))"

text \<open>A path with a lone surrogate, from a name that is not UTF-8, cannot be printed: the search of the file ends with an error.\<close>

fun search_lines :: "senv \<Rightarrow> pystr list \<Rightarrow> pystr \<Rightarrow> mode \<Rightarrow> nat \<Rightarrow> pystr list \<Rightarrow> counts \<Rightarrow> out list \<times> counts" where
  "search_lines e terms filepath m lineno [] c = ([], c)"
| "search_lines e terms filepath m lineno (line # lines) c =
     (if MAXRESULTS \<le> matches c then ([], c\<lparr>limited := True\<rparr>)
      else if matchline e line terms m
        then if list_ex is_surrogate filepath then ([Unreadable filepath], c\<lparr>errors := errors c + 1\<rparr>)
          else (case search_lines e terms filepath m (lineno + 1) lines (c\<lparr>matches := matches c + 1\<rparr>) of
          (outs, c') \<Rightarrow> (Hit filepath lineno (rstrip py_isspace line) # outs, c'))
      else search_lines e terms filepath m (lineno + 1) lines c)"

text \<open>\<open>binary\<close> answers no for a file that cannot be opened.\<close>

fun binary :: "fnode \<Rightarrow> bool" where
  "binary (FFile ok bs) = (ok \<and> 0 \<in> set (take 4096 bs))"
| "binary (FTier _ _) = False"

definition searchfile :: "senv \<Rightarrow> pystr list \<Rightarrow> pystr \<Rightarrow> mode \<Rightarrow> counts \<Rightarrow> out list \<times> counts" where
  "searchfile e terms filepath m c = (case node_at e filepath of
     None \<Rightarrow> ([Unreadable filepath], c\<lparr>errors := errors c + 1\<rparr>)
   | Some (FTier _ _) \<Rightarrow> ([Unreadable filepath], c\<lparr>files := files c + 1, errors := errors c + 1\<rparr>)
   | Some (FFile ok bs) \<Rightarrow>
       (if MAXTEXTSIZE < length bs then ([], c\<lparr>large := large c + 1\<rparr>)
        else if binary (FFile ok bs) then ([], c\<lparr>binary_files := binary_files c + 1\<rparr>)
        else if \<not> ok then ([Unreadable filepath], c\<lparr>files := files c + 1, errors := errors c + 1\<rparr>)
        else search_lines e terms filepath m 1 (stream_lines bs) (c\<lparr>files := files c + 1\<rparr>)))"

fun search_walk :: "senv \<Rightarrow> pystr list \<Rightarrow> mode \<Rightarrow> walked list \<Rightarrow> counts \<Rightarrow> out list \<times> counts" where
  "search_walk e terms m [] c = ([], c)"
| "search_walk e terms m (Denied p # ws) c = search_walk e terms m ws c"
| "search_walk e terms m (Entry p tier # ws) c =
     (case (if tier then ([], c) else searchfile e terms p m c) of (outs, c1) \<Rightarrow>
       if limited c1 then (outs, c1)
       else case search_walk e terms m ws c1 of (outs', c2) \<Rightarrow> (outs @ outs', c2))"

definition content_summary :: "counts \<Rightarrow> out list" where
  "content_summary c =
     (if matches c = 0 then [NoMatches] else []) @ [Matches (matches c) (files c)]
     @ (if limited c then [StoppedMatches] else [])
     @ (if binary_files c \<noteq> 0 \<or> large c \<noteq> 0 \<or> errors c \<noteq> 0 then [Skipped (binary_files c) (large c) (errors c)] else [])"

definition searchcontent :: "senv \<Rightarrow> pystr list \<Rightarrow> pystr \<Rightarrow> mode \<Rightarrow> nat \<times> out list" where
  "searchcontent e terms target m =
     (if terms = [] then (1, [NoTerms])
      else if isfile e target
        then (case searchfile e terms target m no_counts of (outs, c) \<Rightarrow> (0, outs @ content_summary c))
      else if isdir e target
        then (case search_walk e terms m (walkpaths e target) no_counts of (outs, c) \<Rightarrow> (0, outs @ content_summary c))
      else (1, [NotFound target]))"

section \<open>Searching names\<close>

definition kindmatch :: "bool \<Rightarrow> kind_of \<Rightarrow> bool" where
  "kindmatch tier k = (case k of OnlyFile \<Rightarrow> \<not> tier | OnlyTier \<Rightarrow> tier | Both \<Rightarrow> True)"

text \<open>What the iterator produces: a record, or a tier that the walk reported.  The state is the number of
  times \<open>cancelled\<close> was asked and the absolute paths already produced.\<close>

datatype step = Record pystr bool | Problem pystr

type_synonym names_state = "nat \<times> rpath set"

fun walk_names :: "senv \<Rightarrow> pystr list \<Rightarrow> kind_of \<Rightarrow> mode \<Rightarrow> (nat \<Rightarrow> bool) option \<Rightarrow> walked list \<Rightarrow> names_state \<Rightarrow> step list \<times> names_state \<times> bool" where
  "walk_names e terms k m cancelled [] st = ([], st, False)"
| "walk_names e terms k m cancelled (Denied p # ws) st =
     (case walk_names e terms k m cancelled ws st of (ss, r) \<Rightarrow> (Problem p # ss, r))"
| "walk_names e terms k m cancelled (Entry p tier # ws) (polls, printed) =
     (if (case cancelled of None \<Rightarrow> False | Some f \<Rightarrow> f polls) then ([], (polls + 1, printed), True)
      else if \<not> kindmatch tier k \<or> \<not> matchname e (basename p) terms m \<or> abspath (s_cwd e) p \<in> printed
        then walk_names e terms k m cancelled ws (polls + 1, printed)
      else case walk_names e terms k m cancelled ws (polls + 1, insert (abspath (s_cwd e) p) printed) of
        (ss, r) \<Rightarrow> (Record p tier # ss, r))"

fun scope_names :: "senv \<Rightarrow> pystr list \<Rightarrow> kind_of \<Rightarrow> mode \<Rightarrow> (nat \<Rightarrow> bool) option \<Rightarrow> pystr list \<Rightarrow> names_state \<Rightarrow> step list" where
  "scope_names e terms k m cancelled [] st = []"
| "scope_names e terms k m cancelled (scope # scopes) (polls, printed) =
     (if (case cancelled of None \<Rightarrow> False | Some f \<Rightarrow> f polls) then []
      else if \<not> isdir e scope then scope_names e terms k m cancelled scopes (polls + 1, printed)
      else
        (let name = basename (rstrip (\<lambda>c. c = 47) scope);
             own = (name \<noteq> [] \<and> k \<noteq> OnlyFile \<and> matchname e name terms m);
             printed1 = (if own then insert (abspath (s_cwd e) scope) printed else printed) in
         case walk_names e terms k m cancelled (walkpaths e scope) (polls + 1, printed1) of (ss, st2, stopped) \<Rightarrow>
           (if own then [Record scope True] else []) @ ss
             @ (if stopped then [] else scope_names e terms k m cancelled scopes st2)))"

definition iterfindnames :: "senv \<Rightarrow> pystr list \<Rightarrow> pystr list \<Rightarrow> kind_of \<Rightarrow> mode \<Rightarrow> (nat \<Rightarrow> bool) option \<Rightarrow> step list" where
  "iterfindnames e terms scopes k m cancelled =
     (let terms = filter (\<lambda>t. t \<noteq> []) terms in
      if terms = [] then [] else scope_names e terms k m cancelled scopes (0, {}))"

text \<open>The consumer stops right behind the last record it wants.\<close>

fun consume :: "nat \<Rightarrow> step list \<Rightarrow> step list" where
  "consume n [] = []"
| "consume n (Problem p # ss) = Problem p # consume n ss"
| "consume n (Record p tier # ss) = Record p tier # (if n \<le> 1 then [] else consume (n - 1) ss)"

definition records :: "step list \<Rightarrow> (pystr \<times> bool) list" where
  "records ss = concat (map (\<lambda>s. case s of Record p tier \<Rightarrow> [(p, tier)] | Problem p \<Rightarrow> []) ss)"

definition problems :: "step list \<Rightarrow> pystr list" where
  "problems ss = concat (map (\<lambda>s. case s of Problem p \<Rightarrow> [p] | Record p tier \<Rightarrow> []) ss)"

text \<open>\<open>findnames\<close>: the records, and the tiers reported to \<open>WALKERRORS\<close> on the way.\<close>

definition findnames :: "senv \<Rightarrow> pystr list \<Rightarrow> pystr list \<Rightarrow> kind_of \<Rightarrow> mode \<Rightarrow> int option \<Rightarrow> (nat \<Rightarrow> bool) option \<Rightarrow> (pystr \<times> bool) list \<times> pystr list" where
  "findnames e terms scopes k m limit cancelled =
     (let maximum = (case limit of None \<Rightarrow> MAXRESULTS | Some n \<Rightarrow> nat (max 0 n)) in
      if maximum = 0 then ([], [])
      else let ss = consume maximum (iterfindnames e terms scopes k m cancelled) in (records ss, problems ss))"

definition searchname :: "senv \<Rightarrow> pystr list \<Rightarrow> pystr list \<Rightarrow> kind_of \<Rightarrow> mode \<Rightarrow> nat \<times> out list" where
  "searchname e terms scopes k m =
     (if terms = [] then (1, [NoTerms])
      else case find (\<lambda>scope. \<not> isdir e scope) scopes of
        Some scope \<Rightarrow> (1, [NotFound scope])
      | None \<Rightarrow> (case findnames e terms scopes k m (Some (int MAXRESULTS)) None of (results, errs) \<Rightarrow>
          (0, map (\<lambda>(p, _). Name p) results
            @ (if results = [] then [NoMatches] else []) @ [NamesFound (length results)]
            @ (if MAXRESULTS \<le> length results then [StoppedNames] else [])
            @ (if errs = [] then [] else [SkippedTiers (length errs)]))))"

definition search :: "senv \<Rightarrow> pystr list \<Rightarrow> nat \<times> out list" where
  "search e args = (case parse e args of
     None \<Rightarrow> (1, [Usage])
   | Some (purpose, terms, targets, k, m) \<Rightarrow>
       if terms = [] then (1, [NoTerms])
       else if purpose = Content then searchcontent e terms (hd targets) m
       else searchname e terms targets k m)"

end
