(* ===== verification/Search_Props.thy ===== *)
theory Search_Props
  imports Search
begin

text \<open>
  What searching finds: wildcards against their meaning (C33), names against the tree (C34), and the lines
  of a content search (C35).
\<close>

section \<open>Wildcards\<close>

text \<open>The blocks that escaping and the two replacements make of a character.\<close>

definition esc :: "cp \<Rightarrow> pystr" where
  "esc c = (if c \<in> set re_special then [92, c] else [c])"

definition esc_star :: "cp \<Rightarrow> pystr" where
  "esc_star c = (if c = 42 then [46, 42] else esc c)"

definition esc_wild :: "cp \<Rightarrow> pystr" where
  "esc_wild c = (if c = 42 then [46, 42] else if c = 63 then [46] else esc c)"

lemma special_chars: "42 \<in> set re_special" "63 \<in> set re_special" "46 \<in> set re_special" "92 \<in> set re_special"
  by (simp_all add: re_special_def)

lemma blocks:
  "c \<in> set re_special \<Longrightarrow> esc c = [92, c]" "c \<notin> set re_special \<Longrightarrow> esc c = [c]"
  "esc_star 42 = [46, 42]" "c \<noteq> 42 \<Longrightarrow> esc_star c = esc c"
  "esc_wild 42 = [46, 42]" "esc_wild 63 = [46]" "c \<noteq> 42 \<Longrightarrow> c \<noteq> 63 \<Longrightarrow> esc_wild c = esc c"
  by (simp_all add: esc_def esc_star_def esc_wild_def)

lemma replace_skip: "\<not> starts_with old (x # t) \<Longrightarrow> replace_all old new (x # t) = x # replace_all old new t"
  by (subst replace_all.simps) simp

lemma replace_hit: "old \<noteq> [] \<Longrightarrow> replace_all old new (old @ t) = new @ replace_all old new t"
  by (subst replace_all.simps) simp

lemma starts_two: "starts_with [a, b] (x # t) \<longleftrightarrow> x = a \<and> t \<noteq> [] \<and> hd t = b"
  by (cases t) (auto simp: starts_with_def)

lemma replace_nil [simp]: "replace_all old new [] = []"
  by (subst replace_all.simps) simp

text \<open>No block begins with a bare wildcard, so that a backslash at the end of one never meets it.\<close>

lemma heads:
  "concat (map esc t) \<noteq> [] \<Longrightarrow> hd (concat (map esc t)) \<noteq> 42 \<and> hd (concat (map esc t)) \<noteq> 63"
  "concat (map esc_star t) \<noteq> [] \<Longrightarrow> hd (concat (map esc_star t)) \<noteq> 42 \<and> hd (concat (map esc_star t)) \<noteq> 63"
  "concat (map esc_wild t) \<noteq> [] \<Longrightarrow> hd (concat (map esc_wild t)) \<noteq> 42 \<and> hd (concat (map esc_wild t)) \<noteq> 63"
  using special_chars by (cases t; auto simp: esc_def esc_star_def esc_wild_def)+

lemma replace_star: "replace_all [92, 42] [46, 42] (concat (map esc t)) = concat (map esc_star t)"
proof (induction t)
  case (Cons c t)
  let ?r = "concat (map esc t)"
  have r: "\<not> starts_with [92, 42] (x # ?r)" for x using heads(1) [of t] by (auto simp: starts_two)
  consider "c = 42" | "c \<noteq> 42" "c \<in> set re_special" | "c \<notin> set re_special" by blast
  then show ?case
  proof cases
    case 1
    then show ?thesis
      using replace_hit [of "[92, 42]" "[46, 42]" ?r] Cons special_chars by (simp add: blocks special_chars)
  next
    case 2
    then have "\<not> starts_with [92, 42] (92 # c # ?r)" by (simp add: starts_two)
    then show ?thesis using 2 Cons r [of c] by (simp add: blocks special_chars replace_skip)
  next
    case 3
    moreover from 3 have "c \<noteq> 42" using special_chars by auto
    ultimately show ?thesis using Cons r [of c] by (simp add: blocks special_chars replace_skip)
  qed
qed simp

lemma replace_question: "replace_all [92, 63] [46] (concat (map esc_star t)) = concat (map esc_wild t)"
proof (induction t)
  case (Cons c t)
  let ?r = "concat (map esc_star t)"
  have r: "\<not> starts_with [92, 63] (x # ?r)" for x using heads(2) [of t] by (auto simp: starts_two)
  consider "c = 42" | "c = 63" | "c \<noteq> 42" "c \<noteq> 63" "c \<in> set re_special" | "c \<notin> set re_special" by blast
  then show ?case
  proof cases
    case 1
    have "\<not> starts_with [92, 63] (46 # 42 # ?r)" by (simp add: starts_two)
    then show ?thesis using 1 Cons r [of 42] by (simp add: blocks special_chars replace_skip)
  next
    case 2
    then show ?thesis
      using replace_hit [of "[92, 63]" "[46]" ?r] Cons special_chars by (simp add: blocks special_chars)
  next
    case 3
    then have "\<not> starts_with [92, 63] (92 # c # ?r)" by (simp add: starts_two)
    then show ?thesis using 3 Cons r [of c] by (simp add: blocks special_chars replace_skip)
  next
    case 4
    moreover from 4 have "c \<noteq> 42" "c \<noteq> 63" using special_chars by auto
    ultimately show ?thesis using Cons r [of c] by (simp add: blocks special_chars replace_skip)
  qed
qed simp

definition wild_atom :: "cp \<Rightarrow> atom" where
  "wild_atom c = (if c = 42 then AnyMany else if c = 63 then AnyOne else Lit c)"

lemma wild_atom_vals: "wild_atom 42 = AnyMany" "wild_atom 63 = AnyOne" "c \<noteq> 42 \<Longrightarrow> c \<noteq> 63 \<Longrightarrow> wild_atom c = Lit c"
  by (simp_all add: wild_atom_def)

lemma atoms_wild: "re_atoms (concat (map esc_wild t)) = map wild_atom t"
proof (induction t)
  case Nil
  then show ?case by (subst re_atoms.simps) simp
next
  case (Cons c t)
  let ?r = "concat (map esc_wild t)"
  have r: "\<not> starts_with [46, 42] (x # ?r)" for x using heads(3) [of t] by (auto simp: starts_two)
  consider "c = 42" | "c = 63" | "c \<noteq> 42" "c \<noteq> 63" "c \<in> set re_special" | "c \<notin> set re_special" by blast
  then show ?case
  proof cases
    case 1
    have "re_atoms (46 # 42 # ?r) = AnyMany # re_atoms ?r" by (subst re_atoms.simps) (simp add: starts_two)
    then show ?thesis using 1 Cons by (simp add: blocks special_chars wild_atom_vals)
  next
    case 2
    have "re_atoms (46 # ?r) = AnyOne # re_atoms ?r" using r [of 46] by (subst re_atoms.simps) simp
    then show ?thesis using 2 Cons by (simp add: blocks special_chars wild_atom_vals)
  next
    case 3
    have "re_atoms (92 # c # ?r) = Lit c # re_atoms ?r" by (subst re_atoms.simps) (simp add: starts_two)
    then show ?thesis using 3 Cons by (simp add: blocks special_chars wild_atom_vals)
  next
    case 4
    then have c: "c \<noteq> 42" "c \<noteq> 63" "c \<noteq> 46" "c \<noteq> 92" using special_chars by auto
    then have "re_atoms (c # ?r) = Lit c # re_atoms ?r" using r [of c] by (subst re_atoms.simps) simp
    then show ?thesis using 4 c Cons by (simp add: blocks special_chars wild_atom_vals)
  qed
qed

lemma wildcard_atoms: "re_match (wildcardregex t) s = atoms_match (map wild_atom t) s"
proof -
  have "re_escape t = concat (map esc t)" by (simp add: re_escape_def esc_def [abs_def])
  then show ?thesis
    by (simp add: re_match_def wildcardregex_def replace_star replace_question atoms_wild butlast_append)
qed

text \<open>The meaning of a pattern: a star stands for any text, a question mark for any character.\<close>

inductive globs :: "pystr \<Rightarrow> pystr \<Rightarrow> bool" where
  globs_end: "globs [] []"
| globs_many: "globs p s \<Longrightarrow> globs (42 # p) (x @ s)"
| globs_one: "globs p s \<Longrightarrow> globs (63 # p) (c # s)"
| globs_same: "globs p s \<Longrightarrow> c \<noteq> 42 \<Longrightarrow> c \<noteq> 63 \<Longrightarrow> globs (c # p) (c # s)"

inductive_simps globs_simps: "globs [] s" "globs (c # p) s"

lemma many_globs: "10 \<notin> set s \<Longrightarrow> atoms_match (AnyMany # as) s \<longleftrightarrow> (\<exists>x y. s = x @ y \<and> atoms_match as y)"
proof (induction s)
  case (Cons a s)
  have "(\<exists>x y. a # s = x @ y \<and> atoms_match as y) \<longleftrightarrow> atoms_match as (a # s) \<or> (\<exists>x y. s = x @ y \<and> atoms_match as y)"
    by (metis (no_types, lifting) Cons_eq_append_conv append_Nil)
  then show ?case using Cons by simp
qed simp

lemma atoms_globs: "10 \<notin> set s \<Longrightarrow> atoms_match (map wild_atom p) s \<longleftrightarrow> globs p s"
proof (induction p arbitrary: s)
  case Nil
  then show ?case by (auto simp: globs_simps)
next
  case (Cons c p)
  consider "c = 42" | "c = 63" | "c \<noteq> 42" "c \<noteq> 63" by blast
  then show ?case
  proof cases
    case 1
    have "atoms_match (AnyMany # map wild_atom p) s \<longleftrightarrow> (\<exists>x y. s = x @ y \<and> globs p y)"
      unfolding many_globs [OF Cons.prems] using Cons by (metis UnCI set_append)
    then show ?thesis using 1 by (auto simp: wild_atom_vals globs_simps)
  next
    case 2
    then show ?thesis using Cons by (cases s) (auto simp: wild_atom_vals globs_simps)
  next
    case 3
    then show ?thesis using Cons by (cases s) (auto simp: wild_atom_vals globs_simps)
  qed
qed

text \<open>C33. A term with a wildcard matches a name exactly when the name, both in lower case, is an
  instance of the term in which each star is replaced by some text and each question mark by one
  character: whatever else the term contains, brackets, dots and backslashes included, stands for
  itself.  The name must not contain a line feed.\<close>

theorem wildcard_is_glob:
  assumes "10 \<notin> set (s_lower e name)" "42 \<in> set (s_lower e t) \<or> 63 \<in> set (s_lower e t)"
  shows "termmatch e name t False True \<longleftrightarrow> globs (s_lower e t) (s_lower e name)"
  using assms atoms_globs [OF assms(1), of "s_lower e t"] by (simp add: termmatch_def wildcard_atoms)

section \<open>Names\<close>

text \<open>What a walk may show: an entry below a tier that can be listed, no name on the way hidden.\<close>

inductive shown :: "senv \<Rightarrow> fnode \<Rightarrow> rpath \<Rightarrow> fnode \<Rightarrow> bool" for e where
  shown_here: "(n, x) \<in> set es \<Longrightarrow> visible_name e n \<Longrightarrow> shown e (FTier True es) [n] x"
| shown_deep: "(n, x) \<in> set es \<Longrightarrow> visible_name e n \<Longrightarrow> shown e x p y \<Longrightarrow> shown e (FTier True es) (n # p) y"

inductive_cases shown_tierE: "shown e (FTier ok es) p y"
inductive_cases shown_fileE: "shown e (FFile ok bs) p y"

fun tidy :: "fnode \<Rightarrow> bool" where
  "tidy (FFile ok bs) = True"
| "tidy (FTier ok es) = (\<forall>(n, x) \<in> set es. plain_part n \<and> tidy x)"

lemma shown_nonempty: "shown e x p y \<Longrightarrow> p \<noteq> []"
  by (induction rule: shown.induct) auto

lemma listed_set: "set (listed e b es) = {(n, x) \<in> set es. is_tier x = b \<and> visible_name e n}"
  by (auto simp: listed_def)

lemma plain_join: "t \<noteq> [] \<Longrightarrow> plain_part n \<Longrightarrow> basename (join_path t n) = n"
  by (rule basename_join) (auto simp: plain_part_def)

text \<open>An entry of a walk: its node, its absolute path and its name.\<close>

definition entry_for :: "senv \<Rightarrow> pystr \<Rightarrow> pystr \<Rightarrow> rpath \<Rightarrow> bool" where
  "entry_for e dirpath t p \<longleftrightarrow> abspath (s_cwd e) t = abspath (s_cwd e) dirpath @ p \<and> basename t = last p"

lemma walk_sound:
  "Entry t tier \<in> set (walk e dirpath x) \<Longrightarrow> tidy x \<Longrightarrow> dirpath \<noteq> [] \<Longrightarrow>
   \<exists>p y. shown e x p y \<and> tier = is_tier y \<and> entry_for e dirpath t p"
proof (induction e dirpath x rule: walk.induct)
  case (2 e dirpath ok es)
  note dir = "2.prems"(3)
  have ok: "ok" using "2.prems"(1) by (auto split: if_splits)
  consider n x where "(n, x) \<in> set es" "visible_name e n" "t = join_path dirpath n" "tier = is_tier x"
    | n x where "(n, x) \<in> set (listed e True es)" "Entry t tier \<in> set (walk e (join_path dirpath n) x)"
    using "2.prems"(1) ok by (auto simp: listed_set)
  then show ?case
  proof cases
    case (1 n x)
    then have "plain_part n" using "2.prems"(2) by auto
    then show ?thesis
      using 1 ok dir by (auto intro!: exI [of _ "[n]"] shown_here simp: entry_for_def abspath_join plain_join)
  next
    case (2 n x)
    then have n: "(n, x) \<in> set es" "visible_name e n" by (auto simp: listed_set)
    then have plain: "plain_part n" "tidy x" using "2.prems"(2) by auto
    obtain p y where p: "shown e x p y" "tier = is_tier y" "entry_for e (join_path dirpath n) t p"
      using "2.IH" [OF _ 2(1) refl 2(2)] ok plain join_nonempty [OF dir] by auto
    then have "entry_for e dirpath t (n # p)"
      using shown_nonempty [OF p(1)] dir plain by (simp add: entry_for_def abspath_join)
    moreover have "shown e (FTier ok es) (n # p) y" using shown_deep [OF n p(1)] ok by simp
    ultimately show ?thesis using p(2) by blast
  qed
qed simp

lemma walk_complete:
  "shown e x p y \<Longrightarrow> tidy x \<Longrightarrow> dirpath \<noteq> [] \<Longrightarrow> \<exists>t. Entry t (is_tier y) \<in> set (walk e dirpath x) \<and> entry_for e dirpath t p"
proof (induction arbitrary: dirpath rule: shown.induct)
  case (shown_here n x es)
  then have "plain_part n" by auto
  then show ?case
    using shown_here
    by (intro exI [of _ "join_path dirpath n"]) (cases "is_tier x"; force simp: entry_for_def abspath_join plain_join listed_set)
next
  case (shown_deep n x es p y)
  then have n: "plain_part n" "tidy x" by auto
  obtain t where t: "Entry t (is_tier y) \<in> set (walk e (join_path dirpath n) x)" "entry_for e (join_path dirpath n) t p"
    using shown_deep.IH [OF n(2) join_nonempty [OF shown_deep.prems(2)]] by blast
  have "is_tier x" using shown_deep.hyps(3) by (cases x) (auto elim: shown_fileE)
  then have "(n, x) \<in> set (listed e True es)" using shown_deep.hyps by (simp add: listed_set)
  then have "Entry t (is_tier y) \<in> set (walk e dirpath (FTier True es))" using t(1) by force
  moreover have "entry_for e dirpath t (n # p)"
    using t(2) n shown_nonempty [OF shown_deep.hyps(3)] shown_deep.prems(2) by (simp add: entry_for_def abspath_join)
  ultimately show ?case by blast
qed

text \<open>What an uninterrupted search over a list of entries produces.\<close>

abbreviation abs_of :: "senv \<Rightarrow> pystr \<times> bool \<Rightarrow> rpath" where
  "abs_of e r \<equiv> abspath (s_cwd e) (fst r)"

definition wanted_entry :: "senv \<Rightarrow> pystr list \<Rightarrow> kind_of \<Rightarrow> mode \<Rightarrow> walked \<Rightarrow> bool" where
  "wanted_entry e terms k m w = (case w of
     Entry p tier \<Rightarrow> kindmatch tier k \<and> matchname e (basename p) terms m | Denied p \<Rightarrow> False)"

lemma records_simps [simp]:
  "records [] = []" "records (Record p tier # ss) = (p, tier) # records ss" "records (Problem p # ss) = records ss"
  "records (ss @ ss') = records ss @ records ss'"
  by (simp_all add: records_def)

lemma walk_names_facts:
  "walk_names e terms k m None ws (polls, printed) = (ss, (polls', printed'), stopped) \<Longrightarrow>
   \<not> stopped \<and> printed' = printed \<union> abs_of e ` set (records ss) \<and> distinct (map (abs_of e) (records ss))
   \<and> abs_of e ` set (records ss) \<inter> printed = {}
   \<and> (\<forall>(p, tier) \<in> set (records ss). Entry p tier \<in> set ws \<and> wanted_entry e terms k m (Entry p tier))
   \<and> (\<forall>p tier. Entry p tier \<in> set ws \<and> wanted_entry e terms k m (Entry p tier) \<longrightarrow> abspath (s_cwd e) p \<in> printed')"
proof (induction ws arbitrary: polls printed ss)
  case (Cons w ws)
  show ?case
  proof (cases w)
    case (Denied p)
    then obtain ss1 where "walk_names e terms k m None ws (polls, printed) = (ss1, (polls', printed'), stopped)" "ss = Problem p # ss1"
      using Cons.prems by (auto split: prod.splits)
    then show ?thesis using Cons.IH Denied by (auto 0 3)
  next
    case (Entry p tier)
    show ?thesis
    proof (cases "wanted_entry e terms k m w \<and> abspath (s_cwd e) p \<notin> printed")
      case False
      then have "walk_names e terms k m None ws (polls + 1, printed) = (ss, (polls', printed'), stopped)"
        using Cons.prems Entry by (auto simp: wanted_entry_def split: if_splits)
      from Cons.IH [OF this] show ?thesis using False Entry by (auto 0 3)
    next
      case True
      then obtain ss1 where ss: "walk_names e terms k m None ws (polls + 1, insert (abspath (s_cwd e) p) printed) = (ss1, (polls', printed'), stopped)"
        "ss = Record p tier # ss1"
        using Cons.prems Entry by (auto simp: wanted_entry_def split: prod.splits)
      from Cons.IH [OF ss(1)] show ?thesis using True ss(2) Entry by (auto 0 3)
    qed
  qed
qed auto

lemma tidy_below: "node_below x p = Some y \<Longrightarrow> tidy x \<Longrightarrow> tidy y"
proof (induction x p rule: node_below.induct)
  case (3 ok es c p)
  then obtain z where z: "map_of es c = Some z" "node_below z p = Some y" by (auto split: option.splits)
  then show ?case using 3(1) [OF z(1) z(2)] 3(3) map_of_SomeD [OF z(1)] by auto
qed auto

text \<open>The paths a search in a scope is for.\<close>

definition scope_name :: "pystr \<Rightarrow> pystr" where
  "scope_name scope = basename (rstrip (\<lambda>c. c = 47) scope)"

definition wanted :: "senv \<Rightarrow> pystr list \<Rightarrow> kind_of \<Rightarrow> mode \<Rightarrow> pystr \<Rightarrow> rpath set" where
  "wanted e terms k m scope = (case node_at e scope of
     Some (FTier ok es) \<Rightarrow>
       {a. a = abspath (s_cwd e) scope \<and> scope_name scope \<noteq> [] \<and> k \<noteq> OnlyFile \<and> matchname e (scope_name scope) terms m}
       \<union> {abspath (s_cwd e) scope @ p | p y. shown e (FTier ok es) p y \<and> kindmatch (is_tier y) k \<and> matchname e (last p) terms m}
   | _ \<Rightarrow> {})"

lemma walk_wanted:
  assumes "tidy (s_root e)" "node_at e scope = Some (FTier ok es)"
  shows "{abspath (s_cwd e) t | t tier. Entry t tier \<in> set (walkpaths e scope) \<and> wanted_entry e terms k m (Entry t tier)}
    = {abspath (s_cwd e) scope @ p | p y. shown e (FTier ok es) p y \<and> kindmatch (is_tier y) k \<and> matchname e (last p) terms m}"
proof -
  have w: "walkpaths e scope = walk e scope (FTier ok es)" "scope \<noteq> []" "tidy (FTier ok es)"
    using assms tidy_below [of "s_root e" "abspath (s_cwd e) scope"] by (auto simp: walkpaths_def isdir_def node_at_def split: if_splits)
  show ?thesis
    unfolding w(1) wanted_entry_def walked.case
  proof (intro equalityI subsetI; clarify)
    fix t tier
    assume "Entry t tier \<in> set (walk e scope (FTier ok es))" and t: "kindmatch tier k" "matchname e (basename t) terms m"
    then obtain p y where "shown e (FTier ok es) p y" "tier = is_tier y" "entry_for e scope t p" using walk_sound w by blast
    then show "\<exists>p y. abspath (s_cwd e) t = abspath (s_cwd e) scope @ p \<and> shown e (FTier ok es) p y \<and> kindmatch (is_tier y) k \<and> matchname e (last p) terms m"
      using t by (auto simp: entry_for_def)
  next
    fix p y
    assume "shown e (FTier ok es) p y" and p: "kindmatch (is_tier y) k" "matchname e (last p) terms m"
    then obtain t where "Entry t (is_tier y) \<in> set (walk e scope (FTier ok es))" "entry_for e scope t p" using walk_complete w by blast
    then show "\<exists>t tier. abspath (s_cwd e) scope @ p = abspath (s_cwd e) t \<and> Entry t tier \<in> set (walk e scope (FTier ok es))
        \<and> kindmatch tier k \<and> matchname e (basename t) terms m"
      using p unfolding entry_for_def by metis
  qed
qed

lemma walk_names_parts:
  assumes "walk_names e terms k m None ws (polls, printed) = (ss, (polls', printed'), stopped)"
  shows "\<not> stopped" "printed' = printed \<union> abs_of e ` set (records ss)" "distinct (map (abs_of e) (records ss))"
    "abs_of e ` set (records ss) \<inter> printed = {}"
    "\<forall>(p, tier) \<in> set (records ss). Entry p tier \<in> set ws \<and> wanted_entry e terms k m (Entry p tier)"
    "\<And>p tier. Entry p tier \<in> set ws \<Longrightarrow> wanted_entry e terms k m (Entry p tier) \<Longrightarrow> abspath (s_cwd e) p \<in> printed'"
  using walk_names_facts [OF assms] by blast+

lemma walk_names_covers:
  assumes "walk_names e terms k m None ws (polls, printed) = (ss, (polls', printed'), stopped)"
  shows "printed' = printed \<union> {abspath (s_cwd e) t | t tier. Entry t tier \<in> set ws \<and> wanted_entry e terms k m (Entry t tier)}"
    (is "_ = _ \<union> ?W")
proof -
  note f = walk_names_parts [OF assms]
  have "abs_of e ` set (records ss) \<subseteq> ?W"
  proof (rule image_subsetI)
    fix r
    assume "r \<in> set (records ss)"
    then have "Entry (fst r) (snd r) \<in> set ws \<and> wanted_entry e terms k m (Entry (fst r) (snd r))" using f(5) by (cases r) auto
    then show "abs_of e r \<in> ?W" by blast
  qed
  moreover have "?W \<subseteq> printed'" using f(6) by blast
  ultimately show ?thesis using f(2) by blast
qed

lemma scope_names_found:
  "tidy (s_root e) \<Longrightarrow> abs_of e ` set (records (scope_names e terms k m None scopes (polls, printed))) \<union> printed
     = (\<Union>s \<in> set scopes. wanted e terms k m s) \<union> printed"
proof (induction scopes arbitrary: polls printed)
  case (Cons scope scopes)
  show ?case
  proof (cases "isdir e scope")
    case False
    then have "wanted e terms k m scope = {}"
      by (auto simp: wanted_def isdir_def split: option.splits fnode.splits)
    then show ?thesis using False Cons by simp
  next
    case True
    then obtain ok es where node: "node_at e scope = Some (FTier ok es)"
      by (auto simp: isdir_def split: option.splits elim: is_tier.elims)
    let ?own = "scope_name scope \<noteq> [] \<and> k \<noteq> OnlyFile \<and> matchname e (scope_name scope) terms m"
    let ?printed = "if ?own then insert (abspath (s_cwd e) scope) printed else printed"
    obtain ss polls' printed' stopped
      where w: "walk_names e terms k m None (walkpaths e scope) (polls + 1, ?printed) = (ss, (polls', printed'), stopped)"
      by (metis prod.collapse)
    note f = walk_names_parts [OF w]
    have "scope_names e terms k m None (scope # scopes) (polls, printed) =
        (if ?own then [Record scope True] else []) @ ss @ scope_names e terms k m None scopes (polls', printed')"
      using True w f(1) by (simp add: scope_name_def Let_def)
    then have "abs_of e ` set (records (scope_names e terms k m None (scope # scopes) (polls, printed))) \<union> printed
        = ?printed \<union> abs_of e ` set (records ss) \<union> abs_of e ` set (records (scope_names e terms k m None scopes (polls', printed')))"
      by auto
    also have "\<dots> = abs_of e ` set (records (scope_names e terms k m None scopes (polls', printed'))) \<union> printed'"
      unfolding f(2) by (simp only: Un_ac)
    also have "\<dots> = (\<Union>s \<in> set scopes. wanted e terms k m s) \<union> printed'" by (rule Cons.IH [OF Cons.prems])
    also have "printed' = wanted e terms k m scope \<union> printed"
      unfolding walk_names_covers [OF w] walk_wanted [OF Cons.prems node] by (auto simp: wanted_def node)
    finally show ?thesis by auto
  qed
qed simp

lemma records_consume: "1 \<le> n \<Longrightarrow> records (consume n ss) = take n (records ss)"
proof (induction n ss rule: consume.induct)
  case (3 n p tier ss)
  then show ?case by (cases n) auto
qed simp_all

lemma starts_with_Cons [simp]: "starts_with (x # xs) (y # ys) \<longleftrightarrow> x = y \<and> starts_with xs ys" "starts_with [] ys"
  by (auto simp: starts_with_def)

lemma starts_with_same [simp]: "starts_with (xs @ ys) (xs @ zs) \<longleftrightarrow> starts_with ys zs"
  by (auto simp: starts_with_iff)

lemma walk_names_cancel:
  "case walk_names e terms k m (Some f) ws st of (ss, st1, stopped) \<Rightarrow>
     (case walk_names e terms k m None ws st of (ss0, st0, _) \<Rightarrow>
        starts_with ss ss0 \<and> (stopped \<or> ss = ss0 \<and> st1 = st0))"
proof (induction e terms k m "Some f" ws st rule: walk_names.induct)
  case (3 e terms k m p tier ws polls printed)
  then show ?case by (auto split: prod.splits if_splits)
qed (auto split: prod.splits)

lemma walk_names_not_stopped: "walk_names e terms k m None ws st = (ss, st', stopped) \<Longrightarrow> \<not> stopped"
  using walk_names_facts [of e terms k m ws "fst st" "snd st" ss "fst st'" "snd st'" stopped] by simp

lemma scope_names_cancel: "starts_with (scope_names e terms k m (Some f) scopes st) (scope_names e terms k m None scopes st)"
proof (induction scopes arbitrary: st)
  case (Cons scope scopes)
  obtain polls printed where st: "st = (polls, printed)" by (cases st)
  let ?own = "scope_name scope \<noteq> [] \<and> k \<noteq> OnlyFile \<and> matchname e (scope_name scope) terms m"
  let ?st = "(polls + 1, if ?own then insert (abspath (s_cwd e) scope) printed else printed)"
  obtain ss st1 stopped where w: "walk_names e terms k m (Some f) (walkpaths e scope) ?st = (ss, st1, stopped)" by (metis prod_cases3)
  obtain ss0 st0 b where w0: "walk_names e terms k m None (walkpaths e scope) ?st = (ss0, st0, b)" by (metis prod_cases3)
  have r: "starts_with ss ss0" "stopped \<or> ss = ss0 \<and> st1 = st0" "\<not> b"
    using walk_names_cancel [where e = e and terms = terms and k = k and m = m and f = f and ws = "walkpaths e scope" and st = ?st] w w0 walk_names_not_stopped [OF w0] by auto
  show ?case
  proof (cases "f polls \<or> \<not> isdir e scope")
    case True
    then show ?thesis using Cons st by auto
  next
    case False
    have "starts_with (ss @ (if stopped then [] else scope_names e terms k m (Some f) scopes st1)) (ss0 @ scope_names e terms k m None scopes st0)"
      using r Cons.IH [of st0] by (auto simp: starts_with_iff)
    then show ?thesis using False st w w0 r(3) by (simp add: Let_def scope_name_def)
  qed
qed simp

text \<open>C34. Searching names finds what is there: the absolute paths of the records are exactly those of
  the scopes and of the entries below them, hidden names and tiers that cannot be listed apart, that have the
  kind and match the terms; a limit takes as many records from the front, and a search that is
  cancelled returns a front part as well.  In one scope no path is found twice.\<close>

theorem names_found:
  assumes "tidy (s_root e)" "\<exists>t \<in> set terms. t \<noteq> []"
    and found_def: "found = records (iterfindnames e terms scopes k m None)"
  shows "abs_of e ` set found = (\<Union>s \<in> set scopes. wanted e (filter (\<lambda>t. t \<noteq> []) terms) k m s)
    \<and> fst (findnames e terms scopes k m (Some (int n)) None) = take n found
    \<and> starts_with (iterfindnames e terms scopes k m (Some f)) (iterfindnames e terms scopes k m None)
    \<and> (length scopes = 1 \<longrightarrow> distinct (map (abs_of e) found))"
proof (intro conjI impI)
  let ?terms = "filter (\<lambda>t. t \<noteq> []) terms"
  have it: "iterfindnames e terms scopes k m c = scope_names e ?terms k m c scopes (0, {})" for c
    using assms(2) by (auto simp: iterfindnames_def filter_empty_conv)
  show "abs_of e ` set found = (\<Union>s \<in> set scopes. wanted e ?terms k m s)"
    using scope_names_found [OF assms(1), of ?terms k m scopes 0 "{}"] by (simp add: found_def it)
  show "fst (findnames e terms scopes k m (Some (int n)) None) = take n found"
    by (simp add: findnames_def found_def Let_def records_consume)
  show "starts_with (iterfindnames e terms scopes k m (Some f)) (iterfindnames e terms scopes k m None)"
    unfolding it by (rule scope_names_cancel)
  assume "length scopes = 1"
  then obtain scope where scope: "scopes = [scope]" by (cases scopes) auto
  let ?st = "\<lambda>own. (1, if own then {abspath (s_cwd e) scope} else {})"
  obtain ss st b where w: "walk_names e ?terms k m None (walkpaths e scope)
      (?st (scope_name scope \<noteq> [] \<and> k \<noteq> OnlyFile \<and> matchname e (scope_name scope) ?terms m)) = (ss, st, b)" by (metis prod_cases3)
  obtain polls printed where st: "st = (polls, printed)" by (cases st)
  note f = walk_names_parts [OF w [unfolded st]]
  show "distinct (map (abs_of e) found)"
  proof (cases "isdir e scope")
    case False
    then show ?thesis unfolding found_def it unfolding scope by simp
  next
    case True
    then have "found = (if scope_name scope \<noteq> [] \<and> k \<noteq> OnlyFile \<and> matchname e (scope_name scope) ?terms m then [(scope, True)] else []) @ records ss"
      unfolding found_def it unfolding scope using w by (simp add: scope_name_def Let_def)
    then show ?thesis using f(3,4) by (auto split: if_splits)
  qed
qed

section \<open>Lines\<close>

fun line_hits :: "senv \<Rightarrow> pystr list \<Rightarrow> pystr \<Rightarrow> mode \<Rightarrow> nat \<Rightarrow> pystr list \<Rightarrow> out list" where
  "line_hits e terms path m n [] = []"
| "line_hits e terms path m n (l # ls) =
     (if matchline e l terms m then [Hit path n (rstrip py_isspace l)] else []) @ line_hits e terms path m (n + 1) ls"

text \<open>The lines of a file that match; a file that is too large, looks binary or cannot be opened has none,
  and neither has one whose path cannot be printed.\<close>

definition file_hits :: "senv \<Rightarrow> pystr list \<Rightarrow> mode \<Rightarrow> pystr \<Rightarrow> out list" where
  "file_hits e terms m path = (case node_at e path of
     Some (FFile ok bs) \<Rightarrow>
       if ok \<and> length bs \<le> MAXTEXTSIZE \<and> 0 \<notin> set (take 4096 bs) \<and> \<not> list_ex is_surrogate path then line_hits e terms path m 1 (stream_lines bs) else []
   | _ \<Rightarrow> [])"

definition walk_hits :: "senv \<Rightarrow> pystr list \<Rightarrow> mode \<Rightarrow> walked list \<Rightarrow> out list" where
  "walk_hits e terms m ws = concat (map (\<lambda>w. case w of Entry p False \<Rightarrow> file_hits e terms m p | _ \<Rightarrow> []) ws)"

fun is_hit :: "out \<Rightarrow> bool" where
  "is_hit (Hit p n l) = True"
| "is_hit _ = False"

lemma walk_hits_simps [simp]:
  "walk_hits e terms m [] = []" "walk_hits e terms m (Denied p # ws) = walk_hits e terms m ws"
  "walk_hits e terms m (Entry p tier # ws) = (if tier then [] else file_hits e terms m p) @ walk_hits e terms m ws"
  by (simp_all add: walk_hits_def)

text \<open>Output that adds the first of the given hits, as far as the limit lets it.\<close>

definition adds :: "counts \<Rightarrow> out list \<Rightarrow> out list \<Rightarrow> counts \<Rightarrow> bool" where
  "adds c hits outs c' \<longleftrightarrow> filter is_hit outs = take (MAXRESULTS - matches c) hits
     \<and> matches c' = matches c + min (MAXRESULTS - matches c) (length hits) \<and> (limited c' \<longrightarrow> MAXRESULTS \<le> matches c')"

lemma search_lines_adds:
  "search_lines e terms path m n ls c = (outs, c') \<Longrightarrow> \<not> limited c \<Longrightarrow> \<not> list_ex is_surrogate path \<Longrightarrow> adds c (line_hits e terms path m n ls) outs c'"
proof (induction e terms path m n ls c arbitrary: outs rule: search_lines.induct)
  case (2 e terms path m n l ls c)
  show ?case
  proof (cases "MAXRESULTS \<le> matches c \<or> \<not> matchline e l terms m")
    case True
    then show ?thesis using 2 by (auto simp: adds_def split: if_splits)
  next
    case False
    then obtain outs1 where o: "search_lines e terms path m (n + 1) ls (c\<lparr>matches := matches c + 1\<rparr>) = (outs1, c')"
      "outs = Hit path n (rstrip py_isspace l) # outs1"
      using "2.prems"(1,3) by (auto split: prod.splits)
    have "adds (c\<lparr>matches := matches c + 1\<rparr>) (line_hits e terms path m (n + 1) ls) outs1 c'"
      using "2.IH"(1) [OF _ _ _ o(1)] False "2.prems"(2,3) by simp
    moreover have "MAXRESULTS - matches c = Suc (MAXRESULTS - (matches c + 1))" using False by auto
    ultimately show ?thesis using False o(2) by (auto simp: adds_def)
  qed
qed (auto simp: adds_def)

lemma search_lines_unprintable:
  "search_lines e terms path m n ls c = (outs, c') \<Longrightarrow> \<not> limited c \<Longrightarrow> list_ex is_surrogate path \<Longrightarrow> adds c [] outs c'"
  by (induction e terms path m n ls c arbitrary: outs rule: search_lines.induct) (auto simp: adds_def split: if_splits)

lemma searchfile_adds:
  assumes "searchfile e terms path m c = (outs, c')" "\<not> limited c"
  shows "adds c (file_hits e terms m path) outs c'"
proof -
  have l: "adds c (if list_ex is_surrogate path then [] else line_hits e terms path m 1 ls) outs c'"
    if "search_lines e terms path m 1 ls (c\<lparr>files := files c + 1\<rparr>) = (outs, c')" for ls
    using search_lines_adds [OF that] search_lines_unprintable [OF that] assms(2) by (auto simp: adds_def)
  show ?thesis
  proof (cases "\<exists>bs. node_at e path = Some (FFile True bs) \<and> length bs \<le> MAXTEXTSIZE \<and> 0 \<notin> set (take 4096 bs)")
    case True
    then obtain bs where bs: "node_at e path = Some (FFile True bs)" "length bs \<le> MAXTEXTSIZE" "0 \<notin> set (take 4096 bs)" by blast
    then show ?thesis using l [of "stream_lines bs"] assms(1) by (simp add: searchfile_def file_hits_def split: if_splits)
  next
    case False
    then show ?thesis
      using assms unfolding searchfile_def file_hits_def
      by (auto simp: adds_def not_less split: option.splits fnode.splits if_splits)
  qed
qed

lemma search_walk_adds:
  "search_walk e terms m ws c = (outs, c') \<Longrightarrow> \<not> limited c \<Longrightarrow> adds c (walk_hits e terms m ws) outs c'"
proof (induction e terms m ws c arbitrary: outs rule: search_walk.induct)
  case (3 e terms m p tier ws c)
  let ?h = "if tier then [] else file_hits e terms m p"
  obtain outs1 c1 where o: "(if tier then ([], c) else searchfile e terms p m c) = (outs1, c1)" by (metis prod.exhaust)
  have a: "adds c ?h outs1 c1"
    using o searchfile_adds [of e terms p m c outs1 c1] "3.prems"(2) by (auto simp: adds_def split: if_splits)
  show ?case
  proof (cases "limited c1")
    case True
    then have r: "outs = outs1" "c' = c1" using "3.prems"(1) o by auto
    have "MAXRESULTS - matches c \<le> length ?h" using a True by (auto simp: adds_def min_def split: if_splits)
    then show ?thesis using a r by (auto simp: adds_def)
  next
    case False
    obtain outs2 where o2: "search_walk e terms m ws c1 = (outs2, c')" "outs = outs1 @ outs2"
      using "3.prems"(1) o False by (auto split: prod.splits)
    have "adds c1 (walk_hits e terms m ws) outs2 c'" using "3.IH" [OF o [symmetric] False o2(1) False] .
    then show ?thesis using a o2(2) unfolding adds_def by (auto simp: min_def)
  qed
qed (auto simp: adds_def)

text \<open>C35. A content search prints, in the order of the walk, the matching lines of every text file that can be
  read and whose path can be printed, up to two thousand of them, and reports how many it printed.\<close>

theorem content_lines:
  assumes "terms \<noteq> []" "isfile e target \<or> isdir e target"
    and "hits = (if isfile e target then file_hits e terms m target else walk_hits e terms m (walkpaths e target))"
  shows "\<exists>outs. searchcontent e terms target m = (0, outs) \<and> filter is_hit outs = take MAXRESULTS hits
    \<and> (\<exists>n. Matches (length (take MAXRESULTS hits)) n \<in> set outs)"
proof -
  obtain outs c where run: "(if isfile e target then searchfile e terms target m no_counts
      else search_walk e terms m (walkpaths e target) no_counts) = (outs, c)" by (metis prod.exhaust)
  have start: "\<not> limited no_counts" "matches no_counts = 0" by (simp_all add: no_counts_def)
  have "adds no_counts hits outs c"
    using run searchfile_adds [OF _ start(1)] search_walk_adds [OF _ start(1)] unfolding assms(3) by (metis (full_types))
  then have "filter is_hit outs = take MAXRESULTS hits" "matches c = length (take MAXRESULTS hits)"
    by (simp_all add: adds_def start(2) min.commute)
  moreover have "searchcontent e terms target m = (0, outs @ content_summary c)"
    using run assms(1,2) by (auto simp: searchcontent_def split: if_splits)
  moreover have "filter is_hit (content_summary c) = []" "Matches (matches c) (files c) \<in> set (content_summary c)"
    by (simp_all add: content_summary_def)
  ultimately show ?thesis by auto
qed

section \<open>Examples\<close>

text \<open>\<open>/src/main.py\<close>, \<open>/src/.git/x.py\<close> and \<open>/notes\<close>, in a system without letters to fold.\<close>

definition demo_senv :: senv where
  "demo_senv = \<lparr>s_root = FTier True
      [(cps ''src'', FTier True [(cps ''main.py'', FFile True (cps ''a'' @ [10] @ cps ''b'')), (cps ''.git'', FTier True [(cps ''x.py'', FFile True [])])]),
       (cps ''notes'', FFile True [])],
     s_cwd = [], s_lower = (\<lambda>s. s), s_fold = (\<lambda>s. s), SHOWHIDDEN = False\<rparr>"

theorem wildcard_is_glob_witness:
  "globs (cps ''*.p?'') (cps ''main.py'') \<and> \<not> globs (cps ''*.p?'') (cps ''main_py'')"
proof -
  have "termmatch demo_senv (cps ''main.py'') (cps ''*.p?'') False True" "\<not> termmatch demo_senv (cps ''main_py'') (cps ''*.p?'') False True"
    by (simp_all add: termmatch_def wildcard_atoms wild_atom_def demo_senv_def)
  then show ?thesis
    using wildcard_is_glob [of demo_senv "cps ''main.py''" "cps ''*.p?''"] wildcard_is_glob [of demo_senv "cps ''main_py''" "cps ''*.p?''"]
    by (simp add: demo_senv_def)
qed

lemma demo_found: "records (iterfindnames demo_senv [cps ''py''] [cps ''/src''] Both AnyOf None) = [(cps ''/src/main.py'', False)]"
  by code_simp

lemma demo_tidy: "tidy (s_root demo_senv)"
  by (simp add: demo_senv_def plain_part_def)

theorem names_found_witness:
  "(\<Union>s \<in> {cps ''/src''}. wanted demo_senv [cps ''py''] Both AnyOf s) = {[cps ''src'', cps ''main.py'']}
    \<and> fst (findnames demo_senv [cps ''py''] [cps ''/src''] Both AnyOf (Some 7) None) = [(cps ''/src/main.py'', False)]"
proof -
  have t: "\<exists>t \<in> set [cps ''py'']. t \<noteq> []" by simp
  have "abspath (s_cwd demo_senv) (cps ''/src/main.py'') = [cps ''src'', cps ''main.py'']" by (simp add: abspath_def demo_senv_def)
  then show ?thesis
    using names_found [OF demo_tidy t refl, of "[cps ''/src'']" Both AnyOf 7] unfolding demo_found by simp
qed

theorem content_lines_witness:
  "\<exists>outs. searchcontent demo_senv [cps ''b''] (cps ''/src/main.py'') AnyOf = (0, outs) \<and> filter is_hit outs = [Hit (cps ''/src/main.py'') 2 (cps ''b'')]"
proof -
  have f: "isfile demo_senv (cps ''/src/main.py'')" by code_simp
  have n: "node_at demo_senv (cps ''/src/main.py'') = Some (FFile True [97, 10, 98])" by code_simp
  have l: "line_hits demo_senv [cps ''b''] (cps ''/src/main.py'') AnyOf 1 (stream_lines [97, 10, 98]) = [Hit (cps ''/src/main.py'') 2 (cps ''b'')]"
    by code_simp
  have h: "file_hits demo_senv [cps ''b''] AnyOf (cps ''/src/main.py'') = [Hit (cps ''/src/main.py'') 2 (cps ''b'')]"
    unfolding file_hits_def n using l by (simp add: MAXTEXTSIZE_def) (simp add: is_surrogate_def)
  show ?thesis
    using content_lines [of "[cps ''b'']" demo_senv "cps ''/src/main.py''" "[Hit (cps ''/src/main.py'') 2 (cps ''b'')]" AnyOf] f h
    by (simp add: MAXRESULTS_def del: cps_Cons) blast
qed

text \<open>A scope is produced again when an earlier scope contains it.\<close>

lemma scope_twice:
  "records (iterfindnames demo_senv [cps ''src''] [cps ''/'', cps ''/src''] Both AnyOf None) = [(cps ''/src'', True), (cps ''/src'', True)]"
  by code_simp

text \<open>A line feed at the end of a name is not seen.\<close>

lemma trailing_newline: "termmatch demo_senv (cps ''a.py'' @ [10]) (cps ''*.py'') False True"
  by code_simp

end
