(* ===== verification/Shell_Lines.thy ===== *)
theory Shell_Lines
  imports T1_Scan
begin

text \<open>
  How the shell reads a line (\<open>brick.py\<close>): \<open>splitchain\<close> and \<open>splitchainpos\<close> cut it at the
  semicolons outside quotes, \<open>shlex.split\<close> and \<open>str.split\<close> cut a part into words,
  \<open>matcheddirective\<close> finds the longest registered directive at its start, and \<open>directivebounds\<close>,
  \<open>tokenbounds\<close> and \<open>stripquotes\<close> tell the prompt where the words stand.  The registry of
  directives is the list of its names; \<open>str.casefold\<close> is a parameter.
\<close>

section \<open>Chains\<close>

text \<open>The variables of \<open>splitchain\<close>.\<close>

record chain =
  ch_out :: "pystr list"
  ch_buf :: pystr
  ch_single :: bool
  ch_double :: bool
  ch_escape :: bool

definition chain_start :: chain where
  "chain_start = \<lparr>ch_out = [], ch_buf = [], ch_single = False, ch_double = False, ch_escape = False\<rparr>"

definition chain_flush :: "chain \<Rightarrow> pystr list" where
  "chain_flush c = (let seg = strip (ch_buf c) in if seg \<noteq> [] then ch_out c @ [seg] else ch_out c)"

definition chain_step :: "cp \<Rightarrow> chain \<Rightarrow> chain" where
  "chain_step ch c =
     (if ch_escape c then c\<lparr>ch_buf := ch_buf c @ [ch], ch_escape := False\<rparr>
      else if ch = 92 then c\<lparr>ch_buf := ch_buf c @ [ch], ch_escape := True\<rparr>
      else if ch = 39 \<and> \<not> ch_double c then c\<lparr>ch_single := \<not> ch_single c, ch_buf := ch_buf c @ [ch]\<rparr>
      else if ch = 34 \<and> \<not> ch_single c then c\<lparr>ch_double := \<not> ch_double c, ch_buf := ch_buf c @ [ch]\<rparr>
      else if ch = 59 \<and> \<not> ch_single c \<and> \<not> ch_double c then c\<lparr>ch_out := chain_flush c, ch_buf := []\<rparr>
      else c\<lparr>ch_buf := ch_buf c @ [ch]\<rparr>)"

definition splitchain :: "pystr \<Rightarrow> pystr list" where
  "splitchain line = chain_flush (fold chain_step line chain_start)"

text \<open>The variables of \<open>splitchainpos\<close>: the parts are kept as they stand, with where they start.\<close>

record chainpos =
  cp_out :: "(pystr \<times> nat) list"
  cp_buf :: pystr
  cp_segstart :: nat
  cp_single :: bool
  cp_double :: bool
  cp_escape :: bool
  cp_i :: nat

definition chainpos_start :: chainpos where
  "chainpos_start = \<lparr>cp_out = [], cp_buf = [], cp_segstart = 0, cp_single = False, cp_double = False, cp_escape = False, cp_i = 0\<rparr>"

definition chainpos_flush :: "chainpos \<Rightarrow> (pystr \<times> nat) list" where
  "chainpos_flush c = (if strip (cp_buf c) \<noteq> [] then cp_out c @ [(cp_buf c, cp_segstart c)] else cp_out c)"

definition chainpos_step :: "cp \<Rightarrow> chainpos \<Rightarrow> chainpos" where
  "chainpos_step ch c =
     (if cp_escape c then c\<lparr>cp_buf := cp_buf c @ [ch], cp_escape := False, cp_i := cp_i c + 1\<rparr>
      else if ch = 92 then c\<lparr>cp_buf := cp_buf c @ [ch], cp_escape := True, cp_i := cp_i c + 1\<rparr>
      else if ch = 39 \<and> \<not> cp_double c
        then c\<lparr>cp_single := \<not> cp_single c, cp_buf := cp_buf c @ [ch], cp_i := cp_i c + 1\<rparr>
      else if ch = 34 \<and> \<not> cp_single c
        then c\<lparr>cp_double := \<not> cp_double c, cp_buf := cp_buf c @ [ch], cp_i := cp_i c + 1\<rparr>
      else if ch = 59 \<and> \<not> cp_single c \<and> \<not> cp_double c
        then c\<lparr>cp_out := chainpos_flush c, cp_buf := [], cp_segstart := cp_i c + 1, cp_i := cp_i c + 1\<rparr>
      else c\<lparr>cp_buf := cp_buf c @ [ch], cp_i := cp_i c + 1\<rparr>)"

definition splitchainpos :: "pystr \<Rightarrow> (pystr \<times> nat) list" where
  "splitchainpos line = chainpos_flush (fold chainpos_step line chainpos_start)"

section \<open>Words\<close>

text \<open>\<open>shlex.split\<close>: between words, inside one, inside a quotation, and after a backslash (with the
  state to go back to).  \<open>quoted\<close> tells that the word is there even when it is empty.\<close>

datatype lexstate = Between | Inside | Quote cp | Escaped lexstate

definition is_shlex_space :: "cp \<Rightarrow> bool" where
  "is_shlex_space c \<longleftrightarrow> c \<in> {32, 9, 13, 10}"

fun shlex_from :: "lexstate \<Rightarrow> pystr \<Rightarrow> bool \<Rightarrow> pystr \<Rightarrow> pystr list res" where
  "shlex_from (Quote q) token quoted [] = Inl ValueError"
| "shlex_from (Escaped st) token quoted [] = Inl ValueError"
| "shlex_from st token quoted [] = Inr (if token \<noteq> [] \<or> quoted then [token] else [])"
| "shlex_from (Quote q) token quoted (c # cs) =
     (if c = q then shlex_from Inside token True cs
      else if c = 92 \<and> q = 34 then shlex_from (Escaped (Quote q)) token True cs
      else shlex_from (Quote q) (token @ [c]) True cs)"
| "shlex_from (Escaped st) token quoted (c # cs) =
     shlex_from st (token @ (case st of Quote q \<Rightarrow> if c \<noteq> 92 \<and> c \<noteq> q then [92, c] else [c] | _ \<Rightarrow> [c])) quoted cs"
| "shlex_from st token quoted (c # cs) =
     (if is_shlex_space c
        then if token \<noteq> [] \<or> quoted then rbind (shlex_from Between [] False cs) (\<lambda>ws. Inr (token # ws))
          else shlex_from Between token quoted cs
      else if c = 92 then shlex_from (Escaped Inside) token quoted cs
      else if c = 39 \<or> c = 34 then shlex_from (Quote c) token quoted cs
      else shlex_from Inside (token @ [c]) quoted cs)"

definition shlex_split :: "pystr \<Rightarrow> pystr list res" where
  "shlex_split s = shlex_from Between [] False s"

text \<open>\<open>str.split()\<close>.\<close>

fun words_from :: "pystr \<Rightarrow> pystr \<Rightarrow> pystr list" where
  "words_from w [] = (if w = [] then [] else [w])"
| "words_from w (c # cs) =
     (if py_isspace c then (if w = [] then words_from [] cs else w # words_from [] cs) else words_from (w @ [c]) cs)"

definition words :: "pystr \<Rightarrow> pystr list" where
  "words s = words_from [] s"

definition line_parts :: "pystr \<Rightarrow> pystr list" where
  "line_parts line = (case shlex_split (strip line) of Inr parts \<Rightarrow> parts | Inl _ \<Rightarrow> words (strip line))"

section \<open>Directives\<close>

definition prefix_name :: "(pystr \<Rightarrow> pystr) \<Rightarrow> pystr list \<Rightarrow> nat \<Rightarrow> pystr" where
  "prefix_name fold_case parts count = fold_case (join_with 32 (take count parts))"

fun matched_from :: "(pystr \<Rightarrow> pystr) \<Rightarrow> pystr list \<Rightarrow> pystr list \<Rightarrow> nat \<Rightarrow> pystr option \<times> nat" where
  "matched_from fold_case names parts 0 = (None, 0)"
| "matched_from fold_case names parts (Suc k) =
     (let candidate = prefix_name fold_case parts (Suc k) in
      if candidate \<in> set names then (Some candidate, Suc k) else matched_from fold_case names parts k)"

definition matcheddirective :: "(pystr \<Rightarrow> pystr) \<Rightarrow> pystr list \<Rightarrow> pystr list \<Rightarrow> pystr option \<times> nat" where
  "matcheddirective fold_case names parts = matched_from fold_case names parts (length parts)"

section \<open>Where the words of the prompt stand\<close>

function word_spans :: "pystr \<Rightarrow> nat \<Rightarrow> (pystr \<times> nat) list" where
  "word_spans s i =
     (if i < length s then
        (let j = skip_while (\<lambda>c. c \<noteq> 32) s i;
             k = skip_while (\<lambda>c. c = 32) s j
         in (substring s i j, j) # word_spans s k)
      else [])"
  by pat_completeness auto
termination
proof (relation "measure (\<lambda>(s, i). length s - i)", goal_cases)
  case (2 s i j k)
  have "i < k"
  proof (cases "s ! i = 32")
    case True
    then show ?thesis using 2 skip_while_stop [of i s "\<lambda>c. c \<noteq> 32"] skip_while_go [of i s "\<lambda>c. c = 32"] by simp
  next
    case False
    then show ?thesis
      using 2 skip_while_go [of i s "\<lambda>c. c \<noteq> 32"] skip_while_ge [of j "\<lambda>c. c = 32" s] by simp
  qed
  then show ?case using 2 by simp
qed simp

declare word_spans.simps [simp del]

definition directivebounds :: "(pystr \<Rightarrow> pystr) \<Rightarrow> pystr list \<Rightarrow> pystr \<Rightarrow> (nat \<times> nat) option" where
  "directivebounds fold_case names s =
     (let start = skip_while (\<lambda>c. c = 32) s 0 in
      if length s \<le> start then None
      else
        (let spans = word_spans s start in
         case matcheddirective fold_case names (map fst spans) of
           (Some _, count) \<Rightarrow> if 0 < count then Some (start, snd (spans ! (count - 1))) else None
         | (None, _) \<Rightarrow> None))"

definition directiveinfo :: "(pystr \<Rightarrow> pystr) \<Rightarrow> pystr list \<Rightarrow> pystr \<Rightarrow> (pystr \<times> nat \<times> nat) option" where
  "directiveinfo fold_case names s = (case directivebounds fold_case names s of
     None \<Rightarrow> None | Some (b0, b1) \<Rightarrow> Some (substring s b0 b1, b0, b1))"

text \<open>The end of the token that starts at \<open>i\<close>: a quotation up to its closing quote or the end of the
  line, anything else up to the next space.\<close>

definition token_end :: "pystr \<Rightarrow> nat \<Rightarrow> nat" where
  "token_end s i =
     (if s ! i = 39 \<or> s ! i = 34 then
        (let j = skip_while (\<lambda>c. c \<noteq> s ! i) s (i + 1) in if j < length s \<and> s ! j = s ! i then j + 1 else j)
      else skip_while (\<lambda>c. c \<noteq> 32) s i)"

lemma token_end_gt: "i < length s \<Longrightarrow> s ! i \<noteq> 32 \<Longrightarrow> i < token_end s i"
  using skip_while_ge [of "i + 1" "\<lambda>c. c \<noteq> s ! i" s] skip_while_go [of i s "\<lambda>c. c \<noteq> 32"]
  by (auto simp: token_end_def Let_def)

function tokenbounds_from :: "pystr \<Rightarrow> nat \<Rightarrow> (pystr \<times> nat \<times> nat) list" where
  "tokenbounds_from s i =
     (let start = skip_while (\<lambda>c. c = 32) s i in
      if length s \<le> start then []
      else (let stop = token_end s start in (substring s start stop, start, stop) # tokenbounds_from s stop))"
  by pat_completeness auto
termination
proof (relation "measure (\<lambda>(s, i). length s - i)", goal_cases)
  case (2 s i start stop)
  have "start < stop" using 2 skip_while_at [of "\<lambda>c. c = 32" s i] token_end_gt [of start s] by simp
  then show ?case using 2 skip_while_ge [of i "\<lambda>c. c = 32" s] by simp
qed simp

declare tokenbounds_from.simps [simp del]

definition tokenbounds :: "pystr \<Rightarrow> (pystr \<times> nat \<times> nat) list" where
  "tokenbounds s = tokenbounds_from s 0"

definition stripquotes :: "pystr \<Rightarrow> pystr" where
  "stripquotes tok =
     (if 2 \<le> length tok \<and> ((hd tok = 34 \<and> last tok = 34) \<or> (hd tok = 39 \<and> last tok = 39))
      then butlast (tl tok) else tok)"

definition joinparts :: "pystr list \<Rightarrow> pystr" where
  "joinparts parts = join_with 32 parts"

end
