(* ===== verification/Shell_State.thy ===== *)
theory Shell_State
  imports T1_Files Shell_Lines
begin

text \<open>
  The state of the shell (\<open>brick.py\<close>) and what its directives are made of: the globals a directive
  reads and writes, output through \<open>guiprint\<close>, and tests of paths.  Python's \<open>str.lower\<close>,
  \<open>str.casefold\<close>, the text of an exception and of a value other than a string, number or truth value
  are parameters, as are what \<open>sys.stdin\<close> and \<open>input\<close> give and how a
  time is shown.
\<close>

section \<open>State and environment\<close>

datatype colour = TEXTCOLOUR | ERRORCOLOUR | NOCOLOUR

text \<open>An entry of \<open>DRIVES\<close>.\<close>

record drive =
  dr_number :: int
  dr_root :: pystr
  dr_label :: pystr
  dr_removable :: bool
  dr_read_only :: bool
  dr_filesystem :: pystr
  dr_source :: pystr
  dr_device :: pystr
  dr_uuid :: pystr

type_synonym dict = "(pystr, json) fmap"

record senv =
  se_base :: renv
  se_lower :: "pystr \<Rightarrow> pystr"
  se_casefold :: "pystr \<Rightarrow> pystr"
  se_str :: "json \<Rightarrow> pystr"
  se_error :: "pyerr \<Rightarrow> pystr"
  se_stdin :: "pystr res"
  se_input :: "pystr res"
  se_stamp :: "int \<Rightarrow> pystr"

record shell =
  sh_bin :: rbin
  sh_scroll :: "(pystr \<times> colour) list"
  sh_stdout :: pystr
  sh_stderr :: pystr
  sh_active :: bool
  sh_failed :: bool
  sh_headless :: bool
  sh_last :: "dict option"
  sh_drives :: "(int \<times> drive) list"
  sh_scan :: rat
  sh_drive :: int

type_synonym 'a sio = "(senv, shell, 'a) prog"

definition on_files :: "'a rio \<Rightarrow> 'a sio" where
  "on_files m e w = (case m (se_base e) (sh_bin w) of (r, b) \<Rightarrow> (r, w\<lparr>sh_bin := b\<rparr>))"

abbreviation s_cwd :: "senv \<Rightarrow> rpath" where
  "s_cwd e \<equiv> r_cwd (se_base e)"

abbreviation sh_fs :: "shell \<Rightarrow> store" where
  "sh_fs w \<equiv> b_fs (sh_bin w)"

definition getting :: "(senv \<Rightarrow> shell \<Rightarrow> 'a) \<Rightarrow> 'a sio" where
  "getting f e w = (Inr (f e w), w)"

definition environment :: "senv sio" where
  "environment = getting (\<lambda>e w. e)"

definition setting :: "(shell \<Rightarrow> shell) \<Rightarrow> unit sio" where
  "setting f e w = (Inr (), f w)"

text \<open>\<open>try: m except Exception as e: h e\<close>.\<close>

abbreviation catch :: "'a sio \<Rightarrow> (pyerr \<Rightarrow> 'a sio) \<Rightarrow> 'a sio" where
  "catch m h \<equiv> except_do m is_exception h"

text \<open>A loop that stops at the first element with an answer.\<close>

fun first_of :: "'a list \<Rightarrow> ('a \<Rightarrow> 'b option sio) \<Rightarrow> 'b option sio" where
  "first_of [] f = ret None"
| "first_of (x # xs) f = andthen (f x) (\<lambda>r. if r = None then first_of xs f else ret r)"

fun map_prog :: "('a \<Rightarrow> 'b sio) \<Rightarrow> 'a list \<Rightarrow> 'b list sio" where
  "map_prog f [] = ret []"
| "map_prog f (x # xs) = andthen (f x) (\<lambda>y. andthen (map_prog f xs) (\<lambda>ys. ret (y # ys)))"

section \<open>Values\<close>

definition py_truth :: "json \<Rightarrow> bool" where
  "py_truth v = (case v of
     JNull \<Rightarrow> False | JBool b \<Rightarrow> b | JInt i \<Rightarrow> i \<noteq> 0 | JFloat x \<Rightarrow> x \<noteq> 0 | JStr s \<Rightarrow> s \<noteq> []
   | JList xs \<Rightarrow> xs \<noteq> [] | JObj m \<Rightarrow> m \<noteq> fmempty)"

definition py_str :: "senv \<Rightarrow> json \<Rightarrow> pystr" where
  "py_str e v = (case v of
     JNull \<Rightarrow> cps ''None'' | JBool b \<Rightarrow> if b then cps ''True'' else cps ''False'' | JInt i \<Rightarrow> dec_int i | JStr s \<Rightarrow> s
   | _ \<Rightarrow> se_str e v)"

definition dict_get :: "dict \<Rightarrow> pystr \<Rightarrow> json \<Rightarrow> json" where
  "dict_get m k dflt = (case fmlookup m k of None \<Rightarrow> dflt | Some v \<Rightarrow> v)"

text \<open>\<open>d[k] = v\<close> on a dictionary in the order of insertion.\<close>

fun dict_put :: "'k \<Rightarrow> 'v \<Rightarrow> ('k \<times> 'v) list \<Rightarrow> ('k \<times> 'v) list" where
  "dict_put k v [] = [(k, v)]"
| "dict_put k v ((k', v') # kvs) = (if k = k' then (k, v) # kvs else (k', v') # dict_put k v kvs)"

section \<open>Output\<close>

definition SCROLL_MAX :: nat where "SCROLL_MAX = 5000"

definition appendline :: "pystr \<Rightarrow> colour \<Rightarrow> shell \<Rightarrow> shell" where
  "appendline t c w = (let xs = sh_scroll w @ [(t, c)] in w\<lparr>sh_scroll := drop (length xs - SCROLL_MAX) xs\<rparr>)"

text \<open>\<open>str.expandtabs(4)\<close>.\<close>

fun expandtabs :: "nat \<Rightarrow> pystr \<Rightarrow> pystr" where
  "expandtabs col [] = []"
| "expandtabs col (c # cs) =
     (if c = 9 then replicate (4 - col mod 4) 32 @ expandtabs 0 cs
      else c # expandtabs (if c = 10 \<or> c = 13 then 0 else col + 1) cs)"

definition print_lines :: "pystr \<Rightarrow> pystr list" where
  "print_lines t =
     (let ls = split_on 10 (newlines (t @ [10]))
      in map (expandtabs 0) (if last ls = [] then butlast ls else ls))"

definition guiprint :: "pystr \<Rightarrow> colour \<Rightarrow> unit sio" where
  "guiprint t c = setting (\<lambda>w.
     (let w' = (if sh_active w \<and> c = ERRORCOLOUR then w\<lparr>sh_failed := True\<rparr> else w)
      in fold (\<lambda>l. appendline l c) (print_lines t) w'))"

text \<open>\<open>guiprint(f'... {e}', colour=ERRORCOLOUR)\<close>.\<close>

definition guierror :: "pystr \<Rightarrow> pyerr \<Rightarrow> unit sio" where
  "guierror t err = andthen (getting (\<lambda>e w. t @ se_error e err)) (\<lambda>t. guiprint t ERRORCOLOUR)"

section \<open>Paths\<close>

text \<open>A path with a zero in it names nothing: \<open>os.path.exists\<close> and its like say no.\<close>

definition has_nul :: "rpath \<Rightarrow> bool" where
  "has_nul p \<longleftrightarrow> list_ex (\<lambda>c. 0 \<in> set c) p"

definition INVALIDPATH :: rpath where
  "INVALIDPATH = [[0]]"

definition path_exists :: "rpath \<Rightarrow> bool sio" where
  "path_exists p = getting (\<lambda>e w. \<not> has_nul p \<and> found (sh_fs w) p)"

definition path_isdir :: "rpath \<Rightarrow> bool sio" where
  "path_isdir p = getting (\<lambda>e w. \<not> has_nul p \<and> map_of (sh_fs w) p = Some Tier)"

definition path_isfile :: "rpath \<Rightarrow> bool sio" where
  "path_isfile p = getting (\<lambda>e w. \<not> has_nul p \<and> (case map_of (sh_fs w) p of Some (File _) \<Rightarrow> True | _ \<Rightarrow> False))"

end
