(* ===== verification/Shell_Drives.thy ===== *)
theory Shell_Drives
  imports Shell_State "HOL-Library.List_Lexorder"
begin

text \<open>
  Drives and locations (\<open>brick.py\<close>).  A location such as \<open>2/music\<close> is a drive's number and a path
  below its root.  \<open>loaddrives\<close> finds the drives, at most every two seconds; \<open>formatlocation\<close> shows
  a path as a location and \<open>resolvepath\<close> reads one.  Link files name another path;
  \<open>resolvearraylink\<close> follows a chain of them.
\<close>

section \<open>Paths as text\<close>

definition unslash :: "pystr \<Rightarrow> pystr" where
  "unslash t = map (\<lambda>c. if c = 92 then 47 else c) t"

definition physicalnormalize :: "rpath \<Rightarrow> pystr \<Rightarrow> pystr" where
  "physicalnormalize cwd t = unslash (path_text (abspath cwd t))"

fun common_prefix :: "'a list \<Rightarrow> 'a list \<Rightarrow> 'a list" where
  "common_prefix (x # xs) (y # ys) = (if x = y then x # common_prefix xs ys else [])"
| "common_prefix _ _ = []"

text \<open>\<open>os.path.commonpath\<close> of two absolute paths and \<open>os.path.relpath\<close>.\<close>

definition path_comps :: "pystr \<Rightarrow> rpath" where
  "path_comps t = filter (\<lambda>c. c \<noteq> [] \<and> c \<noteq> [46]) (split_on 47 t)"

definition commonpath :: "pystr \<Rightarrow> pystr \<Rightarrow> pystr" where
  "commonpath a b = path_text (common_prefix (path_comps a) (path_comps b))"

definition relpath :: "rpath \<Rightarrow> pystr \<Rightarrow> pystr \<Rightarrow> pystr" where
  "relpath cwd t start =
     (let s = abspath cwd start; p = abspath cwd t; k = length (common_prefix s p);
          rel = replicate (length s - k) [46, 46] @ drop k p
      in if rel = [] then [46] else join_with 47 rel)"

definition isdir_text :: "rpath \<Rightarrow> pystr \<Rightarrow> store \<Rightarrow> bool" where
  "isdir_text cwd t s \<longleftrightarrow> 0 \<notin> set t \<and> map_of s (abspath cwd t) = Some Tier"

section \<open>Link files\<close>

definition LINKFILEHEADER :: bytes where "LINKFILEHEADER = cps ''T1OS link'' @ [10]"
definition LINKFILEVERSION :: int where "LINKFILEVERSION = 1"
definition LINKFILEMAXBYTES :: nat where "LINKFILEMAXBYTES = 16384"
definition LINKFILEMAXHOPS :: nat where "LINKFILEMAXHOPS = 16"

text \<open>A value equal to an integer: \<open>1.0\<close> and \<open>True\<close> are equal to \<open>1\<close>.\<close>

definition equals_int :: "json \<Rightarrow> int \<Rightarrow> bool" where
  "equals_int v n \<longleftrightarrow> (case v of JInt i \<Rightarrow> i = n | JBool b \<Rightarrow> (if b then 1 else 0) = n | JFloat x \<Rightarrow> x = of_int n | _ \<Rightarrow> False)"

definition link_payload :: "codec \<Rightarrow> bytes \<Rightarrow> pystr option" where
  "link_payload c raw =
     (if LINKFILEMAXBYTES < length raw \<or> \<not> starts_with LINKFILEHEADER raw then None
      else case utf8_decode_strict (drop (length LINKFILEHEADER) raw) of
          Inl _ \<Rightarrow> None
        | Inr t \<Rightarrow> (case c_loads c t of
            Some (JObj m) \<Rightarrow>
              if \<not> equals_int (dict_get m (cps ''version'') JNull) LINKFILEVERSION then None
              else (case dict_get m (cps ''target'') JNull of
                  JStr target \<Rightarrow> if target = [] \<or> 0 \<in> set target then None else Some target
                | _ \<Rightarrow> None)
          | _ \<Rightarrow> None))"

definition lstat_size :: "rpath \<Rightarrow> nat option rio" where
  "lstat_size p = rcall (\<lambda>s. (case map_of s p of
     None \<Rightarrow> Inl FileNotFoundError | Some Tier \<Rightarrow> Inr None | Some (File bs) \<Rightarrow> Inr (Some (length bs))))"

definition arraylinktarget :: "pystr \<Rightarrow> pystr option sio" where
  "arraylinktarget t = andthen environment (\<lambda>e.
     catch (andthen (on_files (lstat_size (abspath (s_cwd e) t))) (\<lambda>size. (case size of
         None \<Rightarrow> ret None
       | Some n \<Rightarrow>
           if n \<le> length LINKFILEHEADER \<or> LINKFILEMAXBYTES < n then ret None
           else andthen (on_files (read_file (abspath (s_cwd e) t))) (\<lambda>bs.
             ret (link_payload (r_codec (se_base e)) (take (LINKFILEMAXBYTES + 1) bs))))))
       (\<lambda>_. ret None))"

definition isarraylink :: "pystr \<Rightarrow> bool sio" where
  "isarraylink t = andthen (arraylinktarget t) (\<lambda>target. ret (target \<noteq> None))"

text \<open>The loop of \<open>resolvearraylink\<close>, with the hops that are left.\<close>

fun follow_links :: "nat \<Rightarrow> pystr list \<Rightarrow> pystr \<Rightarrow> (pystr + pystr) sio" where
  "follow_links 0 seen current =
     andthen (arraylinktarget current) (\<lambda>target.
       ret (if target \<noteq> None then Inl (cps ''link chain is too long'') else Inr current))"
| "follow_links (Suc n) seen current =
     andthen (arraylinktarget current) (\<lambda>target. (case target of
       None \<Rightarrow> ret (Inr current)
     | Some t \<Rightarrow>
         andthen (getting (\<lambda>e w. s_cwd e)) (\<lambda>cwd.
           (let key = physicalnormalize cwd current in
            if key \<in> set seen then ret (Inl (cps ''link target contains a loop''))
            else follow_links n (seen @ [key])
              (physicalnormalize cwd (if t \<noteq> [] \<and> hd t = 47 then t else join_path (dirname current) t))))))"

definition resolvearraylink :: "pystr \<Rightarrow> (pystr + pystr) sio" where
  "resolvearraylink t = andthen (getting (\<lambda>e w. physicalnormalize (s_cwd e) t)) (follow_links LINKFILEMAXHOPS [])"

definition followarraylink :: "pystr \<Rightarrow> pystr sio" where
  "followarraylink t =
     andthen (getting (\<lambda>e w. physicalnormalize (s_cwd e) t)) (\<lambda>original.
     andthen (resolvearraylink original) (\<lambda>r. (case r of
         Inl _ \<Rightarrow> raise OSError
       | Inr target \<Rightarrow>
           andthen (getting (\<lambda>e w. 0 \<notin> set target \<and> found (sh_fs w) (abspath (s_cwd e) target))) (\<lambda>there.
             if target \<noteq> original \<and> \<not> there then raise OSError else ret target))))"

section \<open>Finding the drives\<close>

definition DRIVESCANINTERVAL :: rat where "DRIVESCANINTERVAL = 2"
definition DRIVEBACKINGROOT :: pystr where "DRIVEBACKINGROOT = cps ''/.ephemeral/volumes''"
definition DRIVEMETADATAFILE :: rpath where
  "DRIVEMETADATAFILE = [cps ''.ephemeral'', cps ''drivers'', cps ''volumes.json'']"
definition DRIVESETTINGSFILE :: rpath where
  "DRIVESETTINGSFILE = [cps ''the one'', cps ''settings'', cps ''array'', cps ''settings.json'']"

definition first_drive :: drive where
  "first_drive = \<lparr>dr_number = 1, dr_root = [47], dr_label = cps ''t1os'', dr_removable = False, dr_read_only = False,
     dr_filesystem = [], dr_source = [], dr_device = [], dr_uuid = []\<rparr>"

text \<open>\<open>json.load\<close> of a file opened with \<open>errors='replace'\<close>.\<close>

definition load_json :: "rpath \<Rightarrow> json sio" where
  "load_json p = andthen environment (\<lambda>e. andthen (on_files (read_file p)) (\<lambda>bs.
     (case c_loads (r_codec (se_base e)) (newlines (utf8_decode bs)) of None \<Rightarrow> raise ValueError | Some v \<Rightarrow> ret v)))"

text \<open>The metadata by root; entries that are not objects are skipped, and a list of volumes that is not
  a list gives none.\<close>

definition volume_entries :: "json \<Rightarrow> dict list" where
  "volume_entries payload = (case payload of
     JObj m \<Rightarrow>
       if equals_int (dict_get m (cps ''format'') JNull) 1
       then (case dict_get m (cps ''volumes'') (JList []) of
           JList xs \<Rightarrow> concat (map (\<lambda>x. case x of JObj d \<Rightarrow> [d] | _ \<Rightarrow> []) xs)
         | _ \<Rightarrow> [])
       else []
   | _ \<Rightarrow> [])"

definition backed :: "pystr \<Rightarrow> bool" where
  "backed rt \<longleftrightarrow> rt = DRIVEBACKINGROOT \<or> starts_with (DRIVEBACKINGROOT @ [47]) rt"

definition volume_metadata :: "senv \<Rightarrow> json \<Rightarrow> (pystr \<times> dict) list" where
  "volume_metadata e payload =
     fold (\<lambda>d ms. (let rt = physicalnormalize (s_cwd e) (py_str e (dict_get d (cps ''root'') JNull)) in
         if backed rt then dict_put rt d ms else ms))
       (volume_entries payload) []"

definition assigned_root :: "pystr \<Rightarrow> pystr" where
  "assigned_root rt =
     (if rt = cps ''/drives'' then DRIVEBACKINGROOT
      else if starts_with (cps ''/drives/'') rt then DRIVEBACKINGROOT @ drop (length (cps ''/drives'')) rt
      else if rt = cps ''/volumes'' then DRIVEBACKINGROOT
      else if starts_with (cps ''/volumes/'') rt then DRIVEBACKINGROOT @ drop (length (cps ''/volumes'')) rt
      else rt)"

definition meta_of :: "(pystr \<times> dict) list \<Rightarrow> pystr \<Rightarrow> dict" where
  "meta_of ms rt = (case map_of ms rt of None \<Rightarrow> fmempty | Some d \<Rightarrow> d)"

text \<open>\<open>a or b or c or d\<close> for the label; \<open>shown\<close> is what the assignment says, when there is one.\<close>

definition make_drive :: "senv \<Rightarrow> dict \<Rightarrow> json \<Rightarrow> json \<Rightarrow> int \<Rightarrow> pystr \<Rightarrow> drive" where
  "make_drive e m shown removable number rt =
     (let label = dict_get m (cps ''label'') JNull; base = basename rt in
      \<lparr>dr_number = number, dr_root = rt,
       dr_label = (if py_truth label then py_str e label else if py_truth shown then py_str e shown
         else if base \<noteq> [] then base else cps ''drive '' @ dec_int number),
       dr_removable = py_truth (dict_get m (cps ''removable'') removable),
       dr_read_only = py_truth (dict_get m (cps ''read_only'') (JBool False)),
       dr_filesystem = py_str e (dict_get m (cps ''filesystem'') (JStr [])),
       dr_source = py_str e (dict_get m (cps ''source'') (JStr [])),
       dr_device = py_str e (dict_get m (cps ''device'') (JStr [])),
       dr_uuid = py_str e (dict_get m (cps ''uuid'') (JStr []))\<rparr>)"

type_synonym scan_state = "(int \<times> drive) list \<times> pystr list"

definition assign_drive :: "senv \<Rightarrow> store \<Rightarrow> (pystr \<times> dict) list \<Rightarrow> json \<Rightarrow> scan_state \<Rightarrow> scan_state" where
  "assign_drive e s ms entry st = (case entry of
     JObj d \<Rightarrow> (case py_int (r_codec (se_base e)) (dict_get d (cps ''number'') JNull) of
         Inl _ \<Rightarrow> st
       | Inr number \<Rightarrow>
           (let rt = assigned_root (physicalnormalize (s_cwd e) (py_str e (dict_get d (cps ''root'') JNull))) in
            if number \<le> 1 \<or> rt \<in> set (snd st) \<or> \<not> isdir_text (s_cwd e) rt s then st
            else (dict_put number
                (make_drive e (meta_of ms rt) (dict_get d (cps ''label'') JNull) (dict_get d (cps ''removable'') (JBool True))
                  number rt) (fst st),
              snd st @ [rt])))
   | _ \<Rightarrow> st)"

text \<open>\<open>os.listdir\<close> and \<open>os.path.ismount\<close>: a tier on another device than the tier above it.\<close>

definition listdir :: "rpath \<Rightarrow> pystr list rio" where
  "listdir p = rcall (\<lambda>s. (case map_of s p of
     None \<Rightarrow> Inl FileNotFoundError | Some (File _) \<Rightarrow> Inl OSError
   | Some Tier \<Rightarrow> Inr (remdups (map last (filter (\<lambda>q. q \<noteq> [] \<and> butlast q = p) (map fst s))))))"

definition ismount :: "renv \<Rightarrow> rpath \<Rightarrow> bool" where
  "ismount e p \<longleftrightarrow> p = [] \<or> r_device e p \<noteq> r_device e (butlast p)"

definition mounted_roots :: "senv \<Rightarrow> store \<Rightarrow> (pystr \<times> dict) list \<Rightarrow> pystr list \<Rightarrow> pystr list" where
  "mounted_roots e s ms names =
     filter (\<lambda>rt. isdir_text (s_cwd e) rt s \<and> (ismount (se_base e) (abspath (s_cwd e) rt) \<or> rt \<in> fst ` set ms))
       (map (\<lambda>name. physicalnormalize (s_cwd e) (join_path DRIVEBACKINGROOT name)) names)"

text \<open>The first free number from \<open>number\<close> on.\<close>

function free_number :: "(int \<times> drive) list \<Rightarrow> int \<Rightarrow> int" where
  "free_number ds number = (if number \<in> fst ` set ds then free_number ds (number + 1) else number)"
  by pat_completeness auto
termination
proof (relation "measure (\<lambda>(ds, number). card {k \<in> fst ` set ds. number \<le> k})", goal_cases)
  case (2 ds number)
  have "number \<in> {k \<in> fst ` set ds. number \<le> k} - {k \<in> fst ` set ds. number + 1 \<le> k}" using 2 by simp
  then have "{k \<in> fst ` set ds. number + 1 \<le> k} \<subset> {k \<in> fst ` set ds. number \<le> k}" by force
  then show ?case by (simp add: psubset_card_mono)
qed simp

declare free_number.simps [simp del]

fun add_drives :: "senv \<Rightarrow> store \<Rightarrow> (pystr \<times> dict) list \<Rightarrow> pystr list \<Rightarrow> int \<Rightarrow> scan_state \<Rightarrow> scan_state" where
  "add_drives e s ms [] number st = st"
| "add_drives e s ms (rt # roots) number st =
     (if rt \<in> set (snd st) \<or> \<not> isdir_text (s_cwd e) rt s then add_drives e s ms roots number st
      else (let n = free_number (fst st) number in
        add_drives e s ms roots (n + 1)
          (dict_put n (make_drive e (meta_of ms rt) JNull (JBool True) n rt) (fst st), snd st @ [rt])))"

section \<open>Drives and locations\<close>

definition drive_one :: "(int \<times> drive) list \<Rightarrow> drive" where
  "drive_one ds = (case map_of ds 1 of None \<Rightarrow> first_drive | Some d \<Rightarrow> d)"

definition driveforpath :: "rpath \<Rightarrow> (int \<times> drive) list \<Rightarrow> pystr \<Rightarrow> drive" where
  "driveforpath cwd ds t =
     (let physical = physicalnormalize cwd t in
      fst (fold (\<lambda>(_, d) (best, bestlen).
          (let rt = physicalnormalize cwd (dr_root d) in
           if unslash (commonpath physical rt) = rt \<and> bestlen \<le> length rt then (d, length rt) else (best, bestlen)))
        ds (drive_one ds, 1)))"

definition driverelpath :: "rpath \<Rightarrow> pystr \<Rightarrow> drive \<Rightarrow> pystr" where
  "driverelpath cwd t d =
     (let relative = unslash (relpath cwd (physicalnormalize cwd t) (physicalnormalize cwd (dr_root d))) in
      if relative \<in> {[], [46]} then [47]
      else if relative = [46, 46] \<or> starts_with [46, 46, 47] relative then [47]
      else 47 # lstrip (\<lambda>c. c = 47) relative)"

definition drivepath :: "rpath \<Rightarrow> (int \<times> drive) list \<Rightarrow> int \<Rightarrow> pystr \<Rightarrow> pystr option" where
  "drivepath cwd ds number relative = (case map_of ds number of
     None \<Rightarrow> None
   | Some d \<Rightarrow>
       (let rt = physicalnormalize cwd (dr_root d);
            rel = unslash (if relative = [] then [47] else relative);
            physical = physicalnormalize cwd (join_path rt (lstrip (\<lambda>c. c = 47) rel))
        in if unslash (commonpath physical rt) \<noteq> rt then None else Some physical))"

text \<open>The expression \<open>^([0-9]+)(?:/|$)(.*)$\<close> on a text without white space around it.\<close>

definition location_match :: "pystr \<Rightarrow> (int \<times> pystr) option" where
  "location_match t =
     (let ds = takeWhile is_digit t; rest = dropWhile is_digit t in
      if ds = [] then None
      else if rest = [] then Some (int (dec_val ds), [])
      else if hd rest = 47 \<and> 10 \<notin> set rest then Some (int (dec_val ds), tl rest) else None)"

definition read_location :: "rpath \<Rightarrow> (int \<times> drive) list \<Rightarrow> drive \<Rightarrow> pystr \<Rightarrow> int \<times> pystr option" where
  "read_location cwd ds current value =
     (let t = unslash (strip value) in
      case location_match t of
        Some (number, rest) \<Rightarrow> (number, drivepath cwd ds number (47 # lstrip (\<lambda>c. c = 47) rest))
      | None \<Rightarrow>
          if starts_with [47] t then
            (let physical = physicalnormalize cwd t in
             case find (\<lambda>(_, d). (let rt = physicalnormalize cwd (dr_root d) in
                 rt \<noteq> [47] \<and> (physical = rt \<or> starts_with (rt @ [47]) physical))) ds of
               Some (_, d) \<Rightarrow> (dr_number d, Some physical)
             | None \<Rightarrow> (dr_number current, drivepath cwd ds (dr_number current) t))
          else (dr_number current, drivepath cwd ds (dr_number current)
            (unslash (join_path (driverelpath cwd (path_text cwd) current) t))))"

definition scan_drives :: "rat \<Rightarrow> unit sio" where
  "scan_drives now = andthen environment (\<lambda>e.
     andthen (catch (load_json DRIVEMETADATAFILE) (\<lambda>_. ret JNull)) (\<lambda>payload.
     andthen (catch (load_json DRIVESETTINGSFILE) (\<lambda>_. ret JNull)) (\<lambda>settings.
     andthen (getting (\<lambda>e w. sh_fs w)) (\<lambda>s.
       (let ms = volume_metadata e payload;
            assignments = (case settings of
                JObj m \<Rightarrow> (case dict_get m (cps ''drive_assignments'') JNull of JList xs \<Rightarrow> xs | _ \<Rightarrow> [])
              | _ \<Rightarrow> []);
            st = fold (assign_drive e s ms) assignments ([(1, first_drive)], [[47]])
        in andthen (catch (on_files (listdir (abspath (s_cwd e) DRIVEBACKINGROOT))) (\<lambda>_. ret [])) (\<lambda>names.
             (let candidates = remdups (map fst ms @ mounted_roots e s ms names);
                  ds = fst (add_drives e s ms (sort_key (se_casefold e) candidates) 2 st)
              in setting (\<lambda>w. w\<lparr>sh_drives := ds, sh_scan := now,
                   sh_drive := dr_number (driveforpath (s_cwd e) ds (path_text (s_cwd e)))\<rparr>))))))))"

definition loaddrives :: "bool \<Rightarrow> bool sio" where
  "loaddrives force =
     andthen (on_files now_of) (\<lambda>now.
     andthen (getting (\<lambda>e w. \<not> force \<and> sh_drives w \<noteq> [] \<and> now - sh_scan w < DRIVESCANINTERVAL)) (\<lambda>fresh.
       if fresh then ret False
       else andthen (getting (\<lambda>e w. sh_drives w)) (\<lambda>old.
         andthen (scan_drives now) (\<lambda>_. getting (\<lambda>e w. set old \<noteq> set (sh_drives w))))))"

definition parselocation :: "pystr \<Rightarrow> int option \<Rightarrow> (int \<times> pystr option) sio" where
  "parselocation value currentdrive =
     andthen (loaddrives False) (\<lambda>_.
     getting (\<lambda>e w.
       (let ds = sh_drives w;
            current = (case currentdrive of
                None \<Rightarrow> driveforpath (s_cwd e) ds (path_text (s_cwd e))
              | Some n \<Rightarrow> (case map_of ds n of Some d \<Rightarrow> d | None \<Rightarrow> drive_one ds))
        in read_location (s_cwd e) ds current value)))"

definition formatlocation :: "pystr \<Rightarrow> pystr sio" where
  "formatlocation t =
     andthen (loaddrives False) (\<lambda>_.
     andthen (getting (\<lambda>e w. driveforpath (s_cwd e) (sh_drives w) t)) (\<lambda>d.
     andthen (setting (\<lambda>w. w\<lparr>sh_drive := dr_number d\<rparr>)) (\<lambda>_.
     getting (\<lambda>e w. dec_int (dr_number d) @ driverelpath (s_cwd e) t d))))"

definition resolvepath :: "pystr \<Rightarrow> pystr sio" where
  "resolvepath t = andthen (parselocation t None) (\<lambda>(number, p). (case p of None \<Rightarrow> raise ValueError | Some q \<Rightarrow> ret q))"

text \<open>\<open>os.path.abspath(resolvepath(t))\<close>.\<close>

definition located :: "pystr \<Rightarrow> rpath sio" where
  "located t = andthen (resolvepath t) (\<lambda>q. getting (\<lambda>e w. abspath (s_cwd e) q))"

end
