(* ===== verification/Shell_Paths.thy ===== *)
theory Shell_Paths
  imports Shell_Drives Rubbish
begin

text \<open>
  What the file directives of the shell share (\<open>brick.py\<close>): wildcards, the split of a directive's
  words into sources and destination, the permission check, and the transactions that copy or
  move several items and take back what they did when one fails.
\<close>

section \<open>Wildcards\<close>

definition haswild :: "pystr \<Rightarrow> bool" where
  "haswild t \<longleftrightarrow> 42 \<in> set t \<or> 63 \<in> set t \<or> 91 \<in> set t"

text \<open>\<open>fnmatch\<close>: the members of a class, with ranges, and where it closes; a bracket directly after the
  opening one or after \<open>!\<close> is a member, and a class that does not close is a bracket.\<close>

fun class_has :: "pystr \<Rightarrow> cp \<Rightarrow> bool" where
  "class_has [] x = False"
| "class_has (a # r) x =
     (if length r \<ge> 2 \<and> hd r = 45 then (a \<le> x \<and> x \<le> r ! 1) \<or> class_has (drop 2 r) x else x = a \<or> class_has r x)"

definition class_close :: "pystr \<Rightarrow> (pystr \<times> pystr) option" where
  "class_close t =
     (let lead = (if t \<noteq> [] \<and> hd t = 93 then 1 else 0);
          body = takeWhile (\<lambda>c. c \<noteq> 93) (drop lead t); rest = dropWhile (\<lambda>c. c \<noteq> 93) (drop lead t)
      in if rest = [] then None else Some (take lead t @ body, tl rest))"

definition class_split :: "pystr \<Rightarrow> (bool \<times> pystr \<times> pystr) option" where
  "class_split t =
     (let neg = (t \<noteq> [] \<and> hd t = 33) in
      case class_close (if neg then tl t else t) of None \<Rightarrow> None | Some (members, rest) \<Rightarrow> Some (neg, members, rest))"

lemma class_close_shorter:
  assumes "class_close u = Some (m, r)"
  shows "length r < length u"
proof -
  define v where "v = dropWhile (\<lambda>c. c \<noteq> 93) (drop (if u \<noteq> [] \<and> hd u = 93 then 1 else 0) u)"
  have "v \<noteq> []" "r = tl v" using assms unfolding class_close_def Let_def v_def [symmetric] by (simp_all split: if_splits)
  moreover have "length v \<le> length (drop (if u \<noteq> [] \<and> hd u = 93 then 1 else 0) u)" unfolding v_def by (rule length_dropWhile_le)
  ultimately show ?thesis by (cases v) auto
qed

lemma class_split_shorter:
  assumes "class_split t = Some (neg, members, rest)"
  shows "length rest < length t"
proof -
  have "class_close (if neg then tl t else t) = Some (members, rest)"
    using assms unfolding class_split_def Let_def by (auto split: option.splits)
  from class_close_shorter [OF this] show ?thesis by (cases t) (auto split: if_splits)
qed

function fnmatch :: "pystr \<Rightarrow> pystr \<Rightarrow> bool" where
  "fnmatch [] s = (s = [])"
| "fnmatch (c # p) s =
     (if c = 42 then fnmatch p s \<or> (if s \<noteq> [] then fnmatch (c # p) (tl s) else False)
      else if s = [] then False
      else if c = 63 then fnmatch p (tl s)
      else if c = 91 then
        (case class_split p of
           None \<Rightarrow> (if hd s = c then fnmatch p (tl s) else False)
         | Some (neg, members, rest) \<Rightarrow> (if class_has members (hd s) \<noteq> neg then fnmatch rest (tl s) else False))
      else if hd s = c then fnmatch p (tl s)
      else False)"
  by pat_completeness auto
termination
  by (relation "measure (\<lambda>(p, s). length p + length s)") (auto dest: class_split_shorter)

declare fnmatch.simps [simp del]

text \<open>A name that a tier lists, and a hidden one only for a pattern that starts with a dot.\<close>

definition glob_part :: "pystr \<Rightarrow> pystr \<Rightarrow> bool" where
  "glob_part pat name \<longleftrightarrow>
     (if haswild pat then plain_part name \<and> fnmatch pat name \<and> (hd name \<noteq> 46 \<or> hd pat = 46) else pat = name)"

definition glob :: "rpath \<Rightarrow> store \<Rightarrow> rpath list" where
  "glob pat s = remdups (filter (\<lambda>q. list_all2 glob_part pat q) (map fst s))"

definition wild_path :: "rpath \<Rightarrow> bool" where
  "wild_path p \<longleftrightarrow> haswild (path_text p)"

definition wild_matches :: "rpath \<Rightarrow> rpath list sio" where
  "wild_matches p = getting (\<lambda>e w. if wild_path p then sort_key path_text (glob p (sh_fs w)) else [p])"

definition located_or_invalid :: "pystr \<Rightarrow> rpath sio" where
  "located_or_invalid t = catch (located t) (\<lambda>_. ret INVALIDPATH)"

definition expandwild :: "pystr list \<Rightarrow> rpath list sio" where
  "expandwild args =
     andthen (map_prog (\<lambda>a. andthen (located_or_invalid a) (\<lambda>p.
         andthen (wild_matches p) (\<lambda>ms. ret (if ms = [] then [p] else ms)))) args)
       (\<lambda>mss. ret (concat mss))"

datatype want = WantFile | WantDir | WantPath

definition sourcekind :: "rpath \<Rightarrow> want \<Rightarrow> bool sio" where
  "sourcekind p want = (case want of WantFile \<Rightarrow> path_isfile p | WantDir \<Rightarrow> path_isdir p | WantPath \<Rightarrow> path_exists p)"

fun add_matches :: "want \<Rightarrow> rpath list \<Rightarrow> rpath list \<Rightarrow> rpath list sio" where
  "add_matches want [] acc = ret acc"
| "add_matches want (m # ms) acc =
     andthen (sourcekind m want) (\<lambda>ok. add_matches want ms (if ok \<and> m \<notin> set acc then acc @ [m] else acc))"

definition addpattern :: "want \<Rightarrow> pystr \<Rightarrow> rpath list \<Rightarrow> rpath list sio" where
  "addpattern want pat acc =
     andthen (catch (andthen (located pat) (\<lambda>p. ret (Some p))) (\<lambda>_. ret None)) (\<lambda>r. (case r of
         None \<Rightarrow> ret acc
       | Some p \<Rightarrow> andthen (wild_matches p) (\<lambda>ms. add_matches want ms acc)))"

fun add_patterns :: "want \<Rightarrow> pystr list \<Rightarrow> rpath list \<Rightarrow> rpath list sio" where
  "add_patterns want [] acc = ret acc"
| "add_patterns want (p # ps) acc = andthen (addpattern want p acc) (add_patterns want ps)"

text \<open>A spaced tier followed by wildcard patterns.\<close>

definition spaced_base :: "want \<Rightarrow> pystr list \<Rightarrow> nat \<Rightarrow> rpath list option sio" where
  "spaced_base want parts index =
     (let base = strip (join_with 32 (take index parts)); patterns = drop index parts in
      if patterns = [] \<or> \<not> list_all haswild patterns then ret None
      else andthen (catch (andthen (located base) (\<lambda>p. ret (Some p))) (\<lambda>_. ret None)) (\<lambda>r. (case r of
          None \<Rightarrow> ret None
        | Some p \<Rightarrow> andthen (path_isdir p) (\<lambda>tier.
            if \<not> tier then ret None
            else andthen (add_patterns want (map (join_path (path_text p)) patterns) []) (\<lambda>acc.
              ret (if acc = [] then None else Some acc))))))"

definition expandwildsources :: "pystr list \<Rightarrow> want \<Rightarrow> rpath list sio" where
  "expandwildsources tokens want =
     (let raw = filter (\<lambda>t. t \<noteq> []) tokens in
      if raw = [] then ret []
      else andthen (addpattern want (strip (join_with 32 raw)) []) (\<lambda>acc.
        if acc \<noteq> [] then ret acc
        else
          (let parts = (if length raw = 1 \<and> 32 \<in> set (hd raw) then filter (\<lambda>t. t \<noteq> []) (split_on 32 (hd raw)) else raw) in
           andthen (first_of (rev [1..<length parts]) (spaced_base want parts)) (\<lambda>r. (case r of
               Some acc \<Rightarrow> ret acc
             | None \<Rightarrow> add_patterns want raw [])))))"

section \<open>Sources and destination\<close>

definition connector_positions :: "senv \<Rightarrow> pystr \<Rightarrow> pystr list \<Rightarrow> nat list" where
  "connector_positions e connector tokens = filter (\<lambda>i. se_lower e (tokens ! i) = connector) [0..<length tokens]"

definition inner_positions :: "senv \<Rightarrow> pystr \<Rightarrow> pystr list \<Rightarrow> nat list" where
  "inner_positions e connector tokens =
     filter (\<lambda>i. 0 < i \<and> i < length tokens - 1) (rev (connector_positions e connector tokens))"

definition wildcardarguments :: "pystr list \<Rightarrow> want \<Rightarrow> pystr \<Rightarrow> (rpath list \<times> rpath) sio" where
  "wildcardarguments tokens want connector =
     andthen (getting (\<lambda>e w. inner_positions e connector tokens)) (\<lambda>positions. (case positions of
       i # _ \<Rightarrow>
         andthen (expandwildsources (take i tokens) want) (\<lambda>sources.
         andthen (located_or_invalid (join_with 32 (drop (i + 1) tokens))) (\<lambda>destination. ret (sources, destination)))
     | [] \<Rightarrow>
         andthen (first_of [1..<length tokens] (\<lambda>i.
           andthen (catch (andthen (located (join_with 32 (drop i tokens))) (\<lambda>p. ret (Some p))) (\<lambda>_. ret None)) (\<lambda>r. (case r of
               None \<Rightarrow> ret None
             | Some destination \<Rightarrow> andthen (path_isdir destination) (\<lambda>tier.
                 if \<not> tier then ret None
                 else andthen (expandwildsources (take i tokens) want) (\<lambda>sources.
                   ret (if sources = [] then None else Some (sources, destination)))))))) (\<lambda>r. (case r of
           Some x \<Rightarrow> ret x
         | None \<Rightarrow>
             andthen (first_of [1..<length tokens] (\<lambda>i.
               andthen (expandwildsources (take i tokens) want) (\<lambda>sources.
                 if sources = [] then ret None
                 else andthen (located_or_invalid (join_with 32 (drop i tokens))) (\<lambda>destination. ret (Some (sources, destination)))))) (\<lambda>r. (case r of
               Some x \<Rightarrow> ret x
             | None \<Rightarrow>
                 if 2 \<le> length tokens then
                   andthen (located_or_invalid (last tokens)) (\<lambda>destination.
                   andthen (expandwildsources (butlast tokens) want) (\<lambda>sources. ret (sources, destination)))
                 else ret ([], INVALIDPATH)))))))"

definition connected_at :: "pystr list \<Rightarrow> want option \<Rightarrow> nat \<Rightarrow> (pystr \<times> pystr) option sio" where
  "connected_at tokens want index =
     (let left = strip (join_with 32 (take index tokens)); right = strip (join_with 32 (drop (index + 1) tokens)) in
      if left = [] \<or> right = [] then ret None
      else catch (andthen (located left) (\<lambda>p. (case want of
          None \<Rightarrow> ret (Some (left, right))
        | Some k \<Rightarrow> andthen (sourcekind p k) (\<lambda>ok. ret (if \<not> ok \<and> \<not> haswild left then None else Some (left, right))))))
        (\<lambda>_. ret None))"

definition connectorpaths :: "pystr list \<Rightarrow> pystr \<Rightarrow> want option \<Rightarrow> (pystr \<times> pystr) option sio" where
  "connectorpaths tokens connector want =
     andthen (getting (\<lambda>e w. inner_positions e connector tokens)) (\<lambda>positions. first_of positions (connected_at tokens want))"

text \<open>The grammar of a directive: the connectors it knows and what its source is.\<close>

definition catalogueconnector :: "pystr list \<Rightarrow> want option \<Rightarrow> pystr list \<Rightarrow> pystr \<Rightarrow> (pystr \<times> pystr) option sio" where
  "catalogueconnector connectors want args connector =
     first_of (if connector \<in> set connectors then [connector] else []) (\<lambda>word. connectorpaths args word want)"

definition positionalpair :: "pystr list \<Rightarrow> want \<Rightarrow> (pystr \<times> pystr) option sio" where
  "positionalpair tokens want = first_of [1..<length tokens] (\<lambda>index.
     (let left = strip (join_with 32 (take index tokens)); right = strip (join_with 32 (drop index tokens)) in
      andthen (catch (andthen (located left) (\<lambda>l. andthen (located right) (\<lambda>r. ret (Some (l, r))))) (\<lambda>_. ret None)) (\<lambda>ps. (case ps of
          None \<Rightarrow> ret None
        | Some (l, r) \<Rightarrow> andthen (sourcekind l want) (\<lambda>a. if \<not> a then ret None
            else andthen (sourcekind r want) (\<lambda>b. ret (if b then Some (left, right) else None)))))))"

definition recursivearguments :: "senv \<Rightarrow> pystr list \<Rightarrow> pystr list \<Rightarrow> pystr \<times> int option" where
  "recursivearguments e terms args =
     (let n = length args; path = (\<lambda>ts. if ts = [] then [46] else strip (join_with 32 ts)) in
      if 4 \<le> n \<and> se_lower e (args ! (n - 4)) = cps ''up'' \<and> se_lower e (args ! (n - 3)) = cps ''to''
        \<and> se_lower e (args ! (n - 1)) \<in> {cps ''level'', cps ''levels''}
        \<and> (terms = [] \<or> cps ''up to levels'' \<in> set (map (se_casefold e) terms))
      then (case c_text_int (r_codec (se_base e)) (args ! (n - 2)) of
          Some i \<Rightarrow> (path (take (n - 4) args), Some (max 0 i))
        | None \<Rightarrow> (let t = strip (join_with 32 args) in (if t = [] then [46] else t, None)))
      else (path args, None))"

section \<open>Permission\<close>

definition BRICKLSMFORBIDDENROOTS :: "rpath list" where
  "BRICKLSMFORBIDDENROOTS = map (\<lambda>name. [name])
     [cps ''bin'', cps ''sbin'', cps ''lib'', cps ''lib64'', cps ''usr'', cps ''etc'', cps ''dev'', cps ''proc'', cps ''sys'',
      cps ''run'', cps ''var'', cps ''tmp'', cps ''home'', cps ''root'', cps ''media'', cps ''mnt'', cps ''opt'', cps ''srv'']"

definition BRICKLSMMASTERDENIED :: "rpath list" where
  "BRICKLSMMASTERDENIED =
     [[cps ''the one'', cps ''settings'', cps ''operations''], [cps ''the one'', cps ''settings'', cps ''windowserver''],
      [cps ''the one'', cps ''drivers'']]"

definition below_any :: "rpath list \<Rightarrow> rpath \<Rightarrow> bool" where
  "below_any roots p \<longleftrightarrow> list_ex (\<lambda>r. starts_with r p) roots"

definition lsm_allows :: "rpath \<Rightarrow> rpath \<Rightarrow> bool" where
  "lsm_allows cwd target \<longleftrightarrow>
     \<not> below_any BRICKLSMFORBIDDENROOTS target \<and> check cwd (path_text target) \<and> \<not> below_any BRICKLSMMASTERDENIED target"

definition bricklsmmutationallowed :: "rpath \<Rightarrow> bool sio" where
  "bricklsmmutationallowed p =
     catch (andthen (located (path_text p)) (\<lambda>target.
         if has_nul target then raise ValueError else getting (\<lambda>e w. lsm_allows (s_cwd e) target)))
       (\<lambda>_. ret False)"

text \<open>The loop over the paths; the callers pass a list of paths, so there is nothing to flatten.\<close>

fun allowpaths :: "rpath list \<Rightarrow> bool sio" where
  "allowpaths [] = ret True"
| "allowpaths (p # ps) =
     andthen (catch (andthen (located (path_text p)) (\<lambda>target. andthen (bricklsmmutationallowed target) (\<lambda>ok. ret (Some ok))))
         (\<lambda>err. andthen (guierror (cps ''> error checking permission '') err) (\<lambda>_. ret None))) (\<lambda>r. (case r of
       None \<Rightarrow> ret False
     | Some allowed \<Rightarrow>
         if \<not> allowed then andthen (guiprint (cps ''> permission denied'') ERRORCOLOUR) (\<lambda>_. ret False)
         else allowpaths ps))"

text \<open>The missing tiers above a path, the highest first, and the path.\<close>

fun missing_above :: "nat \<Rightarrow> rpath \<Rightarrow> rpath list sio" where
  "missing_above 0 p = ret []"
| "missing_above (Suc n) p =
     andthen (path_exists (take (Suc n) p)) (\<lambda>there.
       if there then ret [] else andthen (missing_above n p) (\<lambda>ps. ret (ps @ [take (Suc n) p])))"

definition creationmutationpaths :: "pystr \<Rightarrow> rpath list sio" where
  "creationmutationpaths t =
     andthen (catch (andthen (located t) (\<lambda>p. ret (Some p))) (\<lambda>_. ret None)) (\<lambda>r. (case r of
       None \<Rightarrow> ret [] | Some p \<Rightarrow> andthen (missing_above (length p - 1) p) (\<lambda>ps. ret (ps @ [p]))))"

section \<open>Transactions\<close>

definition item_json :: "rpath \<times> rpath \<Rightarrow> pystr \<Rightarrow> json" where
  "item_json st state = JObj (fmap_of_list [(cps ''source'', JStr (path_text (fst st))), (cps ''target'', JStr (path_text (snd st))),
     (cps ''state'', JStr state)])"

definition result_json :: "bool \<Rightarrow> pystr \<Rightarrow> pystr \<Rightarrow> json list \<Rightarrow> (pystr \<times> json) list \<Rightarrow> json" where
  "result_json ok code message items extra = JObj (fmap_of_list [(cps ''ok'', JBool ok), (cps ''code'', JStr code),
     (cps ''message'', JStr message), (cps ''items'', JList items), (cps ''data'', JObj (fmap_of_list extra))])"

text \<open>\<open>os.path.join(tier, os.path.basename(p))\<close>.\<close>

definition named_in :: "rpath \<Rightarrow> rpath \<Rightarrow> rpath" where
  "named_in tier p = (if p = [] then tier else tier @ [last p])"

fun preflight :: "(rpath \<times> rpath) list \<Rightarrow> pystr option sio" where
  "preflight [] = ret None"
| "preflight ((source, target) # pairs) =
     andthen (path_exists target) (\<lambda>there.
       if there then ret (Some (cps ''destination '' @ path_text target @ cps '' already exists''))
       else andthen (path_isdir source) (\<lambda>tier.
         if tier \<and> starts_with source target then ret (Some (cps ''cannot place '' @ path_text source @ cps '' inside itself''))
         else preflight pairs))"

definition transactiontargets :: "rpath list \<Rightarrow> rpath \<Rightarrow> (pystr + (rpath \<times> rpath) list) sio" where
  "transactiontargets sources destination =
     catch (andthen (map_prog (\<lambda>p. located (path_text p)) sources) (\<lambda>resolved.
       andthen (located (path_text destination)) (\<lambda>targetroot.
       andthen (path_isdir targetroot) (\<lambda>tier.
         if 1 < length resolved \<and> \<not> tier then ret (Inl (cps ''destination must be an existing tier for multiple items''))
         else
           (let targets = map (\<lambda>source. if tier then named_in targetroot source else targetroot) resolved in
            if \<not> distinct targets then ret (Inl (cps ''more than one source resolves to the same destination''))
            else andthen (preflight (zip resolved targets)) (\<lambda>r. (case r of
                Some message \<Rightarrow> ret (Inl message)
              | None \<Rightarrow> ret (Inr (zip resolved targets)))))))))
       (\<lambda>err. getting (\<lambda>e w. Inl (cps ''error preparing transaction '' @ se_error e err)))"

definition transactionremove :: "rpath \<Rightarrow> bool sio" where
  "transactionremove p =
     catch (andthen (path_isdir p) (\<lambda>tier.
         andthen (if tier then on_files (rmtree_strict p)
           else andthen (path_exists p) (\<lambda>there. if there then on_files (remove_file p) else ret ())) (\<lambda>_. ret True)))
       (\<lambda>_. ret False)"

text \<open>What a loop has done when it ends or an item raises.\<close>

fun copy_pairs :: "(rpath \<times> rpath) list \<Rightarrow> rpath list \<Rightarrow> (rpath \<times> rpath) list \<Rightarrow> (rpath list \<times> (rpath \<times> rpath) list \<times> pyerr option) sio" where
  "copy_pairs [] created items = ret (created, items, None)"
| "copy_pairs ((source, target) # pairs) created items =
     andthen (catch (andthen (path_isdir source) (\<lambda>tier.
         andthen (on_files (if tier then copytree source target else copy2 source target)) (\<lambda>_. ret None)))
       (\<lambda>err. ret (Some err))) (\<lambda>r. (case r of
         None \<Rightarrow> copy_pairs pairs (created @ [target]) (items @ [(source, target)])
       | Some err \<Rightarrow> ret (created @ [target], items, Some err)))"

fun remove_all :: "rpath list \<Rightarrow> bool sio" where
  "remove_all [] = ret True"
| "remove_all (p # ps) = andthen (transactionremove p) (\<lambda>ok. andthen (remove_all ps) (\<lambda>rest. ret (ok \<and> rest)))"

fun move_pairs :: "(rpath \<times> rpath) list \<Rightarrow> (rpath \<times> rpath) list \<Rightarrow> ((rpath \<times> rpath) list \<times> pyerr option) sio" where
  "move_pairs [] moved = ret (moved, None)"
| "move_pairs ((source, target) # pairs) moved =
     andthen (catch (andthen (on_files (move_path source target)) (\<lambda>_. ret None)) (\<lambda>err. ret (Some err))) (\<lambda>r. (case r of
         None \<Rightarrow> move_pairs pairs (moved @ [(source, target)])
       | Some err \<Rightarrow> ret (moved, Some err)))"

fun undo_moves :: "(rpath \<times> rpath) list \<Rightarrow> bool sio" where
  "undo_moves [] = ret True"
| "undo_moves ((source, target) # pairs) =
     andthen (catch (andthen (path_exists source) (\<lambda>taken. andthen (path_exists target) (\<lambda>there.
         if taken \<or> \<not> there then ret False
         else andthen (on_files (move_path target source)) (\<lambda>_. ret True))))
       (\<lambda>_. ret False)) (\<lambda>ok. andthen (undo_moves pairs) (\<lambda>rest. ret (ok \<and> rest)))"

definition rolled_back_json :: "pystr \<Rightarrow> bool \<Rightarrow> (rpath \<times> rpath) list \<Rightarrow> pystr \<Rightarrow> pyerr \<Rightarrow> json sio" where
  "rolled_back_json what rollback items state err =
     andthen (getting (\<lambda>e w. what @ cps '' transaction failed '' @ se_error e err)) (\<lambda>message.
     andthen (guiprint (cps ''> '' @ message @ cps ''; '' @ (if rollback then cps ''rolled back'' else cps ''rollback incomplete'')) ERRORCOLOUR) (\<lambda>_.
     ret (result_json False (if rollback then cps ''rolled_back'' else cps ''rollback_failed'') message
       (map (\<lambda>i. item_json i state) items) [(cps ''rolled_back'', JBool rollback)])))"

definition names_of :: "(rpath \<times> rpath) list \<Rightarrow> pystr" where
  "names_of pairs = concat (case map (\<lambda>(s, _). if s = [] then [] else last s) pairs of
     [] \<Rightarrow> [] | n # ns \<Rightarrow> n # map (\<lambda>m. cps '', '' @ m) ns)"

definition preflight_failed :: "pystr \<Rightarrow> json sio" where
  "preflight_failed message = andthen (guiprint (cps ''> '' @ message) ERRORCOLOUR) (\<lambda>_.
     ret (result_json False (cps ''preflight_failed'') message [] []))"

definition denied_json :: json where
  "denied_json = result_json False (cps ''permission_denied'') (cps ''permission denied'') [] []"

definition transactioncopy :: "rpath list \<Rightarrow> rpath \<Rightarrow> json sio" where
  "transactioncopy sources destination =
     andthen (transactiontargets sources destination) (\<lambda>r. (case r of
       Inl message \<Rightarrow> preflight_failed message
     | Inr [] \<Rightarrow> preflight_failed []
     | Inr pairs \<Rightarrow>
         andthen (allowpaths (map snd pairs)) (\<lambda>allowed.
           if \<not> allowed then ret denied_json
           else andthen (copy_pairs pairs [] []) (\<lambda>(created, items, failure). (case failure of
               Some err \<Rightarrow> andthen (remove_all (rev created)) (\<lambda>rollback. rolled_back_json (cps ''copy'') rollback items (cps ''copied'') err)
             | None \<Rightarrow>
                 andthen (guiprint (cps ''> copied '' @ names_of pairs) TEXTCOLOUR) (\<lambda>_.
                   ret (result_json True (cps ''copied'') [] (map (\<lambda>i. item_json i (cps ''copied'')) items)
                     [(cps ''count'', JInt (int (length items)))])))))))"

definition transactionmove :: "rpath list \<Rightarrow> rpath \<Rightarrow> json sio" where
  "transactionmove sources destination =
     andthen (transactiontargets sources destination) (\<lambda>r. (case r of
       Inl message \<Rightarrow> preflight_failed message
     | Inr [] \<Rightarrow> preflight_failed []
     | Inr pairs \<Rightarrow>
         andthen (allowpaths (map fst pairs @ map snd pairs)) (\<lambda>allowed.
           if \<not> allowed then ret denied_json
           else andthen (move_pairs pairs []) (\<lambda>(moved, failure). (case failure of
               Some err \<Rightarrow> andthen (undo_moves (rev moved)) (\<lambda>rollback. rolled_back_json (cps ''move'') rollback moved (cps ''moved'') err)
             | None \<Rightarrow>
                 andthen (guiprint (cps ''> moved '' @ names_of pairs) TEXTCOLOUR) (\<lambda>_.
                   ret (result_json True (cps ''moved'') [] (map (\<lambda>i. item_json i (cps ''moved'')) moved)
                     [(cps ''count'', JInt (int (length moved)))])))))))"

end
