(* ===== verification/Shell_Directives.thy ===== *)
theory Shell_Directives
  imports Shell_Paths
begin

text \<open>
  The file and tier directives of the shell (\<open>brick.py\<close>): creating, deleting to the rubbish, destroying,
  renaming, moving and copying.  A directive gets the words after its name and returns nothing or, where a
  transaction ran, its result.
\<close>

section \<open>Saying\<close>

abbreviation say :: "pystr \<Rightarrow> unit sio" where
  "say t \<equiv> guiprint t TEXTCOLOUR"

abbreviation complain :: "pystr \<Rightarrow> unit sio" where
  "complain t \<equiv> guiprint t ERRORCOLOUR"

definition nothing :: "unit sio \<Rightarrow> json sio" where
  "nothing m = andthen m (\<lambda>_. ret JNull)"

definition name_of :: "rpath \<Rightarrow> pystr" where
  "name_of p = (if p = [] then [] else last p)"

section \<open>Creating\<close>

text \<open>\<open>open(target, 'x')\<close>.\<close>

definition open_new :: "rpath \<Rightarrow> unit rio" where
  "open_new p = rchange (\<lambda>s.
     (if found s p then Inl FileExistsError
      else if \<not> parent_found s p then Inl (if found s (butlast p) then NotADirectoryError else FileNotFoundError)
      else Inr (put_entry p (File []) s)))"

definition create :: "pystr list \<Rightarrow> json sio" where
  "create args = nothing
     (if args = [] then say (cps ''> enter the filename after the create directive'')
      else
        (let name = join_with 32 args in
         andthen (located name) (\<lambda>target.
         andthen (allowpaths [target]) (\<lambda>allowed.
           if \<not> allowed then ret ()
           else except_do (andthen (on_files (open_new target)) (\<lambda>_. say (cps ''> '' @ name @ cps '' created''))) is_oserror
             (\<lambda>err. if err = FileExistsError then complain (cps ''> '' @ name @ cps '' already exists'')
                else if err = FileNotFoundError then complain (cps ''> tier to create in not found'')
                else if err = PermissionError then complain (cps ''> permission denied'')
                else guierror (cps ''> error creating file '') err)))))"

definition createtier :: "pystr list \<Rightarrow> json sio" where
  "createtier args = nothing
     (if args = [] then say (cps ''> enter the tier name after the create tier directive'')
      else
        (let name = join_with 32 args in
         andthen (located name) (\<lambda>target.
         andthen (allowpaths [target]) (\<lambda>allowed.
           if \<not> allowed then ret ()
           else except_do (andthen (on_files (mkdir target)) (\<lambda>_. say (cps ''> '' @ name @ cps '' created''))) is_oserror
             (\<lambda>err. if err = FileExistsError then complain (cps ''> '' @ name @ cps '' already exists'')
                else if err = PermissionError then complain (cps ''> permission denied'')
                else guierror (cps ''> error creating tier '') err)))))"

section \<open>Deleting and destroying\<close>

fun existing :: "rpath list \<Rightarrow> rpath list sio" where
  "existing [] = ret []"
| "existing (p # ps) = andthen (path_exists p) (\<lambda>there. andthen (existing ps) (\<lambda>rest. ret (if there then p # rest else rest)))"

text \<open>The targets of a directive with wildcards: those that exist, none of them of the wrong kind.\<close>

definition wild_targets :: "bool \<Rightarrow> pystr \<Rightarrow> pystr list \<Rightarrow> rpath list option sio" where
  "wild_targets tiers name args =
     andthen (expandwild args) (\<lambda>ps.
     andthen (existing ps) (\<lambda>targets.
       if targets = [] then andthen (complain (cps ''> '' @ name @ cps '' does not exist'')) (\<lambda>_. ret None)
       else andthen (first_of targets (\<lambda>t. andthen (path_isdir t) (\<lambda>tier. ret (if tier = tiers then None else Some t)))) (\<lambda>bad. (case bad of
           Some t \<Rightarrow> andthen (complain (cps ''> '' @ name_of t @ (if tiers then cps '' is not a tier'' else cps '' is a tier''))) (\<lambda>_. ret None)
         | None \<Rightarrow> ret (Some targets)))))"

definition one_target :: "bool \<Rightarrow> pystr \<Rightarrow> rpath list option sio" where
  "one_target tiers name =
     andthen (located name) (\<lambda>t.
     andthen (path_exists t) (\<lambda>there.
       if \<not> there then andthen (complain (cps ''> '' @ name @ cps '' does not exist'')) (\<lambda>_. ret None)
       else andthen (path_isdir t) (\<lambda>tier.
         if tier \<noteq> tiers
         then andthen (complain (cps ''> '' @ name @ (if tiers then cps '' is not a tier'' else cps '' is a tier''))) (\<lambda>_. ret None)
         else ret (Some [t]))))"

definition put_in_rubbish :: "pystr \<Rightarrow> pystr \<Rightarrow> pystr \<Rightarrow> rpath list \<Rightarrow> unit sio" where
  "put_in_rubbish plural denied failing targets =
     catch (andthen (on_files (storepaths (map path_text targets))) (\<lambda>_.
         if length targets = 1 then say (cps ''> '' @ name_of (hd targets) @ cps '' put in the rubbish'')
         else say (cps ''> '' @ dec_nat (length targets) @ plural @ cps '' put in the rubbish'')))
       (\<lambda>err. if err = PermissionError then complain denied else guierror failing err)"

definition delete :: "pystr list \<Rightarrow> json sio" where
  "delete args = nothing
     (if args = [] then complain (cps ''> enter the filename after the delete directive'')
      else
        (let name = join_with 32 args in
         andthen (catch (if list_ex haswild args then wild_targets False name args else one_target False name)
           (\<lambda>err. andthen (guierror (cps ''> error resolving file '') err) (\<lambda>_. ret None))) (\<lambda>r. (case r of
             None \<Rightarrow> ret ()
           | Some targets \<Rightarrow>
               if list_ex (starts_with RUBBISHDIR) targets then complain (cps ''> cannot delete the rubbish bin or its contents'')
               else andthen (allowpaths targets) (\<lambda>allowed.
                 if \<not> allowed then ret ()
                 else put_in_rubbish (cps '' files'') (cps ''> permission denied to move file to rubbish'')
                   (cps ''> error deleting file '') targets)))))"

definition deletetier :: "pystr list \<Rightarrow> json sio" where
  "deletetier args = nothing
     (if args = [] then say (cps ''> enter the tier name after the delete tier directive'')
      else
        (let name = join_with 32 args in
         andthen (catch (if list_ex haswild args then wild_targets True name args else one_target True name)
           (\<lambda>err. andthen (guierror (cps ''> error resolving tier '') err) (\<lambda>_. ret None))) (\<lambda>r. (case r of
             None \<Rightarrow> ret ()
           | Some targets \<Rightarrow>
               if list_ex (starts_with RUBBISHDIR) targets then say (cps ''> cannot delete the rubbish bin or its contents'')
               else andthen (allowpaths targets) (\<lambda>allowed.
                 if \<not> allowed then ret ()
                 else put_in_rubbish (cps '' tiers'') (cps ''> permission denied to put tier in the rubbish'')
                   (cps ''> error deleting tier '') targets)))))"

text \<open>Destroying an item of the bin: its payload goes, and its rows go from the index.\<close>

definition drop_item :: "pystr \<Rightarrow> unit rio" where
  "drop_item rid = rmtree (payload_tier rid)"

definition text_lines :: "pystr \<Rightarrow> pystr list" where
  "text_lines t = splitlines (length t) t"

definition index_without :: "pystr \<Rightarrow> pystr list \<Rightarrow> pystr" where
  "index_without rid ls =
     join_with 10 ((if ls = [] then index_header else hd ls) # filter (\<lambda>l. \<not> starts_with (rid @ [9]) l) (drop 1 ls)) @ [10]"

definition in_rubbish :: "rpath \<Rightarrow> bool" where
  "in_rubbish cwd \<longleftrightarrow> starts_with (cps ''/.rubbish'') (path_text cwd)"

definition rid_from_cwd :: "rpath \<Rightarrow> pystr option" where
  "rid_from_cwd cwd = (if 2 \<le> length cwd \<and> cwd ! 0 = cps ''.rubbish'' then Some (cwd ! 1) else None)"

definition destroy_current :: "colour \<Rightarrow> pystr \<Rightarrow> unit sio" where
  "destroy_current c rid =
     catch (andthen (allowpaths [payload_tier rid, INDEXFILE]) (\<lambda>allowed.
         if \<not> allowed then ret ()
         else andthen (on_files (drop_item rid)) (\<lambda>_.
           andthen (except_do (andthen (on_files (read_text INDEXFILE)) (\<lambda>text. on_files (put_text INDEXFILE (index_without rid (text_lines text)))))
             (\<lambda>err. err = FileNotFoundError) (\<lambda>_. ret ())) (\<lambda>_.
           guiprint (cps ''> rubbish item destroyed'') c))))
       (\<lambda>err. if err = PermissionError then complain (cps ''> permission denied'') else guierror (cps ''> error destroying rubbish item '') err)"

text \<open>The rows with a name, as time, identifier, name and path.\<close>

fun named_rows :: "senv \<Rightarrow> bool \<Rightarrow> pystr \<Rightarrow> pystr list list \<Rightarrow> (int \<times> pystr \<times> pystr \<times> pystr) list res" where
  "named_rows e tiers name [] = Inr []"
| "named_rows e tiers name (cols # rows) =
     (if length cols \<noteq> 7 then Inl ValueError
      else rbind (named_rows e tiers name rows) (\<lambda>rest.
        if cols ! 1 = name \<and> (tiers \<longrightarrow> cols ! 3 = [49])
        then Inr ((case c_text_int (r_codec (se_base e)) (cols ! 5) of None \<Rightarrow> 0 | Some t \<Rightarrow> t, cols ! 0, cols ! 1, cols ! 2) # rest)
        else Inr rest))"

definition choose_row :: "colour \<Rightarrow> (int \<times> pystr \<times> pystr \<times> pystr) list \<Rightarrow> (int \<times> pystr \<times> pystr \<times> pystr) option sio" where
  "choose_row c rows =
     (if length rows \<le> 1 then ret (Some (hd rows))
      else andthen (getting (\<lambda>e w. map (\<lambda>(i, ts, rid, fname, orig).
            cps ''> '' @ dec_nat i @ [9] @ fname @ [9] @ orig @ [9] @ se_stamp e ts) (zip [1..<length rows + 1] rows))) (\<lambda>ls.
         andthen (foreach ls (\<lambda>l. guiprint l c)) (\<lambda>_.
         andthen (getting (\<lambda>e w. (case se_input e of
             Inl err \<Rightarrow> Inl err
           | Inr t \<Rightarrow> (case c_text_int (r_codec (se_base e)) t of None \<Rightarrow> Inl ValueError | Some i \<Rightarrow> Inr i)))) (\<lambda>typed. (case typed of
             Inl err \<Rightarrow> if err = ValueError then andthen (complain (cps ''> invalid selection'')) (\<lambda>_. ret None) else raise err
           | Inr choice \<Rightarrow>
               if choice < 1 \<or> int (length rows) < choice then andthen (complain (cps ''> invalid selection'')) (\<lambda>_. ret None)
               else ret (Some (rows ! nat (choice - 1))))))))"

definition destroy_named :: "bool \<Rightarrow> colour \<Rightarrow> pystr \<Rightarrow> pystr \<Rightarrow> pystr \<Rightarrow> pystr list \<Rightarrow> unit sio" where
  "destroy_named tiers c missing failing name ls =
     catch (andthen (getting (\<lambda>e w. named_rows e tiers name (full_rows ls))) (\<lambda>found. andthen (lift_res found) (\<lambda>rows.
         if rows = [] then complain missing
         else andthen (choose_row c (sort_key (\<lambda>(ts, _). - ts) rows)) (\<lambda>r. (case r of
             None \<Rightarrow> ret ()
           | Some (ts, rid, fname, orig) \<Rightarrow>
               catch (andthen (allowpaths [payload_tier rid, INDEXFILE]) (\<lambda>allowed.
                   if \<not> allowed then ret ()
                   else andthen (on_files (drop_item rid)) (\<lambda>_.
                     andthen (on_files (put_text INDEXFILE (index_without rid ls))) (\<lambda>_.
                     say (cps ''> '' @ fname @ cps '' destroyed'')))))
                 (\<lambda>err. if err = PermissionError then complain (cps ''> permission denied'')
                    else guierror (cps ''> error destroying '' @ fname @ [32]) err))))))
       (\<lambda>err. guierror failing err)"

definition destroy_in_rubbish :: "bool \<Rightarrow> colour \<Rightarrow> colour \<Rightarrow> pystr \<Rightarrow> pystr \<Rightarrow> pystr \<Rightarrow> unit sio" where
  "destroy_in_rubbish tiers told listed missing failing name =
     andthen (getting (\<lambda>e w. rid_from_cwd (s_cwd e))) (\<lambda>rid. (case rid of
       Some r \<Rightarrow> destroy_current told r
     | None \<Rightarrow>
         andthen (except_do (andthen (on_files (read_text INDEXFILE)) (\<lambda>text. ret (Some (text_lines text)))) is_exception
           (\<lambda>err. andthen (if err = FileNotFoundError then guiprint (cps ''> rubbish is empty'') told
               else if err = PermissionError then complain (cps ''> permission denied'')
               else guierror (cps ''> error reading rubbish index '') err) (\<lambda>_. ret None))) (\<lambda>ls. (case ls of
             None \<Rightarrow> ret () | Some ls \<Rightarrow> destroy_named tiers listed missing failing name ls))))"

definition destroy :: "pystr list \<Rightarrow> json sio" where
  "destroy args = nothing
     (if args = [] then say (cps ''> enter the filename after the destroy directive'')
      else
        (let name = join_with 32 args in
         andthen (getting (\<lambda>e w. in_rubbish (s_cwd e))) (\<lambda>inside.
           if inside
           then destroy_in_rubbish False TEXTCOLOUR NOCOLOUR (cps ''> no such file or tier '' @ name @ cps '' in rubbish'')
             (cps ''> error destroying in rubbish '') name
           else catch
             (if list_ex haswild args then
                andthen (wild_targets False name args) (\<lambda>r. (case r of
                  None \<Rightarrow> ret ()
                | Some targets \<Rightarrow> andthen (allowpaths targets) (\<lambda>allowed.
                    if \<not> allowed then ret ()
                    else andthen (foreach targets (\<lambda>t. on_files (remove_file t))) (\<lambda>_.
                      say (cps ''> '' @ dec_nat (length targets) @ cps '' files destroyed'')))))
              else andthen (located name) (\<lambda>target.
                andthen (allowpaths [target]) (\<lambda>allowed.
                  if \<not> allowed then ret ()
                  else andthen (on_files (remove_file target)) (\<lambda>_. say (cps ''> '' @ name @ cps '' destroyed'')))))
             (\<lambda>err. if err = FileNotFoundError then complain (cps ''> '' @ name @ cps '' does not exist'')
                else if err = IsADirectoryError then complain (cps ''> '' @ name @ cps '' is a tier'')
                else guierror (cps ''> error destroying file '') err))))"

definition destroytier :: "pystr list \<Rightarrow> json sio" where
  "destroytier args = nothing
     (if args = [] then say (cps ''> enter the tier name after the destroy tier directive'')
      else
        (let name = join_with 32 args in
         andthen (getting (\<lambda>e w. in_rubbish (s_cwd e))) (\<lambda>inside.
           if inside
           then destroy_in_rubbish True ERRORCOLOUR TEXTCOLOUR (cps ''> no such tier '' @ name @ cps '' in rubbish'')
             (cps ''> error destroying tier in rubbish '') name
           else catch
             (if list_ex haswild args then
                andthen (wild_targets True name args) (\<lambda>r. (case r of
                  None \<Rightarrow> ret ()
                | Some targets \<Rightarrow> andthen (allowpaths targets) (\<lambda>allowed.
                    if \<not> allowed then ret ()
                    else andthen (foreach targets (\<lambda>t. on_files (rmtree_strict t))) (\<lambda>_.
                      say (cps ''> '' @ dec_nat (length targets) @ cps '' tiers destroyed'')))))
              else andthen (located name) (\<lambda>target.
                andthen (allowpaths [target]) (\<lambda>allowed.
                  if \<not> allowed then ret ()
                  else andthen (on_files (rmtree_strict target)) (\<lambda>_. say (cps ''> '' @ name @ cps '' destroyed'')))))
             (\<lambda>err. if err = FileNotFoundError then complain (cps ''> '' @ name @ cps '' does not exist'')
                else if err = NotADirectoryError then complain (cps ''> '' @ name @ cps '' is not a tier'')
                else guierror (cps ''> error destroying tier '') err))))"

section \<open>Renaming\<close>

definition connected_args :: "want \<Rightarrow> pystr list \<Rightarrow> pystr list sio" where
  "connected_args want args =
     andthen (catalogueconnector [cps ''to''] (Some want) args (cps ''to'')) (\<lambda>r.
       ret (case r of None \<Rightarrow> args | Some (left, right) \<Rightarrow> [left, right]))"

text \<open>Both paths of a split, or neither.\<close>

definition both_located :: "pystr \<Rightarrow> pystr \<Rightarrow> (rpath \<times> rpath) sio" where
  "both_located a b =
     catch (andthen (located a) (\<lambda>p. andthen (located b) (\<lambda>q. ret (p, q)))) (\<lambda>_. ret (INVALIDPATH, INVALIDPATH))"

text \<open>A loop over the splits of the words, up to the first that is done.\<close>

definition over_splits :: "pystr list \<Rightarrow> (pystr \<Rightarrow> pystr \<Rightarrow> bool sio) \<Rightarrow> pystr \<Rightarrow> unit sio" where
  "over_splits tokens f missing =
     andthen (first_of [1..<length tokens] (\<lambda>i.
         andthen (f (join_with 32 (take i tokens)) (join_with 32 (drop i tokens))) (\<lambda>handled. ret (if handled then Some () else None))))
       (\<lambda>r. if r = None then complain missing else ret ())"

definition finished :: "unit sio \<Rightarrow> bool sio" where
  "finished m = andthen m (\<lambda>_. ret True)"

definition rename_split :: "pystr \<Rightarrow> pystr \<Rightarrow> bool sio" where
  "rename_split old new =
     andthen (both_located old new) (\<lambda>(oldabs, newabs).
     andthen (path_isfile oldabs) (\<lambda>is_file.
       if \<not> is_file then ret False
       else finished (andthen (path_exists newabs) (\<lambda>there.
         if there then complain (cps ''> destination '' @ new @ cps '' already exists'')
         else andthen (allowpaths [oldabs, newabs]) (\<lambda>allowed.
           if \<not> allowed then ret ()
           else except_do (andthen (on_files (rename_path oldabs newabs)) (\<lambda>_. say (cps ''> '' @ old @ cps '' renamed to '' @ new))) is_oserror
             (\<lambda>err. if err = FileNotFoundError then complain (cps ''> '' @ old @ cps '' not found'')
                else if err = PermissionError then complain (cps ''> permission denied'')
                else guierror (cps ''> error renaming file '') err))))))"

definition rename :: "pystr list \<Rightarrow> json sio" where
  "rename args = nothing
     (andthen (connected_args WantFile args) (\<lambda>tokens.
       if length tokens < 2 then say (cps ''> enter the old filename and new filename after the rename directive'')
       else over_splits tokens rename_split (cps ''> could not find an existing file to rename'')))"

definition renametier_split :: "pystr \<Rightarrow> pystr \<Rightarrow> bool sio" where
  "renametier_split old new =
     andthen (both_located old new) (\<lambda>(oldabs, newabs).
     andthen (path_isdir oldabs) (\<lambda>tier.
       if \<not> tier then ret False
       else finished (andthen (path_exists newabs) (\<lambda>there.
         if there then complain (cps ''> destination '' @ new @ cps '' already exists'')
         else andthen (allowpaths [oldabs, newabs]) (\<lambda>allowed.
           if \<not> allowed then ret ()
           else except_do (andthen (on_files (rename_path oldabs newabs)) (\<lambda>_. say (cps ''> '' @ old @ cps '' renamed to '' @ new))) is_oserror
             (\<lambda>err. if err = PermissionError then complain (cps ''> permission denied'')
                else guierror (cps ''> error renaming tier '') err))))))"

definition renametier :: "pystr list \<Rightarrow> json sio" where
  "renametier args = nothing
     (andthen (connected_args WantDir args) (\<lambda>tokens.
       if length tokens < 2 then say (cps ''> enter the old tier name and new tier name after the rename tier directive'')
       else over_splits tokens renametier_split (cps ''> could not find an existing tier to rename'')))"

section \<open>Moving\<close>

definition move_split :: "pystr \<Rightarrow> pystr \<Rightarrow> bool sio" where
  "move_split src dst =
     andthen (both_located src dst) (\<lambda>(srcabs, dstabs).
     andthen (path_exists srcabs) (\<lambda>there.
       if \<not> there then ret False
       else finished (andthen (path_isdir dstabs) (\<lambda>tier.
         (let target = (if tier then named_in dstabs srcabs else dstabs) in
          andthen (path_exists target) (\<lambda>taken.
            if taken then complain (cps ''> destination '' @ path_text target @ cps '' already exists'')
            else andthen (allowpaths [srcabs, target]) (\<lambda>allowed.
              if \<not> allowed then ret ()
              else except_do (andthen (on_files (move_path srcabs dstabs)) (\<lambda>_. say (cps ''> '' @ name_of srcabs @ cps '' moved to '' @ dst))) is_oserror
                (\<lambda>err. if err = FileNotFoundError then complain (cps ''> '' @ name_of srcabs @ cps '' not found'')
                   else if err = PermissionError then complain (cps ''> permission denied'')
                   else guierror (cps ''> error moving '') err))))))))"

definition move :: "pystr list \<Rightarrow> json sio" where
  "move args =
     andthen (connected_args WantFile args) (\<lambda>tokens.
       if length tokens < 2 then nothing (say (cps ''> enter the source filename and destination after the move directive''))
       else if list_ex haswild (butlast tokens) then
         andthen (wildcardarguments tokens WantFile (cps ''to'')) (\<lambda>(sources, dstabs).
           if sources = [] then nothing (complain (cps ''> could not move file ensure source exists and destination is valid''))
           else andthen (path_isdir dstabs) (\<lambda>tier.
             if 1 < length sources \<and> \<not> tier then nothing (complain (cps ''> destination must be an existing tier when moving multiple items''))
             else transactionmove sources dstabs))
       else nothing (over_splits tokens move_split (cps ''> could not move file ensure source exists and destination is valid'')))"

definition inside_itself :: "pystr \<Rightarrow> pystr \<Rightarrow> bool sio" where
  "inside_itself src dst =
     catch (andthen (located dst) (\<lambda>d. andthen (located src) (\<lambda>s. andthen (located src) (\<lambda>s2.
         ret (common_prefix d s = s2)))))
       (\<lambda>_. ret False)"

definition movetier_split :: "pystr \<Rightarrow> pystr \<Rightarrow> bool sio" where
  "movetier_split src dst =
     andthen (both_located src dst) (\<lambda>(srcabs, dstabs).
     andthen (path_exists srcabs) (\<lambda>there.
     andthen (path_isdir dstabs) (\<lambda>tier.
       if \<not> (there \<and> tier) then ret False
       else finished (andthen (inside_itself src dst) (\<lambda>inside.
         if inside then complain (cps ''> cannot move '' @ src @ cps '' inside itself'')
         else andthen (path_exists (named_in dstabs srcabs)) (\<lambda>taken.
           if taken then complain (cps ''> destination '' @ path_text (named_in dstabs srcabs) @ cps '' already exists'')
           else andthen (allowpaths [srcabs, named_in dstabs srcabs]) (\<lambda>allowed.
             if \<not> allowed then ret ()
             else except_do (andthen (on_files (move_path srcabs dstabs)) (\<lambda>_. say (cps ''> tier moved to '' @ dst))) is_oserror
               (\<lambda>err. if err = FileNotFoundError then complain (cps ''> source tier '' @ src @ cps '' not found'')
                  else if err = NotADirectoryError then complain (cps ''> destination '' @ dst @ cps '' not a tier'')
                  else if err = PermissionError then complain (cps ''> permission denied'')
                  else guierror (cps ''> error moving tier '') err))))))))"

definition movetier :: "pystr list \<Rightarrow> json sio" where
  "movetier args =
     andthen (connected_args WantDir args) (\<lambda>tokens.
       if length tokens < 2 then nothing (say (cps ''> enter the source tier and destination tier after the move tier directive''))
       else if list_ex haswild (butlast tokens) then
         andthen (wildcardarguments tokens WantDir (cps ''to'')) (\<lambda>(sources, dstabs).
         andthen (path_isdir dstabs) (\<lambda>tier.
           if sources = [] \<or> \<not> tier
           then nothing (complain (cps ''> could not move tier ensure source exists and destination is an existing tier''))
           else transactionmove sources dstabs))
       else nothing (over_splits tokens movetier_split (cps ''> could not move tier ensure source exists and destination is an existing tier'')))"

section \<open>Copying\<close>

text \<open>\<open>os.path.splitext\<close> of a name.\<close>

definition splitext :: "pystr \<Rightarrow> pystr \<times> pystr" where
  "splitext name =
     (let ext = rev (takeWhile (\<lambda>c. c \<noteq> 46) (rev name)); stem = rev (dropWhile (\<lambda>c. c \<noteq> 46) (rev name)) in
      if stem \<noteq> [] \<and> list_ex (\<lambda>c. c \<noteq> 46) (butlast stem) then (butlast stem, 46 # ext) else (name, []))"

definition copy_name :: "pystr \<Rightarrow> pystr \<Rightarrow> nat \<Rightarrow> pystr" where
  "copy_name base ext count = base @ cps '' - copy'' @ (if count \<le> 1 then [] else 32 # dec_nat count) @ ext"

text \<open>The first number whose name is free.  There are more numbers than entries, so the fuel suffices.\<close>

fun free_copy :: "nat \<Rightarrow> nat \<Rightarrow> (nat \<Rightarrow> rpath) \<Rightarrow> nat option sio" where
  "free_copy 0 count f = ret None"
| "free_copy (Suc fuel) count f =
     andthen (path_exists (f count)) (\<lambda>there. if there then free_copy fuel (count + 1) f else ret (Some count))"

definition fresh_copy :: "(nat \<Rightarrow> rpath) \<Rightarrow> nat option sio" where
  "fresh_copy f = andthen (getting (\<lambda>e w. length (sh_fs w) + 1)) (\<lambda>fuel. free_copy fuel 1 f)"

definition duplicate :: "(rpath \<Rightarrow> rpath \<Rightarrow> unit rio) \<Rightarrow> pystr \<Rightarrow> pystr \<Rightarrow> pystr \<Rightarrow> rpath \<Rightarrow> unit sio" where
  "duplicate f failing base ext srcabs =
     andthen (fresh_copy (\<lambda>k. butlast srcabs @ [copy_name base ext k])) (\<lambda>r. (case r of
       None \<Rightarrow> ret ()
     | Some k \<Rightarrow>
         (let target = butlast srcabs @ [copy_name base ext k] in
          andthen (allowpaths [target]) (\<lambda>allowed.
            if \<not> allowed then ret ()
            else catch (andthen (on_files (f srcabs target)) (\<lambda>_. say (cps ''> '' @ name_of srcabs @ cps '' copied to '' @ copy_name base ext k)))
              (\<lambda>err. if err = PermissionError then complain (cps ''> permission denied'') else guierror failing err)))))"

definition single_source :: "want \<Rightarrow> pystr list \<Rightarrow> bool sio" where
  "single_source want tokens =
     (let t = join_with 32 tokens in
      if t = [] then ret False else catch (andthen (located t) (\<lambda>p. sourcekind p want)) (\<lambda>_. ret False))"

definition copy_split :: "pystr \<Rightarrow> pystr \<Rightarrow> bool sio" where
  "copy_split src dst =
     andthen (both_located src dst) (\<lambda>(srcabs, dstabs).
     andthen (path_isfile srcabs) (\<lambda>is_file.
       if \<not> is_file then ret False
       else finished (andthen (path_isdir dstabs) (\<lambda>tier.
         (let target = (if tier then named_in dstabs srcabs else dstabs) in
          andthen (path_exists target) (\<lambda>taken.
            if taken then complain (cps ''> destination '' @ path_text target @ cps '' already exists'')
            else andthen (allowpaths [target]) (\<lambda>allowed.
              if \<not> allowed then ret ()
              else except_do (andthen (on_files (copy2 srcabs target)) (\<lambda>_. say (cps ''> '' @ name_of srcabs @ cps '' copied to '' @ dst))) is_oserror
                (\<lambda>err. if err = FileNotFoundError then complain (cps ''> '' @ src @ cps '' not found'')
                   else if err = PermissionError then complain (cps ''> permission denied'')
                   else guierror (cps ''> error copying file '') err))))))))"

definition copy :: "pystr list \<Rightarrow> json sio" where
  "copy args =
     andthen (connected_args WantFile args) (\<lambda>tokens.
     andthen (single_source WantFile tokens) (\<lambda>whole.
       if length tokens = 1 \<or> whole then
         nothing (andthen (located_or_invalid (join_with 32 tokens)) (\<lambda>srcabs.
           andthen (path_isfile srcabs) (\<lambda>is_file.
             if \<not> is_file then complain (cps ''> '' @ name_of srcabs @ cps '' not found'')
             else duplicate copy2 (cps ''> error copying file '') (fst (splitext (name_of srcabs))) (snd (splitext (name_of srcabs))) srcabs)))
       else if list_ex haswild (butlast tokens) then
         andthen (wildcardarguments tokens WantFile (cps ''to'')) (\<lambda>(sources, dstabs).
           if sources = [] then nothing (complain (cps ''> could not copy file ensure source exists and destination is valid''))
           else andthen (path_isdir dstabs) (\<lambda>tier.
             if 1 < length sources \<and> \<not> tier then nothing (complain (cps ''> destination must be an existing tier when copying multiple items''))
             else transactioncopy sources dstabs))
       else nothing (over_splits tokens copy_split (cps ''> could not copy file ensure source exists and destination is valid''))))"

definition copytier_split :: "pystr \<Rightarrow> pystr \<Rightarrow> bool sio" where
  "copytier_split src dst =
     andthen (both_located src dst) (\<lambda>(srcabs, dstabs).
     andthen (path_isdir srcabs) (\<lambda>tier.
       if \<not> tier then ret False
       else finished (andthen (path_isdir dstabs) (\<lambda>into.
         (let target = (if into then named_in dstabs srcabs else dstabs); shown = (if into then path_text target else dst) in
          andthen (path_exists target) (\<lambda>taken.
            if taken then complain (cps ''> destination '' @ shown @ cps '' already exists'')
            else andthen (allowpaths [target]) (\<lambda>allowed.
              if \<not> allowed then ret ()
              else except_do (andthen (on_files (copytree srcabs target)) (\<lambda>_. say (cps ''> '' @ name_of srcabs @ cps '' copied to '' @ shown))) is_oserror
                (\<lambda>err. if err = FileExistsError then complain (cps ''> destination '' @ shown @ cps '' already exists'')
                   else if err = PermissionError then complain (cps ''> permission denied'')
                   else guierror (cps ''> error copying tier '') err))))))))"

definition copytier :: "pystr list \<Rightarrow> json sio" where
  "copytier args =
     andthen (connected_args WantDir args) (\<lambda>tokens.
     andthen (single_source WantDir tokens) (\<lambda>whole.
       if length tokens = 1 \<or> whole then
         nothing (andthen (located_or_invalid (join_with 32 tokens)) (\<lambda>srcabs.
           andthen (path_isdir srcabs) (\<lambda>tier.
             if \<not> tier then complain (cps ''> source tier not found'')
             else duplicate copytree (cps ''> error copying tier '') (name_of srcabs) [] srcabs)))
       else if list_ex haswild (butlast tokens) then
         andthen (wildcardarguments tokens WantDir (cps ''to'')) (\<lambda>(sources, dstabs).
         andthen (path_isdir dstabs) (\<lambda>tier.
           if sources = [] \<or> \<not> tier
           then nothing (complain (cps ''> could not copy tier ensure source exists and destination is an existing tier''))
           else transactioncopy sources dstabs))
       else nothing (over_splits tokens copytier_split (cps ''> could not copy tier ensure source exists''))))"

end
