(* ===== verification/Shell_Quiet.thy ===== *)
theory Shell_Quiet
  imports Shell_Directives
begin

text \<open>
  The parts of the shell that only look: they leave the file system as it is and, while the list of
  drives is fresh, that list too.
\<close>

section \<open>Loops\<close>

locale shell_rel = state_rel R for R :: "shell \<Rightarrow> shell \<Rightarrow> bool"
begin

lemma at_first_of: "(\<And>x. x \<in> set xs \<Longrightarrow> keeps_at R e (f x)) \<Longrightarrow> keeps_at R e (first_of xs f)"
  by (induction xs) (auto intro!: at_ret at_andthen)

lemma at_map_prog: "(\<And>x. x \<in> set xs \<Longrightarrow> keeps_at R e (f x)) \<Longrightarrow> keeps_at R e (map_prog f xs)"
  by (induction xs) (auto intro!: at_ret at_andthen)

lemma at_getting: "keeps_at R e (getting f)"
  by (simp add: keeps_at_def getting_def refl)

end

section \<open>Programs that only look\<close>

definition fresh :: "senv \<Rightarrow> shell \<Rightarrow> bool" where
  "fresh e w \<longleftrightarrow> sh_drives w \<noteq> [] \<and> (\<forall>n. r_time (se_base e) n - sh_scan w < DRIVESCANINTERVAL)"

definition hush :: "senv \<Rightarrow> shell \<Rightarrow> shell \<Rightarrow> bool" where
  "hush e w w' \<longleftrightarrow> sh_fs w' = sh_fs w \<and> (fresh e w \<longrightarrow> sh_drives w' = sh_drives w \<and> sh_scan w' = sh_scan w)"

abbreviation quiet :: "senv \<Rightarrow> 'a sio \<Rightarrow> bool" where
  "quiet e \<equiv> keeps_at (hush e) e"

interpretation hush: shell_rel "hush e" for e
  by unfold_locales (auto simp: hush_def fresh_def)

interpretation files: state_rel "\<lambda>b b'. b_fs b' = b_fs b"
  by unfold_locales auto

abbreviation reads :: "senv \<Rightarrow> 'a rio \<Rightarrow> bool" where
  "reads e \<equiv> keeps_at (\<lambda>b b'. b_fs b' = b_fs b) (se_base e)"

lemma reads_rcall: "reads e (rcall f)"
  by (auto simp: keeps_at_def rcall_def split: option.splits)

lemma reads_now: "reads e now_of"
  by (simp add: keeps_at_def now_of_def)

lemma quiet_files: "reads e m \<Longrightarrow> quiet e (on_files m)"
  by (auto simp: keeps_at_def on_files_def hush_def split: prod.splits) (metis snd_conv)

lemma quiet_set: "(\<And>w. sh_bin (f w) = sh_bin w \<and> sh_drives (f w) = sh_drives w \<and> sh_scan (f w) = sh_scan w) \<Longrightarrow> quiet e (setting f)"
  by (simp add: keeps_at_def setting_def hush_def)

lemma appendline_keeps:
  "sh_bin (fold (\<lambda>l. appendline l c) ls w) = sh_bin w"
  "sh_drives (fold (\<lambda>l. appendline l c) ls w) = sh_drives w"
  "sh_scan (fold (\<lambda>l. appendline l c) ls w) = sh_scan w"
  by (induction ls arbitrary: w) (simp_all add: appendline_def Let_def)

lemma quiet_guiprint: "quiet e (guiprint t c)"
  unfolding guiprint_def by (rule quiet_set) (simp add: Let_def appendline_keeps)

lemma quiet_guierror: "quiet e (guierror t err)"
  unfolding guierror_def by (intro hush.at_andthen hush.at_getting quiet_guiprint)

lemma quiet_paths: "quiet e (path_exists p)" "quiet e (path_isdir p)" "quiet e (path_isfile p)" "quiet e (sourcekind p want)"
  by (simp_all add: path_exists_def path_isdir_def path_isfile_def sourcekind_def hush.at_getting split: want.split)

named_theorems looks \<open>programs that only look\<close>

lemmas [looks] = hush.at_ret hush.at_raise hush.at_lift hush.at_getting quiet_guiprint quiet_guierror quiet_paths

section \<open>Drives and locations\<close>

interpretation same: shell_rel "\<lambda>w w'. sh_fs w' = sh_fs w"
  by unfold_locales auto

lemma same_files: "reads e m \<Longrightarrow> keeps_at (\<lambda>w w'. sh_fs w' = sh_fs w) e (on_files m)"
  by (auto simp: keeps_at_def on_files_def split: prod.splits) (metis snd_conv)

lemma same_load_json: "keeps_at (\<lambda>w w'. sh_fs w' = sh_fs w) e (load_json p)"
  unfolding load_json_def environment_def read_file_def
  by (intro same.at_andthen same.at_getting same_files reads_rcall) (auto intro: same.at_raise same.at_ret split: option.split)

lemma same_set: "(\<And>w. sh_bin (f w) = sh_bin w) \<Longrightarrow> keeps_at (\<lambda>w w'. sh_fs w' = sh_fs w) e (setting f)"
  by (simp add: keeps_at_def setting_def)

lemma same_scan: "keeps_at (\<lambda>w w'. sh_fs w' = sh_fs w) e (scan_drives now)"
  unfolding scan_drives_def environment_def Let_def listdir_def
  by (intro same.at_andthen same.at_except same_load_json same.at_ret same.at_getting same_files reads_rcall same_set) simp

lemma same_loaddrives: "keeps_at (\<lambda>w w'. sh_fs w' = sh_fs w) e (loaddrives force)"
  unfolding loaddrives_def
  by (intro same.at_andthen same_files reads_now same.at_getting) (auto intro!: same.at_ret same.at_andthen same.at_getting same_scan)

text \<open>A fresh list of drives is not read again.\<close>

lemma loaddrives_fresh:
  assumes "fresh e w"
  shows "\<exists>b. loaddrives False e w = (Inr False, w\<lparr>sh_bin := b\<rparr>) \<and> b_fs b = sh_fs w"
  using assms
  by (intro exI [where x = "(sh_bin w)\<lparr>b_calls := b_calls (sh_bin w) + 1\<rparr>"])
    (simp add: fresh_def loaddrives_def andthen_def on_files_def now_of_def getting_def ret_def)

lemma quiet_loaddrives [looks]: "quiet e (loaddrives False)"
  unfolding keeps_at_def
proof
  fix w
  have "sh_fs (snd (loaddrives False e w)) = sh_fs w" using same_loaddrives [of e False] by (simp add: keeps_at_def)
  moreover have "sh_drives (snd (loaddrives False e w)) = sh_drives w \<and> sh_scan (snd (loaddrives False e w)) = sh_scan w" if "fresh e w"
    using loaddrives_fresh [OF that] by auto
  ultimately show "hush e w (snd (loaddrives False e w))" by (simp add: hush_def)
qed

lemma quiet_located [looks]: "quiet e (parselocation t c)" "quiet e (resolvepath t)" "quiet e (located t)" "quiet e (located_or_invalid t)"
proof -
  show p: "quiet e (parselocation t c)" for t c unfolding parselocation_def by (intro hush.at_andthen looks)
  show r: "quiet e (resolvepath t)" for t
    unfolding resolvepath_def by (intro hush.at_andthen p) (auto intro: looks split: option.split)
  show l: "quiet e (located t)" for t unfolding located_def by (intro hush.at_andthen r looks)
  show "quiet e (located_or_invalid t)" unfolding located_or_invalid_def by (intro hush.at_except l looks)
qed

section \<open>Sources, destinations and permission\<close>

lemma quiet_maybe_located [looks]: "quiet e (catch (andthen (located t) (\<lambda>p. ret (Some p))) (\<lambda>_. ret None))"
  by (intro hush.at_except hush.at_andthen looks)

lemma quiet_expandwild [looks]: "quiet e (expandwild args)"
  unfolding expandwild_def wild_matches_def by (intro hush.at_andthen hush.at_map_prog looks)

lemma quiet_add_matches [looks]: "quiet e (add_matches want ms acc)"
  by (induction ms arbitrary: acc) (auto intro!: looks hush.at_andthen)

lemma quiet_addpattern [looks]: "quiet e (addpattern want t acc)"
  unfolding addpattern_def wild_matches_def by (intro hush.at_andthen looks) (auto intro!: looks hush.at_andthen split: option.split)

lemma quiet_add_patterns [looks]: "quiet e (add_patterns want ps acc)"
  by (induction ps arbitrary: acc) (auto intro!: looks hush.at_andthen)

lemma quiet_expandwildsources [looks]: "quiet e (expandwildsources tokens want)"
proof -
  have "quiet e (spaced_base want parts i)" for parts i
    unfolding spaced_base_def Let_def by (auto intro!: looks hush.at_andthen split: option.split)
  then show ?thesis
    unfolding expandwildsources_def Let_def by (auto intro!: looks hush.at_andthen hush.at_first_of split: option.split)
qed

lemma quiet_wildcardarguments [looks]: "quiet e (wildcardarguments tokens want connector)"
  unfolding wildcardarguments_def
  by (auto intro!: looks hush.at_andthen hush.at_first_of split: option.split list.split)

lemma quiet_connected_args [looks]: "quiet e (connected_args want args)"
  unfolding connected_args_def catalogueconnector_def connectorpaths_def connected_at_def Let_def
  by (auto intro!: looks hush.at_andthen hush.at_first_of hush.at_except split: option.split)

lemma quiet_allowed [looks]: "quiet e (bricklsmmutationallowed p)"
  unfolding bricklsmmutationallowed_def by (auto intro!: looks hush.at_andthen hush.at_except)

lemma quiet_allowpaths [looks]: "quiet e (allowpaths ps)"
  by (induction ps) (auto intro!: looks hush.at_andthen hush.at_except split: option.split)

lemma quiet_both_located [looks]: "quiet e (both_located a b)" "quiet e (inside_itself a b)" "quiet e (single_source want tokens)"
  unfolding both_located_def inside_itself_def single_source_def Let_def
  by (auto intro!: looks hush.at_andthen hush.at_except)

lemma quiet_existing [looks]: "quiet e (existing ps)"
  by (induction ps) (auto intro!: looks hush.at_andthen)

lemma quiet_targets [looks]: "quiet e (wild_targets tiers name args)" "quiet e (one_target tiers name)"
  unfolding wild_targets_def one_target_def
  by (auto intro!: looks hush.at_andthen hush.at_first_of split: option.split)

lemma quiet_free_copy [looks]: "quiet e (free_copy fuel k f)"
  by (induction fuel arbitrary: k) (auto intro!: looks hush.at_andthen)

lemma quiet_fresh_copy [looks]: "quiet e (fresh_copy f)"
  unfolding fresh_copy_def by (intro hush.at_andthen looks)

lemma quiet_preflight [looks]: "quiet e (preflight pairs)"
  by (induction pairs rule: preflight.induct) (auto intro!: looks hush.at_andthen)

lemma quiet_transactiontargets [looks]: "quiet e (transactiontargets sources destination)"
  unfolding transactiontargets_def Let_def
  by (auto intro!: looks hush.at_andthen hush.at_except hush.at_map_prog split: option.split)

lemma quiet_reports [looks]: "quiet e (preflight_failed message)" "quiet e (rolled_back_json what rollback items state err)"
  unfolding preflight_failed_def rolled_back_json_def by (intro hush.at_andthen looks)+

end
