(* ===== verification/T1_Files_Frame.thy ===== *)
theory T1_Files_Frame
  imports T1_Files_Facts
begin

text \<open>
  What a program on the file system leaves alone, whatever fails.  A frame names the paths that must not change
  at all (\<open>shut\<close>) and those that must not change once they are there (\<open>hold\<close>, the root among them).  A
  program stays in the frame when all it writes lies elsewhere.
\<close>

definition kept :: "(rpath \<Rightarrow> bool) \<Rightarrow> (rpath \<Rightarrow> bool) \<Rightarrow> store \<Rightarrow> store \<Rightarrow> bool" where
  "kept shut hold s s' \<longleftrightarrow> (\<forall>q. shut q \<or> hold q \<and> map_of s q \<noteq> None \<longrightarrow> map_of s' q = map_of s q)"

definition stays :: "(rpath \<Rightarrow> bool) \<Rightarrow> (rpath \<Rightarrow> bool) \<Rightarrow> rbin \<Rightarrow> rbin \<Rightarrow> bool" where
  "stays shut hold b b' \<longleftrightarrow> (map_of (b_fs b) [] = Some Tier \<longrightarrow> kept shut hold (b_fs b) (b_fs b'))"

lemma kept_refl: "kept shut hold s s"
  by (simp add: kept_def)

lemma kept_trans: "kept shut hold a b \<Longrightarrow> kept shut hold b c \<Longrightarrow> kept shut hold a c"
  by (simp add: kept_def)

text \<open>Paths that may be written, that may be created as a missing tier, and trees that may be written.\<close>

definition loose :: "(rpath \<Rightarrow> bool) \<Rightarrow> (rpath \<Rightarrow> bool) \<Rightarrow> rpath \<Rightarrow> bool" where
  "loose shut hold p \<longleftrightarrow> \<not> shut p \<and> \<not> hold p"

definition free_tree :: "(rpath \<Rightarrow> bool) \<Rightarrow> (rpath \<Rightarrow> bool) \<Rightarrow> rpath \<Rightarrow> bool" where
  "free_tree shut hold p \<longleftrightarrow> (\<forall>r. loose shut hold (p @ r))"

definition clear_way :: "(rpath \<Rightarrow> bool) \<Rightarrow> rpath \<Rightarrow> bool" where
  "clear_way shut p \<longleftrightarrow> (\<forall>k \<le> length p. \<not> shut (take k p))"

lemma free_below: "free_tree shut hold p \<Longrightarrow> starts_with p q \<Longrightarrow> loose shut hold q"
  by (auto simp: free_tree_def starts_with_iff)

lemma free_self: "free_tree shut hold p \<Longrightarrow> loose shut hold p"
  using free_below starts_with_refl by blast

lemma map_of_filter_other: "q \<noteq> p \<Longrightarrow> map_of (filter (\<lambda>(q, _). q \<noteq> p) s) q = map_of s q"
  by (induction s) auto

lemma map_of_shift_other: "\<not> starts_with src q \<Longrightarrow> \<not> starts_with dst q \<Longrightarrow> map_of (shift_tree src dst s) q = map_of s q"
  by (induction s) (auto simp: shift_tree_def starts_with_iff)

locale file_frame =
  fixes shut hold :: "rpath \<Rightarrow> bool"
  assumes root_held: "hold []"
begin

lemma stays_rel: "state_rel (stays shut hold)"
proof
  show "stays shut hold w w" for w by (simp add: stays_def kept_refl)
  fix a b c
  assume ab: "stays shut hold a b" and bc: "stays shut hold b c"
  show "stays shut hold a c"
    unfolding stays_def
  proof
    assume a: "map_of (b_fs a) [] = Some Tier"
    then have "kept shut hold (b_fs a) (b_fs b)" using ab by (simp add: stays_def)
    moreover from this have "map_of (b_fs b) [] = Some Tier" using a root_held by (simp add: kept_def)
    then have "kept shut hold (b_fs b) (b_fs c)" using bc by (simp add: stays_def)
    ultimately show "kept shut hold (b_fs a) (b_fs c)" by (rule kept_trans)
  qed
qed

end

sublocale file_frame \<subseteq> state_rel "stays shut hold"
  by (rule stays_rel)

context file_frame
begin

abbreviation frames :: "renv \<Rightarrow> 'a rio \<Rightarrow> bool" where
  "frames \<equiv> keeps_at (stays shut hold)"

lemma at_rcall: "frames e (rcall f)"
  by (auto simp: keeps_at_def rcall_def stays_def kept_refl split: option.splits)

lemma at_look: "frames e (look f)"
  by (simp add: keeps_at_def look_def stays_def kept_refl)

lemma at_now: "frames e now_of"
  by (simp add: keeps_at_def now_of_def stays_def kept_refl)

lemma at_token: "frames e (token_hex n)"
  by (simp add: keeps_at_def token_hex_def stays_def kept_refl)

lemma at_rchange:
  assumes "\<And>s s'. map_of s [] = Some Tier \<Longrightarrow> f s = Inr s' \<Longrightarrow> kept shut hold s s'"
  shows "frames e (rchange f)"
  using assms
  by (auto simp: keeps_at_def rchange_def andthen_def rcall_def put_fs_def stays_def kept_refl split: option.splits sum.splits)

lemma kept_put: "loose shut hold p \<or> map_of s p = None \<and> \<not> shut p \<Longrightarrow> kept shut hold s (put_entry p x s)"
  by (auto simp: kept_def loose_def)

lemma kept_filter: "loose shut hold p \<Longrightarrow> kept shut hold s (filter (\<lambda>(q, _). q \<noteq> p) s)"
  unfolding kept_def loose_def by (metis map_of_filter_other)

lemma at_mkdir: "\<not> shut p \<Longrightarrow> frames e (mkdir p)"
  unfolding mkdir_def
  by (rule at_rchange) (auto simp: found_def split: if_splits intro: kept_put)

lemma at_makedirs: "clear_way shut p \<Longrightarrow> frames e (makedirs p ok)"
  unfolding makedirs_def clear_way_def
  by (intro at_andthen at_foreach at_except) (auto intro!: at_look at_ret at_mkdir at_raise)

lemma at_open_for: "loose shut hold p \<Longrightarrow> frames e (open_for wipe p)"
  unfolding open_for_def
  by (rule at_rchange) (auto simp: kept_refl split: option.splits entry.splits if_splits intro: kept_put)

lemma at_add_bytes: "loose shut hold p \<Longrightarrow> frames e (add_bytes p bs)"
  unfolding add_bytes_def
  by (rule at_rchange) (auto split: option.splits entry.splits intro: kept_put)

lemma at_put_text: "loose shut hold p \<Longrightarrow> frames e (put_text p t)"
  unfolding put_text_def by (intro at_andthen at_open_for at_lift at_add_bytes)

lemma at_read_file: "frames e (read_file p)"
  unfolding read_file_def by (rule at_rcall)

lemma at_read_text: "frames e (read_text p)"
  unfolding read_text_def by (intro at_andthen at_read_file at_lift)

text \<open>The root is a tier, so it cannot be removed as a file.\<close>

lemma at_remove_file: "p = [] \<or> loose shut hold p \<Longrightarrow> frames e (remove_file p)"
  unfolding remove_file_def
  by (rule at_rchange) (auto split: option.splits entry.splits intro: kept_filter)

lemma at_remove_entry: "loose shut hold p \<Longrightarrow> frames e (remove_entry p)"
  unfolding remove_entry_def
  by (rule at_rchange) (auto split: if_splits intro: kept_filter)

lemma listed_below: "list_tree p e b = (Inr ks, b') \<Longrightarrow> k \<in> set ks \<Longrightarrow> starts_with p k"
  by (auto simp: list_tree_def rcall_def keys_below_def split: option.splits entry.splits)

lemma at_list_tree: "frames e (list_tree p)"
  unfolding list_tree_def by (rule at_rcall)

lemma at_rmtree_strict: "free_tree shut hold p \<Longrightarrow> frames e (rmtree_strict p)"
  unfolding rmtree_strict_def
  by (intro at_andthen [OF at_list_tree] at_foreach at_remove_entry) (metis free_below listed_below)

lemma at_rmtree: "free_tree shut hold p \<Longrightarrow> frames e (rmtree p)"
  unfolding rmtree_def
  by (intro at_except at_ret at_andthen [OF at_list_tree] at_foreach at_remove_entry) (metis free_below listed_below)

lemma at_copy_file: "loose shut hold dst \<Longrightarrow> frames e (copy_file src dst)"
  unfolding copy_file_def by (rule at_andthen [OF at_look]) (auto intro: at_andthen at_read_file at_open_for at_add_bytes at_raise)

lemma at_copy2: "loose shut hold dst \<Longrightarrow> (src \<noteq> [] \<longrightarrow> loose shut hold (dst @ [last src])) \<Longrightarrow> frames e (copy2 src dst)"
  unfolding copy2_def by (intro at_andthen at_look at_copy_file) auto

lemma at_copy_entries: "free_tree shut hold dst \<Longrightarrow> frames e (copy_entries src dst xs)"
proof (induction src dst xs rule: copy_entries.induct)
  case (2 src dst q x xs)
  then have "loose shut hold (dst @ drop (length src) q)" by (simp add: free_tree_def)
  then have "\<not> shut (dst @ drop (length src) q)" "loose shut hold (dst @ drop (length src) q)" by (simp_all add: loose_def)
  then have "frames e (case x of Tier \<Rightarrow> mkdir (dst @ drop (length src) q) | File _ \<Rightarrow> copy_file q (dst @ drop (length src) q))"
    by (cases x) (simp_all add: at_mkdir at_copy_file)
  then show ?case using 2 by (auto simp: Let_def intro!: at_andthen at_except at_ret)
qed (simp add: at_ret)

lemma at_copytree: "free_tree shut hold dst \<Longrightarrow> clear_way shut dst \<Longrightarrow> frames e (copytree src dst)"
  unfolding copytree_def
  by (intro at_andthen at_rcall at_makedirs at_copy_entries) (auto intro: at_ret at_raise)

lemma kept_shift:
  assumes "free_tree shut hold src" "free_tree shut hold dst"
  shows "kept shut hold s (shift_tree src dst s)"
  unfolding kept_def
proof (intro allI impI)
  fix q
  assume "shut q \<or> hold q \<and> map_of s q \<noteq> None"
  then have "\<not> starts_with src q" "\<not> starts_with dst q"
    using free_below [OF assms(1)] free_below [OF assms(2)] by (auto simp: loose_def)
  then show "map_of (shift_tree src dst s) q = map_of s q" by (rule map_of_shift_other)
qed

text \<open>The root is above every path and cannot be moved, and nothing can be moved to where it is.\<close>

lemma at_rename:
  assumes "src = [] \<or> free_tree shut hold src" "dst = [] \<or> free_tree shut hold dst"
  shows "frames e (rename_path src dst)"
proof (rule keeps_at_env)
  have "kept shut hold s s'" if "renamed src dst s = Inr s'" for s s'
  proof (cases "src = [] \<or> dst = []")
    case True
    then show ?thesis using that by (auto simp: renamed_def starts_with_def parent_found_def kept_refl split: if_splits)
  next
    case False
    have "loose shut hold dst" using assms(2) False free_self by blast
    from kept_filter [OF this] kept_shift [of src dst] show ?thesis
      using that assms False kept_trans [of shut hold s]
      by (auto simp: renamed_def kept_refl split: if_splits option.splits)
  qed
  then have "frames e (rchange (\<lambda>s. if r_device e src = r_device e dst then renamed src dst s else Inl OSError))"
    by (intro at_rchange) (simp split: if_splits)
  then show "frames e (\<lambda>_. rename_path src dst e)" by (simp add: keeps_at_def rename_path_def)
qed

lemma at_move_copying:
  assumes "src = [] \<or> free_tree shut hold src" "free_tree shut hold goal" "clear_way shut goal"
  shows "frames e (move_copying src goal)"
proof -
  have "loose shut hold goal" "src \<noteq> [] \<longrightarrow> loose shut hold (goal @ [last src])" "src = [] \<or> loose shut hold src"
    using assms(1,2) free_self by (auto simp: free_tree_def)
  then have "frames e (andthen (copy2 src goal) (\<lambda>_. remove_file src))" by (intro at_andthen at_copy2 at_remove_file)
  moreover have "frames e (if starts_with src goal then raise OSError else andthen (copytree src goal) (\<lambda>_. rmtree_strict src))"
    using assms by (auto intro!: at_andthen at_copytree at_rmtree_strict at_raise simp: starts_with_def)
  ultimately show ?thesis
    unfolding move_copying_def by (intro at_andthen [OF at_look]) simp
qed

lemma at_move_onto:
  assumes "src = [] \<or> free_tree shut hold src" "free_tree shut hold goal" "clear_way shut goal"
  shows "frames e (except_do (rename_path src goal) is_oserror (\<lambda>_. move_copying src goal))"
  using assms by (intro at_except at_rename at_move_copying) auto

text \<open>Moving: what is written is the destination, or the source's name in it when it is a tier.\<close>

lemma move_path_stays:
  assumes "src = [] \<or> free_tree shut hold src"
    and "map_of (b_fs b) dst \<noteq> Some Tier \<longrightarrow> free_tree shut hold dst \<and> clear_way shut dst"
    and "map_of (b_fs b) dst = Some Tier \<and> src \<noteq> [] \<and> src \<noteq> dst \<longrightarrow> free_tree shut hold (dst @ [last src]) \<and> clear_way shut (dst @ [last src])"
  shows "stays shut hold b (snd (move_path src dst e b))"
proof -
  have onto: "stays shut hold b (snd (except_do (rename_path src goal) is_oserror (\<lambda>_. move_copying src goal) e b))"
    if "free_tree shut hold goal" "clear_way shut goal" for goal
    using at_move_onto [OF assms(1) that, of e] by (simp add: keeps_at_def)
  have same: "stays shut hold b (snd (rename_path src src e b))"
    using at_rename [OF assms(1) assms(1), of e] by (simp add: keeps_at_def)
  show ?thesis
    using assms(2,3) onto same refl
    by (cases "map_of (b_fs b) dst = Some Tier"; cases "src = dst"; cases "src = []")
      (auto simp: move_path_def Let_def andthen_def look_def raise_def)
qed

end

end
