(* ===== verification/Rubbish_Frame.thy ===== *)
theory Rubbish_Frame
  imports T1_Files_Frame Rubbish_Restore
begin

text \<open>
  Putting paths into the rubbish writes below the bin and at the paths put away, and nowhere else, whatever fails.
\<close>

lemma makeid_plain:
  assumes "\<forall>n k. bytes_ok (r_token e n k)" "makeid e b = (Inr rid, b')"
  shows "payload_tier rid = RUBBISHDIR @ [rid]"
proof -
  obtain t n where rid: "rid = dec_int (truncate_rat (t * 1000)) @ [45] @ hex_of (r_token e n 4)"
    using assms(2) by (auto simp: makeid_def andthen_def now_of_def token_hex_def ret_def)
  then show ?thesis using new_id_facts(2) [OF assms(1), of rid t] by (simp add: new_ids_def)
qed

lemma new_payload_plain:
  assumes "\<forall>n k. bytes_ok (r_token e n k)" "new_payload e b = (Inr rid, b')"
  shows "payload_tier rid = RUBBISHDIR @ [rid]"
  using assms makeid_plain [OF assms(1)]
  by (auto simp: new_payload_def andthen_def except_do_def ret_def split: prod.splits sum.splits if_splits)

locale bin_frame = file_frame +
  assumes bin_loose: "q \<noteq> [] \<Longrightarrow> loose shut hold (RUBBISHDIR @ q)"
    and bin_open: "\<not> shut []" "\<not> shut RUBBISHDIR"
begin

lemma bin_clear: "clear_way shut (RUBBISHDIR @ q)"
  unfolding clear_way_def
proof (intro allI impI)
  fix k
  have "take k (RUBBISHDIR @ q) = [] \<or> take k (RUBBISHDIR @ q) = RUBBISHDIR @ take (k - 1) q"
    by (cases k) (simp_all add: RUBBISHDIR_def)
  then show "\<not> shut (take k (RUBBISHDIR @ q))"
    using bin_open bin_loose [of "take (k - 1) q"] by (cases "take (k - 1) q = []") (auto simp: loose_def)
qed

lemma bin_free: "q \<noteq> [] \<Longrightarrow> free_tree shut hold (RUBBISHDIR @ q)"
  unfolding free_tree_def using bin_loose by (metis append_assoc append_is_Nil_conv)

lemma loose_index: "loose shut hold INDEXFILE" "loose shut hold (RUBBISHDIR @ [x])"
  unfolding INDEXFILE_def by (rule bin_loose; simp)+

lemma at_ensuretiers: "frames e ensuretiers"
  unfolding ensuretiers_def using bin_clear [of "[]"] loose_index
  by (intro at_except at_andthen at_makedirs at_look at_ret) (auto intro: at_ret at_put_text)

lemma at_maketemp: "frames e maketemp"
  unfolding maketemp_def by (intro at_andthen at_token at_ret)

lemma maketemp_place: "maketemp e b = (Inr tmp, b') \<Longrightarrow> \<exists>x. tmp = RUBBISHDIR @ [x]"
  by (auto simp: maketemp_def andthen_def token_hex_def ret_def)

lemma at_appendindex: "frames e (appendindex row)"
proof -
  have body: "frames e (andthen (put_text tmp row) (\<lambda>_. andthen (open_for False INDEXFILE) (\<lambda>_.
        andthen (read_text tmp) (\<lambda>text. andthen (lift_res (utf8_strict text)) (\<lambda>bs.
        andthen (add_bytes INDEXFILE bs) (\<lambda>_. remove_file tmp))))))" if "loose shut hold tmp" for tmp
    using that loose_index(1)
    by (intro at_andthen at_put_text at_open_for at_read_text at_lift at_add_bytes at_remove_file) simp_all
  show ?thesis
    unfolding appendindex_def
    by (intro at_except at_ret at_andthen [OF at_maketemp] body) (metis maketemp_place loose_index(2))
qed

lemma at_makeid: "frames e makeid"
  unfolding makeid_def by (intro at_andthen at_now at_token at_ret)

lemma at_sizesingle: "frames e (sizesingle p)"
  unfolding sizesingle_def by (intro at_except at_rcall at_ret)

lemma at_new_payload:
  assumes "\<forall>n k. bytes_ok (r_token e n k)"
  shows "frames e new_payload"
proof -
  have one: "frames e (andthen (makedirs (payload_tier rid) False) (\<lambda>_. ret rid))" if "makeid e b = (Inr rid, b')" for rid b b'
    unfolding makeid_plain [OF assms that] by (intro at_andthen at_makedirs bin_clear at_ret)
  show ?thesis
    unfolding new_payload_def
    by (intro at_andthen [OF at_makeid] at_except) (use one at_makeid in \<open>auto intro!: at_andthen\<close>)
qed

lemma at_describe: "frames e (describe target rid user)"
  unfolding describe_def Let_def by (intro at_andthen at_look at_sizesingle at_now at_ret)

lemma at_getusername: "frames e getusername"
proof (rule keeps_at_env)
  have "frames e (andthen (except_do (read_file SESSIONIDENTITYFILE) (\<lambda>_. True) (\<lambda>_. raise ValueError)) (\<lambda>raw.
       if length raw > 1024 then raise ValueError
       else case utf8_decode_strict raw of
           Inl _ \<Rightarrow> raise ValueError
         | Inr text \<Rightarrow> (case c_loads (r_codec e) text of
             None \<Rightarrow> raise ValueError
           | Some v \<Rightarrow> (case identity_name v of None \<Rightarrow> raise ValueError | Some s \<Rightarrow> ret s))))"
    by (intro at_andthen at_except at_read_file at_raise) (auto split: sum.split option.split intro: at_raise at_ret)
  then show "frames e (\<lambda>_. getusername e)" by (simp add: keeps_at_def getusername_def)
qed

lemma at_store_move:
  assumes "target = [] \<or> free_tree shut hold target"
  shows "frames e (move_path target (RUBBISHDIR @ [rid, x]))"
  unfolding keeps_at_def
proof
  fix b
  show "stays shut hold b (snd (move_path target (RUBBISHDIR @ [rid, x]) e b))"
    using bin_free [of "[rid, x]"] bin_clear [of "[rid, x]"] bin_free [of "[rid, x, last target]"] bin_clear [of "[rid, x, last target]"]
    by (intro move_path_stays [OF assms]) simp_all
qed

lemma at_storeone:
  assumes "\<forall>n k. bytes_ok (r_token e n k)" "abspath (r_cwd e) path = [] \<or> free_tree shut hold (abspath (r_cwd e) path)"
  shows "frames e (storeone path)"
proof (rule keeps_at_env)
  let ?t = "abspath (r_cwd e) path"
  have put: "frames e (andthen (move_path ?t (payload_tier rid @ [cps ''content''])) (\<lambda>_.
      andthen (describe ?t rid user) (\<lambda>r. appendindex (item_row r @ [10]))))" if "new_payload e b = (Inr rid, b')" for rid b b' user
    unfolding new_payload_plain [OF assms(1) that] using at_store_move [OF assms(2), of e rid "cps ''content''"]
    by (intro at_andthen at_describe at_appendindex) simp
  have "frames e (except_do
       (andthen getusername (\<lambda>user.
        (if starts_with RUBBISHDIR ?t then ret ()
         else andthen (look (\<lambda>s. found s ?t)) (\<lambda>there.
             if \<not> there then ret ()
             else andthen new_payload (\<lambda>rid.
               andthen (move_path ?t (payload_tier rid @ [cps ''content''])) (\<lambda>_.
               andthen (describe ?t rid user) (\<lambda>r. appendindex (item_row r @ [10]))))))))
       (\<lambda>_. True) (\<lambda>_. ret ()))"
    using put
    by (intro at_except at_andthen [OF at_getusername] at_ret)
      (auto intro!: at_ret at_andthen [OF at_look] at_andthen [OF at_new_payload [OF assms(1)]])
  then show "frames e (\<lambda>_. storeone path e)" by (simp add: keeps_at_def storeone_def Let_def del: cps_Cons)
qed

lemma at_storepaths:
  assumes "\<forall>n k. bytes_ok (r_token e n k)"
    and "\<forall>p \<in> set paths. abspath (r_cwd e) p = [] \<or> free_tree shut hold (abspath (r_cwd e) p)"
  shows "frames e (storepaths paths)"
  unfolding storepaths_def using assms
  by (intro at_andthen [OF at_ensuretiers]) (auto intro!: at_foreach at_storeone at_ret)

end

end
