(* ===== verification/Shell_Frame.thy ===== *)
theory Shell_Frame
  imports Shell_Quiet Rubbish_Frame
begin

text \<open>
  The file directives write only at and below paths that \<open>allowpaths\<close> let through, whatever fails.  The
  frame of the file system is carried over to the shell: a guarded state has a fresh list of drives and a root.
\<close>

declare cps_Cons [simp del] allowpaths.simps [simp del]

section \<open>Guarded states\<close>

definition tidy :: "rpath \<Rightarrow> bool" where
  "tidy p \<longleftrightarrow> list_all (\<lambda>c. plain_part c \<and> 92 \<notin> set c) p"

text \<open>The working tier is on a drive whose root is the root of the file system.\<close>

definition home :: "rpath \<Rightarrow> (int \<times> drive) list \<Rightarrow> bool" where
  "home cwd ds \<longleftrightarrow> (\<exists>d. map_of ds (dr_number (driveforpath cwd ds (path_text cwd))) = Some d \<and> dr_root d = [47])"

text \<open>Where the directives run: at home, outside the rubbish, with bytes from the source of random bytes.\<close>

definition settled :: "senv \<Rightarrow> (int \<times> drive) list \<Rightarrow> bool" where
  "settled e ds \<longleftrightarrow> home (s_cwd e) ds \<and> \<not> in_rubbish (s_cwd e) \<and> (\<forall>n k. bytes_ok (r_token (se_base e) n k))"

definition guards :: "senv \<Rightarrow> (int \<times> drive) list \<Rightarrow> shell \<Rightarrow> bool" where
  "guards e ds w \<longleftrightarrow> settled e ds \<and> fresh e w \<and> sh_drives w = ds \<and> map_of (sh_fs w) [] = Some Tier"

definition framed :: "(rpath \<Rightarrow> bool) \<Rightarrow> (rpath \<Rightarrow> bool) \<Rightarrow> senv \<Rightarrow> (int \<times> drive) list \<Rightarrow> shell \<Rightarrow> shell \<Rightarrow> bool" where
  "framed shut hold e ds w w' \<longleftrightarrow>
     (guards e ds w \<longrightarrow> kept shut hold (sh_fs w) (sh_fs w') \<and> sh_drives w' = sh_drives w \<and> sh_scan w' = sh_scan w)"

lemma physical_absolute: "physicalnormalize cwd t \<noteq> []" "hd (physicalnormalize cwd t) = 47" "92 \<notin> set (physicalnormalize cwd t)"
proof -
  obtain r where "path_text (abspath cwd t) = 47 # r"
    by (cases "abspath cwd t") (simp_all add: path_text_def)
  then show "physicalnormalize cwd t \<noteq> []" "hd (physicalnormalize cwd t) = 47" "92 \<notin> set (physicalnormalize cwd t)"
    by (auto simp: physicalnormalize_def unslash_def)
qed

lemma resolve_set: "\<forall>c \<in> set cs. 92 \<notin> set c \<Longrightarrow> \<forall>c \<in> set p. 92 \<notin> set c \<Longrightarrow> \<forall>c \<in> set (resolve p cs). 92 \<notin> set c"
proof (induction cs arbitrary: p)
  case (Cons c cs)
  have no: "\<forall>c \<in> set (butlast p). 92 \<notin> set c" "\<forall>d \<in> set (p @ [c]). 92 \<notin> set d" "\<forall>c \<in> set cs. 92 \<notin> set c"
    using Cons.prems by (auto dest: in_set_butlastD)
  have "resolve p (c # cs) \<in> {resolve p cs, resolve (butlast p) cs, resolve (p @ [c]) cs}" by simp
  then show ?case using Cons.IH [OF no(3) Cons.prems(2)] Cons.IH [OF no(3,1)] Cons.IH [OF no(3,2)] by (elim insertE) (auto simp del: resolve.simps)
qed simp

lemma split_on_chars: "x \<in> set (split_on c s) \<Longrightarrow> set x \<subseteq> set s"
proof (induction s arbitrary: x)
  case (Cons a s)
  show ?case
  proof (cases "split_on c s")
    case Nil
    then show ?thesis using Cons.prems by (auto split: if_splits)
  next
    case (Cons y ys)
    then have "set y \<subseteq> set s" "\<And>z. z \<in> set ys \<Longrightarrow> set z \<subseteq> set s" using Cons.IH by simp_all
    then show ?thesis using Cons.prems local.Cons by (auto split: if_splits)
  qed
qed auto

lemma abspath_tidy: "tidy (abspath cwd (physicalnormalize cwd' t))"
proof -
  let ?q = "physicalnormalize cwd' t"
  have a: "abspath cwd ?q = resolve [] (split_on 47 ?q)" using physical_absolute [of cwd' t] by (simp add: abspath_def)
  have "\<forall>c \<in> set (split_on 47 ?q). 92 \<notin> set c" using physical_absolute(3) [of cwd' t] split_on_chars by fastforce
  then have "\<forall>c \<in> set (abspath cwd ?q). 92 \<notin> set c" unfolding a by (intro resolve_set) auto
  moreover have "list_all plain_part (abspath cwd ?q)"
    unfolding a using split_on_parts_no_sep by (intro resolve_parts) auto
  ultimately show ?thesis by (auto simp: tidy_def list_all_iff)
qed

lemma drivepath_physical: "drivepath cwd ds n rel = Some q \<Longrightarrow> \<exists>t. q = physicalnormalize cwd t"
  by (auto simp: drivepath_def Let_def split: option.splits if_splits)

lemma read_location_physical: "read_location cwd ds cur v = (n, Some q) \<Longrightarrow> \<exists>t. q = physicalnormalize cwd t"
  unfolding read_location_def Let_def
  by (auto split: option.splits prod.splits if_splits dest: drivepath_physical)

lemma located_tidy: "located t e w = (Inr p, w') \<Longrightarrow> tidy p"
proof -
  assume "located t e w = (Inr p, w')"
  then obtain q n cur and w1 :: shell where "read_location (s_cwd e) (sh_drives w1) cur t = (n, Some q)" "p = abspath (s_cwd e) q"
    by (auto simp: located_def resolvepath_def parselocation_def andthen_Inr getting_def Let_def split: option.splits)
  then show ?thesis using read_location_physical abspath_tidy by blast
qed

lemma both_tidy: "both_located a b e w = (Inr (p, q), w') \<Longrightarrow> tidy p \<and> tidy q"
  unfolding both_located_def except_do_def
  by (auto simp: andthen_Inr ret_def INVALIDPATH_def tidy_def plain_part_def split: prod.splits sum.splits if_splits dest!: located_tidy)

lemma located_or_invalid_tidy: "located_or_invalid t e w = (Inr p, w') \<Longrightarrow> tidy p"
  unfolding located_or_invalid_def except_do_def
  by (auto simp: ret_def INVALIDPATH_def tidy_def plain_part_def split: prod.splits sum.splits if_splits dest!: located_tidy)

lemma tidy_named: "tidy p \<Longrightarrow> tidy q \<Longrightarrow> tidy (named_in p q)"
  by (auto simp: tidy_def named_in_def list_all_iff)

lemma test_run: "getting f e w = (Inr x, w') \<Longrightarrow> x = f e w \<and> w' = w"
  by (auto simp: getting_def)

section \<open>Targets\<close>

lemma glob_plain:
  assumes "tidy pat" "q \<in> set (glob pat s)"
  shows "list_all plain_part q"
proof -
  have "list_all2 glob_part pat q" using assms(2) by (auto simp: glob_def)
  then show ?thesis using assms(1)
    by (induction rule: list_all2_induct) (auto simp: tidy_def glob_part_def split: if_splits)
qed

lemma map_prog_results:
  "map_prog f xs e w = (Inr ys, w') \<Longrightarrow> (\<And>x w y w'. x \<in> set xs \<Longrightarrow> f x e w = (Inr y, w') \<Longrightarrow> Q y) \<Longrightarrow> y \<in> set ys \<Longrightarrow> Q y"
proof (induction xs arbitrary: w ys)
  case (Cons x xs)
  then obtain z zs w1 where "f x e w = (Inr z, w1)" "map_prog f xs e w1 = (Inr zs, w')" "ys = z # zs"
    by (auto simp: andthen_Inr)
  then show ?case using Cons.IH [of w1 zs] Cons.prems(2,3) by (metis list.set_intros(1,2) set_ConsD)
qed simp

lemma expandwild_plain:
  assumes "expandwild args e w = (Inr ps, w')" "p \<in> set ps"
  shows "list_all plain_part p"
proof -
  obtain pss where pss: "map_prog (\<lambda>a. andthen (located_or_invalid a) (\<lambda>p.
      andthen (wild_matches p) (\<lambda>ms. ret (if ms = [] then [p] else ms)))) args e w = (Inr pss, w')" "ps = concat pss"
    using assms(1) by (auto simp: expandwild_def andthen_Inr)
  have "\<forall>q \<in> set qs. list_all plain_part q" if "qs \<in> set pss" for qs
  proof (rule map_prog_results [OF pss(1) _ that], intro ballI)
    fix a w1 ys w2 q
    assume "andthen (located_or_invalid a) (\<lambda>p. andthen (wild_matches p) (\<lambda>ms. ret (if ms = [] then [p] else ms))) e w1 = (Inr ys, w2)"
      and q: "q \<in> set ys"
    then obtain p w3 ms where p: "located_or_invalid a e w1 = (Inr p, w3)" "wild_matches p e w3 = (Inr ms, w2)" "ys = (if ms = [] then [p] else ms)"
      by (auto simp: andthen_Inr)
    have t: "tidy p" by (rule located_or_invalid_tidy [OF p(1)])
    then have "list_all plain_part p" by (auto simp: tidy_def list_all_iff)
    then show "list_all plain_part q"
      using p(2,3) q glob_plain [OF t] by (auto simp: wild_matches_def getting_def split: if_splits)
  qed
  then show ?thesis using pss(2) assms(2) by auto
qed

lemma existing_subset: "existing ps e w = (Inr qs, w') \<Longrightarrow> set qs \<subseteq> set ps"
proof (induction ps arbitrary: w qs)
  case (Cons p ps)
  then obtain b w1 rs where "existing ps e w1 = (Inr rs, w')" "qs = (if b then p # rs else rs)" by (auto simp: andthen_Inr)
  then show ?case using Cons.IH [of w1 rs] by (auto split: if_splits)
qed simp

lemma targets_plain:
  "wild_targets tiers name args e w = (Inr (Some ps), w') \<Longrightarrow> p \<in> set ps \<Longrightarrow> list_all plain_part p"
  "one_target tiers name e w = (Inr (Some ps), w') \<Longrightarrow> p \<in> set ps \<Longrightarrow> list_all plain_part p"
proof -
  assume "wild_targets tiers name args e w = (Inr (Some ps), w')" and p: "p \<in> set ps"
  then obtain qs w1 w2 where "expandwild args e w = (Inr qs, w1)" "existing qs e w1 = (Inr ps, w2)"
    by (auto simp: wild_targets_def andthen_Inr split: if_splits option.splits)
  then show "list_all plain_part p" using expandwild_plain existing_subset p by blast
next
  assume "one_target tiers name e w = (Inr (Some ps), w')" and p: "p \<in> set ps"
  then obtain w1 where "located name e w = (Inr p, w1)"
    by (auto simp: one_target_def andthen_Inr split: if_splits)
  then show "list_all plain_part p" using located_tidy by (fastforce simp: tidy_def list_all_iff)
qed

section \<open>The logic\<close>

locale shell_frame = bin_frame shut hold for shut hold :: "rpath \<Rightarrow> bool" +
  fixes e :: senv and ds :: "(int \<times> drive) list" and permit :: "rpath \<Rightarrow> bool"
  assumes allow_sound: "guards e ds w \<Longrightarrow> allowpaths ps e w = (Inr True, w') \<Longrightarrow> p \<in> set ps \<Longrightarrow> p = [] \<or> permit p"
    and permit_free: "permit p \<Longrightarrow> free_tree shut hold p"
    and permit_clear: "permit p \<Longrightarrow> tidy p \<Longrightarrow> clear_way shut p"
begin

abbreviation safe :: "'a sio \<Rightarrow> bool" where
  "safe \<equiv> keeps_at (framed shut hold e ds) e"

lemma framed_guards: "framed shut hold e ds w w' \<Longrightarrow> guards e ds w \<Longrightarrow> guards e ds w'"
  using root_held unfolding framed_def guards_def fresh_def kept_def by (metis option.distinct(1))

lemma framed_rel: "shell_rel (framed shut hold e ds)"
proof
  show "framed shut hold e ds w w" for w by (simp add: framed_def kept_refl)
  show "framed shut hold e ds a c" if "framed shut hold e ds a b" "framed shut hold e ds b c" for a b c
    using that framed_guards [OF that(1)] kept_trans [of shut hold "sh_fs a" "sh_fs b" "sh_fs c"] by (auto simp: framed_def)
qed

end

sublocale shell_frame \<subseteq> run: shell_rel "framed shut hold e ds"
  by (rule framed_rel)

context shell_frame
begin

lemma safe_quiet: "quiet e m \<Longrightarrow> safe m"
  by (auto simp: keeps_at_def hush_def framed_def guards_def kept_def)

lemma safe_files: "frames (se_base e) m \<Longrightarrow> safe (on_files m)"
  by (auto simp: keeps_at_def on_files_def framed_def guards_def stays_def split: prod.splits)

text \<open>Sequencing, with what a guarded run of the first program says about its result.\<close>

lemma safe_then:
  assumes "safe m" "\<And>w x w'. guards e ds w \<Longrightarrow> m e w = (Inr x, w') \<Longrightarrow> safe (f x)"
  shows "safe (andthen m f)"
  unfolding keeps_at_def
proof
  fix w
  show "framed shut hold e ds w (snd (andthen m f e w))"
  proof (cases "guards e ds w")
    case True
    obtain r w1 where m: "m e w = (r, w1)" by fastforce
    have w1: "framed shut hold e ds w w1" using keeps_atD [OF assms(1) m] .
    have "framed shut hold e ds w1 (snd (f x e w1))" if "r = Inr x" for x
      using assms(2) [OF True, of x w1] m that by (simp add: keeps_at_def)
    then show ?thesis using run.trans [OF w1] w1 by (cases r) (auto simp: andthen_def m)
  qed (simp add: framed_def)
qed

lemmas safe_look = safe_then [OF safe_quiet]

lemma safe_andthen: "safe m \<Longrightarrow> (\<And>x. safe (f x)) \<Longrightarrow> safe (andthen m f)"
  by (rule safe_then)

lemmas safe_basic = run.at_ret run.at_raise run.at_lift run.at_getting looks [THEN safe_quiet]

lemma safe_nothing: "safe m \<Longrightarrow> safe (nothing m)" "safe m \<Longrightarrow> safe (finished m)"
  unfolding nothing_def finished_def by (intro safe_andthen; simp add: run.at_ret)+

lemma safe_settled: "(settled e ds \<Longrightarrow> safe m) \<Longrightarrow> safe m"
  by (auto simp: keeps_at_def framed_def guards_def)

lemma not_root: "guards e ds w \<Longrightarrow> path_exists p e w = (Inr False, w') \<Longrightarrow> p \<noteq> []"
  by (auto simp: path_exists_def getting_def guards_def has_nul_def found_def)

lemma safe_if: "(b \<Longrightarrow> safe x) \<Longrightarrow> (\<not> b \<Longrightarrow> safe y) \<Longrightarrow> safe (if b then x else y)"
  by simp

lemma safe_gate:
  assumes "(\<forall>p \<in> set ps. p = [] \<or> permit p) \<Longrightarrow> safe m"
  shows "safe (andthen (allowpaths ps) (\<lambda>allowed. if \<not> allowed then ret x else m))"
proof (intro safe_look looks safe_if run.at_ret)
  fix w allowed w'
  assume run: "guards e ds w" "allowpaths ps e w = (Inr allowed, w')" "\<not> \<not> allowed"
  then have "allowpaths ps e w = (Inr True, w')" by simp
  then show "safe m" using assms allow_sound [OF run(1)] by blast
qed

lemma safe_located: "(\<And>p. tidy p \<Longrightarrow> safe (f p)) \<Longrightarrow> safe (andthen (located t) f)"
  by (intro safe_look looks) (blast dest: located_tidy)

lemma safe_both: "(\<And>p q. tidy p \<Longrightarrow> tidy q \<Longrightarrow> safe (f p q)) \<Longrightarrow> safe (andthen (both_located a b) (\<lambda>(p, q). f p q))"
  by (intro safe_look looks) (auto dest: both_tidy)

lemma safe_exists: "(\<And>there. (\<not> there \<Longrightarrow> p \<noteq> []) \<Longrightarrow> safe (f there)) \<Longrightarrow> safe (andthen (path_exists p) f)"
  by (intro safe_look looks) (metis (full_types) not_root)

lemmas safe_parts = safe_if safe_gate safe_nothing safe_basic run.at_except safe_files

section \<open>Creating and deleting\<close>

lemma frames_open_new: "p = [] \<or> loose shut hold p \<Longrightarrow> frames r (open_new p)"
  unfolding open_new_def by (rule at_rchange) (auto simp: found_def split: if_splits intro: kept_put)

lemma permit_loose: "permit p \<Longrightarrow> loose shut hold p"
  using permit_free free_self by blast

lemma safe_create: "safe (create args)"
  unfolding create_def Let_def
  by (intro safe_parts safe_located safe_andthen frames_open_new) (auto intro: permit_loose)

lemma safe_createtier: "safe (createtier args)"
  unfolding createtier_def Let_def
  by (intro safe_parts safe_located safe_andthen at_mkdir) (use permit_loose bin_open in \<open>auto simp: loose_def\<close>)

lemma safe_rubbish:
  assumes "\<forall>p \<in> set ps. p = [] \<or> permit p" "\<forall>p \<in> set ps. list_all plain_part p"
  shows "safe (put_in_rubbish plural denied failing ps)"
proof (rule safe_settled)
  assume "settled e ds"
  then have tokens: "\<forall>n k. bytes_ok (r_token (se_base e) n k)" by (simp add: settled_def)
  show ?thesis
    unfolding put_in_rubbish_def
    by (intro safe_parts safe_andthen at_storepaths [OF tokens]) (use assms permit_free abspath_path_text in auto)
qed

lemma safe_outside: "safe m' \<Longrightarrow> safe (andthen (getting (\<lambda>e w. in_rubbish (s_cwd e))) (\<lambda>inside. if inside then m else m'))"
  by (rule safe_settled, rule safe_then [OF run.at_getting]) (auto simp: getting_def settled_def)

lemma safe_delete_targets:
  assumes "\<And>ps. (\<forall>p \<in> set ps. list_all plain_part p) \<Longrightarrow> safe (f (Some ps))" "safe (f None)"
  shows "safe (andthen (catch (if b then wild_targets tiers name args else one_target tiers name)
           (\<lambda>err. andthen (guierror t err) (\<lambda>_. ret None))) f)"
proof (rule safe_look)
  show "quiet e (catch (if b then wild_targets tiers name args else one_target tiers name) (\<lambda>err. andthen (guierror t err) (\<lambda>_. ret None)))"
    by (cases b) (simp_all add: hush.at_except hush.at_andthen looks)
  fix w r w'
  assume "catch (if b then wild_targets tiers name args else one_target tiers name) (\<lambda>err. andthen (guierror t err) (\<lambda>_. ret None)) e w = (Inr r, w')"
  then have "r = None \<or> (\<exists>ps. r = Some ps \<and> (\<forall>p \<in> set ps. list_all plain_part p))"
    using targets_plain [of tiers name] by (cases r) (auto simp: except_do_def andthen_Inr split: prod.splits sum.splits if_splits)
  then show "safe (f r)" using assms by auto
qed

lemma safe_delete: "safe (delete args)"
  unfolding delete_def Let_def
  by (intro safe_parts safe_delete_targets) (auto intro!: safe_parts safe_rubbish)

lemma safe_deletetier: "safe (deletetier args)"
  unfolding deletetier_def Let_def
  by (intro safe_parts safe_delete_targets) (auto intro!: safe_parts safe_rubbish)

lemma safe_destroy: "safe (destroy args)"
  unfolding destroy_def Let_def
  by (intro safe_parts safe_outside safe_look [OF looks(1)] safe_located safe_andthen run.at_foreach at_remove_file)
    (auto split: option.split intro!: safe_parts safe_andthen run.at_foreach at_remove_file intro: permit_loose)

text \<open>The tiers that are destroyed must not be the root.\<close>

lemma safe_destroytier:
  assumes "\<And>w ps w'. wild_targets True (join_with 32 args) args e w = (Inr (Some ps), w') \<Longrightarrow> [] \<notin> set ps"
    and "\<And>w p w'. located (join_with 32 args) e w = (Inr p, w') \<Longrightarrow> p \<noteq> []"
  shows "safe (destroytier args)"
proof -
  have all: "safe (andthen (foreach ps (\<lambda>t. on_files (rmtree_strict t))) (\<lambda>_. say t))" if "\<forall>p \<in> set ps. p = [] \<or> permit p" "[] \<notin> set ps" for ps t
    using that permit_free by (intro safe_andthen run.at_foreach safe_files at_rmtree_strict safe_basic) auto
  have wild: "safe (andthen (wild_targets True (join_with 32 args) args) (\<lambda>r. (case r of
      None \<Rightarrow> ret ()
    | Some targets \<Rightarrow> andthen (allowpaths targets) (\<lambda>allowed. if \<not> allowed then ret ()
        else andthen (foreach targets (\<lambda>t. on_files (rmtree_strict t))) (\<lambda>_. say (t targets))))))" for t
  proof (rule safe_look [OF quiet_targets(1)])
    fix w r w'
    assume "wild_targets True (join_with 32 args) args e w = (Inr r, w')"
    then have "\<forall>ps. r = Some ps \<longrightarrow> [] \<notin> set ps" using assms(1) by blast
    then show "safe (case r of None \<Rightarrow> ret () | Some targets \<Rightarrow> andthen (allowpaths targets) (\<lambda>allowed. if \<not> allowed then ret ()
        else andthen (foreach targets (\<lambda>t. on_files (rmtree_strict t))) (\<lambda>_. say (t targets))))"
      by (cases r) (auto intro!: run.at_ret safe_gate all)
  qed
  have one: "safe (andthen (located (join_with 32 args)) (\<lambda>target. andthen (allowpaths [target]) (\<lambda>allowed. if \<not> allowed then ret ()
        else andthen (on_files (rmtree_strict target)) (\<lambda>_. say t))))" for t
    by (intro safe_look looks safe_gate safe_andthen safe_files at_rmtree_strict safe_basic) (use assms(2) permit_free in auto)
  show ?thesis
    unfolding destroytier_def Let_def by (intro safe_parts safe_outside wild one)
qed

section \<open>Renaming\<close>

lemma safe_over_splits: "(\<And>a b. safe (f a b)) \<Longrightarrow> safe (over_splits tokens f missing)"
  unfolding over_splits_def by (intro safe_andthen run.at_first_of safe_parts)

lemma safe_rename: "safe (rename args)"
proof -
  have "safe (rename_split a b)" for a b
    unfolding rename_split_def
    by (intro safe_both safe_look [OF quiet_paths(3)] safe_exists safe_parts safe_andthen at_rename) (auto intro: permit_free)
  then show ?thesis unfolding rename_def by (intro safe_parts safe_look looks safe_over_splits)
qed

lemma safe_renametier: "safe (renametier args)"
proof -
  have "safe (renametier_split a b)" for a b
    unfolding renametier_split_def
    by (intro safe_both safe_look [OF quiet_paths(2)] safe_exists safe_parts safe_andthen at_rename) (auto intro: permit_free)
  then show ?thesis unfolding renametier_def by (intro safe_parts safe_look looks safe_over_splits)
qed

section \<open>Moving\<close>

text \<open>Runs from states whose file system satisfies \<open>I\<close>.\<close>

abbreviation safe_on :: "(store \<Rightarrow> bool) \<Rightarrow> 'a sio \<Rightarrow> bool" where
  "safe_on I m \<equiv> \<forall>w. I (sh_fs w) \<longrightarrow> framed shut hold e ds w (snd (m e w))"

lemma on_safe: "safe m \<Longrightarrow> safe_on I m"
  by (simp add: keeps_at_def)

lemma on_look:
  assumes "quiet e m" "\<And>w x w'. guards e ds w \<Longrightarrow> m e w = (Inr x, w') \<Longrightarrow> safe_on I (f x)"
  shows "safe_on I (andthen m f)"
proof (intro allI impI)
  fix w
  assume I: "I (sh_fs w)"
  show "framed shut hold e ds w (snd (andthen m f e w))"
  proof (cases "guards e ds w")
    case True
    obtain r w1 where m: "m e w = (r, w1)" by fastforce
    have w1: "framed shut hold e ds w w1" "sh_fs w1 = sh_fs w"
      using keeps_atD [OF safe_quiet [OF assms(1)] m] keeps_atD [OF assms(1) m] by (simp_all add: hush_def)
    have "framed shut hold e ds w1 (snd (f x e w1))" if "r = Inr x" for x
      using assms(2) [OF True, of x w1] m that w1(2) I by simp
    then show ?thesis using run.trans [OF w1(1)] w1 by (cases r) (auto simp: andthen_def m)
  qed (simp add: framed_def)
qed

lemma on_then: "safe_on I m \<Longrightarrow> (\<And>x. safe (f x)) \<Longrightarrow> safe_on I (andthen m f)"
  using run.trans by (fastforce simp: andthen_def keeps_at_def split: prod.splits sum.splits)

lemma on_except: "safe_on I m \<Longrightarrow> (\<And>err. safe (h err)) \<Longrightarrow> safe_on I (except_do m errs h)"
  using run.trans by (fastforce simp: except_do_def keeps_at_def split: prod.splits sum.splits)

lemma on_isdir:
  assumes "\<And>tier. safe_on (\<lambda>s. tier \<longleftrightarrow> \<not> has_nul p \<and> map_of s p = Some Tier) (f tier)"
  shows "safe (andthen (path_isdir p) f)"
  using assms by (auto simp: keeps_at_def path_isdir_def andthen_def getting_def)

text \<open>Moving into a tier, and moving to a place that was checked itself.\<close>

lemma move_in:
  assumes "src = [] \<or> permit src" "src \<noteq> [] \<longrightarrow> permit (dst @ [last src]) \<and> tidy (dst @ [last src])"
  shows "safe_on (\<lambda>s. map_of s dst = Some Tier) (on_files (move_path src dst))"
proof (intro allI impI)
  fix w :: shell
  assume "map_of (sh_fs w) dst = Some Tier"
  then have "stays shut hold (sh_bin w) (snd (move_path src dst (se_base e) (sh_bin w)))"
    using assms permit_free permit_clear by (intro move_path_stays) auto
  then show "framed shut hold e ds w (snd (on_files (move_path src dst) e w))"
    by (auto simp: on_files_def stays_def framed_def guards_def split: prod.splits)
qed

lemma free_snoc: "free_tree shut hold p \<Longrightarrow> clear_way shut p \<Longrightarrow> free_tree shut hold (p @ [x]) \<and> clear_way shut (p @ [x])"
  by (auto simp: free_tree_def clear_way_def loose_def le_Suc_eq)

lemma move_onto:
  assumes "src = [] \<or> permit src" "permit dst" "tidy dst"
  shows "safe (on_files (move_path src dst))"
proof (rule safe_files)
  show "frames (se_base e) (move_path src dst)"
    unfolding keeps_at_def
    using assms permit_free permit_clear free_snoc [of dst "last src"] by (intro allI move_path_stays) auto
qed

end

end
