(* ===== verification/Shell_Frame_Moves.thy ===== *)
theory Shell_Frame_Moves
  imports Shell_Frame
begin

text \<open>
  The directives that move and copy, and the transactions, stay in the frame as well.
\<close>

declare cps_Cons [simp del] allowpaths.simps [simp del]

context shell_frame
begin

section \<open>Moving\<close>

lemma on_if: "(b \<Longrightarrow> safe_on I x) \<Longrightarrow> (\<not> b \<Longrightarrow> safe_on I y) \<Longrightarrow> safe_on I (if b then x else y)"
  by simp

lemma on_gate:
  assumes "(\<forall>p \<in> set ps. p = [] \<or> permit p) \<Longrightarrow> safe_on I m"
  shows "safe_on I (andthen (allowpaths ps) (\<lambda>allowed. if \<not> allowed then ret x else m))"
proof (rule on_look [OF quiet_allowpaths])
  fix w allowed w'
  assume run: "guards e ds w" "allowpaths ps e w = (Inr allowed, w')"
  show "safe_on I (if \<not> allowed then ret x else m)"
  proof (cases allowed)
    case True
    then have "allowpaths ps e w = (Inr True, w')" using run(2) by simp
    then have "safe_on I m" using assms allow_sound [OF run(1)] by blast
    then show ?thesis using True by simp
  qed (use on_safe [OF run.at_ret] in simp)
qed

text \<open>What \<open>path_isdir\<close> told of the destination.\<close>

abbreviation told :: "bool \<Rightarrow> rpath \<Rightarrow> store \<Rightarrow> bool" where
  "told tier dst s \<equiv> tier \<longleftrightarrow> \<not> has_nul dst \<and> map_of s dst = Some Tier"

lemma on_move:
  assumes tidy: "tidy src" "tidy dst"
    and "(if tier then named_in dst src else dst) \<noteq> []" "\<forall>p \<in> {src, if tier then named_in dst src else dst}. p = [] \<or> permit p"
  shows "safe_on (told tier dst) (on_files (move_path src dst))"
proof (cases tier)
  case True
  have "tidy (named_in dst src)" using tidy tidy_named by blast
  then have "safe_on (\<lambda>s. map_of s dst = Some Tier) (on_files (move_path src dst))"
    using assms True by (intro move_in) (auto simp: named_in_def split: if_splits)
  then show ?thesis using True by blast
next
  case False
  then have "safe (on_files (move_path src dst))" using assms by (intro move_onto) auto
  then show ?thesis by (rule on_safe)
qed

lemma on_move_checked:
  assumes tidy: "tidy src" "tidy dst" and parts: "safe m1" "safe m2" "\<And>err. safe (h err)"
    and target: "target = (if tier then named_in dst src else dst)"
  shows "safe_on (told tier dst) (andthen (path_exists target) (\<lambda>taken. if taken then m1
      else andthen (allowpaths [src, target]) (\<lambda>allowed. if \<not> allowed then ret ()
        else except_do (andthen (on_files (move_path src dst)) (\<lambda>_. m2)) is_oserror h)))"
proof (rule on_look [OF quiet_paths(1)])
  fix w taken w'
  assume "guards e ds w" "path_exists target e w = (Inr taken, w')"
  then have "\<not> taken \<Longrightarrow> target \<noteq> []" using not_root by metis
  then show "safe_on (told tier dst) (if taken then m1
      else andthen (allowpaths [src, target]) (\<lambda>allowed. if \<not> allowed then ret ()
        else except_do (andthen (on_files (move_path src dst)) (\<lambda>_. m2)) is_oserror h))"
    using tidy parts target
    by (intro on_if on_gate on_except on_then on_move on_safe [OF parts(1)]) auto
qed

lemma safe_move_split: "safe (move_split a b)"
  unfolding move_split_def Let_def
  by (intro safe_both safe_look [OF quiet_paths(1)] safe_if safe_nothing run.at_ret on_isdir on_move_checked refl)
    (auto intro!: safe_parts)

lemma on_finished: "safe_on I m \<Longrightarrow> safe_on I (finished m)"
  unfolding finished_def by (intro on_then run.at_ret)

lemma safe_movetier_split: "safe (movetier_split a b)"
proof -
  have "safe_on (told tier dst) (if \<not> (there \<and> tier) then ret False
      else finished (andthen (inside_itself a b) (\<lambda>inside. if inside then m0
        else andthen (path_exists (named_in dst src)) (\<lambda>taken. if taken then m1
          else andthen (allowpaths [src, named_in dst src]) (\<lambda>allowed. if \<not> allowed then ret ()
            else except_do (andthen (on_files (move_path src dst)) (\<lambda>_. m2)) is_oserror h)))))"
    if "tidy src" "tidy dst" "safe m0" "safe m1" "safe m2" "\<And>err. safe (h err)" for src dst tier there m0 m1 m2 h
    using that
    by (intro on_if on_safe [OF run.at_ret] on_finished on_look [OF quiet_both_located(2)] on_safe [OF that(3)] on_move_checked) auto
  note body = this
  show ?thesis
    unfolding movetier_split_def
    by (intro safe_both safe_look [OF quiet_paths(1)] on_isdir body) (auto intro!: safe_parts)
qed

section \<open>Transactions\<close>

lemma transactiontargets_tidy:
  assumes "transactiontargets sources destination e w = (Inr (Inr pairs), w')" "(s, t) \<in> set pairs"
  shows "tidy s \<and> tidy t"
proof -
  obtain resolved rt tier w1 w2 where m: "map_prog (\<lambda>p. located (path_text p)) sources e w = (Inr resolved, w1)"
    "located (path_text destination) e w1 = (Inr rt, w2)" and
    pairs: "pairs = zip resolved (map (\<lambda>source. if tier then named_in rt source else rt) resolved)"
    using assms(1)
    by (auto simp: transactiontargets_def except_do_def getting_def andthen_Inr Let_def
        split: prod.splits sum.splits if_splits option.splits)
  have "tidy rt" using m(2) located_tidy by blast
  moreover have "tidy p" if "p \<in> set resolved" for p
    using map_prog_results [OF m(1), where Q = tidy] located_tidy that by blast
  ultimately show ?thesis using assms(2) pairs tidy_named by (auto simp: in_set_zip)
qed

lemma preflight_new:
  assumes "preflight pairs e w = (Inr None, w')" "map_of (sh_fs w) [] = Some Tier" "(s, t) \<in> set pairs"
  shows "t \<noteq> []"
  using assms
  by (induction pairs rule: preflight.induct)
    (auto simp: andthen_Inr path_exists_def path_isdir_def getting_def found_def has_nul_def split: if_splits)

lemma transactiontargets_new:
  assumes "guards e ds w" "transactiontargets sources destination e w = (Inr (Inr pairs), w')" "(s, t) \<in> set pairs"
  shows "t \<noteq> []"
proof -
  obtain resolved rt w1 w2 w3 where m: "map_prog (\<lambda>p. located (path_text p)) sources e w = (Inr resolved, w1)"
    "located (path_text destination) e w1 = (Inr rt, w2)" "preflight pairs e w2 = (Inr None, w3)"
    using assms(2)
    by (auto simp: transactiontargets_def except_do_def getting_def andthen_Inr Let_def path_isdir_def
        split: prod.splits sum.splits if_splits option.splits)
  have q: "quiet e (map_prog (\<lambda>p. located (path_text p)) sources)" by (intro hush.at_map_prog looks)
  have "sh_fs w2 = sh_fs w"
    using keeps_atD [OF q m(1)] keeps_atD [OF quiet_located(3) m(2)] by (simp add: hush_def)
  then show ?thesis using preflight_new [OF m(3) _ assms(3)] assms(1) by (simp add: guards_def)
qed

lemma safe_transactionremove:
  assumes "permit p"
  shows "safe (transactionremove p)"
  unfolding transactionremove_def
  by (intro run.at_except safe_look [OF quiet_paths(2)] safe_look [OF quiet_paths(1)] safe_andthen safe_if safe_files
      at_rmtree_strict at_remove_file run.at_ret) (use assms permit_free permit_loose in auto)

lemma safe_remove_all: "\<forall>p \<in> set ps. permit p \<Longrightarrow> safe (remove_all ps)"
  by (induction ps) (auto intro!: safe_andthen run.at_ret safe_transactionremove)

lemma safe_copy_item:
  assumes "permit t" "tidy t"
  shows "safe (on_files (if tier then copytree s t else copy2 s t))"
proof -
  have "loose shut hold t" "loose shut hold (t @ [last s])" "clear_way shut t" "free_tree shut hold t"
    using assms permit_free [of t] permit_clear permit_loose by (auto simp: free_tree_def)
  then show ?thesis by (cases tier) (simp_all add: safe_files at_copytree at_copy2)
qed

lemma safe_copy_pairs: "\<forall>x \<in> set pairs. permit (snd x) \<and> tidy (snd x) \<Longrightarrow> safe (copy_pairs pairs created items)"
proof (induction pairs created items rule: copy_pairs.induct)
  case (2 source target pairs created items)
  then have "safe (copy_pairs pairs (created @ [target]) (items @ [(source, target)]))" by simp
  then show ?case using 2 safe_copy_item
    by (auto intro!: safe_andthen run.at_except safe_look [OF quiet_paths(2)] run.at_ret split: option.split)
qed (simp add: run.at_ret)

lemma copy_pairs_created:
  "copy_pairs pairs created items e w = (Inr (created', items', failure), w') \<Longrightarrow> set created' \<subseteq> set created \<union> snd ` set pairs"
proof (induction pairs created items arbitrary: w rule: copy_pairs.induct)
  case (2 source target pairs created items)
  then show ?case by (auto simp: andthen_Inr split: option.splits)
qed simp

lemma safe_transaction:
  assumes "\<And>pairs. (\<forall>x \<in> set pairs. tidy (fst x) \<and> tidy (snd x) \<and> snd x \<noteq> []) \<Longrightarrow> safe (k pairs)"
  shows "safe (andthen (transactiontargets sources destination) (\<lambda>r. (case r of
      Inl message \<Rightarrow> preflight_failed message | Inr [] \<Rightarrow> preflight_failed [] | Inr (p # ps) \<Rightarrow> k (p # ps))))"
proof (rule safe_look [OF quiet_transactiontargets])
  fix w r w'
  assume run: "guards e ds w" "transactiontargets sources destination e w = (Inr r, w')"
  have "\<forall>x \<in> set pairs. tidy (fst x) \<and> tidy (snd x) \<and> snd x \<noteq> []" if "r = Inr pairs" for pairs
    using transactiontargets_tidy transactiontargets_new [OF run(1)] run(2) that by (metis prod.collapse)
  then have "safe (k pairs)" if "r = Inr pairs" for pairs using assms that by blast
  then show "safe (case r of Inl message \<Rightarrow> preflight_failed message | Inr [] \<Rightarrow> preflight_failed [] | Inr (p # ps) \<Rightarrow> k (p # ps))"
    by (auto intro!: safe_basic split: sum.split list.split)
qed

lemma safe_copy_run:
  assumes ok: "\<forall>x \<in> set pairs. permit (snd x) \<and> tidy (snd x)"
  shows "safe (andthen (copy_pairs pairs [] []) (\<lambda>(created, items, failure). (case failure of
      Some err \<Rightarrow> andthen (remove_all (rev created)) (\<lambda>rollback. rolled_back_json what rollback items state err)
    | None \<Rightarrow> andthen (say t) (\<lambda>_. ret (r items)))))"
proof (rule safe_then [OF safe_copy_pairs [OF ok]])
  fix w x w'
  assume run: "copy_pairs pairs [] [] e w = (Inr x, w')"
  obtain created items failure where x: "x = (created, items, failure)" by (cases x)
  have "\<forall>p \<in> set created. permit p" using copy_pairs_created [of pairs "[]" "[]"] run x ok by fastforce
  then show "safe (case x of (created, items, failure) \<Rightarrow> (case failure of
      Some err \<Rightarrow> andthen (remove_all (rev created)) (\<lambda>rollback. rolled_back_json what rollback items state err)
    | None \<Rightarrow> andthen (say t) (\<lambda>_. ret (r items))))"
    unfolding x by (auto intro!: safe_andthen safe_remove_all safe_basic split: option.split)
qed

lemma safe_transactioncopy: "safe (transactioncopy sources destination)"
  unfolding transactioncopy_def
  by (rule safe_transaction, intro safe_gate safe_copy_run) auto

lemma safe_move_pairs:
  "\<forall>x \<in> set pairs. (fst x = [] \<or> permit (fst x)) \<and> permit (snd x) \<and> tidy (snd x) \<Longrightarrow> safe (move_pairs pairs moved)"
proof (induction pairs moved rule: move_pairs.induct)
  case (2 source target pairs moved)
  then have "safe (move_pairs pairs (moved @ [(source, target)]))" by simp
  then show ?case using 2 by (auto intro!: safe_andthen run.at_except move_onto run.at_ret split: option.split)
qed (simp add: run.at_ret)

lemma move_pairs_moved:
  "move_pairs pairs moved e w = (Inr (moved', failure), w') \<Longrightarrow> set moved' \<subseteq> set moved \<union> set pairs"
proof (induction pairs moved arbitrary: w rule: move_pairs.induct)
  case (2 source target pairs moved)
  then show ?case by (auto simp: andthen_Inr split: option.splits)
qed simp

lemma safe_move_back:
  "\<forall>x \<in> set pairs. (fst x = [] \<or> permit (fst x)) \<and> tidy (fst x) \<and> permit (snd x) \<Longrightarrow> safe (undo_moves pairs)"
proof (induction pairs rule: undo_moves.induct)
  case (2 source target pairs)
  then have "source \<noteq> [] \<Longrightarrow> safe (on_files (move_path target source))" by (intro move_onto) auto
  then have "safe (andthen (path_exists source) (\<lambda>taken. andthen (path_exists target) (\<lambda>there.
      if taken \<or> \<not> there then ret False else andthen (on_files (move_path target source)) (\<lambda>_. ret True))))"
    by (intro safe_exists safe_look [OF quiet_paths(1)] safe_if safe_andthen run.at_ret) auto
  then show ?case using 2 by (auto intro!: safe_andthen run.at_except run.at_ret)
qed (simp add: run.at_ret)

lemma safe_move_run:
  assumes ok: "\<forall>x \<in> set pairs. (fst x = [] \<or> permit (fst x)) \<and> tidy (fst x) \<and> permit (snd x) \<and> tidy (snd x)"
  shows "safe (andthen (move_pairs pairs []) (\<lambda>(moved, failure). (case failure of
      Some err \<Rightarrow> andthen (undo_moves (rev moved)) (\<lambda>rollback. rolled_back_json what rollback moved state err)
    | None \<Rightarrow> andthen (say t) (\<lambda>_. ret (r moved)))))"
proof (rule safe_then)
  show "safe (move_pairs pairs [])" using ok by (intro safe_move_pairs) auto
  fix w x w'
  assume run: "move_pairs pairs [] e w = (Inr x, w')"
  obtain moved failure where x: "x = (moved, failure)" by (cases x)
  have "set moved \<subseteq> set pairs" using move_pairs_moved [of pairs "[]"] run x by fastforce
  then have "safe (undo_moves (rev moved))" using ok by (intro safe_move_back) auto
  then show "safe (case x of (moved, failure) \<Rightarrow> (case failure of
      Some err \<Rightarrow> andthen (undo_moves (rev moved)) (\<lambda>rollback. rolled_back_json what rollback moved state err)
    | None \<Rightarrow> andthen (say t) (\<lambda>_. ret (r moved))))"
    unfolding x by (auto intro!: safe_andthen safe_basic split: option.split)
qed

lemma safe_transactionmove: "safe (transactionmove sources destination)"
  unfolding transactionmove_def
  by (rule safe_transaction, intro safe_gate safe_move_run) auto

section \<open>The moving and copying directives\<close>

lemma safe_move: "safe (move args)"
  unfolding move_def
  by (intro safe_look [OF quiet_connected_args] safe_if safe_nothing safe_over_splits safe_move_split)
    (auto intro!: safe_parts safe_look [OF quiet_wildcardarguments] safe_look [OF quiet_paths(2)] safe_transactionmove)

lemma safe_movetier: "safe (movetier args)"
  unfolding movetier_def
  by (intro safe_look [OF quiet_connected_args] safe_if safe_nothing safe_over_splits safe_movetier_split)
    (auto intro!: safe_parts safe_look [OF quiet_wildcardarguments] safe_look [OF quiet_paths(2)] safe_transactionmove)

lemma copy_name_plain:
  assumes "set base \<union> set ext \<subseteq> set name" "92 \<notin> set name" "47 \<notin> set name"
  shows "plain_part (copy_name base ext k)" "92 \<notin> set (copy_name base ext k)"
proof -
  have d: "is_digit c" if "c \<in> set (dec_nat k)" for c using dec_nat_digits that by blast
  have "47 \<notin> set (dec_nat k)" "92 \<notin> set (dec_nat k)" using d [of 47] d [of 92] by (auto simp: is_digit_def)
  moreover have "32 \<in> set (copy_name base ext k)" by (simp add: copy_name_def cps_Cons)
  ultimately show "plain_part (copy_name base ext k)" "92 \<notin> set (copy_name base ext k)"
    using assms by (auto simp: plain_part_def copy_name_def cps_Cons)
qed

lemma tidy_name: "tidy p \<Longrightarrow> 92 \<notin> set (name_of p) \<and> 47 \<notin> set (name_of p)"
  by (cases p rule: rev_cases) (auto simp: tidy_def name_of_def plain_part_def)

lemma tidy_copy:
  assumes "tidy src" "set base \<union> set ext \<subseteq> set (name_of src)"
  shows "tidy (butlast src @ [copy_name base ext k])"
proof -
  have "tidy (butlast src)" using assms(1) by (auto simp: tidy_def list_all_iff dest: in_set_butlastD)
  then show ?thesis using copy_name_plain [OF assms(2)] tidy_name [OF assms(1)] by (simp add: tidy_def)
qed

lemma safe_duplicate:
  assumes "\<And>t. permit t \<Longrightarrow> tidy t \<Longrightarrow> safe (on_files (f src t))" "tidy src" "set base \<union> set ext \<subseteq> set (name_of src)"
  shows "safe (duplicate f failing base ext src)"
  unfolding duplicate_def Let_def
proof (rule safe_look [OF quiet_fresh_copy])
  fix r :: "nat option"
  have "safe (on_files (f src (butlast src @ [copy_name base ext k])))" if "permit (butlast src @ [copy_name base ext k])" for k
    using assms that tidy_copy by blast
  then show "safe (case r of None \<Rightarrow> ret () | Some k \<Rightarrow>
      andthen (allowpaths [butlast src @ [copy_name base ext k]]) (\<lambda>allowed. if \<not> allowed then ret ()
        else catch (andthen (on_files (f src (butlast src @ [copy_name base ext k]))) (\<lambda>_.
            say (cps ''> '' @ name_of src @ cps '' copied to '' @ copy_name base ext k)))
          (\<lambda>err. if err = PermissionError then complain (cps ''> permission denied'') else guierror failing err)))"
    by (auto intro!: run.at_ret safe_gate run.at_except safe_andthen safe_basic split: option.split)
qed

lemma safe_copy_split: "safe (copy_split a b)"
  unfolding copy_split_def Let_def
  by (intro safe_both safe_look [OF quiet_paths(3)] safe_look [OF quiet_paths(2)] safe_if safe_nothing run.at_ret safe_exists safe_gate
      run.at_except safe_andthen safe_copy_item [where tier = False, simplified])
    (auto intro!: safe_parts simp: tidy_named)

lemma safe_copytier_split: "safe (copytier_split a b)"
  unfolding copytier_split_def Let_def
  by (intro safe_both safe_look [OF quiet_paths(2)] safe_if safe_nothing run.at_ret safe_exists safe_gate
      run.at_except safe_andthen safe_copy_item [where tier = True, simplified])
    (auto intro!: safe_parts simp: tidy_named)

lemma splitext_subset: "set (fst (splitext t)) \<union> set (snd (splitext t)) \<subseteq> set t"
proof -
  have "set (dropWhile (\<lambda>c. c \<noteq> 46) (rev t)) \<subseteq> set t" "set (takeWhile (\<lambda>c. c \<noteq> 46) (rev t)) \<subseteq> set t"
    using set_dropWhile_subset [of _ "rev t"] set_takeWhileD [of _ _ "rev t"] by auto
  moreover have "set (tl (dropWhile (\<lambda>c. c \<noteq> 46) (rev t))) \<subseteq> set (dropWhile (\<lambda>c. c \<noteq> 46) (rev t))"
    by (metis list.set_sel(2) subsetI tl_Nil)
  moreover have "46 \<in> set t" if "dropWhile (\<lambda>c. c \<noteq> 46) (rev t) \<noteq> []" using that by auto
  ultimately show ?thesis by (auto simp: splitext_def Let_def dest!: in_set_butlastD)
qed

lemma safe_copy: "safe (copy args)"
proof -
  have "safe (andthen (located_or_invalid t) (\<lambda>src. andthen (path_isfile src) (\<lambda>is_file. if \<not> is_file then complain (u src)
      else duplicate copy2 v (fst (splitext (name_of src))) (snd (splitext (name_of src))) src)))" for t u v
    by (intro safe_look [OF quiet_located(4)] safe_look [OF quiet_paths(3)] safe_if safe_basic safe_duplicate splitext_subset
        safe_copy_item [where tier = False, simplified]) (auto dest: located_or_invalid_tidy)
  then show ?thesis
    unfolding copy_def
    by (intro safe_look [OF quiet_connected_args] safe_look [OF quiet_both_located(3)] safe_if safe_nothing safe_over_splits safe_copy_split)
      (auto intro!: safe_parts safe_look [OF quiet_wildcardarguments] safe_look [OF quiet_paths(2)] safe_transactioncopy)
qed

lemma safe_copytier: "safe (copytier args)"
proof -
  have "safe (andthen (located_or_invalid t) (\<lambda>src. andthen (path_isdir src) (\<lambda>tier. if \<not> tier then complain u
      else duplicate copytree v (name_of src) [] src)))" for t u v
    by (intro safe_look [OF quiet_located(4)] safe_look [OF quiet_paths(2)] safe_if safe_basic safe_duplicate
        safe_copy_item [where tier = True, simplified]) (auto dest: located_or_invalid_tidy)
  then show ?thesis
    unfolding copytier_def
    by (intro safe_look [OF quiet_connected_args] safe_look [OF quiet_both_located(3)] safe_if safe_nothing safe_over_splits safe_copytier_split)
      (auto intro!: safe_parts safe_look [OF quiet_wildcardarguments] safe_look [OF quiet_paths(2)] safe_transactioncopy)
qed

end

end
