(* ===== verification/Shell_Run.thy ===== *)
theory Shell_Run
  imports Shell_Directives
begin

text \<open>
  Running directives (\<open>brick.py\<close>): the registry, the result of a directive, a line, a chain of lines, and
  the shell without a screen, which runs one command and reports as JSON whether it passed.
\<close>

section \<open>The registry\<close>

record spec =
  sp_names :: "pystr list"
  sp_handler :: "pystr list \<Rightarrow> json sio"
  sp_headless :: bool

definition directivespec :: "senv \<Rightarrow> spec list \<Rightarrow> pystr \<Rightarrow> spec option" where
  "directivespec e specs name =
     find (\<lambda>sp. se_casefold e name \<in> set (map (se_casefold e) (sp_names sp))) specs"

definition directive_names :: "spec list \<Rightarrow> pystr list" where
  "directive_names specs = concat (map sp_names specs)"

text \<open>\<open>DIRECTIVES\<close>: a name registered twice has the later handler.\<close>

definition directive_handler :: "spec list \<Rightarrow> pystr \<Rightarrow> pystr list \<Rightarrow> json sio" where
  "directive_handler specs name =
     (case map_of (rev (concat (map (\<lambda>sp. map (\<lambda>n. (n, sp_handler sp)) (sp_names sp)) specs))) name of
        Some h \<Rightarrow> h | None \<Rightarrow> (\<lambda>_. raise ValueError))"

text \<open>The file and tier directives as they are registered.\<close>

definition file_specs :: "spec list" where
  "file_specs = map (\<lambda>(name, alias, h). \<lparr>sp_names = [name, alias], sp_handler = h, sp_headless = True\<rparr>)
     [(cps ''create tier'', cps ''crt'', createtier), (cps ''delete tier'', cps ''dt'', deletetier),
      (cps ''destroy tier'', cps ''dst'', destroytier), (cps ''rename tier'', cps ''rt'', renametier),
      (cps ''move tier'', cps ''mvt'', movetier), (cps ''copy tier'', cps ''cpt'', copytier),
      (cps ''create'', cps ''cr'', create), (cps ''delete'', cps ''de'', delete), (cps ''destroy'', cps ''ds'', destroy),
      (cps ''rename'', cps ''re'', rename), (cps ''move'', cps ''mo'', move), (cps ''copy'', cps ''co'', copy)]"

section \<open>Results\<close>

definition setdefault :: "pystr \<Rightarrow> json \<Rightarrow> dict \<Rightarrow> dict" where
  "setdefault k v m = (case fmlookup m k of None \<Rightarrow> fmupd k v m | Some _ \<Rightarrow> m)"

definition get_ok :: "dict \<Rightarrow> bool" where
  "get_ok m = py_truth (dict_get m (cps ''ok'') JNull)"

definition complete_result :: "dict \<Rightarrow> dict" where
  "complete_result m = setdefault (cps ''data'') (JObj fmempty) (setdefault (cps ''items'') (JList [])
     (setdefault (cps ''message'') (JStr []) (setdefault (cps ''code'') (JStr (if get_ok m then cps ''done'' else cps ''failed'')) m)))"

definition value_ok :: "bool \<Rightarrow> json \<Rightarrow> bool" where
  "value_ok failed v = (case v of JBool b \<Rightarrow> b \<and> \<not> failed | JInt i \<Rightarrow> i = 0 \<and> \<not> failed | _ \<Rightarrow> \<not> failed)"

definition plain_result :: "bool \<Rightarrow> pystr option \<Rightarrow> pystr \<Rightarrow> dict" where
  "plain_result ok code message = fmap_of_list [(cps ''ok'', JBool ok),
     (cps ''code'', JStr (case code of Some c \<Rightarrow> if c \<noteq> [] then c else if ok then cps ''done'' else cps ''failed''
        | None \<Rightarrow> if ok then cps ''done'' else cps ''failed'')),
     (cps ''message'', JStr message), (cps ''items'', JList []), (cps ''data'', JObj fmempty)]"

definition directiveresult :: "json \<Rightarrow> pystr \<Rightarrow> pystr option \<Rightarrow> pystr \<Rightarrow> dict sio" where
  "directiveresult v directive code message =
     andthen (getting (\<lambda>e w. fmupd (cps ''directive'') (JStr directive)
       (case v of
          JObj m \<Rightarrow> if fmlookup m (cps ''ok'') \<noteq> None then complete_result m else plain_result (\<not> sh_failed w) code message
        | _ \<Rightarrow> plain_result (value_ok (sh_failed w) v) code message))) (\<lambda>result.
     andthen (setting (\<lambda>w. w\<lparr>sh_last := Some result\<rparr>)) (\<lambda>_. ret result))"

section \<open>Lines and chains\<close>

definition failing :: "unit sio" where
  "failing = setting (\<lambda>w. w\<lparr>sh_failed := True\<rparr>)"

definition unknown :: "pystr \<Rightarrow> unit sio" where
  "unknown name = guiprint (cps ''> unknown directive '' @ name) TEXTCOLOUR"

definition dispatch :: "spec list \<Rightarrow> pystr list \<Rightarrow> dict option sio" where
  "dispatch specs parts =
     andthen (getting (\<lambda>e w. (matcheddirective (se_casefold e) (directive_names specs) parts, e, sh_headless w))) (\<lambda>((cmd, count), e, headless).
       (case cmd of
          Some name \<Rightarrow>
            if headless \<and> (case directivespec e specs name of Some sp \<Rightarrow> \<not> sp_headless sp | None \<Rightarrow> False)
            then andthen (guiprint (cps ''> '' @ name @ cps '' is not available without the graphical shell'') ERRORCOLOUR) (\<lambda>_.
              andthen (directiveresult JNull name (Some (cps ''graphical_only'')) []) (\<lambda>r. ret (Some r)))
            else andthen (directive_handler specs name (drop count parts)) (\<lambda>v.
              andthen (directiveresult v name None []) (\<lambda>r. ret (Some r)))
        | None \<Rightarrow>
            andthen (unknown (hd parts)) (\<lambda>_. andthen failing (\<lambda>_.
              andthen (directiveresult JNull (hd parts) (Some (cps ''unknown'')) []) (\<lambda>r. ret (Some r))))))"

definition rundirective :: "spec list \<Rightarrow> pystr \<Rightarrow> bool \<Rightarrow> dict option sio" where
  "rundirective specs line echo =
     finally_do
       (catch
         (andthen (setting (\<lambda>w. w\<lparr>sh_active := True, sh_failed := False\<rparr>)) (\<lambda>_.
          andthen (if echo then guiprint (cps ''> '' @ line) TEXTCOLOUR else ret ()) (\<lambda>_.
            (let parts = line_parts line in if parts = [] then ret None else dispatch specs parts))))
         (\<lambda>err. andthen failing (\<lambda>_. andthen (guierror (cps ''> error handling command '') err) (\<lambda>_.
            andthen (getting (\<lambda>e w. se_error e err)) (\<lambda>message.
            andthen (directiveresult JNull [] (Some (cps ''exception'')) message) (\<lambda>r. ret (Some r)))))))
       (setting (\<lambda>w. w\<lparr>sh_active := False\<rparr>))"

fun run_segments :: "spec list \<Rightarrow> bool \<Rightarrow> pystr list \<Rightarrow> dict option list sio" where
  "run_segments specs echo [] = ret []"
| "run_segments specs echo (seg # segs) =
     andthen (catch (rundirective specs seg echo) (\<lambda>err.
         andthen (getting (\<lambda>e w. se_error e err)) (\<lambda>message.
         andthen (directiveresult JNull seg (Some (cps ''exception'')) message) (\<lambda>r. ret (Some r))))) (\<lambda>r.
     andthen (run_segments specs echo segs) (\<lambda>rs. ret (r # rs)))"

definition runchain :: "spec list \<Rightarrow> pystr \<Rightarrow> bool \<Rightarrow> dict option list sio" where
  "runchain specs line echo = run_segments specs echo (splitchain line)"

section \<open>Without a screen\<close>

definition failure_prefixes :: "pystr list" where
  "failure_prefixes = [cps ''> error'', cps ''> permission denied'', cps ''> failed'', cps ''> could not'', cps ''> no such'']"

definition outputfailed :: "senv \<Rightarrow> pystr list \<Rightarrow> bool" where
  "outputfailed e ls \<longleftrightarrow> list_ex (\<lambda>l. list_ex (\<lambda>p. starts_with p (se_casefold e (strip l))) failure_prefixes) ls"

definition strings :: "pystr list \<Rightarrow> json" where
  "strings ls = JList (map JStr ls)"

definition output_error :: "dict \<Rightarrow> dict" where
  "output_error m = fmupd (cps ''message'') (JStr (cps ''directive backend reported an error''))
     (fmupd (cps ''code'') (JStr (cps ''output_error'')) (fmupd (cps ''ok'') (JBool False) m))"

definition mark_output :: "bool \<Rightarrow> dict list \<Rightarrow> dict list" where
  "mark_output bad results =
     (if bad \<and> results \<noteq> [] \<and> list_all get_ok results then butlast results @ [output_error (last results)] else results)"

definition report :: "senv \<Rightarrow> pystr \<Rightarrow> pystr \<Rightarrow> dict list \<Rightarrow> pystr list \<Rightarrow> pystr \<Rightarrow> pystr \<Rightarrow> bool \<times> json" where
  "report e command cwd results screen standard errors =
     (let out = splitlines (length standard) standard; err = splitlines (length errors) errors;
          bad = (outputfailed e out \<or> outputfailed e err); results' = mark_output bad results;
          passed = (results' \<noteq> [] \<and> list_all get_ok results' \<and> err = [] \<and> \<not> bad)
      in (passed, JObj (fmap_of_list [(cps ''format'', JInt 1), (cps ''passed'', JBool passed), (cps ''command'', JStr command),
           (cps ''results'', JList (map JObj results')), (cps ''output'', strings (screen @ out)), (cps ''stdout'', strings out),
           (cps ''stderr'', strings err), (cps ''cwd'', JStr cwd)])))"

definition nothing_given :: "pystr \<Rightarrow> json" where
  "nothing_given cwd = JObj (fmap_of_list [(cps ''format'', JInt 1), (cps ''passed'', JBool False), (cps ''command'', JStr []),
     (cps ''results'', JList []), (cps ''output'', JList []), (cps ''stdout'', JList []), (cps ''stderr'', strings [cps ''no directive given'']),
     (cps ''cwd'', JStr cwd)])"

text \<open>The segments of a chain are not blank, so every one of them has a result; \<open>result.get\<close> on a
  missing one would raise.\<close>

fun all_given :: "dict option list \<Rightarrow> dict list res" where
  "all_given [] = Inr []"
| "all_given (None # rs) = Inl AttributeError"
| "all_given (Some r # rs) = rbind (all_given rs) (\<lambda>ms. Inr (r # ms))"

text \<open>The exit status and the JSON that is printed.\<close>

definition headlesscommand :: "spec list \<Rightarrow> pystr list \<Rightarrow> (int \<times> json) sio" where
  "headlesscommand specs args = andthen environment (\<lambda>e.
     (let given = strip (join_with 32 args);
          command = (if given \<noteq> [] then given else (case se_stdin e of Inr t \<Rightarrow> strip t | Inl _ \<Rightarrow> []))
      in if command = [] then andthen (formatlocation (path_text (s_cwd e))) (\<lambda>cwd. ret (1, nothing_given cwd))
         else andthen (getting (\<lambda>e w. sh_headless w)) (\<lambda>previous.
           andthen (setting (\<lambda>w. w\<lparr>sh_headless := True, sh_active := False, sh_failed := False, sh_scroll := [], sh_stdout := [], sh_stderr := []\<rparr>)) (\<lambda>_.
           andthen (finally_do (except_do (runchain specs command False) (\<lambda>_. True) (\<lambda>err.
               ret [Some (fmap_of_list [(cps ''ok'', JBool False), (cps ''code'', JStr (cps ''headless_exception'')),
                 (cps ''message'', JStr (se_error e err)), (cps ''items'', JList []), (cps ''data'', JObj fmempty),
                 (cps ''directive'', JStr command)])]))
             (setting (\<lambda>w. w\<lparr>sh_headless := previous\<rparr>))) (\<lambda>rs.
           andthen (lift_res (all_given rs)) (\<lambda>results.
           andthen (getting (\<lambda>e w. (map fst (sh_scroll w), sh_stdout w, sh_stderr w))) (\<lambda>(screen, standard, errors).
           andthen (formatlocation (path_text (s_cwd e))) (\<lambda>cwd.
             (let (passed, payload) = report e command cwd results screen standard errors
              in ret (if passed then 0 else 1, payload))))))))))"

end
