(* ===== verification/Shell_Protect.thy ===== *)
theory Shell_Protect
  imports Shell_Frame_Moves Shell_Run
begin

text \<open>
  Protected paths stay as they are.  On the first drive the permission check looks at the path a directive
  will write, read once more as a location; reading a path as a location drops the white space it ends in.
\<close>

declare cps_Cons [simp del] allowpaths.simps [simp del]

section \<open>A path read as a location\<close>

abbreviation rtrim :: "pystr \<Rightarrow> pystr" where
  "rtrim \<equiv> rstrip py_isspace"

definition trim :: "rpath \<Rightarrow> rpath" where
  "trim p = (if p = [] then []
     else (let c = rtrim (last p) in
       if c = [] \<or> c = [46] then butlast p else if c = [46, 46] then butlast (butlast p) else butlast p @ [c]))"

lemma rtrim_subset: "set (rtrim c) \<subseteq> set c"
  using set_dropWhile_subset [of py_isspace "rev c"] by (simp add: rstrip_def)

lemma rtrim_app: "rtrim (xs @ ys) = (if rtrim ys = [] then rtrim xs else xs @ rtrim ys)"
  by (auto simp: rstrip_def dropWhile_append)

lemma slash_not_space [simp]: "\<not> py_isspace 47"
  by (simp add: py_isspace_def)

lemma rtrim_slash [simp]: "rtrim (xs @ [47]) = xs @ [47]" "rtrim [47] = [47]"
  by (simp_all add: rstrip_def)

lemma strip_slash: "strip (47 # s) = rtrim (47 # s)"
  by (simp add: strip_def lstrip_def)

lemma strip_path:
  assumes "p \<noteq> []"
  shows "strip (path_text p) = concat (map (\<lambda>c. 47 # c) (butlast p)) @ 47 # rtrim (last p)"
proof -
  let ?pre = "concat (map (\<lambda>c. 47 # c) (butlast p))"
  have p: "path_text p = (?pre @ [47]) @ last p"
    using assms by (cases p rule: rev_cases) (simp_all add: path_text_def)
  then have "strip (path_text p) = rtrim ((?pre @ [47]) @ last p)"
    using assms strip_slash by (cases p) (auto simp: path_text_def)
  then show ?thesis unfolding rtrim_app by simp
qed

lemma tidy_parts: "tidy p \<Longrightarrow> list_all plain_part p" "tidy p \<Longrightarrow> c \<in> set p \<Longrightarrow> 92 \<notin> set c"
  by (auto simp: tidy_def list_all_iff)

lemma trim_tidy: "tidy p \<Longrightarrow> tidy (trim p)"
proof -
  assume t: "tidy p"
  have "tidy (butlast p)" "tidy (butlast (butlast p))" using t by (auto simp: tidy_def list_all_iff dest: in_set_butlastD)
  moreover have "set (rtrim (last p)) \<subseteq> set (last p)" by (rule rtrim_subset)
  moreover have "47 \<notin> set (last p) \<and> 92 \<notin> set (last p)" if "p \<noteq> []" using t that by (cases p rule: rev_cases) (auto simp: tidy_def plain_part_def)
  ultimately show ?thesis by (auto simp: trim_def tidy_def Let_def plain_part_def)
qed

lemma resolve_trim:
  assumes "tidy p" "p \<noteq> []"
  shows "resolve [] (split_on 47 (concat (map (\<lambda>c. 47 # c) (butlast p)) @ 47 # rtrim (last p))) = trim p"
proof -
  let ?q = "butlast p" and ?c = "rtrim (last p)"
  have q: "list_all plain_part ?q" using tidy_parts(1) [OF assms(1)] by (auto simp: list_all_iff dest: in_set_butlastD)
  have "47 \<notin> set (last p)" using assms by (cases p rule: rev_cases) (auto simp: tidy_def plain_part_def)
  then have c: "split_on 47 ?c = [?c]" using rtrim_subset by (intro split_on_no_sep) blast
  have "resolve [] (split_on 47 (concat (map (\<lambda>c. 47 # c) ?q))) = ?q"
    using split_slashed [OF q] resolve_plain [OF q, of "[]"] by (cases "?q = []") auto
  then show ?thesis
    unfolding split_on_app resolve_app c using assms(2) by (simp add: trim_def Let_def)
qed

lemma unslash_id: "92 \<notin> set t \<Longrightarrow> unslash t = t"
  unfolding unslash_def by (rule map_idI) auto

lemma text_chars: "tidy p \<Longrightarrow> 92 \<notin> set (path_text p)"
  by (auto simp: path_text_def tidy_def list_all_iff)

lemma strip_text:
  assumes "tidy p"
  shows "\<exists>u. strip (path_text p) = 47 # u \<and> (u = [] \<or> hd u \<noteq> 47) \<and> 92 \<notin> set u"
    "abspath cwd (strip (path_text p)) = trim p"
proof -
  show "\<exists>u. strip (path_text p) = 47 # u \<and> (u = [] \<or> hd u \<noteq> 47) \<and> 92 \<notin> set u"
  proof (cases p)
    case Nil
    then show ?thesis by (simp add: path_text_def strip_slash)
  next
    case (Cons c cs)
    obtain u where u: "strip (path_text p) = 47 # u"
      using strip_path [of p] Cons by (cases "butlast p") auto
    have "c \<noteq> []" "47 \<notin> set c" using assms Cons by (auto simp: tidy_def plain_part_def)
    then obtain x c' where "path_text p = 47 # x # c'" "x \<noteq> 47" using Cons by (cases c) (auto simp: path_text_def)
    moreover have "starts_with (strip (path_text p)) (path_text p)"
    proof -
      have "rtrim t = take (length (rtrim t)) t" for t
        by (metis append_eq_conv_conj rev_append rev_rev_ident rstrip_def takeWhile_dropWhile_id)
      then have "starts_with (rtrim t) t" for t by (simp add: starts_with_def)
      then show ?thesis using strip_slash calculation by metis
    qed
    ultimately have "u = [] \<or> hd u \<noteq> 47" using u by (cases u) (auto simp: starts_with_def)
    moreover have "92 \<notin> set u" using text_chars [OF assms] set_strip [of "path_text p"] u by (metis list.set_intros(2) subsetD)
    ultimately show ?thesis using u by blast
  qed
  then show "abspath cwd (strip (path_text p)) = trim p"
    using resolve_trim [OF assms] strip_path [of p]
    by (cases "p = []") (auto simp: abspath_def path_text_def strip_slash trim_def)
qed

lemma physical_trim: "tidy p \<Longrightarrow> physicalnormalize cwd (strip (path_text p)) = path_text (trim p)"
  using strip_text(2) [of p cwd] text_chars [OF trim_tidy [of p]] by (simp add: physicalnormalize_def unslash_id)

lemma physical_root: "physicalnormalize cwd [47] = [47]"
  by (simp add: physicalnormalize_def abspath_def path_text_def unslash_def)

lemma drivepath_home:
  assumes "map_of ds n = Some d" "dr_root d = [47]" "tidy p"
  shows "drivepath cwd ds n (strip (path_text p)) = Some (path_text (trim p))"
proof -
  obtain u where u: "strip (path_text p) = 47 # u" "u = [] \<or> hd u \<noteq> 47" "92 \<notin> set u" using strip_text(1) [OF assms(3)] by blast
  have "lstrip (\<lambda>c. c = 47) (47 # u) = u" using u(2) by (cases u) (auto simp: lstrip_def)
  moreover have "join_path [47] u = 47 # u" using u(2) by (cases u) (auto simp: join_path_def)
  moreover have "unslash (47 # u) = 47 # u" using u(3) by (intro unslash_id) simp
  moreover have "physicalnormalize cwd (47 # u) = path_text (trim p)" using physical_trim [OF assms(3)] u(1) by simp
  moreover have "unslash (commonpath q [47]) = [47]" for q
    by (cases "path_comps q") (simp_all add: commonpath_def path_comps_def path_text_def unslash_def)
  ultimately show ?thesis using assms(1,2) u(1) by (simp add: drivepath_def physical_root)
qed

lemma read_home:
  assumes "home cwd ds" "tidy p"
  shows "\<exists>n. read_location cwd ds (driveforpath cwd ds (path_text cwd)) (path_text p) = (n, Some (path_text (trim p)))"
proof -
  obtain u where u: "strip (path_text p) = 47 # u" "92 \<notin> set u" using strip_text(1) [OF assms(2)] by blast
  have t: "unslash (strip (path_text p)) = strip (path_text p)" using u by (intro unslash_id) simp
  have "location_match (strip (path_text p)) = None" "starts_with [47] (strip (path_text p))"
    using u(1) by (simp_all add: location_match_def is_digit_def starts_with_def)
  then show ?thesis
    using assms drivepath_home [of ds _ _ p cwd] physical_trim [OF assms(2), of cwd]
    unfolding read_location_def t Let_def home_def by (auto split: option.split)
qed

lemma located_home:
  assumes "guards e ds w" "home (s_cwd e) ds" "tidy p"
  shows "\<exists>w'. located (path_text p) e w = (Inr (trim p), w') \<and> guards e ds w'"
proof -
  obtain b where b: "loaddrives False e w = (Inr False, w\<lparr>sh_bin := b\<rparr>)" "b_fs b = sh_fs w"
    using loaddrives_fresh assms(1) by (auto simp: guards_def)
  obtain n where "read_location (s_cwd e) ds (driveforpath (s_cwd e) ds (path_text (s_cwd e))) (path_text p) = (n, Some (path_text (trim p)))"
    using read_home [OF assms(2,3)] by blast
  moreover have "abspath (s_cwd e) (path_text (trim p)) = trim p"
    using abspath_path_text tidy_parts(1) trim_tidy [OF assms(3)] by blast
  ultimately have "located (path_text p) e w = (Inr (trim p), w\<lparr>sh_bin := b\<rparr>)"
    using b(1) assms(1)
    by (simp add: located_def resolvepath_def parselocation_def andthen_def getting_def Let_def guards_def ret_def)
  moreover have "guards e ds (w\<lparr>sh_bin := b\<rparr>)" using assms(1) b(2) by (auto simp: guards_def fresh_def)
  ultimately show ?thesis by blast
qed

section \<open>Protected paths\<close>

definition protected_trees :: "rpath list" where
  "protected_trees = BRICKLSMFORBIDDENROOTS @ BRICKLSMMASTERDENIED @ ARCH_PROTECTED_RECURSIVE"

definition protected_path :: "rpath \<Rightarrow> bool" where
  "protected_path q \<longleftrightarrow> below_any protected_trees q \<or> q \<in> set ARCH_PROTECTED_NONRECURSIVE"

definition inside_tree :: "rpath \<Rightarrow> bool" where
  "inside_tree q \<longleftrightarrow> list_ex (\<lambda>r. starts_with r q \<and> q \<noteq> r) protected_trees"

text \<open>Ordinary names: those that no reading as a location turns into something else than a shorter name.\<close>

definition ordinary :: "rpath \<Rightarrow> bool" where
  "ordinary q \<longleftrightarrow> list_all (\<lambda>c. plain_part c \<and> 92 \<notin> set c \<and> rtrim c \<noteq> [46, 46]) q"

lemma ordinary_tidy: "ordinary q \<Longrightarrow> tidy q"
  by (auto simp: ordinary_def tidy_def list_all_iff)

lemma ordinary_prefix: "ordinary (p @ q) \<Longrightarrow> ordinary p"
  by (simp add: ordinary_def)

lemma inside_protected: "inside_tree q \<Longrightarrow> protected_path q"
  by (auto simp: inside_tree_def protected_path_def below_any_def list_ex_iff)

lemmas protection_lists = protected_trees_def BRICKLSMFORBIDDENROOTS_def BRICKLSMMASTERDENIED_def ARCH_PROTECTED_RECURSIVE_def
  ARCH_PROTECTED_NONRECURSIVE_def

text \<open>Every path above a protected one but the root is protected.\<close>

lemma tree_names: "r \<in> set protected_trees \<Longrightarrow> r \<noteq> [] \<and> rtrim (last r) = last r \<and> last r \<notin> {[], [46], [46, 46]}"
  by (auto simp: protection_lists rstrip_def py_isspace_def cps_Cons)

lemma listed_names: "r \<in> set ARCH_PROTECTED_NONRECURSIVE \<Longrightarrow> r \<noteq> [] \<and> rtrim (last r) = last r \<and> last r \<notin> {[], [46], [46, 46]}"
  by (auto simp: protection_lists rstrip_def py_isspace_def cps_Cons)

lemma tree_protected: "r \<in> set protected_trees \<Longrightarrow> protected_path (r @ z)"
  unfolding protected_path_def below_any_def list_ex_iff using starts_with_append by blast

lemma above_lists:
  "list_all (\<lambda>r. list_all (\<lambda>k. take k r \<in> set ARCH_PROTECTED_NONRECURSIVE) [1..<length r]) (protected_trees @ ARCH_PROTECTED_NONRECURSIVE)"
  by (simp add: protection_lists upt_rec)

lemma above_listed:
  assumes "r \<in> set protected_trees \<union> set ARCH_PROTECTED_NONRECURSIVE" "r = p @ x" "p \<noteq> []"
  shows "protected_path p"
proof (cases "x = []")
  case True
  then show ?thesis using assms tree_protected [of r "[]"] by (auto simp: protected_path_def)
next
  case False
  then have "length p \<in> set [1..<length r]" using assms(2,3) by (simp add: Suc_leI)
  then have "take (length p) r \<in> set ARCH_PROTECTED_NONRECURSIVE"
    using above_lists assms(1) unfolding list_all_iff by (metis Un_iff set_append)
  then show ?thesis using assms(2) by (simp add: protected_path_def)
qed

lemma above_protected:
  assumes "protected_path (p @ x)" "p \<noteq> []"
  shows "protected_path p"
proof -
  from assms(1) consider r where "r \<in> set protected_trees" "starts_with r (p @ x)" | "p @ x \<in> set ARCH_PROTECTED_NONRECURSIVE"
    by (auto simp: protected_path_def below_any_def list_ex_iff)
  then show ?thesis
  proof cases
    case 1
    then obtain y where "p @ x = r @ y" by (auto simp: starts_with_iff)
    then consider z where "p = r @ z" | z where "r = p @ z" by (metis append_eq_append_conv2)
    then show ?thesis
    proof cases
      case 1
      then show ?thesis using tree_protected [OF \<open>r \<in> set protected_trees\<close>] by simp
    qed (use above_listed \<open>r \<in> set protected_trees\<close> assms(2) in blast)
  qed (use above_listed assms(2) in blast)
qed

section \<open>The check denies protected paths\<close>

text \<open>At a root of a protected tree, or below it with a first name that does not read as \<open>..\<close>.\<close>

definition rooted :: "rpath \<Rightarrow> bool" where
  "rooted p \<longleftrightarrow> (\<exists>r \<in> set protected_trees. p = r \<or> (\<exists>d x. p = r @ d # x \<and> rtrim d \<noteq> [46, 46]))"

lemma rootedI: "r \<in> set protected_trees \<Longrightarrow> rtrim d \<noteq> [46, 46] \<Longrightarrow> rooted (r @ d # x)"
  unfolding rooted_def by blast

lemma rooted_protected: "rooted p \<Longrightarrow> below_any protected_trees p"
  by (auto simp: rooted_def below_any_def list_ex_iff starts_with_iff)

lemma rtrim_twice: "rtrim (rtrim c) = rtrim c"
  by (simp add: rstrip_def)

lemma rooted_trim:
  assumes "rooted p"
  shows "rooted (trim p)"
proof -
  obtain r where r: "r \<in> set protected_trees" and p: "p = r \<or> (\<exists>d x. p = r @ d # x \<and> rtrim d \<noteq> [46, 46])"
    using assms by (auto simp: rooted_def)
  have self: "rooted r" using r by (auto simp: rooted_def)
  from p show ?thesis
  proof
    assume "p = r"
    then have "trim p = p" using tree_names [OF r] by (simp add: trim_def)
    then show ?thesis using assms by simp
  next
    assume "\<exists>d x. p = r @ d # x \<and> rtrim d \<noteq> [46, 46]"
    then obtain d x where p: "p = r @ d # x" and d: "rtrim d \<noteq> [46, 46]" by blast
    show ?thesis
    proof (cases x rule: rev_cases)
      case Nil
      then have "trim p = r \<or> trim p = r @ [rtrim d]" using p d by (simp add: trim_def Let_def)
      then show ?thesis using self rootedI [OF r, of "rtrim d" "[]"] d rtrim_twice by metis
    next
      case (snoc y c)
      then have "trim p \<in> {r @ d # y, r @ d # y @ [rtrim c], butlast (r @ d # y)}" using p by (simp add: trim_def Let_def butlast_append)
      moreover have "butlast (r @ d # y) = r \<or> butlast (r @ d # y) = r @ d # butlast y" by (simp add: butlast_append)
      ultimately show ?thesis using self rootedI [OF r d] by auto
    qed
  qed
qed

lemma listed_trim: "p \<in> set ARCH_PROTECTED_NONRECURSIVE \<Longrightarrow> trim p = p"
  using listed_names [of p] by (simp add: trim_def)

lemma lsm_denies: "tidy q \<Longrightarrow> rooted q \<or> q \<in> set ARCH_PROTECTED_NONRECURSIVE \<Longrightarrow> \<not> lsm_allows cwd q"
  using rooted_protected [of q] abspath_path_text [OF tidy_parts(1), of q cwd]
  by (auto simp: lsm_allows_def check_def protected_trees_def below_any_def Let_def)

lemma allowed_target:
  assumes "guards e ds w" "allowpaths ps e w = (Inr True, w')" "p \<in> set ps" "tidy p"
  shows "\<not> rooted p \<and> p \<notin> set ARCH_PROTECTED_NONRECURSIVE"
  using assms
proof (induction ps arbitrary: w)
  case (Cons q ps)
  have h: "home (s_cwd e) ds" using Cons.prems(1) by (simp add: guards_def settled_def)
  obtain target ok w1 w2 where run: "located (path_text q) e w = (Inr target, w1)" "bricklsmmutationallowed target e w1 = (Inr True, w2)"
    "allowpaths ps e w2 = (Inr True, w')"
    using Cons.prems(2)
    by (auto simp: allowpaths.simps andthen_Inr except_do_def guierror_def split: prod.splits sum.splits option.splits if_splits)
  show ?case
  proof (cases "p = q")
    case True
    have t: "target = trim p" "guards e ds w1" using located_home [OF Cons.prems(1) h Cons.prems(4)] run(1) True by auto
    obtain w3 where "located (path_text (trim p)) e w1 = (Inr (trim (trim p)), w3)"
      using located_home [OF t(2) h trim_tidy [OF Cons.prems(4)]] by blast
    then have "lsm_allows (s_cwd e) (trim (trim p))"
      using run(2) t(1)
      by (auto simp: bricklsmmutationallowed_def except_do_def andthen_def getting_def ret_def raise_def split: if_splits)
    moreover have "tidy (trim (trim p))" using trim_tidy Cons.prems(4) by blast
    ultimately show ?thesis using lsm_denies rooted_trim listed_trim by metis
  next
    case False
    have "hush e w w1" "hush e w1 w2" using keeps_atD [OF quiet_located(3) run(1)] keeps_atD [OF quiet_allowed run(2)] by simp_all
    then have "guards e ds w2" using Cons.prems(1) by (auto simp: hush_def guards_def fresh_def)
    then show ?thesis using Cons.IH [OF _ run(3)] Cons.prems(3,4) False by simp
  qed
qed simp

section \<open>The frame\<close>

definition shut_path :: "rpath \<Rightarrow> bool" where
  "shut_path q \<longleftrightarrow> ordinary q \<and> inside_tree q"

definition held_path :: "rpath \<Rightarrow> bool" where
  "held_path q \<longleftrightarrow> q = [] \<or> ordinary q \<and> protected_path q"

definition permitted :: "rpath \<Rightarrow> bool" where
  "permitted p \<longleftrightarrow> p \<noteq> [] \<and> \<not> (ordinary p \<and> protected_path p) \<and> (tidy p \<longrightarrow> (\<forall>k \<le> length p. \<not> shut_path (take k p)))"

lemma inside_rooted: "ordinary q \<Longrightarrow> inside_tree q \<Longrightarrow> rooted (q @ x)"
proof -
  assume o: "ordinary q" and "inside_tree q"
  then obtain r y where r: "r \<in> set protected_trees" "q = r @ y" "y \<noteq> []" by (auto simp: inside_tree_def list_ex_iff starts_with_iff)
  then obtain d z where "y = d # z" by (cases y) auto
  then show ?thesis using o r rootedI [OF r(1), of d "z @ x"] by (auto simp: ordinary_def)
qed

lemma protected_rooted: "ordinary q \<Longrightarrow> protected_path q \<Longrightarrow> rooted q \<or> q \<in> set ARCH_PROTECTED_NONRECURSIVE"
proof -
  assume o: "ordinary q" and "protected_path q"
  then consider "q \<in> set ARCH_PROTECTED_NONRECURSIVE" | r where "r \<in> set protected_trees" "starts_with r q"
    by (auto simp: protected_path_def below_any_def list_ex_iff)
  then show ?thesis
  proof cases
    case 2
    show ?thesis
    proof (cases "q = r")
      case True
      then show ?thesis using 2 by (auto simp: rooted_def)
    next
      case False
      then have "inside_tree q" using 2 by (auto simp: inside_tree_def list_ex_iff)
      then show ?thesis using inside_rooted [OF o, of "[]"] by simp
    qed
  qed simp
qed

lemma permitted_free: "permitted p \<Longrightarrow> free_tree shut_path held_path p"
  unfolding free_tree_def loose_def
proof (intro allI conjI)
  fix r
  assume p: "permitted p"
  then have "\<not> (ordinary (p @ r) \<and> protected_path (p @ r))"
    using above_protected [of p r] ordinary_prefix [of p r] by (auto simp: permitted_def)
  then show "\<not> shut_path (p @ r)" "\<not> held_path (p @ r)"
    using p inside_protected by (auto simp: shut_path_def held_path_def permitted_def)
qed

lemma bin_unprotected: "\<not> below_any protected_trees (RUBBISHDIR @ q)" "q \<noteq> [] \<Longrightarrow> RUBBISHDIR @ q \<notin> set ARCH_PROTECTED_NONRECURSIVE"
  by (auto simp: below_any_def protection_lists RUBBISHDIR_def starts_with_iff cps_Cons)

interpretation protect: shell_frame shut_path held_path e ds permitted for e ds
proof
  show "held_path []" by (simp add: held_path_def)
  show "loose shut_path held_path (RUBBISHDIR @ q)" if "q \<noteq> []" for q
    using bin_unprotected [of q] that inside_protected
    by (auto simp: loose_def shut_path_def held_path_def protected_path_def RUBBISHDIR_def)
  show "\<not> shut_path []" "\<not> shut_path RUBBISHDIR"
    using bin_unprotected(1) [of "[]"] tree_names
    by (auto simp: shut_path_def inside_tree_def below_any_def list_ex_iff starts_with_def)
  show "p = [] \<or> permitted p" if "guards e ds w" "allowpaths ps e w = (Inr True, w')" "p \<in> set ps" for w ps w' p
  proof (cases "tidy p")
    case True
    note no = allowed_target [OF that True]
    have "\<not> shut_path (take k p)" for k using no inside_rooted [of "take k p" "drop k p"] by (auto simp: shut_path_def)
    then show ?thesis using no protected_rooted [of p] by (auto simp: permitted_def)
  next
    case False
    then show ?thesis using ordinary_tidy by (auto simp: permitted_def)
  qed
  show "free_tree shut_path held_path p" if "permitted p" for p using that by (rule permitted_free)
  show "clear_way shut_path p" if "permitted p" "tidy p" for p using that by (simp add: clear_way_def permitted_def)
qed

end
