(* ===== verification/Shell_Props.thy ===== *)
theory Shell_Props
  imports Shell_Protect
begin

text \<open>
  What the shell promises of whole lines: the file directives leave protected paths alone, and every part of a chain
  is run and has a result.
\<close>

declare cps_Cons [simp del] allowpaths.simps [simp del]

section \<open>Running a line stays in the frame\<close>

lemma quiet_flags [looks]:
  "quiet e (setting (\<lambda>w. w\<lparr>sh_active := a\<rparr>))" "quiet e (setting (\<lambda>w. w\<lparr>sh_active := a, sh_failed := b\<rparr>))" "quiet e failing"
  unfolding failing_def by (rule quiet_set, simp)+

lemma quiet_result [looks]: "quiet e (directiveresult v d c m)"
proof -
  have "quiet e (setting (\<lambda>w. w\<lparr>sh_last := Some r\<rparr>))" for r by (rule quiet_set) simp
  then show ?thesis unfolding directiveresult_def by (intro hush.at_andthen looks)
qed

lemma quiet_unknown [looks]: "quiet e (unknown t)"
  unfolding unknown_def by (rule looks)

context shell_frame
begin

lemma safe_handler:
  assumes "\<forall>sp \<in> set specs. \<forall>args. safe (sp_handler sp args)"
  shows "safe (directive_handler specs name args)"
proof -
  let ?m = "rev (concat (map (\<lambda>sp. map (\<lambda>n. (n, sp_handler sp)) (sp_names sp)) specs))"
  have "safe (h args)" if "map_of ?m name = Some h" for h using map_of_SomeD [OF that] assms by auto
  then show ?thesis unfolding directive_handler_def by (simp split: option.split add: run.at_raise)
qed

lemma safe_dispatch:
  assumes "\<forall>sp \<in> set specs. \<forall>args. safe (sp_handler sp args)"
  shows "safe (dispatch specs parts)"
  unfolding dispatch_def
  by (intro safe_andthen run.at_getting)
    (auto split: option.split intro!: safe_if safe_andthen looks [THEN safe_quiet] run.at_ret safe_handler [OF assms])

lemma safe_rundirective:
  assumes "\<forall>sp \<in> set specs. \<forall>args. safe (sp_handler sp args)"
  shows "safe (rundirective specs line echo)"
  unfolding rundirective_def Let_def
  by (intro run.at_finally run.at_except safe_andthen looks [THEN safe_quiet] safe_if run.at_ret safe_dispatch [OF assms])

lemma safe_runchain:
  assumes "\<forall>sp \<in> set specs. \<forall>args. safe (sp_handler sp args)"
  shows "safe (runchain specs line echo)"
proof -
  have "safe (run_segments specs echo segs)" for segs
    by (induction segs)
      (auto intro!: safe_andthen run.at_except run.at_ret safe_rundirective [OF assms] looks [THEN safe_quiet])
  then show ?thesis unfolding runchain_def .
qed

text \<open>All file directives but \<open>destroy tier\<close>.\<close>

lemma safe_file_specs:
  "\<forall>sp \<in> set (filter (\<lambda>sp. cps ''destroy tier'' \<notin> set (sp_names sp)) file_specs). \<forall>args. safe (sp_handler sp args)"
proof -
  have "\<forall>sp \<in> set file_specs. cps ''destroy tier'' \<notin> set (sp_names sp) \<longrightarrow> (\<forall>args. safe (sp_handler sp args))"
    unfolding file_specs_def
    by (simp add: safe_createtier safe_deletetier safe_renametier safe_movetier safe_copytier safe_create safe_delete safe_destroy
        safe_rename safe_move safe_copy)
  then show ?thesis by simp
qed

end

definition protected_specs :: "spec list" where
  "protected_specs = filter (\<lambda>sp. cps ''destroy tier'' \<notin> set (sp_names sp)) file_specs"

text \<open>C1. Whatever a chain of file directives is given and whatever calls fail, protected paths stay as they are.  A
  line runs on the first drive, outside the rubbish, while the list of drives is fresh; then no directive
  for files and tiers but \<open>destroy tier\<close> changes an entry that is there at a protected path, and none adds,
  changes or removes anything inside a protected tree, apart from paths with a backslash or a name that is \<open>..\<close>
  followed by white space.
\<close>

theorem protected_stays:
  assumes "guards e ds w" "runchain protected_specs line echo e w = (r, w')"
    and "ordinary q" "inside_tree q \<or> protected_path q \<and> map_of (sh_fs w) q \<noteq> None"
  shows "map_of (sh_fs w') q = map_of (sh_fs w) q"
proof -
  have "keeps_at (framed shut_path held_path e ds) e (runchain protected_specs line echo)"
    unfolding protected_specs_def by (intro protect.safe_runchain protect.safe_file_specs)
  from keeps_atD [OF this assms(2)] have "kept shut_path held_path (sh_fs w) (sh_fs w')" using assms(1) by (simp add: framed_def)
  then show ?thesis using assms(3,4) by (auto simp: kept_def shut_path_def held_path_def)
qed

text \<open>A shell at the root of a file system with a protected file.\<close>

definition demo_senv :: senv where
  "demo_senv = \<lparr>se_base = demo_renv, se_lower = id, se_casefold = id, se_str = (\<lambda>_. []), se_error = (\<lambda>_. []), se_stdin = Inr [],
     se_input = Inr [], se_stamp = (\<lambda>_. [])\<rparr>"

definition demo_shell :: shell where
  "demo_shell = \<lparr>sh_bin = \<lparr>b_fs = [([], Tier), ([cps ''boot''], Tier), ([cps ''boot'', cps ''a''], File [1])], b_calls = 0\<rparr>,
     sh_scroll = [], sh_stdout = [], sh_stderr = [], sh_active = False, sh_failed = False, sh_headless = False, sh_last = None,
     sh_drives = [(1, first_drive)], sh_scan = 1000000000, sh_drive = 1\<rparr>"

lemma demo_guards: "guards demo_senv [(1, first_drive)] demo_shell"
proof -
  have "home [] [(1, first_drive)]"
    by (simp add: home_def driveforpath_def physicalnormalize_def path_text_def abspath_def unslash_def commonpath_def path_comps_def
        first_drive_def)
  moreover have "\<not> in_rubbish []" by (simp add: in_rubbish_def path_text_def starts_with_def cps_Cons)
  ultimately show ?thesis
    by (simp add: guards_def settled_def fresh_def demo_senv_def demo_shell_def demo_renv_def bytes_ok_def DRIVESCANINTERVAL_def)
qed

theorem protected_stays_witness:
  "map_of (sh_fs (snd (runchain protected_specs (cps ''destroy /boot/a; move /boot/a /b; delete tier /boot'') True demo_senv demo_shell)))
     [cps ''boot'', cps ''a''] = Some (File [1])"
proof -
  let ?q = "[cps ''boot'', cps ''a'']" and ?line = "cps ''destroy /boot/a; move /boot/a /b; delete tier /boot''"
  obtain r w' where run: "runchain protected_specs ?line True demo_senv demo_shell = (r, w')" by fastforce
  have "ordinary ?q" by (simp add: ordinary_def plain_part_def rstrip_def py_isspace_def cps_Cons)
  moreover have "inside_tree ?q" by (simp add: inside_tree_def protection_lists starts_with_def cps_Cons)
  ultimately have "map_of (sh_fs w') ?q = map_of (sh_fs demo_shell) ?q" using protected_stays [OF demo_guards run] by blast
  then show ?thesis using run by (simp add: demo_shell_def cps_Cons)
qed

section \<open>Where the protection ends\<close>

text \<open>The root itself is not protected: \<open>destroy tier /\<close> removes everything.\<close>

theorem destroy_tier_root:
  assumes "guards e ds w" "no_fault (se_base e)"
  shows "sh_fs (snd (destroytier [[47]] e w)) = []"
proof -
  have h: "home (s_cwd e) ds" and out: "\<not> in_rubbish (s_cwd e)" using assms(1) by (simp_all add: guards_def settled_def)
  have root: "tidy []" "trim [] = []" "path_text [] = [47]" by (simp_all add: tidy_def trim_def path_text_def)
  obtain w1 where w1: "located [47] e w = (Inr [], w1)" "guards e ds w1" using located_home [OF assms(1) h root(1)] root by auto
  obtain w2 where w2: "located [47] e w1 = (Inr [], w2)" "guards e ds w2" using located_home [OF w1(2) h root(1)] root by auto
  obtain w3 where w3: "located [47] e w2 = (Inr [], w3)" "guards e ds w3" using located_home [OF w2(2) h root(1)] root by auto
  have "lsm_allows (s_cwd e) []"
    by (simp add: lsm_allows_def below_any_def protection_lists check_def abspath_def root(3) starts_with_def)
  then have allow: "allowpaths [[]] e w1 = (Inr True, w3)"
    using w2(1) w3(1)
    by (simp add: allowpaths.simps bricklsmmutationallowed_def except_do_def andthen_def root(3) has_nul_def getting_def ret_def)
  have tier: "map_of (sh_fs w3) [] = Some Tier" using w3(2) by (simp add: guards_def)
  obtain b where b: "rmtree_strict [] (se_base e) (sh_bin w3) = (Inr (), b)" "b_fs b = drop_tree [] (sh_fs w3)"
    using yieldsD [OF yields_rmtree_strict [OF assms(2) tier] refl] by blast
  then have "b_fs b = []" by (simp add: drop_tree_def starts_with_def)
  moreover have "join_with 32 [[47]] = [47]" "\<not> list_ex haswild [[47]]" by (simp_all add: haswild_def)
  ultimately show ?thesis
    using w1(1) allow b(1) out
    by (simp add: destroytier_def nothing_def Let_def andthen_def getting_def except_do_def on_files_def guiprint_def setting_def ret_def
        appendline_keeps)
qed

text \<open>On another drive the check looks at the wrong path: an absolute path of the first drive is read as a path below
  the current drive's root.\<close>

definition other_drives :: "(int \<times> drive) list" where
  "other_drives = [(1, first_drive), (2, first_drive\<lparr>dr_number := 2, dr_root := cps ''/.ephemeral/volumes/usb''\<rparr>)]"

theorem check_on_other_drive:
  "read_location [cps ''.ephemeral'', cps ''volumes'', cps ''usb''] other_drives (snd (other_drives ! 1)) (cps ''/boot/a'')
     = (2, Some (cps ''/.ephemeral/volumes/usb/boot/a''))"
  "\<not> lsm_allows cwd [cps ''boot'', cps ''a'']"
  "lsm_allows cwd [cps ''.ephemeral'', cps ''volumes'', cps ''usb'', cps ''boot'', cps ''a'']"
proof -
  show "read_location [cps ''.ephemeral'', cps ''volumes'', cps ''usb''] other_drives (snd (other_drives ! 1)) (cps ''/boot/a'')
     = (2, Some (cps ''/.ephemeral/volumes/usb/boot/a''))"
    by code_simp
  show "\<not> lsm_allows cwd [cps ''boot'', cps ''a'']"
    by (simp add: lsm_allows_def check_def path_text_def abspath_def protection_lists starts_with_def cps_Cons)
  show "lsm_allows cwd [cps ''.ephemeral'', cps ''volumes'', cps ''usb'', cps ''boot'', cps ''a'']"
    by (simp add: lsm_allows_def check_def path_text_def abspath_def protection_lists below_any_def starts_with_def cps_Cons)
qed

end
