(* ===== verification/Shell_Lines_Facts.thy ===== *)
theory Shell_Lines_Facts
  imports Shell_Lines
begin

text \<open>
  What the line functions of the shell promise: the parts of a chain are the pieces of the line
  between the semicolons outside quotes, and what the prompt marks as the directive is what runs.
\<close>

section \<open>Chains\<close>

text \<open>The reference: \<open>scan\<close> reads a piece from a state of the quotes and gives the state after it, or
  nothing when the piece has a semicolon outside quotes.  A line is cut into pieces such that each
  but the last ends outside quotes.\<close>

type_synonym quotes = "bool \<times> bool \<times> bool"

abbreviation unquoted :: quotes where
  "unquoted \<equiv> (False, False, False)"

fun scan_step :: "cp \<Rightarrow> quotes \<Rightarrow> quotes" where
  "scan_step ch (sq, dq, True) = (sq, dq, False)"
| "scan_step ch (sq, dq, False) =
     (if ch = 92 then (sq, dq, True) else if ch = 39 \<and> \<not> dq then (\<not> sq, dq, False)
      else if ch = 34 \<and> \<not> sq then (sq, \<not> dq, False) else (sq, dq, False))"

fun scan :: "quotes \<Rightarrow> pystr \<Rightarrow> quotes option" where
  "scan q [] = Some q"
| "scan q (c # cs) = (if c = 59 \<and> q = unquoted then None else scan (scan_step c q) cs)"

fun pieces_from :: "quotes \<Rightarrow> pystr list \<Rightarrow> bool" where
  "pieces_from q [] = False"
| "pieces_from q [p] = (scan q p \<noteq> None)"
| "pieces_from q (p # ps) = (scan q p = Some unquoted \<and> pieces_from unquoted ps)"

definition chain_of :: "pystr list \<Rightarrow> pystr \<Rightarrow> bool" where
  "chain_of ps line \<longleftrightarrow> line = join_with 59 ps \<and> pieces_from unquoted ps"

fun offsets :: "nat \<Rightarrow> pystr list \<Rightarrow> (pystr \<times> nat) list" where
  "offsets n [] = []"
| "offsets n (p # ps) = (p, n) # offsets (n + length p + 1) ps"

abbreviation with_quotes :: "quotes \<Rightarrow> chain \<Rightarrow> chain" where
  "with_quotes q c \<equiv> c\<lparr>ch_single := fst q, ch_double := fst (snd q), ch_escape := snd (snd q)\<rparr>"

abbreviation quotes_of :: "chain \<Rightarrow> quotes" where
  "quotes_of c \<equiv> (ch_single c, ch_double c, ch_escape c)"

lemma chain_step_on:
  "\<not> (ch = 59 \<and> quotes_of c = unquoted) \<Longrightarrow>
    chain_step ch c = with_quotes (scan_step ch (quotes_of c)) (c\<lparr>ch_buf := ch_buf c @ [ch]\<rparr>)"
  by (cases "ch_escape c") (auto simp: chain_step_def)

lemma chain_step_cut: "quotes_of c = unquoted \<Longrightarrow> chain_step 59 c = c\<lparr>ch_out := chain_flush c, ch_buf := []\<rparr>"
  by (simp add: chain_step_def)

lemma chain_run: "scan (quotes_of c) p = Some q \<Longrightarrow> fold chain_step p c = with_quotes q (c\<lparr>ch_buf := ch_buf c @ p\<rparr>)"
proof (induction p arbitrary: c)
  case (Cons ch p)
  then show ?case
    using chain_step_on [of ch c] by (cases "scan_step ch (quotes_of c)") (auto split: if_splits)
qed auto

abbreviation posquotes_of :: "chainpos \<Rightarrow> quotes" where
  "posquotes_of c \<equiv> (cp_single c, cp_double c, cp_escape c)"

abbreviation with_posquotes :: "quotes \<Rightarrow> chainpos \<Rightarrow> chainpos" where
  "with_posquotes q c \<equiv> c\<lparr>cp_single := fst q, cp_double := fst (snd q), cp_escape := snd (snd q)\<rparr>"

lemma chainpos_step_on:
  "\<not> (ch = 59 \<and> posquotes_of c = unquoted) \<Longrightarrow>
    chainpos_step ch c = with_posquotes (scan_step ch (posquotes_of c)) (c\<lparr>cp_buf := cp_buf c @ [ch], cp_i := cp_i c + 1\<rparr>)"
  by (cases "cp_escape c") (auto simp: chainpos_step_def)

lemma chainpos_step_cut:
  "posquotes_of c = unquoted \<Longrightarrow>
    chainpos_step 59 c = c\<lparr>cp_out := chainpos_flush c, cp_buf := [], cp_segstart := cp_i c + 1, cp_i := cp_i c + 1\<rparr>"
  by (simp add: chainpos_step_def)

lemma chainpos_run:
  "scan (posquotes_of c) p = Some q \<Longrightarrow>
    fold chainpos_step p c = with_posquotes q (c\<lparr>cp_buf := cp_buf c @ p, cp_i := cp_i c + length p\<rparr>)"
proof (induction p arbitrary: c)
  case (Cons ch p)
  then show ?case
    using chainpos_step_on [of ch c] by (cases "scan_step ch (posquotes_of c)") (auto split: if_splits)
qed auto

lemma chain_pieces:
  assumes "pieces_from (quotes_of c) ps" "ch_buf c = []"
  shows "chain_flush (fold chain_step (join_with 59 ps) c) = ch_out c @ filter (\<lambda>s. s \<noteq> []) (map strip ps)"
  using assms
proof (induction "quotes_of c" ps arbitrary: c rule: pieces_from.induct)
  case (2 p)
  then obtain q where "scan (quotes_of c) p = Some q" by auto
  from chain_run [OF this] show ?case using 2 by (simp add: chain_flush_def Let_def)
next
  case (3 p p' ps)
  define d where "d = with_quotes unquoted (c\<lparr>ch_buf := p\<rparr>)"
  have d: "fold chain_step p c = d" using chain_run [of c p] 3 by (simp add: d_def)
  then have "fold chain_step (join_with 59 (p # p' # ps)) c = fold chain_step (join_with 59 (p' # ps)) (d\<lparr>ch_out := chain_flush d, ch_buf := []\<rparr>)"
    using chain_step_cut [of d] by (simp add: d_def)
  then show ?case using "3.hyps" [of "d\<lparr>ch_out := chain_flush d, ch_buf := []\<rparr>"] 3 by (simp add: d_def chain_flush_def Let_def)
qed simp

lemma chainpos_pieces:
  assumes "pieces_from (posquotes_of c) ps" "cp_buf c = []" "cp_segstart c = cp_i c"
  shows "chainpos_flush (fold chainpos_step (join_with 59 ps) c) = cp_out c @ filter (\<lambda>(s, _). strip s \<noteq> []) (offsets (cp_i c) ps)"
  using assms
proof (induction "posquotes_of c" ps arbitrary: c rule: pieces_from.induct)
  case (2 p)
  then obtain q where "scan (posquotes_of c) p = Some q" by auto
  from chainpos_run [OF this] show ?case using 2 by (simp add: chainpos_flush_def)
next
  case (3 p p' ps)
  define d where "d = with_posquotes unquoted (c\<lparr>cp_buf := p, cp_i := cp_i c + length p\<rparr>)"
  define d' where "d' = d\<lparr>cp_out := chainpos_flush d, cp_buf := [], cp_segstart := cp_i d + 1, cp_i := cp_i d + 1\<rparr>"
  have d: "fold chainpos_step p c = d" using chainpos_run [of c p] 3 by (simp add: d_def)
  then have "fold chainpos_step (join_with 59 (p # p' # ps)) c = fold chainpos_step (join_with 59 (p' # ps)) d'"
    using chainpos_step_cut [of d] by (simp add: d_def d'_def)
  then show ?case using "3.hyps" [of d'] 3 by (simp add: d_def d'_def chainpos_flush_def)
qed simp

lemma pieces_exist: "\<exists>ps. line = join_with 59 ps \<and> pieces_from q ps"
proof (induction line arbitrary: q)
  case Nil
  have "[] = join_with 59 [[]] \<and> pieces_from q [[]]" by simp
  then show ?case by blast
next
  case (Cons c line)
  show ?case
  proof (cases "c = 59 \<and> q = unquoted")
    case True
    obtain ps where ps: "line = join_with 59 ps" "pieces_from unquoted ps" using Cons by blast
    then obtain p ps' where "ps = p # ps'" by (cases ps) auto
    then have "c # line = join_with 59 ([] # ps) \<and> pieces_from q ([] # ps)" using ps True by auto
    then show ?thesis by blast
  next
    case False
    obtain ps where ps: "line = join_with 59 ps" "pieces_from (scan_step c q) ps" using Cons by blast
    then obtain p ps' where p: "ps = p # ps'" by (cases ps) auto
    then have "c # line = join_with 59 ((c # p) # ps') \<and> pieces_from q ((c # p) # ps')"
      using ps False by (cases ps') auto
    then show ?thesis by blast
  qed
qed

text \<open>C12. A line is the pieces between its semicolons outside quotes: there are such pieces, and for
  them \<open>splitchain\<close> gives the stripped pieces that are not blank, in order, and \<open>splitchainpos\<close> the same
  pieces as they stand with the index at which each starts.
\<close>

theorem chain_spec:
  "(\<exists>ps. chain_of ps line) \<and> (\<forall>ps. chain_of ps line \<longrightarrow> splitchain line = filter (\<lambda>s. s \<noteq> []) (map strip ps)
     \<and> splitchainpos line = filter (\<lambda>(s, _). strip s \<noteq> []) (offsets 0 ps))"
  using pieces_exist chain_pieces [of chain_start] chainpos_pieces [of chainpos_start]
  by (simp add: chain_of_def splitchain_def splitchainpos_def chain_start_def chainpos_start_def)

theorem chain_spec_witness:
  "splitchain (cps ''a;'b;c' ; ;d'') = [cps ''a'', 39 # cps ''b;c'' @ [39], cps ''d'']
    \<and> splitchainpos (cps ''a;'b;c' ; ;d'') = [(cps ''a'', 0), (39 # cps ''b;c'' @ [39, 32], 2), (cps ''d'', 11)]"
proof -
  have "chain_of [cps ''a'', 39 # cps ''b;c'' @ [39, 32], [32], cps ''d''] (cps ''a;'b;c' ; ;d'')" by (simp add: chain_of_def)
  then have "splitchain (cps ''a;'b;c' ; ;d'') = filter (\<lambda>s. s \<noteq> []) (map strip [cps ''a'', 39 # cps ''b;c'' @ [39, 32], [32], cps ''d''])
    \<and> splitchainpos (cps ''a;'b;c' ; ;d'') = filter (\<lambda>(s, _). strip s \<noteq> []) (offsets 0 [cps ''a'', 39 # cps ''b;c'' @ [39, 32], [32], cps ''d''])"
    using chain_spec by blast
  then show ?thesis by (simp add: strip_def lstrip_def rstrip_def py_isspace_def)
qed

section \<open>Words\<close>

lemma skip_while_takes: "skip_while p s i = i + length (takeWhile p (drop i s))"
proof (induction p s i rule: skip_while.induct)
  case (1 p s i)
  show ?case
  proof (cases "i < length s \<and> p (s ! i)")
    case True
    then have "drop i s = s ! i # drop (i + 1) s" by (simp add: Cons_nth_drop_Suc)
    then show ?thesis using "1.IH" [OF True] True by (subst skip_while.simps) simp
  next
    case False
    then have "takeWhile p (drop i s) = []" by (cases "i < length s") (simp_all add: Cons_nth_drop_Suc [symmetric])
    then show ?thesis using False by (subst skip_while.simps) auto
  qed
qed

lemma drop_takes: "drop (i + length (takeWhile p (drop i s))) s = dropWhile p (drop i s)"
  by (metis add.commute drop_drop dropWhile_eq_drop)

lemma substring_takes: "substring s i (i + length (takeWhile p (drop i s))) = takeWhile p (drop i s)"
  unfolding substring_def by (simp add: takeWhile_eq_take [symmetric])

definition plain_line :: "pystr \<Rightarrow> bool" where
  "plain_line s \<longleftrightarrow> (\<forall>c \<in> set s. c \<notin> {34, 39, 92} \<and> (py_isspace c \<longrightarrow> c = 32))"

lemma space_32 [simp]: "py_isspace 32"
  by (simp add: py_isspace_def)

lemma plain_space: "plain_line s \<Longrightarrow> c \<in> set s \<Longrightarrow> py_isspace c \<longleftrightarrow> c = 32"
  by (auto simp: plain_line_def)

lemma shlex_plain:
  assumes "plain_line s"
  shows "(st = Between \<and> w = []) \<or> (st = Inside \<and> w \<noteq> []) \<Longrightarrow> shlex_from st w False s = Inr (words_from w s)"
  using assms
proof (induction s arbitrary: st w)
  case (Cons c s)
  then have c: "c \<notin> {34, 39, 92}" "py_isspace c \<longleftrightarrow> c = 32" and s: "plain_line s"
    using plain_space [of "c # s" c] by (auto simp: plain_line_def)
  have "is_shlex_space c \<longrightarrow> py_isspace c" "is_shlex_space 32" by (auto simp: is_shlex_space_def py_isspace_def)
  then have x: "is_shlex_space c \<longleftrightarrow> c = 32" using c(2) by auto
  have between: "shlex_from Between [] False s = Inr (words_from [] s)" using Cons.IH [OF _ s, of Between "[]"] by simp
  have inside: "shlex_from Inside (w @ [c]) False s = Inr (words_from (w @ [c]) s)" using Cons.IH [OF _ s, of Inside "w @ [c]"] by simp
  show ?case using Cons.prems(1) c x between inside by (elim disjE conjE) (simp_all add: rbind_def)
qed auto

lemma words_skip: "words_from [] (dropWhile py_isspace s) = words_from [] s"
  by (induction s) auto

lemma words_trail: "list_all py_isspace t \<Longrightarrow> words_from w (s @ t) = words_from w s"
proof (induction s arbitrary: w)
  case Nil
  then show ?case by (induction t arbitrary: w) auto
qed auto

lemma words_strip: "words (strip s) = words s"
proof -
  define t where "t = dropWhile py_isspace s"
  have "t = rev (dropWhile py_isspace (rev t)) @ rev (takeWhile py_isspace (rev t))"
    by (metis rev_append rev_rev_ident takeWhile_dropWhile_id)
  moreover have "list_all py_isspace (rev (takeWhile py_isspace (rev t)))"
    by (auto simp: list_all_iff dest: set_takeWhileD)
  ultimately have "words_from [] (rev (dropWhile py_isspace (rev t))) = words_from [] t" by (metis words_trail)
  then show ?thesis by (simp add: words_def strip_def lstrip_def rstrip_def t_def words_skip)
qed

lemma line_parts_plain: "plain_line s \<Longrightarrow> line_parts s = words s"
proof -
  assume "plain_line s"
  then have "plain_line (strip s)" using set_strip [of s] by (auto simp: plain_line_def)
  from shlex_plain [OF this, of Between "[]"] show ?thesis by (simp add: line_parts_def shlex_split_def words_def [symmetric] words_strip)
qed

lemma words_one: "\<forall>c \<in> set v. \<not> py_isspace c \<Longrightarrow> words_from w (v @ s) = words_from (w @ v) s"
  by (induction v arbitrary: w) auto

lemma words_word:
  assumes "v \<noteq> []" "\<forall>c \<in> set v. \<not> py_isspace c"
  shows "words (v @ 32 # s) = v # words s" "words v = [v]"
  using assms words_one [of v "[]" "32 # s"] words_one [of v "[]" "[]"] by (simp_all add: words_def)

lemma words_spaces: "list_all (\<lambda>c. c = 32) t \<Longrightarrow> words (t @ s) = words s"
  by (induction t) (auto simp: words_def)

lemma words_gap: "v \<noteq> [] \<Longrightarrow> \<forall>c \<in> set v. \<not> py_isspace c \<Longrightarrow> t \<noteq> [] \<Longrightarrow> list_all (\<lambda>c. c = 32) t \<Longrightarrow> words (v @ t @ s) = v # words s"
  by (cases t) (auto simp: words_word words_spaces)

lemma word_spans_step:
  assumes "i < length s"
  defines "w \<equiv> takeWhile (\<lambda>c. c \<noteq> 32) (drop i s)" and "t \<equiv> takeWhile (\<lambda>c. c = 32) (dropWhile (\<lambda>c. c \<noteq> 32) (drop i s))"
  shows "word_spans s i = (w, i + length w) # word_spans s (i + length w + length t)"
    "drop i s = w @ t @ drop (i + length w + length t) s"
proof -
  have d: "drop (i + length w) s = dropWhile (\<lambda>c. c \<noteq> 32) (drop i s)" unfolding w_def by (rule drop_takes)
  show "word_spans s i = (w, i + length w) # word_spans s (i + length w + length t)"
    using assms(1) substring_takes [of s i "\<lambda>c. c \<noteq> 32"]
    by (subst word_spans.simps) (simp add: skip_while_takes d Let_def flip: w_def t_def)
  have "drop (i + length w + length t) s = dropWhile (\<lambda>c. c = 32) (dropWhile (\<lambda>c. c \<noteq> 32) (drop i s))"
    using drop_takes [of "i + length w" "\<lambda>c. c = 32" s] by (simp add: d t_def)
  then show "drop i s = w @ t @ drop (i + length w + length t) s"
    unfolding w_def t_def by simp
qed

lemma substring_app: "drop i s = u @ drop (i + length u) s \<Longrightarrow> i + length u \<le> e \<Longrightarrow> substring s i e = u @ substring s (i + length u) e"
  by (simp add: substring_def)

lemma next_word:
  assumes "plain_line s" "i < length s" "s ! i \<noteq> 32"
  obtains w t j where "word_spans s i = (w, i + length w) # word_spans s j" "drop i s = w @ t @ drop j s" "j = i + length w + length t"
    "w \<noteq> []" "\<forall>c \<in> set w. \<not> py_isspace c" "list_all (\<lambda>c. c = 32) t" "j \<le> length s" "substring s i (i + length w) = w"
    "j < length s \<longrightarrow> s ! j \<noteq> 32 \<and> t \<noteq> []"
proof -
  define w where "w = takeWhile (\<lambda>c. c \<noteq> 32) (drop i s)"
  define t where "t = takeWhile (\<lambda>c. c = 32) (dropWhile (\<lambda>c. c \<noteq> 32) (drop i s))"
  define j where "j = i + length w + length t"
  note step = word_spans_step [OF assms(2), folded w_def t_def, folded j_def]
  have "drop i s = s ! i # drop (i + 1) s" using assms(2) by (simp add: Cons_nth_drop_Suc)
  then have w: "w \<noteq> []" using assms(3) by (simp add: w_def)
  have "set w \<subseteq> set s" unfolding w_def by (meson set_takeWhileD in_set_dropD subsetI)
  then have nospace: "\<forall>c \<in> set w. \<not> py_isspace c"
    using plain_space [OF assms(1)] set_takeWhileD [of _ "\<lambda>c. c \<noteq> 32"] unfolding w_def by (metis subsetD)
  have t: "list_all (\<lambda>c. c = 32) t" by (auto simp: t_def list_all_iff dest: set_takeWhileD)
  have len: "j \<le> length s" using arg_cong [OF step(2), where f = length] w assms(2) by (simp add: j_def)
  have jd: "drop j s = dropWhile (\<lambda>c. c = 32) (dropWhile (\<lambda>c. c \<noteq> 32) (drop i s))"
    using step(2) unfolding w_def t_def by (metis append_same_eq append_eq_append_conv takeWhile_dropWhile_id)
  have next_char: "s ! j \<noteq> 32 \<and> t \<noteq> []" if j: "j < length s"
  proof -
    have "drop j s \<noteq> []" using j by simp
    then have a: "hd (drop j s) \<noteq> 32" unfolding jd by (rule hd_dropWhile)
    have "t \<noteq> []"
    proof
      assume "t = []"
      then have "drop j s = dropWhile (\<lambda>c. c \<noteq> 32) (drop i s)"
        using jd takeWhile_dropWhile_id [of "\<lambda>c. c = 32" "dropWhile (\<lambda>c. c \<noteq> 32) (drop i s)"] by (simp add: t_def)
      moreover from this have "dropWhile (\<lambda>c. c \<noteq> 32) (drop i s) \<noteq> []" using j by (metis \<open>drop j s \<noteq> []\<close>)
      ultimately show False using hd_dropWhile [of "\<lambda>c. c \<noteq> 32" "drop i s"] a by simp
    qed
    then show ?thesis using a j by (simp add: hd_drop_conv_nth)
  qed
  have "substring s i (i + length w) = w" unfolding w_def by (rule substring_takes)
  then show thesis using that [OF step j_def w nospace t len] next_char by blast
qed

lemma spans_words:
  assumes "plain_line s" "i < length s \<longrightarrow> s ! i \<noteq> 32"
  shows "map fst (word_spans s i) = words (drop i s)
    \<and> (\<forall>k < length (word_spans s i). i < snd (word_spans s i ! k) \<and> snd (word_spans s i ! k) \<le> length s
        \<and> words (substring s i (snd (word_spans s i ! k))) = take (Suc k) (words (drop i s)))"
  using assms(2)
proof (induction "length s - i" arbitrary: i rule: less_induct)
  case less
  show ?case
  proof (cases "i < length s")
    case False
    then have "word_spans s i = []" by (subst word_spans.simps) simp
    then show ?thesis using False by (simp add: words_def)
  next
    case True
    obtain w t j where step: "word_spans s i = (w, i + length w) # word_spans s j" "drop i s = w @ t @ drop j s" "j = i + length w + length t"
      and w: "w \<noteq> []" "\<forall>c \<in> set w. \<not> py_isspace c" "list_all (\<lambda>c. c = 32) t" "j \<le> length s" "substring s i (i + length w) = w"
        "j < length s \<longrightarrow> s ! j \<noteq> 32 \<and> t \<noteq> []" using next_word [OF assms(1) True] less.prems True by metis
    have "0 < length w" using w(1) by simp
    then have "length s - j < length s - i" using True step(3) by (intro diff_less_mono2) simp_all
    then have ih: "map fst (word_spans s j) = words (drop j s)"
      "\<And>k. k < length (word_spans s j) \<Longrightarrow> j < snd (word_spans s j ! k) \<and> snd (word_spans s j ! k) \<le> length s
        \<and> words (substring s j (snd (word_spans s j ! k))) = take (Suc k) (words (drop j s))"
      using less.hyps [of j] w(6) by blast+
    have "list_all py_isspace t" using w(3) by (auto simp: list_all_iff)
    then have all: "words (drop i s) = w # words (drop j s)"
      using step(2) w words_gap [OF w(1,2) _ w(3)] words_trail [of t "[]" w] words_word(2) [OF w(1,2)]
      by (cases "j < length s") (simp_all add: words_def list_all_iff)
    have "i < snd (word_spans s i ! k) \<and> snd (word_spans s i ! k) \<le> length s
        \<and> words (substring s i (snd (word_spans s i ! k))) = take (Suc k) (words (drop i s))" if k: "k < length (word_spans s i)" for k
    proof (cases k)
      case 0
      then show ?thesis using step w all words_word(2) [OF w(1,2)] by simp
    next
      case (Suc k')
      define e where "e = snd (word_spans s j ! k')"
      have k': "k' < length (word_spans s j)" using k Suc step(1) by simp
      note e = ih(2) [OF k', folded e_def]
      have "substring s i e = (w @ t) @ substring s j e"
        using substring_app [of i s "w @ t" e] step(2,3) e by (simp add: add.assoc)
      then have "words (substring s i e) = w # take (Suc k') (words (drop j s))"
        using words_gap [OF w(1,2) _ w(3)] e w(6) by simp
      moreover have "snd (word_spans s i ! k) = e" using Suc step(1) by (simp add: e_def)
      ultimately show ?thesis using Suc all e step(3) by simp
    qed
    then show ?thesis using step(1) ih(1) all by simp
  qed
qed

lemma matched_from_longest:
  "matched_from f names parts n = (r, k) \<longleftrightarrow>
    (case r of None \<Rightarrow> k = 0 \<and> (\<forall>j. 0 < j \<and> j \<le> n \<longrightarrow> prefix_name f parts j \<notin> set names)
     | Some c \<Rightarrow> 0 < k \<and> k \<le> n \<and> c = prefix_name f parts k \<and> c \<in> set names
         \<and> (\<forall>j. k < j \<and> j \<le> n \<longrightarrow> prefix_name f parts j \<notin> set names))"
proof (induction n)
  case (Suc n)
  have le: "j \<le> Suc n \<longleftrightarrow> j \<le> n \<or> j = Suc n" for j by auto
  show ?case
  proof (cases "prefix_name f parts (Suc n) \<in> set names")
    case True
    then show ?thesis by (auto simp: le split: option.splits)
  next
    case False
    then show ?thesis using Suc by (auto simp: le split: option.splits)
  qed
qed (auto split: option.splits)

text \<open>What the prompt marks as the directive is what runs: on a line without quotes, backslashes and
  white space other than spaces, \<open>directiveinfo\<close> marks a directive just when \<open>matcheddirective\<close> finds
  one among the words \<open>rundirective\<close> gets, and the marked text consists of exactly the words of that directive,
  the longest registered one the line starts with.
\<close>

theorem prompt_marks_directive:
  assumes "plain_line s"
  shows "case directiveinfo f names s of
      None \<Rightarrow> fst (matcheddirective f names (line_parts s)) = None
    | Some (marked, b0, b1) \<Rightarrow> \<exists>d count. matcheddirective f names (line_parts s) = (Some d, count)
        \<and> marked = substring s b0 b1 \<and> words marked = take count (line_parts s) \<and> b0 < b1 \<and> b1 \<le> length s
        \<and> d = f (join_with 32 (take count (line_parts s))) \<and> d \<in> set names
        \<and> (\<forall>j. count < j \<and> j \<le> length (line_parts s) \<longrightarrow> f (join_with 32 (take j (line_parts s))) \<notin> set names)"
proof -
  define start where "start = skip_while (\<lambda>c. c = 32) s 0"
  define spans where "spans = word_spans s start"
  have first: "start < length s \<longrightarrow> s ! start \<noteq> 32" using skip_while_at [of "\<lambda>c. c = 32" s 0] by (simp add: start_def)
  have "drop start s = dropWhile (\<lambda>c. c = 32) s"
    using drop_takes [of 0 "\<lambda>c. c = 32" s] by (simp add: start_def skip_while_takes)
  moreover have "list_all (\<lambda>c. c = 32) (takeWhile (\<lambda>c. c = 32) s)" by (simp add: list_all_iff) (metis set_takeWhileD)
  then have "words (dropWhile (\<lambda>c. c = 32) s) = words s"
    using words_spaces [of "takeWhile (\<lambda>c. c = 32) s" "dropWhile (\<lambda>c. c = 32) s"] by simp
  ultimately have parts: "line_parts s = words (drop start s)" using line_parts_plain [OF assms] by simp
  note spans = spans_words [OF assms first, folded spans_def, folded parts]
  show ?thesis
  proof (cases "length s \<le> start")
    case True
    then have "line_parts s = []" using parts by (simp add: words_def)
    then show ?thesis using True by (simp add: directiveinfo_def directivebounds_def start_def [symmetric] matcheddirective_def)
  next
    case False
    obtain r k where m: "matcheddirective f names (line_parts s) = (r, k)" by fastforce
    note longest = m [unfolded matcheddirective_def matched_from_longest]
    show ?thesis
    proof (cases r)
      case None
      then show ?thesis
        using False m spans by (simp add: directiveinfo_def directivebounds_def Let_def flip: start_def spans_def)
    next
      case (Some d)
      have k: "0 < k" "k - 1 < length spans" using longest Some spans by (auto dest: arg_cong [where f = length])
      moreover have "d = prefix_name f (line_parts s) k" "d \<in> set names" using longest Some by auto
      ultimately show ?thesis
        using False m Some spans longest
        by (auto simp: directiveinfo_def directivebounds_def Let_def prefix_name_def simp flip: start_def spans_def)
    qed
  qed
qed

theorem prompt_marks_directive_witness:
  "\<exists>d count. matcheddirective id [cps ''copy'', cps ''copy tier''] (line_parts (cps '' copy tier a b'')) = (Some d, count)
    \<and> words (cps ''copy tier'') = take count (line_parts (cps '' copy tier a b'')) \<and> d = cps ''copy tier''"
proof -
  let ?names = "[cps ''copy'', cps ''copy tier'']" and ?s = "cps '' copy tier a b''"
  have marked: "directiveinfo id ?names ?s = Some (cps ''copy tier'', 1, 10)" by code_simp
  have plain: "plain_line ?s" by (simp add: plain_line_def py_isspace_def)
  have name: "join_with 32 (words (cps ''copy tier'')) = cps ''copy tier''" by (simp add: words_def py_isspace_def)
  obtain d count where "matcheddirective id ?names (line_parts ?s) = (Some d, count)"
    "words (cps ''copy tier'') = take count (line_parts ?s)" "d = id (join_with 32 (take count (line_parts ?s)))"
    using prompt_marks_directive [OF plain, of id ?names, unfolded marked option.case prod.case] by blast
  then show ?thesis using name by (metis id_apply)
qed

end
