(* ===== verification/Shell_Results.thy ===== *)
theory Shell_Results
  imports Shell_Props Shell_Lines_Facts
begin

text \<open>
  Every part of a chain is run and has a result, whatever its directive does; the shell without a screen reports
  success just when everything succeeded; and the search for a free name for a copy ends.
\<close>

declare cps_Cons [simp del]

section \<open>A part of a chain has words\<close>

lemma shlex_some:
  "shlex_from st token quoted s = Inr ws \<Longrightarrow>
    st \<notin> {Between, Inside} \<or> token \<noteq> [] \<or> quoted \<or> (\<exists>c \<in> set s. \<not> is_shlex_space c) \<Longrightarrow> ws \<noteq> []"
  by (induction st token quoted s arbitrary: ws rule: shlex_from.induct) (auto simp: rbind_def split: if_splits sum.splits lexstate.splits)

lemma words_some: "w \<noteq> [] \<or> (\<exists>c \<in> set s. \<not> py_isspace c) \<Longrightarrow> words_from w s \<noteq> []"
  by (induction s arbitrary: w) auto

lemma strip_idem_first: "strip s \<noteq> [] \<Longrightarrow> \<exists>c \<in> set (strip s). \<not> py_isspace c"
proof -
  assume a: "strip s \<noteq> []"
  then have "dropWhile py_isspace (rev (dropWhile py_isspace s)) \<noteq> []" by (simp add: strip_def lstrip_def rstrip_def)
  from hd_dropWhile [OF this] show ?thesis
    using a by (metis hd_in_set lstrip_def rev_is_Nil_conv rstrip_def set_rev strip_def)
qed

lemma strip_twice: "strip (strip s) = strip s"
proof -
  define t where "t = dropWhile py_isspace s"
  have "dropWhile py_isspace (rev (dropWhile py_isspace (rev t))) = rev (dropWhile py_isspace (rev t))"
  proof (cases "rev (dropWhile py_isspace (rev t))")
    case (Cons x xs)
    have "t = (x # xs) @ rev (takeWhile py_isspace (rev t))"
      using Cons by (metis rev_append rev_rev_ident takeWhile_dropWhile_id)
    then have "x = hd t" "t \<noteq> []" by (metis append_Cons list.sel(1), metis append_is_Nil_conv list.distinct(1))
    then have "\<not> py_isspace x" using hd_dropWhile [of py_isspace s] by (simp add: t_def)
    then show ?thesis using Cons by simp
  next
    case Nil
    then show ?thesis unfolding Nil by simp
  qed
  then show ?thesis by (simp add: strip_def lstrip_def rstrip_def t_def)
qed

lemma segment_parts:
  assumes "seg \<in> set (splitchain line)"
  shows "line_parts seg \<noteq> []"
proof -
  obtain ps where "chain_of ps line" using chain_spec by blast
  then have "splitchain line = filter (\<lambda>s. s \<noteq> []) (map strip ps)" using chain_spec by blast
  then obtain p where p: "seg = strip p" "strip p \<noteq> []" using assms by auto
  obtain c where c: "c \<in> set (strip p)" "\<not> py_isspace c" using strip_idem_first [OF p(2)] by blast
  then have "\<not> is_shlex_space c" by (auto simp: is_shlex_space_def py_isspace_def)
  then show ?thesis
    using c shlex_some [of Between "[]" False "strip p"] words_some [of "[]" "strip p"] p(1)
    by (auto simp: line_parts_def shlex_split_def words_def strip_twice split: sum.split)
qed

section \<open>Every part has a result\<close>

lemma guierror_returns: "\<exists>w'. guierror t err e w = (Inr (), w')"
  by (simp add: guierror_def guiprint_def andthen_def getting_def setting_def)

lemma directiveresult_returns: "\<exists>r w'. directiveresult v d c m e w = (Inr r, w') \<and> sh_active w' = sh_active w"
  by (simp add: directiveresult_def andthen_def getting_def setting_def ret_def)

lemma rundirective_returns:
  assumes "line_parts line \<noteq> []"
  shows "(\<exists>r w'. rundirective specs line echo e w = (Inr (Some r), w') \<and> sh_active w' = False)
    \<or> (\<exists>w'. rundirective specs line echo e w = (Inl KeyboardInterrupt, w') \<and> sh_active w' = False)"
proof -
  define m where "m = andthen (setting (\<lambda>w. w\<lparr>sh_active := True, sh_failed := False\<rparr>)) (\<lambda>_.
      andthen (if echo then guiprint (cps ''> '' @ line) TEXTCOLOUR else ret ()) (\<lambda>_. dispatch specs (line_parts line)))"
  define h where "h = (\<lambda>err. andthen failing (\<lambda>_. andthen (guierror (cps ''> error handling command '') err) (\<lambda>_.
      andthen (getting (\<lambda>e w. se_error e err)) (\<lambda>message.
      andthen (directiveresult JNull [] (Some (cps ''exception'')) message) (\<lambda>r. ret (Some r))))))"
  have some: "\<exists>x. r = Some x" if "dispatch specs (line_parts line) e w1 = (Inr r, w2)" for r w1 w2
    using that by (auto simp: dispatch_def andthen_Inr getting_def split: option.splits if_splits prod.splits)
  have handled: "\<exists>r w'. h err e w1 = (Inr (Some r), w')" for err w1
  proof -
    obtain w3 where g: "guierror (cps ''> error handling command '') err e (w1\<lparr>sh_failed := True\<rparr>) = (Inr (), w3)"
      using guierror_returns by blast
    obtain x w4 where d: "directiveresult JNull [] (Some (cps ''exception'')) (se_error e err) e w3 = (Inr x, w4)"
      using directiveresult_returns by blast
    show ?thesis using g d by (simp add: h_def andthen_def failing_def setting_def getting_def ret_def)
  qed
  have "(\<exists>r w'. catch m h e w = (Inr (Some r), w')) \<or> (\<exists>w'. catch m h e w = (Inl KeyboardInterrupt, w'))"
  proof (cases "m e w")
    case (Pair r w1)
    show ?thesis
    proof (cases r)
      case (Inl err)
      then show ?thesis using Pair handled [of err w1] by (auto simp: except_do_def is_exception_def)
    next
      case (Inr v)
      then have "\<exists>x. v = Some x" using Pair some by (auto simp: m_def andthen_Inr setting_def)
      then show ?thesis using Pair Inr by (auto simp: except_do_def)
    qed
  qed
  moreover have "rundirective specs line echo = finally_do (catch m h) (setting (\<lambda>w. w\<lparr>sh_active := False\<rparr>))"
    using assms by (simp add: rundirective_def m_def h_def Let_def)
  ultimately show ?thesis by (auto simp: finally_do_def setting_def)
qed

text \<open>\<open>ran specs echo e segs w rs w'\<close>: the parts \<open>segs\<close> are run one after the other from \<open>w\<close> to \<open>w'\<close>, and each gives the result
  at its place in \<open>rs\<close>.\<close>

inductive ran :: "spec list \<Rightarrow> bool \<Rightarrow> senv \<Rightarrow> pystr list \<Rightarrow> shell \<Rightarrow> dict list \<Rightarrow> shell \<Rightarrow> bool" for specs echo e where
  none: "ran specs echo e [] w [] w"
| part: "rundirective specs seg echo e w = (Inr (Some r), w1) \<Longrightarrow> sh_active w1 = False \<Longrightarrow> ran specs echo e segs w1 rs w2
    \<Longrightarrow> ran specs echo e (seg # segs) w (r # rs) w2"

inductive_cases ran_ConsE: "ran specs echo e (seg # segs) w rs w2"

text \<open>C13. A chain is run part by part, in order: each part starts in the state that the part before it left, its result is
  the one at its place, and no directive is marked as active after it.  Nothing that a directive raises stops the chain, except
  that the user interrupts it: then \<open>runchain\<close> ends with that, in the state that the interrupted part left.\<close>

theorem chain_results:
  "\<exists>done rest rs w1. splitchain line = done @ rest \<and> ran specs echo e done w rs w1
    \<and> (rest = [] \<and> runchain specs line echo e w = (Inr (map Some rs), w1)
      \<or> (\<exists>seg segs w2. rest = seg # segs \<and> rundirective specs seg echo e w1 = (Inl KeyboardInterrupt, w2) \<and> sh_active w2 = False
        \<and> runchain specs line echo e w = (Inl KeyboardInterrupt, w2)))"
proof -
  have "\<exists>done rest rs w1. segs = done @ rest \<and> ran specs echo e done w rs w1
    \<and> (rest = [] \<and> run_segments specs echo segs e w = (Inr (map Some rs), w1)
      \<or> (\<exists>s ss w2. rest = s # ss \<and> rundirective specs s echo e w1 = (Inl KeyboardInterrupt, w2) \<and> sh_active w2 = False
        \<and> run_segments specs echo segs e w = (Inl KeyboardInterrupt, w2)))"
    if "\<forall>seg \<in> set segs. line_parts seg \<noteq> []" for segs
    using that
  proof (induction segs arbitrary: w)
    case Nil
    then show ?case using ran.none by (force simp: ret_def)
  next
    case (Cons seg segs)
    have "line_parts seg \<noteq> []" using Cons.prems by simp
    from rundirective_returns [OF this, of specs echo e w] show ?case
    proof (elim disjE exE conjE)
      fix r w1
      assume r: "rundirective specs seg echo e w = (Inr (Some r), w1)" "sh_active w1 = False"
      obtain d rest rs w2 where i: "segs = d @ rest" "ran specs echo e d w1 rs w2"
        "rest = [] \<and> run_segments specs echo segs e w1 = (Inr (map Some rs), w2)
          \<or> (\<exists>s ss w3. rest = s # ss \<and> rundirective specs s echo e w2 = (Inl KeyboardInterrupt, w3) \<and> sh_active w3 = False
            \<and> run_segments specs echo segs e w1 = (Inl KeyboardInterrupt, w3))"
        using Cons.IH [of w1] Cons.prems by auto
      have step: "run_segments specs echo (seg # segs) e w = andthen (run_segments specs echo segs) (\<lambda>rs. ret (Some r # rs)) e w1"
        using r(1) by (simp add: andthen_def except_do_def ret_def)
      have "ran specs echo e (seg # d) w (r # rs) w2" by (rule ran.part [OF r i(2)])
      then show ?case
        by (rule_tac x = "seg # d" in exI, rule_tac x = rest in exI, rule_tac x = "r # rs" in exI, rule_tac x = w2 in exI)
          (use i(1,3) step in \<open>auto simp: andthen_def ret_def simp del: run_segments.simps\<close>)
    next
      fix w1
      assume r: "rundirective specs seg echo e w = (Inl KeyboardInterrupt, w1)" "sh_active w1 = False"
      have "run_segments specs echo (seg # segs) e w = (Inl KeyboardInterrupt, w1)"
        using r(1) by (simp add: andthen_def except_do_def is_exception_def)
      then show ?case using r ran.none [of specs echo e w]
        by (intro exI [of _ "[]"] exI [of _ "seg # segs"] exI [of _ w]) (simp del: run_segments.simps)
    qed
  qed
  from this [of "splitchain line"] show ?thesis unfolding runchain_def using segment_parts by blast
qed

section \<open>The search for a free name ends\<close>

lemma dec_nat_inj: "dec_nat a = dec_nat b \<Longrightarrow> a = b"
  by (metis dec_val_dec_nat)

lemma copy_name_inj: "inj_on (copy_name base ext) {1..}"
  by (rule inj_onI) (auto simp: copy_name_def split: if_splits dest: dec_nat_inj)

lemma free_copy_run:
  "free_copy fuel k f e w = (Inr (if \<exists>j < fuel. has_nul (f (k + j)) \<or> \<not> found (sh_fs w) (f (k + j))
     then Some (k + (LEAST j. has_nul (f (k + j)) \<or> \<not> found (sh_fs w) (f (k + j)))) else None), w)"
proof (induction fuel arbitrary: k)
  case 0
  then show ?case by (simp add: ret_def)
next
  case (Suc fuel)
  let ?free = "\<lambda>j. has_nul (f (k + j)) \<or> \<not> found (sh_fs w) (f (k + j))"
  show ?case
  proof (cases "?free 0")
    case True
    then have "(LEAST j. ?free j) = 0" by (intro Least_equality) auto
    then show ?thesis using True by (auto simp: path_exists_def andthen_def getting_def ret_def)
  next
    case False
    then have step: "free_copy (Suc fuel) k f e w = free_copy fuel (k + 1) f e w"
      by (simp add: path_exists_def andthen_def getting_def)
    have shift: "(\<exists>j < Suc fuel. ?free j) \<longleftrightarrow> (\<exists>j < fuel. ?free (Suc j))"
      using False by (metis Suc_less_eq less_Suc_eq_0_disj)
    show ?thesis
    proof (cases "\<exists>j < fuel. ?free (Suc j)")
      case True
      then obtain j where "?free (Suc j)" by blast
      then have "(LEAST j. ?free j) = Suc (LEAST j. ?free (Suc j))" by (rule Least_Suc [of ?free, OF _ False])
      then show ?thesis unfolding step shift using True Suc [of "k + 1"] by (simp only: if_True) simp
    next
      case none: False
      then show ?thesis unfolding step shift using Suc [of "k + 1"] by auto
    qed
  qed
qed

text \<open>C14. The search for the name of a copy ends, however many copies there are: it finds the first number whose name
  is free in the tier, and looks at no more names than there are entries in the file system and one.
\<close>

theorem copy_name_found:
  "\<exists>k \<ge> 1. fresh_copy (\<lambda>k. tier @ [copy_name base ext k]) e w = (Inr (Some k), w) \<and> k \<le> length (sh_fs w) + 1
    \<and> (has_nul (tier @ [copy_name base ext k]) \<or> map_of (sh_fs w) (tier @ [copy_name base ext k]) = None)
    \<and> (\<forall>j. 1 \<le> j \<and> j < k \<longrightarrow> map_of (sh_fs w) (tier @ [copy_name base ext j]) \<noteq> None)"
proof -
  let ?f = "\<lambda>k. tier @ [copy_name base ext k]"
  let ?free = "\<lambda>j. has_nul (?f (1 + j)) \<or> \<not> found (sh_fs w) (?f (1 + j))"
  let ?n = "length (sh_fs w) + 1"
  have "\<exists>j < ?n. ?free j"
  proof (rule ccontr)
    assume "\<not> ?thesis"
    then have "?f ` {1..?n} \<subseteq> fst ` set (sh_fs w)"
      by (auto simp: found_def map_of_eq_None_iff) (metis Suc_le_D Suc_le_lessD less_Suc_eq_le)
    then have "card (?f ` {1..?n}) \<le> card (fst ` set (sh_fs w))" by (intro card_mono) auto
    moreover have "inj_on ?f {1..?n}" using inj_on_subset [OF copy_name_inj, of "{1..?n}"] by (auto simp: inj_on_def)
    then have "card (?f ` {1..?n}) = ?n" by (simp add: card_image)
    moreover have "card (fst ` set (sh_fs w)) \<le> length (sh_fs w)" by (metis card_length length_map set_map)
    ultimately show False by simp
  qed
  then obtain j where j: "j < ?n" "?free j" by blast
  let ?k = "1 + (LEAST j. ?free j)"
  have "?free (LEAST j. ?free j)" "(LEAST j. ?free j) \<le> j" using j(2) by (rule LeastI, intro Least_le)
  moreover have "found (sh_fs w) (?f i)" if "1 \<le> i" "i < ?k" for i
    using not_less_Least [of "i - 1" ?free] that by auto
  moreover have "fresh_copy ?f e w = (Inr (Some ?k), w)"
    using j free_copy_run [of ?n 1 ?f e w] by (auto simp: fresh_copy_def andthen_def getting_def)
  ultimately show ?thesis using j(1) by (intro exI [where x = ?k]) (auto simp: found_def)
qed

theorem copy_name_found_witness:
  "\<exists>w. map_of (sh_fs w) [cps ''a - copy''] \<noteq> None
    \<and> fresh_copy (\<lambda>k. [] @ [copy_name (cps ''a'') [] k]) demo_senv w = (Inr (Some 2), w)"
proof -
  let ?w = "demo_shell\<lparr>sh_bin := \<lparr>b_fs = [([], Tier), ([cps ''a''], File [1]), ([cps ''a - copy''], File [1])], b_calls = 0\<rparr>\<rparr>"
  have first: "map_of (sh_fs ?w) ([] @ [copy_name (cps ''a'') [] 1]) \<noteq> None" "\<not> has_nul ([] @ [copy_name (cps ''a'') [] 1])"
    by (simp_all add: copy_name_def has_nul_def cps_Cons)
  have second: "map_of (sh_fs ?w) ([] @ [copy_name (cps ''a'') [] 2]) = None"
    by (simp add: copy_name_def cps_Cons)
  obtain k where k: "k \<ge> 1" "fresh_copy (\<lambda>k. [] @ [copy_name (cps ''a'') [] k]) demo_senv ?w = (Inr (Some k), ?w)"
      "has_nul ([] @ [copy_name (cps ''a'') [] k]) \<or> map_of (sh_fs ?w) ([] @ [copy_name (cps ''a'') [] k]) = None"
      "\<forall>j. 1 \<le> j \<and> j < k \<longrightarrow> map_of (sh_fs ?w) ([] @ [copy_name (cps ''a'') [] j]) \<noteq> None"
    using copy_name_found [of "[]" "cps ''a''" "[]" demo_senv ?w] by blast
  have "k \<noteq> 1" using k(3) first by auto
  moreover have "\<not> 2 < k" using spec [OF k(4), of 2] second by linarith
  ultimately have "k = 2" using k(1) by linarith
  then show ?thesis using k(2) first(1) by (intro exI [where x = ?w]) (simp add: copy_name_def)
qed

end
