(* ===== verification/Spec2Isabelle.thy ===== *)
theory Spec2Isabelle
  imports T1_Prelude Write_Props Console_Props Broker_Policy Exchange_Client Rubbish_Restore Search_Props Shell_Results
begin

text \<open>
  \<^bold>\<open>The One OS: a verification library.\<close>  The One OS runs a desktop in Python on a Linux kernel.
  Under \<open>src/source/build software\<close> each part is one module: services that own a piece of the
  system's state (\<open>broker\<close> the account and its secrets, \<open>exchange\<close> the clipboard, \<open>rubbish\<close> what was deleted), the shell
  \<open>brick\<close> whose console every command-line program runs in, and graphical applications on top, among them the text
  editor \<open>write\<close>.
  The library models the parts whose behaviour is decided by their own code.

  \<^bold>\<open>Conventions.\<close>  \<^emph>\<open>T1_Prelude\<close>, \<^emph>\<open>Utf8_Decoder\<close>, \<^emph>\<open>T1_Json\<close>, \<^emph>\<open>T1_Paths\<close> and \<^emph>\<open>T1_Programs\<close> hold what the parts share:
  Python text as lists of code points, bytes, the string methods used, UTF-8, JSON values,
  exceptions as a datatype, results as sums, and programs that read an environment, change a
  state and raise.  \<^emph>\<open>T1_Files\<close>: the file system of the rubbish and the shell as entries at paths, with the
  calls of \<open>os\<close> and \<open>shutil\<close> that they make, each of which may fail; \<^emph>\<open>T1_Files_Facts\<close> says what a call that
  succeeds does, and \<^emph>\<open>T1_Files_Frame\<close>, in the locale \<open>file_frame\<close>, what any call leaves alone.  Python integers are \<open>int\<close> or, where the code keeps them nonnegative, \<open>nat\<close>.  Code outside
  the repository is a parameter: the Unicode tables (\<open>unidata\<close>), the key derivation functions
  (\<open>kdf\<close>), JSON, SHA-256 and number parsing (\<open>codec\<close>, \<open>xenv\<close>), Unicode normalisation (\<open>nfkc\<close>), and
  the outcome of every system call (\<open>env\<close>, \<open>xenv\<close>), indexed by the number of the call so that every
  pattern of failures is covered.  Changes of a file system are durable at once: \<open>fsync\<close> can fail but has no other
  effect, so nothing is said of data that a loss of power keeps from the disk.  \<open>is_exception\<close> tells what \<open>except
  Exception\<close> catches; \<open>KeyboardInterrupt\<close> is not among it.

  \<^bold>\<open>The console\<close> (\<open>brick/brick.py\<close>, classes \<open>ConsoleCell\<close>, \<open>ConsoleLine\<close>, \<open>ConsoleBuffer\<close>,
  \<open>ConsoleDisplay\<close>).  \<^emph>\<open>Console_Buffer\<close>: the grid, its history, cursor motion, scrolling, output
  of a character.  \<^emph>\<open>Console_Resize\<close>: joining and laying out wrapped lines at a new size.
  \<^emph>\<open>Console_Display\<close>: the byte parser with its escape, CSI, OSC and SGR sequences, modes and views, and
  the scrolling back by keys and wheel of \<open>consolekey\<close> and \<open>consolescroll\<close>.
  \<^emph>\<open>Console_Facts\<close> states what each buffer operation promises as the locale \<open>screen_op\<close> and
  interprets it for all of them; \<^emph>\<open>Console_Text\<close> and \<^emph>\<open>Console_Reflow\<close> follow printed text;
  \<^emph>\<open>Console_Props\<close> proves C3 and C7--C11 over histories of output, resizes and scrolling by the user: the grid stays
  rectangular with the cursor inside, the view stays inside the history and in place, the alternate screen restores the
  primary one, text appears where it is written, line feeds and resizing lose no line.

  \<^bold>\<open>The broker\<close> (\<open>broker/broker.py\<close>).  \<^emph>\<open>Broker_Codec\<close>: usernames, passwords, the stored hash
  formats, hashing, and verification that answers yes exactly when the derivation named by a well-formed text within
  the policy gives the stored digest (C15, C16).  \<^emph>\<open>Broker_IO\<close>: a file system with descriptors,
  partial writes and faults, as a state and exception monad; every state it passes through is
  recorded.  \<^emph>\<open>Broker_Files\<close>: walking directories without following links, atomic replacement,
  bounded reads.  \<^emph>\<open>Broker_Contracts\<close> proves contracts of runs once in locales (\<open>world_rel\<close>,
  \<open>tree_rel\<close>) and interprets them for confinement, for balanced descriptors and, in
  \<^emph>\<open>Broker_Atomic\<close>, for growth.  \<^emph>\<open>Broker_Store\<close>: secrets, credentials, the home tree, accounts.
  \<^emph>\<open>Broker_Auth\<close>: throttling, authentication, recovery authorizations.  \<^emph>\<open>Broker_Props\<close> (C2, C17, C18):
  atomic replacement under any failure and at every moment, real directories only, no descriptors leaked
  by credentials and service secrets, round trips.  \<^emph>\<open>Broker_Policy\<close> (C19--C22): the pace of guessing, nothing changes
  without the password, recovery records are bound to action and lifetime and are spent once.

  \<^bold>\<open>The transfer service\<close> (\<open>exchange/exchange.py\<close>).  \<^emph>\<open>Exchange_State\<close>: the clipboard and its file,
  in a state monad over the globals of the daemon.  \<^emph>\<open>Exchange_Daemon\<close>: connections, framing, all
  operations, the select loop, startup, shutdown, and the clients.  \<^emph>\<open>Exchange_Facts\<close>: the locales
  \<open>clip_ops\<close>, \<open>socket_ops\<close>, \<open>daemon_ops\<close>, each extending or using the one before, say what an
  invariant must promise to survive the clipboard functions, the operations on connections and
  whole runs; they are interpreted for the connection tables, the clipboard and the frames.
  \<^emph>\<open>Exchange_Props\<close> (C4, C23--C28): tables and clipboard stay consistent over every run, who stops the
  daemon and that a signal does, framing, refinement of a register, notification.
  \<^emph>\<open>Exchange_Client\<close> (C29, C30): restart, failing saves, the call of a client.

  \<^bold>\<open>The shell\<close> (\<open>brick/brick.py\<close>).  \<^emph>\<open>Shell_Lines\<close>: a line cut into its chain, the words of a part, the longest
  directive, the tokens the prompt colours.  \<^emph>\<open>Shell_Lines_Facts\<close> (C12): the cut is at the semicolons outside
  quotes, defined independently, and the prompt marks the longest directive.  \<^emph>\<open>Shell_State\<close>: the globals a directive
  uses and its output.  \<^emph>\<open>Shell_Drives\<close>: the scan of the drives, link files, and locations such as \<open>2/a\<close> and their
  paths.  \<^emph>\<open>Shell_Paths\<close>: wildcards, connectors, the check whether a path may be changed, and the transactions that
  copy or move many items and take back what they did.  \<^emph>\<open>Shell_Directives\<close>: creating, deleting, destroying, renaming,
  moving and copying files and tiers; deleting calls the rubbish.  \<^emph>\<open>Shell_Run\<close>: the catalogue, the result of a
  directive, chains, and the shell without a screen.  The safety of the protected paths is proved in layers:
  \<^emph>\<open>Shell_Quiet\<close> (locale \<open>shell_rel\<close>: steps that change no file), \<^emph>\<open>Rubbish_Frame\<close> (locale \<open>bin_frame\<close>: what the rubbish
  leaves alone), \<^emph>\<open>Shell_Frame\<close> and \<^emph>\<open>Shell_Frame_Moves\<close> (locale \<open>shell_frame\<close>: what a directive leaves alone when the
  check refuses the paths that are shut), \<^emph>\<open>Shell_Protect\<close> (its interpretation for the lists of the code), and
  \<^emph>\<open>Shell_Props\<close> (C1).  \<^emph>\<open>Shell_Results\<close> (C13, C14): the parts of a chain run in order, each
  with its result at its place, and only an interruption ends the chain early; the search for a free name ends.

  \<^bold>\<open>The rubbish\<close> (\<open>rubbish/rubbish.py\<close>, and \<open>check\<close> of \<open>architect/architect.py\<close>).  \<^emph>\<open>Rubbish\<close>: the
  configuration, the index, putting away, restoring,
  emptying and purging, with a failure possible at every call.  The index and the configuration are read line by line:
  when reading fails, the lines before the failure count (\<open>lines_read\<close>); how many of them the buffer had delivered is
  the parameter \<open>r_lines\<close>.  \<^emph>\<open>Rubbish_Facts\<close>: runs in which no
  call fails (\<open>yields\<close>), and the text of the index read back.  \<^emph>\<open>Rubbish_Purge\<close> (C31): exactly what a purge
  removes, by age and by size, and what is left.  \<^emph>\<open>Rubbish_Restore\<close> (C32): paths and their text, moved trees, the round
  trip through the bin.

  \<^bold>\<open>Searching\<close> (\<open>search/search.py\<close>).  \<^emph>\<open>Search\<close>: the walk over a tree of files, matching, the arguments,
  the search for text and for names; the generators are lists their consumers take from.
  \<^emph>\<open>Search_Props\<close> (C33--C35): wildcards mean globs, a name search is sound and complete, a content
  search prints the matching lines up to its limit.

  \<^bold>\<open>The editor\<close> (\<open>write/write.py\<close>).  \<^emph>\<open>Write_State\<close>: the globals of a document, its lines with their identities and
  versions, caret, view, selection, wrapping, widths and history.  \<^emph>\<open>Write_Wrap\<close>: the segments of a wrapped line, their
  cache, and the binary indexed tree over the number of rows of each line, brought up to date lazily.  \<^emph>\<open>Write_Width\<close>: the
  widths of the lines and their maximum.  \<^emph>\<open>Write_Edit\<close>: \<open>editapply\<close>, through which every change goes, and undoing and
  redoing.  \<^emph>\<open>Write_Motion\<close>, \<^emph>\<open>Write_Commands\<close>, \<^emph>\<open>Write_Keys\<close>: moving, selecting, commands on lines and selections,
  searching and replacing, and what a key does.  \<^emph>\<open>Write_Format\<close>: encodings, line endings, their recognition and the bytes
  of a document.  \<^emph>\<open>Write_Save\<close>: reading and writing with the calls of \<^emph>\<open>Broker_IO\<close>.  \<^emph>\<open>Write_App\<close>: the running program,
  its one worker, its dialogs and pickers, as one function of an event.  Of the proofs, \<^emph>\<open>Write_Text\<close> reads a document as one
  text in which carets are prefixes; \<^emph>\<open>Write_Ops\<close> holds the locale \<open>editor_rel\<close>, which carries a relation over every
  operation and is interpreted for the editing steps and the layout; \<^emph>\<open>Write_History\<close> and \<^emph>\<open>Write_Session\<close> give each revision the
  text it names; \<^emph>\<open>Write_Tree\<close> and \<^emph>\<open>Write_Layout\<close> follow the index of wrapped rows; \<^emph>\<open>Write_Format_Facts\<close> reads back
  what is written; \<^emph>\<open>Write_Guard\<close> follows a changed document through the events.  \<^emph>\<open>Write_Props\<close> (C5, C6, C36--C40): a
  document shown as unchanged is the one in its file, changes replace a piece of the text, undo and redo are inverse, saving
  is atomic and confined to the home, documents read back, unsaved changes are kept, and the displayed rows are those of
  the wrapped text.

  \<^bold>\<open>Bounds.\<close>  Loops over data recur on the data.  \<open>write_loop\<close> and \<open>read_loop\<close> take the length of
  the data and the maximum to read as the number of rounds, which is enough because a round that
  moves no byte ends the loop; \<open>splitlines\<close> takes the length of the text, since every line removes a
  character.  The main loop of the daemon and the client's receive loop run over the list of what
  the kernel delivers; running out of it is a result of its own (still serving, still blocked).
  A chain of link files is followed for at most \<open>LINKFILEMAXHOPS\<close> steps, as the code does.  The search for the name of
  a copy has one step more than there are entries; C14 shows that this is enough.
  The history of the editor keeps the limits of the code, \<open>UNDO_LIMIT\<close> and \<open>UNDO_BYTE_LIMIT\<close>; its search in the tree takes as
  many steps as the length of the tree has bits.

  \<^bold>\<open>Not modelled.\<close>  Logging, argument parsing and the branches for systems other than POSIX;
  loading the Argon2 library; signals in the middle of a round of the daemon; interruptions of the
  shell other than at the question of \<open>destroy\<close>.  Symbolic links in the file system of
  the shell and the rubbish, which The One OS replaces by link files.  The directives of the shell that
  drive other services, its line editor and its windows.  The graphical
  programs (\<open>array\<close>, \<open>expanse\<close>, \<open>settings\<close>, \<open>viewer\<close>, \<open>snap\<close>, \<open>player\<close>), \<open>graphics\<close> and the
  window server are dominated by drawing through native libraries; \<open>audio\<close>, \<open>media\<close>, \<open>network\<close>,
  \<open>drivers\<close>, \<open>chromium\<close> and \<open>GODDESS\<close> by the kernel and foreign programs they drive.  Of the editor, its drawing, menus, pointer, printing,
  settings, and the loading and saving that start-up and tests use while it is not running.

  \<^bold>\<open>Plan.\<close>  Next: the round trip of locations, what a failed transaction takes back, the evaluator of \<open>calculator\<close>, and the
  shell's directives that read and write text.
\<close>

end
